(* ===== verification/Go_Prelude.thy ===== *)
theory Go_Prelude
  imports Complex_Main "HOL-Library.Word"
begin

text \<open>
  The part of Go and of its standard library that the program relies on: machine integers,
  \<open>time.Duration\<close> and \<open>time.Time\<close>, the \<open>strings\<close> functions, the \<open>errors\<close> package with
  wrapping, joining, \<open>errors.Is\<close> and \<open>errors.As\<close>, and fixed arrays of three elements.
  The theory also holds the collections of rewrite rules and the generic lemmas that the
  component theories share.
\<close>

named_theorems go_arith \<open>definitions of the fixed-width operations\<close>
named_theorems store_simps \<open>reading a table after an update\<close>
named_theorems worker_simps \<open>unfolding rules of the worker steps\<close>

section \<open>Integers and time\<close>

type_synonym u8 = "8 word"
type_synonym u32 = "32 word"
type_synonym u64 = "64 word"

text \<open>
  A \<open>time.Duration\<close> is an int64 number of nanoseconds; a \<open>time.Time\<close> is the number of
  nanoseconds since the zero time (January 1, year 1, 00:00 UTC), so \<open>IsZero\<close> is equality
  with 0. Durations are carried as \<open>int\<close>, and \<open>i64\<close> writes out the wrap-around of int64
  arithmetic wherever the code multiplies or adds without a bound.
\<close>

type_synonym duration = int
type_synonym timestamp = int

definition i64 :: "int \<Rightarrow> int" where
  "i64 x = (x + 2 ^ 63) mod 2 ^ 64 - 2 ^ 63"

definition i32 :: "int \<Rightarrow> int" where
  "i32 x = (x + 2 ^ 31) mod 2 ^ 32 - 2 ^ 31"

definition max_i64 :: int where
  "max_i64 = 2 ^ 63 - 1"

definition min_i64 :: int where
  "min_i64 = - (2 ^ 63)"

text \<open>\<open>Time.Sub\<close> saturates at the extremes of \<open>time.Duration\<close>.\<close>

definition time_sub :: "timestamp \<Rightarrow> timestamp \<Rightarrow> duration" where
  "time_sub a b = max min_i64 (min max_i64 (a - b))"

text \<open>Integer division of Go truncates towards zero.\<close>

definition go_div :: "int \<Rightarrow> int \<Rightarrow> int" where
  "go_div a b = sgn a * sgn b * (\<bar>a\<bar> div \<bar>b\<bar>)"

definition go_mod :: "int \<Rightarrow> int \<Rightarrow> int" where
  "go_mod a b = a - b * go_div a b"

definition millisecond :: duration where "millisecond = 1000000"
definition second :: duration where "second = 1000000000"
definition minute :: duration where "minute = 60 * second"
definition hour :: duration where "hour = 60 * minute"

lemmas time_units = millisecond_def second_def minute_def hour_def

declare i64_def [go_arith] i32_def [go_arith] time_sub_def [go_arith]
  max_i64_def [go_arith] min_i64_def [go_arith] go_div_def [go_arith] go_mod_def [go_arith]

definition is_i64 :: "int \<Rightarrow> bool" where
  "is_i64 x \<longleftrightarrow> min_i64 \<le> x \<and> x \<le> max_i64"

lemma i64_id: "is_i64 x \<Longrightarrow> i64 x = x"
  by (simp add: i64_def is_i64_def min_i64_def max_i64_def)

lemma i32_id: "- (2 ^ 31) \<le> x \<Longrightarrow> x < 2 ^ 31 \<Longrightarrow> i32 x = x"
  by (simp add: i32_def)

lemma go_div_nonneg: "0 \<le> a \<Longrightarrow> 0 < b \<Longrightarrow> go_div a b = a div b"
  by (cases "a = 0") (auto simp: go_div_def)

lemma go_mod_nonneg: "0 \<le> a \<Longrightarrow> 0 < b \<Longrightarrow> go_mod a b = a mod b"
  by (simp add: go_mod_def go_div_nonneg minus_mult_div_eq_mod)

section \<open>Strings\<close>

text \<open>
  Go strings are byte sequences, \<open>string\<close> here: a byte per \<open>char\<close>. \<open>strings.Index\<close> returns
  the first position or -1, which is \<open>None\<close>.
\<close>

fun is_prefix :: "string \<Rightarrow> string \<Rightarrow> bool" where
  "is_prefix [] ys = True"
| "is_prefix (x # xs) [] = False"
| "is_prefix (x # xs) (y # ys) = (x = y \<and> is_prefix xs ys)"

definition has_suffix :: "string \<Rightarrow> string \<Rightarrow> bool" where
  "has_suffix s suf = is_prefix (rev suf) (rev s)"

definition trim_prefix :: "string \<Rightarrow> string \<Rightarrow> string" where
  "trim_prefix s pre = (if is_prefix pre s then drop (length pre) s else s)"

definition trim_suffix :: "string \<Rightarrow> string \<Rightarrow> string" where
  "trim_suffix s suf = (if has_suffix s suf then take (length s - length suf) s else s)"

fun str_index :: "string \<Rightarrow> string \<Rightarrow> nat option" where
  "str_index [] pat = (if pat = [] then Some 0 else None)"
| "str_index (c # cs) pat =
     (if is_prefix pat (c # cs) then Some 0 else map_option Suc (str_index cs pat))"

definition str_contains :: "string \<Rightarrow> string \<Rightarrow> bool" where
  "str_contains s pat = (str_index s pat \<noteq> None)"

text \<open>\<open>strings.LastIndex\<close> of a byte.\<close>

definition last_index :: "string \<Rightarrow> char \<Rightarrow> nat option" where
  "last_index s c = (if c \<in> set s then Some (length s - 1 - length (takeWhile (\<lambda>x. x \<noteq> c) (rev s))) else None)"

lemma last_index_snoc: "c \<notin> set t \<Longrightarrow> last_index (s @ c # t) c = Some (length s)"
proof -
  assume "c \<notin> set t"
  then have "takeWhile (\<lambda>x. x \<noteq> c) (rev t @ c # rev s) = rev t" by (subst takeWhile_append2) auto
  then show ?thesis by (simp add: last_index_def)
qed

text \<open>
  \<open>strings.TrimSpace\<close> removes leading and trailing Unicode white space: the UTF-8 encodings of
  the code points for which \<open>unicode.IsSpace\<close> holds.
\<close>

definition space_runes :: "string list" where
  "space_runes =
     [[CHR 0x09], [CHR 0x0A], [CHR 0x0B], [CHR 0x0C], [CHR 0x0D], [CHR 0x20],
      [CHR 0xC2, CHR 0x85], [CHR 0xC2, CHR 0xA0], [CHR 0xE1, CHR 0x9A, CHR 0x80],
      [CHR 0xE2, CHR 0x80, CHR 0x80], [CHR 0xE2, CHR 0x80, CHR 0x81],
      [CHR 0xE2, CHR 0x80, CHR 0x82], [CHR 0xE2, CHR 0x80, CHR 0x83],
      [CHR 0xE2, CHR 0x80, CHR 0x84], [CHR 0xE2, CHR 0x80, CHR 0x85],
      [CHR 0xE2, CHR 0x80, CHR 0x86], [CHR 0xE2, CHR 0x80, CHR 0x87],
      [CHR 0xE2, CHR 0x80, CHR 0x88], [CHR 0xE2, CHR 0x80, CHR 0x89],
      [CHR 0xE2, CHR 0x80, CHR 0x8A], [CHR 0xE2, CHR 0x80, CHR 0xA8],
      [CHR 0xE2, CHR 0x80, CHR 0xA9], [CHR 0xE2, CHR 0x80, CHR 0xAF],
      [CHR 0xE2, CHR 0x81, CHR 0x9F], [CHR 0xE3, CHR 0x80, CHR 0x80]]"

function trim_runes :: "string list \<Rightarrow> string \<Rightarrow> string" where
  "trim_runes rs s =
     (case find (\<lambda>r. r \<noteq> [] \<and> is_prefix r s) rs of
        None \<Rightarrow> s
      | Some r \<Rightarrow> trim_runes rs (drop (length r) s))"
  by pat_completeness auto
termination
proof (relation "measure (\<lambda>(rs, s). length s)", goal_cases)
  case 1
  then show ?case by simp
next
  case (2 rs s r)
  then have "r \<noteq> []" and "is_prefix r s"
    by (auto simp: find_Some_iff)
  then show ?case
    by (cases s; cases r) auto
qed

declare trim_runes.simps [simp del]

definition trim_space :: "string \<Rightarrow> string" where
  "trim_space s = rev (trim_runes (map rev space_runes) (rev (trim_runes space_runes s)))"

lemma trim_runes_Nil [simp]: "trim_runes rs [] = []"
proof -
  have "find (\<lambda>r. r \<noteq> [] \<and> is_prefix r []) rs = None"
    by (auto simp: find_None_iff elim: is_prefix.elims)
  then show ?thesis
    by (simp add: trim_runes.simps [of rs "[]"])
qed

lemma trim_space_Nil [simp]: "trim_space [] = []"
  by (simp add: trim_space_def)

definition ascii_lower :: "char \<Rightarrow> char" where
  "ascii_lower c = (if 65 \<le> (of_char c :: nat) \<and> (of_char c :: nat) \<le> 90 then char_of ((of_char c :: nat) + 32) else c)"

text \<open>
  \<open>strings.ToLower\<close>: the ASCII capitals, and the two other code points whose lower case is ASCII (U+0130 and U+212A). The cases of
  further code points are left alone: the texts it is applied to are protocol names, or are searched for ASCII patterns only, and no
  other code point is changed to or from ASCII.
\<close>

fun to_lower :: "string \<Rightarrow> string" where
  "to_lower [] = []"
| "to_lower (c # cs) =
     (if is_prefix [CHR 0xC4, CHR 0xB0] (c # cs) then CHR ''i'' # to_lower (drop 1 cs)
      else if is_prefix [CHR 0xE2, CHR 0x84, CHR 0xAA] (c # cs) then CHR ''k'' # to_lower (drop 2 cs)
      else ascii_lower c # to_lower cs)"

text \<open>Decimal digits of a number, as \<open>%d\<close> prints them.\<close>

fun show_nat :: "nat \<Rightarrow> string" where
  "show_nat n =
     (if n < 10 then [char_of (48 + n)] else show_nat (n div 10) @ [char_of (48 + n mod 10)])"

declare show_nat.simps [simp del]

definition show_int :: "int \<Rightarrow> string" where
  "show_int i = (if i < 0 then CHR ''-'' # show_nat (nat (- i)) else show_nat (nat i))"

definition show_u32 :: "u32 \<Rightarrow> string" where
  "show_u32 w = show_nat (unat w)"

text \<open>
  \<open>strconv.Atoi\<close>: an optional sign and at least one decimal digit, within int64; \<open>None\<close> is its
  error. (The source never passes it a base prefix or underscores, which base 10 rejects.)
\<close>

fun digit_val :: "char \<Rightarrow> nat option" where
  "digit_val c = (let n = of_char c in if 48 \<le> n \<and> n \<le> 57 then Some (n - 48) else None)"

fun digits_val :: "nat \<Rightarrow> string \<Rightarrow> nat option" where
  "digits_val acc [] = Some acc"
| "digits_val acc (c # cs) =
     (case digit_val c of None \<Rightarrow> None | Some d \<Rightarrow> digits_val (10 * acc + d) cs)"

definition atoi :: "string \<Rightarrow> int option" where
  "atoi s =
     (let neg = (is_prefix ''-'' s);
          ds = (if is_prefix ''-'' s \<or> is_prefix ''+'' s then tl s else s)
      in if ds = [] then None
         else case digits_val 0 ds of
                None \<Rightarrow> None
              | Some n \<Rightarrow> (let v = (if neg then - int n else int n)
                           in if min_i64 \<le> v \<and> v \<le> max_i64 then Some v else None))"

lemma is_prefix_iff: "is_prefix xs ys \<longleftrightarrow> (\<exists>zs. ys = xs @ zs)"
  by (induction xs ys rule: is_prefix.induct) auto

lemma is_prefix_append [simp]: "is_prefix xs (xs @ ys)"
  by (auto simp: is_prefix_iff)

lemma has_suffix_iff: "has_suffix s suf \<longleftrightarrow> (\<exists>pre. s = pre @ suf)"
proof -
  have "has_suffix s suf \<longleftrightarrow> (\<exists>zs. rev s = rev suf @ zs)"
    by (simp add: has_suffix_def is_prefix_iff)
  also have "\<dots> \<longleftrightarrow> (\<exists>zs. s = rev zs @ suf)"
    by (metis rev_append rev_rev_ident)
  also have "\<dots> \<longleftrightarrow> (\<exists>pre. s = pre @ suf)"
    by (metis rev_rev_ident)
  finally show ?thesis .
qed

lemma has_suffix_append [simp]: "has_suffix (pre @ suf) suf"
  by (auto simp: has_suffix_iff)

lemma trim_suffix_append [simp]: "trim_suffix (s @ suf) suf = s"
  by (simp add: trim_suffix_def)

lemma trim_prefix_append [simp]: "trim_prefix (pre @ s) pre = s"
  by (simp add: trim_prefix_def)

definition is_digit :: "char \<Rightarrow> bool" where "is_digit c \<longleftrightarrow> digit_val c \<noteq> None"

lemma digits_val_append: "digits_val a (xs @ ys) = Option.bind (digits_val a xs) (\<lambda>b. digits_val b ys)"
  by (induction a xs rule: digits_val.induct) (auto split: option.splits)

lemma digit_val_char: "n < 10 \<Longrightarrow> digit_val (char_of (48 + n)) = Some n"
  by (simp add: Let_def)

lemma show_nat_digits: "digits_val 0 (show_nat n) = Some n"
proof (induction n rule: show_nat.induct)
  case (1 n)
  show ?case
  proof (cases "n < 10")
    case True
    then show ?thesis by (subst show_nat.simps) (simp add: digit_val_char del: digit_val.simps)
  next
    case False
    then have "digits_val 0 (show_nat (n div 10)) = Some (n div 10)" using 1 by simp
    with False show ?thesis
      by (subst show_nat.simps) (simp add: digits_val_append digit_val_char del: digit_val.simps)
  qed
qed

lemma show_nat_chars: "c \<in> set (show_nat n) \<Longrightarrow> is_digit c"
proof (induction n rule: show_nat.induct)
  case (1 n)
  then show ?case
    by (subst (asm) (2) show_nat.simps) (auto simp: is_digit_def digit_val_char simp del: digit_val.simps split: if_splits)
qed

lemma show_nat_nonempty: "show_nat n \<noteq> []"
  by (subst show_nat.simps) simp

lemma is_digit_range: "is_digit c \<longleftrightarrow> 48 \<le> (of_char c :: nat) \<and> (of_char c :: nat) \<le> 57"
  by (simp add: is_digit_def Let_def)

lemma no_trim: "s \<noteq> [] \<Longrightarrow> \<forall>r\<in>set rs. r \<noteq> [] \<and> hd r \<noteq> hd s \<Longrightarrow> trim_runes rs s = s"
proof -
  assume s: "s \<noteq> []" and r: "\<forall>r\<in>set rs. r \<noteq> [] \<and> hd r \<noteq> hd s"
  have "\<not> is_prefix r s" if "r \<in> set rs" for r using s r that by (cases r; cases s) auto
  then have "find (\<lambda>r. r \<noteq> [] \<and> is_prefix r s) rs = None" by (auto simp: find_None_iff)
  then show ?thesis by (simp add: trim_runes.simps [of rs s])
qed

definition printable :: "char \<Rightarrow> bool" where
  "printable c \<longleftrightarrow> 33 \<le> (of_char c :: nat) \<and> (of_char c :: nat) \<le> 126"

lemma space_bytes: "list_all (\<lambda>r. r \<noteq> [] \<and> \<not> printable (hd r) \<and> \<not> printable (last r)) space_runes"
  by code_simp

text \<open>Printable ASCII is not white space, so a text between such characters is not trimmed.\<close>

lemma trim_printable:
  assumes "s \<noteq> []" and "printable (hd s)" and "printable (last s)"
  shows "trim_space s = s"
proof -
  have "trim_runes space_runes s = s"
    using space_bytes assms(1,2) by (intro no_trim) (auto simp: list_all_iff)
  moreover have "trim_runes (map rev space_runes) (rev s) = rev s"
    using space_bytes assms(1,3) by (intro no_trim) (auto simp: list_all_iff hd_rev)
  ultimately show ?thesis by (simp add: trim_space_def)
qed

lemma trim_digits:
  assumes "s \<noteq> []" and "\<And>c. c \<in> set s \<Longrightarrow> is_digit c"
  shows "trim_space s = s"
proof (rule trim_printable [OF assms(1)])
  show "printable (hd s)" "printable (last s)"
    using assms(2) [OF hd_in_set [OF assms(1)]] assms(2) [OF last_in_set [OF assms(1)]] by (auto simp: printable_def is_digit_range)
qed

lemma str_index_bound: "str_index s p = Some i \<Longrightarrow> i + length p \<le> length s \<and> is_prefix p (drop i s)"
proof (induction s arbitrary: i)
  case (Cons c cs)
  show ?case
  proof (cases "is_prefix p (c # cs)")
    case True
    then obtain r where "c # cs = p @ r" by (auto simp: is_prefix_iff)
    then have "length p \<le> length (c # cs)" by (metis length_append le_add1)
    with True Cons.prems show ?thesis by simp
  next
    case False
    with Cons show ?thesis by (auto split: if_splits)
  qed
qed (auto split: if_splits)

text \<open>Text without the first byte of a pattern is skipped by a search for it.\<close>

lemma str_index_skip: "p \<noteq> [] \<Longrightarrow> hd p \<notin> set a \<Longrightarrow> str_index (a @ b) p = map_option ((+) (length a)) (str_index b p)"
proof (induction a)
  case Nil
  then show ?case by (simp add: option.map_ident)
next
  case (Cons c a)
  then have "\<not> is_prefix p (c # a @ b)" by (cases p) auto
  with Cons show ?case by (simp add: option.map_comp comp_def)
qed

section \<open>Errors\<close>

text \<open>
  The error values of the program. A sentinel is a package-level \<open>errors.New\<close> value that
  callers compare with \<open>errors.Is\<close>; \<open>EText\<close> is any other leaf; \<open>EWrap pre e post\<close> is
  \<open>fmt.Errorf\<close> with one \<open>%w\<close> verb and the text around it; \<open>EJoin\<close> is \<open>errors.Join\<close>;
  \<open>ECheck\<close> is a \<open>*contract.ProxyCheckError\<close> with its fields Kind, Reason, Challenge,
  RetryAfter and Err (port/contract/proxy\_scan.go); \<open>EDial\<close> is a \<open>*httpclient.ProxyDialError\<close>
  with its Reason and Err (infrastructure/httpclient/proxy\_transport.go). A nil error is the value \<open>None\<close> or the
  right injection of a result.
\<close>

datatype check_kind = CheckLocal | CheckProxy | CheckTarget | CheckDeadline | CheckCancelled

datatype sentinel =
    ErrPoisonPayload | ErrNoHandler | ErrCharacterNotFound | ErrAchievementsPrivate
  | ErrProfileHidden | ErrInvalidDimension | ErrUIStatsUnavailable
  | ErrEmitFailed | ErrPublishFailed | ErrLookupFailed | ErrDiscoveryLimitReached
  | CtxCanceled | CtxDeadlineExceeded

datatype err =
    ESent sentinel
  | EText string
  | EWrap string err string
  | EJoin "err list"
  | ECheck check_kind string bool duration "err option"
  | EDial string err

type_synonym 'a result = "err + 'a"

fun errors_is :: "err \<Rightarrow> sentinel \<Rightarrow> bool" where
  "errors_is (ESent s) t = (s = t)"
| "errors_is (EText m) t = False"
| "errors_is (EWrap pre e post) t = errors_is e t"
| "errors_is (EJoin es) t = list_ex (\<lambda>e. errors_is e t) es"
| "errors_is (ECheck k r ch ra None) t = False"
| "errors_is (ECheck k r ch ra (Some e)) t = errors_is e t"
| "errors_is (EDial r e) t = errors_is e t"

text \<open>
  \<open>errors.As\<close> with a \<open>*ProxyCheckError\<close> target: the first such error of a depth-first,
  pre-order traversal. The result carries Kind, Reason and RetryAfter.
\<close>

record check_error =
  ce_Kind :: check_kind
  ce_Reason :: string
  ce_Challenge :: bool
  ce_RetryAfter :: duration

fun first_some :: "'a option list \<Rightarrow> 'a option" where
  "first_some [] = None"
| "first_some (None # xs) = first_some xs"
| "first_some (Some x # xs) = Some x"

fun errors_as :: "err \<Rightarrow> check_error option" where
  "errors_as (ESent s) = None"
| "errors_as (EText m) = None"
| "errors_as (EWrap pre e post) = errors_as e"
| "errors_as (EJoin es) = first_some (map errors_as es)"
| "errors_as (ECheck k r ch ra inner) =
     Some \<lparr>ce_Kind = k, ce_Reason = r, ce_Challenge = ch, ce_RetryAfter = ra\<rparr>"
| "errors_as (EDial r e) = errors_as e"

text \<open>\<open>errors.As\<close> with a \<open>*ProxyDialError\<close> target: its Reason.\<close>

fun errors_as_dial :: "err \<Rightarrow> string option" where
  "errors_as_dial (ESent s) = None"
| "errors_as_dial (EText m) = None"
| "errors_as_dial (EWrap pre e post) = errors_as_dial e"
| "errors_as_dial (EJoin es) = first_some (map errors_as_dial es)"
| "errors_as_dial (ECheck k r ch ra None) = None"
| "errors_as_dial (ECheck k r ch ra (Some e)) = errors_as_dial e"
| "errors_as_dial (EDial r e) = Some r"

fun kind_string :: "check_kind \<Rightarrow> string" where
  "kind_string CheckLocal = ''local''"
| "kind_string CheckProxy = ''proxy''"
| "kind_string CheckTarget = ''target''"
| "kind_string CheckDeadline = ''deadline''"
| "kind_string CheckCancelled = ''cancelled''"

fun sentinel_text :: "sentinel \<Rightarrow> string" where
  "sentinel_text ErrPoisonPayload = ''poison payload''"
| "sentinel_text ErrNoHandler = ''no handler registered''"
| "sentinel_text ErrCharacterNotFound = ''lodestone character not found''"
| "sentinel_text ErrAchievementsPrivate = ''lodestone achievements private''"
| "sentinel_text ErrProfileHidden = ''character profile hidden: no race data''"
| "sentinel_text ErrInvalidDimension =
     ''invalid breakdown dimension: want race|world|datacenter|region''"
| "sentinel_text ErrUIStatsUnavailable = ''UI statistics unavailable''"
| "sentinel_text ErrEmitFailed = ''emit failed''"
| "sentinel_text ErrPublishFailed = ''publish failed''"
| "sentinel_text ErrLookupFailed = ''proxy lookup failed''"
| "sentinel_text ErrDiscoveryLimitReached = ''discovery limit reached''"
| "sentinel_text CtxCanceled = ''context canceled''"
| "sentinel_text CtxDeadlineExceeded = ''context deadline exceeded''"

fun join_lines :: "string list \<Rightarrow> string" where
  "join_lines [] = []"
| "join_lines [s] = s"
| "join_lines (s # t # ss) = s @ [CHR 0x0A] @ join_lines (t # ss)"

fun error_text :: "err \<Rightarrow> string" where
  "error_text (ESent s) = sentinel_text s"
| "error_text (EText m) = m"
| "error_text (EWrap pre e post) = pre @ error_text e @ post"
| "error_text (EJoin es) = join_lines (map error_text es)"
| "error_text (ECheck k r ch ra None) =
     (if r \<noteq> [] then ''proxy check '' @ kind_string k @ '': '' @ r
      else ''proxy check '' @ kind_string k)"
| "error_text (ECheck k r ch ra (Some e)) =
     (if r \<noteq> [] then ''proxy check '' @ kind_string k @ '': '' @ r @ '': '' @ error_text e
      else ''proxy check '' @ kind_string k @ '': '' @ error_text e)"
| "error_text (EDial r e) = ''proxy '' @ r @ '': '' @ error_text e"

section \<open>Keyed tables\<close>

text \<open>
  A database table is the list of its rows. \<open>INSERT ... ON CONFLICT (key) DO UPDATE\<close> merges the new
  row into the one with its key, or appends it; \<open>merge old new\<close> is the row the SET clause leaves.
\<close>

definition upsert_by :: "('r \<Rightarrow> 'k) \<Rightarrow> ('r \<Rightarrow> 'r \<Rightarrow> 'r) \<Rightarrow> 'r \<Rightarrow> 'r list \<Rightarrow> 'r list" where
  "upsert_by key merge x xs =
     (if list_ex (\<lambda>r. key r = key x) xs then map (\<lambda>r. if key r = key x then merge r x else r) xs
      else xs @ [x])"

definition row_with :: "('r \<Rightarrow> 'k) \<Rightarrow> 'k \<Rightarrow> 'r list \<Rightarrow> 'r option" where
  "row_with key k xs = find (\<lambda>r. key r = k) xs"

lemma row_with_simps [simp]:
  "row_with key k [] = None"
  "row_with key k (x # xs) = (if key x = k then Some x else row_with key k xs)"
  by (simp_all add: row_with_def)

lemma row_with_append [simp]:
  "row_with key k (xs @ ys) = (case row_with key k xs of None \<Rightarrow> row_with key k ys | Some r \<Rightarrow> Some r)"
  by (induction xs) auto

lemma row_with_None: "row_with key k xs = None \<longleftrightarrow> k \<notin> key ` set xs"
  by (induction xs) auto

lemma row_with_SomeD: "row_with key k xs = Some r \<Longrightarrow> r \<in> set xs \<and> key r = k"
  by (induction xs) (auto split: if_splits)

lemma row_with_Some_iff:
  "distinct (map key xs) \<Longrightarrow> row_with key k xs = Some r \<longleftrightarrow> r \<in> set xs \<and> key r = k"
  by (induction xs) (auto simp: image_iff)

lemma row_with_map:
  "(\<And>r. key (f r) = key r) \<Longrightarrow> row_with key k (map f xs) = map_option f (row_with key k xs)"
  by (induction xs) auto

lemma row_with_map_same:
  "(\<And>r. key r = key x \<Longrightarrow> key (merge r x) = key r) \<Longrightarrow>
   row_with key k (map (\<lambda>r. if key r = key x then merge r x else r) xs) =
     (if k = key x then map_option (\<lambda>r. merge r x) (row_with key k xs) else row_with key k xs)"
  by (induction xs) auto

lemma list_ex_key: "list_ex (\<lambda>r. key r = k) xs \<longleftrightarrow> row_with key k xs \<noteq> None"
  by (induction xs) auto

lemma row_with_upsert [store_simps]:
  assumes "\<And>r. key r = key x \<Longrightarrow> key (merge r x) = key r"
  shows "row_with key k (upsert_by key merge x xs) =
     (if k = key x then Some (case row_with key k xs of None \<Rightarrow> x | Some r \<Rightarrow> merge r x)
      else row_with key k xs)"
  using assms
  by (auto simp: upsert_by_def row_with_map_same list_ex_key split: option.splits)

lemma map_key_merge:
  assumes "\<And>r. key r = key x \<Longrightarrow> key (merge r x) = key r"
  shows "map key (map (\<lambda>r. if key r = key x then merge r x else r) xs) = map key xs"
  using assms by (induction xs) auto

lemma map_key_upsert:
  assumes "\<And>r. key r = key x \<Longrightarrow> key (merge r x) = key r"
  shows "map key (upsert_by key merge x xs) = (if key x \<in> key ` set xs then map key xs else map key xs @ [key x])"
proof -
  have ex: "list_ex (\<lambda>r. key r = key x) xs \<longleftrightarrow> key x \<in> key ` set xs"
    by (simp add: list_ex_key row_with_None)
  show ?thesis
    unfolding upsert_by_def ex using map_key_merge [of key x merge xs, OF assms] by simp
qed

lemma distinct_upsert:
  assumes "\<And>r. key r = key x \<Longrightarrow> key (merge r x) = key r" and "distinct (map key xs)"
  shows "distinct (map key (upsert_by key merge x xs))"
  using assms(2) map_key_upsert [of key x merge xs, OF assms(1)] by simp

text \<open>Replacing all rows of an owner by new ones, one upsert at a time.\<close>

definition upsert_all :: "('r \<Rightarrow> 'k) \<Rightarrow> ('r \<Rightarrow> 'r \<Rightarrow> 'r) \<Rightarrow> 'r list \<Rightarrow> 'r list \<Rightarrow> 'r list" where
  "upsert_all key merge new xs = fold (upsert_by key merge) new xs"

lemma upsert_all_simps [simp]:
  "upsert_all key merge [] xs = xs"
  "upsert_all key merge (x # new) xs = upsert_all key merge new (upsert_by key merge x xs)"
  by (simp_all add: upsert_all_def)

lemma distinct_upsert_all:
  assumes "\<And>r x. key r = key x \<Longrightarrow> key (merge r x) = key r"
  shows "distinct (map key xs) \<Longrightarrow> distinct (map key (upsert_all key merge new xs))"
proof (induction new arbitrary: xs)
  case (Cons x new)
  then show ?case using distinct_upsert [of key x merge xs, OF assms] by simp
qed simp

lemma upsert_all_fresh:
  assumes "distinct (map key new)" and "key ` set new \<inter> key ` set xs = {}"
  shows "upsert_all key merge new xs = xs @ new"
  using assms
proof (induction new arbitrary: xs)
  case (Cons x new)
  then have "key x \<notin> key ` set xs" by auto
  then have "upsert_by key merge x xs = xs @ [x]" by (auto simp: upsert_by_def list_ex_iff image_iff)
  with Cons show ?case by auto
qed simp

section \<open>Arrays of three elements\<close>

text \<open>
  \<open>[3]int\<close> and \<open>[3]bool\<close> are indexed by the scan queue; an index is 0, 1 or 2 in every
  access of the code.
\<close>

datatype 'a arr3 = A3 (at0: 'a) (at1: 'a) (at2: 'a)

fun get3 :: "'a arr3 \<Rightarrow> nat \<Rightarrow> 'a" where
  "get3 (A3 a b c) i = (if i = 0 then a else if i = 1 then b else c)"

fun set3 :: "'a arr3 \<Rightarrow> nat \<Rightarrow> 'a \<Rightarrow> 'a arr3" where
  "set3 (A3 a b c) i v = (if i = 0 then A3 v b c else if i = 1 then A3 a v c else A3 a b v)"

definition sum3 :: "int arr3 \<Rightarrow> int" where
  "sum3 a = at0 a + at1 a + at2 a"

lemma sum3_simp [simp]: "sum3 (A3 a b c) = a + b + c"
  by (simp add: sum3_def)

lemma sum3_set3 [simp]: "sum3 (set3 a i v) = sum3 a - get3 a i + v"
  by (cases a) auto

lemma get3_set3_same [simp]: "get3 (set3 a i v) i = v"
  by (cases a) auto

lemma get3_set3_other: "i < 3 \<Longrightarrow> j < 3 \<Longrightarrow> i \<noteq> j \<Longrightarrow> get3 (set3 a i v) j = get3 a j"
  by (cases a) auto

lemma show_nat_free: "\<not> is_digit c \<Longrightarrow> c \<notin> set (show_nat n)"
  using show_nat_chars by blast

lemma hd_show: "is_digit (hd (show_nat n))"
  using show_nat_chars hd_in_set [OF show_nat_nonempty] by blast

lemma atoi_show:
  assumes "int n \<le> max_i64"
  shows "atoi (show_nat n) = Some (int n)"
proof -
  have "\<not> is_prefix ''-'' (show_nat n)" "\<not> is_prefix ''+'' (show_nat n)"
    using hd_show [of n] show_nat_nonempty [of n] by (cases "show_nat n"; auto simp: is_digit_range)+
  with assms show ?thesis by (simp add: atoi_def Let_def show_nat_nonempty show_nat_digits min_i64_def)
qed

end
