(* ===== verification/Contract.thy ===== *)
theory Contract
  imports Go_Prelude
begin

text \<open>
  The data types of port/contract: the records that cross the boundaries between the domain
  and its adapters. Pointer fields that may be nil are options. Field names carry a prefix for
  their struct. \<open>UptimePercent\<close> (a float64) is a rational: the code only orders it.
\<close>

section \<open>Characters and milestones (port/contract/census.go, lodestone.go)\<close>

record CharacterRecord =
  cr_ID :: u32
  cr_Name :: string
  cr_World :: string
  cr_Datacenter :: string
  cr_Region :: string
  cr_Race :: string
  cr_Tribe :: string
  cr_Gender :: u8
  cr_GrandCompany :: string
  cr_FreeCompanyID :: "string option"
  cr_FreeCompanyName :: "string option"
  cr_Bio :: string
  cr_ActiveJob :: string
  cr_ItemLevel :: int
  cr_AchievementsPrivate :: bool
  cr_LatestAchievementID :: "u32 option"
  cr_LatestAchievementAt :: "timestamp option"
  cr_FirstSeenAt :: timestamp
  cr_LastCensusAt :: "timestamp option"
  cr_DeletedAt :: "timestamp option"

record ClassJobRecord =
  cj_CharacterID :: u32
  cj_ClassJobID :: u8
  cj_Name :: string
  cj_Level :: u8
  cj_ExpLevel :: u32

record MilestoneAchievement =
  ma_AchievementID :: u32
  ma_Kind :: string
  ma_Expansion :: "string option"
  ma_Detail :: string

record CharacterMilestone =
  cm_CharacterID :: u32
  cm_AchievementID :: u32
  cm_AchievedAt :: timestamp

record CharacterProfile =
  cp_ID :: u32
  cp_Name :: string
  cp_World :: string
  cp_Datacenter :: string
  cp_Gender :: u8
  cp_Bio :: string
  cp_Race :: string
  cp_Tribe :: string
  cp_GrandCompany :: string
  cp_FreeCompanyID :: string
  cp_FreeCompanyName :: string
  cp_ActiveJob :: string
  cp_ClassJobs :: "ClassJobRecord list"

record AchievementResult =
  ar_AchievementID :: u32
  ar_Name :: string
  ar_Earned :: bool
  ar_EarnedAt :: timestamp

record AchievementSummary =
  as_Private :: bool
  as_TotalAchievements :: u32
  as_TotalPoints :: u32
  as_Milestones :: "AchievementResult list"
  as_LatestAchievement :: "AchievementResult option"

definition MilestoneKindExpansion :: string where
  "MilestoneKindExpansion = ''expansion_msq''"

definition MilestoneKindChocobo :: string where
  "MilestoneKindChocobo = ''chocobo''"

record CharacterFilter =
  cf_World :: string
  cf_Datacenter :: string
  cf_Region :: string
  cf_Race :: string
  cf_Name :: string
  cf_GrandCompany :: string
  cf_FreeCompanyID :: string
  cf_ActiveOnly :: bool
  cf_Since :: "timestamp option"
  cf_MinLevel :: u32
  cf_SortBy :: string
  cf_SortOrder :: string

definition no_filter :: CharacterFilter where
  "no_filter = \<lparr>cf_World = [], cf_Datacenter = [], cf_Region = [], cf_Race = [], cf_Name = [],
     cf_GrandCompany = [], cf_FreeCompanyID = [], cf_ActiveOnly = False, cf_Since = None,
     cf_MinLevel = 0, cf_SortBy = [], cf_SortOrder = []\<rparr>"

record GroupCount =
  gc_Key :: string
  gc_Total :: int
  gc_Active :: int

record DailyCount =
  dc_Day :: string
  dc_Count :: int

record ExpansionCount =
  xc_Expansion :: string
  xc_Count :: int

record DemographicCounts =
  dg_Tribes :: "GroupCount list"
  dg_Genders :: "GroupCount list"
  dg_RaceGenders :: "GroupCount list"

record CharacterGearRecord =
  cg_CharacterID :: u32
  cg_Slot :: string
  cg_ItemID :: u32
  cg_Name :: string
  cg_ItemLevel :: int
  cg_Dye :: "string option"
  cg_Materia :: "string list"
  cg_UpdatedAt :: timestamp

record CensusRun =
  rn_ID :: int
  rn_StartedAt :: timestamp
  rn_FinishedAt :: "timestamp option"
  rn_CharactersSeen :: int
  rn_NewCharacters :: int

section \<open>Proxies and scans (port/contract/proxy.go, proxy\_scan.go)\<close>

definition ProxyStatusActive :: string where "ProxyStatusActive = ''active''"
definition ProxyStatusInactive :: string where "ProxyStatusInactive = ''inactive''"
definition ProxyStatusDead :: string where "ProxyStatusDead = ''dead''"

record ProxyRecord =
  pr_ID :: int
  pr_Protocol :: string
  pr_IP :: string
  pr_Port :: int
  pr_Country :: "string option"
  pr_Anonymity :: "string option"
  pr_LatencyMS :: "int option"
  pr_UptimePercent :: "rat option"
  pr_Status :: string
  pr_LastScannedAt :: "timestamp option"
  pr_LastAliveAt :: "timestamp option"
  pr_FirstSeenAt :: timestamp
  pr_Source :: string
  pr_FailCount :: int
  pr_LockedBy :: "string option"
  pr_LockedAt :: "timestamp option"
  pr_CreatedAt :: timestamp
  pr_UpdatedAt :: timestamp
  pr_GeneralHealthy :: bool
  pr_LastCompletedAt :: "timestamp option"
  pr_LastVerifiedAt :: "timestamp option"
  pr_NextAttemptAt :: "timestamp option"
  pr_ScanNotBefore :: "timestamp option"
  pr_RecoveryStep :: int
  pr_ObservationVersion :: int
  pr_ScanToken :: "string option"
  pr_ScanLeaseUntil :: "timestamp option"
  pr_ClaimedVersion :: "int option"
  pr_DestinationCooldownUntil :: "timestamp option"

text \<open>The zero value \<open>ProxyRecord{}\<close>.\<close>

definition zero_proxy :: ProxyRecord where
  "zero_proxy = \<lparr>pr_ID = 0, pr_Protocol = [], pr_IP = [], pr_Port = 0,
      pr_Country = None, pr_Anonymity = None, pr_LatencyMS = None, pr_UptimePercent = None,
      pr_Status = [], pr_LastScannedAt = None, pr_LastAliveAt = None, pr_FirstSeenAt = 0,
      pr_Source = [], pr_FailCount = 0, pr_LockedBy = None, pr_LockedAt = None, pr_CreatedAt = 0,
      pr_UpdatedAt = 0, pr_GeneralHealthy = False, pr_LastCompletedAt = None,
      pr_LastVerifiedAt = None, pr_NextAttemptAt = None, pr_ScanNotBefore = None,
      pr_RecoveryStep = 0, pr_ObservationVersion = 0, pr_ScanToken = None,
      pr_ScanLeaseUntil = None, pr_ClaimedVersion = None, pr_DestinationCooldownUntil = None\<rparr>"

datatype ScanQueue = ScanVerification | ScanRecovery | ScanBackground

datatype ScanOutcome = ScanInconclusive | ScanSuccess | ScanFailure

record ProxyScanPolicy =
  po_VerifyInterval :: duration
  po_FreshnessTTL :: duration
  po_RecoveryBase :: duration
  po_RecoveryCap :: duration
  po_RecoveryHorizon :: duration
  po_LeaseDuration :: duration
  po_MinRepeatInterval :: duration
  po_InconclusiveRetry :: duration
  po_DeadAfter :: duration
  po_FailThreshold :: int

record ScanLease =
  sl_Record :: ProxyRecord
  sl_Token :: string
  sl_Version :: int

record ScanUpdate =
  su_Outcome :: ScanOutcome
  su_LatencyMS :: int
  su_NextDelay :: duration
  su_RepeatDelay :: duration
  su_RecoveryStep :: int
  su_FreshnessTTL :: duration
  su_DeadAfter :: duration
  su_FailThreshold :: int

record GuardSnapshot =
  gs_Healthy :: bool
  gs_Generation :: u64

fun queue_index :: "ScanQueue \<Rightarrow> nat" where
  "queue_index ScanVerification = 0"
| "queue_index ScanRecovery = 1"
| "queue_index ScanBackground = 2"

lemma queue_index_less [simp]: "queue_index q < 3"
  by (cases q) auto

section \<open>Queue jobs (port/contract/queue.go)\<close>

text \<open>
  A payload is the JSON document its bytes denote, or \<open>None\<close> for bytes that are not a JSON
  document. \<open>JInt\<close> is an integer literal and \<open>JFrac\<close> any other number literal, as its value.
\<close>

datatype json =
    JNull
  | JBool bool
  | JInt int
  | JFrac rat
  | JStr string
  | JArr "json list"
  | JObj "(string \<times> json) list"

type_synonym payload = "json option"

record QueueJob =
  qj_Type :: string
  qj_Payload :: payload

end
