(* ===== verification/Scheduling.thy ===== *)
theory Scheduling
  imports Contract
begin

text \<open>
  domain/proxy/scheduling.go: the recovery backoff, the attribution of one completed check and
  the relative update the store applies. The laws proved here: the backoff is the saturating
  exponential, clamping the stored step never changes the delay, and only a proxy or deadline
  failure under a stable, healthy guard is conclusive.
\<close>

section \<open>Definitions\<close>

text \<open>
  The loop \<open>for i := 0; i < step && d < cap; i++\<close>: the first argument counts the iterations
  that the bound on \<open>i\<close> still allows.
\<close>

fun recovery_loop :: "nat \<Rightarrow> duration \<Rightarrow> duration \<Rightarrow> duration" where
  "recovery_loop 0 d cap = (if d > cap then cap else d)"
| "recovery_loop (Suc n) d cap =
     (if d < cap
      then (if d > go_div cap 2 then cap else recovery_loop n (i64 (d * 2)) cap)
      else (if d > cap then cap else d))"

definition RecoveryDelay :: "int \<Rightarrow> duration \<Rightarrow> duration \<Rightarrow> duration" where
  "RecoveryDelay step base cap = recovery_loop (nat step) base cap"

definition ClassifyCheck :: "err option \<Rightarrow> GuardSnapshot \<Rightarrow> GuardSnapshot \<Rightarrow> ScanOutcome" where
  "ClassifyCheck e start finish =
     (case e of
        None \<Rightarrow> ScanSuccess
      | Some e' \<Rightarrow>
          if errors_is e' CtxCanceled then ScanInconclusive
          else (case errors_as e' of
                  None \<Rightarrow> ScanInconclusive
                | Some ce \<Rightarrow>
                    let stable = gs_Healthy start \<and> gs_Healthy finish
                                 \<and> gs_Generation start = gs_Generation finish
                    in if stable \<and> (ce_Kind ce = CheckProxy \<or> ce_Kind ce = CheckDeadline)
                       then ScanFailure else ScanInconclusive))"

text \<open>The loop \<open>for s < 64 && RecoveryDelay(s, base, cap) < cap\<close> from \<open>s = 1\<close>.\<close>

fun step_bound_loop :: "nat \<Rightarrow> int \<Rightarrow> duration \<Rightarrow> duration \<Rightarrow> int" where
  "step_bound_loop 0 s base cap = s + 1"
| "step_bound_loop (Suc n) s base cap =
     (if RecoveryDelay s base cap < cap then step_bound_loop n (s + 1) base cap else s + 1)"

definition recoveryStepBound :: "duration \<Rightarrow> duration \<Rightarrow> int" where
  "recoveryStepBound base cap = step_bound_loop 63 1 base cap"

definition MakeConsumerFailureUpdate :: "ProxyScanPolicy \<Rightarrow> ProxyRecord \<Rightarrow> ScanUpdate" where
  "MakeConsumerFailureUpdate p rec =
     (let step0 = i64 (pr_RecoveryStep rec + 1);
          bound = recoveryStepBound (po_RecoveryBase p) (po_RecoveryCap p);
          step = (if step0 < 1 \<or> step0 > bound then bound else step0)
      in \<lparr>su_Outcome = ScanFailure, su_LatencyMS = 0,
          su_NextDelay = RecoveryDelay (step - 1) (po_RecoveryBase p) (po_RecoveryCap p),
          su_RepeatDelay = po_MinRepeatInterval p, su_RecoveryStep = step,
          su_FreshnessTTL = po_FreshnessTTL p, su_DeadAfter = po_DeadAfter p,
          su_FailThreshold = po_FailThreshold p\<rparr>)"

definition MakeScanUpdate :: "ProxyScanPolicy \<Rightarrow> ProxyRecord \<Rightarrow> int \<Rightarrow> err option
    \<Rightarrow> GuardSnapshot \<Rightarrow> GuardSnapshot \<Rightarrow> ScanUpdate" where
  "MakeScanUpdate p rec latency e start finish =
     (let update = \<lparr>su_Outcome = ScanInconclusive, su_LatencyMS = latency, su_NextDelay = 0,
                    su_RepeatDelay = 0, su_RecoveryStep = 0, su_FreshnessTTL = po_FreshnessTTL p,
                    su_DeadAfter = po_DeadAfter p, su_FailThreshold = po_FailThreshold p\<rparr>
      in case ClassifyCheck e start finish of
           ScanSuccess \<Rightarrow>
             update\<lparr>su_Outcome := ScanSuccess, su_NextDelay := po_VerifyInterval p,
                    su_RepeatDelay := po_MinRepeatInterval p, su_RecoveryStep := 0\<rparr>
         | ScanFailure \<Rightarrow>
             (let failure = MakeConsumerFailureUpdate p rec
              in update\<lparr>su_Outcome := su_Outcome failure, su_NextDelay := su_NextDelay failure,
                        su_RepeatDelay := su_RepeatDelay failure,
                        su_RecoveryStep := su_RecoveryStep failure\<rparr>)
         | ScanInconclusive \<Rightarrow>
             (let delay0 = po_InconclusiveRetry p;
                  delay = (case Option.bind e errors_as of
                             Some ce \<Rightarrow> if ce_RetryAfter ce > delay0 then ce_RetryAfter ce else delay0
                           | None \<Rightarrow> delay0)
              in update\<lparr>su_Outcome := ScanInconclusive, su_RecoveryStep := pr_RecoveryStep rec,
                        su_NextDelay := delay, su_RepeatDelay := delay\<rparr>))"

section \<open>Recovery backoff\<close>

lemma half_less_double: "go_div cap 2 < d \<Longrightarrow> 0 < d \<Longrightarrow> cap < 2 * (d :: int)"
  by (cases "0 \<le> cap") (simp_all add: go_div_nonneg)

lemma recovery_loop_eq:
  "0 < d \<Longrightarrow> cap \<le> max_i64 \<Longrightarrow> recovery_loop n d cap = min (d * 2 ^ n) cap"
proof (induction n arbitrary: d)
  case 0
  then show ?case by simp
next
  case (Suc n)
  have grows: "d \<le> d * 2 ^ m" for m
    using Suc.prems(1) by simp
  consider (top) "cap \<le> d" | (half) "d < cap" "go_div cap 2 < d"
    | (rec) "d < cap" "d \<le> go_div cap 2"
    by linarith
  then show ?case
  proof cases
    case top
    then show ?thesis using grows [of "Suc n"] by (simp add: min_def)
  next
    case half
    have "cap < 2 * d" using half_less_double half Suc.prems by blast
    moreover have "2 * d \<le> d * 2 ^ Suc n"
      using Suc.prems(1) by simp
    ultimately have "cap < d * 2 ^ Suc n" by linarith
    then show ?thesis using half by (simp del: power_Suc)
  next
    case rec
    with Suc.prems have "0 < cap" by simp
    with rec have le: "d * 2 \<le> cap" by (simp add: go_div_nonneg)
    with Suc.prems have "i64 (d * 2) = d * 2"
      by (intro i64_id) (simp add: is_i64_def min_i64_def)
    with rec Suc show ?thesis by (simp add: mult.assoc)
  qed
qed

lemma RecoveryDelay_eq:
  "0 < base \<Longrightarrow> cap \<le> max_i64 \<Longrightarrow> RecoveryDelay step base cap = min (base * 2 ^ nat step) cap"
  by (simp add: RecoveryDelay_def recovery_loop_eq)

lemma step_bound_loop_props:
  assumes "0 < base" and "cap \<le> max_i64" and "0 \<le> s" and "63 \<le> s + int n"
  shows "s + 1 \<le> step_bound_loop n s base cap"
    and "step_bound_loop n s base cap \<le> s + int n + 1"
    and "RecoveryDelay (step_bound_loop n s base cap - 1) base cap = cap"
  using assms
proof (induction n arbitrary: s)
  case 0
  {
    case 1
    then show ?case by simp
  next
    case 2
    then show ?case by simp
  next
    case 3
    have "cap \<le> 2 ^ 63" using 3 by (simp add: max_i64_def)
    also have "(2::int) ^ 63 \<le> 2 ^ nat s"
      using 3 by (intro power_increasing) auto
    also have "\<dots> \<le> base * 2 ^ nat s" using 3 by simp
    finally show ?case using 3 by (simp add: RecoveryDelay_eq)
  }
next
  case (Suc n)
  {
    case 1
    then show ?case using Suc.IH(1) [of "s + 1"] by auto
  next
    case 2
    then show ?case using Suc.IH(2) [of "s + 1"] by auto
  next
    case 3
    then have "RecoveryDelay s base cap \<le> cap" by (simp add: RecoveryDelay_eq)
    then have "\<not> RecoveryDelay s base cap < cap \<Longrightarrow> RecoveryDelay s base cap = cap" by linarith
    with 3 show ?case using Suc.IH(3) [of "s + 1"] by auto
  }
qed

lemmas recoveryStepBound_props =
  step_bound_loop_props [of base cap 1 63 for base cap, folded recoveryStepBound_def]

lemma recoveryStepBound_cap:
  assumes "0 < base" and "cap \<le> max_i64"
  shows "RecoveryDelay (recoveryStepBound base cap - 1) base cap = cap"
  using recoveryStepBound_props(3) [OF assms] by simp

lemma recoveryStepBound_range:
  assumes "0 < base" and "cap \<le> max_i64"
  shows "2 \<le> recoveryStepBound base cap" and "recoveryStepBound base cap \<le> 65"
  using recoveryStepBound_props(1,2) [OF assms] by simp_all

text \<open>Once the delay has reached the cap it stays there.\<close>

lemma RecoveryDelay_saturates:
  assumes "0 < base" and "cap \<le> max_i64" and "RecoveryDelay s base cap = cap" and "s \<le> t"
  shows "RecoveryDelay t base cap = cap"
proof -
  have "cap \<le> base * 2 ^ nat s" using assms by (auto simp: RecoveryDelay_eq min_def split: if_splits)
  also have "\<dots> \<le> base * 2 ^ nat t" using assms by (intro mult_left_mono power_increasing) auto
  finally show ?thesis using assms by (simp add: RecoveryDelay_eq)
qed

lemma failure_step_range:
  assumes "0 < po_RecoveryBase p" and "po_RecoveryCap p \<le> max_i64"
  shows "1 \<le> su_RecoveryStep (MakeConsumerFailureUpdate p rec)"
    and "su_RecoveryStep (MakeConsumerFailureUpdate p rec)
           \<le> recoveryStepBound (po_RecoveryBase p) (po_RecoveryCap p)"
  using recoveryStepBound_range [OF assms] by (auto simp: MakeConsumerFailureUpdate_def Let_def)

lemma failure_delay:
  assumes base: "0 < po_RecoveryBase p" and cap: "po_RecoveryCap p \<le> max_i64"
    and step: "0 \<le> pr_RecoveryStep rec" "pr_RecoveryStep rec \<le> max_i64"
  shows "su_NextDelay (MakeConsumerFailureUpdate p rec)
           = min (po_RecoveryBase p * 2 ^ nat (pr_RecoveryStep rec)) (po_RecoveryCap p)"
proof -
  let ?b = "po_RecoveryBase p" and ?c = "po_RecoveryCap p" and ?r = "pr_RecoveryStep rec"
  let ?bound = "recoveryStepBound ?b ?c" and ?s = "i64 (?r + 1)"
  have bound: "2 \<le> ?bound" "?bound \<le> 65" using recoveryStepBound_range [OF base cap] by auto
  show ?thesis
  proof (cases "?r + 1 \<le> ?bound")
    case True
    then have "?s = ?r + 1"
      using step bound by (intro i64_id) (simp add: is_i64_def min_i64_def max_i64_def)
    with True step base cap show ?thesis
      by (simp add: MakeConsumerFailureUpdate_def Let_def RecoveryDelay_eq)
  next
    case False
    have clamp: "?s < 1 \<or> ?s > ?bound"
    proof (cases "?r = max_i64")
      case True
      then show ?thesis by (simp add: i64_def max_i64_def)
    next
      case r: False
      then have "?s = ?r + 1"
        using step by (intro i64_id) (simp add: is_i64_def min_i64_def)
      with False show ?thesis by simp
    qed
    have "su_NextDelay (MakeConsumerFailureUpdate p rec) = RecoveryDelay (?bound - 1) ?b ?c"
      using clamp by (auto simp: MakeConsumerFailureUpdate_def Let_def)
    also have "\<dots> = RecoveryDelay ?r ?b ?c"
      using recoveryStepBound_cap [OF base cap] RecoveryDelay_saturates [OF base cap, of "?bound - 1" ?r]
        False by simp
    finally show ?thesis using base cap by (simp add: RecoveryDelay_eq)
  qed
qed

section \<open>Classification\<close>

lemma ClassifyCheck_failure_iff:
  "ClassifyCheck e start finish = ScanFailure \<longleftrightarrow>
     (\<exists>e' ce. e = Some e' \<and> \<not> errors_is e' CtxCanceled \<and> errors_as e' = Some ce
        \<and> ce_Kind ce \<in> {CheckProxy, CheckDeadline} \<and> gs_Healthy start \<and> gs_Healthy finish
        \<and> gs_Generation start = gs_Generation finish)"
  by (auto simp: ClassifyCheck_def Let_def split: option.splits)

lemma ClassifyCheck_success_iff: "ClassifyCheck e start finish = ScanSuccess \<longleftrightarrow> e = None"
  by (auto simp: ClassifyCheck_def Let_def split: option.splits)

lemma MakeScanUpdate_outcome [simp]:
  "su_Outcome (MakeScanUpdate p rec latency e start finish) = ClassifyCheck e start finish"
  by (cases "ClassifyCheck e start finish")
     (auto simp: MakeScanUpdate_def MakeConsumerFailureUpdate_def Let_def)

lemma MakeScanUpdate_policy [simp]:
  "su_FreshnessTTL (MakeScanUpdate p rec latency e start finish) = po_FreshnessTTL p"
  "su_DeadAfter (MakeScanUpdate p rec latency e start finish) = po_DeadAfter p"
  "su_FailThreshold (MakeScanUpdate p rec latency e start finish) = po_FailThreshold p"
  by (cases "ClassifyCheck e start finish"; simp add: MakeScanUpdate_def Let_def)+

lemma MakeScanUpdate_inconclusive:
  assumes "ClassifyCheck e start finish = ScanInconclusive"
  shows "su_RecoveryStep (MakeScanUpdate p rec latency e start finish) = pr_RecoveryStep rec"
    and "po_InconclusiveRetry p \<le> su_NextDelay (MakeScanUpdate p rec latency e start finish)"
    and "su_RepeatDelay (MakeScanUpdate p rec latency e start finish)
           = su_NextDelay (MakeScanUpdate p rec latency e start finish)"
  using assms by (auto simp: MakeScanUpdate_def Let_def split: option.splits)

lemma MakeScanUpdate_retry_after:
  assumes "ClassifyCheck e start finish = ScanInconclusive" and "Option.bind e errors_as = Some ce"
  shows "ce_RetryAfter ce \<le> su_NextDelay (MakeScanUpdate p rec latency e start finish)"
  using assms by (simp add: MakeScanUpdate_def Let_def)

section \<open>Properties\<close>

text \<open>A conclusive failure schedules the next recovery attempt after
  min(RecoveryBase * 2 ^ step, RecoveryCap), where step is the stored recovery step, for every
  nonnegative int64 step: the loop, its overflow guard and the clamping of the stored step
  together compute the saturating exponential, and the new step stays between 1 and 65.\<close>

lemma failure_backoff:
  assumes "0 < po_RecoveryBase p" and "po_RecoveryCap p \<le> max_i64"
    and "0 \<le> pr_RecoveryStep rec" and "pr_RecoveryStep rec \<le> max_i64"
  shows "su_NextDelay (MakeConsumerFailureUpdate p rec)
           = min (po_RecoveryBase p * 2 ^ nat (pr_RecoveryStep rec)) (po_RecoveryCap p)
         \<and> 1 \<le> su_RecoveryStep (MakeConsumerFailureUpdate p rec)
         \<and> su_RecoveryStep (MakeConsumerFailureUpdate p rec) \<le> 65"
  using failure_delay [OF assms] failure_step_range [OF assms(1,2), of rec]
    recoveryStepBound_range [OF assms(1,2)] by linarith

definition demo_scan_policy :: ProxyScanPolicy where
  "demo_scan_policy = \<lparr>po_VerifyInterval = 60, po_FreshnessTTL = 120, po_RecoveryBase = 10,
     po_RecoveryCap = 300, po_RecoveryHorizon = 3600, po_LeaseDuration = 30,
     po_MinRepeatInterval = 5, po_InconclusiveRetry = 15, po_DeadAfter = 1000, po_FailThreshold = 3\<rparr>"

text \<open>A scan outcome is conclusive only with cause: it is a success exactly when the check
  returned no error, and a failure exactly when the error is not a cancellation, carries a typed
  proxy or deadline failure, and the guard was healthy at both ends within one generation. Every
  other error is inconclusive, keeps the recovery step and waits at least InconclusiveRetry
  and at least the Retry-After hint.\<close>

lemma scan_classification:
  "(su_Outcome (MakeScanUpdate p rec ms e start finish) = ScanSuccess \<longleftrightarrow> e = None)
   \<and> (su_Outcome (MakeScanUpdate p rec ms e start finish) = ScanFailure \<longleftrightarrow>
        (\<exists>e' ce. e = Some e' \<and> \<not> errors_is e' CtxCanceled \<and> errors_as e' = Some ce
           \<and> ce_Kind ce \<in> {CheckProxy, CheckDeadline} \<and> gs_Healthy start \<and> gs_Healthy finish
           \<and> gs_Generation start = gs_Generation finish))
   \<and> (su_Outcome (MakeScanUpdate p rec ms e start finish) = ScanInconclusive \<longrightarrow>
        su_RecoveryStep (MakeScanUpdate p rec ms e start finish) = pr_RecoveryStep rec
        \<and> po_InconclusiveRetry p \<le> su_NextDelay (MakeScanUpdate p rec ms e start finish)
        \<and> (\<forall>ce. Option.bind e errors_as = Some ce \<longrightarrow>
              ce_RetryAfter ce \<le> su_NextDelay (MakeScanUpdate p rec ms e start finish)))"
proof (intro conjI)
  show "su_Outcome (MakeScanUpdate p rec ms e start finish) = ScanInconclusive \<longrightarrow>
        su_RecoveryStep (MakeScanUpdate p rec ms e start finish) = pr_RecoveryStep rec
        \<and> po_InconclusiveRetry p \<le> su_NextDelay (MakeScanUpdate p rec ms e start finish)
        \<and> (\<forall>ce. Option.bind e errors_as = Some ce \<longrightarrow>
              ce_RetryAfter ce \<le> su_NextDelay (MakeScanUpdate p rec ms e start finish))"
    using MakeScanUpdate_inconclusive(1,2) [of e start finish] MakeScanUpdate_retry_after [of e start finish]
    by (simp only: MakeScanUpdate_outcome) blast
qed (simp_all only: MakeScanUpdate_outcome ClassifyCheck_success_iff ClassifyCheck_failure_iff)

end
