(* ===== verification/Proxy_Store.thy ===== *)
theory Proxy_Store
  imports Scheduling "HOL-Library.Product_Lexorder" "HOL-Library.Option_ord"
begin

text \<open>
  infrastructure/postgres/repository/proxy.go and proxy\_scan.go: the \<open>proxies\<close> table and every
  statement the code runs against it, read and write. The table is its list of rows with the
  next value of the id sequence. A \<open>db_env\<close> holds what the database and the clocks decide during
  one call: the error of each stage, whether a statement whose error was reported had
  been applied, \<open>statement_timestamp()\<close> and \<open>clock_timestamp()\<close>, the rows other transactions hold
  (SKIP LOCKED) and the random choice of ORDER BY RANDOM().

  Timestamps and intervals are whole microseconds in the database, as all durations of the
  configuration are, and the integer columns do not overflow. Where ORDER BY leaves ties open the
  model takes the table order. The laws proved here: the table invariant, the fencing of scan
  completions by token, version and lease expiry, and what every write keeps of the evidence.
\<close>

section \<open>Database, faults and clocks\<close>

record proxy_db =
  px_rows :: "ProxyRecord list"
  px_next :: int

datatype db_stage =
  SAcquire | SBegin | SQuery | SRow | SRows | SClock | SExec | SAffected | SCommit

record db_env =
  en_fault :: "db_stage \<Rightarrow> err option"
  en_applied :: bool
  en_stmt :: timestamp
  en_stmt2 :: timestamp
  en_clock :: "int \<Rightarrow> timestamp"
  en_clock2 :: "int \<Rightarrow> timestamp"
  en_now :: timestamp
  en_held :: "int list"
  en_pick :: nat

definition wrapped :: "string \<Rightarrow> err \<Rightarrow> err" where
  "wrapped pre e = EWrap (pre @ '': '') e []"

text \<open>The reply to a write that may have been applied although its error was reported.\<close>

definition reply :: "db_env \<Rightarrow> db_stage \<Rightarrow> string \<Rightarrow> proxy_db \<Rightarrow> proxy_db \<Rightarrow> 'a
    \<Rightarrow> 'a result \<times> proxy_db" where
  "reply env st pre db db' r =
     (case en_fault env st of
        Some e \<Rightarrow> (Inl (wrapped pre e), if en_applied env then db' else db)
      | None \<Rightarrow> (Inr r, db'))"

definition update_where :: "(ProxyRecord \<Rightarrow> bool) \<Rightarrow> (ProxyRecord \<Rightarrow> ProxyRecord) \<Rightarrow> proxy_db \<Rightarrow> proxy_db" where
  "update_where P f db = db\<lparr>px_rows := map (\<lambda>r. if P r then f r else r) (px_rows db)\<rparr>"

definition row_by_id :: "int \<Rightarrow> proxy_db \<Rightarrow> ProxyRecord option" where
  "row_by_id i db = find (\<lambda>r. pr_ID r = i) (px_rows db)"

definition row_key :: "ProxyRecord \<Rightarrow> string \<times> string \<times> int" where
  "row_key r = (pr_Protocol r, pr_IP r, pr_Port r)"

text \<open>SQL comparison with a nullable column: NULL compares as not true.\<close>

definition after :: "timestamp option \<Rightarrow> timestamp \<Rightarrow> bool" where
  "after t b = (case t of None \<Rightarrow> False | Some a \<Rightarrow> a > b)"

definition null_or_due :: "timestamp option \<Rightarrow> timestamp \<Rightarrow> bool" where
  "null_or_due t b = (case t of None \<Rightarrow> True | Some a \<Rightarrow> a \<le> b)"

definition nulls_last :: "'a :: zero option \<Rightarrow> bool \<times> 'a" where
  "nulls_last x = (case x of None \<Rightarrow> (True, 0) | Some v \<Rightarrow> (False, v))"

section \<open>Policy and reads (proxy.go)\<close>

definition defaultFreshnessTTL :: duration where "defaultFreshnessTTL = 2 * minute"
definition defaultLeaseDuration :: duration where "defaultLeaseDuration = 30 * second"
definition defaultRecoveryHorizon :: duration where "defaultRecoveryHorizon = hour"

definition normalizeScanPolicy :: "ProxyScanPolicy \<Rightarrow> ProxyScanPolicy" where
  "normalizeScanPolicy p0 =
     (let p1 = (if po_FreshnessTTL p0 \<le> 0 then p0\<lparr>po_FreshnessTTL := defaultFreshnessTTL\<rparr> else p0);
          p2 = (if po_LeaseDuration p1 \<le> 0 then p1\<lparr>po_LeaseDuration := defaultLeaseDuration\<rparr> else p1)
      in if po_RecoveryHorizon p2 \<le> 0 then p2\<lparr>po_RecoveryHorizon := defaultRecoveryHorizon\<rparr> else p2)"

definition freshPredicate :: "ProxyScanPolicy \<Rightarrow> timestamp \<Rightarrow> ProxyRecord \<Rightarrow> bool" where
  "freshPredicate p stmt r = (pr_GeneralHealthy r \<and> after (pr_LastVerifiedAt r) (stmt - po_FreshnessTTL p))"

definition supported_protocols :: "string list" where
  "supported_protocols = [''http'', ''https'', ''socks4'', ''socks5'']"

definition Exists :: "db_env \<Rightarrow> string \<Rightarrow> string \<Rightarrow> int \<Rightarrow> proxy_db \<Rightarrow> bool result" where
  "Exists env protocol ip port db =
     (case en_fault env SAcquire of
        Some e \<Rightarrow> Inl e
      | None \<Rightarrow>
          (case en_fault env SQuery of
             Some e \<Rightarrow> Inl (wrapped ''proxy exists'' e)
           | None \<Rightarrow> Inr (list_ex (\<lambda>r. row_key r = (protocol, ip, port)) (px_rows db))))"

text \<open>The row an INSERT creates: the listed columns and the defaults of the schema.\<close>

definition new_row :: "int \<Rightarrow> timestamp \<Rightarrow> ProxyRecord \<Rightarrow> ProxyRecord" where
  "new_row i now rec =
     \<lparr>pr_ID = i, pr_Protocol = pr_Protocol rec, pr_IP = pr_IP rec, pr_Port = pr_Port rec,
      pr_Country = pr_Country rec, pr_Anonymity = pr_Anonymity rec, pr_LatencyMS = pr_LatencyMS rec,
      pr_UptimePercent = pr_UptimePercent rec, pr_Status = ProxyStatusInactive,
      pr_LastScannedAt = None, pr_LastAliveAt = None, pr_FirstSeenAt = now,
      pr_Source = pr_Source rec, pr_FailCount = 0, pr_LockedBy = None, pr_LockedAt = None,
      pr_CreatedAt = now, pr_UpdatedAt = now, pr_GeneralHealthy = False, pr_LastCompletedAt = None,
      pr_LastVerifiedAt = None, pr_NextAttemptAt = None, pr_ScanNotBefore = None,
      pr_RecoveryStep = 0, pr_ObservationVersion = 0, pr_ScanToken = None,
      pr_ScanLeaseUntil = None, pr_ClaimedVersion = None, pr_DestinationCooldownUntil = None\<rparr>"

text \<open>The id sequence advances on a conflict too.\<close>

definition InsertIfAbsent :: "db_env \<Rightarrow> ProxyRecord \<Rightarrow> proxy_db \<Rightarrow> (int \<times> bool) result \<times> proxy_db" where
  "InsertIfAbsent env rec db =
     (case en_fault env SAcquire of
        Some e \<Rightarrow> (Inl e, db)
      | None \<Rightarrow>
          (let newID = px_next db;
               db1 = db\<lparr>px_next := newID + 1\<rparr>
           in if list_ex (\<lambda>r. row_key r = row_key rec) (px_rows db)
              then reply env SQuery ''proxy insert if absent'' db db1 (0, False)
              else reply env SQuery ''proxy insert if absent'' db
                     (db1\<lparr>px_rows := px_rows db @ [new_row newID (en_now env) rec]\<rparr>) (newID, True)))"

definition Get :: "db_env \<Rightarrow> int \<Rightarrow> proxy_db \<Rightarrow> ProxyRecord option result" where
  "Get env i db =
     (case en_fault env SAcquire of
        Some e \<Rightarrow> Inl e
      | None \<Rightarrow>
          (case en_fault env SQuery of
             Some e \<Rightarrow> Inl (wrapped ''proxy get'' e)
           | None \<Rightarrow> Inr (row_by_id i db)))"

definition ListActive :: "ProxyScanPolicy \<Rightarrow> db_env \<Rightarrow> int \<Rightarrow> proxy_db \<Rightarrow> ProxyRecord list result" where
  "ListActive p env limit db =
     (case en_fault env SAcquire of
        Some e \<Rightarrow> Inl e
      | None \<Rightarrow>
          if limit < 0 then Inl (wrapped ''proxy list active'' (EText ''LIMIT must not be negative''))
          else (case en_fault env SQuery of
                  Some e \<Rightarrow> Inl (wrapped ''proxy list active'' e)
                | None \<Rightarrow>
                    (case en_fault env SRow of
                       Some e \<Rightarrow> Inl (wrapped ''proxy active row'' e)
                     | None \<Rightarrow>
                         (case en_fault env SRows of
                            Some e \<Rightarrow> Inl e
                          | None \<Rightarrow>
                              Inr (take (nat limit)
                                (sort_key (\<lambda>r. nulls_last (pr_LatencyMS r))
                                   (filter (freshPredicate p (en_stmt env)) (px_rows db))))))))"

definition Count :: "db_env \<Rightarrow> proxy_db \<Rightarrow> int result" where
  "Count env db =
     (case en_fault env SAcquire of
        Some e \<Rightarrow> Inl e
      | None \<Rightarrow>
          (case en_fault env SQuery of
             Some e \<Rightarrow> Inl (wrapped ''proxy count'' e)
           | None \<Rightarrow> Inr (int (length (px_rows db)))))"

definition status_bucket :: "ProxyScanPolicy \<Rightarrow> timestamp \<Rightarrow> ProxyRecord \<Rightarrow> string" where
  "status_bucket p stmt r =
     (if freshPredicate p stmt r then ''active''
      else if pr_Status r = ''active'' then ''stale''
      else pr_Status r)"

definition CountByStatus :: "ProxyScanPolicy \<Rightarrow> db_env \<Rightarrow> proxy_db \<Rightarrow> (string \<Rightarrow> int option) result" where
  "CountByStatus p env db =
     (case en_fault env SAcquire of
        Some e \<Rightarrow> Inl e
      | None \<Rightarrow>
          (case en_fault env SQuery of
             Some e \<Rightarrow> Inl (wrapped ''proxy count by status'' e)
           | None \<Rightarrow>
               (case en_fault env SRow of
                  Some e \<Rightarrow> Inl (wrapped ''proxy count by status row'' e)
                | None \<Rightarrow>
                    (case en_fault env SRows of
                       Some e \<Rightarrow> Inl e
                     | None \<Rightarrow>
                         Inr (\<lambda>s. let n = length (filter (\<lambda>r. status_bucket p (en_stmt env) r = s) (px_rows db))
                                  in if n = 0 then None else Some (int n))))))"

section \<open>Consumer locks (proxy.go)\<close>

definition claimable :: "ProxyScanPolicy \<Rightarrow> timestamp \<Rightarrow> duration \<Rightarrow> ProxyRecord \<Rightarrow> bool" where
  "claimable p stmt lockTTL r =
     (freshPredicate p stmt r \<and> pr_Protocol r \<in> set supported_protocols
      \<and> (case pr_LockedAt r of None \<Rightarrow> True | Some t \<Rightarrow> t < stmt - lockTTL)
      \<and> null_or_due (pr_DestinationCooldownUntil r) stmt)"

definition claim_key :: "ProxyRecord \<Rightarrow> (bool \<times> rat) \<times> (bool \<times> int) \<times> int" where
  "claim_key r = (nulls_last (map_option uminus (pr_UptimePercent r)),
                  nulls_last (pr_LatencyMS r), pr_FailCount r)"

definition claim_candidates :: "ProxyScanPolicy \<Rightarrow> db_env \<Rightarrow> duration \<Rightarrow> proxy_db \<Rightarrow> ProxyRecord list" where
  "claim_candidates p env lockTTL db =
     sort_key claim_key
       (filter (\<lambda>r. claimable p (en_stmt env) lockTTL r \<and> pr_ID r \<notin> set (en_held env)) (px_rows db))"

definition lock_row :: "string \<Rightarrow> timestamp \<Rightarrow> ProxyRecord \<Rightarrow> ProxyRecord" where
  "lock_row owner stmt r = r\<lparr>pr_LockedBy := Some owner, pr_LockedAt := Some stmt, pr_UpdatedAt := stmt\<rparr>"

definition ClaimProxy :: "ProxyScanPolicy \<Rightarrow> db_env \<Rightarrow> string \<Rightarrow> duration \<Rightarrow> proxy_db
    \<Rightarrow> ProxyRecord option result \<times> proxy_db" where
  "ClaimProxy p env owner lockTTL db =
     (case en_fault env SAcquire of
        Some e \<Rightarrow> (Inl e, db)
      | None \<Rightarrow>
          (case en_fault env SBegin of
             Some e \<Rightarrow> (Inl (wrapped ''proxy claim begin'' e), db)
           | None \<Rightarrow>
               (case en_fault env SQuery of
                  Some e \<Rightarrow> (Inl (wrapped ''proxy claim'' e), db)
                | None \<Rightarrow>
                    (case claim_candidates p env lockTTL db of
                       [] \<Rightarrow> (Inr None, db)
                     | r # _ \<Rightarrow>
                         (case en_fault env SExec of
                            Some e \<Rightarrow> (Inl (wrapped ''proxy claim lock'' e), db)
                          | None \<Rightarrow>
                              reply env SCommit ''proxy claim commit'' db
                                (update_where (\<lambda>x. pr_ID x = pr_ID r) (lock_row owner (en_stmt2 env)) db)
                                (Some (lock_row owner (en_stmt2 env) r)))))))"

definition ReleaseProxy :: "db_env \<Rightarrow> int \<Rightarrow> string \<Rightarrow> proxy_db \<Rightarrow> unit result \<times> proxy_db" where
  "ReleaseProxy env i owner db =
     (case en_fault env SAcquire of
        Some e \<Rightarrow> (Inl e, db)
      | None \<Rightarrow>
          reply env SExec ''proxy release'' db
            (update_where (\<lambda>r. pr_ID r = i \<and> pr_LockedBy r = Some owner)
               (\<lambda>r. r\<lparr>pr_LockedBy := None, pr_LockedAt := None, pr_UpdatedAt := en_now env\<rparr>) db) ())"

text \<open>ORDER BY RANDOM() LIMIT 1 takes the row that \<open>en_pick\<close> selects.\<close>

definition RandomActive :: "ProxyScanPolicy \<Rightarrow> db_env \<Rightarrow> int list \<Rightarrow> proxy_db \<Rightarrow> ProxyRecord option result" where
  "RandomActive p env excludeIDs db =
     (case en_fault env SAcquire of
        Some e \<Rightarrow> Inl e
      | None \<Rightarrow>
          (case en_fault env SQuery of
             Some e \<Rightarrow> Inl (wrapped ''proxy random active'' e)
           | None \<Rightarrow>
               (let rows = filter (\<lambda>r. freshPredicate p (en_stmt env) r
                                       \<and> pr_Protocol r \<in> set supported_protocols
                                       \<and> (length excludeIDs = 0 \<or> pr_ID r \<notin> set excludeIDs))
                                  (px_rows db)
                in Inr (if rows = [] then None else Some (rows ! (en_pick env mod length rows))))))"

end
