(* ===== verification/Census_Store.thy ===== *)
theory Census_Store
  imports Proxy_Store
begin

text \<open>
  infrastructure/postgres/repository/character.go, achievement.go and census\_run.go: the census
  tables (characters, character\_jobs, character\_gear, milestone\_achievements,
  character\_milestones, census\_runs) and the two cursor rows (id\_sweep\_state, fill\_gaps\_state),
  with every statement the code runs against them. A \<open>census_env\<close> holds what the database decides
  during one call: the error of the n-th step of the call (steps are numbered in program order),
  whether a write whose error was reported had been applied, the clock, and the operators of the
  database that depend on its locale: ILIKE, the collation and the day that TO\_CHAR prints, and how many rows were read before an iteration failed. It also decides
  the order of the rows that the ORDER BY of List leaves open, anew in every call; other ties keep the table order. The gaps query has
  an ORDER BY only inside; its rows are taken to come in the order of the ids, which its window function sorts by. Values fit
  their columns, and counters do not overflow.

  The laws proved here: what an upsert keeps and replaces, that the denormalised maximum level agrees
  with the job rows, that the gaps query returns exactly the ids that are not stored, and that the
  cursors never move backwards except for the wrap-around of the gap scanner.
\<close>

section \<open>Tables and environment\<close>

record character_row = CharacterRecord +
  cr_max_job_level :: u8

text \<open>\<open>character_gear.materia\<close> is one text column.\<close>

record gear_row =
  gr_character_id :: u32
  gr_slot :: string
  gr_item_id :: u32
  gr_name :: string
  gr_item_level :: int
  gr_dye :: "string option"
  gr_materia :: string
  gr_updated_at :: timestamp

record census_db =
  db_characters :: "character_row list"
  db_jobs :: "ClassJobRecord list"
  db_gear :: "gear_row list"
  db_registry :: "MilestoneAchievement list"
  db_milestones :: "CharacterMilestone list"
  db_runs :: "CensusRun list"
  db_next_run :: int
  db_next_id :: "int option"
  db_last_queued :: "int option"

record census_env =
  cv_fault :: "nat \<Rightarrow> err option"
  cv_applied :: bool
  cv_now :: timestamp
  cv_ilike :: "string \<Rightarrow> string \<Rightarrow> bool"
  cv_rank :: "string \<Rightarrow> int"
  cv_tie :: "u32 \<Rightarrow> int"
  cv_day :: "timestamp \<Rightarrow> string"
  cv_read :: nat

text \<open>The environment of the part of a call that starts with its n-th step.\<close>

definition later :: "nat \<Rightarrow> census_env \<Rightarrow> census_env" where
  "later n env = env\<lparr>cv_fault := (\<lambda>i. cv_fault env (n + i))\<rparr>"

definition job_key :: "ClassJobRecord \<Rightarrow> u32 \<times> u8" where
  "job_key j = (cj_CharacterID j, cj_ClassJobID j)"

definition gear_key :: "gear_row \<Rightarrow> u32 \<times> string" where
  "gear_key g = (gr_character_id g, gr_slot g)"

definition milestone_key :: "CharacterMilestone \<Rightarrow> u32 \<times> u32" where
  "milestone_key m = (cm_CharacterID m, cm_AchievementID m)"

definition overwrite :: "'a \<Rightarrow> 'a \<Rightarrow> 'a" where
  "overwrite old new = new"

text \<open>
  A single write statement at the n-th step, a query for many rows (query, scan of the rows, end of the
  rows) and a query for one row (query, scan).
\<close>

definition exec_write :: "census_env \<Rightarrow> nat \<Rightarrow> string \<Rightarrow> census_db \<Rightarrow> census_db \<Rightarrow> err option \<times> census_db" where
  "exec_write env n pre db db' =
     (case cv_fault env n of
        Some e \<Rightarrow> (Some (wrapped pre e), if cv_applied env then db' else db)
      | None \<Rightarrow> (None, db'))"

definition fetch_many :: "census_env \<Rightarrow> (err \<Rightarrow> err) \<Rightarrow> (err \<Rightarrow> err) \<Rightarrow> 'a list \<Rightarrow> 'a list result" where
  "fetch_many env qe se rows =
     (case cv_fault env 0 of
        Some e \<Rightarrow> Inl (qe e)
      | None \<Rightarrow>
          (case (if rows = [] then None else cv_fault env 1) of
             Some e \<Rightarrow> Inl (se e)
           | None \<Rightarrow> (case cv_fault env 2 of Some e \<Rightarrow> Inl e | None \<Rightarrow> Inr rows)))"

definition fetch_one :: "census_env \<Rightarrow> (err \<Rightarrow> err) \<Rightarrow> (err \<Rightarrow> err) \<Rightarrow> 'a \<Rightarrow> 'a result" where
  "fetch_one env qe se x =
     (case cv_fault env 0 of
        Some e \<Rightarrow> Inl (qe e)
      | None \<Rightarrow> (case cv_fault env 1 of Some e \<Rightarrow> Inl (se e) | None \<Rightarrow> Inr x))"

section \<open>Writing characters (character.go)\<close>

definition maxJobLevel :: "ClassJobRecord list \<Rightarrow> u8" where
  "maxJobLevel jobs = fold (\<lambda>j m. if cj_Level j > m then cj_Level j else m) jobs 0"

definition inserted_row :: "CharacterRecord \<Rightarrow> u8 \<Rightarrow> character_row" where
  "inserted_row rec lvl = CharacterRecord.extend rec (character_row.fields lvl)"

text \<open>The SET clause of the upsert: \<open>old\<close> is \<open>characters\<close>, \<open>new\<close> is \<open>excluded\<close>.\<close>

definition merge_character :: "character_row \<Rightarrow> character_row \<Rightarrow> character_row" where
  "merge_character old new =
     old\<lparr>cr_Name := cr_Name new, cr_World := cr_World new, cr_Datacenter := cr_Datacenter new,
         cr_Region := cr_Region new, cr_Race := cr_Race new, cr_Tribe := cr_Tribe new,
         cr_Gender := cr_Gender new, cr_GrandCompany := cr_GrandCompany new,
         cr_FreeCompanyID := cr_FreeCompanyID new, cr_FreeCompanyName := cr_FreeCompanyName new,
         cr_Bio := cr_Bio new, cr_ActiveJob := cr_ActiveJob new, cr_ItemLevel := cr_ItemLevel new,
         cr_AchievementsPrivate := (if cr_AchievementsPrivate new then True else cr_AchievementsPrivate old),
         cr_LatestAchievementID :=
           (case cr_LatestAchievementID new of None \<Rightarrow> cr_LatestAchievementID old | Some i \<Rightarrow> Some i),
         cr_LatestAchievementAt :=
           (case cr_LatestAchievementAt new of None \<Rightarrow> cr_LatestAchievementAt old | Some t \<Rightarrow> Some t),
         cr_LastCensusAt := cr_LastCensusAt new, cr_DeletedAt := None,
         cr_max_job_level := cr_max_job_level new\<rparr>"

fun insert_jobs :: "census_env \<Rightarrow> nat \<Rightarrow> ClassJobRecord list \<Rightarrow> ClassJobRecord list \<Rightarrow> ClassJobRecord list result" where
  "insert_jobs env n [] tbl = Inr tbl"
| "insert_jobs env n (j # js) tbl =
     (case cv_fault env n of
        Some e \<Rightarrow> Inl (wrapped ''character upsert insert job'' e)
      | None \<Rightarrow> insert_jobs env (Suc n) js (upsert_by job_key overwrite j tbl))"

text \<open>
  Steps: acquire, begin, the character, the deletion of its jobs, one insert per job, commit. A failure
  before the commit rolls the transaction back.
\<close>

definition Upsert :: "census_env \<Rightarrow> CharacterRecord \<Rightarrow> ClassJobRecord list \<Rightarrow> census_db \<Rightarrow> err option \<times> census_db" where
  "Upsert env rec jobs db =
     (case cv_fault env 0 of Some e \<Rightarrow> (Some e, db) | None \<Rightarrow>
     (case cv_fault env 1 of Some e \<Rightarrow> (Some (wrapped ''character upsert begin'' e), db) | None \<Rightarrow>
      let maxLevel = maxJobLevel jobs;
          chars = upsert_by cr_ID merge_character (inserted_row rec maxLevel) (db_characters db)
      in case cv_fault env 2 of Some e \<Rightarrow> (Some (wrapped ''character upsert'' e), db) | None \<Rightarrow>
     (case cv_fault env 3 of Some e \<Rightarrow> (Some (wrapped ''character upsert delete jobs'' e), db) | None \<Rightarrow>
     (case insert_jobs env 4 jobs (filter (\<lambda>j. cj_CharacterID j \<noteq> cr_ID rec) (db_jobs db)) of
        Inl e \<Rightarrow> (Some e, db)
      | Inr tbl \<Rightarrow>
          (let db' = db\<lparr>db_characters := chars, db_jobs := tbl\<rparr>
           in case cv_fault env (4 + length jobs) of
                Some e \<Rightarrow> (Some e, if cv_applied env then db' else db)
              | None \<Rightarrow> (None, db'))))))"

fun str_join :: "string \<Rightarrow> string list \<Rightarrow> string" where
  "str_join sep [] = []"
| "str_join sep [s] = s"
| "str_join sep (s # t # ss) = s @ sep @ str_join sep (t # ss)"

text \<open>\<open>strings.Split\<close> at a one-byte separator.\<close>

fun str_split :: "char \<Rightarrow> string \<Rightarrow> string list" where
  "str_split sep [] = [[]]"
| "str_split sep (c # cs) =
     (if c = sep then [] # str_split sep cs
      else (case str_split sep cs of [] \<Rightarrow> [[c]] | w # ws \<Rightarrow> (c # w) # ws))"

definition gear_row_of :: "u32 \<Rightarrow> timestamp \<Rightarrow> CharacterGearRecord \<Rightarrow> gear_row" where
  "gear_row_of charID now g =
     \<lparr>gr_character_id = charID, gr_slot = cg_Slot g, gr_item_id = cg_ItemID g, gr_name = cg_Name g,
      gr_item_level = cg_ItemLevel g, gr_dye = cg_Dye g, gr_materia = str_join '','' (cg_Materia g),
      gr_updated_at = (if cg_UpdatedAt g = 0 then now else cg_UpdatedAt g)\<rparr>"

fun insert_gear :: "census_env \<Rightarrow> nat \<Rightarrow> gear_row list \<Rightarrow> gear_row list \<Rightarrow> gear_row list result" where
  "insert_gear env n [] tbl = Inr tbl"
| "insert_gear env n (g # gs) tbl =
     (case cv_fault env n of
        Some e \<Rightarrow> Inl (wrapped ''gear upsert insert'' e)
      | None \<Rightarrow> insert_gear env (Suc n) gs (upsert_by gear_key overwrite g tbl))"

text \<open>The foreign key of character\_gear refuses gear of an unknown character.\<close>

definition UpsertGear :: "census_env \<Rightarrow> u32 \<Rightarrow> CharacterGearRecord list \<Rightarrow> census_db \<Rightarrow> err option \<times> census_db" where
  "UpsertGear env charID gear db =
     (case cv_fault env 0 of Some e \<Rightarrow> (Some e, db) | None \<Rightarrow>
     (case cv_fault env 1 of Some e \<Rightarrow> (Some (wrapped ''gear upsert begin'' e), db) | None \<Rightarrow>
     (case cv_fault env 2 of Some e \<Rightarrow> (Some (wrapped ''gear upsert delete'' e), db) | None \<Rightarrow>
      if gear \<noteq> [] \<and> row_with cr_ID charID (db_characters db) = None
      then (Some (wrapped ''gear upsert insert'' (EText ''violates foreign key constraint'')), db)
      else
     (case insert_gear env 3 (map (gear_row_of charID (cv_now env)) gear)
             (filter (\<lambda>g. gr_character_id g \<noteq> charID) (db_gear db)) of
        Inl e \<Rightarrow> (Some e, db)
      | Inr tbl \<Rightarrow>
          (let db' = db\<lparr>db_gear := tbl\<rparr>
           in case cv_fault env (3 + length gear) of
                Some e \<Rightarrow> (Some e, if cv_applied env then db' else db)
              | None \<Rightarrow> (None, db'))))))"

definition gear_of_row :: "gear_row \<Rightarrow> CharacterGearRecord" where
  "gear_of_row g =
     \<lparr>cg_CharacterID = gr_character_id g, cg_Slot = gr_slot g, cg_ItemID = gr_item_id g,
      cg_Name = gr_name g, cg_ItemLevel = gr_item_level g, cg_Dye = gr_dye g,
      cg_Materia = (if gr_materia g \<noteq> [] then str_split (CHR '','') (gr_materia g) else []),
      cg_UpdatedAt = gr_updated_at g\<rparr>"

definition GetGear :: "census_env \<Rightarrow> u32 \<Rightarrow> census_db \<Rightarrow> CharacterGearRecord list result" where
  "GetGear env i db =
     fetch_many env (\<lambda>e. e) (wrapped ''gear scan'')
       (map gear_of_row (sort_key (\<lambda>g. cv_rank env (gr_slot g)) (filter (\<lambda>g. gr_character_id g = i) (db_gear db))))"

definition update_character :: "u32 \<Rightarrow> (character_row \<Rightarrow> character_row) \<Rightarrow> census_db \<Rightarrow> census_db" where
  "update_character i f db =
     db\<lparr>db_characters := map (\<lambda>r. if cr_ID r = i then f r else r) (db_characters db)\<rparr>"

definition MarkDeleted :: "census_env \<Rightarrow> u32 \<Rightarrow> timestamp \<Rightarrow> census_db \<Rightarrow> err option \<times> census_db" where
  "MarkDeleted env i t db =
     exec_write env 0 ''character mark deleted'' db (update_character i (\<lambda>r. r\<lparr>cr_DeletedAt := Some t\<rparr>) db)"

definition UpdateAchievementSummary :: "census_env \<Rightarrow> u32 \<Rightarrow> bool \<Rightarrow> u32 option \<Rightarrow> timestamp option \<Rightarrow> census_db
    \<Rightarrow> err option \<times> census_db" where
  "UpdateAchievementSummary env i private latestID latestAt db =
     exec_write env 0 ''character update achievement summary'' db
       (update_character i (\<lambda>r. r\<lparr>cr_AchievementsPrivate := private, cr_LatestAchievementID := latestID,
                                   cr_LatestAchievementAt := latestAt\<rparr>) db)"

definition SetAchievementsPrivate :: "census_env \<Rightarrow> u32 \<Rightarrow> bool \<Rightarrow> census_db \<Rightarrow> err option \<times> census_db" where
  "SetAchievementsPrivate env i private db =
     exec_write env 0 ''character set achievements private'' db
       (update_character i (\<lambda>r. r\<lparr>cr_AchievementsPrivate := private\<rparr>) db)"

section \<open>Reading characters (character.go)\<close>

text \<open>\<open>scanCharacter\<close> reads the listed columns, which leave out max\_job\_level.\<close>

definition scanCharacter :: "character_row \<Rightarrow> CharacterRecord" where
  "scanCharacter r = CharacterRecord.truncate r"

definition Character_Get :: "census_env \<Rightarrow> u32 \<Rightarrow> census_db \<Rightarrow> CharacterRecord option result" where
  "Character_Get env i db =
     fetch_one env (\<lambda>e. e) (\<lambda>e. e) (map_option scanCharacter (row_with cr_ID i (db_characters db)))"

definition GetJobs :: "census_env \<Rightarrow> u32 \<Rightarrow> census_db \<Rightarrow> ClassJobRecord list result" where
  "GetJobs env i db =
     fetch_many env (\<lambda>e. e) (\<lambda>e. e)
       (sort_key cj_ClassJobID (filter (\<lambda>j. cj_CharacterID j = i) (db_jobs db)))"

definition nulls_first :: "timestamp option \<Rightarrow> bool \<times> timestamp" where
  "nulls_first x = (case x of None \<Rightarrow> (False, 0) | Some v \<Rightarrow> (True, v))"

definition stale_key :: "character_row \<Rightarrow> (bool \<times> timestamp) \<times> u32" where
  "stale_key r = (nulls_first (cr_LastCensusAt r), cr_ID r)"

definition stale_before :: "timestamp \<Rightarrow> character_row \<Rightarrow> bool" where
  "stale_before cutoff r = (case cr_LastCensusAt r of None \<Rightarrow> True | Some t \<Rightarrow> t < cutoff)"

definition ListStale :: "census_env \<Rightarrow> timestamp \<Rightarrow> int \<Rightarrow> census_db \<Rightarrow> CharacterRecord list result" where
  "ListStale env cutoff limit0 db =
     (let limit = (if limit0 \<le> 0 then 100 else limit0);
          rows = (if cutoff = 0 then db_characters db else filter (stale_before cutoff) (db_characters db))
      in fetch_many env (\<lambda>e. e) (\<lambda>e. e) (map scanCharacter (take (nat limit) (sort_key stale_key rows))))"

definition at_least :: "timestamp option \<Rightarrow> timestamp \<Rightarrow> bool" where
  "at_least t b = (case t of None \<Rightarrow> False | Some a \<Rightarrow> a \<ge> b)"

definition live :: "character_row \<Rightarrow> bool" where
  "live r = (cr_DeletedAt r = None)"

text \<open>The conjunction of the clauses that the filter adds, on one row.\<close>

definition characterJoinFilterWhere :: "census_env \<Rightarrow> CharacterFilter \<Rightarrow> character_row \<Rightarrow> bool" where
  "characterJoinFilterWhere env f r =
     ((cf_World f \<noteq> [] \<longrightarrow> cr_World r = cf_World f)
      \<and> (cf_Datacenter f \<noteq> [] \<longrightarrow> cr_Datacenter r = cf_Datacenter f)
      \<and> (cf_Region f \<noteq> [] \<longrightarrow> cr_Region r = cf_Region f)
      \<and> (cf_Race f \<noteq> [] \<longrightarrow> cr_Race r = cf_Race f)
      \<and> (cf_GrandCompany f \<noteq> [] \<longrightarrow> cr_GrandCompany r = cf_GrandCompany f)
      \<and> (cf_FreeCompanyID f \<noteq> [] \<longrightarrow> cr_FreeCompanyID r = Some (cf_FreeCompanyID f))
      \<and> (cf_Name f \<noteq> [] \<longrightarrow> cv_ilike env (cr_Name r) (''%'' @ cf_Name f @ ''%'')))"

definition characterFilterWhere :: "census_env \<Rightarrow> census_db \<Rightarrow> CharacterFilter \<Rightarrow> character_row \<Rightarrow> bool" where
  "characterFilterWhere env db f r =
     ((cf_World f \<noteq> [] \<longrightarrow> cr_World r = cf_World f)
      \<and> (cf_Datacenter f \<noteq> [] \<longrightarrow> cr_Datacenter r = cf_Datacenter f)
      \<and> (cf_Region f \<noteq> [] \<longrightarrow> cr_Region r = cf_Region f)
      \<and> (cf_Race f \<noteq> [] \<longrightarrow> cr_Race r = cf_Race f)
      \<and> (cf_GrandCompany f \<noteq> [] \<longrightarrow> cr_GrandCompany r = cf_GrandCompany f)
      \<and> (cf_FreeCompanyID f \<noteq> [] \<longrightarrow> cr_FreeCompanyID r = Some (cf_FreeCompanyID f))
      \<and> (cf_Name f \<noteq> [] \<longrightarrow> cv_ilike env (cr_Name r) (''%'' @ cf_Name f @ ''%''))
      \<and> (case cf_Since f of None \<Rightarrow> True | Some t \<Rightarrow> at_least (cr_LatestAchievementAt r) t)
      \<and> (cf_ActiveOnly f \<longrightarrow> cr_DeletedAt r = None)
      \<and> (cf_MinLevel f > 0 \<longrightarrow>
           list_ex (\<lambda>j. cj_CharacterID j = cr_ID r \<and> uint (cj_Level j) \<ge> uint (cf_MinLevel f)) (db_jobs db)))"

definition to_lower :: "string \<Rightarrow> string" where
  "to_lower s = map (\<lambda>c. if 65 \<le> (of_char c :: nat) \<and> (of_char c :: nat) \<le> 90
                          then char_of ((of_char c :: nat) + 32) else c) s"

definition characterOrderBy :: "string \<Rightarrow> string \<Rightarrow> string \<times> string" where
  "characterOrderBy sortBy sortOrder =
     (let k = to_lower sortBy;
          col = (if k = ''name'' then ''name'' else if k = ''world'' then ''world''
                 else if k = ''created_at'' then ''first_seen_at''
                 else if k = ''updated_at'' then ''last_census_at'' else ''id'');
          dir = (if to_lower sortOrder = ''desc'' then ''DESC'' else ''ASC'')
      in (col, dir))"

text \<open>The sort key of a column: NULL comes last when ascending and first when descending.\<close>

definition column_key :: "census_env \<Rightarrow> string \<times> string \<Rightarrow> character_row \<Rightarrow> bool \<times> int" where
  "column_key env order r =
     (let v = (if fst order = ''name'' then Some (cv_rank env (cr_Name r))
               else if fst order = ''world'' then Some (cv_rank env (cr_World r))
               else if fst order = ''first_seen_at'' then Some (cr_FirstSeenAt r)
               else if fst order = ''last_census_at'' then cr_LastCensusAt r
               else Some (uint (cr_ID r)))
      in if snd order = ''DESC'' then (case v of None \<Rightarrow> (False, 0) | Some x \<Rightarrow> (True, - x))
         else (case v of None \<Rightarrow> (True, 0) | Some x \<Rightarrow> (False, x)))"

definition matching :: "census_env \<Rightarrow> census_db \<Rightarrow> CharacterFilter \<Rightarrow> character_row list" where
  "matching env db f = filter (\<lambda>r. live r \<and> characterFilterWhere env db f r) (db_characters db)"

text \<open>ORDER BY names one column; rows with equal values come in an order that the database is free to choose for each query.\<close>

definition ordered_rows :: "census_env \<Rightarrow> string \<times> string \<Rightarrow> character_row list \<Rightarrow> character_row list" where
  "ordered_rows env order rows = sort_key (column_key env order) (sort_key (\<lambda>r. cv_tie env (cr_ID r)) rows)"

definition Character_List :: "census_env \<Rightarrow> CharacterFilter \<Rightarrow> int \<Rightarrow> int \<Rightarrow> census_db \<Rightarrow> CharacterRecord list result" where
  "Character_List env f limit offset db =
     (if limit < 0 then Inl (EText ''LIMIT must not be negative'')
      else if offset < 0 then Inl (EText ''OFFSET must not be negative'')
      else fetch_many env (\<lambda>e. e) (\<lambda>e. e)
             (map scanCharacter (take (nat limit) (drop (nat offset)
                (ordered_rows env (characterOrderBy (cf_SortBy f) (cf_SortOrder f)) (matching env db f))))))"

text \<open>
  The callback of Stream acts on a state of its own; its error stops the iteration. A scan error or an error of the rows comes after
  \<open>cv_read\<close> rows have been handed to it.
\<close>

fun stream_rows :: "(CharacterRecord \<Rightarrow> 's \<Rightarrow> err option \<times> 's) \<Rightarrow> CharacterRecord list \<Rightarrow> 's \<Rightarrow> err option \<times> 's" where
  "stream_rows fn [] s = (None, s)"
| "stream_rows fn (r # rs) s = (case fn r s of (Some e, s') \<Rightarrow> (Some e, s') | (None, s') \<Rightarrow> stream_rows fn rs s')"

definition Stream :: "census_env \<Rightarrow> CharacterFilter \<Rightarrow> (CharacterRecord \<Rightarrow> 's \<Rightarrow> err option \<times> 's) \<Rightarrow> census_db
    \<Rightarrow> 's \<Rightarrow> err option \<times> 's" where
  "Stream env f fn db s =
     (let rows = map scanCharacter (sort_key cr_ID (matching env db f));
          broken = (case (if cv_read env < length rows then cv_fault env 1 else None) of Some e \<Rightarrow> Some e | None \<Rightarrow> cv_fault env 2)
      in case cv_fault env 0 of Some e \<Rightarrow> (Some e, s) | None \<Rightarrow>
        (case broken of
           None \<Rightarrow> stream_rows fn rows s
         | Some e \<Rightarrow>
             (case stream_rows fn (take (cv_read env) rows) s of
                (Some e', s') \<Rightarrow> (Some e', s')
              | (None, s') \<Rightarrow> (Some e, s'))))"

definition Character_Count :: "census_env \<Rightarrow> CharacterFilter \<Rightarrow> census_db \<Rightarrow> int result" where
  "Character_Count env f db = fetch_one env (\<lambda>e. e) (\<lambda>e. e) (int (length (matching env db f)))"

definition CountActive :: "census_env \<Rightarrow> timestamp \<Rightarrow> census_db \<Rightarrow> int result" where
  "CountActive env since db =
     fetch_one env (\<lambda>e. e) (\<lambda>e. e)
       (int (length (filter (\<lambda>r. at_least (cr_LatestAchievementAt r) since \<and> live r) (db_characters db))))"

definition SummaryCounts :: "census_env \<Rightarrow> timestamp \<Rightarrow> u32 \<Rightarrow> census_db \<Rightarrow> (int \<times> int \<times> int) result" where
  "SummaryCounts env since maxLevel db =
     (let rows = filter live (db_characters db)
      in fetch_one env (\<lambda>e. e) (\<lambda>e. e)
           (int (length rows),
            int (length (filter (\<lambda>r. at_least (cr_LatestAchievementAt r) since) rows)),
            int (length (filter (\<lambda>r. uint (cr_max_job_level r) \<ge> uint maxLevel) rows))))"

section \<open>Group-by reads (character.go)\<close>

definition breakdownColumns :: "string list" where
  "breakdownColumns = [''race'', ''world'', ''datacenter'', ''region'']"

definition column_value :: "string \<Rightarrow> character_row \<Rightarrow> string" where
  "column_value c r =
     (if c = ''race'' then cr_Race r else if c = ''world'' then cr_World r
      else if c = ''datacenter'' then cr_Datacenter r else cr_Region r)"

text \<open>The groups of a GROUP BY in the order of their first rows, with both counts.\<close>

definition group_counts :: "(character_row \<Rightarrow> 'k) \<Rightarrow> ('k \<Rightarrow> string) \<Rightarrow> timestamp \<Rightarrow> character_row list \<Rightarrow> GroupCount list" where
  "group_counts key label since rows =
     map (\<lambda>k. \<lparr>gc_Key = label k,
               gc_Total = int (length (filter (\<lambda>r. key r = k) rows)),
               gc_Active = int (length (filter (\<lambda>r. key r = k \<and> at_least (cr_LatestAchievementAt r) since) rows))\<rparr>)
       (remdups (map key rows))"

definition Character_Breakdown :: "census_env \<Rightarrow> string \<Rightarrow> timestamp \<Rightarrow> CharacterFilter \<Rightarrow> census_db \<Rightarrow> GroupCount list result" where
  "Character_Breakdown env column since f db =
     (if column \<notin> set breakdownColumns
      then Inl (EText (''invalid breakdown column '' @ CHR 0x22 # column @ [CHR 0x22]))
      else fetch_many env (\<lambda>e. e) (\<lambda>e. e)
             (sort_key (\<lambda>g. - gc_Total g)
                (group_counts (column_value column) (\<lambda>k. k) since (matching env db f))))"

text \<open>The result map lists the columns that have at least one group.\<close>

definition MultiBreakdown :: "census_env \<Rightarrow> string list \<Rightarrow> timestamp \<Rightarrow> CharacterFilter \<Rightarrow> census_db
    \<Rightarrow> (string \<Rightarrow> GroupCount list option) result" where
  "MultiBreakdown env columns since f db =
     (if columns = [] then Inr (\<lambda>_. None)
      else case find (\<lambda>c. c \<notin> set breakdownColumns) columns of
             Some c \<Rightarrow> Inl (EText (''invalid breakdown column '' @ CHR 0x22 # c @ [CHR 0x22]))
           | None \<Rightarrow>
               (case fetch_many env (\<lambda>e. e) (\<lambda>e. e)
                       (concat (map (\<lambda>c. map (\<lambda>g. (c, g))
                          (group_counts (column_value c) (\<lambda>k. k) since (matching env db f))) columns)) of
                  Inl e \<Rightarrow> Inl e
                | Inr rows \<Rightarrow>
                    Inr (\<lambda>c. case map snd (filter (\<lambda>r. fst r = c) rows) of [] \<Rightarrow> None | gs \<Rightarrow> Some gs)))"

definition gender_label :: "u8 \<Rightarrow> string" where
  "gender_label g = (if g = 1 then ''Male'' else if g = 2 then ''Female'' else ''Unknown'')"

definition DemographicBreakdown :: "census_env \<Rightarrow> timestamp \<Rightarrow> CharacterFilter \<Rightarrow> census_db \<Rightarrow> DemographicCounts result" where
  "DemographicBreakdown env since f db =
     (let rows = matching env db f;
          tribes = map (\<lambda>g. (''tribe'', g)) (group_counts cr_Tribe (\<lambda>k. k) since (filter (\<lambda>r. cr_Tribe r \<noteq> []) rows));
          genders = map (\<lambda>g. (''gender'', g)) (group_counts cr_Gender gender_label since rows);
          both = map (\<lambda>g. (''race_gender'', g))
                   (group_counts (\<lambda>r. (cr_Race r, cr_Gender r)) (\<lambda>(a, g). a @ ''|'' @ gender_label g) since
                      (filter (\<lambda>r. cr_Race r \<noteq> []) rows))
      in case fetch_many env (\<lambda>e. e) (\<lambda>e. e) (tribes @ genders @ both) of
           Inl e \<Rightarrow> Inl e
         | Inr out \<Rightarrow>
             Inr \<lparr>dg_Tribes = map snd (filter (\<lambda>x. fst x = ''tribe'') out),
                  dg_Genders = map snd (filter (\<lambda>x. fst x = ''gender'') out),
                  dg_RaceGenders = map snd (filter (\<lambda>x. fst x = ''race_gender'') out)\<rparr>)"

text \<open>Counts per day, ordered by the printed day under the collation.\<close>

definition per_day :: "census_env \<Rightarrow> timestamp list \<Rightarrow> DailyCount list" where
  "per_day env ts =
     sort_key (\<lambda>d. cv_rank env (dc_Day d))
       (map (\<lambda>d. \<lparr>dc_Day = d, dc_Count = int (length (filter (\<lambda>t. cv_day env t = d) ts))\<rparr>)
          (remdups (map (cv_day env) ts)))"

definition NewPerDay :: "census_env \<Rightarrow> timestamp \<Rightarrow> timestamp \<Rightarrow> CharacterFilter \<Rightarrow> census_db \<Rightarrow> DailyCount list result" where
  "NewPerDay env since until f db =
     fetch_many env (\<lambda>e. e) (\<lambda>e. e)
       (per_day env (map cr_FirstSeenAt
          (filter (\<lambda>r. cr_FirstSeenAt r \<ge> since \<and> cr_FirstSeenAt r < until) (matching env db f))))"

section \<open>Id gaps and cursors (character.go)\<close>

definition stored_ids :: "census_db \<Rightarrow> int set" where
  "stored_ids db = (\<lambda>r. uint (cr_ID r)) ` set (db_characters db)"

definition max_uint32 :: int where "max_uint32 = 2 ^ 32 - 1"

definition max_id :: "census_db \<Rightarrow> int" where
  "max_id db = fold max (map (\<lambda>r. uint (cr_ID r)) (db_characters db)) 0"

definition MaxID :: "census_env \<Rightarrow> census_db \<Rightarrow> u32 result" where
  "MaxID env db = fetch_one env (\<lambda>e. e) (\<lambda>e. e) (word_of_int (max_id db))"

text \<open>The common table expression: 0 and the stored ids up to the bound, each once, in order.\<close>

definition anchored :: "int \<Rightarrow> census_db \<Rightarrow> int list" where
  "anchored maxID db =
     sort (remdups (0 # filter (\<lambda>i. i \<le> maxID) (map (\<lambda>r. uint (cr_ID r)) (db_characters db))))"

text \<open>The rows of the query: LEAD(id) is the next id of the window, NULL for the last one.\<close>

fun gap_rows :: "int \<Rightarrow> int list \<Rightarrow> (int \<times> int) list" where
  "gap_rows maxID [] = []"
| "gap_rows maxID [i] = [(i + 1, min maxID maxID)]"
| "gap_rows maxID (i # j # ids) = (i + 1, min (j - 1) maxID) # gap_rows maxID (j # ids)"

text \<open>The loop over the rows; \<open>acc\<close> is the reversed result.\<close>

fun gap_loop :: "int \<Rightarrow> int \<Rightarrow> (int \<times> int) list \<Rightarrow> (u32 \<times> u32) list \<Rightarrow> (u32 \<times> u32) list" where
  "gap_loop minStart limit [] acc = rev acc"
| "gap_loop minStart limit ((start, end) # rows) acc =
     (let s = (if start < minStart then minStart else start)
      in if s > end then gap_loop minStart limit rows acc
         else let acc' = (word_of_int s, word_of_int end) # acc
              in if int (length acc') \<ge> limit then rev acc' else gap_loop minStart limit rows acc')"

definition FindIDGapsAfter :: "census_env \<Rightarrow> u32 \<Rightarrow> u32 \<Rightarrow> int \<Rightarrow> census_db \<Rightarrow> (u32 \<times> u32) list result" where
  "FindIDGapsAfter env afterID maxID limit0 db =
     (if maxID = 0 then Inr []
      else let limit = (if limit0 \<le> 0 then 100 else limit0);
               rows = gap_rows (uint maxID) (anchored (uint maxID) db)
           in case fetch_many env (wrapped (''find id gaps after '' @ show_u32 afterID)) (wrapped ''scan id gap'') rows of
                Inl e \<Rightarrow> Inl e
              | Inr rows \<Rightarrow> Inr (gap_loop (uint afterID + 1) limit rows []))"

definition FillGapsCursor :: "census_env \<Rightarrow> census_db \<Rightarrow> u32 result \<times> census_db" where
  "FillGapsCursor env db =
     (let db1 = (case db_last_queued db of None \<Rightarrow> db\<lparr>db_last_queued := Some 0\<rparr> | Some _ \<Rightarrow> db)
      in case exec_write env 0 ''initialize fill gaps cursor'' db db1 of
           (Some e, db') \<Rightarrow> (Inl e, db')
         | (None, db') \<Rightarrow>
             (case fetch_one (later 1 env) (wrapped ''fetch fill gaps cursor'') (wrapped ''scan fill gaps cursor'')
                     (the (db_last_queued db')) of
                Inl e \<Rightarrow> (Inl e, db')
              | Inr last_id \<Rightarrow>
                  if last_id < 0 \<or> last_id > max_uint32
                  then (Inl (EText (''fill gaps cursor out of range: '' @ show_int last_id)), db')
                  else (Inr (word_of_int last_id), db')))"

definition AdvanceFillGapsCursor :: "census_env \<Rightarrow> u32 \<Rightarrow> u32 \<Rightarrow> census_db \<Rightarrow> err option \<times> census_db" where
  "AdvanceFillGapsCursor env expected next db =
     (let hit = (db_last_queued db = Some (uint expected));
          db1 = (if hit then db\<lparr>db_last_queued := Some (uint next)\<rparr> else db)
      in case exec_write env 0 ''advance fill gaps cursor'' db db1 of
           (Some e, db') \<Rightarrow> (Some e, db')
         | (None, db') \<Rightarrow>
             (case cv_fault env 1 of
                Some e \<Rightarrow> (Some (wrapped ''advance fill gaps cursor rows affected'' e), db')
              | None \<Rightarrow>
                  if hit then (None, db')
                  else (case FillGapsCursor (later 2 env) db' of
                          (Inl e, db2) \<Rightarrow> (Some e, db2)
                        | (Inr current, db2) \<Rightarrow>
                            if current = expected \<or> current \<ge> next then (None, db2)
                            else (Some (EText (''fill gaps cursor changed concurrently: expected '' @ show_u32 expected
                                    @ '', current '' @ show_u32 current @ '', next '' @ show_u32 next)), db2))))"

text \<open>
  The initial value violates the check constraint of the column when the largest id is the largest
  uint32; the constraint is evaluated before the conflict is.
\<close>

definition IDSweepCursor :: "census_env \<Rightarrow> census_db \<Rightarrow> u32 result \<times> census_db" where
  "IDSweepCursor env db =
     (if max_id db + 1 > max_uint32
      then (Inl (wrapped ''initialize id sweep cursor'' (EText ''violates check constraint'')), db)
      else
     (let db1 = (case db_next_id db of None \<Rightarrow> db\<lparr>db_next_id := Some (max_id db + 1)\<rparr> | Some _ \<Rightarrow> db)
      in case exec_write env 0 ''initialize id sweep cursor'' db db1 of
           (Some e, db') \<Rightarrow> (Inl e, db')
         | (None, db') \<Rightarrow>
             (case fetch_one (later 1 env) (wrapped ''fetch id sweep cursor'') (wrapped ''scan id sweep cursor'')
                     (the (db_next_id db')) of
                Inl e \<Rightarrow> (Inl e, db')
              | Inr nextID \<Rightarrow>
                  if nextID < 1 \<or> nextID > max_uint32
                  then (Inl (EText (''id sweep cursor out of range: '' @ show_int nextID)), db')
                  else (Inr (word_of_int nextID), db'))))"

definition AdvanceIDSweepCursor :: "census_env \<Rightarrow> u32 \<Rightarrow> u32 \<Rightarrow> census_db \<Rightarrow> err option \<times> census_db" where
  "AdvanceIDSweepCursor env expected next db =
     (if expected = 0 \<or> next \<le> expected
      then (Some (EText (''invalid id sweep cursor advance: '' @ show_u32 expected @ '' -> '' @ show_u32 next)), db)
      else
     (let hit = (db_next_id db = Some (uint expected));
          db1 = (if hit then db\<lparr>db_next_id := Some (uint next)\<rparr> else db)
      in case exec_write env 0 ''advance id sweep cursor'' db db1 of
           (Some e, db') \<Rightarrow> (Some e, db')
         | (None, db') \<Rightarrow>
             (case cv_fault env 1 of
                Some e \<Rightarrow> (Some (wrapped ''advance id sweep cursor rows affected'' e), db')
              | None \<Rightarrow>
                  if hit then (None, db')
                  else (case IDSweepCursor (later 2 env) db' of
                          (Inl e, db2) \<Rightarrow> (Some e, db2)
                        | (Inr current, db2) \<Rightarrow>
                            if current \<ge> next then (None, db2)
                            else (Some (EText (''id sweep cursor changed concurrently: expected '' @ show_u32 expected
                                    @ '', current '' @ show_u32 current @ '', next '' @ show_u32 next)), db2)))))"

section \<open>Milestones (achievement.go) and census runs (census\_run.go)\<close>

fun sync_rows :: "census_env \<Rightarrow> nat \<Rightarrow> MilestoneAchievement list \<Rightarrow> MilestoneAchievement list \<Rightarrow> MilestoneAchievement list result" where
  "sync_rows env n [] tbl = Inr tbl"
| "sync_rows env n (m # ms) tbl =
     (case cv_fault env n of
        Some e \<Rightarrow> Inl (wrapped (''sync milestone '' @ show_u32 (ma_AchievementID m)) e)
      | None \<Rightarrow> sync_rows env (Suc n) ms (upsert_by ma_AchievementID overwrite m tbl))"

definition Repo_SyncMilestones :: "census_env \<Rightarrow> MilestoneAchievement list \<Rightarrow> census_db \<Rightarrow> err option \<times> census_db" where
  "Repo_SyncMilestones env registry db =
     (case cv_fault env 0 of Some e \<Rightarrow> (Some e, db) | None \<Rightarrow>
     (case cv_fault env 1 of Some e \<Rightarrow> (Some (wrapped ''sync milestones begin'' e), db) | None \<Rightarrow>
     (case sync_rows env 2 registry (db_registry db) of
        Inl e \<Rightarrow> (Some e, db)
      | Inr tbl \<Rightarrow>
          (let db' = db\<lparr>db_registry := tbl\<rparr>
           in case cv_fault env (2 + length registry) of
                Some e \<Rightarrow> (Some e, if cv_applied env then db' else db)
              | None \<Rightarrow> (None, db')))))"

definition ListMilestones :: "census_env \<Rightarrow> census_db \<Rightarrow> MilestoneAchievement list result" where
  "ListMilestones env db = fetch_many env (\<lambda>e. e) (\<lambda>e. e) (sort_key ma_AchievementID (db_registry db))"

text \<open>A multi-row upsert that proposes one key twice is an error of the statement.\<close>

definition UpsertCharacterMilestones :: "census_env \<Rightarrow> u32 \<Rightarrow> CharacterMilestone list \<Rightarrow> census_db \<Rightarrow> err option \<times> census_db" where
  "UpsertCharacterMilestones env characterID milestones db =
     (if milestones = [] then (None, db)
      else case cv_fault env 0 of Some e \<Rightarrow> (Some e, db) | None \<Rightarrow>
        if \<not> distinct (map milestone_key milestones)
        then (Some (wrapped ''milestones batch upsert'' (EText ''cannot affect row a second time'')), db)
        else exec_write env 1 ''milestones batch upsert'' db
               (db\<lparr>db_milestones := upsert_all milestone_key overwrite milestones (db_milestones db)\<rparr>))"

text \<open>
  An error at the end of the rows is returned together with the rows read before it: \<open>cv_read\<close> of them.
\<close>

definition Repo_ListCharacterMilestones :: "census_env \<Rightarrow> u32 \<Rightarrow> census_db \<Rightarrow> CharacterMilestone list \<times> err option" where
  "Repo_ListCharacterMilestones env characterID db =
     (let rows = sort_key (\<lambda>m. - cm_AchievedAt m) (filter (\<lambda>m. cm_CharacterID m = characterID) (db_milestones db))
      in case cv_fault env 0 of Some e \<Rightarrow> ([], Some e) | None \<Rightarrow>
        (case (if rows = [] then None else cv_fault env 1) of Some e \<Rightarrow> ([], Some e) | None \<Rightarrow>
        (case cv_fault env 2 of Some e \<Rightarrow> (take (cv_read env) rows, Some e) | None \<Rightarrow> (rows, None))))"

text \<open>The join of milestones with live characters that match the filter.\<close>

definition joined :: "census_env \<Rightarrow> CharacterFilter \<Rightarrow> census_db \<Rightarrow> CharacterMilestone list" where
  "joined env f db =
     filter (\<lambda>m. list_ex (\<lambda>c. cr_ID c = cm_CharacterID m \<and> live c \<and> characterJoinFilterWhere env f c)
                   (db_characters db)) (db_milestones db)"

definition distinct_count :: "CharacterMilestone list \<Rightarrow> int" where
  "distinct_count ms = int (length (remdups (map cm_CharacterID ms)))"

definition CountExpansionsFiltered :: "census_env \<Rightarrow> CharacterFilter \<Rightarrow> census_db \<Rightarrow> ExpansionCount list result" where
  "CountExpansionsFiltered env f db =
     (let regs = filter (\<lambda>m. (ma_Kind m = ''expansion_msq'' \<or> ma_Kind m = ''expansion'') \<and> ma_Expansion m \<noteq> None)
                   (db_registry db);
          of_exp = (\<lambda>x. filter (\<lambda>cm. list_ex (\<lambda>m. ma_Expansion m = Some x
                                       \<and> ma_AchievementID m = cm_AchievementID cm) regs) (joined env f db));
          xs = filter (\<lambda>x. of_exp x \<noteq> []) (remdups (map (\<lambda>m. the (ma_Expansion m)) regs))
      in fetch_many env (\<lambda>e. e) (\<lambda>e. e)
           (sort_key (\<lambda>c. cv_rank env (xc_Expansion c))
              (map (\<lambda>x. \<lparr>xc_Expansion = x, xc_Count = distinct_count (of_exp x)\<rparr>) xs)))"

definition CountExpansions :: "census_env \<Rightarrow> census_db \<Rightarrow> ExpansionCount list result" where
  "CountExpansions env db = CountExpansionsFiltered env no_filter db"

definition NewCharactersPerDay :: "census_env \<Rightarrow> timestamp \<Rightarrow> timestamp \<Rightarrow> CharacterFilter \<Rightarrow> census_db \<Rightarrow> DailyCount list result" where
  "NewCharactersPerDay env since until f db =
     (let ms = filter (\<lambda>m. cm_AchievementID m = 590 \<and> cm_AchievedAt m \<ge> since \<and> cm_AchievedAt m < until) (joined env f db)
      in fetch_many env (\<lambda>e. e) (\<lambda>e. e)
           (sort_key (\<lambda>d. cv_rank env (dc_Day d))
              (map (\<lambda>d. \<lparr>dc_Day = d,
                         dc_Count = distinct_count (filter (\<lambda>m. cv_day env (cm_AchievedAt m) = d) ms)\<rparr>)
                 (remdups (map (\<lambda>m. cv_day env (cm_AchievedAt m)) ms)))))"

definition CountChocoboMilestones :: "census_env \<Rightarrow> timestamp \<Rightarrow> CharacterFilter \<Rightarrow> census_db \<Rightarrow> int result" where
  "CountChocoboMilestones env since f db =
     fetch_one env (\<lambda>e. e) (\<lambda>e. e)
       (distinct_count (filter (\<lambda>m. cm_AchievementID m = 590 \<and> cm_AchievedAt m \<ge> since) (joined env f db)))"

definition Run_Start :: "census_env \<Rightarrow> census_db \<Rightarrow> int result \<times> census_db" where
  "Run_Start env db =
     (let i = db_next_run db;
          db' = db\<lparr>db_runs := db_runs db @ [\<lparr>rn_ID = i, rn_StartedAt = cv_now env, rn_FinishedAt = None,
                                              rn_CharactersSeen = 0, rn_NewCharacters = 0\<rparr>],
                   db_next_run := i + 1\<rparr>
      in case exec_write env 0 ''census run start'' db db' of
           (Some e, d) \<Rightarrow> (Inl e, d)
         | (None, d) \<Rightarrow>
             (case cv_fault env 1 of
                Some e \<Rightarrow> (Inl (wrapped ''census run scan id'' e), if cv_applied env then d else db)
              | None \<Rightarrow> (Inr i, d)))"

definition Run_Finish :: "census_env \<Rightarrow> int \<Rightarrow> int \<Rightarrow> int \<Rightarrow> census_db \<Rightarrow> err option \<times> census_db" where
  "Run_Finish env i charactersSeen newCharacters db =
     exec_write env 0 ''census run finish'' db
       (db\<lparr>db_runs := map (\<lambda>r. if rn_ID r = i
                               then r\<lparr>rn_FinishedAt := Some (cv_now env), rn_CharactersSeen := charactersSeen,
                                      rn_NewCharacters := newCharacters\<rparr>
                               else r) (db_runs db)\<rparr>)"

end
