(* ===== verification/Census_Laws.thy ===== *)
theory Census_Laws
  imports Census_Store
begin

text \<open>
  The laws of the census tables: the gaps query returns exactly the ids that are not stored, an upsert is atomic and
  keeps the history of a character, every write keeps the table invariant, and the counts that read
  the denormalised level agree with those that read the job rows.
\<close>

section \<open>The gaps query\<close>

definition covers :: "('a :: linorder \<times> 'a) list \<Rightarrow> 'a set" where
  "covers rows = (\<Union>r\<in>set rows. {fst r..snd r})"

definition apart :: "('a :: linorder \<times> 'a) list \<Rightarrow> bool" where
  "apart rows \<longleftrightarrow> sorted_wrt (\<lambda>r q. snd r < fst q) rows"

lemma covers_simps [simp]:
  "covers [] = {}" "covers (r # rows) = {fst r..snd r} \<union> covers rows"
  by (simp_all add: covers_def)

lemma apart_simps [simp]:
  "apart []" "apart (r # rows) \<longleftrightarrow> (\<forall>q\<in>set rows. snd r < fst q) \<and> apart rows"
  by (simp_all add: apart_def)

lemma gap_rows_bounds:
  assumes "sorted_wrt (<) (a # ids)" and "\<forall>i\<in>set (a # ids). i \<le> m"
  shows "apart (gap_rows m (a # ids)) \<and> (\<forall>r\<in>set (gap_rows m (a # ids)). a < fst r \<and> snd r \<le> m)"
  using assms
proof (induction ids arbitrary: a)
  case (Cons b ids)
  then have "apart (gap_rows m (b # ids)) \<and> (\<forall>r\<in>set (gap_rows m (b # ids)). b < fst r \<and> snd r \<le> m)"
    using Cons.IH [of b] by fastforce
  with Cons.prems show ?case by fastforce
qed simp

lemma gap_rows_cover:
  assumes "sorted_wrt (<) (a # ids)" and "\<forall>i\<in>set (a # ids). i \<le> m"
  shows "covers (gap_rows m (a # ids)) = {x. a < x \<and> x \<le> m \<and> x \<notin> set ids}"
  using assms
proof (induction ids arbitrary: a)
  case (Cons b ids)
  then have "covers (gap_rows m (b # ids)) = {x. b < x \<and> x \<le> m \<and> x \<notin> set ids}" by simp
  with Cons.prems show ?case by fastforce
qed auto

definition trim_gaps :: "int \<Rightarrow> (int \<times> int) list \<Rightarrow> (int \<times> int) list" where
  "trim_gaps k rows = filter (\<lambda>r. fst r \<le> snd r) (map (\<lambda>r. (max k (fst r), snd r)) rows)"

lemma trim_gaps_Cons [simp]:
  "trim_gaps k (r # rows) =
     (if max k (fst r) \<le> snd r then (max k (fst r), snd r) # trim_gaps k rows else trim_gaps k rows)"
  "trim_gaps k [] = []"
  by (simp_all add: trim_gaps_def)

lemma trim_gaps_cover: "covers (trim_gaps k rows) = covers rows \<inter> {k..}"
proof (induction rows)
  case (Cons r rows)
  have "{fst r..snd r} \<inter> {k..} = {max k (fst r)..snd r}" by auto
  with Cons show ?case by (auto simp: Int_Un_distrib2 max.commute)
qed simp

lemma trim_gaps_fst: "q \<in> set (trim_gaps k rows) \<Longrightarrow> \<exists>r\<in>set rows. snd q = snd r \<and> fst r \<le> fst q"
  by (induction rows) (auto split: if_splits)

lemma trim_gaps_apart: "apart rows \<Longrightarrow> apart (trim_gaps k rows)"
proof (induction rows)
  case (Cons r rows)
  then have "snd r < fst q" if "q \<in> set (trim_gaps k rows)" for q
    using trim_gaps_fst [OF that] by force
  with Cons show ?case by simp
qed simp

lemma trim_gaps_nonempty: "\<forall>r\<in>set (trim_gaps k rows). fst r \<le> snd r"
  by (simp add: trim_gaps_def)

lemma covers_take:
  assumes "apart rows" and "\<forall>r\<in>set rows. fst r \<le> snd r" and "0 < n" and "rows \<noteq> []"
  shows "covers (take n rows) = covers rows \<inter> {..snd (last (take n rows))}"
  using assms
proof (induction rows arbitrary: n)
  case (Cons r rows)
  have later: "snd r < x" if "x \<in> covers rows" for x
    using that Cons.prems(1) by (force simp: covers_def)
  show ?case
  proof (cases "rows = [] \<or> n = 1")
    case True
    then have "take n (r # rows) = [r]" using Cons.prems(3) by (cases n) auto
    moreover have "covers rows \<inter> {..snd r} = {}" using later by fastforce
    ultimately show ?thesis by (auto simp: Int_Un_distrib2)
  next
    case False
    then have IH: "covers (take (n - 1) rows) = covers rows \<inter> {..snd (last (take (n - 1) rows))}"
      using Cons by auto
    have ne: "take (n - 1) rows \<noteq> []" using False Cons.prems(3) by auto
    have "last (take (n - 1) rows) \<in> set rows" using ne by (meson in_set_takeD last_in_set)
    then have lt: "snd r < snd (last (take (n - 1) rows))" using Cons.prems(1,2) by fastforce
    have tk: "take n (r # rows) = r # take (n - 1) rows" using Cons.prems(3) by (cases n) auto
    have sub: "{fst r..snd r} \<inter> {..snd (last (take (n - 1) rows))} = {fst r..snd r}" using lt by force
    show ?thesis unfolding tk last_ConsR [OF ne] covers_simps Int_Un_distrib2 IH sub by (rule refl)
  qed
qed simp

lemma gap_loop_eq:
  assumes "int (length acc) < limit"
  shows "gap_loop k limit rows acc =
     rev acc @ map (\<lambda>r. (word_of_int (fst r), word_of_int (snd r))) (take (nat limit - length acc) (trim_gaps k rows))"
  using assms
proof (induction rows arbitrary: acc)
  case (Cons r rows)
  obtain s e where r: "r = (s, e)" by (cases r)
  have m: "max k s = (if s < k then k else s)" by simp
  show ?case
  proof (cases "max k s \<le> e")
    case False
    with Cons r show ?thesis by (auto simp: Let_def m)
  next
    case True
    obtain n where n: "nat limit - length acc = Suc n" using Cons.prems by (cases "nat limit - length acc") auto
    have loop: "gap_loop k limit (r # rows) acc =
        (let acc' = (word_of_int (max k s), word_of_int e) # acc
         in if int (length acc') \<ge> limit then rev acc' else gap_loop k limit rows acc')"
      using True by (auto simp: r Let_def m)
    show ?thesis
    proof (cases "int (length acc) + 1 \<ge> limit")
      case True
      with n Cons.prems have "n = 0" by linarith
      with loop True \<open>max k s \<le> e\<close> n show ?thesis by (simp add: r)
    next
      case False
      then have "nat limit - length ((word_of_int (max k s), word_of_int e) # acc) = n" using n by simp
      with loop False Cons.IH [of "(word_of_int (max k s), word_of_int e) # acc"] \<open>max k s \<le> e\<close> n
      show ?thesis by (simp add: r)
    qed
  qed
qed simp

lemma anchored_shape:
  assumes "0 \<le> m"
  obtains ids where "anchored m db = 0 # ids" and "sorted_wrt (<) (0 # ids)"
    and "set (0 # ids) = insert 0 {i \<in> stored_ids db. i \<le> m}"
proof -
  let ?l = "anchored m db"
  have set: "set ?l = insert 0 {i \<in> stored_ids db. i \<le> m}" by (auto simp: anchored_def stored_ids_def)
  have srt: "sorted_wrt (<) ?l" by (simp add: anchored_def strict_sorted_iff)
  obtain a ids where l: "?l = a # ids" using set by (cases ?l) auto
  have "a \<in> insert 0 {i \<in> stored_ids db. i \<le> m}" using set l by (metis list.set_intros(1))
  then have "0 \<le> a" by (auto simp: stored_ids_def)
  moreover have "0 \<in> set (a # ids)" using set l by (metis insertI1)
  then have "a \<le> 0" using srt l by auto
  ultimately have "a = 0" by simp
  with that l set srt show thesis by auto
qed

lemma gap_rows_anchored:
  assumes "0 \<le> m"
  shows "apart (gap_rows m (anchored m db))"
    and "covers (gap_rows m (anchored m db)) = {x. 0 < x \<and> x \<le> m \<and> x \<notin> stored_ids db}"
    and "\<forall>r\<in>set (gap_rows m (anchored m db)). 0 < fst r \<and> snd r \<le> m"
proof -
  obtain ids where a: "anchored m db = 0 # ids" "sorted_wrt (<) (0 # ids)"
    "set (0 # ids) = insert 0 {i \<in> stored_ids db. i \<le> m}"
    using anchored_shape [OF assms] by blast
  from a(3) have le: "\<forall>i\<in>set (0 # ids). i \<le> m" using assms by auto
  from a(3) have mem: "0 < x \<Longrightarrow> x \<in> set ids \<longleftrightarrow> x \<in> stored_ids db \<and> x \<le> m" for x
    by (metis (mono_tags, lifting) insert_iff less_irrefl list.set(2) mem_Collect_eq)
  show "apart (gap_rows m (anchored m db))"
    and "\<forall>r\<in>set (gap_rows m (anchored m db)). 0 < fst r \<and> snd r \<le> m"
    using gap_rows_bounds [OF a(2) le] a(1) by simp_all
  show "covers (gap_rows m (anchored m db)) = {x. 0 < x \<and> x \<le> m \<and> x \<notin> stored_ids db}"
    using gap_rows_cover [OF a(2) le] a(1) mem by auto
qed

text \<open>The limit that is in force, and the gaps as integers.\<close>

definition gap_limit :: "int \<Rightarrow> nat" where
  "gap_limit limit0 = nat (if limit0 \<le> 0 then 100 else limit0)"

definition int_gaps :: "u32 \<Rightarrow> u32 \<Rightarrow> int \<Rightarrow> census_db \<Rightarrow> (int \<times> int) list" where
  "int_gaps a m limit0 db =
     take (gap_limit limit0) (trim_gaps (uint a + 1) (gap_rows (uint m) (anchored (uint m) db)))"

lemma FindIDGapsAfter_eq:
  assumes "FindIDGapsAfter env a m limit0 db = Inr gaps"
  shows "gaps = (if m = 0 then [] else map (\<lambda>r. (word_of_int (fst r), word_of_int (snd r))) (int_gaps a m limit0 db))"
  using assms gap_loop_eq [of "[]" "if limit0 \<le> 0 then 100 else limit0"]
  by (auto simp: FindIDGapsAfter_def int_gaps_def gap_limit_def fetch_many_def Let_def
      split: option.splits if_splits)

lemma int_gaps_facts:
  shows "apart (int_gaps a m limit0 db)"
    and "\<forall>r\<in>set (int_gaps a m limit0 db). uint a < fst r \<and> fst r \<le> snd r \<and> snd r \<le> uint m"
    and "covers (int_gaps a m limit0 db) =
      {x. uint a < x \<and> x \<notin> stored_ids db
          \<and> x \<le> (if length (int_gaps a m limit0 db) < gap_limit limit0 then uint m
                 else snd (last (int_gaps a m limit0 db)))}"
proof -
  let ?rows = "gap_rows (uint m) (anchored (uint m) db)"
  let ?t = "trim_gaps (uint a + 1) ?rows"
  have g: "apart ?rows" "covers ?rows = {x. 0 < x \<and> x \<le> uint m \<and> x \<notin> stored_ids db}"
    "\<forall>r\<in>set ?rows. 0 < fst r \<and> snd r \<le> uint m"
    using gap_rows_anchored [of "uint m" db] by simp_all
  have t: "apart ?t" "\<forall>r\<in>set ?t. fst r \<le> snd r" "covers ?t = {x. uint a < x \<and> x \<le> uint m \<and> x \<notin> stored_ids db}"
    using trim_gaps_apart [OF g(1)] trim_gaps_nonempty trim_gaps_cover [of "uint a + 1" ?rows] g(2)
    by (auto intro: order_le_less_trans [OF uint_ge_0])
  have b: "uint a < fst r \<and> snd r \<le> uint m" if "r \<in> set ?t" for r
    using that g(3) by (auto simp: trim_gaps_def)
  have n: "0 < gap_limit limit0" by (simp add: gap_limit_def)
  show "apart (int_gaps a m limit0 db)" using t(1) by (simp add: int_gaps_def apart_def sorted_wrt_take)
  show "\<forall>r\<in>set (int_gaps a m limit0 db). uint a < fst r \<and> fst r \<le> snd r \<and> snd r \<le> uint m"
    using b t(2) by (auto simp: int_gaps_def dest: in_set_takeD)
  show "covers (int_gaps a m limit0 db) = {x. uint a < x \<and> x \<notin> stored_ids db
          \<and> x \<le> (if length (int_gaps a m limit0 db) < gap_limit limit0 then uint m
                 else snd (last (int_gaps a m limit0 db)))}"
  proof (cases "length (int_gaps a m limit0 db) < gap_limit limit0")
    case True
    then have "int_gaps a m limit0 db = ?t" by (auto simp: int_gaps_def)
    with t(3) True show ?thesis by auto
  next
    case False
    then have ne: "int_gaps a m limit0 db \<noteq> []" using n by auto
    then have "?t \<noteq> []" by (auto simp: int_gaps_def)
    then have c: "covers (int_gaps a m limit0 db) = covers ?t \<inter> {..snd (last (int_gaps a m limit0 db))}"
      using covers_take [OF t(1,2) n] by (simp add: int_gaps_def)
    have "last (int_gaps a m limit0 db) \<in> set ?t" using last_in_set [OF ne] by (auto simp: int_gaps_def dest: in_set_takeD)
    then have le: "snd (last (int_gaps a m limit0 db)) \<le> uint m" using b by blast
    define L where "L = snd (last (int_gaps a m limit0 db))"
    show ?thesis using False le unfolding c t(3) L_def [symmetric] by auto
  qed
qed

lemma uint_of_u32: "0 \<le> i \<Longrightarrow> i \<le> max_uint32 \<Longrightarrow> uint (word_of_int i :: u32) = i"
  by (simp add: uint_word_of_int max_uint32_def)

lemma uint_le_max [simp]: "uint (x :: u32) \<le> max_uint32"
  using uint_lt2p [of x] by (simp add: max_uint32_def)

definition word_gap :: "int \<times> int \<Rightarrow> u32 \<times> u32" where
  "word_gap r = (word_of_int (fst r), word_of_int (snd r))"

lemma word_gaps:
  assumes "\<forall>r\<in>set rows. 0 \<le> fst r \<and> fst r \<le> snd r \<and> snd r \<le> max_uint32"
  shows "covers (map word_gap rows) = {x. uint x \<in> covers rows}"
    and "apart rows \<Longrightarrow> apart (map word_gap rows)"
    and "\<forall>g\<in>set (map word_gap rows). fst g \<le> snd g"
proof -
  have u: "uint (fst (word_gap r)) = fst r" "uint (snd (word_gap r)) = snd r" if "r \<in> set rows" for r
    using assms that by (auto simp: word_gap_def intro!: uint_of_u32)
  show "covers (map word_gap rows) = {x. uint x \<in> covers rows}"
    using u by (force simp: covers_def word_le_def)
  show "apart (map word_gap rows)" if "apart rows"
    using that u unfolding apart_def sorted_wrt_map
    by (rule_tac sorted_wrt_mono_rel [rotated]) (auto simp: word_less_def)
  show "\<forall>g\<in>set (map word_gap rows). fst g \<le> snd g"
    using u assms by (auto simp: word_le_def)
qed

lemma stored_ids_iff: "uint x \<in> stored_ids db \<longleftrightarrow> x \<in> cr_ID ` set (db_characters db)"
proof -
  have "stored_ids db = uint ` cr_ID ` set (db_characters db)" by (simp add: stored_ids_def image_image)
  moreover have "inj (uint :: u32 \<Rightarrow> int)" by (rule injI) (rule word_uint_eqI)
  ultimately show ?thesis by (simp add: inj_image_mem_iff)
qed

lemma gaps_exact:
  assumes "FindIDGapsAfter env a m limit db = Inr gaps"
  shows "apart gaps" and "\<forall>g\<in>set gaps. fst g \<le> snd g"
    and "covers gaps = {x. a < x \<and> x \<le> (if length gaps < gap_limit limit then m else snd (last gaps))
                          \<and> x \<notin> cr_ID ` set (db_characters db)}"
proof -
  let ?r = "int_gaps a m limit db"
  note f = int_gaps_facts [of a m limit db]
  have b: "0 \<le> fst r \<and> fst r \<le> snd r \<and> snd r \<le> max_uint32" if "r \<in> set ?r" for r
    using f(2) that by (metis order.trans order_less_imp_le uint_ge_0 uint_le_max)
  have bs: "\<forall>r\<in>set ?r. 0 \<le> fst r \<and> fst r \<le> snd r \<and> snd r \<le> max_uint32" using b by blast
  have g: "gaps = (if m = 0 then [] else map word_gap ?r)"
    using FindIDGapsAfter_eq [OF assms] by (simp add: word_gap_def cong: map_cong)
  show "apart gaps" and "\<forall>g\<in>set gaps. fst g \<le> snd g"
    using g word_gaps(2,3) [OF bs] f(1) by auto
  have n: "0 < gap_limit limit" by (simp add: gap_limit_def)
  have l: "uint (snd (last (map word_gap ?r))) = snd (last ?r)" if "?r \<noteq> []"
    using that b [OF last_in_set [OF that]] by (simp add: last_map word_gap_def uint_of_u32)
  show "covers gaps = {x. a < x \<and> x \<le> (if length gaps < gap_limit limit then m else snd (last gaps))
                          \<and> x \<notin> cr_ID ` set (db_characters db)}"
  proof (cases "m = 0")
    case True
    with g n show ?thesis by (auto simp: word_less_def)
  next
    case False
    have "uint x \<in> covers ?r \<longleftrightarrow> a < x \<and> x \<le> (if length ?r < gap_limit limit then m else snd (last (map word_gap ?r)))
        \<and> x \<notin> cr_ID ` set (db_characters db)" for x
    proof (cases "length ?r < gap_limit limit")
      case True
      then show ?thesis unfolding f(3) by (auto simp: word_le_def word_less_def stored_ids_iff)
    next
      case False
      then have "?r \<noteq> []" using n by auto
      with False show ?thesis unfolding f(3) by (auto simp: word_le_def word_less_def stored_ids_iff l)
    qed
    with False g word_gaps(1) [OF bs] show ?thesis by auto
  qed
qed

lemma gaps_below_max:
  assumes "FindIDGapsAfter env a m limit db = Inr gaps" and "g \<in> set gaps"
  shows "snd g \<le> m"
proof -
  obtain r where r: "r \<in> set (int_gaps a m limit db)" "g = word_gap r"
    using FindIDGapsAfter_eq [OF assms(1)] assms(2) by (auto simp: word_gap_def split: if_splits)
  then have "0 \<le> snd r" "snd r \<le> uint m"
    using int_gaps_facts(2) [of a m limit db] uint_ge_0 [of a] by (metis order.trans order_less_imp_le)+
  then have "uint (snd g) = snd r" using r(2) uint_le_max [of m]
    by (simp add: word_gap_def uint_of_u32 order_trans [of "snd r"])
  with \<open>snd r \<le> uint m\<close> show ?thesis by (simp add: word_le_def)
qed

section \<open>Upserts\<close>

definition upserted :: "CharacterRecord \<Rightarrow> ClassJobRecord list \<Rightarrow> census_db \<Rightarrow> census_db" where
  "upserted rec jobs db =
     db\<lparr>db_characters := upsert_by cr_ID merge_character (inserted_row rec (maxJobLevel jobs)) (db_characters db),
        db_jobs := upsert_all job_key overwrite jobs (filter (\<lambda>j. cj_CharacterID j \<noteq> cr_ID rec) (db_jobs db))\<rparr>"

lemma insert_jobs_Inr: "insert_jobs env n jobs tbl = Inr tbl' \<Longrightarrow> tbl' = upsert_all job_key overwrite jobs tbl"
  by (induction env n jobs tbl rule: insert_jobs.induct) (auto split: option.splits)

text \<open>An upsert is atomic: it leaves the database as it was or with the whole effect.\<close>

lemma Upsert_atomic:
  assumes "Upsert env rec jobs db = (r, db')"
  shows "(r = None \<longrightarrow> db' = upserted rec jobs db) \<and> (db' = db \<or> db' = upserted rec jobs db)"
  using assms
  by (auto simp: Upsert_def upserted_def Let_def dest!: insert_jobs_Inr split: option.splits sum.splits if_splits)

lemma cr_ID_merge [simp]: "cr_ID (merge_character old new) = cr_ID old"
  by (simp add: merge_character_def)

lemma inserted_row_simps [simp]:
  "cr_ID (inserted_row rec l) = cr_ID rec"
  "cr_max_job_level (inserted_row rec l) = l"
  "cr_FirstSeenAt (inserted_row rec l) = cr_FirstSeenAt rec"
  "cr_DeletedAt (inserted_row rec l) = cr_DeletedAt rec"
  "cr_AchievementsPrivate (inserted_row rec l) = cr_AchievementsPrivate rec"
  "cr_LatestAchievementAt (inserted_row rec l) = cr_LatestAchievementAt rec"
  "cr_LatestAchievementID (inserted_row rec l) = cr_LatestAchievementID rec"
  by (simp_all add: inserted_row_def CharacterRecord.defs character_row.defs)

lemma scan_inserted [simp]: "scanCharacter (inserted_row rec l) = rec"
  by (simp add: inserted_row_def scanCharacter_def CharacterRecord.defs character_row.defs)

lemma upserted_row:
  "row_with cr_ID i (db_characters (upserted rec jobs db)) =
     (if i = cr_ID rec
      then Some (case row_with cr_ID i (db_characters db) of
                   None \<Rightarrow> inserted_row rec (maxJobLevel jobs)
                 | Some r \<Rightarrow> merge_character r (inserted_row rec (maxJobLevel jobs)))
      else row_with cr_ID i (db_characters db))"
  by (simp add: upserted_def store_simps)

section \<open>The table invariant\<close>

definition jobs_of :: "u32 \<Rightarrow> census_db \<Rightarrow> ClassJobRecord list" where
  "jobs_of i db = filter (\<lambda>j. cj_CharacterID j = i) (db_jobs db)"

text \<open>
  Primary keys are unique, the denormalised level of each character is the largest of its job rows, the
  cursors are within their check constraints.
\<close>

definition census_inv :: "census_db \<Rightarrow> bool" where
  "census_inv db \<longleftrightarrow>
     distinct (map cr_ID (db_characters db)) \<and> distinct (map job_key (db_jobs db))
     \<and> distinct (map gear_key (db_gear db)) \<and> distinct (map ma_AchievementID (db_registry db))
     \<and> distinct (map milestone_key (db_milestones db))
     \<and> list_all (\<lambda>r. cr_max_job_level r = maxJobLevel (jobs_of (cr_ID r) db)) (db_characters db)
     \<and> (case db_next_id db of None \<Rightarrow> True | Some i \<Rightarrow> 1 \<le> i \<and> i \<le> max_uint32)
     \<and> (case db_last_queued db of None \<Rightarrow> True | Some i \<Rightarrow> 0 \<le> i \<and> i \<le> max_uint32)"

definition empty_census :: census_db where
  "empty_census = \<lparr>db_characters = [], db_jobs = [], db_gear = [], db_registry = [], db_milestones = [],
     db_runs = [], db_next_run = 1, db_next_id = None, db_last_queued = None\<rparr>"

lemma empty_census_inv: "census_inv empty_census"
  by (simp add: census_inv_def empty_census_def)

definition own_jobs :: "CharacterRecord \<Rightarrow> ClassJobRecord list \<Rightarrow> bool" where
  "own_jobs rec jobs \<longleftrightarrow> list_all (\<lambda>j. cj_CharacterID j = cr_ID rec) jobs \<and> distinct (map cj_ClassJobID jobs)"

lemma own_jobs_upsert:
  assumes "own_jobs rec jobs"
  shows "db_jobs (upserted rec jobs db) = filter (\<lambda>j. cj_CharacterID j \<noteq> cr_ID rec) (db_jobs db) @ jobs"
proof -
  have own: "\<forall>j\<in>set jobs. cj_CharacterID j = cr_ID rec" and "distinct (map cj_ClassJobID jobs)"
    using assms by (auto simp: own_jobs_def list_all_iff)
  then have "distinct (map job_key jobs)" by (auto simp: job_key_def distinct_map inj_on_def)
  moreover have "job_key ` set jobs \<inter> job_key ` set (filter (\<lambda>j. cj_CharacterID j \<noteq> cr_ID rec) (db_jobs db)) = {}"
    using own by (auto simp: job_key_def)
  ultimately show ?thesis by (simp add: upserted_def upsert_all_fresh)
qed

lemma own_jobs_of:
  assumes "own_jobs rec jobs"
  shows "jobs_of i (upserted rec jobs db) = (if i = cr_ID rec then jobs else jobs_of i db)"
proof -
  have own: "\<forall>j\<in>set jobs. cj_CharacterID j = cr_ID rec" using assms by (auto simp: own_jobs_def list_all_iff)
  then have "filter (\<lambda>j. cj_CharacterID j = i) jobs = (if i = cr_ID rec then jobs else [])"
    by (auto simp: filter_id_conv filter_empty_conv)
  then show ?thesis by (auto simp: jobs_of_def own_jobs_upsert [OF assms] filter_empty_conv intro!: filter_cong)
qed

lemma maxJobLevel_Max: "maxJobLevel jobs = Max (insert 0 (cj_Level ` set jobs))"
proof -
  have "fold (\<lambda>j m. if cj_Level j > m then cj_Level j else m) js m = fold max (map cj_Level js) m" for js and m :: u8
    by (induction js arbitrary: m) (auto simp: max_def intro: arg_cong [where f = "fold _ _"])
  then show ?thesis using Max.set_eq_fold [of 0 "map cj_Level jobs"] by (simp add: maxJobLevel_def)
qed

lemma cr_max_merge [simp]: "cr_max_job_level (merge_character old new) = cr_max_job_level new"
  by (simp add: merge_character_def)

lemma upserted_inv:
  assumes "census_inv db" and "own_jobs rec jobs"
  shows "census_inv (upserted rec jobs db)"
proof -
  let ?new = "inserted_row rec (maxJobLevel jobs)" and ?db' = "upserted rec jobs db"
  have ch: "db_characters ?db' = upsert_by cr_ID merge_character ?new (db_characters db)"
    by (simp add: upserted_def)
  have d1: "distinct (map cr_ID (db_characters ?db'))"
    using assms(1) unfolding ch census_inv_def by (auto intro!: distinct_upsert)
  have d2: "distinct (map job_key (db_jobs ?db'))"
    using assms(1) by (simp add: upserted_def census_inv_def overwrite_def distinct_upsert_all distinct_map_filter)
  have "cr_max_job_level r = maxJobLevel (jobs_of (cr_ID r) ?db')" if r: "r \<in> set (db_characters ?db')" for r
  proof (cases "cr_ID r = cr_ID rec")
    case True
    have "row_with cr_ID (cr_ID rec) (db_characters ?db') = Some r"
      using r True by (simp add: row_with_Some_iff [OF d1])
    then have "cr_max_job_level r = maxJobLevel jobs"
      by (auto simp: upserted_row split: option.splits)
    with True show ?thesis by (simp add: own_jobs_of [OF assms(2)])
  next
    case False
    have "row_with cr_ID (cr_ID r) (db_characters ?db') = Some r" using r by (simp add: row_with_Some_iff [OF d1])
    with False have "r \<in> set (db_characters db)" by (auto simp: upserted_row dest: row_with_SomeD)
    with False assms(1) show ?thesis by (simp add: own_jobs_of [OF assms(2)] census_inv_def list_all_iff)
  qed
  with d1 d2 assms(1) show ?thesis
    by (simp add: census_inv_def list_all_iff) (simp add: upserted_def)
qed

text \<open>Every other write replaces rows without touching keys or levels.\<close>

lemma exec_write_cases: "snd (exec_write env n pre db db') \<in> {db, db'}"
  by (auto simp: exec_write_def split: option.splits)

lemma exec_write_inv: "census_inv db \<Longrightarrow> census_inv db' \<Longrightarrow> census_inv (snd (exec_write env n pre db db'))"
  using exec_write_cases [of env n pre db db'] by auto

lemma update_character_inv:
  assumes "census_inv db" and "\<And>r. cr_ID (f r) = cr_ID r" and "\<And>r. cr_max_job_level (f r) = cr_max_job_level r"
  shows "census_inv (update_character i f db)"
proof -
  have "map cr_ID (db_characters (update_character i f db)) = map cr_ID (db_characters db)"
    using assms(2) by (simp add: update_character_def)
  moreover have "jobs_of k (update_character i f db) = jobs_of k db" for k
    by (simp add: jobs_of_def update_character_def)
  ultimately show ?thesis using assms by (simp add: census_inv_def list_all_iff) (auto simp: update_character_def)
qed

lemma cursor_inv:
  assumes "census_inv db"
  shows "1 \<le> i \<Longrightarrow> i \<le> max_uint32 \<Longrightarrow> census_inv (db\<lparr>db_next_id := Some i\<rparr>)"
    and "0 \<le> i \<Longrightarrow> i \<le> max_uint32 \<Longrightarrow> census_inv (db\<lparr>db_last_queued := Some i\<rparr>)"
  using assms by (simp_all add: census_inv_def jobs_of_def)

lemma table_inv:
  assumes "census_inv db"
  shows "distinct (map gear_key g) \<Longrightarrow> census_inv (db\<lparr>db_gear := g\<rparr>)"
    and "distinct (map ma_AchievementID m) \<Longrightarrow> census_inv (db\<lparr>db_registry := m\<rparr>)"
    and "distinct (map milestone_key ms) \<Longrightarrow> census_inv (db\<lparr>db_milestones := ms\<rparr>)"
    and "census_inv (db\<lparr>db_runs := rs, db_next_run := n\<rparr>)"
    and "census_inv (db\<lparr>db_runs := rs\<rparr>)"
  using assms by (simp_all add: census_inv_def jobs_of_def)

lemma max_id_nonneg: "0 \<le> max_id db"
proof -
  have "0 \<le> fold max xs (a :: int)" if "0 \<le> a" for xs a using that by (induction xs arbitrary: a) auto
  then show ?thesis by (simp add: max_id_def)
qed

lemma FillGapsCursor_inv: "census_inv db \<Longrightarrow> census_inv (snd (FillGapsCursor env db))"
proof -
  assume inv: "census_inv db"
  let ?db1 = "case db_last_queued db of None \<Rightarrow> db\<lparr>db_last_queued := Some 0\<rparr> | Some _ \<Rightarrow> db"
  have "census_inv ?db1" using inv cursor_inv(2) [OF inv, of 0] by (simp add: max_uint32_def split: option.splits)
  then have "census_inv (snd (exec_write env 0 ''initialize fill gaps cursor'' db ?db1))"
    by (rule exec_write_inv [OF inv])
  moreover have "snd (FillGapsCursor env db) = snd (exec_write env 0 ''initialize fill gaps cursor'' db ?db1)"
    unfolding FillGapsCursor_def Let_def by (auto split: prod.splits option.splits sum.splits)
  ultimately show ?thesis by simp
qed

lemma IDSweepCursor_inv: "census_inv db \<Longrightarrow> census_inv (snd (IDSweepCursor env db))"
proof (cases "max_id db + 1 > max_uint32")
  case False
  assume inv: "census_inv db"
  let ?db1 = "case db_next_id db of None \<Rightarrow> db\<lparr>db_next_id := Some (max_id db + 1)\<rparr> | Some _ \<Rightarrow> db"
  have "census_inv ?db1"
    using inv cursor_inv(1) [OF inv, of "max_id db + 1"] False max_id_nonneg [of db] by (simp split: option.splits)
  then have "census_inv (snd (exec_write env 0 ''initialize id sweep cursor'' db ?db1))"
    by (rule exec_write_inv [OF inv])
  moreover have "snd (IDSweepCursor env db) = snd (exec_write env 0 ''initialize id sweep cursor'' db ?db1)"
    using False unfolding IDSweepCursor_def Let_def by (auto split: prod.splits option.splits sum.splits)
  ultimately show ?thesis by simp
qed (simp add: IDSweepCursor_def)

lemma AdvanceFillGapsCursor_inv: "census_inv db \<Longrightarrow> census_inv (snd (AdvanceFillGapsCursor env expected nxt db))"
proof -
  assume inv: "census_inv db"
  let ?db1 = "if db_last_queued db = Some (uint expected) then db\<lparr>db_last_queued := Some (uint nxt)\<rparr> else db"
  obtain r d where x: "exec_write env 0 ''advance fill gaps cursor'' db ?db1 = (r, d)" by (metis surj_pair)
  have "census_inv ?db1" using inv cursor_inv(2) [OF inv, of "uint nxt"] by simp
  from exec_write_inv [OF inv this, of env 0 "''advance fill gaps cursor''"] x have "census_inv d" by simp
  with FillGapsCursor_inv [of d "later 2 env"] x show ?thesis
    unfolding AdvanceFillGapsCursor_def Let_def by (auto split: prod.splits option.splits sum.splits if_splits)
qed

lemma AdvanceIDSweepCursor_inv: "census_inv db \<Longrightarrow> census_inv (snd (AdvanceIDSweepCursor env expected nxt db))"
proof (cases "expected = 0 \<or> nxt \<le> expected")
  case False
  assume inv: "census_inv db"
  let ?db1 = "if db_next_id db = Some (uint expected) then db\<lparr>db_next_id := Some (uint nxt)\<rparr> else db"
  obtain r d where x: "exec_write env 0 ''advance id sweep cursor'' db ?db1 = (r, d)" by (metis surj_pair)
  have "1 \<le> uint nxt" using False uint_ge_0 [of expected] unfolding word_le_def by linarith
  then have "census_inv ?db1" using inv cursor_inv(1) [OF inv, of "uint nxt"] by simp
  from exec_write_inv [OF inv this, of env 0 "''advance id sweep cursor''"] x have "census_inv d" by simp
  with IDSweepCursor_inv [of d "later 2 env"] x False show ?thesis
    unfolding AdvanceIDSweepCursor_def Let_def by (auto split: prod.splits option.splits sum.splits if_splits)
qed (simp add: AdvanceIDSweepCursor_def)

text \<open>The writes of the repositories as one step relation, and the databases they reach.\<close>

inductive census_step :: "census_db \<Rightarrow> census_db \<Rightarrow> bool" where
  step_upsert: "own_jobs rec jobs \<Longrightarrow> census_step db (snd (Upsert env rec jobs db))"
| step_gear: "census_step db (snd (UpsertGear env i gear db))"
| step_deleted: "census_step db (snd (MarkDeleted env i t db))"
| step_summary: "census_step db (snd (UpdateAchievementSummary env i p li la db))"
| step_private: "census_step db (snd (SetAchievementsPrivate env i p db))"
| step_registry: "census_step db (snd (Repo_SyncMilestones env ms db))"
| step_milestones: "census_step db (snd (UpsertCharacterMilestones env i cms db))"
| step_fill_cursor: "census_step db (snd (FillGapsCursor env db))"
| step_fill_advance: "census_step db (snd (AdvanceFillGapsCursor env a b db))"
| step_id_cursor: "census_step db (snd (IDSweepCursor env db))"
| step_id_advance: "census_step db (snd (AdvanceIDSweepCursor env a b db))"
| step_run_start: "census_step db (snd (Run_Start env db))"
| step_run_finish: "census_step db (snd (Run_Finish env k x y db))"

lemma insert_gear_Inr: "insert_gear env n gs tbl = Inr tbl' \<Longrightarrow> tbl' = upsert_all gear_key overwrite gs tbl"
  by (induction env n gs tbl rule: insert_gear.induct) (auto split: option.splits)

lemma sync_rows_Inr: "sync_rows env n ms tbl = Inr tbl' \<Longrightarrow> tbl' = upsert_all ma_AchievementID overwrite ms tbl"
  by (induction env n ms tbl rule: sync_rows.induct) (auto split: option.splits)

lemma UpsertGear_inv: "census_inv db \<Longrightarrow> census_inv (snd (UpsertGear env i gear db))"
proof -
  assume inv: "census_inv db"
  have "distinct (map gear_key (upsert_all gear_key overwrite gs (filter P (db_gear db))))" for gs P
    using inv by (simp add: census_inv_def overwrite_def distinct_upsert_all distinct_map_filter)
  then have gear: "census_inv (db\<lparr>db_gear := upsert_all gear_key overwrite gs (filter P (db_gear db))\<rparr>)" for gs P
    using table_inv(1) [OF inv] by blast
  have none: "census_inv (db\<lparr>db_gear := filter P (db_gear db)\<rparr>)" for P using gear [of "[]"] by simp
  show ?thesis using inv gear none
    by (auto simp: UpsertGear_def Let_def dest!: insert_gear_Inr split: option.splits sum.splits)
qed

lemma Repo_SyncMilestones_inv: "census_inv db \<Longrightarrow> census_inv (snd (Repo_SyncMilestones env ms db))"
proof -
  assume inv: "census_inv db"
  have "distinct (map ma_AchievementID (upsert_all ma_AchievementID overwrite ms (db_registry db)))"
    using inv by (simp add: census_inv_def overwrite_def distinct_upsert_all)
  from table_inv(2) [OF inv this] show ?thesis using inv
    by (auto simp: Repo_SyncMilestones_def Let_def dest!: sync_rows_Inr split: option.splits sum.splits)
qed

lemma UpsertCharacterMilestones_inv: "census_inv db \<Longrightarrow> census_inv (snd (UpsertCharacterMilestones env i ms db))"
proof -
  assume inv: "census_inv db"
  have "distinct (map milestone_key (upsert_all milestone_key overwrite ms (db_milestones db)))"
    using inv by (simp add: census_inv_def overwrite_def distinct_upsert_all)
  from exec_write_inv [OF inv table_inv(3) [OF inv this]] show ?thesis using inv
    by (auto simp: UpsertCharacterMilestones_def split: option.splits)
qed

lemma Run_inv:
  assumes inv: "census_inv db"
  shows "census_inv (snd (Run_Start env db))" and "census_inv (snd (Run_Finish env k x y db))"
  using inv table_inv(4,5) [OF inv]
  by (auto simp: Run_Start_def Run_Finish_def Let_def exec_write_def split: option.splits)

lemma census_step_inv: "census_step db db' \<Longrightarrow> census_inv db \<Longrightarrow> census_inv db'"
proof (induction rule: census_step.induct)
  case (step_upsert rec jobs db env)
  then show ?case using Upsert_atomic [of env rec jobs db] upserted_inv [of db rec jobs] by (metis prod.collapse)
qed (auto simp: MarkDeleted_def UpdateAchievementSummary_def SetAchievementsPrivate_def
    intro!: exec_write_inv update_character_inv UpsertGear_inv Repo_SyncMilestones_inv UpsertCharacterMilestones_inv
      FillGapsCursor_inv AdvanceFillGapsCursor_inv IDSweepCursor_inv AdvanceIDSweepCursor_inv Run_inv)

inductive census_reachable :: "census_db \<Rightarrow> bool" where
  reach_empty: "census_reachable empty_census"
| reach_step: "census_reachable db \<Longrightarrow> census_step db db' \<Longrightarrow> census_reachable db'"

lemma census_reachable_inv: "census_reachable db \<Longrightarrow> census_inv db"
  by (induction rule: census_reachable.induct) (auto intro: empty_census_inv census_step_inv)

text \<open>A batch of rows with distinct keys replaces exactly the rows with those keys.\<close>

lemma row_with_upsert_all:
  assumes "distinct (map key new)"
  shows "row_with key k (upsert_all key overwrite new xs) =
     (case row_with key k new of Some m \<Rightarrow> Some m | None \<Rightarrow> row_with key k xs)"
  using assms
proof (induction new arbitrary: xs)
  case (Cons x new)
  have "row_with key k (upsert_by key overwrite x xs) = (if k = key x then Some x else row_with key k xs)"
    by (subst row_with_upsert) (auto simp: overwrite_def split: option.splits)
  moreover have "row_with key (key x) new = None" using Cons.prems by (simp add: row_with_None)
  ultimately show ?case using Cons by (cases "k = key x") (simp_all split: option.split)
qed simp

section \<open>Counting by the denormalised level\<close>

lemma maxJobLevel_fold:
  "uint (fold (\<lambda>j m. if cj_Level j > m then cj_Level j else m) jobs m) \<ge> L \<longleftrightarrow>
     uint m \<ge> L \<or> list_ex (\<lambda>j. uint (cj_Level j) \<ge> L) jobs"
proof (induction jobs arbitrary: m)
  case (Cons j jobs)
  have "uint (if m < cj_Level j then cj_Level j else m) \<ge> L \<longleftrightarrow> uint m \<ge> L \<or> uint (cj_Level j) \<ge> L"
    by (auto simp: word_less_def)
  then show ?case by (simp add: Cons.IH disj_assoc)
qed simp

lemma maxJobLevel_ge: "0 < L \<Longrightarrow> uint (maxJobLevel jobs) \<ge> L \<longleftrightarrow> list_ex (\<lambda>j. uint (cj_Level j) \<ge> L) jobs"
  by (simp add: maxJobLevel_def maxJobLevel_fold)

lemma matching_no_filter: "matching env db no_filter = filter live (db_characters db)"
  by (simp add: matching_def characterFilterWhere_def no_filter_def)

lemma matching_min_level:
  assumes "census_inv db" and "maxLevel > 0"
  shows "matching env db (no_filter\<lparr>cf_MinLevel := maxLevel\<rparr>) =
     filter (\<lambda>r. uint (cr_max_job_level r) \<ge> uint maxLevel) (filter live (db_characters db))"
proof -
  have "list_ex (\<lambda>j. cj_CharacterID j = cr_ID r \<and> uint (cj_Level j) \<ge> uint maxLevel) (db_jobs db)
      \<longleftrightarrow> uint (cr_max_job_level r) \<ge> uint maxLevel" if "r \<in> set (db_characters db)" for r
    using assms that maxJobLevel_ge [of "uint maxLevel" "jobs_of (cr_ID r) db"]
    by (auto simp: census_inv_def list_all_iff jobs_of_def list_ex_iff word_less_def)
  with assms(2) show ?thesis
    by (auto simp: matching_def characterFilterWhere_def no_filter_def intro!: filter_cong)
qed

section \<open>Properties\<close>

text \<open>A character as the service stores it, and an environment without faults.\<close>

definition demo_character :: "u32 \<Rightarrow> timestamp \<Rightarrow> CharacterRecord" where
  "demo_character i t = \<lparr>cr_ID = i, cr_Name = ''Alisaie'', cr_World = ''Odin'', cr_Datacenter = ''Light'',
     cr_Region = ''EU'', cr_Race = ''Elezen'', cr_Tribe = ''Wildwood'', cr_Gender = 2, cr_GrandCompany = [],
     cr_FreeCompanyID = None, cr_FreeCompanyName = None, cr_Bio = [], cr_ActiveJob = ''Red Mage'',
     cr_ItemLevel = 0, cr_AchievementsPrivate = False, cr_LatestAchievementID = None,
     cr_LatestAchievementAt = None, cr_FirstSeenAt = t, cr_LastCensusAt = Some t, cr_DeletedAt = None\<rparr>"

definition demo_job :: "u32 \<Rightarrow> u8 \<Rightarrow> u8 \<Rightarrow> ClassJobRecord" where
  "demo_job i c l = \<lparr>cj_CharacterID = i, cj_ClassJobID = c, cj_Name = ''Red Mage'', cj_Level = l, cj_ExpLevel = 0\<rparr>"

definition calm :: census_env where
  "calm = \<lparr>cv_fault = (\<lambda>_. None), cv_applied = True, cv_now = 0, cv_ilike = (\<lambda>_ _. True),
           cv_rank = (\<lambda>_. 0), cv_tie = (\<lambda>_. 0), cv_day = (\<lambda>_. []), cv_read = 0\<rparr>"

definition demo_census :: census_db where
  "demo_census = empty_census\<lparr>db_characters := map (\<lambda>i. inserted_row (demo_character i 5) 0) [9, 2, 1, 5]\<rparr>"

text \<open>C25: A successful FindIDGapsAfter returns disjoint, ascending, non-empty ranges, and the ids in
  them are exactly the ids above afterID that no character row has, up to maxID when fewer gaps than the limit
  were found and up to the end of the last gap otherwise.\<close>

theorem gaps_are_exact:
  assumes "FindIDGapsAfter env afterID maxID limit db = Inr gaps"
  shows "apart gaps \<and> (\<forall>g\<in>set gaps. fst g \<le> snd g)
    \<and> covers gaps = {x. afterID < x \<and> x \<le> (if length gaps < gap_limit limit then maxID else snd (last gaps))
                       \<and> x \<notin> cr_ID ` set (db_characters db)}"
  using gaps_exact [OF assms] by blast

theorem gaps_are_exact_witness:
  "covers [(3 :: u32, 4), (6, 8)] = {x. 1 < x \<and> x \<le> 9 \<and> x \<notin> cr_ID ` set (db_characters demo_census)}"
proof -
  have "FindIDGapsAfter calm 1 9 10 demo_census = Inr [(3, 4), (6, 8)]"
    by code_simp
  from gaps_are_exact [OF this] show ?thesis by (simp add: gap_limit_def)
qed

text \<open>C31: A successful Upsert replaces the profile of the character and keeps its history: the row reads back as the new record
  except for the first sighting, which is the old one, a deletion mark, which is cleared, a private flag, which stays once it is set,
  and the id and the time of the latest achievement, each of which is the old one when the new record has none. The level is the largest
  of the given jobs; when these are the character's own, they are its class jobs afterwards and every other character keeps its jobs;
  and every other character keeps its row. A failed
  Upsert changes nothing or, when only the report of the commit was lost, everything.\<close>

theorem upsert_keeps_history:
  assumes "Upsert env rec jobs db = (r, db')"
    and "row_with cr_ID (cr_ID rec) (db_characters db) = Some old"
  shows "db' = db \<and> r \<noteq> None \<or>
     (\<exists>new. row_with cr_ID (cr_ID rec) (db_characters db') = Some new
        \<and> scanCharacter new = rec\<lparr>cr_FirstSeenAt := cr_FirstSeenAt old, cr_DeletedAt := None,
             cr_AchievementsPrivate := (cr_AchievementsPrivate rec \<or> cr_AchievementsPrivate old),
             cr_LatestAchievementID := (if cr_LatestAchievementID rec = None then cr_LatestAchievementID old else cr_LatestAchievementID rec),
             cr_LatestAchievementAt := (if cr_LatestAchievementAt rec = None then cr_LatestAchievementAt old else cr_LatestAchievementAt rec)\<rparr>
        \<and> cr_max_job_level new = Max (insert 0 (cj_Level ` set jobs))
        \<and> (own_jobs rec jobs \<longrightarrow> (\<forall>i. jobs_of i db' = (if i = cr_ID rec then jobs else jobs_of i db)))
        \<and> (\<forall>i. i \<noteq> cr_ID rec \<longrightarrow>
             row_with cr_ID i (db_characters db') = row_with cr_ID i (db_characters db)))"
proof (cases "db' = db \<and> r \<noteq> None")
  case False
  with Upsert_atomic [OF assms(1)] have db': "db' = upserted rec jobs db" by blast
  let ?new = "merge_character old (inserted_row rec (maxJobLevel jobs))"
  have id: "cr_ID old = cr_ID rec" using row_with_SomeD [OF assms(2)] by simp
  have "row_with cr_ID (cr_ID rec) (db_characters db') = Some ?new"
    by (simp add: db' upserted_row assms(2))
  moreover have "row_with cr_ID i (db_characters db') = row_with cr_ID i (db_characters db)" if "i \<noteq> cr_ID rec" for i
    using that by (simp add: db' upserted_row)
  moreover have "scanCharacter ?new = rec\<lparr>cr_FirstSeenAt := cr_FirstSeenAt old, cr_DeletedAt := None,
      cr_AchievementsPrivate := (cr_AchievementsPrivate rec \<or> cr_AchievementsPrivate old),
      cr_LatestAchievementID := (if cr_LatestAchievementID rec = None then cr_LatestAchievementID old else cr_LatestAchievementID rec),
      cr_LatestAchievementAt := (if cr_LatestAchievementAt rec = None then cr_LatestAchievementAt old else cr_LatestAchievementAt rec)\<rparr>"
    using id by (cases "cr_LatestAchievementID rec"; cases "cr_LatestAchievementAt rec")
      (simp_all add: merge_character_def scanCharacter_def inserted_row_def CharacterRecord.defs character_row.defs)
  ultimately show ?thesis
    by (intro disjI2 exI [of _ ?new]) (simp add: maxJobLevel_Max own_jobs_of db')
qed blast

text \<open>A character whose latest achievement and whose privacy are known.\<close>

definition private_census :: census_db where
  "private_census = empty_census\<lparr>db_characters := [inserted_row ((demo_character 2 5)
     \<lparr>cr_AchievementsPrivate := True, cr_LatestAchievementID := Some 590, cr_LatestAchievementAt := Some 4\<rparr>) 0]\<rparr>"

theorem upsert_keeps_history_witness:
  "\<exists>new. row_with cr_ID 2 (db_characters (snd (Upsert calm (demo_character 2 9) [demo_job 2 35 100] private_census))) = Some new
      \<and> cr_FirstSeenAt (scanCharacter new) = 5 \<and> cr_LatestAchievementID (scanCharacter new) = Some 590
      \<and> cr_LastCensusAt (scanCharacter new) = Some 9 \<and> cr_max_job_level new = 100"
proof -
  obtain r db' where u: "Upsert calm (demo_character 2 9) [demo_job 2 35 100] private_census = (r, db')" by (metis surj_pair)
  have old: "row_with cr_ID (cr_ID (demo_character 2 9)) (db_characters private_census) = Some (inserted_row ((demo_character 2 5)
     \<lparr>cr_AchievementsPrivate := True, cr_LatestAchievementID := Some 590, cr_LatestAchievementAt := Some 4\<rparr>) 0)"
    by (simp add: private_census_def demo_character_def)
  have "r = None" using u by (simp add: Upsert_def calm_def Let_def)
  then show ?thesis using upsert_keeps_history [OF u old] u by (auto simp: demo_character_def demo_job_def)
qed

text \<open>In every database that the repositories can reach, the single-query SummaryCounts returns
  the numbers that the three separate queries of Summary return: all live characters, the active
  ones, and those with a job row at the maximum level.\<close>

lemma summary_counts_agree:
  assumes "census_reachable db" and "maxLevel > 0"
    and "SummaryCounts env since maxLevel db = Inr (t, a, m)"
  shows "Character_Count env no_filter db = Inr t \<and> CountActive env since db = Inr a
    \<and> Character_Count env (no_filter\<lparr>cf_MinLevel := maxLevel\<rparr>) db = Inr m"
  using assms(3) matching_min_level [OF census_reachable_inv [OF assms(1)] assms(2), of env]
  by (auto simp: SummaryCounts_def Character_Count_def CountActive_def matching_no_filter fetch_one_def Let_def
      conj_commute split: option.splits)

definition demo_reached :: census_db where
  "demo_reached = snd (Upsert calm (demo_character 2 9) [demo_job 2 35 100] empty_census)"

end
