(* ===== verification/Census_Service.thy ===== *)
theory Census_Service
  imports Census_Laws
begin

text \<open>
  domain/census: service.go, milestone.go and region.go. The service turns Lodestone profiles into rows and
  computes milestone and activity facts. Its repositories and the Lodestone client are the record
  \<open>census_ports\<close> of operations over an abstract world; \<open>pt_now\<close> reads the clock of that world, so two
  reads of \<open>time.Now()\<close> with a call between them may differ. A nil slice is the empty list. The queries that Summary and
  WorldDetail run concurrently are reads and are taken in the order of the source.
\<close>

section \<open>Ports\<close>

record 's census_ports =
  pt_now :: "'s \<Rightarrow> timestamp"
  pt_FetchCharacter :: "u32 \<Rightarrow> 's \<Rightarrow> CharacterProfile result \<times> 's"
  pt_FetchAchievements :: "u32 \<Rightarrow> u32 list \<Rightarrow> 's \<Rightarrow> AchievementSummary option result \<times> 's"
  pt_Upsert :: "CharacterRecord \<Rightarrow> ClassJobRecord list \<Rightarrow> 's \<Rightarrow> err option \<times> 's"
  pt_MarkDeleted :: "u32 \<Rightarrow> timestamp \<Rightarrow> 's \<Rightarrow> err option \<times> 's"
  pt_UpdateAchievementSummary :: "u32 \<Rightarrow> bool \<Rightarrow> u32 option \<Rightarrow> timestamp option \<Rightarrow> 's \<Rightarrow> err option \<times> 's"
  pt_SetAchievementsPrivate :: "u32 \<Rightarrow> bool \<Rightarrow> 's \<Rightarrow> err option \<times> 's"
  pt_SyncMilestones :: "MilestoneAchievement list \<Rightarrow> 's \<Rightarrow> err option \<times> 's"
  pt_ListMilestones :: "'s \<Rightarrow> MilestoneAchievement list result \<times> 's"
  pt_UpsertCharacterMilestones :: "u32 \<Rightarrow> CharacterMilestone list \<Rightarrow> 's \<Rightarrow> err option \<times> 's"
  pt_ListCharacterMilestones :: "u32 \<Rightarrow> 's \<Rightarrow> (CharacterMilestone list \<times> err option) \<times> 's"

record 's read_ports =
  rp_now :: "'s \<Rightarrow> timestamp"
  rp_Get :: "u32 \<Rightarrow> 's \<Rightarrow> CharacterRecord option result"
  rp_GetJobs :: "u32 \<Rightarrow> 's \<Rightarrow> ClassJobRecord list result"
  rp_GetGear :: "u32 \<Rightarrow> 's \<Rightarrow> CharacterGearRecord list result"
  rp_ListCharacterMilestones :: "u32 \<Rightarrow> 's \<Rightarrow> CharacterMilestone list result"
  rp_List :: "CharacterFilter \<Rightarrow> int \<Rightarrow> int \<Rightarrow> 's \<Rightarrow> CharacterRecord list result"
  rp_Count :: "CharacterFilter \<Rightarrow> 's \<Rightarrow> int result"
  rp_CountActive :: "timestamp \<Rightarrow> 's \<Rightarrow> int result"
  rp_SummaryCounts :: "timestamp \<Rightarrow> u32 \<Rightarrow> 's \<Rightarrow> (int \<times> int \<times> int) result"
  rp_Breakdown :: "string \<Rightarrow> timestamp \<Rightarrow> CharacterFilter \<Rightarrow> 's \<Rightarrow> GroupCount list result"
  rp_MultiBreakdown :: "string list \<Rightarrow> timestamp \<Rightarrow> CharacterFilter \<Rightarrow> 's \<Rightarrow> (string \<Rightarrow> GroupCount list option) result"
  rp_DemographicBreakdown :: "timestamp \<Rightarrow> CharacterFilter \<Rightarrow> 's \<Rightarrow> DemographicCounts result"
  rp_MaxID :: "'s \<Rightarrow> u32 result"
  rp_CountExpansions :: "'s \<Rightarrow> ExpansionCount list result"
  rp_CountExpansionsFiltered :: "CharacterFilter \<Rightarrow> 's \<Rightarrow> ExpansionCount list result"
  rp_NewCharactersPerDay :: "timestamp \<Rightarrow> timestamp \<Rightarrow> CharacterFilter \<Rightarrow> 's \<Rightarrow> DailyCount list result"
  rp_CountChocoboMilestones :: "timestamp \<Rightarrow> CharacterFilter \<Rightarrow> 's \<Rightarrow> int result"

section \<open>Regions and milestones (region.go, milestone.go)\<close>

definition datacenterRegion :: "(string \<times> string) list" where
  "datacenterRegion =
     [(''Aether'', ''NA''), (''Primal'', ''NA''), (''Crystal'', ''NA''), (''Dynamis'', ''NA''),
      (''Chaos'', ''EU''), (''Light'', ''EU''),
      (''Elemental'', ''JP''), (''Gaia'', ''JP''), (''Mana'', ''JP''), (''Meteor'', ''JP''),
      (''Materia'', ''OCE'')]"

definition RegionForDatacenter :: "string \<Rightarrow> string" where
  "RegionForDatacenter dc = (case map_of datacenterRegion dc of None \<Rightarrow> [] | Some r \<Rightarrow> r)"

record ExpansionConfig =
  ex_Name :: string
  ex_Version :: string
  ex_FinalQuest :: string
  ex_Icon :: string
  ex_LevelCap :: u32
  ex_AchievementID :: u32

definition expansion :: "string \<Rightarrow> string \<Rightarrow> string \<Rightarrow> string \<Rightarrow> u32 \<Rightarrow> u32 \<Rightarrow> ExpansionConfig" where
  "expansion n v q ic cap a = \<lparr>ex_Name = n, ex_Version = v, ex_FinalQuest = q, ex_Icon = ic, ex_LevelCap = cap,
     ex_AchievementID = a\<rparr>"

definition DefaultExpansions :: "ExpansionConfig list" where
  "DefaultExpansions =
     [expansion ''A Realm Reborn'' ''Patch 2.55'' ''Before the Dawn'' [CHR 0xF0, CHR 0x9F, CHR 0x8C, CHR 0xB1] 50 1129,
      expansion ''Heavensward'' ''Patch 3.0'' ''Looking Up''
        [CHR 0xE2, CHR 0x9D, CHR 0x84, CHR 0xEF, CHR 0xB8, CHR 0x8F] 60 1139,
      expansion ''Stormblood'' ''Patch 4.0'' ''The Measure of His Reach''
        [CHR 0xE2, CHR 0x9A, CHR 0x94, CHR 0xEF, CHR 0xB8, CHR 0x8F] 70 1794,
      expansion ''Shadowbringers'' ''Patch 5.0'' ''Shadowbringers'' [CHR 0xF0, CHR 0x9F, CHR 0x8C, CHR 0x91] 80 2298,
      expansion ''Endwalker'' ''Patch 6.0'' ''That Its Chorus Might Ring for All''
        [CHR 0xF0, CHR 0x9F, CHR 0x8C, CHR 0x95] 90 2958,
      expansion ''Dawntrail'' ''Patch 7.0'' ''In the Glow of a New Dawn''
        [CHR 0xE2, CHR 0x98, CHR 0x80, CHR 0xEF, CHR 0xB8, CHR 0x8F] 100 3496]"

definition BuildMilestones :: "ExpansionConfig list \<Rightarrow> MilestoneAchievement list" where
  "BuildMilestones expansions =
     \<lparr>ma_AchievementID = 590, ma_Kind = MilestoneKindChocobo, ma_Expansion = None, ma_Detail = ''My Little Chocobo''\<rparr>
     # map (\<lambda>e. \<lparr>ma_AchievementID = ex_AchievementID e, ma_Kind = MilestoneKindExpansion,
                  ma_Expansion = Some (ex_Name e),
                  ma_Detail = (if ex_Name e = ''A Realm Reborn'' \<and> ex_FinalQuest e = ''Before the Dawn''
                               then ''My Left Arm'' else ex_FinalQuest e)\<rparr>)
         (filter (\<lambda>e. ex_AchievementID e > 0) expansions)"

definition DefaultMilestones :: "MilestoneAchievement list" where
  "DefaultMilestones = BuildMilestones DefaultExpansions"

section \<open>The service (service.go)\<close>

record Service =
  sv_activityWindow :: duration
  sv_maxLevel :: u32
  sv_expansions :: "ExpansionConfig list"
  sv_milestoneCache :: "MilestoneAchievement list"
  sv_milestoneCacheAt :: timestamp
  sv_milestoneCacheTTL :: duration

definition defaultActivityWindow :: duration where
  "defaultActivityWindow = 30 * 24 * hour"

definition NewService :: Service where
  "NewService = \<lparr>sv_activityWindow = defaultActivityWindow, sv_maxLevel = 100, sv_expansions = DefaultExpansions,
     sv_milestoneCache = [], sv_milestoneCacheAt = 0, sv_milestoneCacheTTL = 5 * minute\<rparr>"

definition hiddenRace :: "string \<Rightarrow> bool" where
  "hiddenRace race0 = (let race = trim_space race0 in race = [] \<or> race = ''----'')"

definition SetConfig :: "u32 \<Rightarrow> ExpansionConfig list \<Rightarrow> Service \<Rightarrow> Service" where
  "SetConfig maxLevel expansions sv =
     (let sv1 = (if maxLevel > 0 then sv\<lparr>sv_maxLevel := maxLevel\<rparr> else sv)
      in if length expansions > 0 then sv1\<lparr>sv_expansions := expansions\<rparr> else sv1)"

definition Milestones :: "Service \<Rightarrow> MilestoneAchievement list" where
  "Milestones sv = BuildMilestones (sv_expansions sv)"

definition Service_SyncMilestones :: "'s census_ports \<Rightarrow> Service \<Rightarrow> 's \<Rightarrow> err option \<times> Service \<times> 's" where
  "Service_SyncMilestones pt sv s =
     (case pt_SyncMilestones pt (Milestones sv) s of
        (Some e, s') \<Rightarrow> (Some e, sv, s')
      | (None, s') \<Rightarrow> (None, sv\<lparr>sv_milestoneCache := [], sv_milestoneCacheAt := 0\<rparr>, s'))"

definition cachedMilestones :: "'s census_ports \<Rightarrow> Service \<Rightarrow> 's \<Rightarrow> MilestoneAchievement list result \<times> Service \<times> 's" where
  "cachedMilestones pt sv s =
     (if sv_milestoneCache sv \<noteq> [] \<and> time_sub (pt_now pt s) (sv_milestoneCacheAt sv) < sv_milestoneCacheTTL sv
      then (Inr (sv_milestoneCache sv), sv, s)
      else case pt_ListMilestones pt s of
             (Inl e, s') \<Rightarrow> (Inl e, sv, s')
           | (Inr fresh, s') \<Rightarrow>
               (Inr fresh, sv\<lparr>sv_milestoneCache := fresh, sv_milestoneCacheAt := pt_now pt s'\<rparr>, s'))"

definition MilestoneIDs :: "'s census_ports \<Rightarrow> Service \<Rightarrow> 's \<Rightarrow> u32 set result \<times> Service \<times> 's" where
  "MilestoneIDs pt sv s =
     (case cachedMilestones pt sv s of
        (Inl e, sv', s') \<Rightarrow> (Inl e, sv', s')
      | (Inr registry, sv', s') \<Rightarrow> (Inr (ma_AchievementID ` set registry), sv', s'))"

definition profileToRecord :: "timestamp \<Rightarrow> CharacterProfile \<Rightarrow> CharacterRecord" where
  "profileToRecord now char =
     \<lparr>cr_ID = cp_ID char, cr_Name = cp_Name char, cr_World = cp_World char, cr_Datacenter = cp_Datacenter char,
      cr_Region = RegionForDatacenter (cp_Datacenter char), cr_Race = cp_Race char, cr_Tribe = cp_Tribe char,
      cr_Gender = cp_Gender char, cr_GrandCompany = cp_GrandCompany char,
      cr_FreeCompanyID = (if cp_FreeCompanyID char \<noteq> [] then Some (cp_FreeCompanyID char) else None),
      cr_FreeCompanyName = (if cp_FreeCompanyName char \<noteq> [] then Some (cp_FreeCompanyName char) else None),
      cr_Bio = cp_Bio char, cr_ActiveJob = cp_ActiveJob char, cr_ItemLevel = 0, cr_AchievementsPrivate = False,
      cr_LatestAchievementID = None, cr_LatestAchievementAt = None, cr_FirstSeenAt = now,
      cr_LastCensusAt = Some now, cr_DeletedAt = None\<rparr>"

definition profileToJobs :: "CharacterProfile \<Rightarrow> ClassJobRecord list" where
  "profileToJobs char = map (\<lambda>j. j\<lparr>cj_CharacterID := cp_ID char\<rparr>) (cp_ClassJobs char)"

text \<open>\<open>None\<close> is the nil profile.\<close>

definition UpsertCharacter :: "'s census_ports \<Rightarrow> CharacterProfile option \<Rightarrow> 's \<Rightarrow> err option \<times> 's" where
  "UpsertCharacter pt chr s =
     (case chr of
        None \<Rightarrow> (Some (EText ''cannot upsert nil character''), s)
      | Some char \<Rightarrow>
          if hiddenRace (cp_Race char) then (Some (ESent ErrProfileHidden), s)
          else if trim_space (cp_Name char) = []
          then (Some (EText (''cannot upsert character '' @ show_u32 (cp_ID char) @ '': name is empty'')), s)
          else pt_Upsert pt (profileToRecord (pt_now pt s) char) (profileToJobs char) s)"

definition earned_milestones :: "u32 \<Rightarrow> MilestoneAchievement list \<Rightarrow> AchievementResult list \<Rightarrow> CharacterMilestone list" where
  "earned_milestones charID registry rs =
     map (\<lambda>r. \<lparr>cm_CharacterID = charID, cm_AchievementID = ar_AchievementID r, cm_AchievedAt = ar_EarnedAt r\<rparr>)
       (filter (\<lambda>r. ar_Earned r \<and> ar_AchievementID r \<in> ma_AchievementID ` set registry) rs)"

definition ProcessMilestoneResults :: "'s census_ports \<Rightarrow> Service \<Rightarrow> u32 \<Rightarrow> AchievementSummary option \<Rightarrow> 's
    \<Rightarrow> CharacterMilestone list result \<times> Service \<times> 's" where
  "ProcessMilestoneResults pt sv charID summary s =
     (case summary of
        None \<Rightarrow> (Inl (EText ''nil achievement summary''), sv, s)
      | Some sm \<Rightarrow>
          if as_Private sm
          then (case pt_SetAchievementsPrivate pt charID True s of
                  (Some e, s') \<Rightarrow> (Inl e, sv, s')
                | (None, s') \<Rightarrow> (Inr [], sv, s'))
          else (case cachedMilestones pt sv s of
                  (Inl e, sv1, s1) \<Rightarrow> (Inl e, sv1, s1)
                | (Inr registry, sv1, s1) \<Rightarrow>
                    if length registry = 0
                    then (Inl (EText ''milestone registry is empty; run SyncMilestones before processing achievements''), sv1, s1)
                    else (let milestones = earned_milestones charID registry (as_Milestones sm)
                          in case pt_UpsertCharacterMilestones pt charID milestones s1 of
                               (Some e, s2) \<Rightarrow> (Inl e, sv1, s2)
                             | (None, s2) \<Rightarrow>
                                 (case pt_UpdateAchievementSummary pt charID False
                                         (map_option ar_AchievementID (as_LatestAchievement sm))
                                         (map_option ar_EarnedAt (as_LatestAchievement sm)) s2 of
                                    (Some e, s3) \<Rightarrow> (Inl e, sv1, s3)
                                  | (None, s3) \<Rightarrow> (Inr milestones, sv1, s3)))))"

definition IsActive :: "Service \<Rightarrow> timestamp \<Rightarrow> timestamp \<Rightarrow> bool" where
  "IsActive sv now latestAt = (latestAt \<noteq> 0 \<and> time_sub now latestAt \<le> sv_activityWindow sv)"

definition SetActivityWindow :: "duration \<Rightarrow> Service \<Rightarrow> Service" where
  "SetActivityWindow d sv = (if d > 0 then sv\<lparr>sv_activityWindow := d\<rparr> else sv)"

definition activitySince :: "Service \<Rightarrow> timestamp \<Rightarrow> timestamp" where
  "activitySince sv now = now - sv_activityWindow sv"

section \<open>Reads of the service\<close>

record CharacterDetail =
  cd_Character :: CharacterRecord
  cd_Jobs :: "ClassJobRecord list"
  cd_Gear :: "CharacterGearRecord list"
  cd_Milestones :: "CharacterMilestone list"

definition Summary :: "'s read_ports \<Rightarrow> Service \<Rightarrow> 's \<Rightarrow> (int \<times> int \<times> int) result" where
  "Summary rp sv s =
     (let since = activitySince sv (rp_now rp s)
      in case rp_Count rp no_filter s of Inl e \<Rightarrow> Inl e | Inr cnt \<Rightarrow>
        (case rp_CountActive rp since s of Inl e \<Rightarrow> Inl e | Inr active \<Rightarrow>
        (case rp_Count rp (no_filter\<lparr>cf_MinLevel := sv_maxLevel sv\<rparr>) s of
           Inl e \<Rightarrow> Inl e
         | Inr maxLevelCount \<Rightarrow> Inr (cnt, active, maxLevelCount))))"

definition Service_SummaryCounts :: "'s read_ports \<Rightarrow> Service \<Rightarrow> 's \<Rightarrow> (int \<times> int \<times> int) result" where
  "Service_SummaryCounts rp sv s = rp_SummaryCounts rp (activitySince sv (rp_now rp s)) (sv_maxLevel sv) s"

definition ListCharacters :: "'s read_ports \<Rightarrow> CharacterFilter \<Rightarrow> int \<Rightarrow> int \<Rightarrow> 's \<Rightarrow> (CharacterRecord list \<times> int) result" where
  "ListCharacters rp f limit offset s =
     (case rp_List rp f limit offset s of Inl e \<Rightarrow> Inl e | Inr chars \<Rightarrow>
     (case rp_Count rp f s of Inl e \<Rightarrow> Inl e | Inr cnt \<Rightarrow> Inr (chars, cnt)))"

definition Service_CharacterDetail :: "'s read_ports \<Rightarrow> u32 \<Rightarrow> 's \<Rightarrow> CharacterDetail option result" where
  "Service_CharacterDetail rp i s =
     (case rp_Get rp i s of Inl e \<Rightarrow> Inl e | Inr None \<Rightarrow> Inr None | Inr (Some rec) \<Rightarrow>
     (case rp_GetJobs rp i s of Inl e \<Rightarrow> Inl e | Inr jobs \<Rightarrow>
     (case rp_GetGear rp i s of Inl e \<Rightarrow> Inl e | Inr gear \<Rightarrow>
     (case rp_ListCharacterMilestones rp i s of Inl e \<Rightarrow> Inl e | Inr milestones \<Rightarrow>
        Inr (Some \<lparr>cd_Character = rec, cd_Jobs = jobs, cd_Gear = gear, cd_Milestones = milestones\<rparr>)))))"

record WorldDetailStats =
  wd_World :: string
  wd_Datacenter :: string
  wd_Region :: string
  wd_TotalCharacters :: int
  wd_ActiveCharacters :: int
  wd_NewCharacters30d :: int
  wd_Races :: "GroupCount list"
  wd_MSQCompletions :: "ExpansionCount list"
  wd_NewCharactersTimeline :: "DailyCount list"

text \<open>The error of the metadata lookup is dropped.\<close>

definition WorldDetail :: "'s read_ports \<Rightarrow> Service \<Rightarrow> string \<Rightarrow> 's \<Rightarrow> WorldDetailStats result" where
  "WorldDetail rp sv worldName s =
     (let f = no_filter\<lparr>cf_World := worldName\<rparr>;
          now = rp_now rp s;
          since = activitySince sv now;
          since30d = now - 30 * 24 * hour;
          first = (case rp_List rp f 1 0 s of Inr (c # cs) \<Rightarrow> Some c | _ \<Rightarrow> None)
      in case rp_Count rp f s of Inl e \<Rightarrow> Inl e | Inr cnt \<Rightarrow>
        (case rp_Count rp (f\<lparr>cf_Since := Some since\<rparr>) s of Inl e \<Rightarrow> Inl e | Inr active \<Rightarrow>
        (case rp_CountChocoboMilestones rp since30d f s of Inl e \<Rightarrow> Inl e | Inr new30d \<Rightarrow>
        (case rp_Breakdown rp ''race'' since f s of Inl e \<Rightarrow> Inl e | Inr races \<Rightarrow>
        (case rp_CountExpansionsFiltered rp f s of Inl e \<Rightarrow> Inl e | Inr msq \<Rightarrow>
        (case rp_NewCharactersPerDay rp since30d now f s of Inl e \<Rightarrow> Inl e | Inr timeline \<Rightarrow>
           Inr \<lparr>wd_World = worldName,
                wd_Datacenter = (case first of None \<Rightarrow> [] | Some c \<Rightarrow> cr_Datacenter c),
                wd_Region = (case first of None \<Rightarrow> [] | Some c \<Rightarrow> cr_Region c),
                wd_TotalCharacters = cnt, wd_ActiveCharacters = active, wd_NewCharacters30d = new30d,
                wd_Races = races, wd_MSQCompletions = msq, wd_NewCharactersTimeline = timeline\<rparr>))))))"

definition Service_Breakdown :: "'s read_ports \<Rightarrow> Service \<Rightarrow> string \<Rightarrow> CharacterFilter list \<Rightarrow> 's \<Rightarrow> GroupCount list result" where
  "Service_Breakdown rp sv by_dim fs s =
     (if by_dim \<notin> {''race'', ''world'', ''datacenter'', ''region''} then Inl (ESent ErrInvalidDimension)
      else rp_Breakdown rp by_dim (activitySince sv (rp_now rp s))
             (if length fs > 0 then hd fs else no_filter) s)"

definition NewCharacters :: "'s read_ports \<Rightarrow> timestamp \<Rightarrow> timestamp \<Rightarrow> CharacterFilter list \<Rightarrow> 's \<Rightarrow> DailyCount list result" where
  "NewCharacters rp since until fs s =
     rp_NewCharactersPerDay rp since until (if length fs > 0 then hd fs else no_filter) s"

definition ExpansionCompletions :: "'s read_ports \<Rightarrow> 's \<Rightarrow> ExpansionCount list result" where
  "ExpansionCompletions rp s = rp_CountExpansions rp s"

definition Service_MultiBreakdown :: "'s read_ports \<Rightarrow> Service \<Rightarrow> string list \<Rightarrow> CharacterFilter list \<Rightarrow> 's
    \<Rightarrow> (string \<Rightarrow> GroupCount list option) result" where
  "Service_MultiBreakdown rp sv columns fs s =
     rp_MultiBreakdown rp columns (activitySince sv (rp_now rp s)) (if length fs > 0 then hd fs else no_filter) s"

definition Service_DemographicBreakdown :: "'s read_ports \<Rightarrow> Service \<Rightarrow> CharacterFilter list \<Rightarrow> 's \<Rightarrow> DemographicCounts result" where
  "Service_DemographicBreakdown rp sv fs s =
     rp_DemographicBreakdown rp (activitySince sv (rp_now rp s)) (if length fs > 0 then hd fs else no_filter) s"

end
