(* ===== verification/Json.thy ===== *)
theory Json
  imports Contract
begin

text \<open>
  The part of encoding/json that the queue payloads use: decoding an object into a struct and
  encoding a struct as an object. A key selects the field with exactly its name, else the first
  field whose name is equal under case folding (foldName: ASCII letters, the long s and the
  Kelvin sign); keys without a field are ignored and later keys win. A value of the wrong type
  leaves its field and makes Unmarshal return an error; null leaves a plain field and clears a
  pointer.
\<close>

section \<open>Keys\<close>

fun fold_key :: "string \<Rightarrow> string" where
  "fold_key [] = []"
| "fold_key (c # cs) =
     (if is_prefix [CHR 0xC5, CHR 0xBF] (c # cs) then CHR ''s'' # fold_key (drop 1 cs)
      else if is_prefix [CHR 0xE2, CHR 0x84, CHR 0xAA] (c # cs) then CHR ''k'' # fold_key (drop 2 cs)
      else (if 65 \<le> (of_char c :: nat) \<and> (of_char c :: nat) \<le> 90 then char_of ((of_char c :: nat) + 32) else c)
           # fold_key cs)"

definition field_for :: "string list \<Rightarrow> string \<Rightarrow> string option" where
  "field_for names key =
     (if key \<in> set names then Some key else find (\<lambda>n. fold_key n = fold_key key) names)"

text \<open>The values an object gives to the field \<open>n\<close>, in document order.\<close>

definition field_values :: "string list \<Rightarrow> string \<Rightarrow> (string \<times> json) list \<Rightarrow> json list" where
  "field_values names n kvs = map snd (filter (\<lambda>kv. field_for names (fst kv) = Some n) kvs)"

section \<open>Decoding one field\<close>

definition json_error :: "string \<Rightarrow> err" where
  "json_error n = EText (''json: cannot unmarshal into Go struct field '' @ n)"

text \<open>One assignment: the new field value and whether the value had a wrong type.\<close>

fun dec_string :: "json \<Rightarrow> string \<Rightarrow> string \<times> bool" where
  "dec_string JNull old = (old, False)"
| "dec_string (JStr s) old = (s, False)"
| "dec_string _ old = (old, True)"

fun dec_int :: "json \<Rightarrow> int \<Rightarrow> int \<times> bool" where
  "dec_int JNull old = (old, False)"
| "dec_int (JInt i) old = (if min_i64 \<le> i \<and> i \<le> max_i64 then (i, False) else (old, True))"
| "dec_int _ old = (old, True)"

fun dec_u32 :: "json \<Rightarrow> u32 \<Rightarrow> u32 \<times> bool" where
  "dec_u32 JNull old = (old, False)"
| "dec_u32 (JInt i) old = (if 0 \<le> i \<and> i < 2 ^ 32 then (word_of_int i, False) else (old, True))"
| "dec_u32 _ old = (old, True)"

fun dec_string_ptr :: "json \<Rightarrow> string option \<Rightarrow> string option \<times> bool" where
  "dec_string_ptr JNull old = (None, False)"
| "dec_string_ptr (JStr s) old = (Some s, False)"
| "dec_string_ptr _ old = (old, True)"

fun dec_float_ptr :: "json \<Rightarrow> rat option \<Rightarrow> rat option \<times> bool" where
  "dec_float_ptr JNull old = (None, False)"
| "dec_float_ptr (JInt i) old = (Some (of_int i), False)"
| "dec_float_ptr (JFrac q) old = (Some q, False)"
| "dec_float_ptr _ old = (old, True)"

definition dec_field :: "(json \<Rightarrow> 'a \<Rightarrow> 'a \<times> bool) \<Rightarrow> 'a \<Rightarrow> string list \<Rightarrow> string \<Rightarrow> (string \<times> json) list
    \<Rightarrow> 'a \<times> bool" where
  "dec_field dec zero names n kvs =
     fold (\<lambda>v (x, bad). case dec v x of (x', b) \<Rightarrow> (x', bad \<or> b)) (field_values names n kvs) (zero, False)"

section \<open>Encoding\<close>

definition enc_float :: "rat \<Rightarrow> json" where
  "enc_float q = (if snd (quotient_of q) = 1 then JInt (fst (quotient_of q)) else JFrac q)"

definition omitempty :: "string \<Rightarrow> ('a \<Rightarrow> json) \<Rightarrow> 'a option \<Rightarrow> (string \<times> json) list" where
  "omitempty n enc x = (case x of None \<Rightarrow> [] | Some v \<Rightarrow> [(n, enc v)])"

lemma field_for_name [simp]: "n \<in> set names \<Longrightarrow> field_for names n = Some n"
  by (simp add: field_for_def)

lemma field_values_simps [simp]:
  "field_values names n [] = []"
  "field_values names n ((k, v) # kvs) =
     (if field_for names k = Some n then v # field_values names n kvs else field_values names n kvs)"
  "field_values names n (kvs @ kws) = field_values names n kvs @ field_values names n kws"
  by (simp_all add: field_values_def)

lemma field_values_omitempty [simp]:
  "field_values names n (omitempty k enc x) =
     (if field_for names k = Some n then (case x of None \<Rightarrow> [] | Some v \<Rightarrow> [enc v]) else [])"
  by (simp add: omitempty_def split: option.splits)

lemma dec_enc_float [simp]: "dec_float_ptr (enc_float q) old = (Some q, False)"
proof -
  obtain a b where q: "quotient_of q = (a, b)" by (cases "quotient_of q") auto
  then have "q = of_int a / of_int b" by (rule quotient_of_div)
  with q show ?thesis by (auto simp: enc_float_def)
qed

end
