(* ===== verification/Census_Handlers.thy ===== *)
theory Census_Handlers
  imports Census_Service Json
begin

text \<open>
  domain/census/handler: the payloads, the jobs and the three handlers (id sweep, character census,
  achievement census). Logging is left out. The locale \<open>census_repository\<close> states what the handlers rely on
  of the repositories and the Lodestone client; it is interpreted on the PostgreSQL repositories at the end.
\<close>

section \<open>Events and payloads (event.go, idsweep.go)\<close>

definition EventIDSweep :: string where "EventIDSweep = ''id-sweep''"
definition EventCharacterCensus :: string where "EventCharacterCensus = ''character-census''"
definition EventAchievementCensus :: string where "EventAchievementCensus = ''achievement-census''"

record IDSweepPayload =
  is_From :: u32
  is_To :: u32
  is_Source :: string

definition sweep_fields :: "string list" where
  "sweep_fields = [''from'', ''to'', ''source'']"

definition encode_IDSweep :: "IDSweepPayload \<Rightarrow> json" where
  "encode_IDSweep p =
     JObj ([(''from'', JInt (uint (is_From p))), (''to'', JInt (uint (is_To p)))]
           @ omitempty ''source'' JStr (if is_Source p = [] then None else Some (is_Source p)))"

definition decode_IDSweep :: "payload \<Rightarrow> IDSweepPayload result" where
  "decode_IDSweep pl =
     (case pl of
        None \<Rightarrow> Inl (EText ''invalid character in JSON document'')
      | Some JNull \<Rightarrow> Inr \<lparr>is_From = 0, is_To = 0, is_Source = []\<rparr>
      | Some (JObj kvs) \<Rightarrow>
          (let (f, b1) = dec_field dec_u32 0 sweep_fields ''from'' kvs;
               (t, b2) = dec_field dec_u32 0 sweep_fields ''to'' kvs;
               (src, b3) = dec_field dec_string [] sweep_fields ''source'' kvs
           in if b1 \<or> b2 \<or> b3 then Inl (json_error ''IDSweepPayload'')
              else Inr \<lparr>is_From = f, is_To = t, is_Source = src\<rparr>)
      | Some _ \<Rightarrow> Inl (json_error ''IDSweepPayload''))"

text \<open>AchievementCensusPayload and CharacterCensusPayload have the one field \<open>character_id\<close>.\<close>

definition encode_CharacterID :: "u32 \<Rightarrow> json" where
  "encode_CharacterID i = JObj [(''character_id'', JInt (uint i))]"

definition decode_CharacterID :: "payload \<Rightarrow> u32 result" where
  "decode_CharacterID pl =
     (case pl of
        None \<Rightarrow> Inl (EText ''invalid character in JSON document'')
      | Some JNull \<Rightarrow> Inr 0
      | Some (JObj kvs) \<Rightarrow>
          (let (i, b) = dec_field dec_u32 0 [''character_id''] ''character_id'' kvs
           in if b then Inl (json_error ''character_id'') else Inr i)
      | Some _ \<Rightarrow> Inl (json_error ''character_id''))"

definition AchievementCensusJob :: "u32 \<Rightarrow> QueueJob" where
  "AchievementCensusJob i = \<lparr>qj_Type = EventAchievementCensus, qj_Payload = Some (encode_CharacterID i)\<rparr>"

definition CharacterCensusJob :: "u32 \<Rightarrow> QueueJob" where
  "CharacterCensusJob i = \<lparr>qj_Type = EventCharacterCensus, qj_Payload = Some (encode_CharacterID i)\<rparr>"

definition BuildDependentCharacterJobs :: "u32 \<Rightarrow> QueueJob list" where
  "BuildDependentCharacterJobs i = [AchievementCensusJob i]"

definition poison :: "string \<Rightarrow> err \<Rightarrow> err" where
  "poison pre e = EJoin [ESent ErrPoisonPayload, EWrap pre e []]"

definition unconfigured :: err where
  "unconfigured = EText ''lodestone client unconfigured on this worker''"

section \<open>Id sweep (idsweep.go)\<close>

definition storeLodestone :: "'s census_ports \<Rightarrow> u32 \<Rightarrow> CharacterProfile \<Rightarrow> 's \<Rightarrow> QueueJob list result \<times> 's" where
  "storeLodestone pt i char s =
     (case UpsertCharacter pt (Some char) s of
        (Some e, s') \<Rightarrow>
          if errors_is e ErrProfileHidden then (Inr [], s')
          else (Inl (EWrap (''id-sweep upsert '' @ show_u32 i @ '': '') e []), s')
      | (None, s') \<Rightarrow> (Inr (BuildDependentCharacterJobs (cp_ID char)), s'))"

text \<open>One iteration of the loop, without its exit test.\<close>

definition sweep_probe :: "'s census_ports \<Rightarrow> u32 \<Rightarrow> 's \<Rightarrow> QueueJob list result \<times> 's" where
  "sweep_probe pt i s =
     (case pt_FetchCharacter pt i s of
        (Inr lChar, s1) \<Rightarrow> storeLodestone pt i lChar s1
      | (Inl e, s1) \<Rightarrow>
          if errors_is e ErrCharacterNotFound then (Inr [], s1)
          else (Inl (EWrap (''id-sweep lodestone fetch '' @ show_u32 i @ '': '') e []), s1))"

function sweep_loop :: "'s census_ports \<Rightarrow> u32 \<Rightarrow> u32 \<Rightarrow> QueueJob list \<Rightarrow> 's \<Rightarrow> QueueJob list result \<times> 's" where
  "sweep_loop pt to i acc s =
     (case sweep_probe pt i s of
        (Inl e, s') \<Rightarrow> (Inl e, s')
      | (Inr jobs, s') \<Rightarrow>
          if i = to then (Inr (acc @ jobs), s') else sweep_loop pt to (i + 1) (acc @ jobs) s')"
  by pat_completeness auto
termination
proof (relation "measure (\<lambda>(pt, to, i, acc, s). unat (to - i))", goal_cases)
  case (2 pt to i acc s r s' jobs)
  then have "to - i \<noteq> 0" by simp
  then have "unat (to - i - 1) < unat (to - i)" by (simp add: unat_minus_one unat_gt_0)
  then show ?case by (simp add: diff_diff_add)
qed simp

declare sweep_loop.simps [simp del]

definition IDSweep_Handle :: "'s census_ports \<Rightarrow> bool \<Rightarrow> payload \<Rightarrow> 's \<Rightarrow> QueueJob list result \<times> 's" where
  "IDSweep_Handle pt configured pl s =
     (case decode_IDSweep pl of
        Inl e \<Rightarrow> (Inl (poison ''id-sweep payload: '' e), s)
      | Inr p \<Rightarrow>
          if is_From p > is_To p
          then (Inl (EJoin [ESent ErrPoisonPayload,
                  EText (''id-sweep range invalid: from '' @ show_u32 (is_From p) @ '' > to '' @ show_u32 (is_To p))]), s)
          else if \<not> configured then (Inl unconfigured, s)
          else sweep_loop pt (is_To p) (is_From p) [] s)"

section \<open>Character census (character.go)\<close>

definition finishLodestone :: "'s census_ports \<Rightarrow> CharacterProfile \<Rightarrow> 's \<Rightarrow> QueueJob list result \<times> 's" where
  "finishLodestone pt char s =
     (case UpsertCharacter pt (Some char) s of
        (Some e, s') \<Rightarrow>
          if errors_is e ErrProfileHidden then (Inr [], s')
          else (Inl (EWrap (''character-census upsert '' @ show_u32 (cp_ID char) @ '': '') e []), s')
      | (None, s') \<Rightarrow> (Inr (BuildDependentCharacterJobs (cp_ID char)), s'))"

definition CharacterCensus_Handle :: "'s census_ports \<Rightarrow> bool \<Rightarrow> payload \<Rightarrow> 's \<Rightarrow> QueueJob list result \<times> 's" where
  "CharacterCensus_Handle pt configured pl s =
     (case decode_CharacterID pl of
        Inl e \<Rightarrow> (Inl (poison ''character-census payload: '' e), s)
      | Inr i \<Rightarrow>
          if \<not> configured then (Inl unconfigured, s)
          else (case pt_FetchCharacter pt i s of
                  (Inr char, s1) \<Rightarrow> finishLodestone pt char s1
                | (Inl e, s1) \<Rightarrow>
                    if errors_is e ErrCharacterNotFound
                    then (case pt_MarkDeleted pt i (pt_now pt s1) s1 of
                            (Some de, s2) \<Rightarrow> (Inl (EWrap (''character-census mark-deleted '' @ show_u32 i @ '': '') de []), s2)
                          | (None, s2) \<Rightarrow> (Inr [], s2))
                    else (Inl (EWrap (''character-census fetch '' @ show_u32 i @ '': '') e []), s1)))"

section \<open>Achievement census (achievement.go)\<close>

definition missingMilestoneIDs :: "u32 set \<Rightarrow> CharacterMilestone list \<Rightarrow> u32 list" where
  "missingMilestoneIDs ids known =
     (let ordered = sorted_list_of_set ids;
          persisted = set (filter (\<lambda>i. i \<in> ids) (map cm_AchievementID known))
      in filter (\<lambda>i. i \<notin> persisted) ordered)"

text \<open>
  The rate limiter is \<open>None\<close> or its IsAvailable and WaitUntilAvailable for the Lodestone. An error of
  the milestone query is logged and the rows read so far are used.
\<close>

type_synonym 's lodestone_limiter = "(('s \<Rightarrow> bool) \<times> ('s \<Rightarrow> err option \<times> 's)) option"

definition limiter_wait :: "'s lodestone_limiter \<Rightarrow> 's \<Rightarrow> err option \<times> 's" where
  "limiter_wait rl s = (case rl of None \<Rightarrow> (None, s) | Some (avail, wait) \<Rightarrow> if avail s then (None, s) else wait s)"

definition achievement_fetch :: "'s census_ports \<Rightarrow> Service \<Rightarrow> u32 \<Rightarrow> u32 set \<Rightarrow> CharacterMilestone list \<Rightarrow> 's
    \<Rightarrow> QueueJob list result \<times> Service \<times> 's" where
  "achievement_fetch pt sv i ids known s =
     (case pt_FetchAchievements pt i (missingMilestoneIDs ids known) s of
        (Inl e, s1) \<Rightarrow>
          if errors_is e ErrCharacterNotFound
          then (case pt_MarkDeleted pt i (pt_now pt s1) s1 of
                  (Some de, s2) \<Rightarrow> (Inl (EWrap (''achievement-census mark-deleted '' @ show_u32 i @ '': '') de []), sv, s2)
                | (None, s2) \<Rightarrow> (Inr [], sv, s2))
          else (Inl (EWrap (''achievement-census fetch '' @ show_u32 i @ '': '') e []), sv, s1)
      | (Inr summary, s1) \<Rightarrow>
          (case ProcessMilestoneResults pt sv i summary s1 of
             (Inl e, sv', s2) \<Rightarrow> (Inl (EWrap (''achievement-census process '' @ show_u32 i @ '': '') e []), sv', s2)
           | (Inr milestones, sv', s2) \<Rightarrow> (Inr [], sv', s2)))"

definition AchievementCensus_Handle :: "'s census_ports \<Rightarrow> 's lodestone_limiter \<Rightarrow> payload \<Rightarrow> Service \<Rightarrow> 's
    \<Rightarrow> QueueJob list result \<times> Service \<times> 's" where
  "AchievementCensus_Handle pt rl pl sv s =
     (case decode_CharacterID pl of
        Inl e \<Rightarrow> (Inl (poison ''achievement-census payload: '' e), sv, s)
      | Inr i \<Rightarrow>
          (case limiter_wait rl s of
             (Some e, s1) \<Rightarrow>
               (Inl (EWrap (''achievement-census '' @ show_u32 i @ '': waiting for lodestone: '') e []), sv, s1)
           | (None, s1) \<Rightarrow>
               (case pt_ListCharacterMilestones pt i s1 of
                  ((known, _), s2) \<Rightarrow>
                    (case MilestoneIDs pt sv s2 of
                       (Inl e, sv', s3) \<Rightarrow>
                         (Inl (EWrap (''achievement-census '' @ show_u32 i @ '': get milestone IDs: '') e []), sv', s3)
                     | (Inr ids, sv', s3) \<Rightarrow> achievement_fetch pt sv' i ids known s3))))"

section \<open>Payloads and milestone requests\<close>

lemma dec_field_none [simp]: "field_values names n kvs = [] \<Longrightarrow> dec_field dec zero names n kvs = (zero, False)"
  by (simp add: dec_field_def)

lemma dec_field_one:
  "field_values names n kvs = [v] \<Longrightarrow> dec v zero = (x, False) \<Longrightarrow> dec_field dec zero names n kvs = (x, False)"
  by (simp add: dec_field_def)

lemma uint_u32_less [simp]: "uint (w :: u32) < 4294967296"
  using uint_lt2p [of w] by simp

lemma decode_encode_IDSweep: "decode_IDSweep (Some (encode_IDSweep p)) = Inr p"
proof -
  let ?kvs = "[(''from'', JInt (uint (is_From p))), (''to'', JInt (uint (is_To p)))]
           @ omitempty ''source'' JStr (if is_Source p = [] then None else Some (is_Source p))"
  have "dec_field dec_u32 0 sweep_fields ''from'' ?kvs = (is_From p, False)"
    by (rule dec_field_one [where v = "JInt (uint (is_From p))"]) (simp_all add: sweep_fields_def)
  moreover have "dec_field dec_u32 0 sweep_fields ''to'' ?kvs = (is_To p, False)"
    by (rule dec_field_one [where v = "JInt (uint (is_To p))"]) (simp_all add: sweep_fields_def)
  moreover have "dec_field dec_string [] sweep_fields ''source'' ?kvs = (is_Source p, False)"
    by (cases "is_Source p = []") (simp_all add: sweep_fields_def dec_field_def)
  ultimately show ?thesis by (simp add: decode_IDSweep_def encode_IDSweep_def)
qed

lemma decode_encode_CharacterID: "decode_CharacterID (Some (encode_CharacterID i)) = Inr i"
proof -
  have "dec_field dec_u32 0 [''character_id''] ''character_id'' [(''character_id'', JInt (uint i))] = (i, False)"
    by (rule dec_field_one [where v = "JInt (uint i)"]) simp_all
  then show ?thesis by (simp add: decode_CharacterID_def encode_CharacterID_def)
qed

lemma missingMilestoneIDs_spec:
  assumes "finite ids"
  shows "sorted (missingMilestoneIDs ids known)" and "distinct (missingMilestoneIDs ids known)"
    and "set (missingMilestoneIDs ids known) = ids - cm_AchievementID ` set known"
  using assms by (auto simp: missingMilestoneIDs_def Let_def sorted_wrt_filter)

section \<open>What the handlers rely on\<close>

text \<open>
  \<open>probes\<close> is the history of FetchCharacter calls with their results, \<open>stored i\<close> that a row for the id
  exists. Rows are never deleted, a reported success of Upsert has stored its row, and no error of a port carries the sentinels that
  the handlers and the queue give a meaning to.
\<close>

definition plain_error :: "err \<Rightarrow> bool" where
  "plain_error e \<longleftrightarrow> \<not> errors_is e ErrPoisonPayload \<and> \<not> errors_is e ErrNoHandler \<and> \<not> errors_is e ErrProfileHidden"

text \<open>The outcome of one probe and the job that follows from it; \<open>st\<close> tells which ids have a row.\<close>

definition settled :: "(u32 \<Rightarrow> bool) \<Rightarrow> u32 \<times> CharacterProfile result \<Rightarrow> bool" where
  "settled st p \<longleftrightarrow>
     (case snd p of Inl e \<Rightarrow> errors_is e ErrCharacterNotFound
                  | Inr c \<Rightarrow> hiddenRace (cp_Race c) \<or> st (cp_ID c))"

definition chained :: "u32 \<times> CharacterProfile result \<Rightarrow> QueueJob list" where
  "chained p = (case snd p of Inl e \<Rightarrow> []
                 | Inr c \<Rightarrow> if hiddenRace (cp_Race c) then [] else BuildDependentCharacterJobs (cp_ID c))"

lemma settled_mono: "settled st p \<Longrightarrow> (\<forall>k. st k \<longrightarrow> st' k) \<Longrightarrow> settled st' p"
  by (auto simp: settled_def split: sum.splits)

lemma id_range_step:
  fixes i to :: u32
  assumes "i \<le> to" and "i \<noteq> to"
  shows "i + 1 \<le> to" and "[uint i..uint to] = uint i # [uint (i + 1)..uint to]"
proof -
  have lt: "uint i < uint to" using assms by (metis word_le_def order_le_neq_trans word_uint_eqI)
  then have "uint (i + 1) = uint i + 1"
    using uint_u32_less [of to] by (simp add: uint_plus_if_size word_size del: uint_u32_less)
  with lt show "i + 1 \<le> to" and "[uint i..uint to] = uint i # [uint (i + 1)..uint to]"
    by (simp_all add: word_le_def upto_rec1)
qed

locale census_repository =
  fixes pt :: "'s census_ports" and probes :: "'s \<Rightarrow> (u32 \<times> CharacterProfile result) list"
    and stored :: "u32 \<Rightarrow> 's \<Rightarrow> bool"
  assumes fetch_probes: "pt_FetchCharacter pt i s = (r, s') \<Longrightarrow> probes s' = probes s @ [(i, r)]"
    and fetch_stored: "pt_FetchCharacter pt i s = (r, s') \<Longrightarrow> stored k s \<Longrightarrow> stored k s'"
    and fetch_plain: "pt_FetchCharacter pt i s = (Inl e, s') \<Longrightarrow> plain_error e"
    and upsert_probes: "pt_Upsert pt rec jobs s = (u, s') \<Longrightarrow> probes s' = probes s"
    and upsert_keeps: "pt_Upsert pt rec jobs s = (u, s') \<Longrightarrow> stored k s \<Longrightarrow> stored k s'"
    and upsert_stores: "pt_Upsert pt rec jobs s = (None, s') \<Longrightarrow> stored (cr_ID rec) s'"
    and upsert_plain: "pt_Upsert pt rec jobs s = (Some e, s') \<Longrightarrow> plain_error e"
begin

lemma UpsertCharacter_cases:
  assumes "UpsertCharacter pt (Some c) s = (r, s')"
  shows "probes s' = probes s" and "stored k s \<Longrightarrow> stored k s'"
    and "r = None \<Longrightarrow> \<not> hiddenRace (cp_Race c) \<and> stored (cp_ID c) s'"
    and "r = Some e \<Longrightarrow> errors_is e ErrProfileHidden \<longleftrightarrow> hiddenRace (cp_Race c)"
    and "r = Some e \<Longrightarrow> \<not> errors_is e ErrPoisonPayload \<and> \<not> errors_is e ErrNoHandler"
proof -
  have id: "cr_ID (profileToRecord t c) = cp_ID c" for t by (simp add: profileToRecord_def)
  note split = assms [unfolded UpsertCharacter_def]
  show "probes s' = probes s" using split upsert_probes by (auto split: if_splits)
  show "stored k s \<Longrightarrow> stored k s'" using split upsert_keeps by (auto split: if_splits)
  show "r = None \<Longrightarrow> \<not> hiddenRace (cp_Race c) \<and> stored (cp_ID c) s'"
    using split by (auto split: if_splits dest!: upsert_stores simp: id)
  show "r = Some e \<Longrightarrow> errors_is e ErrProfileHidden \<longleftrightarrow> hiddenRace (cp_Race c)"
    using split upsert_plain by (auto simp: plain_error_def split: if_splits)
  show "r = Some e \<Longrightarrow> \<not> errors_is e ErrPoisonPayload \<and> \<not> errors_is e ErrNoHandler"
    using split upsert_plain by (auto simp: plain_error_def split: if_splits)
qed

lemma sweep_probe_ok:
  assumes "sweep_probe pt i s = (Inr jobs, s')"
  shows "\<exists>r. probes s' = probes s @ [(i, r)] \<and> settled (\<lambda>k. stored k s') (i, r) \<and> jobs = chained (i, r)
      \<and> (\<forall>k. stored k s \<longrightarrow> stored k s')"
proof -
  obtain r s1 where f: "pt_FetchCharacter pt i s = (r, s1)" by (metis surj_pair)
  show ?thesis
  proof (cases r)
    case (Inl e)
    with assms f have "errors_is e ErrCharacterNotFound" "jobs = []" "s' = s1"
      by (auto simp: sweep_probe_def split: if_splits)
    with Inl show ?thesis using fetch_probes [OF f] fetch_stored [OF f]
      by (intro exI [of _ r]) (simp add: settled_def chained_def)
  next
    case (Inr c)
    obtain u s2 where u: "UpsertCharacter pt (Some c) s1 = (u, s2)" by (metis surj_pair)
    note U = UpsertCharacter_cases [OF u]
    from assms f Inr u have "s' = s2" "settled (\<lambda>k. stored k s') (i, r)" "jobs = chained (i, r)"
      using U(3,4) by (auto simp: sweep_probe_def storeLodestone_def settled_def chained_def
          split: option.splits if_splits)
    then show ?thesis using fetch_probes [OF f] fetch_stored [OF f] U(1,2) by (intro exI [of _ r]) simp
  qed
qed

lemma sweep_loop_ok:
  assumes "sweep_loop pt to i acc s = (Inr jobs, s')" and "i \<le> to"
  shows "\<exists>log. probes s' = probes s @ log \<and> map fst log = map word_of_int [uint i..uint to]
      \<and> (\<forall>p\<in>set log. settled (\<lambda>k. stored k s') p) \<and> jobs = acc @ concat (map chained log)
      \<and> (\<forall>k. stored k s \<longrightarrow> stored k s')"
  using assms
proof (induction q \<equiv> pt to i acc s rule: sweep_loop.induct)
  case (1 to i acc s)
  obtain r s1 where p: "sweep_probe pt i s = (r, s1)" by (metis surj_pair)
  from 1(2) p obtain js where r: "r = Inr js"
    by (cases r) (simp_all add: sweep_loop.simps [of pt to i])
  obtain x where x: "probes s1 = probes s @ [(i, x)]" "settled (\<lambda>k. stored k s1) (i, x)" "js = chained (i, x)"
      "\<forall>k. stored k s \<longrightarrow> stored k s1"
    using sweep_probe_ok [OF p [unfolded r]] by blast
  show ?case
  proof (cases "i = to")
    case True
    with 1(2) p r have "jobs = acc @ js" "s' = s1" by (simp_all add: sweep_loop.simps [of pt to to])
    with x True show ?thesis by (intro exI [of _ "[(i, x)]"]) simp
  next
    case False
    note range = id_range_step [OF 1(3) False]
    from 1(2) p r False have "sweep_loop pt to (i + 1) (acc @ js) s1 = (Inr jobs, s')"
      by (simp add: sweep_loop.simps [of pt to i])
    from 1(1) [OF p [symmetric, unfolded r] _ False this range(1)] r
    obtain log where l: "probes s' = probes s1 @ log" "map fst log = map word_of_int [uint (i + 1)..uint to]"
        "\<forall>p\<in>set log. settled (\<lambda>k. stored k s') p" "jobs = (acc @ js) @ concat (map chained log)"
        "\<forall>k. stored k s1 \<longrightarrow> stored k s'" by blast
    have "settled (\<lambda>k. stored k s') (i, x)" using settled_mono [OF x(2) l(5)] .
    with l x range(2) show ?thesis by (intro exI [of _ "(i, x) # log"]) simp
  qed
qed

lemma sweep_probe_error:
  assumes "sweep_probe pt i s = (Inl e, s')"
  shows "\<not> errors_is e ErrPoisonPayload \<and> \<not> errors_is e ErrNoHandler"
proof -
  obtain r s1 where f: "pt_FetchCharacter pt i s = (r, s1)" by (metis surj_pair)
  show ?thesis
  proof (cases r)
    case (Inl e1)
    with assms f fetch_plain [of i s e1 s1] show ?thesis
      by (auto simp: sweep_probe_def plain_error_def split: if_splits)
  next
    case (Inr c)
    obtain u s2 where u: "UpsertCharacter pt (Some c) s1 = (u, s2)" by (metis surj_pair)
    from assms f Inr u UpsertCharacter_cases(5) [OF u] show ?thesis
      by (auto simp: sweep_probe_def storeLodestone_def split: option.splits if_splits)
  qed
qed

lemma sweep_loop_error:
  "sweep_loop pt to i acc s = (Inl e, s') \<Longrightarrow> \<not> errors_is e ErrPoisonPayload \<and> \<not> errors_is e ErrNoHandler"
proof (induction q \<equiv> pt to i acc s rule: sweep_loop.induct)
  case (1 to i acc s)
  obtain r s1 where p: "sweep_probe pt i s = (r, s1)" by (metis surj_pair)
  show ?case
  proof (cases r)
    case (Inl e1)
    with 1(2) p sweep_probe_error show ?thesis by (simp add: sweep_loop.simps [of pt to i])
  next
    case (Inr js)
    with 1(2) p have "i \<noteq> to" "sweep_loop pt to (i + 1) (acc @ js) s1 = (Inl e, s')"
      by (auto simp: sweep_loop.simps [of pt to i] split: if_splits)
    with 1(1) [OF p [symmetric]] Inr show ?thesis by blast
  qed
qed

lemma IDSweep_poison:
  assumes "IDSweep_Handle pt ok pl s = (Inl e, s')"
  shows "errors_is e ErrPoisonPayload \<longleftrightarrow> (case decode_IDSweep pl of Inl _ \<Rightarrow> True | Inr p \<Rightarrow> is_From p > is_To p)"
    and "\<not> errors_is e ErrNoHandler"
proof -
  have dec: "\<not> errors_is e1 ErrNoHandler" if "decode_IDSweep pl = Inl e1" for e1
    using that by (auto simp: decode_IDSweep_def json_error_def Let_def split: option.splits json.splits prod.splits if_splits)
  show "errors_is e ErrPoisonPayload \<longleftrightarrow> (case decode_IDSweep pl of Inl _ \<Rightarrow> True | Inr p \<Rightarrow> is_From p > is_To p)"
    using assms sweep_loop_error
    by (auto simp: IDSweep_Handle_def poison_def unconfigured_def split: sum.splits if_splits)
  show "\<not> errors_is e ErrNoHandler"
    using assms sweep_loop_error dec
    by (auto simp: IDSweep_Handle_def poison_def unconfigured_def split: sum.splits if_splits)
qed

end

section \<open>The PostgreSQL repositories as provider\<close>

text \<open>
  Errors of the database driver and of a cancelled context. The world of a handler: the database, the
  history of probes and the number of port calls made. The inputs say what the outside decides at each
  call: the faults, the clock and the answers of the Lodestone.
\<close>

datatype port_error = PortText string | PortCanceled | PortDeadline

fun port_err :: "port_error \<Rightarrow> err" where
  "port_err (PortText t) = EText t"
| "port_err PortCanceled = ESent CtxCanceled"
| "port_err PortDeadline = ESent CtxDeadlineExceeded"

record census_world =
  cw_db :: census_db
  cw_probes :: "(u32 \<times> CharacterProfile result) list"
  cw_tick :: nat

text \<open>A fetch fails with an error of the transport or with the not-found sentinel.\<close>

datatype 'a answer = Answer 'a | NotFound | Failed port_error

fun answer_result :: "'a answer \<Rightarrow> 'a result" where
  "answer_result (Answer x) = Inr x"
| "answer_result NotFound = Inl (ESent ErrCharacterNotFound)"
| "answer_result (Failed e) = Inl (port_err e)"

record census_inputs =
  ci_fault :: "nat \<Rightarrow> nat \<Rightarrow> port_error option"
  ci_applied :: "nat \<Rightarrow> bool"
  ci_now :: "nat \<Rightarrow> timestamp"
  ci_read :: "nat \<Rightarrow> nat"
  ci_character :: "nat \<Rightarrow> u32 \<Rightarrow> CharacterProfile answer"
  ci_achievements :: "nat \<Rightarrow> u32 \<Rightarrow> u32 list \<Rightarrow> AchievementSummary option answer"

definition env_at :: "census_inputs \<Rightarrow> nat \<Rightarrow> census_env" where
  "env_at inp t = \<lparr>cv_fault = (\<lambda>n. map_option port_err (ci_fault inp t n)), cv_applied = ci_applied inp t,
     cv_now = ci_now inp t, cv_ilike = (\<lambda>_ _. False), cv_rank = (\<lambda>_. 0), cv_tie = (\<lambda>_. 0), cv_day = (\<lambda>_. []), cv_read = ci_read inp t\<rparr>"

definition db_call :: "census_inputs \<Rightarrow> (census_env \<Rightarrow> census_db \<Rightarrow> 'r \<times> census_db) \<Rightarrow> census_world \<Rightarrow> 'r \<times> census_world" where
  "db_call inp op w =
     (case op (env_at inp (cw_tick w)) (cw_db w) of
        (r, db') \<Rightarrow> (r, w\<lparr>cw_db := db', cw_tick := Suc (cw_tick w)\<rparr>))"

definition pg_ports :: "census_inputs \<Rightarrow> census_world census_ports" where
  "pg_ports inp =
     \<lparr>pt_now = (\<lambda>w. ci_now inp (cw_tick w)),
      pt_FetchCharacter = (\<lambda>i w. let r = answer_result (ci_character inp (cw_tick w) i)
         in (r, w\<lparr>cw_probes := cw_probes w @ [(i, r)], cw_tick := Suc (cw_tick w)\<rparr>)),
      pt_FetchAchievements = (\<lambda>i ms w. (answer_result (ci_achievements inp (cw_tick w) i ms), w\<lparr>cw_tick := Suc (cw_tick w)\<rparr>)),
      pt_Upsert = (\<lambda>r js. db_call inp (\<lambda>env. Upsert env r js)),
      pt_MarkDeleted = (\<lambda>i t. db_call inp (\<lambda>env. MarkDeleted env i t)),
      pt_UpdateAchievementSummary = (\<lambda>i p li la. db_call inp (\<lambda>env. UpdateAchievementSummary env i p li la)),
      pt_SetAchievementsPrivate = (\<lambda>i p. db_call inp (\<lambda>env. SetAchievementsPrivate env i p)),
      pt_SyncMilestones = (\<lambda>ms. db_call inp (\<lambda>env. Repo_SyncMilestones env ms)),
      pt_ListMilestones = db_call inp (\<lambda>env db. (ListMilestones env db, db)),
      pt_UpsertCharacterMilestones = (\<lambda>i ms. db_call inp (\<lambda>env. UpsertCharacterMilestones env i ms)),
      pt_ListCharacterMilestones = (\<lambda>i. db_call inp (\<lambda>env db. (Repo_ListCharacterMilestones env i db, db)))\<rparr>"

definition has_row :: "u32 \<Rightarrow> census_world \<Rightarrow> bool" where
  "has_row i w \<longleftrightarrow> row_with cr_ID i (db_characters (cw_db w)) \<noteq> None"

lemma port_err_plain: "plain_error (port_err e)"
  by (cases e) (simp_all add: plain_error_def)

lemma answer_plain: "answer_result a = Inl e \<Longrightarrow> plain_error e"
  by (cases a) (auto simp: port_err_plain plain_error_def [of "ESent _"])

lemma insert_jobs_plain:
  "insert_jobs (env_at inp t) n jobs tbl = Inl e \<Longrightarrow> plain_error e"
  by (induction "env_at inp t" n jobs tbl rule: insert_jobs.induct)
    (auto simp: wrapped_def plain_error_def [of "EWrap _ _ _"] port_err_plain [unfolded plain_error_def] env_at_def
      split: option.splits)

lemma Upsert_plain: "Upsert (env_at inp t) rec jobs db = (Some e, db') \<Longrightarrow> plain_error e"
  using insert_jobs_plain [of inp t]
  by (auto simp: Upsert_def Let_def env_at_def wrapped_def plain_error_def [of "EWrap _ _ _"]
      port_err_plain [unfolded plain_error_def] port_err_plain split: option.splits sum.splits)

lemma pg_upsert_rows:
  assumes "pt_Upsert (pg_ports inp) rec jobs w = (u, w')"
  shows "cw_probes w' = cw_probes w" and "has_row k w \<Longrightarrow> has_row k w'" and "u = None \<Longrightarrow> has_row (cr_ID rec) w'"
    and "u = Some e \<Longrightarrow> plain_error e"
proof -
  obtain r db' where up: "Upsert (env_at inp (cw_tick w)) rec jobs (cw_db w) = (r, db')" by (metis surj_pair)
  with assms have w': "u = r" "w' = w\<lparr>cw_db := db', cw_tick := Suc (cw_tick w)\<rparr>"
    by (simp_all add: pg_ports_def db_call_def)
  note at = Upsert_atomic [OF up]
  show "cw_probes w' = cw_probes w" by (simp add: w')
  show "has_row k w \<Longrightarrow> has_row k w'" using at by (auto simp: w' has_row_def upserted_row)
  show "u = None \<Longrightarrow> has_row (cr_ID rec) w'" using at by (auto simp: w' has_row_def upserted_row)
  show "u = Some e \<Longrightarrow> plain_error e" using up Upsert_plain w' by blast
qed

interpretation pg_census: census_repository "pg_ports inp" cw_probes has_row for inp
proof (unfold_locales, goal_cases)
  case 1 then show ?case by (auto simp: pg_ports_def Let_def)
next
  case 2 then show ?case by (auto simp: pg_ports_def Let_def has_row_def)
next
  case 3 then show ?case by (auto simp: pg_ports_def Let_def intro: answer_plain)
next
  case 4 then show ?case by (rule pg_upsert_rows(1))
next
  case 5 then show ?case by (rule pg_upsert_rows(2))
next
  case 6 then show ?case by (rule pg_upsert_rows(3)) simp
next
  case 7 then show ?case by (rule pg_upsert_rows(4)) simp
qed

section \<open>Properties\<close>

text \<open>C24: When an id-sweep job is acknowledged, its whole range was probed on the Lodestone, every id exactly once
  and in order; every id whose probe did not return a genuine not-found is stored or has a hidden
  profile; and the chained jobs are one achievement census per stored character, in probe order.\<close>

theorem id_sweep_probes_every_id:
  assumes "IDSweep_Handle (pg_ports inp) configured pl w = (Inr jobs, w')" and "decode_IDSweep pl = Inr p"
  shows "\<exists>log. cw_probes w' = cw_probes w @ log \<and> map fst log = map word_of_int [uint (is_From p)..uint (is_To p)]
     \<and> (\<forall>q\<in>set log. settled (\<lambda>k. has_row k w') q) \<and> jobs = concat (map chained log)"
proof -
  from assms have "is_From p \<le> is_To p" and "sweep_loop (pg_ports inp) (is_To p) (is_From p) [] w = (Inr jobs, w')"
    by (auto simp: IDSweep_Handle_def not_less split: if_splits)
  from pg_census.sweep_loop_ok [OF this(2,1)] show ?thesis by auto
qed

definition demo_profile :: "u32 \<Rightarrow> CharacterProfile" where
  "demo_profile i = \<lparr>cp_ID = i, cp_Name = ''Alisaie'', cp_World = ''Odin'', cp_Datacenter = ''Light'', cp_Gender = 2,
     cp_Bio = [], cp_Race = ''Elezen'', cp_Tribe = ''Wildwood'', cp_GrandCompany = [], cp_FreeCompanyID = [],
     cp_FreeCompanyName = [], cp_ActiveJob = ''Red Mage'', cp_ClassJobs = []\<rparr>"

definition demo_inputs :: census_inputs where
  "demo_inputs = \<lparr>ci_fault = (\<lambda>_ _. None), ci_applied = (\<lambda>_. True), ci_now = int, ci_read = (\<lambda>_. 0),
     ci_character = (\<lambda>_ i. if i = 8 then NotFound else Answer (demo_profile i)),
     ci_achievements = (\<lambda>_ _ _. Answer (Some \<lparr>as_Private = False, as_TotalAchievements = 1, as_TotalPoints = 5,
        as_Milestones = [\<lparr>ar_AchievementID = 590, ar_Name = [], ar_Earned = True, ar_EarnedAt = 77\<rparr>],
        as_LatestAchievement = None\<rparr>))\<rparr>"

definition demo_world :: census_world where
  "demo_world = \<lparr>cw_db = empty_census\<lparr>db_registry := DefaultMilestones\<rparr>, cw_probes = [], cw_tick = 0\<rparr>"

definition demo_sweep :: payload where
  "demo_sweep = Some (encode_IDSweep \<lparr>is_From = 7, is_To = 8, is_Source = ''auto''\<rparr>)"

theorem id_sweep_probes_every_id_witness:
  "\<exists>log. cw_probes (snd (IDSweep_Handle (pg_ports demo_inputs) True demo_sweep demo_world)) = cw_probes demo_world @ log
     \<and> map fst log = [7, 8]"
proof -
  have "fst (IDSweep_Handle (pg_ports demo_inputs) True demo_sweep demo_world) = Inr [AchievementCensusJob 7]"
    by code_simp
  then obtain w' where h: "IDSweep_Handle (pg_ports demo_inputs) True demo_sweep demo_world = (Inr [AchievementCensusJob 7], w')"
    by (metis prod.collapse)
  have d: "decode_IDSweep demo_sweep = Inr \<lparr>is_From = 7, is_To = 8, is_Source = ''auto''\<rparr>"
    by (simp add: demo_sweep_def decode_encode_IDSweep)
  have r: "map word_of_int [uint (7 :: u32)..uint (8 :: u32)] = [7, 8 :: u32]" by code_simp
  from id_sweep_probes_every_id [OF h d] r show ?thesis by (auto simp: h)
qed

text \<open>The id-sweep and census payloads survive the queue: decoding what the publisher encoded gives the
  range and source, respectively the character id, for every 32-bit value.\<close>

lemma census_payload_roundtrip:
  "decode_IDSweep (Some (encode_IDSweep p)) = Inr p
   \<and> decode_CharacterID (qj_Payload (AchievementCensusJob i)) = Inr i
   \<and> decode_CharacterID (qj_Payload (CharacterCensusJob i)) = Inr i"
  by (simp add: decode_encode_IDSweep decode_encode_CharacterID AchievementCensusJob_def CharacterCensusJob_def)

text \<open>The achievements requested for a character are the tracked milestones that are not yet stored for it, each
  once and in ascending order, whatever the order of the rows that the database returned.\<close>

lemma missing_milestones_canonical:
  "sorted (missingMilestoneIDs (ma_AchievementID ` set registry) known)
   \<and> distinct (missingMilestoneIDs (ma_AchievementID ` set registry) known)
   \<and> set (missingMilestoneIDs (ma_AchievementID ` set registry) known)
       = ma_AchievementID ` set registry - cm_AchievementID ` set known"
  using missingMilestoneIDs_spec [of "ma_AchievementID ` set registry" known] by simp

lemma cachedMilestones_db:
  assumes "cachedMilestones (pg_ports inp) sv w = (r, sv', w1)"
  shows "cw_db w1 = cw_db w"
  using assms by (auto simp: cachedMilestones_def pg_ports_def db_call_def split: if_splits sum.splits prod.splits)

lemma pg_milestones_written:
  assumes "pt_UpsertCharacterMilestones (pg_ports inp) i ms w = (None, w')"
  shows "row_with milestone_key k (db_milestones (cw_db w')) =
      (case row_with milestone_key k ms of Some m \<Rightarrow> Some m | None \<Rightarrow> row_with milestone_key k (db_milestones (cw_db w)))"
    and "distinct (map milestone_key ms)"
  using assms row_with_upsert_all [of milestone_key ms k "db_milestones (cw_db w)"]
  by (auto simp: pg_ports_def db_call_def UpsertCharacterMilestones_def exec_write_def split: if_splits option.splits prod.splits)

lemma pg_summary_milestones:
  "pt_UpdateAchievementSummary (pg_ports inp) i p li la w = (r, w') \<Longrightarrow> db_milestones (cw_db w') = db_milestones (cw_db w)"
  by (auto simp: pg_ports_def db_call_def UpdateAchievementSummary_def exec_write_def update_character_def
      split: option.splits prod.splits if_splits)

text \<open>Processing an achievement summary is additive. A public summary stores exactly the milestones it returns,
  with the dates it reports, and keeps every other stored milestone; a private summary keeps all stored
  milestones and, of the character rows, changes nothing but the private flag of the character.\<close>

lemma milestones_are_additive:
  assumes "ProcessMilestoneResults (pg_ports inp) sv i (Some sm) w = (Inr ms, sv', w')"
  shows "(\<forall>k. row_with milestone_key k (db_milestones (cw_db w')) =
           (case row_with milestone_key k ms of Some m \<Rightarrow> Some m
                                               | None \<Rightarrow> row_with milestone_key k (db_milestones (cw_db w))))
    \<and> (as_Private sm \<longrightarrow> ms = [] \<and> cw_db w' = update_character i (\<lambda>r. r\<lparr>cr_AchievementsPrivate := True\<rparr>) (cw_db w))"
proof (cases "as_Private sm")
  case True
  with assms show ?thesis
    by (auto simp: ProcessMilestoneResults_def pg_ports_def db_call_def SetAchievementsPrivate_def exec_write_def
        update_character_def split: option.splits prod.splits)
next
  case False
  with assms obtain reg sv1 w1 w2 where
      c: "cachedMilestones (pg_ports inp) sv w = (Inr reg, sv1, w1)" and
      u: "pt_UpsertCharacterMilestones (pg_ports inp) i ms w1 = (None, w2)" and
      s: "pt_UpdateAchievementSummary (pg_ports inp) i False (map_option ar_AchievementID (as_LatestAchievement sm))
            (map_option ar_EarnedAt (as_LatestAchievement sm)) w2 = (None, w')"
    by (auto simp: ProcessMilestoneResults_def Let_def split: prod.splits sum.splits option.splits if_splits)
  show ?thesis
    using False pg_milestones_written(1) [OF u, unfolded cachedMilestones_db [OF c]] pg_summary_milestones [OF s]
    by simp
qed

end
