(* ===== verification/Rabbit_Queue.thy ===== *)
theory Rabbit_Queue
  imports Contract "HOL-Library.Multiset"
begin

text \<open>
  infrastructure/rabbitmq/queue.go: publishing with confirmation, the failure ladder of the
  main consumers, and the failed-queue consumers. The broker is the list of its durable queues;
  what the network does to one publish is the argument \<open>pub_outcome\<close>. The laws proved here: the
  ladder is the saturating exponential, a failed delivery keeps its body in the broker whatever fails,
  and the failed worker does not republish before the not-before instant.
\<close>

section \<open>Names\<close>

definition exchangeMain :: string where "exchangeMain = ''census''"
definition queuePrefix :: string where "queuePrefix = ''census.''"
definition headerAttempts :: string where "headerAttempts = ''x-attempts''"
definition headerNotBefore :: string where "headerNotBefore = ''x-not-before-ms''"
definition backoffBaseSec :: int where "backoffBaseSec = 5"
definition maxBackoffSec :: int where "maxBackoffSec = 3600"

definition eventTypes :: "string list" where
  "eventTypes = [''id-sweep'', ''character-census'', ''achievement-census'', ''new-proxy'']"

definition knownEventType :: "string \<Rightarrow> bool" where
  "knownEventType et = list_ex (\<lambda>known. et = known) eventTypes"

definition canonicalEventType :: "string \<Rightarrow> string" where
  "canonicalEventType et = trim_suffix et ''.failed''"

definition failedQueueEventType :: "string \<Rightarrow> string" where
  "failedQueueEventType failedQueue = canonicalEventType (trim_prefix failedQueue queuePrefix)"

definition failedQueueFor :: "string \<Rightarrow> string" where
  "failedQueueFor eventType = queuePrefix @ eventType @ ''.failed''"

definition deadQueueFor :: "string \<Rightarrow> string" where
  "deadQueueFor eventType = queuePrefix @ eventType @ ''.dead''"

definition failed_queues :: "string list \<Rightarrow> string list" where
  "failed_queues types =
     map (\<lambda>et. ''census.'' @ et @ ''.failed'') (if types = [] then eventTypes else types)"

section \<open>Headers\<close>

datatype hval = HInt32 int | HInt64 int | HOther string

type_synonym headers = "(string \<rightharpoonup> hval) option"

definition getAttempts :: "headers \<Rightarrow> int" where
  "getAttempts headers =
     (case headers of
        None \<Rightarrow> 0
      | Some t \<Rightarrow> (case t headerAttempts of Some (HInt32 n) \<Rightarrow> n | _ \<Rightarrow> 0))"

definition copyHeaders :: "headers \<Rightarrow> int \<Rightarrow> (string \<rightharpoonup> hval)" where
  "copyHeaders headers attempts =
     (\<lambda>k. if k = headerAttempts then Some (HInt32 (i32 attempts))
          else case headers of None \<Rightarrow> None | Some t \<Rightarrow> t k)"

text \<open>The Unix epoch as nanoseconds since the zero time; \<open>UnixMilli\<close> rounds down.\<close>

definition unix_epoch :: timestamp where "unix_epoch = 62135596800 * second"

definition unix_milli :: "timestamp \<Rightarrow> int" where "unix_milli t = (t - unix_epoch) div millisecond"

definition from_unix_milli :: "int \<Rightarrow> timestamp" where "from_unix_milli ms = unix_epoch + ms * millisecond"

definition remainingBackoff :: "headers \<Rightarrow> timestamp \<Rightarrow> duration" where
  "remainingBackoff headers now =
     (case headers of
        None \<Rightarrow> 0
      | Some t \<Rightarrow>
          (case t headerNotBefore of
             Some (HInt64 ms) \<Rightarrow>
               (let notBefore = from_unix_milli ms
                in if \<not> notBefore > now then 0 else time_sub notBefore now)
           | _ \<Rightarrow> 0))"

section \<open>The broker\<close>

record amsg =
  mg_body :: payload
  mg_headers :: headers
  mg_expiration :: string

type_synonym broker = "(string \<times> amsg list) list"

definition has_queue :: "string \<Rightarrow> broker \<Rightarrow> bool" where
  "has_queue q bk = list_ex (\<lambda>x. fst x = q) bk"

definition declare_queue :: "string \<Rightarrow> broker \<Rightarrow> broker" where
  "declare_queue q bk = (if has_queue q bk then bk else bk @ [(q, [])])"

definition enqueue :: "string \<Rightarrow> amsg \<Rightarrow> broker \<Rightarrow> broker" where
  "enqueue q m bk = map (\<lambda>x. if fst x = q then (fst x, snd x @ [m]) else x) bk"

lemma map_of_enqueue:
  "map_of (enqueue q m bk) k = (if k = q then map_option (\<lambda>ms. ms @ [m]) (map_of bk k) else map_of bk k)"
  by (induction bk) (auto simp: enqueue_def)

text \<open>Requeueing puts a message back at the head; a delivery takes it from there.\<close>

definition requeue :: "string \<Rightarrow> amsg \<Rightarrow> broker \<Rightarrow> broker" where
  "requeue q m bk = map (\<lambda>x. if fst x = q then (fst x, m # snd x) else x) bk"

definition deliver :: "string \<Rightarrow> broker \<Rightarrow> (amsg \<times> broker) option" where
  "deliver q bk =
     (case map_of bk q of
        Some (m # ms) \<Rightarrow> Some (m, map (\<lambda>x. if fst x = q then (fst x, ms) else x) bk)
      | _ \<Rightarrow> None)"

text \<open>
  The declared topology: each event type has its main queue, bound to the direct exchange under the
  event type, its failed queue, and its dead queue. The default exchange routes to the queue
  named by the key.
\<close>

definition declareTopology :: "broker \<Rightarrow> broker" where
  "declareTopology bk =
     fold (\<lambda>et b. declare_queue ((''census.'' @ et) @ ''.dead'')
                    (declare_queue ((''census.'' @ et) @ ''.failed'') (declare_queue (''census.'' @ et) b)))
       eventTypes bk"

definition route :: "string \<Rightarrow> string \<Rightarrow> string option" where
  "route exchange key =
     (if exchange = [] then Some key
      else if exchange = exchangeMain \<and> knownEventType key then Some (''census.'' @ key)
      else None)"

definition accept :: "string \<Rightarrow> string \<Rightarrow> amsg \<Rightarrow> broker \<Rightarrow> bool \<times> broker" where
  "accept exchange key m bk =
     (case route exchange key of
        Some q \<Rightarrow> if has_queue q bk then (True, enqueue q m bk) else (False, bk)
      | None \<Rightarrow> (False, bk))"

text \<open>
  What happens to one publish: the connection is closed and cannot be reopened, the send fails,
  no confirmation object is returned, waiting for the confirmation fails or the broker refuses (the flag tells whether the broker had
  accepted the message), or it is confirmed.
\<close>

datatype pub_outcome =
    PubReconnect err | PubSend err bool | PubNoConfirm bool | PubWait err bool | PubNack bool | PubAck

definition stored :: "bool \<Rightarrow> string \<Rightarrow> string \<Rightarrow> amsg \<Rightarrow> broker \<Rightarrow> broker" where
  "stored b exchange key m bk = (if b then snd (accept exchange key m bk) else bk)"

definition publishConfirmed :: "pub_outcome \<Rightarrow> string \<Rightarrow> string \<Rightarrow> amsg \<Rightarrow> broker \<Rightarrow> err option \<times> broker" where
  "publishConfirmed oc exchange key m bk =
     (case oc of
        PubReconnect e \<Rightarrow> (Some (EWrap ''publish reconnect: '' e []), bk)
      | PubSend e b \<Rightarrow> (Some (EWrap ''publish: '' e []), stored b exchange key m bk)
      | PubNoConfirm b \<Rightarrow> (Some (EText ''publish: deferred confirmation is nil''), stored b exchange key m bk)
      | PubWait e b \<Rightarrow> (Some (EWrap ''publish confirm: '' e []), stored b exchange key m bk)
      | PubNack b \<Rightarrow> (Some (EText (''publish: broker nacked message for '' @ key)), stored b exchange key m bk)
      | PubAck \<Rightarrow>
          (case accept exchange key m bk of
             (True, bk') \<Rightarrow> (None, bk')
           | (False, bk') \<Rightarrow> (Some (EText (''rabbitmq unroutable: '' @ key)), bk')))"

definition Publish :: "pub_outcome \<Rightarrow> QueueJob \<Rightarrow> broker \<Rightarrow> err option \<times> broker" where
  "Publish oc job bk =
     publishConfirmed oc exchangeMain (qj_Type job)
       \<lparr>mg_body = qj_Payload job, mg_headers = Some [headerAttempts \<mapsto> HInt32 0], mg_expiration = []\<rparr> bk"

section \<open>Failures\<close>

definition retryBackoffSec :: "int \<Rightarrow> int" where
  "retryBackoffSec attempts =
     (let shift0 = attempts - 1; shift = (if shift0 < 0 then 0 else shift0)
      in if shift > 10 then maxBackoffSec
         else let backoff = backoffBaseSec * 2 ^ nat shift
              in if backoff > maxBackoffSec then maxBackoffSec else backoff)"

record failureOutcome =
  fo_dead :: bool
  fo_backoffSec :: int

definition failureDecision :: "err \<Rightarrow> int \<Rightarrow> failureOutcome" where
  "failureDecision handlerErr attempts =
     (if errors_is handlerErr ErrPoisonPayload \<or> errors_is handlerErr ErrNoHandler
      then \<lparr>fo_dead = True, fo_backoffSec = 0\<rparr>
      else \<lparr>fo_dead = False, fo_backoffSec = retryBackoffSec attempts\<rparr>)"

definition side_message :: "timestamp \<Rightarrow> payload \<Rightarrow> headers \<Rightarrow> int \<Rightarrow> int \<Rightarrow> amsg" where
  "side_message now body headers attempts backoffSec =
     \<lparr>mg_body = body,
      mg_headers = Some (if backoffSec > 0
                         then (copyHeaders headers attempts)
                                (headerNotBefore \<mapsto> HInt64 (unix_milli (now + backoffSec * second)))
                         else copyHeaders headers attempts),
      mg_expiration = (if backoffSec > 0 then show_int backoffSec @ ''000'' else [])\<rparr>"

definition publishToFailed :: "pub_outcome \<Rightarrow> timestamp \<Rightarrow> string \<Rightarrow> payload \<Rightarrow> headers \<Rightarrow> int \<Rightarrow> int \<Rightarrow> broker
    \<Rightarrow> err option \<times> broker" where
  "publishToFailed oc now queueName body headers attempts backoffSec bk =
     publishConfirmed oc [] queueName (side_message now body headers attempts backoffSec) bk"

datatype settlement = Acked | Requeued

definition handleFailure :: "pub_outcome \<Rightarrow> timestamp \<Rightarrow> amsg \<Rightarrow> string \<Rightarrow> err \<Rightarrow> broker \<Rightarrow> settlement \<times> broker" where
  "handleFailure oc now msg jobType handlerErr bk =
     (let attempts = i64 (getAttempts (mg_headers msg) + 1);
          decision = failureDecision handlerErr attempts
      in if fo_dead decision
         then (case publishToFailed oc now (deadQueueFor jobType) (mg_body msg) (mg_headers msg) attempts 0 bk of
                 (Some e, bk') \<Rightarrow> (Requeued, bk')
               | (None, bk') \<Rightarrow> (Acked, bk'))
         else (case publishToFailed oc now (failedQueueFor jobType) (mg_body msg) (mg_headers msg) attempts
                      (fo_backoffSec decision) bk of
                 (Some e, bk') \<Rightarrow> (Requeued, bk')
               | (None, bk') \<Rightarrow> (Acked, bk')))"

definition settle :: "string \<Rightarrow> amsg \<Rightarrow> settlement \<times> broker \<Rightarrow> broker" where
  "settle q m r = (case r of (Acked, bk) \<Rightarrow> bk | (Requeued, bk) \<Rightarrow> requeue q m bk)"

text \<open>
  One delivery to a main consumer of the event type \<open>et\<close>: \<open>stop\<close> tells whether claiming had been stopped,
  \<open>handler\<close> is the handler's verdict on the job.
\<close>

definition consume_delivery :: "pub_outcome \<Rightarrow> timestamp \<Rightarrow> bool \<Rightarrow> (QueueJob \<Rightarrow> err option) \<Rightarrow> string \<Rightarrow> broker \<Rightarrow> broker" where
  "consume_delivery oc now stop handler et bk =
     (case deliver (queuePrefix @ et) bk of
        None \<Rightarrow> bk
      | Some (msg, bk1) \<Rightarrow>
          if stop then requeue (queuePrefix @ et) msg bk1
          else (let job = \<lparr>qj_Type = canonicalEventType et, qj_Payload = mg_body msg\<rparr>
                in case handler job of
                     Some e \<Rightarrow> settle (queuePrefix @ et) msg (handleFailure oc now msg (qj_Type job) e bk1)
                   | None \<Rightarrow> bk1))"

section \<open>The failed-queue consumer\<close>

definition parkDelivery :: "err option \<Rightarrow> pub_outcome \<Rightarrow> timestamp \<Rightarrow> string \<Rightarrow> payload \<Rightarrow> headers \<Rightarrow> int \<Rightarrow> broker
    \<Rightarrow> bool \<times> broker" where
  "parkDelivery declareErr oc now deadQueue body headers attempts bk =
     (case declareErr of
        Some e \<Rightarrow> (False, bk)
      | None \<Rightarrow>
          (case publishToFailed oc now deadQueue body headers attempts 0 (declare_queue deadQueue bk) of
             (Some e, bk') \<Rightarrow> (False, bk')
           | (None, bk') \<Rightarrow> (True, bk')))"

text \<open>
  The inputs of one iteration: whether claiming was stopped before or during the wait, the error
  of declaring the dead queue, the outcome of the publish and the time of the decision. The
  republish is not mandatory: a confirmed but unroutable message is dropped by the broker.
\<close>

record failed_input =
  fi_stop :: bool
  fi_stopWait :: bool
  fi_declare :: "err option"
  fi_pub :: pub_outcome
  fi_now :: timestamp

definition republish :: "pub_outcome \<Rightarrow> string \<Rightarrow> amsg \<Rightarrow> broker \<Rightarrow> settlement \<times> broker" where
  "republish oc eventType m bk =
     (case oc of
        PubAck \<Rightarrow> (Acked, snd (accept exchangeMain eventType m bk))
      | PubReconnect e \<Rightarrow> (Requeued, bk)
      | PubSend e b \<Rightarrow> (Requeued, stored b exchangeMain eventType m bk)
      | PubNoConfirm b \<Rightarrow> (Requeued, stored b exchangeMain eventType m bk)
      | PubWait e b \<Rightarrow> (Requeued, stored b exchangeMain eventType m bk)
      | PubNack b \<Rightarrow> (Requeued, stored b exchangeMain eventType m bk))"

definition park_settle :: "bool \<times> broker \<Rightarrow> settlement \<times> broker" where
  "park_settle r = ((if fst r then Acked else Requeued), snd r)"

definition failed_message :: "int \<Rightarrow> failed_input \<Rightarrow> string \<Rightarrow> amsg \<Rightarrow> broker \<Rightarrow> settlement \<times> broker" where
  "failed_message maxAttempts inp tag msg bk =
     (if fi_stop inp then (Requeued, bk)
      else let eventType = canonicalEventType tag;
               attempts = i64 (getAttempts (mg_headers msg) + 1)
           in if \<not> knownEventType eventType
              then park_settle (parkDelivery (fi_declare inp) (fi_pub inp) (fi_now inp)
                     (queuePrefix @ eventType @ ''.dead'') (mg_body msg) (mg_headers msg) attempts bk)
              else if attempts \<ge> maxAttempts
              then park_settle (parkDelivery (fi_declare inp) (fi_pub inp) (fi_now inp)
                     (deadQueueFor eventType) (mg_body msg) (mg_headers msg) attempts bk)
              else if remainingBackoff (mg_headers msg) (fi_now inp) > 0 \<and> fi_stopWait inp
              then (Requeued, bk)
              else republish (fi_pub inp) eventType
                     \<lparr>mg_body = mg_body msg, mg_headers = Some (copyHeaders (mg_headers msg) attempts),
                      mg_expiration = []\<rparr> bk)"

definition failed_delivery :: "int \<Rightarrow> failed_input \<Rightarrow> string \<Rightarrow> broker \<Rightarrow> broker" where
  "failed_delivery maxAttempts inp fq bk =
     (case deliver fq bk of
        None \<Rightarrow> bk
      | Some (msg, bk1) \<Rightarrow> settle fq msg (failed_message maxAttempts inp (failedQueueEventType fq) msg bk1))"

text \<open>The instant at which an iteration publishes: after the wait for the remaining backoff.\<close>

definition republish_time :: "failed_input \<Rightarrow> amsg \<Rightarrow> timestamp" where
  "republish_time inp msg = fi_now inp + remainingBackoff (mg_headers msg) (fi_now inp)"

section \<open>Bodies in the broker\<close>

definition bodies :: "broker \<Rightarrow> payload multiset" where
  "bodies bk = mset (concat (map (\<lambda>x. map mg_body (snd x)) bk))"

definition queue_names :: "broker \<Rightarrow> string list" where
  "queue_names bk = map fst bk"

lemma has_queue_iff: "has_queue q bk \<longleftrightarrow> q \<in> set (queue_names bk)"
  by (auto simp: has_queue_def queue_names_def list_ex_iff)

lemma names_map [simp]:
  "queue_names (map (\<lambda>x. if fst x = q then (fst x, f x) else x) bk) = queue_names bk"
  by (induction bk) (auto simp: queue_names_def)

lemma bodies_update:
  assumes "distinct (queue_names bk)" and "map_of bk q = Some ms"
  shows "bodies (map (\<lambda>x. if fst x = q then (fst x, f (snd x)) else x) bk) + mset (map mg_body ms)
           = bodies bk + mset (map mg_body (f ms))"
  using assms
proof (induction bk)
  case (Cons x bk)
  have other: "map (\<lambda>x. if fst x = q then (fst x, f (snd x)) else x) bk = bk" if "q \<notin> set (queue_names bk)"
    using that by (induction bk) (auto simp: queue_names_def)
  show ?case
  proof (cases "fst x = q")
    case True
    with Cons.prems have "q \<notin> set (queue_names bk)" "snd x = ms" by (auto simp: queue_names_def)
    with other True show ?thesis by (simp add: bodies_def)
  next
    case False
    with Cons show ?thesis by (auto simp: bodies_def queue_names_def)
  qed
qed simp

lemma map_of_names: "q \<in> set (queue_names bk) \<Longrightarrow> \<exists>ms. map_of bk q = Some ms"
  by (induction bk) (auto simp: queue_names_def)

lemma bodies_enqueue:
  assumes "distinct (queue_names bk)" and "has_queue q bk"
  shows "bodies (enqueue q m bk) = add_mset (mg_body m) (bodies bk)"
proof -
  from assms(2) obtain ms where "map_of bk q = Some ms" unfolding has_queue_iff using map_of_names by blast
  from bodies_update [OF assms(1) this, of "\<lambda>xs. xs @ [m]"] show ?thesis by (simp add: enqueue_def)
qed

lemma bodies_requeue:
  assumes "distinct (queue_names bk)" and "has_queue q bk"
  shows "bodies (requeue q m bk) = add_mset (mg_body m) (bodies bk)"
proof -
  from assms(2) obtain ms where "map_of bk q = Some ms" unfolding has_queue_iff using map_of_names by blast
  from bodies_update [OF assms(1) this, of "\<lambda>xs. m # xs"] show ?thesis by (simp add: requeue_def)
qed

lemma names_broker [simp]:
  "queue_names (enqueue q m bk) = queue_names bk" "queue_names (requeue q m bk) = queue_names bk"
  by (simp_all add: enqueue_def requeue_def)

lemma deliver_bodies:
  assumes "distinct (queue_names bk)" and "deliver q bk = Some (m, bk1)"
  shows "bodies bk = add_mset (mg_body m) (bodies bk1)" and "queue_names bk1 = queue_names bk" and "has_queue q bk1"
proof -
  from assms(2) obtain ms where q: "map_of bk q = Some (m # ms)"
    "bk1 = map (\<lambda>x. if fst x = q then (fst x, ms) else x) bk"
    by (auto simp: deliver_def split: option.splits list.splits)
  from bodies_update [OF assms(1) q(1), of "\<lambda>_. ms"] q(2)
  have "bodies bk1 + mset (map mg_body (m # ms)) = bodies bk + mset (map mg_body ms)" by simp
  then show "bodies bk = add_mset (mg_body m) (bodies bk1)" by simp
  show n: "queue_names bk1 = queue_names bk" using q(2) by simp
  have "q \<in> set (queue_names bk)" using map_of_SomeD [OF q(1)] by (force simp: queue_names_def)
  then show "has_queue q bk1" using n by (simp add: has_queue_iff)
qed

lemma declare_queue_simps [simp]:
  "bodies (declare_queue q bk) = bodies bk" "has_queue q (declare_queue q bk)"
  "distinct (queue_names bk) \<Longrightarrow> distinct (queue_names (declare_queue q bk))"
  "has_queue q' bk \<Longrightarrow> has_queue q' (declare_queue q bk)"
  by (auto simp: declare_queue_def bodies_def has_queue_iff queue_names_def)

lemma accept_cases:
  assumes "distinct (queue_names bk)"
  shows "(fst (accept x k m bk) \<longrightarrow> bodies (snd (accept x k m bk)) = add_mset (mg_body m) (bodies bk))
       \<and> (\<not> fst (accept x k m bk) \<longrightarrow> snd (accept x k m bk) = bk)
       \<and> queue_names (snd (accept x k m bk)) = queue_names bk"
  using bodies_enqueue [OF assms] by (auto simp: accept_def split: option.splits)

lemma stored_keeps:
  assumes "distinct (queue_names bk)"
  shows "bodies bk \<subseteq># bodies (stored b x k m bk) \<and> queue_names (stored b x k m bk) = queue_names bk"
  using accept_cases [OF assms, of x k m] by (cases "fst (accept x k m bk)") (auto simp: stored_def)

lemma publishConfirmed_keeps:
  assumes "distinct (queue_names bk)" and "publishConfirmed oc x k m bk = (e, bk')"
  shows "bodies bk \<subseteq># bodies bk' \<and> queue_names bk' = queue_names bk
       \<and> (e = None \<longrightarrow> bodies bk' = add_mset (mg_body m) (bodies bk))"
  using assms(2) accept_cases [OF assms(1), of x k m] stored_keeps [OF assms(1), of _ x k m]
  by (auto simp: publishConfirmed_def split: pub_outcome.splits prod.splits bool.splits)

text \<open>The body of a delivery is in the broker again once it is settled.\<close>

definition preserves :: "amsg \<Rightarrow> broker \<Rightarrow> settlement \<times> broker \<Rightarrow> bool" where
  "preserves msg bk r \<longleftrightarrow>
     (case r of (Acked, bk') \<Rightarrow> add_mset (mg_body msg) (bodies bk) \<subseteq># bodies bk'
              | (Requeued, bk') \<Rightarrow> bodies bk \<subseteq># bodies bk' \<and> set (queue_names bk) \<subseteq> set (queue_names bk')
                   \<and> distinct (queue_names bk'))"

lemma settle_preserves:
  assumes "preserves msg bk1 r" and "has_queue q bk1"
  shows "add_mset (mg_body msg) (bodies bk1) \<subseteq># bodies (settle q msg r)"
proof -
  obtain st bk' where r: "r = (st, bk')" by (cases r) auto
  show ?thesis
  proof (cases st)
    case Acked
    with assms r show ?thesis by (simp add: preserves_def settle_def)
  next
    case Requeued
    with assms r have "has_queue q bk'" "distinct (queue_names bk')" "bodies bk1 \<subseteq># bodies bk'"
      by (auto simp: preserves_def has_queue_iff)
    with Requeued r show ?thesis by (simp add: settle_def bodies_requeue)
  qed
qed

lemma side_message_body [simp]: "mg_body (side_message now body h a b) = body"
  by (simp add: side_message_def)

lemma publishToFailed_preserves:
  assumes "distinct (queue_names bk)"
    and "publishToFailed oc now q (mg_body msg) h a b bk = (e, bk')"
  shows "preserves msg bk (if e = None then (Acked, bk') else (Requeued, bk'))"
  using publishConfirmed_keeps [OF assms(1) assms(2) [unfolded publishToFailed_def]] assms(1)
  by (auto simp: preserves_def)

lemma handleFailure_preserves:
  assumes "distinct (queue_names bk)"
  shows "preserves msg bk (handleFailure oc now msg jobType e bk)"
proof -
  let ?a = "i64 (getAttempts (mg_headers msg) + 1)"
  obtain e1 b1 where 1: "publishToFailed oc now (deadQueueFor jobType) (mg_body msg) (mg_headers msg) ?a 0 bk = (e1, b1)"
    by fastforce
  obtain e2 b2 where 2: "publishToFailed oc now (failedQueueFor jobType) (mg_body msg) (mg_headers msg) ?a
      (fo_backoffSec (failureDecision e ?a)) bk = (e2, b2)" by fastforce
  from publishToFailed_preserves [OF assms 1] publishToFailed_preserves [OF assms 2] 1 2 show ?thesis
    by (auto simp: handleFailure_def Let_def split: option.splits)
qed

lemma parkDelivery_preserves:
  assumes "distinct (queue_names bk)"
  shows "preserves msg bk (park_settle (parkDelivery d oc now q (mg_body msg) h a bk))"
proof -
  have d: "distinct (queue_names (declare_queue q bk))" using assms by simp
  obtain e bk' where p: "publishToFailed oc now q (mg_body msg) h a 0 (declare_queue q bk) = (e, bk')" by fastforce
  have sub: "set (queue_names bk) \<subseteq> set (queue_names (declare_queue q bk))"
    by (auto simp: declare_queue_def queue_names_def)
  from publishToFailed_preserves [OF d p] p sub assms show ?thesis
    by (auto simp: parkDelivery_def park_settle_def preserves_def split: option.splits)
       (meson subsetD)
qed

text \<open>The topology that declareTopology sets up: the main queue of every event type.\<close>

definition topology :: "broker \<Rightarrow> bool" where
  "topology bk \<longleftrightarrow> distinct (queue_names bk) \<and> list_all (\<lambda>et. has_queue (''census.'' @ et) bk) eventTypes"

lemma known_routed: "topology bk \<Longrightarrow> knownEventType et \<Longrightarrow> fst (accept exchangeMain et m bk)"
  by (auto simp: topology_def accept_def route_def list_all_iff knownEventType_def list_ex_iff exchangeMain_def)

lemma republish_preserves:
  assumes t: "topology bk" and k: "knownEventType et" and b: "mg_body m = mg_body msg"
  shows "preserves msg bk (republish oc et m bk)"
proof -
  from t have d: "distinct (queue_names bk)" by (simp add: topology_def)
  from accept_cases [OF d, of exchangeMain et m] known_routed [OF t k, of m] stored_keeps [OF d, of _ exchangeMain et m] b d
  show ?thesis
    by (auto simp: republish_def preserves_def split: pub_outcome.splits)
qed

lemma failed_message_preserves:
  assumes t: "topology bk"
  shows "preserves msg bk (failed_message maxAttempts inp tag msg bk)"
proof -
  have d: "distinct (queue_names bk)" using t by (simp add: topology_def)
  then have same: "preserves msg bk (Requeued, bk)" by (simp add: preserves_def)
  show ?thesis
    using same parkDelivery_preserves [OF d] republish_preserves [OF t]
    by (auto simp: failed_message_def Let_def)
qed

lemma topology_deliver: "topology bk \<Longrightarrow> deliver q bk = Some (m, bk1) \<Longrightarrow> topology bk1"
  using deliver_bodies(2) [of bk q m bk1] by (auto simp: topology_def has_queue_iff)

lemma topology_declared: "distinct (queue_names bk) \<Longrightarrow> topology (declareTopology bk)"
  by (simp add: declareTopology_def eventTypes_def topology_def)

section \<open>Backoff\<close>

lemma retryBackoffSec_eq: "1 \<le> k \<Longrightarrow> retryBackoffSec k = min (5 * 2 ^ nat (k - 1)) 3600"
proof -
  assume k: "1 \<le> k"
  show ?thesis
  proof (cases "k - 1 > 10")
    case True
    then have "(2 :: int) ^ 10 \<le> 2 ^ nat (k - 1)" by (intro power_increasing) auto
    with True show ?thesis by (simp add: retryBackoffSec_def maxBackoffSec_def Let_def)
  next
    case False
    with k show ?thesis
      by (auto simp: retryBackoffSec_def maxBackoffSec_def backoffBaseSec_def Let_def min_def)
  qed
qed

lemma not_before_after: "t - millisecond < from_unix_milli (unix_milli t)"
proof -
  define q where "q = (t - unix_epoch) div millisecond"
  have "(t - unix_epoch) mod millisecond < millisecond" by (simp add: millisecond_def)
  moreover have "t - unix_epoch = q * millisecond + (t - unix_epoch) mod millisecond"
    by (simp add: q_def)
  ultimately show ?thesis by (simp add: from_unix_milli_def unix_milli_def q_def [symmetric])
qed

lemma headers_distinct [simp]: "headerNotBefore \<noteq> headerAttempts" "headerAttempts \<noteq> headerNotBefore"
  by (simp_all add: headerNotBefore_def headerAttempts_def)

lemma getAttempts_copy [simp]: "getAttempts (Some (copyHeaders h a)) = i32 a"
  by (simp add: getAttempts_def copyHeaders_def)

lemma getAttempts_side [simp]: "getAttempts (mg_headers (side_message now body h a b)) = i32 a"
  by (simp add: getAttempts_def copyHeaders_def side_message_def)

section \<open>Properties\<close>

text \<open>C36: A delivery that fails in a handler is never lost: whatever happens to the replacement publish
  (unreachable broker, send error, lost confirmation, refusal, unroutable key), after the
  delivery is settled its body is in the broker still, together with every other body that was there;
  and when the handler succeeds exactly its body leaves the broker.\<close>

theorem consume_loses_nothing:
  assumes "distinct (queue_names bk)" and "deliver (queuePrefix @ et) bk = Some (msg, bk1)"
    and "bk' = consume_delivery oc now stop handler et bk"
  shows "(stop \<or> handler \<lparr>qj_Type = canonicalEventType et, qj_Payload = mg_body msg\<rparr> \<noteq> None
            \<longrightarrow> bodies bk \<subseteq># bodies bk')
       \<and> (\<not> stop \<and> handler \<lparr>qj_Type = canonicalEventType et, qj_Payload = mg_body msg\<rparr> = None
            \<longrightarrow> bodies bk = add_mset (mg_body msg) (bodies bk'))"
proof -
  note d = deliver_bodies [OF assms(1,2)]
  have d1: "distinct (queue_names bk1)" using assms(1) d(2) by simp
  from settle_preserves [OF handleFailure_preserves [OF d1] d(3)] d bodies_requeue [OF d1 d(3)] assms(2,3)
  show ?thesis by (auto simp: consume_delivery_def Let_def split: option.splits)
qed

definition demo_msg :: amsg where
  "demo_msg = \<lparr>mg_body = Some (JInt 1), mg_headers = Some [headerAttempts \<mapsto> HInt32 0], mg_expiration = []\<rparr>"

definition demo_broker :: broker where
  "demo_broker = [(''census.id-sweep'', [demo_msg]), (''census.id-sweep.failed'', [demo_msg]),
     (''census.character-census'', []), (''census.achievement-census'', []), (''census.new-proxy'', [])]"

lemma demo_broker_topology: "topology demo_broker"
  by (simp add: topology_def demo_broker_def queue_names_def has_queue_def eventTypes_def)

theorem consume_loses_nothing_witness:
  "bodies demo_broker \<subseteq># bodies (consume_delivery (PubWait (EText []) False) 0 False (\<lambda>j. Some (EText [])) ''id-sweep'' demo_broker)"
proof -
  obtain msg bk1 where del: "deliver (queuePrefix @ ''id-sweep'') demo_broker = Some (msg, bk1)"
    by (simp add: deliver_def demo_broker_def queuePrefix_def)
  from consume_loses_nothing [OF _ del refl] demo_broker_topology show ?thesis by (simp add: topology_def)
qed

text \<open>The failed-queue consumer loses nothing either: with the declared topology, one delivery from a
  failed queue (republished, parked on a dead queue, or returned after any error or shutdown)
  keeps its body and every other body in the broker.\<close>

lemma failed_consumer_loses_nothing:
  assumes "topology bk"
  shows "bodies bk \<subseteq># bodies (failed_delivery maxAttempts inp fq bk)"
proof (cases "deliver fq bk")
  case None
  then show ?thesis by (simp add: failed_delivery_def)
next
  case (Some mb)
  obtain msg bk1 where mb: "deliver fq bk = Some (msg, bk1)" using Some by (cases mb) auto
  from assms have dist: "distinct (queue_names bk)" by (simp add: topology_def)
  note d = deliver_bodies [OF dist mb]
  from settle_preserves [OF failed_message_preserves [OF topology_deliver [OF assms mb]] d(3)] d(1) mb
  show ?thesis by (simp add: failed_delivery_def)
qed

text \<open>The retry ladder: the k-th failed attempt (k at least 1) waits min(5 * 2^(k-1), 3600) seconds;
  only poison payloads and missing handlers leave the ladder, for the dead queue.\<close>

lemma retry_ladder:
  assumes "1 \<le> k"
  shows "failureDecision e k =
     (if errors_is e ErrPoisonPayload \<or> errors_is e ErrNoHandler then \<lparr>fo_dead = True, fo_backoffSec = 0\<rparr>
      else \<lparr>fo_dead = False, fo_backoffSec = min (5 * 2 ^ nat (k - 1)) 3600\<rparr>)"
  using retryBackoffSec_eq [OF assms] by (simp add: failureDecision_def)

text \<open>The failed worker honours the ladder: a message that entered the failed queue at time now with
  a backoff of b seconds is republished no earlier than a millisecond before now + b seconds,
  whenever the worker picks it up.\<close>

lemma backoff_is_honoured:
  assumes "0 < b" and "msg = side_message now body h a b" and "now \<le> fi_now inp"
    and "b * second \<le> max_i64"
  shows "now + b * second - millisecond < republish_time inp msg"
proof -
  define nb where "nb = from_unix_milli (unix_milli (now + b * second))"
  have nb: "now + b * second - millisecond < nb" unfolding nb_def by (rule not_before_after)
  have hdr: "mg_headers msg = Some ((copyHeaders h a)(headerNotBefore \<mapsto> HInt64 (unix_milli (now + b * second))))"
    using assms(1,2) by (simp add: side_message_def)
  have upper: "nb \<le> now + b * second"
    by (simp add: nb_def from_unix_milli_def unix_milli_def)
       (metis (no_types) add.commute diff_add_cancel le_diff_eq minus_mod_eq_div_mult pos_mod_sign
          millisecond_def zero_less_numeral le_add_same_cancel2 diff_ge_0_iff_ge mult.commute)
  show ?thesis
  proof (cases "nb > fi_now inp")
    case False
    with nb show ?thesis using hdr by (simp add: republish_time_def remainingBackoff_def nb_def [symmetric] Let_def)
  next
    case True
    have "nb - fi_now inp \<le> max_i64" using upper assms(3,4) by linarith
    then have "time_sub nb (fi_now inp) = nb - fi_now inp"
      using True by (simp add: time_sub_def min_i64_def)
    with True nb show ?thesis
      using hdr by (simp add: republish_time_def remainingBackoff_def nb_def [symmetric] Let_def)
  qed
qed

text \<open>With a live failed-queue consumer one round through the ladder counts two attempts: the main
  consumer stores a + 1 attempts on the failed queue and the failed worker republishes with a + 2, so
  the successive waits of a message are 5, 20, 80, 320 seconds and not 5, 10, 20, 40.\<close>

lemma failed_round_adds_two:
  assumes "0 \<le> getAttempts (mg_headers msg)" and "getAttempts (mg_headers msg) < 2 ^ 31 - 2"
    and "\<not> errors_is e ErrPoisonPayload" and "\<not> errors_is e ErrNoHandler" and "knownEventType et"
    and "handleFailure PubAck now msg et e bk = (Acked, bk1)"
    and "failed = side_message now (mg_body msg) (mg_headers msg) (getAttempts (mg_headers msg) + 1)
           (retryBackoffSec (getAttempts (mg_headers msg) + 1))"
    and "failed_message maxAttempts inp et failed bk2 = (Acked, bk3)"
    and "getAttempts (mg_headers msg) + 2 < maxAttempts" and "\<not> fi_stop inp" and "fi_pub inp = PubAck"
    and "topology bk2"
  shows "bk1 = enqueue (failedQueueFor et) failed bk
     \<and> (\<exists>m. bk3 = enqueue (''census.'' @ et) m bk2 \<and> getAttempts (mg_headers m) = getAttempts (mg_headers msg) + 2)"
proof -
  let ?a = "getAttempts (mg_headers msg)"
  have i: "i64 (?a + 1) = ?a + 1" "i32 (?a + 1) = ?a + 1" "i64 (?a + 1 + 1) = ?a + 2" "i32 (?a + 2) = ?a + 2"
    using assms(1,2) by (auto simp: i64_id is_i64_def min_i64_def max_i64_def i32_id)
  have first: "bk1 = enqueue (failedQueueFor et) failed bk"
    using assms(3,4,6,7) i
    by (auto simp: handleFailure_def Let_def publishToFailed_def publishConfirmed_def accept_def route_def
        failureDecision_def split: if_splits)
  have fa: "getAttempts (mg_headers failed) = ?a + 1" using assms(7) i by simp
  have canon: "canonicalEventType et = et"
    using assms(5) by (auto simp: knownEventType_def eventTypes_def canonicalEventType_def trim_suffix_def has_suffix_def)
  let ?m = "\<lparr>mg_body = mg_body failed, mg_headers = Some (copyHeaders (mg_headers failed) (?a + 2)), mg_expiration = []\<rparr>"
  have "failed_message maxAttempts inp et failed bk2 = republish PubAck et ?m bk2"
    using assms(5,8-11) fa i canon by (auto simp: failed_message_def Let_def split: if_splits)
  then have "bk3 = snd (accept exchangeMain et ?m bk2)" using assms(8) by (simp add: republish_def)
  also have "\<dots> = enqueue (''census.'' @ et) ?m bk2"
    using known_routed [OF assms(12,5), of ?m] assms(5) by (auto simp: accept_def route_def exchangeMain_def split: if_splits)
  finally show ?thesis using first i by (intro conjI exI [of _ ?m]) auto
qed

end
