(* ===== verification/Publish_Jobs.thy ===== *)
theory Publish_Jobs
  imports Census_Handlers Rabbit_Queue
begin

text \<open>
  cmd/cli/publish.go: the publisher of id-sweep, character-census and achievement-census jobs. The
  repository and the queue are the record \<open>publish_ports\<close> of operations over an abstract world. The locale
  \<open>sweep_queue\<close> states what the publisher relies on, and it is interpreted on the PostgreSQL cursors and the
  RabbitMQ broker. The flag parser, signals and the ticker are inputs: the flags are a record, and the daemon runs for
  a given number of ticks before it is stopped.
\<close>

section \<open>Ranges and chunks\<close>

text \<open>\<open>maxIDFunc\<close> is \<open>None\<close> for a nil function.\<close>

definition computeIDSweepRange :: "u32 \<Rightarrow> u32 \<Rightarrow> u32 \<Rightarrow> bool \<Rightarrow> ('s \<Rightarrow> u32 result) option \<Rightarrow> 's \<Rightarrow> (u32 \<times> u32) result" where
  "computeIDSweepRange frm to cnt auto_mode maxIDFunc s =
     (if cnt = 0 then Inl (EText ''--count / --batch-size must be > 0'')
      else (let range = (if auto_mode \<or> (frm = 0 \<and> to = 0)
                         then (case maxIDFunc of
                                 None \<Rightarrow> Inl (EText ''maxIDFunc required when auto-discovering ID sweep range'')
                               | Some f \<Rightarrow> (case f s of
                                             Inl e \<Rightarrow> Inl (EWrap ''lookup max character id: '' e [])
                                           | Inr maxID \<Rightarrow> Inr (maxID + 1, maxID + cnt)))
                         else if frm > 0 \<and> to = 0 then Inr (frm, frm + cnt - 1)
                         else if to > 0 \<and> frm = 0 then Inr (1, to)
                         else Inr (frm, to))
            in case range of
                 Inl e \<Rightarrow> Inl e
               | Inr (f, t) \<Rightarrow>
                   if t < f then Inl (EText (''--to ('' @ show_u32 t @ '') must be >= --from ('' @ show_u32 f @ '')''))
                   else Inr (f, t)))"

definition sweep_job :: "u32 \<Rightarrow> u32 \<Rightarrow> string \<Rightarrow> QueueJob" where
  "sweep_job a b source =
     \<lparr>qj_Type = EventIDSweep, qj_Payload = Some (encode_IDSweep \<lparr>is_From = a, is_To = b, is_Source = source\<rparr>)\<rparr>"

definition chunk_end :: "u32 \<Rightarrow> u32 \<Rightarrow> u32 \<Rightarrow> u32" where
  "chunk_end start to cs = (let e = start + cs - 1 in if e > to \<or> e < start then to else e)"

lemma chunk_end_bounds: "start \<le> to \<Longrightarrow> start \<le> chunk_end start to cs \<and> chunk_end start to cs \<le> to"
  by (auto simp: chunk_end_def Let_def)

lemma u32_Suc: "(e :: u32) < to \<Longrightarrow> uint (e + 1) = uint e + 1"
  using uint_u32_less [of to] by (simp add: uint_plus_if_size word_size word_less_def del: uint_u32_less)

function build_loop :: "u32 \<Rightarrow> u32 \<Rightarrow> u32 \<Rightarrow> string \<Rightarrow> QueueJob list" where
  "build_loop start to cs source =
     (if start \<le> to
      then (let e = chunk_end start to cs
            in sweep_job start e source # (if e = to then [] else build_loop (e + 1) to cs source))
      else [])"
  by pat_completeness auto
termination
proof (relation "measure (\<lambda>(start, to, cs, source). nat (uint to + 1 - uint start))", goal_cases)
  case (2 start to cs source e)
  then have "start \<le> e" and lt: "e < to" using chunk_end_bounds [of start to cs] by auto
  with u32_Suc [OF lt] show ?case by (simp add: word_le_def word_less_def)
qed simp

declare build_loop.simps [simp del]

definition buildIDSweepJobs :: "u32 \<Rightarrow> u32 \<Rightarrow> u32 \<Rightarrow> string \<Rightarrow> QueueJob list" where
  "buildIDSweepJobs frm to chunkSize source =
     build_loop frm to (if chunkSize = 0 then 100 else chunkSize) source"

definition buildGapSweepJobs :: "(u32 \<times> u32) list \<Rightarrow> u32 \<Rightarrow> string \<Rightarrow> QueueJob list" where
  "buildGapSweepJobs gaps chunkSize source =
     concat (map (\<lambda>g. buildIDSweepJobs (fst g) (snd g) chunkSize source) gaps)"

section \<open>Publishing\<close>

record 's publish_ports =
  pp_Publish :: "QueueJob \<Rightarrow> 's \<Rightarrow> err option \<times> 's"
  pp_MaxID :: "'s \<Rightarrow> u32 result"
  pp_IDSweepCursor :: "'s \<Rightarrow> u32 result \<times> 's"
  pp_AdvanceIDSweepCursor :: "u32 \<Rightarrow> u32 \<Rightarrow> 's \<Rightarrow> err option \<times> 's"
  pp_FindIDGapsAfter :: "u32 \<Rightarrow> u32 \<Rightarrow> int \<Rightarrow> 's \<Rightarrow> (u32 \<times> u32) list result"
  pp_FillGapsCursor :: "'s \<Rightarrow> u32 result \<times> 's"
  pp_AdvanceFillGapsCursor :: "u32 \<Rightarrow> u32 \<Rightarrow> 's \<Rightarrow> err option \<times> 's"
  pp_ListStale :: "timestamp \<Rightarrow> int \<Rightarrow> 's \<Rightarrow> CharacterRecord list result"
  pp_List :: "CharacterFilter \<Rightarrow> int \<Rightarrow> int \<Rightarrow> 's \<Rightarrow> CharacterRecord list result"

text \<open>\<open>i\<close> is the index of the next job and \<open>n\<close> the number of all jobs; the result is the number published.\<close>

fun publish_from :: "'s publish_ports \<Rightarrow> nat \<Rightarrow> nat \<Rightarrow> QueueJob list \<Rightarrow> 's \<Rightarrow> nat \<times> err option \<times> 's" where
  "publish_from pp i n [] s = (n, None, s)"
| "publish_from pp i n (job # jobs) s =
     (case pp_Publish pp job s of
        (Some e, s') \<Rightarrow> (i, Some (EWrap (''publish '' @ CHR 0x22 # qj_Type job @ CHR 0x22 # '' job '' @ show_nat (i + 1)
            @ '' of '' @ show_nat n @ '': '') e []), s')
      | (None, s') \<Rightarrow> publish_from pp (Suc i) n jobs s')"

definition publishAll :: "'s publish_ports \<Rightarrow> QueueJob list \<Rightarrow> 's \<Rightarrow> nat \<times> err option \<times> 's" where
  "publishAll pp jobs s = publish_from pp 0 (length jobs) jobs s"

definition publishAutoIDSweep :: "'s publish_ports \<Rightarrow> u32 \<Rightarrow> u32 \<Rightarrow> string \<Rightarrow> 's \<Rightarrow> err option \<times> 's" where
  "publishAutoIDSweep pp cnt chunkSize source s =
     (if cnt = 0 then (Some (EText ''--count / --batch-size must be > 0''), s)
      else case pp_IDSweepCursor pp s of
             (Inl e, s1) \<Rightarrow> (Some (EWrap ''lookup id sweep cursor: '' e []), s1)
           | (Inr frm, s1) \<Rightarrow>
               if frm = 0 \<or> cnt > - 1 - frm
               then (Some (EText (''id sweep range overflows uint32: from='' @ show_u32 frm @ '' count='' @ show_u32 cnt)), s1)
               else (let to = frm + cnt - 1; nxt = to + 1;
                         jobs = buildIDSweepJobs frm to chunkSize source
                     in case publishAll pp jobs s1 of
                          (_, Some e, s2) \<Rightarrow> (Some e, s2)
                        | (_, None, s2) \<Rightarrow>
                            (case pp_AdvanceIDSweepCursor pp frm nxt s2 of
                               (Some e, s3) \<Rightarrow>
                                 (Some (EWrap (''advance id sweep cursor after publishing ['' @ show_u32 frm @ '','' @ show_u32 to
                                    @ '']: '') e []), s3)
                             | (None, s3) \<Rightarrow> (None, s3))))"

text \<open>The range end of the last published job, decoded from its payload.\<close>

definition fill_position :: "'s publish_ports \<Rightarrow> u32 \<Rightarrow> u32 \<Rightarrow> 's \<Rightarrow> (u32 \<times> u32) result \<times> 's" where
  "fill_position pp minID maxID s =
     (if minID \<noteq> 0 then (Inr (0, minID), s)
      else case pp_FillGapsCursor pp s of
             (Inl e, s1) \<Rightarrow> (Inl (EWrap ''lookup fill gaps cursor: '' e []), s1)
           | (Inr c, s1) \<Rightarrow>
               if c \<ge> maxID
               then (case pp_AdvanceFillGapsCursor pp c 0 s1 of
                       (Some e, s2) \<Rightarrow> (Inl (EWrap ''wrap fill gaps cursor: '' e []), s2)
                     | (None, s2) \<Rightarrow> (Inr (0, 0), s2))
               else (Inr (c, c), s1))"

definition fill_advance :: "'s publish_ports \<Rightarrow> bool \<Rightarrow> u32 \<Rightarrow> QueueJob list \<Rightarrow> nat \<Rightarrow> err option \<Rightarrow> 's \<Rightarrow> err option \<times> 's" where
  "fill_advance pp cursorMode cursorBefore jobs published pubErr s =
     (if cursorMode \<and> published > 0
      then (case decode_IDSweep (qj_Payload (jobs ! (published - 1))) of
              Inl e \<Rightarrow> (Some (EWrap ''decode last published fill-gaps job: '' e []), s)
            | Inr p \<Rightarrow>
                (case pp_AdvanceFillGapsCursor pp cursorBefore (is_To p) s of
                   (Some e, s') \<Rightarrow> (Some (EWrap (''advance fill gaps cursor to '' @ show_u32 (is_To p) @ '': '') e []), s')
                 | (None, s') \<Rightarrow> (pubErr, s')))
      else (pubErr, s))"

definition publishFillGapsIDSweep :: "'s publish_ports \<Rightarrow> u32 \<Rightarrow> u32 \<Rightarrow> string \<Rightarrow> u32 \<Rightarrow> 's \<Rightarrow> err option \<times> 's" where
  "publishFillGapsIDSweep pp cnt chunkSize source minID s =
     (if cnt = 0 then (Some (EText ''--count must be > 0 in --fill-gaps mode''), s)
      else case pp_MaxID pp s of
             Inl e \<Rightarrow> (Some (EWrap ''lookup max character id for gap fill: '' e []), s)
           | Inr maxID \<Rightarrow>
               if maxID = 0 then (None, s)
               else (case fill_position pp minID maxID s of
                       (Inl e, s1) \<Rightarrow> (Some e, s1)
                     | (Inr (cursorBefore, after_id), s1) \<Rightarrow>
                         (case pp_FindIDGapsAfter pp after_id maxID (uint cnt) s1 of
                            Inl e \<Rightarrow> (Some (EWrap ''find id gaps: '' e []), s1)
                          | Inr gaps \<Rightarrow>
                              if length gaps = 0 then (None, s1)
                              else (let jobs0 = buildGapSweepJobs gaps chunkSize source;
                                        jobs = (if word_of_nat (length jobs0) > cnt then take (unat cnt) jobs0 else jobs0)
                                    in case publishAll pp jobs s1 of
                                         (published, pubErr, s2) \<Rightarrow>
                                           fill_advance pp (minID = 0) cursorBefore jobs published pubErr s2))))"

section \<open>Commands\<close>

text \<open>\<open>fl_batchSize\<close> is \<open>None\<close> when the flag was not changed.\<close>

record sweep_flags =
  fl_auto :: bool
  fl_from :: u32
  fl_to :: u32
  fl_count :: u32
  fl_batchSize :: "u32 option"
  fl_chunkSize :: u32
  fl_source :: string
  fl_fillGaps :: bool
  fl_minID :: u32
  fl_daemon :: bool
  fl_daemonInterval :: duration

definition sweep_count :: "sweep_flags \<Rightarrow> u32" where
  "sweep_count fl = (case fl_batchSize fl of Some b \<Rightarrow> b | None \<Rightarrow> fl_count fl)"

text \<open>
  The rendering of a \<open>time.Duration\<close>: the fraction is printed with \<open>prec\<close> digits less its trailing zeros.
\<close>

definition show_frac :: "nat \<Rightarrow> nat \<Rightarrow> string" where
  "show_frac prec v =
     (let ds = show_nat (v mod 10 ^ prec);
          fr = rev (dropWhile (\<lambda>c. c = CHR ''0'') (rev (replicate (prec - length ds) CHR ''0'' @ ds)))
      in if prec = 0 \<or> fr = [] then [] else CHR ''.'' # fr)"

definition show_duration :: "duration \<Rightarrow> string" where
  "show_duration d =
     (let u = nat \<bar>d\<bar>;
          scaled = (\<lambda>prec. show_nat (u div 10 ^ prec) @ show_frac prec u);
          secs = u div 10 ^ 9; mins = secs div 60; hours = mins div 60
      in if u = 0 then ''0s''
         else (if d < 0 then ''-'' else []) @
           (if u < 10 ^ 3 then scaled 0 @ ''ns''
            else if u < 10 ^ 6 then scaled 3 @ [CHR 0xC2, CHR 0xB5, CHR ''s'']
            else if u < 10 ^ 9 then scaled 6 @ ''ms''
            else (if hours > 0 then show_nat hours @ ''h'' else [])
              @ (if mins > 0 then show_nat (mins mod 60) @ ''m'' else [])
              @ show_nat (secs mod 60) @ show_frac 9 u @ ''s''))"

text \<open>The value of \<open>--source\<close> is quoted as it is: it is taken to be printable and free of quotes and backslashes.\<close>

definition id_sweep_flags_ok :: "sweep_flags \<Rightarrow> err option" where
  "id_sweep_flags_ok fl =
     (if fl_daemon fl \<and> fl_daemonInterval fl \<le> 0
      then Some (EText (''invalid --daemon-interval '' @ show_duration (fl_daemonInterval fl) @ '': must be positive''))
      else if fl_source fl \<notin> {''auto'', ''lodestone''}
      then Some (EText (''invalid --source '' @ CHR 0x22 # fl_source fl @ CHR 0x22 # '': must be one of '' @ CHR 0x27 # ''auto'' @ CHR 0x27 # '', ''
              @ CHR 0x27 # ''lodestone'' @ [CHR 0x27]))
      else None)"

definition publishBatch :: "'s publish_ports \<Rightarrow> sweep_flags \<Rightarrow> 's \<Rightarrow> err option \<times> 's" where
  "publishBatch pp fl s =
     (if fl_fillGaps fl
      then publishFillGapsIDSweep pp (sweep_count fl) (fl_chunkSize fl) (fl_source fl) (fl_minID fl) s
      else if fl_auto fl \<or> (fl_from fl = 0 \<and> fl_to fl = 0)
      then publishAutoIDSweep pp (sweep_count fl) (fl_chunkSize fl) (fl_source fl) s
      else (case computeIDSweepRange (fl_from fl) (fl_to fl) (sweep_count fl) (fl_auto fl) (Some (pp_MaxID pp)) s of
              Inl e \<Rightarrow> (Some e, s)
            | Inr (a, b) \<Rightarrow>
                (let jobs = buildIDSweepJobs a b (fl_chunkSize fl) (fl_source fl)
                 in if length jobs = 0 then (None, s)
                    else (case publishAll pp jobs s of (_, e, s') \<Rightarrow> (e, s')))))"

text \<open>The daemon publishes once and then once per tick; it logs the errors and goes on.\<close>

fun daemon_ticks :: "'s publish_ports \<Rightarrow> sweep_flags \<Rightarrow> nat \<Rightarrow> 's \<Rightarrow> 's" where
  "daemon_ticks pp fl 0 s = s"
| "daemon_ticks pp fl (Suc n) s = daemon_ticks pp fl n (snd (publishBatch pp fl s))"

definition publishIDSweep :: "'s publish_ports \<Rightarrow> sweep_flags \<Rightarrow> nat \<Rightarrow> 's \<Rightarrow> err option \<times> 's" where
  "publishIDSweep pp fl ticks s =
     (case id_sweep_flags_ok fl of
        Some e \<Rightarrow> (Some e, s)
      | None \<Rightarrow>
          if \<not> fl_daemon fl then publishBatch pp fl s
          else (None, daemon_ticks pp fl ticks (snd (publishBatch pp fl s))))"

definition characterCensusCutoff :: "timestamp \<Rightarrow> duration \<Rightarrow> timestamp" where
  "characterCensusCutoff now olderThan = (if olderThan \<le> 0 then 0 else now - olderThan)"

definition publishCharacterCensus :: "'s publish_ports \<Rightarrow> timestamp \<Rightarrow> duration \<Rightarrow> int \<Rightarrow> 's \<Rightarrow> err option \<times> 's" where
  "publishCharacterCensus pp now olderThan limit s =
     (if limit \<le> 0 then (Some (EText ''--limit must be positive''), s)
      else case pp_ListStale pp (characterCensusCutoff now olderThan) limit s of
             Inl e \<Rightarrow> (Some (EWrap ''list stale: '' e []), s)
           | Inr stale \<Rightarrow>
               (case publishAll pp (map (\<lambda>c. CharacterCensusJob (cr_ID c)) stale) s of (_, e, s') \<Rightarrow> (e, s')))"

definition publishAchievementCensus :: "'s publish_ports \<Rightarrow> u32 \<Rightarrow> int \<Rightarrow> 's \<Rightarrow> err option \<times> 's" where
  "publishAchievementCensus pp charID limit0 s =
     (if charID > 0 then pp_Publish pp (AchievementCensusJob charID) s
      else (let limit = (if limit0 \<le> 0 then 1000 else limit0)
            in case pp_List pp no_filter limit 0 s of
                 Inl e \<Rightarrow> (Some (EWrap ''list characters: '' e []), s)
               | Inr chars \<Rightarrow>
                   (case publishAll pp (map (\<lambda>c. AchievementCensusJob (cr_ID c)) chars) s of (_, e, s') \<Rightarrow> (e, s'))))"

section \<open>Chunks partition the range\<close>

definition job_range :: "payload \<Rightarrow> u32 \<times> u32" where
  "job_range pl = (case decode_IDSweep pl of Inl e \<Rightarrow> (1, 0) | Inr p \<Rightarrow> (is_From p, is_To p))"

definition job_ranges :: "QueueJob list \<Rightarrow> (u32 \<times> u32) list" where
  "job_ranges jobs = map (\<lambda>j. job_range (qj_Payload j)) jobs"

lemma job_range_sweep_job [simp]: "job_range (qj_Payload (sweep_job a b source)) = (a, b)"
  by (simp add: job_range_def sweep_job_def decode_encode_IDSweep)

lemma job_ranges_simps [simp]:
  "job_ranges [] = []" "job_ranges (j # js) = job_range (qj_Payload j) # job_ranges js"
  "job_ranges (js @ ks) = job_ranges js @ job_ranges ks"
  by (simp_all add: job_ranges_def)

lemma chunk_end_int:
  assumes "0 < cs" and "start \<le> to"
  shows "uint (chunk_end start to cs) = min (uint to) (uint start + uint cs - 1)"
proof -
  let ?v = "uint start + uint cs - 1"
  have e: "uint (start + cs - 1) = ?v mod 2 ^ 32"
    by (simp add: uint_word_ariths mod_simps)
  have c: "1 \<le> uint cs" using assms(1) by (simp add: word_less_def)
  have b: "uint start < 2 ^ 32" "uint cs < 2 ^ 32" "uint to < 2 ^ 32" using uint_u32_less by auto
  have st: "uint start \<le> uint to" using assms(2) by (simp add: word_le_def)
  show ?thesis
  proof (cases "?v < 2 ^ 32")
    case True
    moreover have "0 \<le> ?v" using c uint_ge_0 [of start] by linarith
    ultimately have "uint (start + cs - 1) = ?v" unfolding e by (rule mod_pos_pos_trivial [rotated])
    with c st show ?thesis by (auto simp: chunk_end_def Let_def word_less_def min_def)
  next
    case False
    have "?v mod 2 ^ 32 = (?v - 2 ^ 32) mod 2 ^ 32" by (rule minus_mod_self2 [symmetric])
    also have "\<dots> = ?v - 2 ^ 32" using False b by (intro mod_pos_pos_trivial) linarith+
    finally have "?v mod 2 ^ 32 = ?v - 2 ^ 32" .
    then have "uint (start + cs - 1) < uint start" using e b by linarith
    moreover have "uint to \<le> ?v" using False b by linarith
    ultimately show ?thesis by (auto simp: chunk_end_def Let_def word_less_def min_def)
  qed
qed

lemma build_loop_partition:
  assumes "0 < cs"
  shows "apart (job_ranges (build_loop start to cs source))
    \<and> covers (job_ranges (build_loop start to cs source)) = {start..to}
    \<and> (\<forall>r\<in>set (job_ranges (build_loop start to cs source)).
         start \<le> fst r \<and> fst r \<le> snd r \<and> snd r \<le> to \<and> uint (snd r) - uint (fst r) < uint cs)"
  using assms
proof (induction start to cs source rule: build_loop.induct)
  case (1 start to cs source)
  let ?e = "chunk_end start to cs"
  show ?case
  proof (cases "start \<le> to")
    case False
    then show ?thesis by (simp add: build_loop.simps [of start to])
  next
    case True
    note b = chunk_end_bounds [OF True, of cs]
    have len: "uint ?e - uint start < uint cs" using chunk_end_int [OF 1(2) True] by simp
    show ?thesis
    proof (cases "?e = to")
      case True
      then have "build_loop start to cs source = [sweep_job start to source]"
        using \<open>start \<le> to\<close> by (simp add: build_loop.simps [of start to])
      with \<open>start \<le> to\<close> len True show ?thesis by simp
    next
      case False
      then have lt: "?e < to" using b order_le_neq_trans by blast
      then have suc: "uint (?e + 1) = uint ?e + 1" by (rule u32_Suc)
      have eq: "build_loop start to cs source = sweep_job start ?e source # build_loop (?e + 1) to cs source"
        using True False by (simp add: build_loop.simps [of start to] Let_def)
      note IH = 1(1) [OF True refl False 1(2)]
      have "{start..?e} \<union> {?e + 1..to} = {start..to}"
        using b suc by (auto simp: word_le_def)
      moreover have "?e < ?e + 1" "start \<le> ?e + 1" using suc b by (auto simp: word_less_def word_le_def)
      ultimately show ?thesis using IH b len lt by (auto simp: eq intro: order_less_le_trans order_trans)
    qed
  qed
qed

lemma build_types: "list_all (\<lambda>j. qj_Type j = EventIDSweep) (build_loop start to cs source)"
proof (induction start to cs source rule: build_loop.induct)
  case (1 start to cs source)
  then show ?case by (auto simp: build_loop.simps [of start to] Let_def sweep_job_def)
qed

lemma buildIDSweepJobs_types: "list_all (\<lambda>j. qj_Type j = EventIDSweep) (buildIDSweepJobs a b cs source)"
  by (simp add: buildIDSweepJobs_def build_types)

lemma gap_jobs_types: "list_all (\<lambda>j. qj_Type j = EventIDSweep) (buildGapSweepJobs gaps cs source)"
  using buildIDSweepJobs_types by (auto simp: buildGapSweepJobs_def list_all_iff)

lemma buildIDSweepJobs_partition:
  "apart (job_ranges (buildIDSweepJobs start to cs source))
    \<and> covers (job_ranges (buildIDSweepJobs start to cs source)) = {start..to}
    \<and> (\<forall>r\<in>set (job_ranges (buildIDSweepJobs start to cs source)).
         start \<le> fst r \<and> fst r \<le> snd r \<and> snd r \<le> to
         \<and> uint (snd r) - uint (fst r) < uint (if cs = 0 then 100 else cs))"
proof -
  have "0 < (if cs = 0 then 100 else cs)" by (simp add: word_neq_0_conv)
  from build_loop_partition [OF this] show ?thesis unfolding buildIDSweepJobs_def .
qed

lemma apart_append: "apart (xs @ ys) \<longleftrightarrow> apart xs \<and> apart ys \<and> (\<forall>x\<in>set xs. \<forall>y\<in>set ys. snd x < fst y)"
  by (auto simp: apart_def sorted_wrt_append)

lemma covers_mem: "r \<in> set rows \<Longrightarrow> fst r \<le> x \<Longrightarrow> x \<le> snd r \<Longrightarrow> x \<in> covers rows"
  by (auto simp: covers_def)

lemma covers_append: "covers (xs @ ys) = covers xs \<union> covers ys"
  by (auto simp: covers_def)

lemma gap_jobs_partition:
  assumes "apart gaps"
  shows "apart (job_ranges (buildGapSweepJobs gaps cs source))
    \<and> covers (job_ranges (buildGapSweepJobs gaps cs source)) = covers gaps
    \<and> (\<forall>r\<in>set (job_ranges (buildGapSweepJobs gaps cs source)).
         fst r \<le> snd r \<and> (\<exists>g\<in>set gaps. fst g \<le> fst r \<and> snd r \<le> snd g))"
  using assms
proof (induction gaps)
  case (Cons g gaps)
  let ?js = "buildIDSweepJobs (fst g) (snd g) cs source"
  have p: "apart (job_ranges ?js) \<and> covers (job_ranges ?js) = {fst g..snd g}
      \<and> (\<forall>r\<in>set (job_ranges ?js). fst g \<le> fst r \<and> fst r \<le> snd r \<and> snd r \<le> snd g)"
    using buildIDSweepJobs_partition [of "fst g" "snd g" cs source] by blast
  have eq: "job_ranges (buildGapSweepJobs (g # gaps) cs source) = job_ranges ?js @ job_ranges (buildGapSweepJobs gaps cs source)"
    by (simp add: buildGapSweepJobs_def)
  have IH: "apart (job_ranges (buildGapSweepJobs gaps cs source))"
      "covers (job_ranges (buildGapSweepJobs gaps cs source)) = covers gaps"
      "\<forall>r\<in>set (job_ranges (buildGapSweepJobs gaps cs source)).
         fst r \<le> snd r \<and> (\<exists>g\<in>set gaps. fst g \<le> fst r \<and> snd r \<le> snd g)"
    using Cons by auto
  have "snd x < fst y" if x: "x \<in> set (job_ranges ?js)" and y: "y \<in> set (job_ranges (buildGapSweepJobs gaps cs source))" for x y
  proof -
    obtain h where "h \<in> set gaps" "fst h \<le> fst y" using IH(3) y by blast
    moreover have "snd x \<le> snd g" using p x by blast
    ultimately show ?thesis using Cons.prems by fastforce
  qed
  with p IH show ?case unfolding eq apart_append covers_append by fastforce
qed (simp add: buildGapSweepJobs_def)

lemma uint_minus_one: "uint (- 1 :: u32) = max_uint32"
  by (simp add: unsigned_minus_1_eq_mask mask_eq_exp_minus_1 max_uint32_def)

section \<open>What the publisher relies on\<close>

text \<open>
  \<open>sent\<close> is the content of the id-sweep queue, \<open>cursor\<close> the stored forward cursor. An error of Publish leaves open
  whether the message was stored; a cursor changes only by the compare-and-set, or when it is created.
\<close>

locale sweep_queue =
  fixes pp :: "'s publish_ports" and sent :: "'s \<Rightarrow> payload list" and cursor :: "'s \<Rightarrow> int option"
  assumes publish_ok: "qj_Type job = EventIDSweep \<Longrightarrow> pp_Publish pp job s = (None, s') \<Longrightarrow> sent s' = sent s @ [qj_Payload job]"
    and publish_error: "qj_Type job = EventIDSweep \<Longrightarrow> pp_Publish pp job s = (Some e, s') \<Longrightarrow>
      sent s' = sent s \<or> sent s' = sent s @ [qj_Payload job]"
    and publish_cursor: "pp_Publish pp job s = (r, s') \<Longrightarrow> cursor s' = cursor s"
    and read_cursor: "pp_IDSweepCursor pp s = (c, s') \<Longrightarrow> sent s' = sent s \<and> (cursor s' = cursor s \<or> cursor s = None)"
    and read_value: "pp_IDSweepCursor pp s = (Inr i, s') \<Longrightarrow> cursor s' = Some (uint i)"
    and advance: "pp_AdvanceIDSweepCursor pp a b s = (r, s') \<Longrightarrow> sent s' = sent s
      \<and> (cursor s' = cursor s \<or> cursor s = None \<or> cursor s = Some (uint a) \<and> cursor s' = Some (uint b) \<and> a < b)"
begin

lemma publish_from_sent:
  assumes "list_all (\<lambda>j. qj_Type j = EventIDSweep) jobs" and "publish_from pp i n jobs s = (k, r, s')" and "n = i + length jobs"
  shows "i \<le> k \<and> k \<le> n \<and> (r = None \<longrightarrow> k = n) \<and> cursor s' = cursor s
    \<and> (sent s' = sent s @ map qj_Payload (take (k - i) jobs)
       \<or> k < n \<and> sent s' = sent s @ map qj_Payload (take (Suc (k - i)) jobs))"
  using assms
proof (induction jobs arbitrary: i s)
  case (Cons j jobs)
  obtain u s1 where u: "pp_Publish pp j s = (u, s1)" by (metis surj_pair)
  show ?case
  proof (cases u)
    case (Some e)
    with Cons.prems u have "k = i" "s' = s1" "r \<noteq> None" by auto
    with Cons.prems u Some publish_error [of j s e s1] publish_cursor [OF u] show ?thesis by auto
  next
    case None
    with Cons.prems u have rec: "publish_from pp (Suc i) n jobs s1 = (k, r, s')" by simp
    note IH = Cons.IH [OF _ rec]
    have "Suc i \<le> k" using IH Cons.prems by simp
    then have "k - i = Suc (k - Suc i)" by simp
    with IH Cons.prems publish_ok [of j s s1] publish_cursor [OF u] u None show ?thesis by auto
  qed
qed auto

lemma publishAll_sent:
  assumes "list_all (\<lambda>j. qj_Type j = EventIDSweep) jobs" and "publishAll pp jobs s = (k, r, s')"
  shows "k \<le> length jobs \<and> (r = None \<longrightarrow> k = length jobs) \<and> cursor s' = cursor s
    \<and> (sent s' = sent s @ map qj_Payload (take k jobs)
       \<or> k < length jobs \<and> sent s' = sent s @ map qj_Payload (take (Suc k) jobs))"
  using publish_from_sent [OF assms(1) assms(2) [unfolded publishAll_def]] by simp

definition sweep_post :: "int \<Rightarrow> 's \<Rightarrow> 's \<Rightarrow> bool" where
  "sweep_post c s s' \<longleftrightarrow>
    (\<exists>c' new. cursor s' = Some c' \<and> c \<le> c' \<and> sent s' = sent s @ new
      \<and> (\<forall>x. c \<le> uint x \<and> uint x < c' \<longrightarrow> (\<exists>pl\<in>set new. fst (job_range pl) \<le> x \<and> x \<le> snd (job_range pl))))"

lemma sweep_post_same: "cursor s' = Some c \<Longrightarrow> sent s' = sent s @ new \<Longrightarrow> sweep_post c s s'"
  unfolding sweep_post_def by force

lemma sweep_post_advance:
  assumes "cursor s' = Some (uint a + uint cnt)" and "uint a + uint cnt \<le> max_uint32"
    and "sent s' = sent s @ map qj_Payload (buildIDSweepJobs a (a + cnt - 1) cs source)"
  shows "sweep_post (uint a) s s'"
proof -
  have "\<exists>pl\<in>set (map qj_Payload (buildIDSweepJobs a (a + cnt - 1) cs source)). fst (job_range pl) \<le> x \<and> x \<le> snd (job_range pl)"
    if x: "uint a \<le> uint x" "uint x < uint a + uint cnt" for x
  proof -
    have "uint (a + cnt) = uint a + uint cnt" using assms(2) by (simp add: uint_plus_if_size word_size max_uint32_def)
    moreover have "1 \<le> uint a + uint cnt" using x uint_ge_0 [of x] by linarith
    ultimately have "uint (a + cnt - 1) = uint a + uint cnt - 1" by (simp add: uint_sub_if_size)
    then have "x \<in> {a..a + cnt - 1}" using x by (simp add: word_le_def)
    then have "x \<in> covers (job_ranges (buildIDSweepJobs a (a + cnt - 1) cs source))"
      using buildIDSweepJobs_partition [of a "a + cnt - 1" cs source] by simp
    then show ?thesis by (auto simp: covers_def job_ranges_def)
  qed
  with assms(1,3) show ?thesis unfolding sweep_post_def by force
qed

lemma sweep_post_trans:
  assumes "sweep_post c s s1" and "\<And>c1. cursor s1 = Some c1 \<Longrightarrow> sweep_post c1 s1 s'"
  shows "sweep_post c s s'"
proof -
  obtain c1 n1 where 1: "cursor s1 = Some c1" "c \<le> c1" "sent s1 = sent s @ n1"
      "\<forall>x. c \<le> uint x \<and> uint x < c1 \<longrightarrow> (\<exists>pl\<in>set n1. fst (job_range pl) \<le> x \<and> x \<le> snd (job_range pl))"
    using assms(1) unfolding sweep_post_def by blast
  obtain c2 n2 where 2: "cursor s' = Some c2" "c1 \<le> c2" "sent s' = sent s1 @ n2"
      "\<forall>x. c1 \<le> uint x \<and> uint x < c2 \<longrightarrow> (\<exists>pl\<in>set n2. fst (job_range pl) \<le> x \<and> x \<le> snd (job_range pl))"
    using assms(2) [OF 1(1)] unfolding sweep_post_def by blast
  have "\<exists>pl\<in>set (n1 @ n2). fst (job_range pl) \<le> x \<and> x \<le> snd (job_range pl)" if "c \<le> uint x" "uint x < c2" for x
    using 1(4) [rule_format, of x] 2(4) [rule_format, of x] that by (cases "uint x < c1") auto
  with 1(2,3) 2(1-3) show ?thesis unfolding sweep_post_def by (intro exI [of _ c2] exI [of _ "n1 @ n2"]) auto
qed

lemma auto_sweep:
  assumes "publishAutoIDSweep pp cnt cs source s = (r, s')" and "cursor s = Some c"
  shows "sweep_post c s s'"
proof (cases "cnt = 0")
  case True
  with assms show ?thesis by (simp add: publishAutoIDSweep_def sweep_post_same [where new = "[]"])
next
  case False
  obtain x s1 where x: "pp_IDSweepCursor pp s = (x, s1)" by (metis surj_pair)
  have s1: "sent s1 = sent s" "cursor s1 = Some c" using read_cursor [OF x] assms(2) by auto
  show ?thesis
  proof (cases x)
    case (Inl e)
    with assms x False s1 show ?thesis by (simp add: publishAutoIDSweep_def sweep_post_same [where new = "[]"])
  next
    case (Inr a)
    have c: "c = uint a" using read_value [OF x [unfolded Inr]] s1 by simp
    let ?jobs = "buildIDSweepJobs a (a + cnt - 1) cs source"
    obtain k e s2 where p: "publishAll pp ?jobs s1 = (k, e, s2)" by (metis surj_pair)
    note P = publishAll_sent [OF buildIDSweepJobs_types p]
    obtain new where s2: "cursor s2 = Some c" "sent s2 = sent s @ new" using P s1 by auto
    obtain v s3 where v: "pp_AdvanceIDSweepCursor pp a (a + cnt - 1 + 1) s2 = (v, s3)" by (metis surj_pair)
    show ?thesis
    proof (cases "(a = 0 \<or> cnt > - 1 - a) \<or> e \<noteq> None")
      case True
      with assms x Inr False p have "s' = s1 \<or> s' = s2"
        by (auto simp: publishAutoIDSweep_def Let_def split: if_splits)
      with s1 s2 sweep_post_same [of s' c s] show ?thesis by (metis append_Nil2)
    next
      case ok: False
      then have "uint cnt \<le> uint (- 1 - a)" by (simp add: word_le_def [symmetric] not_less)
      moreover have "uint (- 1 - a) = max_uint32 - uint a"
        by (simp add: uint_sub_if_size uint_minus_one)
      ultimately have bd: "uint a + uint cnt \<le> max_uint32" by simp
      then have sum: "uint (a + cnt) = uint a + uint cnt"
        by (simp add: uint_plus_if_size word_size max_uint32_def)
      from ok assms x Inr False p v have "s' = s3" by (auto simp: publishAutoIDSweep_def Let_def split: if_splits option.splits)
      with advance [OF v] P s1 s2 ok sum have s': "sent s' = sent s @ map qj_Payload ?jobs" "sent s' = sent s @ new"
          "cursor s' = Some c \<or> cursor s' = Some (uint a + uint cnt)" by auto
      from s'(3) sweep_post_same [OF _ s'(2)] sweep_post_advance [OF _ bd s'(1)] c show ?thesis by blast
    qed
  qed
qed

lemma auto_batch:
  assumes "\<not> fl_fillGaps fl" and "fl_auto fl \<or> fl_from fl = 0 \<and> fl_to fl = 0" and "cursor s = Some c"
  shows "sweep_post c s (snd (publishBatch pp fl s))"
proof -
  have "publishBatch pp fl s = publishAutoIDSweep pp (sweep_count fl) (fl_chunkSize fl) (fl_source fl) s"
    using assms(1,2) by (simp add: publishBatch_def)
  then show ?thesis using auto_sweep [OF _ assms(3)] by (metis prod.collapse)
qed

lemma auto_daemon:
  assumes "\<not> fl_fillGaps fl" and "fl_auto fl \<or> fl_from fl = 0 \<and> fl_to fl = 0" and "cursor s = Some c"
  shows "sweep_post c s (daemon_ticks pp fl n s)"
  using assms(3)
proof (induction n arbitrary: s c)
  case 0
  then show ?case by (simp add: sweep_post_same [where new = "[]"])
next
  case (Suc n)
  show ?case using sweep_post_trans [OF auto_batch [OF assms(1,2) Suc.prems] Suc.IH] by simp
qed

lemma auto_run:
  assumes "\<not> fl_fillGaps fl" and "fl_auto fl \<or> fl_from fl = 0 \<and> fl_to fl = 0" and "cursor s = Some c"
  shows "sweep_post c s (snd (publishIDSweep pp fl n s))"
proof -
  have "sweep_post c s (daemon_ticks pp fl n (snd (publishBatch pp fl s)))"
    using auto_daemon [OF assms, of "Suc n"] by simp
  with auto_batch [OF assms] sweep_post_same [OF assms(3), of s "[]"] show ?thesis
    by (auto simp: publishIDSweep_def split: option.split)
qed

end

text \<open>The gap scanner: \<open>mark\<close> is the stored gap cursor, \<open>ids\<close> the stored character ids.\<close>

locale gap_scanner = sweep_queue pp sent cursor
  for pp :: "'s publish_ports" and sent :: "'s \<Rightarrow> payload list" and cursor :: "'s \<Rightarrow> int option" +
  fixes mark :: "'s \<Rightarrow> int option" and ids :: "'s \<Rightarrow> u32 set"
  assumes publish_mark: "pp_Publish pp job s = (r, s') \<Longrightarrow> mark s' = mark s \<and> ids s' = ids s"
    and max_stored: "pp_MaxID pp s = Inr m \<Longrightarrow> m \<noteq> 0 \<Longrightarrow> m \<in> ids s"
    and gaps_exact: "pp_FindIDGapsAfter pp a m l s = Inr gs \<Longrightarrow> apart gs \<and> (\<forall>g\<in>set gs. fst g \<le> snd g)
      \<and> covers gs = {x. a < x \<and> x \<le> (if length gs < gap_limit l then m else snd (last gs)) \<and> x \<notin> ids s}"
    and gaps_below: "pp_FindIDGapsAfter pp a m l s = Inr gs \<Longrightarrow> g \<in> set gs \<Longrightarrow> snd g \<le> m"
    and read_mark: "pp_FillGapsCursor pp s = (c, s') \<Longrightarrow> mark s = Some x \<Longrightarrow>
      sent s' = sent s \<and> ids s' = ids s \<and> mark s' = mark s"
    and read_mark_value: "pp_FillGapsCursor pp s = (Inr i, s') \<Longrightarrow> mark s' = Some (uint i)"
    and advance_mark: "pp_AdvanceFillGapsCursor pp a b s = (r, s') \<Longrightarrow> mark s = Some (uint a) \<Longrightarrow>
      sent s' = sent s \<and> ids s' = ids s \<and> (mark s' = mark s \<or> mark s' = Some (uint b))"
begin

lemma publish_from_mark: "publish_from pp i n jobs s = (k, r, s') \<Longrightarrow> mark s' = mark s \<and> ids s' = ids s"
proof (induction jobs arbitrary: i s)
  case (Cons j jobs)
  obtain u s1 where u: "pp_Publish pp j s = (u, s1)" by (metis surj_pair)
  with Cons publish_mark [OF u] show ?case by (cases u) auto
qed simp

text \<open>
  Publishing a prefix of jobs with separated ranges and moving the mark to the end of the last one leaves no uncovered
  id below the new mark.
\<close>

lemma advance_covers:
  assumes "apart (job_ranges jobs)" and "\<forall>r\<in>set (job_ranges jobs). fst r \<le> snd r"
    and "x \<in> covers (job_ranges jobs)" and "0 < k" and "k \<le> length jobs" and "x \<le> snd (job_range (qj_Payload (jobs ! (k - 1))))"
  shows "\<exists>j\<in>set (take k jobs). fst (job_range (qj_Payload j)) \<le> x \<and> x \<le> snd (job_range (qj_Payload j))"
proof -
  have ne: "job_ranges jobs \<noteq> []" using assms(3) by auto
  have tk: "take k (job_ranges jobs) = job_ranges (take k jobs)" by (simp add: job_ranges_def take_map)
  have "last (take k (job_ranges jobs)) = job_range (qj_Payload (jobs ! (k - 1)))"
    using assms(4,5) by (cases k) (auto simp: job_ranges_def take_Suc_conv_app_nth)
  with covers_take [OF assms(1,2,4) ne] assms(3,6) have "x \<in> covers (job_ranges (take k jobs))"
    by (simp add: tk)
  then show ?thesis by (auto simp: covers_def job_ranges_def)
qed

lemma fill_gap_facts:
  assumes "pp_FindIDGapsAfter pp c m l s = Inr gaps" and "m \<in> ids s"
  shows "r \<in> set (job_ranges (buildGapSweepJobs gaps cs source)) \<Longrightarrow> c < snd r \<and> snd r < m"
    and "r \<in> set (job_ranges (buildGapSweepJobs gaps cs source)) \<Longrightarrow> c < x \<Longrightarrow> x \<le> snd r \<Longrightarrow> x \<notin> ids s
      \<Longrightarrow> x \<in> covers (job_ranges (buildGapSweepJobs gaps cs source))"
    and "gaps \<noteq> [] \<Longrightarrow> \<exists>x. c < x \<and> x < m \<and> x \<notin> ids s"
proof -
  note G = gaps_exact [OF assms(1)]
  note P = gap_jobs_partition [OF conjunct1 [OF G], of cs source]
  obtain B where cov: "covers gaps = {x. c < x \<and> x \<le> B \<and> x \<notin> ids s}" using G by blast
  have le: "snd g \<le> m" if "g \<in> set gaps" for g using gaps_below [OF assms(1) that] .
  have ends: "snd r \<in> covers gaps" if "r \<in> set (job_ranges (buildGapSweepJobs gaps cs source))" for r
  proof -
    have "fst r \<le> snd r" using P that by blast
    with that have "snd r \<in> covers (job_ranges (buildGapSweepJobs gaps cs source))" by (rule covers_mem) simp
    then show ?thesis using P by simp
  qed
  show "c < snd r \<and> snd r < m" if "r \<in> set (job_ranges (buildGapSweepJobs gaps cs source))"
  proof -
    have "c < snd r" "snd r \<notin> ids s" using ends [OF that] by (simp_all add: cov)
    moreover have "\<exists>g\<in>set gaps. fst g \<le> fst r \<and> snd r \<le> snd g" using P that by simp
    then obtain g where "g \<in> set gaps" "snd r \<le> snd g" by (elim bexE conjE)
    then have "snd r \<le> m" using le [of g] by simp
    ultimately show ?thesis using assms(2) by (metis order_le_neq_trans)
  qed
  show "x \<in> covers (job_ranges (buildGapSweepJobs gaps cs source))"
    if "r \<in> set (job_ranges (buildGapSweepJobs gaps cs source))" "c < x" "x \<le> snd r" "x \<notin> ids s"
  proof -
    have "snd r \<le> B" using ends [OF that(1)] by (simp add: cov)
    then have "x \<in> covers gaps" using that by (simp add: cov)
    then show ?thesis using P by simp
  qed
  show "\<exists>x. c < x \<and> x < m \<and> x \<notin> ids s" if ne: "gaps \<noteq> []"
  proof -
    obtain g where g: "g \<in> set gaps" using ne by (cases gaps) auto
    then have "snd g \<in> covers gaps" using G by (intro covers_mem) auto
    then have "c < snd g" "snd g \<notin> ids s" by (simp_all add: cov)
    with le [OF g] assms(2) show ?thesis by (metis order_le_neq_trans)
  qed
qed

definition fill_post :: "u32 \<Rightarrow> u32 \<Rightarrow> 's \<Rightarrow> 's \<Rightarrow> bool" where
  "fill_post c m s s' \<longleftrightarrow>
    (\<exists>c'. mark s' = Some (uint c') \<and> c \<le> c' \<and> c' < m
    \<and> (\<forall>x. c < x \<and> x \<le> c' \<and> x \<notin> ids s \<longrightarrow>
          (\<exists>pl\<in>set (drop (length (sent s)) (sent s')). fst (job_range pl) \<le> x \<and> x \<le> snd (job_range pl)))
    \<and> ((\<forall>x. c < x \<and> x < m \<longrightarrow> x \<in> ids s) \<longrightarrow> c' = c \<and> sent s' = sent s))"

lemma fill_post_same:
  assumes "mark s' = Some (uint c)" and "c < m" and "sent s' = sent s \<or> (\<exists>x. c < x \<and> x < m \<and> x \<notin> ids s)"
  shows "fill_post c m s s'"
  unfolding fill_post_def using assms by (intro exI [of _ c]) (auto dest: leD)

lemma fill_advance_post:
  assumes s1: "sent s1 = sent s" "ids s1 = ids s" "mark s1 = Some (uint c)" and "c < m" and "m \<in> ids s"
    and gaps: "pp_FindIDGapsAfter pp c m l s1 = Inr gaps" "gaps \<noteq> []"
    and jobs: "jobs = take n (buildGapSweepJobs gaps cs source)"
    and pub: "publishAll pp jobs s1 = (k, e, s2)"
    and adv: "fill_advance pp True c jobs k e s2 = (r, s')"
  shows "fill_post c m s s'"
proof -
  let ?js = "buildGapSweepJobs gaps cs source"
  have mi: "m \<in> ids s1" using s1(2) assms(5) by simp
  note F = fill_gap_facts(1,2) [OF gaps(1) mi, where cs = cs and source = source] fill_gap_facts(3) [OF gaps(1) mi]
  have missing: "\<exists>x. c < x \<and> x < m \<and> x \<notin> ids s" using F(3) [OF gaps(2)] s1(2) by simp
  have ty: "list_all (\<lambda>j. qj_Type j = EventIDSweep) jobs"
    using gap_jobs_types [of gaps cs source] jobs by (auto simp: list_all_iff dest: in_set_takeD)
  note S = publishAll_sent [OF ty pub]
  have s2: "mark s2 = Some (uint c)" "ids s2 = ids s1"
    using publish_from_mark [OF pub [unfolded publishAll_def]] s1(3) by simp_all
  show ?thesis
  proof (cases "mark s' = Some (uint c)")
    case True
    then show ?thesis using fill_post_same assms(4) missing by blast
  next
    case False
    with adv s2(1) obtain p where k: "0 < k" and p: "decode_IDSweep (qj_Payload (jobs ! (k - 1))) = Inr p"
        and "\<exists>q. pp_AdvanceFillGapsCursor pp c (is_To p) s2 = (q, s')"
      by (auto simp: fill_advance_def split: if_splits sum.splits prod.splits option.splits)
    then obtain q where "pp_AdvanceFillGapsCursor pp c (is_To p) s2 = (q, s')" by blast
    from advance_mark [OF this s2(1)] s2(1) False
    have s': "mark s' = Some (uint (is_To p))" "sent s' = sent s2" by auto
    have kl: "k \<le> length ?js" "k \<le> length jobs" using S jobs by auto
    have nth: "jobs ! (k - 1) = ?js ! (k - 1)" "take k jobs = take k ?js"
      using k kl jobs by (auto simp: nth_take min_absorb1)
    let ?r = "job_range (qj_Payload (?js ! (k - 1)))"
    have To: "is_To p = snd ?r" using p nth(1) by (simp add: job_range_def)
    have "?js ! (k - 1) \<in> set ?js" using k kl(1) by (intro nth_mem) linarith
    then have r: "?r \<in> set (job_ranges ?js)" by (simp add: job_ranges_def)
    have sub: "set (map qj_Payload (take k ?js)) \<subseteq> set (drop (length (sent s)) (sent s'))"
      using S s'(2) s1(1) nth(2) set_take_subset_set_take [of k "Suc k" jobs] by auto
    have "\<exists>pl\<in>set (drop (length (sent s)) (sent s')). fst (job_range pl) \<le> x \<and> x \<le> snd (job_range pl)"
      if x: "c < x" "x \<le> snd ?r" "x \<notin> ids s" for x
    proof -
      have "x \<in> covers (job_ranges ?js)" using F(2) [OF r x(1,2)] x(3) s1(2) by simp
      from advance_covers [OF _ _ this k kl(1) x(2)] gap_jobs_partition [of gaps cs source] gaps_exact [OF gaps(1)]
      obtain j where "j \<in> set (take k ?js)" "fst (job_range (qj_Payload j)) \<le> x" "x \<le> snd (job_range (qj_Payload j))"
        by blast
      with sub show ?thesis by (auto intro!: bexI [of _ "qj_Payload j"])
    qed
    with s'(1) To F(1) [OF r] missing show ?thesis
      unfolding fill_post_def by (intro exI [of _ "snd ?r"]) auto
  qed
qed

lemma fill_run:
  assumes "publishFillGapsIDSweep pp cnt cs source 0 s = (r, s')" and "mark s = Some (uint c)"
    and "pp_MaxID pp s = Inr m" and "c < m"
  shows "fill_post c m s s'"
proof (cases "cnt = 0")
  case True
  then show ?thesis using assms fill_post_same by (simp add: publishFillGapsIDSweep_def)
next
  case False
  have m0: "m \<noteq> 0" using assms(4) by (metis word_not_simps(1))
  have mid: "m \<in> ids s" using max_stored [OF assms(3) m0] .
  obtain q s1 where q: "pp_FillGapsCursor pp s = (q, s1)" by (metis surj_pair)
  have s1: "sent s1 = sent s" "ids s1 = ids s" "mark s1 = Some (uint c)" using read_mark [OF q assms(2)] assms(2) by auto
  show ?thesis
  proof (cases q)
    case (Inl e)
    with assms q m0 False s1 fill_post_same show ?thesis by (simp add: publishFillGapsIDSweep_def fill_position_def)
  next
    case (Inr c0)
    with read_mark_value q s1(3) have "c0 = c" by (metis option.inject word_uint_eqI)
    with Inr q assms(4) have pos: "fill_position pp 0 m s = (Inr (c, c), s1)"
      by (auto simp: fill_position_def dest: leD)
    obtain f where f: "pp_FindIDGapsAfter pp c m (uint cnt) s1 = f" by simp
    show ?thesis
    proof (cases "\<exists>gaps. f = Inr gaps \<and> gaps \<noteq> []")
      case True
      then obtain gaps where g: "pp_FindIDGapsAfter pp c m (uint cnt) s1 = Inr gaps" "gaps \<noteq> []" using f by auto
      let ?js = "buildGapSweepJobs gaps cs source"
      define jobs where "jobs = (if word_of_nat (length ?js) > cnt then take (unat cnt) ?js else ?js)"
      then obtain n where n: "jobs = take n ?js" by (metis take_all order_refl)
      obtain k e s2 where p: "publishAll pp jobs s1 = (k, e, s2)" by (metis surj_pair)
      from assms(1,3) False m0 pos g p have "fill_advance pp True c jobs k e s2 = (r, s')"
        by (simp add: publishFillGapsIDSweep_def jobs_def [symmetric])
      from fill_advance_post [OF s1 assms(4) mid g n p this] show ?thesis .
    next
      case no: False
      with assms(1,3) False m0 pos f have "s' = s1"
        by (auto simp: publishFillGapsIDSweep_def split: sum.splits)
      with s1 assms(4) fill_post_same show ?thesis by simp
    qed
  qed
qed

end

section \<open>PostgreSQL and RabbitMQ as provider\<close>

text \<open>The world of the publisher: the database, the broker and the number of port calls made.\<close>

record publish_world =
  pb_db :: census_db
  pb_broker :: broker
  pb_tick :: nat

record publish_inputs =
  bi_census :: census_inputs
  bi_outcome :: "nat \<Rightarrow> pub_outcome"

definition pub_call :: "publish_inputs \<Rightarrow> (census_env \<Rightarrow> census_db \<Rightarrow> 'r \<times> census_db) \<Rightarrow> publish_world \<Rightarrow> 'r \<times> publish_world" where
  "pub_call inp op w =
     (case op (env_at (bi_census inp) (pb_tick w)) (pb_db w) of
        (r, db') \<Rightarrow> (r, w\<lparr>pb_db := db', pb_tick := Suc (pb_tick w)\<rparr>))"

text \<open>The reads run in the environment of the current tick.\<close>

definition pg_publish :: "publish_inputs \<Rightarrow> publish_world publish_ports" where
  "pg_publish inp =
     \<lparr>pp_Publish = (\<lambda>job w. case Publish (bi_outcome inp (pb_tick w)) job (pb_broker w) of
         (r, bk) \<Rightarrow> (r, w\<lparr>pb_broker := bk, pb_tick := Suc (pb_tick w)\<rparr>)),
      pp_MaxID = (\<lambda>w. MaxID (env_at (bi_census inp) (pb_tick w)) (pb_db w)),
      pp_IDSweepCursor = pub_call inp IDSweepCursor,
      pp_AdvanceIDSweepCursor = (\<lambda>a b. pub_call inp (\<lambda>env. AdvanceIDSweepCursor env a b)),
      pp_FindIDGapsAfter = (\<lambda>a m l w. FindIDGapsAfter (env_at (bi_census inp) (pb_tick w)) a m l (pb_db w)),
      pp_FillGapsCursor = pub_call inp FillGapsCursor,
      pp_AdvanceFillGapsCursor = (\<lambda>a b. pub_call inp (\<lambda>env. AdvanceFillGapsCursor env a b)),
      pp_ListStale = (\<lambda>t l w. ListStale (env_at (bi_census inp) (pb_tick w)) t l (pb_db w)),
      pp_List = (\<lambda>f l o' w. Character_List (env_at (bi_census inp) (pb_tick w)) f l o' (pb_db w))\<rparr>"

definition queued :: "publish_world \<Rightarrow> payload list" where
  "queued w = (case map_of (pb_broker w) ''census.id-sweep'' of None \<Rightarrow> [] | Some ms \<Rightarrow> map mg_body ms)"

definition next_id :: "publish_world \<Rightarrow> int option" where "next_id w = db_next_id (pb_db w)"
definition last_queued :: "publish_world \<Rightarrow> int option" where "last_queued w = db_last_queued (pb_db w)"
definition row_ids :: "publish_world \<Rightarrow> u32 set" where "row_ids w = cr_ID ` set (db_characters (pb_db w))"

lemma accept_sweep:
  "accept exchangeMain EventIDSweep m bk =
     (if has_queue ''census.id-sweep'' bk then (True, enqueue ''census.id-sweep'' m bk) else (False, bk))"
  by (simp add: accept_def route_def exchangeMain_def EventIDSweep_def knownEventType_def eventTypes_def)

lemma queue_present: "has_queue q bk \<Longrightarrow> \<exists>ms. map_of bk q = Some ms"
  by (induction bk) (auto simp: has_queue_def)

lemma pg_publish_sent:
  assumes "qj_Type job = EventIDSweep" and "pp_Publish (pg_publish inp) job w = (r, w')"
  shows "(r = None \<longrightarrow> queued w' = queued w @ [qj_Payload job])
     \<and> (queued w' = queued w \<or> queued w' = queued w @ [qj_Payload job])"
  using assms
  by (auto simp: pg_publish_def Publish_def publishConfirmed_def stored_def accept_sweep queued_def map_of_enqueue
      split: prod.splits pub_outcome.splits if_splits option.splits dest!: queue_present)

lemma pg_publish_keeps:
  "pp_Publish (pg_publish inp) job w = (r, w') \<Longrightarrow> pb_db w' = pb_db w"
  by (auto simp: pg_publish_def split: prod.splits)

lemma pub_call_queued: "pub_call inp op w = (r, w') \<Longrightarrow> queued w' = queued w"
  by (auto simp: pub_call_def queued_def split: prod.splits)

text \<open>The cursor statements touch their own cursor only.\<close>

lemma IDSweepCursor_effect:
  assumes "IDSweepCursor env db = (r, db')"
  shows "db' = db \<or> db_next_id db = None \<and> db' = db\<lparr>db_next_id := Some (max_id db + 1)\<rparr>"
    and "r = Inr i \<Longrightarrow> db_next_id db' = Some (uint i)"
proof -
  show "db' = db \<or> db_next_id db = None \<and> db' = db\<lparr>db_next_id := Some (max_id db + 1)\<rparr>"
    using assms by (auto simp: IDSweepCursor_def exec_write_def Let_def split: if_splits option.splits sum.splits)
  have "uint (word_of_int (max_id db) + 1 :: u32) = max_id db + 1" if "\<not> max_uint32 \<le> max_id db"
    using uint_of_u32 [of "max_id db + 1"] max_id_nonneg [of db] that by simp
  then show "r = Inr i \<Longrightarrow> db_next_id db' = Some (uint i)"
    using assms
    by (auto simp: IDSweepCursor_def exec_write_def fetch_one_def Let_def uint_of_u32
        split: if_splits option.splits sum.splits)
qed

lemma FillGapsCursor_effect:
  assumes "FillGapsCursor env db = (r, db')"
  shows "db' = db \<or> db_last_queued db = None \<and> db' = db\<lparr>db_last_queued := Some 0\<rparr>"
    and "r = Inr i \<Longrightarrow> db_last_queued db' = Some (uint i)"
proof -
  show "db' = db \<or> db_last_queued db = None \<and> db' = db\<lparr>db_last_queued := Some 0\<rparr>"
    using assms by (auto simp: FillGapsCursor_def exec_write_def Let_def split: if_splits option.splits sum.splits)
  show "r = Inr i \<Longrightarrow> db_last_queued db' = Some (uint i)"
    using assms
    by (auto simp: FillGapsCursor_def exec_write_def fetch_one_def Let_def uint_of_u32 max_uint32_def
        split: if_splits option.splits sum.splits)
qed

lemma AdvanceIDSweepCursor_effect:
  assumes "AdvanceIDSweepCursor env a b db = (r, db')"
  shows "db' = db \<or> db_next_id db = None \<and> (\<exists>i. db' = db\<lparr>db_next_id := i\<rparr>)
    \<or> db_next_id db = Some (uint a) \<and> a < b \<and> db' = db\<lparr>db_next_id := Some (uint b)\<rparr>"
proof (cases "a = 0 \<or> b \<le> a")
  case False
  let ?db1 = "if db_next_id db = Some (uint a) then db\<lparr>db_next_id := Some (uint b)\<rparr> else db"
  obtain x d where x: "exec_write env 0 ''advance id sweep cursor'' db ?db1 = (x, d)" by (metis surj_pair)
  have d: "d = db \<or> d = ?db1" using exec_write_cases [of env 0 "''advance id sweep cursor''" db ?db1] x by simp
  obtain y d2 where y: "IDSweepCursor (later 2 env) d = (y, d2)" by (metis surj_pair)
  have "db' = d \<or> db_next_id db \<noteq> Some (uint a) \<and> db' = d2"
    using assms x y False unfolding AdvanceIDSweepCursor_def Let_def
    by (auto split: option.splits sum.splits if_splits)
  with d IDSweepCursor_effect(1) [OF y] False show ?thesis by (auto split: if_splits)
qed (use assms in \<open>simp add: AdvanceIDSweepCursor_def\<close>)

lemma AdvanceFillGapsCursor_effect:
  assumes "AdvanceFillGapsCursor env a b db = (r, db')" and "db_last_queued db = Some (uint a)"
  shows "db' = db \<or> db' = db\<lparr>db_last_queued := Some (uint b)\<rparr>"
  using assms by (auto simp: AdvanceFillGapsCursor_def exec_write_def Let_def split: option.splits if_splits)

lemma fold_max_mem: "fold max xs (a :: int) \<in> insert a (set xs)"
proof (induction xs arbitrary: a)
  case (Cons x xs)
  show ?case using Cons.IH [of "max x a"] by (auto simp: max_def split: if_splits)
qed simp

lemma max_id_stored: "max_id db \<noteq> 0 \<Longrightarrow> (word_of_int (max_id db) :: u32) \<in> cr_ID ` set (db_characters db)"
  using fold_max_mem [of "map (\<lambda>r. uint (cr_ID r)) (db_characters db)" 0]
  by (auto simp: max_id_def)

interpretation pg_sweep: sweep_queue "pg_publish inp" queued next_id for inp
proof (unfold_locales, goal_cases)
  case 1 then show ?case using pg_publish_sent by blast
next
  case 2 then show ?case using pg_publish_sent by blast
next
  case 3 then show ?case by (simp add: next_id_def pg_publish_keeps)
next
  case (4 w c w')
  then have "pub_call inp IDSweepCursor w = (c, w')" by (simp add: pg_publish_def)
  then show ?case using pub_call_queued IDSweepCursor_effect(1)
    by (fastforce simp: pub_call_def next_id_def split: prod.splits)
next
  case (5 w i w')
  then have "pub_call inp IDSweepCursor w = (Inr i, w')" by (simp add: pg_publish_def)
  then show ?case using IDSweepCursor_effect(2) by (auto simp: pub_call_def next_id_def split: prod.splits)
next
  case (6 a b w r w')
  then have p: "pub_call inp (\<lambda>env. AdvanceIDSweepCursor env a b) w = (r, w')" by (simp add: pg_publish_def)
  then obtain db' where "AdvanceIDSweepCursor (env_at (bi_census inp) (pb_tick w)) a b (pb_db w) = (r, db')"
      and w': "w' = w\<lparr>pb_db := db', pb_tick := Suc (pb_tick w)\<rparr>" by (auto simp: pub_call_def split: prod.splits)
  from AdvanceIDSweepCursor_effect [OF this(1)] w' pub_call_queued [OF p] show ?case by (auto simp: next_id_def)
qed

interpretation pg_gaps: gap_scanner "pg_publish inp" queued next_id last_queued row_ids for inp
proof (unfold_locales, goal_cases)
  case 1 then show ?case by (simp add: last_queued_def row_ids_def pg_publish_keeps)
next
  case (2 w m)
  then have "m = word_of_int (max_id (pb_db w))" by (auto simp: pg_publish_def MaxID_def fetch_one_def split: option.splits)
  moreover from this 2(2) have "max_id (pb_db w) \<noteq> 0" by auto
  ultimately show ?case using max_id_stored [of "pb_db w"] by (simp add: row_ids_def)
next
  case (3 a m l w gs)
  then have g: "FindIDGapsAfter (env_at (bi_census inp) (pb_tick w)) a m l (pb_db w) = Inr gs" by (simp add: pg_publish_def)
  show ?case using gaps_exact [OF g] by (simp add: row_ids_def)
next
  case (4 a m l w gs g)
  then have f: "FindIDGapsAfter (env_at (bi_census inp) (pb_tick w)) a m l (pb_db w) = Inr gs" by (simp add: pg_publish_def)
  show ?case using gaps_below_max [OF f] 4 by blast
next
  case (5 w c w' x)
  then have p: "pub_call inp FillGapsCursor w = (c, w')" by (simp add: pg_publish_def)
  then obtain db' where e: "FillGapsCursor (env_at (bi_census inp) (pb_tick w)) (pb_db w) = (c, db')"
      and w': "w' = w\<lparr>pb_db := db', pb_tick := Suc (pb_tick w)\<rparr>" by (auto simp: pub_call_def split: prod.splits)
  have "db' = pb_db w" using FillGapsCursor_effect(1) [OF e] 5(2) by (auto simp: last_queued_def)
  with w' pub_call_queued [OF p] show ?case by (simp add: last_queued_def row_ids_def)
next
  case (6 w i w')
  then have "pub_call inp FillGapsCursor w = (Inr i, w')" by (simp add: pg_publish_def)
  then show ?case using FillGapsCursor_effect(2) by (auto simp: pub_call_def last_queued_def split: prod.splits)
next
  case (7 a b w r w')
  then have p: "pub_call inp (\<lambda>env. AdvanceFillGapsCursor env a b) w = (r, w')" by (simp add: pg_publish_def)
  then obtain db' where e: "AdvanceFillGapsCursor (env_at (bi_census inp) (pb_tick w)) a b (pb_db w) = (r, db')"
      and w': "w' = w\<lparr>pb_db := db', pb_tick := Suc (pb_tick w)\<rparr>" by (auto simp: pub_call_def split: prod.splits)
  from AdvanceFillGapsCursor_effect [OF e] 7(2) w' pub_call_queued [OF p] show ?case
    by (auto simp: last_queued_def row_ids_def)
qed

section \<open>Properties\<close>

text \<open>C38: buildIDSweepJobs terminates and splits a range into id-sweep jobs that partition it: the
  decoded ranges are ascending and disjoint, none is empty or longer than the chunk size (100 when it is 0), and
  together they are exactly the range, also at the upper end of uint32.\<close>

theorem sweep_jobs_partition_range:
  "apart (job_ranges (buildIDSweepJobs a b cs source))
   \<and> covers (job_ranges (buildIDSweepJobs a b cs source)) = {a..b}
   \<and> (\<forall>r\<in>set (job_ranges (buildIDSweepJobs a b cs source)).
        fst r \<le> snd r \<and> uint (snd r) - uint (fst r) < uint (if cs = 0 then 100 else cs))
   \<and> list_all (\<lambda>j. qj_Type j = EventIDSweep) (buildIDSweepJobs a b cs source)"
  using buildIDSweepJobs_partition [of a b cs source] buildIDSweepJobs_types [of a b cs source] by blast

theorem sweep_jobs_partition_range_witness:
  "job_ranges (buildIDSweepJobs 4294967290 4294967295 4 ''auto'') = [(4294967290, 4294967293), (4294967294, 4294967295)]
   \<and> covers [(4294967290 :: u32, 4294967293), (4294967294, 4294967295)] = {4294967290..4294967295}"
proof -
  have "job_ranges (buildIDSweepJobs 4294967290 4294967295 4 ''auto'') = [(4294967290, 4294967293), (4294967294, 4294967295)]"
    by code_simp
  with sweep_jobs_partition_range [of 4294967290 4294967295 4 "''auto''"] show ?thesis by simp
qed

definition demo_outcomes :: publish_inputs where
  "demo_outcomes = \<lparr>bi_census = demo_inputs, bi_outcome = (\<lambda>_. PubAck)\<rparr>"

definition demo_publisher :: publish_world where
  "demo_publisher = \<lparr>pb_db = demo_census\<lparr>db_next_id := Some 10, db_last_queued := Some 2\<rparr>,
     pb_broker = declareTopology [], pb_tick = 0\<rparr>"

definition demo_flags :: sweep_flags where
  "demo_flags = \<lparr>fl_auto = True, fl_from = 0, fl_to = 0, fl_count = 1000, fl_batchSize = Some 3, fl_chunkSize = 2,
     fl_source = ''auto'', fl_fillGaps = False, fl_minID = 0, fl_daemon = True, fl_daemonInterval = 30000000000\<rparr>"

text \<open>C3: The forward cursor never skips an id. Whatever fails in the runs of an automatic id sweep, once or as a daemon
  over any number of ticks, the stored cursor does not move backwards, and every id between its value at the
  start and at the end lies in the range of a job that was put into the id-sweep queue meanwhile.\<close>

theorem auto_sweep_skips_nothing:
  assumes "publishIDSweep (pg_publish inp) fl ticks w = (r, w')" and "next_id w = Some c"
    and "\<not> fl_fillGaps fl" and "fl_auto fl \<or> fl_from fl = 0 \<and> fl_to fl = 0"
  shows "\<exists>c' new. next_id w' = Some c' \<and> c \<le> c' \<and> queued w' = queued w @ new \<and>
    (\<forall>x. c \<le> uint x \<and> uint x < c' \<longrightarrow> (\<exists>pl\<in>set new. fst (job_range pl) \<le> x \<and> x \<le> snd (job_range pl)))"
  using pg_sweep.auto_run [OF assms(3,4,2), of inp ticks] assms(1) by (simp add: pg_sweep.sweep_post_def)

theorem auto_sweep_skips_nothing_witness:
  "next_id (snd (publishIDSweep (pg_publish demo_outcomes) demo_flags 1 demo_publisher)) = Some 16
   \<and> (\<exists>new. queued (snd (publishIDSweep (pg_publish demo_outcomes) demo_flags 1 demo_publisher)) = queued demo_publisher @ new
        \<and> (\<exists>pl\<in>set new. fst (job_range pl) \<le> 14 \<and> 14 \<le> snd (job_range pl)))"
proof -
  obtain r w' where h: "publishIDSweep (pg_publish demo_outcomes) demo_flags 1 demo_publisher = (r, w')" by (metis surj_pair)
  have "next_id (snd (publishIDSweep (pg_publish demo_outcomes) demo_flags 1 demo_publisher)) = Some 16" by code_simp
  then have n: "next_id w' = Some 16" using h by simp
  have c: "next_id demo_publisher = Some 10" by (simp add: next_id_def demo_publisher_def)
  have f: "\<not> fl_fillGaps demo_flags" "fl_auto demo_flags \<or> fl_from demo_flags = 0 \<and> fl_to demo_flags = 0"
    by (simp_all add: demo_flags_def)
  obtain new where q: "queued w' = queued demo_publisher @ new"
      and cov: "\<forall>x. 10 \<le> uint x \<and> uint x < 16 \<longrightarrow> (\<exists>pl\<in>set new. fst (job_range pl) \<le> x \<and> x \<le> snd (job_range pl))"
    using auto_sweep_skips_nothing [OF h c f] n by auto
  from cov [rule_format, of 14] have "\<exists>pl\<in>set new. fst (job_range pl) \<le> 14 \<and> 14 \<le> snd (job_range pl)" by simp
  with n h q show ?thesis by auto
qed

text \<open>C5: The gap scanner skips no unscanned id. A run in cursor mode never moves the stored gap cursor
  backwards, and every id between the old and the new cursor that has no character row lies in the range
  of a job that the run put into the id-sweep queue, also when publishing stops half-way.\<close>

theorem gap_scan_skips_nothing:
  assumes "publishFillGapsIDSweep (pg_publish inp) cnt cs source 0 w = (r, w')"
    and "last_queued w = Some (uint c)" and "pp_MaxID (pg_publish inp) w = Inr m" and "c < m"
  shows "\<exists>c'. last_queued w' = Some (uint c') \<and> c \<le> c' \<and>
    (\<forall>x. c < x \<and> x \<le> c' \<and> x \<notin> row_ids w \<longrightarrow>
       (\<exists>pl\<in>set (drop (length (queued w)) (queued w')). fst (job_range pl) \<le> x \<and> x \<le> snd (job_range pl)))"
  using pg_gaps.fill_run [OF assms] unfolding pg_gaps.fill_post_def by blast

theorem gap_scan_skips_nothing_witness:
  "last_queued (snd (publishFillGapsIDSweep (pg_publish demo_outcomes) 2 2 ''auto'' 0 demo_publisher)) = Some 7
   \<and> (\<exists>pl\<in>set (drop (length (queued demo_publisher))
           (queued (snd (publishFillGapsIDSweep (pg_publish demo_outcomes) 2 2 ''auto'' 0 demo_publisher)))).
       fst (job_range pl) \<le> 6 \<and> 6 \<le> snd (job_range pl))"
proof -
  obtain r w' where h: "publishFillGapsIDSweep (pg_publish demo_outcomes) 2 2 ''auto'' 0 demo_publisher = (r, w')" by (metis surj_pair)
  have "last_queued (snd (publishFillGapsIDSweep (pg_publish demo_outcomes) 2 2 ''auto'' 0 demo_publisher)) = Some 7" by code_simp
  then have n: "last_queued w' = Some (uint (7 :: u32))" using h by simp
  have c: "last_queued demo_publisher = Some (uint (2 :: u32))" by (simp add: last_queued_def demo_publisher_def)
  have m: "pp_MaxID (pg_publish demo_outcomes) demo_publisher = Inr 9" by code_simp
  have i: "(6 :: u32) \<notin> row_ids demo_publisher" by (simp add: row_ids_def demo_publisher_def demo_census_def demo_character_def)
  obtain c' where c': "last_queued w' = Some (uint c')" and cov: "\<forall>x. 2 < x \<and> x \<le> c' \<and> x \<notin> row_ids demo_publisher \<longrightarrow>
       (\<exists>pl\<in>set (drop (length (queued demo_publisher)) (queued w')). fst (job_range pl) \<le> x \<and> x \<le> snd (job_range pl))"
    using gap_scan_skips_nothing [OF h c m] by auto
  have "c' = 7" using n c' by (metis option.inject word_uint_eqI)
  with cov i have "\<exists>pl\<in>set (drop (length (queued demo_publisher)) (queued w')). fst (job_range pl) \<le> 6 \<and> 6 \<le> snd (job_range pl)"
    by simp
  with n h show ?thesis by simp
qed

text \<open>The gap cursor never reaches MaxID by scanning, since MaxID itself is stored and every published
  gap ends below it. A run that starts below MaxID ends below MaxID, so the wrap-around of the next run is not taken;
  and once every id between the cursor and MaxID is stored, a run publishes nothing and leaves the
  cursor where it is, whatever ids below the cursor are still missing.\<close>

lemma gap_cursor_never_wraps:
  assumes "publishFillGapsIDSweep (pg_publish inp) cnt cs source 0 w = (r, w')"
    and "last_queued w = Some (uint c)" and "pp_MaxID (pg_publish inp) w = Inr m" and "c < m"
  shows "(\<exists>c'. last_queued w' = Some (uint c') \<and> c' < m)
    \<and> ((\<forall>x. c < x \<and> x < m \<longrightarrow> x \<in> row_ids w) \<longrightarrow> last_queued w' = Some (uint c) \<and> queued w' = queued w)"
  using pg_gaps.fill_run [OF assms] unfolding pg_gaps.fill_post_def by blast

end
