(* ===== verification/Guard.thy ===== *)
theory Guard
  imports Scheduling
begin

text \<open>
  infrastructure/proxy: the endpoint guard (guard.go) and the health checks whose outcomes it
  fences (health.go, checker.go), with the typed transport errors they classify
  (infrastructure/httpclient/proxy\_transport.go). The network is an argument: an
  \<open>http_exchange\<close> lists what one check observes. The laws proved here: the generation counts
  the healthy-to-unhealthy transitions, so two healthy snapshots with one generation have no
  failed control between them, and only a dial failure or an exhausted budget is conclusive.
\<close>

section \<open>The endpoint guard\<close>

definition guard_init :: GuardSnapshot where
  "guard_init = \<lparr>gs_Healthy = False, gs_Generation = 0\<rparr>"

definition control :: "err option \<Rightarrow> GuardSnapshot \<Rightarrow> GuardSnapshot" where
  "control e g =
     (let g' = (if e \<noteq> None \<and> gs_Healthy g then g\<lparr>gs_Generation := gs_Generation g + 1\<rparr> else g)
      in g'\<lparr>gs_Healthy := (e = None)\<rparr>)"

text \<open>\<open>Run\<close>: controls are serial, so the state after the controls \<open>cs\<close> is a fold.\<close>

definition guard_run :: "err option list \<Rightarrow> GuardSnapshot" where
  "guard_run cs = fold control cs guard_init"

text \<open>\<open>rnd\<close> is \<open>rand.Int64N(2*span)\<close>, a value of \<open>[0, 2*span)\<close>.\<close>

definition jitteredInterval :: "(int \<Rightarrow> int) \<Rightarrow> duration \<Rightarrow> duration" where
  "jitteredInterval rnd interval =
     (if interval \<le> 0 then interval
      else let span = go_div interval 10
           in if span = 0 then interval else interval - span + rnd (2 * span))"

section \<open>Retry-After hints\<close>

text \<open>\<open>parse_time\<close> stands for \<open>http.ParseTime\<close>, which reads the three HTTP date formats.\<close>

definition ParseRetryAfter :: "(string \<Rightarrow> timestamp option) \<Rightarrow> string \<Rightarrow> timestamp \<Rightarrow> duration" where
  "ParseRetryAfter parse_time hint receivedAt =
     (let h = trim_space hint
      in if h = [] then 0
         else case atoi h of
                Some secs \<Rightarrow> if secs \<le> 0 then 0 else i64 (secs * second)
              | None \<Rightarrow>
                  (case parse_time h of
                     Some t \<Rightarrow> (let d = time_sub t receivedAt in if d \<le> 0 then 0 else d)
                   | None \<Rightarrow> 0))"

definition retryAfterForStatus ::
    "(string \<Rightarrow> timestamp option) \<Rightarrow> int \<Rightarrow> string \<Rightarrow> timestamp \<Rightarrow> duration" where
  "retryAfterForStatus parse_time status hint receivedAt =
     (if status = 403 \<or> status = 429 then ParseRetryAfter parse_time hint receivedAt
      else if status < 500 then 0
      else ParseRetryAfter parse_time hint receivedAt)"

section \<open>Health checks\<close>

text \<open>
  What one check observes: the error of building the transport and of building the request,
  the result of \<open>client.Do\<close>, \<open>ctx.Err()\<close> when an error is classified, the elapsed
  milliseconds and the time of receipt. A response carries its status, its Retry-After header
  and its body: the bytes delivered and the error, if any, that ends the stream.
\<close>

record http_response =
  rs_Status :: int
  rs_RetryAfter :: string
  rs_Body :: "string \<times> err option"

record http_exchange =
  hx_Transport :: "err option"
  hx_Request :: "err option"
  hx_Do :: "err + http_response"
  hx_Ctx :: "sentinel option"
  hx_Millis :: int
  hx_ReceivedAt :: timestamp

definition WrapProxyDial :: "err \<Rightarrow> err" where
  "WrapProxyDial e =
     (case errors_as_dial e of
        Some reason \<Rightarrow> ECheck CheckProxy (''proxy '' @ reason) False 0 (Some e)
      | None \<Rightarrow> e)"

definition classifyCheckError :: "sentinel option \<Rightarrow> err \<Rightarrow> check_kind" where
  "classifyCheckError ctxErr e =
     (if errors_is e CtxCanceled \<or> ctxErr = Some CtxCanceled then CheckCancelled
      else if errors_is e CtxDeadlineExceeded \<or> ctxErr = Some CtxDeadlineExceeded then CheckDeadline
      else if errors_as_dial e \<noteq> None then CheckProxy
      else CheckTarget)"

definition checkError :: "check_kind \<Rightarrow> string \<Rightarrow> err \<Rightarrow> err" where
  "checkError kind reason e = ECheck kind reason False 0 (Some e)"

text \<open>Reading at most \<open>n\<close> bytes through an \<open>io.LimitReader\<close>.\<close>

definition read_limited :: "nat \<Rightarrow> string \<times> err option \<Rightarrow> string \<times> err option" where
  "read_limited n body =
     (if length (fst body) \<ge> n then (take n (fst body), None) else body)"

definition maxHealthBodyBytes :: nat where
  "maxHealthBodyBytes = 512 * 1024"

definition maxCheckerResponseBytes :: nat where
  "maxCheckerResponseBytes = 4 * 1024 * 1024"

definition validateBody :: "string \<times> err option \<Rightarrow> err option" where
  "validateBody r =
     (case read_limited (maxHealthBodyBytes + 1) r of
        (body, Some e) \<Rightarrow> Some e
      | (body, None) \<Rightarrow>
          if length body > maxHealthBodyBytes then Some (EText ''health response exceeds body limit'')
          else if length (trim_space body) = 0 then Some (EText ''empty response body'')
          else None)"

definition unexpected_status :: "int \<Rightarrow> err" where
  "unexpected_status status = EText (''unexpected status '' @ show_int status)"

definition runCheck :: "http_exchange \<Rightarrow> int \<times> err option" where
  "runCheck x =
     (case hx_Request x of
        Some e \<Rightarrow> (0, Some (checkError CheckLocal ''build request'' e))
      | None \<Rightarrow>
          (case hx_Do x of
             Inl e \<Rightarrow> (0, Some (checkError (classifyCheckError (hx_Ctx x) e) ''request'' e))
           | Inr resp \<Rightarrow>
               if rs_Status resp \<noteq> 200
               then (0, Some (checkError CheckTarget ''unexpected status'' (unexpected_status (rs_Status resp))))
               else (case validateBody (rs_Body resp) of
                       Some e \<Rightarrow> (0, Some (checkError CheckTarget ''validate body'' e))
                     | None \<Rightarrow> (hx_Millis x, None))))"

definition HealthChecker_Check :: "http_exchange \<Rightarrow> int \<times> err option" where
  "HealthChecker_Check x =
     (case hx_Transport x of
        Some e \<Rightarrow> (0, Some (checkError CheckLocal ''build transport'' e))
      | None \<Rightarrow> runCheck x)"

definition CheckDirect :: "http_exchange \<Rightarrow> err option" where
  "CheckDirect x = snd (runCheck x)"

definition Checker_Check :: "(string \<Rightarrow> timestamp option) \<Rightarrow> http_exchange \<Rightarrow> int \<times> err option" where
  "Checker_Check parse_time x =
     (case hx_Transport x of
        Some e \<Rightarrow> (0, Some (checkError CheckLocal ''build transport'' e))
      | None \<Rightarrow>
          (case hx_Request x of
             Some e \<Rightarrow> (0, Some (checkError CheckLocal ''build request'' e))
           | None \<Rightarrow>
               (case hx_Do x of
                  Inl e \<Rightarrow> (0, Some (checkError (classifyCheckError (hx_Ctx x) e) ''request'' e))
                | Inr resp \<Rightarrow>
                    if rs_Status resp \<noteq> 200
                    then (0, Some (ECheck CheckTarget ''unexpected status'' False
                                 (retryAfterForStatus parse_time (rs_Status resp) (rs_RetryAfter resp)
                                    (hx_ReceivedAt x))
                                 (Some (unexpected_status (rs_Status resp)))))
                    else (case read_limited (maxCheckerResponseBytes + 1) (rs_Body resp) of
                            (body, Some e) \<Rightarrow>
                              (0, Some (checkError (classifyCheckError (hx_Ctx x) e) ''read body'' e))
                          | (body, None) \<Rightarrow>
                              if length body > maxCheckerResponseBytes
                              then (0, Some (checkError CheckTarget ''read body''
                                     (EText (''response exceeds '' @ show_nat maxCheckerResponseBytes @ '' bytes''))))
                              else (hx_Millis x, None)))))"

section \<open>Generations\<close>

lemma control_healthy [simp]: "gs_Healthy (control e g) \<longleftrightarrow> e = None"
  by (simp add: control_def Let_def)

lemma control_generation:
  "gs_Generation (control e g)
     = gs_Generation g + (if e \<noteq> None \<and> gs_Healthy g then 1 else 0)"
  by (simp add: control_def Let_def)

text \<open>The number of healthy-to-unhealthy transitions of a run from a state with health \<open>h\<close>.\<close>

fun outages :: "bool \<Rightarrow> err option list \<Rightarrow> nat" where
  "outages h [] = 0"
| "outages h (c # cs) = (if h \<and> c \<noteq> None then 1 else 0) + outages (c = None) cs"

lemma outages_le: "outages h cs \<le> length cs"
  by (induction cs arbitrary: h) (auto intro: le_SucI)

lemma fold_control_generation:
  "gs_Generation (fold control cs g) = gs_Generation g + of_nat (outages (gs_Healthy g) cs)"
  by (induction cs arbitrary: g) (auto simp: control_generation)

lemma outages_zero_healthy:
  "outages True cs = 0 \<Longrightarrow> list_all (\<lambda>c. c = None) cs"
  by (induction cs) (auto split: if_splits)

lemma no_outage_between:
  assumes g: "gs_Healthy g" and same: "gs_Generation (fold control ds g) = gs_Generation g"
    and small: "length ds < 2 ^ 64"
  shows "list_all (\<lambda>d. d = None) ds"
proof -
  let ?n = "outages True ds"
  have "(of_nat ?n :: u64) = 0"
    using same g by (simp add: fold_control_generation)
  moreover have "?n < 2 ^ 64" using outages_le [of True ds] small by linarith
  ultimately have "?n = 0"
    by (auto simp: word_of_nat_eq_0_iff dest: dvd_imp_le)
  then show ?thesis by (rule outages_zero_healthy)
qed

lemma guard_run_append: "guard_run (cs @ ds) = fold control ds (guard_run cs)"
  by (simp add: guard_run_def)

section \<open>Attribution\<close>

lemma classifyCheckError_proxy:
  "classifyCheckError c e = CheckProxy \<Longrightarrow> errors_as_dial e \<noteq> None"
  by (auto simp: classifyCheckError_def split: if_splits)

lemma classifyCheckError_deadline:
  "classifyCheckError c e = CheckDeadline \<Longrightarrow> errors_is e CtxDeadlineExceeded \<or> c = Some CtxDeadlineExceeded"
  by (auto simp: classifyCheckError_def split: if_splits)

lemma checkError_as [simp]:
  "errors_as (checkError k r e) = Some \<lparr>ce_Kind = k, ce_Reason = r, ce_Challenge = False, ce_RetryAfter = 0\<rparr>"
  by (simp add: checkError_def)

lemma jitter_bounds:
  assumes "0 < interval" and "\<And>n. 0 < n \<Longrightarrow> 0 \<le> rnd n \<and> rnd n < n"
  shows "9 * interval \<le> 10 * jitteredInterval rnd interval"
    and "10 * jitteredInterval rnd interval \<le> 11 * interval"
proof -
  define s where "s = interval div 10"
  have s: "go_div interval 10 = s" "0 \<le> s" "10 * s \<le> interval"
    using assms(1) by (auto simp: go_div_nonneg s_def)
  have r: "s \<noteq> 0 \<Longrightarrow> 0 \<le> rnd (2 * s) \<and> rnd (2 * s) < 2 * s" using assms(2) s by auto
  show "9 * interval \<le> 10 * jitteredInterval rnd interval"
    using assms(1) s r by (cases "s = 0") (auto simp: jitteredInterval_def Let_def)
  show "10 * jitteredInterval rnd interval \<le> 11 * interval"
    using assms(1) s r by (cases "s = 0") (auto simp: jitteredInterval_def Let_def)
qed

section \<open>Properties\<close>

text \<open>C40: No proxy is blamed for an outage of the replica: if a scan is classified as a failure, then
  every control request that completed between the two guard snapshots of the scan succeeded
  (for fewer than 2^64 controls in between, the width of the generation counter).\<close>

theorem guard_fences_outages:
  assumes "ClassifyCheck e (guard_run cs) (guard_run (cs @ ds)) = ScanFailure" and "length ds < 2 ^ 64"
  shows "list_all (\<lambda>d. d = None) ds"
  using assms no_outage_between [of "guard_run cs" ds]
  by (auto simp: ClassifyCheck_failure_iff guard_run_append)

theorem guard_fences_outages_witness:
  "ClassifyCheck (Some (ECheck CheckDeadline [] False 0 None)) (guard_run [None]) (guard_run ([None] @ [None])) = ScanFailure
   \<and> list_all (\<lambda>d. d = None) [None :: err option]"
proof -
  have *: "ClassifyCheck (Some (ECheck CheckDeadline [] False 0 None)) (guard_run [None]) (guard_run ([None] @ [None])) = ScanFailure"
    by (simp add: guard_run_def guard_init_def control_def ClassifyCheck_def)
  with guard_fences_outages [OF *] show ?thesis by simp
qed

text \<open>A health check blames the proxy only for its own failures: when the recorded outcome of a
  check is a failure, the request either carries a proxy dial or negotiation error or ran out
  of its time budget. An unexpected status, a bad body or a local construction error never counts
  against the proxy.\<close>

lemma health_check_attribution:
  assumes "ClassifyCheck (snd (HealthChecker_Check x)) start finish = ScanFailure"
  shows "\<exists>e. hx_Do x = Inl e \<and> hx_Transport x = None \<and> hx_Request x = None
     \<and> (errors_as_dial e \<noteq> None \<or> errors_is e CtxDeadlineExceeded \<or> hx_Ctx x = Some CtxDeadlineExceeded)"
  using assms classifyCheckError_proxy [of "hx_Ctx x"] classifyCheckError_deadline [of "hx_Ctx x"]
  by (auto simp: ClassifyCheck_failure_iff HealthChecker_Check_def runCheck_def
      split: option.splits sum.splits if_splits)

text \<open>The pause between two control requests stays within ten percent of the configured interval.\<close>

lemma jitter_within_ten_percent:
  assumes "0 < interval" and "\<forall>n. 0 < n \<longrightarrow> 0 \<le> rnd n \<and> rnd n < n"
  shows "9 * interval \<le> 10 * jitteredInterval rnd interval \<and> 10 * jitteredInterval rnd interval \<le> 11 * interval"
  using jitter_bounds [OF assms(1), of rnd] assms(2) by blast

end
