(* ===== verification/Admission.thy ===== *)
theory Admission
  imports Contract
begin

text \<open>
  domain/proxy/worker/admission.go: how the scan dispatcher divides its capacity among the
  verification, recovery and background queues. For concurrency three and more the reserved
  shares add up to the concurrency and follow the weights to within one slot; below three the
  persistent smooth weighted round robin keeps every queue's admissions within two of its exact
  share, over any number of admissions.
\<close>

section \<open>Reservation targets\<close>

text \<open>
  The scan for the largest remainder starts from index -1 and remainder -1; an index that is
  still -1 afterwards (\<open>None\<close>) is the index-out-of-range panic of \<open>targets[best]++\<close>.
\<close>

definition best_step :: "int \<Rightarrow> int arr3 \<Rightarrow> nat \<Rightarrow> nat option \<times> int \<Rightarrow> nat option \<times> int" where
  "best_step remaining rest i b =
     (let r = go_mod (i64 (remaining * get3 rest i)) 100
      in if r > snd b then (Some i, r) else b)"

definition best_remainder :: "int \<Rightarrow> int arr3 \<Rightarrow> nat option" where
  "best_remainder remaining rest = fst (fold (best_step remaining rest) [0, 1, 2] (None, -1))"

fun leftover_loop :: "nat \<Rightarrow> int \<Rightarrow> int arr3 \<Rightarrow> int arr3 \<Rightarrow> int arr3 option" where
  "leftover_loop 0 remaining rest targets = Some targets"
| "leftover_loop (Suc n) remaining rest targets =
     (case best_remainder remaining rest of
        None \<Rightarrow> None
      | Some b \<Rightarrow>
          leftover_loop n remaining (set3 rest b 0) (set3 targets b (get3 targets b + 1)))"

definition share :: "int \<Rightarrow> int arr3 \<Rightarrow> nat \<Rightarrow> int" where
  "share remaining weights i = go_div (i64 (remaining * get3 weights i)) 100"

definition reservationTargets :: "int \<Rightarrow> int arr3 \<Rightarrow> int arr3 option" where
  "reservationTargets concurrency weights =
     (if concurrency < 3 then Some (A3 0 0 0)
      else let remaining = concurrency - 3;
               s0 = share remaining weights 0;
               s1 = share remaining weights 1;
               s2 = share remaining weights 2
           in leftover_loop (nat (remaining - (s0 + s1 + s2))) remaining weights
                (A3 (1 + s0) (1 + s1) (1 + s2)))"

section \<open>Small-worker round robin\<close>

record admission =
  ad_credits :: "int arr3"
  ad_borrower :: nat

definition choose_step :: "bool arr3 \<Rightarrow> int arr3 \<Rightarrow> nat
    \<Rightarrow> int \<times> nat option \<times> int arr3 \<Rightarrow> int \<times> nat option \<times> int arr3" where
  "choose_step available weights i st =
     (case st of (tot, best, credits) \<Rightarrow>
        if \<not> get3 available i then (tot, best, set3 credits i 0)
        else let tot' = tot + get3 weights i;
                 credits' = set3 credits i (get3 credits i + get3 weights i)
             in (tot',
                 (case best of
                    None \<Rightarrow> Some i
                  | Some b \<Rightarrow> if get3 credits' i > get3 credits' b then Some i else Some b),
                 credits'))"

definition chooseSmall :: "admission \<Rightarrow> bool arr3 \<Rightarrow> int arr3 \<Rightarrow> nat option \<times> admission" where
  "chooseSmall a available weights =
     (case fold (choose_step available weights) [0, 1, 2] (0, None, ad_credits a) of
        (tot, best, credits) \<Rightarrow>
          (case best of
             None \<Rightarrow> (None, a\<lparr>ad_credits := credits\<rparr>)
           | Some b \<Rightarrow> (Some b, a\<lparr>ad_credits := set3 credits b (get3 credits b - tot)\<rparr>)))"

section \<open>The reserved shares\<close>

lemma share_exact:
  assumes "0 \<le> r" and "0 < w" and "r * 100 \<le> max_i64" and "w \<le> 100"
  shows "i64 (r * w) = r * w"
proof -
  have "r * w \<le> r * 100" using assms by (intro mult_left_mono) auto
  then have hi: "r * w \<le> max_i64" using assms by linarith
  have "min_i64 \<le> 0" by (simp add: min_i64_def)
  moreover have "0 \<le> r * w" using assms by simp
  ultimately have lo: "min_i64 \<le> r * w" by (rule order_trans)
  have "is_i64 (r * w)" using lo hi by (simp add: is_i64_def)
  then show ?thesis by (rule i64_id)
qed

lemma best_remainder_cases:
  "best_remainder r (A3 a b c) =
     (let ra = go_mod (i64 (r * a)) 100; rb = go_mod (i64 (r * b)) 100;
          rc = go_mod (i64 (r * c)) 100
      in if ra > -1
         then (if rb > ra then (if rc > rb then Some 2 else Some 1)
               else if rc > ra then Some 2 else Some 0)
         else if rb > -1 then (if rc > rb then Some 2 else Some 1)
         else if rc > -1 then Some 2 else None)"
  by (simp add: best_remainder_def best_step_def Let_def)

lemma i64_zero [simp]: "i64 0 = 0"
  by (simp add: i64_def)

lemma go_mod_zero [simp]: "go_mod 0 b = 0"
  by (simp add: go_mod_def go_div_def)

lemma shares_total:
  fixes a b c r :: int
  assumes "a + b + c = 100 * r"
  shows "100 * (r - (a div 100 + b div 100 + c div 100)) = a mod 100 + b mod 100 + c mod 100"
  using assms by presburger

lemma quotient_nonneg:
  fixes x s :: int
  shows "100 * x = s \<Longrightarrow> 0 \<le> s \<Longrightarrow> 0 \<le> x"
  by linarith

lemma leftover_two:
  assumes m: "0 \<le> m0" "0 \<le> m1" "0 \<le> m2" "m0 < 100" "m1 < 100" "m2 < 100"
    and rem: "go_mod (i64 (r * w0)) 100 = m0" "go_mod (i64 (r * w1)) 100 = m1"
             "go_mod (i64 (r * w2)) 100 = m2"
    and n: "int n * 100 = m0 + m1 + m2"
  shows "\<exists>d0 d1 d2. leftover_loop n r (A3 w0 w1 w2) (A3 t0 t1 t2) = Some (A3 (t0 + d0) (t1 + d1) (t2 + d2))
           \<and> d0 \<in> {0, 1} \<and> d1 \<in> {0, 1} \<and> d2 \<in> {0, 1} \<and> d0 + d1 + d2 = int n"
proof -
  have "n = 0 \<or> n = 1 \<or> n = 2" using m n by arith
  then show ?thesis
  proof (elim disjE)
    assume "n = 0"
    then show ?thesis by (intro exI [of _ 0]) simp
  next
    assume "n = 1"
    with m rem show ?thesis
      by (auto simp: best_remainder_cases Let_def)
  next
    assume n2: "n = 2"
    with m n have pos: "0 < m0" "0 < m1" "0 < m2" by auto
    have two: "n = Suc (Suc 0)" using n2 by simp
    show ?thesis
      using m rem pos unfolding two
      by (auto simp: best_remainder_cases Let_def)
  qed
qed

lemma reservation_shares:
  assumes c: "3 \<le> c" and w: "0 < w0" "0 < w1" "0 < w2" and sum: "w0 + w1 + w2 = 100"
    and bound: "c * 100 \<le> max_i64"
  shows "\<exists>d0 d1 d2. reservationTargets c (A3 w0 w1 w2)
           = Some (A3 (1 + (c - 3) * w0 div 100 + d0) (1 + (c - 3) * w1 div 100 + d1)
                      (1 + (c - 3) * w2 div 100 + d2))
           \<and> d0 \<in> {0, 1} \<and> d1 \<in> {0, 1} \<and> d2 \<in> {0, 1}
           \<and> (c - 3) * w0 div 100 + (c - 3) * w1 div 100 + (c - 3) * w2 div 100 + (d0 + d1 + d2) = c - 3"
proof -
  define r where "r = c - 3"
  define x y z where "x = r * w0" and "y = r * w1" and "z = r * w2"
  have r: "0 \<le> r" "r * 100 \<le> max_i64" using c bound by (auto simp: r_def)
  have wle: "w0 \<le> 100" "w1 \<le> 100" "w2 \<le> 100" using w sum by auto
  have ex: "i64 (r * w0) = x" "i64 (r * w1) = y" "i64 (r * w2) = z"
    using share_exact r wle w by (auto simp: x_def y_def z_def)
  have nn: "0 \<le> x" "0 \<le> y" "0 \<le> z" using r w by (auto simp: x_def y_def z_def)
  have "x + y + z = r * (w0 + w1 + w2)" by (simp add: x_def y_def z_def algebra_simps)
  then have "x + y + z = 100 * r" using sum by simp
  note tot = shares_total [OF this]
  have m: "0 \<le> x mod 100" "0 \<le> y mod 100" "0 \<le> z mod 100"
    "x mod 100 < 100" "y mod 100 < 100" "z mod 100 < 100" by auto
  have left: "0 \<le> r - (x div 100 + y div 100 + z div 100)"
    by (rule quotient_nonneg [OF tot]) (intro add_nonneg_nonneg m(1-3))
  define n where "n = nat (r - (x div 100 + y div 100 + z div 100))"
  have n: "int n * 100 = x mod 100 + y mod 100 + z mod 100"
    unfolding n_def int_nat_eq tot [symmetric] using left by (simp only: if_True mult.commute)
  have rem: "go_mod (i64 (r * w0)) 100 = x mod 100" "go_mod (i64 (r * w1)) 100 = y mod 100"
      "go_mod (i64 (r * w2)) 100 = z mod 100"
    using ex nn by (simp_all add: go_mod_nonneg)
  have shares: "share r (A3 w0 w1 w2) 0 = x div 100" "share r (A3 w0 w1 w2) 1 = y div 100"
      "share r (A3 w0 w1 w2) 2 = z div 100"
    using ex nn by (simp_all add: share_def go_div_nonneg)
  have eq: "reservationTargets c (A3 w0 w1 w2)
      = leftover_loop n r (A3 w0 w1 w2) (A3 (1 + x div 100) (1 + y div 100) (1 + z div 100))"
    using c shares unfolding reservationTargets_def Let_def r_def [symmetric] n_def
    by (simp del: One_nat_def)
  obtain d0 d1 d2 where d: "leftover_loop n r (A3 w0 w1 w2) (A3 (1 + x div 100) (1 + y div 100) (1 + z div 100))
        = Some (A3 (1 + x div 100 + d0) (1 + y div 100 + d1) (1 + z div 100 + d2))"
      "d0 \<in> {0, 1}" "d1 \<in> {0, 1}" "d2 \<in> {0, 1}" "d0 + d1 + d2 = int n"
    using leftover_two [OF m rem n] by blast
  have "x div 100 + y div 100 + z div 100 + (d0 + d1 + d2) = r" using d(5) left by (simp add: n_def)
  with d eq show ?thesis
    unfolding r_def [symmetric] x_def [symmetric] y_def [symmetric] z_def [symmetric]
    by (intro exI [of _ d0] exI [of _ d1] exI [of _ d2]) simp
qed

section \<open>Fairness of the small-worker round robin\<close>

text \<open>With every queue available, \<open>small_run n\<close> lists the queues of \<open>n\<close> admissions.\<close>

fun small_run :: "nat \<Rightarrow> admission \<Rightarrow> int arr3 \<Rightarrow> nat list \<times> admission" where
  "small_run 0 a weights = ([], a)"
| "small_run (Suc n) a weights =
     (case small_run n a weights of (qs, a') \<Rightarrow>
        (case chooseSmall a' (A3 True True True) weights of
           (None, a'') \<Rightarrow> (qs, a'')
         | (Some q, a'') \<Rightarrow> (qs @ [q], a'')))"

lemma chooseSmall_all:
  assumes "ad_credits a = A3 x y z"
  shows "chooseSmall a (A3 True True True) (A3 u v w) =
     (let t = u + v + w;
          b = (if y + v > x + u then (if z + w > y + v then 2 else 1)
               else if z + w > x + u then 2 else 0)
      in (Some b, a\<lparr>ad_credits := set3 (A3 (x + u) (y + v) (z + w)) b
                       (get3 (A3 (x + u) (y + v) (z + w)) b - t)\<rparr>))"
  using assms by (simp add: chooseSmall_def choose_step_def Let_def)

lemma chooseSmall_available:
  "chooseSmall a av w = (Some q, a') \<Longrightarrow> q < 3 \<and> get3 av q"
  by (cases av; cases "ad_credits a"; cases w)
     (auto simp: chooseSmall_def choose_step_def Let_def split: if_splits)

lemma chooseSmall_None_iff:
  "fst (chooseSmall a av w) = None \<longleftrightarrow> av = A3 False False False"
  by (cases av; cases "ad_credits a"; cases w)
     (auto simp: chooseSmall_def choose_step_def Let_def)

lemma chooseSmall_borrower [simp]: "ad_borrower (snd (chooseSmall a av w)) = ad_borrower a"
  by (auto simp: chooseSmall_def split: prod.splits option.splits)

definition credits_inv :: "int arr3 \<Rightarrow> nat list \<Rightarrow> nat \<Rightarrow> int arr3 \<Rightarrow> bool" where
  "credits_inv weights qs n cr \<longleftrightarrow>
     (\<forall>i < 3. get3 cr i = int n * get3 weights i - sum3 weights * int (count_list qs i)
            \<and> - 2 * sum3 weights \<le> 3 * get3 cr i) \<and> sum3 cr = 0"

lemma all_less_3: "(\<forall>i < (3::nat). P i) \<longleftrightarrow> P 0 \<and> P 1 \<and> P 2"
proof -
  have "{i. i < (3::nat)} = {0, 1, 2}" by auto
  then show ?thesis by (metis insertCI less_numeral_extra(1) mem_Collect_eq insertE singletonD)
qed

lemma count_list_snoc [simp]: "count_list (xs @ [y]) x = count_list xs x + (if y = x then 1 else 0)"
  by (induction xs) auto

lemma credits_inv_step:
  assumes inv: "credits_inv (A3 u v w) qs n (ad_credits a)" and pos: "0 < u" "0 < v" "0 < w"
  shows "\<exists>q a'. chooseSmall a (A3 True True True) (A3 u v w) = (Some q, a') \<and> q < 3
           \<and> credits_inv (A3 u v w) (qs @ [q]) (Suc n) (ad_credits a')"
proof -
  obtain x y z where cr: "ad_credits a = A3 x y z" by (cases "ad_credits a") auto
  have *: "x = int n * u - (u + v + w) * int (count_list qs 0)" "- 2 * (u + v + w) \<le> 3 * x"
    "y = int n * v - (u + v + w) * int (count_list qs 1)" "- 2 * (u + v + w) \<le> 3 * y"
    "z = int n * w - (u + v + w) * int (count_list qs 2)" "- 2 * (u + v + w) \<le> 3 * z"
    "x + y + z = 0"
    using inv unfolding credits_inv_def cr all_less_3 by auto
  show ?thesis
    unfolding chooseSmall_all [OF cr] Let_def credits_inv_def all_less_3
    using * pos by (auto simp: algebra_simps)
qed

lemma small_run_inv:
  assumes "ad_credits a = A3 0 0 0" and pos: "0 < u" "0 < v" "0 < w"
  shows "credits_inv (A3 u v w) (fst (small_run n a (A3 u v w))) n
           (ad_credits (snd (small_run n a (A3 u v w))))
         \<and> length (fst (small_run n a (A3 u v w))) = n"
proof (induction n)
  case 0
  then show ?case using assms by (simp add: credits_inv_def all_less_3)
next
  case (Suc n)
  obtain qs a' where run: "small_run n a (A3 u v w) = (qs, a')" by fastforce
  with Suc have "credits_inv (A3 u v w) qs n (ad_credits a')" by simp
  from credits_inv_step [OF this pos] show ?case using Suc run by auto
qed

section \<open>Properties\<close>

text \<open>For a concurrency of three or more and positive weights that sum to 100, the reserved shares
  use the capacity exactly: they are computed without a panic, add up to the concurrency, give
  every queue at least one slot, and each is within one slot of its weighted share.\<close>

lemma reservation_exact:
  assumes "3 \<le> c" and "0 < w0" and "0 < w1" and "0 < w2" and "w0 + w1 + w2 = 100"
    and "c * 100 \<le> max_i64"
  shows "\<exists>t. reservationTargets c (A3 w0 w1 w2) = Some t \<and> sum3 t = c
     \<and> (\<forall>i < 3. 1 + (c - 3) * get3 (A3 w0 w1 w2) i div 100 \<le> get3 t i
              \<and> get3 t i \<le> 2 + (c - 3) * get3 (A3 w0 w1 w2) i div 100)"
proof -
  define f where "f i = (c - 3) * get3 (A3 w0 w1 w2) i div 100" for i
  from reservation_shares [OF assms] obtain d0 d1 d2 where
    t: "reservationTargets c (A3 w0 w1 w2) = Some (A3 (1 + f 0 + d0) (1 + f 1 + d1) (1 + f 2 + d2))"
    and d: "d0 \<in> {0, 1}" "d1 \<in> {0, 1}" "d2 \<in> {0, 1}" and sum: "f 0 + f 1 + f 2 + (d0 + d1 + d2) = c - 3"
    unfolding f_def by auto
  show ?thesis
    unfolding t all_less_3 f_def [symmetric] using d sum
    by (intro exI [of _ "A3 (1 + f 0 + d0) (1 + f 1 + d1) (1 + f 2 + d2)"]) auto
qed

text \<open>For fewer than three workers the round robin is fair without drift: with all queues
  backlogged, after any number n of admissions each queue has received its weighted share of n up
  to a deviation of less than two admissions.\<close>

lemma small_worker_fairness:
  assumes zero: "ad_credits a = A3 0 0 0" and pos: "0 < u" "0 < v" "0 < w" and i: "i < 3"
  shows "length (fst (small_run n a (A3 u v w))) = n
    \<and> \<bar>int n * get3 (A3 u v w) i - (u + v + w) * int (count_list (fst (small_run n a (A3 u v w))) i)\<bar>
        < 2 * (u + v + w)"
proof -
  let ?cr = "ad_credits (snd (small_run n a (A3 u v w)))"
  from small_run_inv [OF zero pos, of n] have len: "length (fst (small_run n a (A3 u v w))) = n"
    and inv: "credits_inv (A3 u v w) (fst (small_run n a (A3 u v w))) n ?cr" by auto
  obtain x y z where cr: "?cr = A3 x y z" by (cases ?cr) auto
  have b: "- 2 * (u + v + w) \<le> 3 * x" "- 2 * (u + v + w) \<le> 3 * y" "- 2 * (u + v + w) \<le> 3 * z" "x + y + z = 0"
    using inv unfolding credits_inv_def cr all_less_3 by auto
  have "get3 ?cr i = int n * get3 (A3 u v w) i - (u + v + w) * int (count_list (fst (small_run n a (A3 u v w))) i)"
    using inv i unfolding credits_inv_def by simp
  moreover have "\<bar>get3 ?cr i\<bar> < 2 * (u + v + w)" using b pos unfolding cr by auto
  ultimately show ?thesis using len by simp
qed

end
