(* ===== verification/Scan_Store.thy ===== *)
theory Scan_Store
  imports Proxy_Store "HOL-Library.Multiset"
begin

text \<open>
  infrastructure/postgres/repository/proxy\_scan.go: the scan leases of the \<open>proxies\<close> table. A
  claim stamps a row with a fresh token, the observation version it saw and an expiry; a
  completion is applied only when all three still match. The theory defines the operations and
  proves the table invariant; Scan\_Fencing holds the properties of sequences of operations.
\<close>

section \<open>Claiming\<close>

definition claimLeaseWhere :: "timestamp \<Rightarrow> ProxyRecord \<Rightarrow> bool" where
  "claimLeaseWhere stmt r =
     (null_or_due (pr_ScanLeaseUntil r) stmt \<and> null_or_due (pr_ScanNotBefore r) stmt)"

definition claimQueueWhere :: "ProxyScanPolicy \<Rightarrow> ScanQueue \<Rightarrow> timestamp \<Rightarrow> ProxyRecord \<Rightarrow> bool" where
  "claimQueueWhere p queue stmt r =
     (case queue of
        ScanVerification \<Rightarrow> pr_GeneralHealthy r \<and> null_or_due (pr_NextAttemptAt r) stmt
      | ScanRecovery \<Rightarrow> \<not> pr_GeneralHealthy r
          \<and> after (pr_LastVerifiedAt r) (stmt - po_RecoveryHorizon p)
          \<and> null_or_due (pr_NextAttemptAt r) stmt
      | ScanBackground \<Rightarrow> \<not> pr_GeneralHealthy r)"

text \<open>The timestamp both ORDER BY clauses use; \<open>None\<close> is the least option, as NULLS FIRST is.\<close>

definition queue_deadline :: "ScanQueue \<Rightarrow> ProxyRecord \<Rightarrow> timestamp option" where
  "queue_deadline queue r =
     (case queue of ScanBackground \<Rightarrow> pr_LastCompletedAt r | _ \<Rightarrow> pr_NextAttemptAt r)"

definition chosen :: "ProxyScanPolicy \<Rightarrow> db_env \<Rightarrow> ScanQueue \<Rightarrow> int \<Rightarrow> proxy_db \<Rightarrow> ProxyRecord list" where
  "chosen p env queue limit db =
     take (nat limit)
       (sort_key (\<lambda>r. (queue_deadline queue r, pr_ID r))
          (filter (\<lambda>r. claimLeaseWhere (en_stmt env) r \<and> claimQueueWhere p queue (en_stmt env) r
                       \<and> pr_ID r \<notin> set (en_held env)) (px_rows db)))"

definition lease_row :: "ProxyScanPolicy \<Rightarrow> db_env \<Rightarrow> string \<Rightarrow> ProxyRecord \<Rightarrow> ProxyRecord" where
  "lease_row p env token r =
     r\<lparr>pr_ScanToken := Some token,
       pr_ScanLeaseUntil := Some (en_clock env (pr_ID r) + po_LeaseDuration p),
       pr_ClaimedVersion := Some (pr_ObservationVersion r),
       pr_UpdatedAt := en_clock2 env (pr_ID r)\<rparr>"

text \<open>The comparison of \<open>sortScanLeases\<close>, and \<open>sort.SliceStable\<close> as a stable insertion sort.\<close>

definition lease_less :: "(ScanLease \<Rightarrow> timestamp option) \<Rightarrow> ScanLease \<Rightarrow> ScanLease \<Rightarrow> bool" where
  "lease_less key a b =
     (case (key a, key b) of
        (None, None) \<Rightarrow> pr_ID (sl_Record a) < pr_ID (sl_Record b)
      | (None, Some _) \<Rightarrow> True
      | (Some _, None) \<Rightarrow> False
      | (Some ka, Some kb) \<Rightarrow>
          if ka \<noteq> kb then ka < kb else pr_ID (sl_Record a) < pr_ID (sl_Record b))"

fun stable_insert :: "('a \<Rightarrow> 'a \<Rightarrow> bool) \<Rightarrow> 'a \<Rightarrow> 'a list \<Rightarrow> 'a list" where
  "stable_insert lt x [] = [x]"
| "stable_insert lt x (y # ys) = (if lt y x then y # stable_insert lt x ys else x # y # ys)"

definition SliceStable :: "('a \<Rightarrow> 'a \<Rightarrow> bool) \<Rightarrow> 'a list \<Rightarrow> 'a list" where
  "SliceStable lt xs = foldr (stable_insert lt) xs []"

definition sortScanLeases :: "(ScanLease \<Rightarrow> timestamp option) \<Rightarrow> ScanLease list \<Rightarrow> ScanLease list" where
  "sortScanLeases key leases = SliceStable (lease_less key) leases"

definition lease_of :: "string \<Rightarrow> ProxyRecord \<Rightarrow> ScanLease" where
  "lease_of token r =
     \<lparr>sl_Record = r, sl_Token = token,
      sl_Version = (case pr_ClaimedVersion r of Some v \<Rightarrow> v | None \<Rightarrow> 0)\<rparr>"

text \<open>
  \<open>token\<close> is the result of \<open>newScanToken\<close>. UPDATE ... RETURNING has no stable order: the rows come
  back in table order here, and the final sort makes the order irrelevant.
\<close>

definition ClaimScans :: "ProxyScanPolicy \<Rightarrow> db_env \<Rightarrow> ScanQueue \<Rightarrow> int \<Rightarrow> string result \<Rightarrow> proxy_db
    \<Rightarrow> ScanLease list result \<times> proxy_db" where
  "ClaimScans p env queue limit token db =
     (if limit \<le> 0
      then (Inl (EText (''scan claim: limit must be positive, got '' @ show_int limit)), db)
      else (case token of
              Inl e \<Rightarrow> (Inl (wrapped ''scan token'' e), db)
            | Inr tok \<Rightarrow>
                (case en_fault env SAcquire of
                   Some e \<Rightarrow> (Inl e, db)
                 | None \<Rightarrow>
                     (let ids = map pr_ID (chosen p env queue limit db);
                          db' = update_where (\<lambda>r. pr_ID r \<in> set ids) (lease_row p env tok) db;
                          returned = filter (\<lambda>r. pr_ID r \<in> set ids) (px_rows db');
                          leases = sortScanLeases (\<lambda>l. queue_deadline queue (sl_Record l))
                                     (map (lease_of tok) returned)
                      in case en_fault env SQuery of
                           Some e \<Rightarrow> (Inl (wrapped ''scan claim'' e), if en_applied env then db' else db)
                         | None \<Rightarrow>
                             (case en_fault env SRow of
                                Some e \<Rightarrow> (Inl (wrapped ''scan claim row'' e), if en_applied env then db' else db)
                              | None \<Rightarrow> reply env SRows ''scan claim rows'' db db' leases)))))"

section \<open>Completing and releasing\<close>

definition fencedWhere :: "ScanLease \<Rightarrow> timestamp \<Rightarrow> ProxyRecord \<Rightarrow> bool" where
  "fencedWhere lease dbNow r =
     (pr_ID r = pr_ID (sl_Record lease) \<and> pr_ScanToken r = Some (sl_Token lease)
      \<and> pr_ClaimedVersion r = Some (sl_Version lease) \<and> pr_ObservationVersion r = sl_Version lease
      \<and> after (pr_ScanLeaseUntil r) dbNow)"

definition failureStatus :: "ProxyRecord \<Rightarrow> timestamp \<Rightarrow> ScanUpdate \<Rightarrow> string \<times> int" where
  "failureStatus current dbNow update =
     (let newFailCount = pr_FailCount current + 1;
          lastAlive = (case pr_LastAliveAt current of Some t \<Rightarrow> t | None \<Rightarrow> pr_FirstSeenAt current);
          isDead = (newFailCount \<ge> su_FailThreshold update
                    \<or> time_sub dbNow lastAlive > su_DeadAfter update)
      in (if isDead then ProxyStatusDead else ProxyStatusInactive, newFailCount))"

definition drop_lease :: "ProxyRecord \<Rightarrow> ProxyRecord" where
  "drop_lease r = r\<lparr>pr_ScanToken := None, pr_ScanLeaseUntil := None, pr_ClaimedVersion := None\<rparr>"

definition success_row :: "timestamp \<Rightarrow> ScanUpdate \<Rightarrow> ProxyRecord \<Rightarrow> ProxyRecord" where
  "success_row dbNow u r =
     (drop_lease r)\<lparr>pr_GeneralHealthy := True, pr_Status := ProxyStatusActive,
        pr_LatencyMS := Some (su_LatencyMS u), pr_LastAliveAt := Some dbNow,
        pr_LastVerifiedAt := Some dbNow, pr_LastCompletedAt := Some dbNow, pr_FailCount := 0,
        pr_RecoveryStep := 0, pr_NextAttemptAt := Some (dbNow + su_NextDelay u),
        pr_ScanNotBefore := Some (dbNow + su_RepeatDelay u),
        pr_ObservationVersion := pr_ObservationVersion r + 1, pr_UpdatedAt := dbNow\<rparr>"

definition failure_row :: "timestamp \<Rightarrow> ScanUpdate \<Rightarrow> string \<Rightarrow> int \<Rightarrow> ProxyRecord \<Rightarrow> ProxyRecord" where
  "failure_row dbNow u status newFailCount r =
     (drop_lease r)\<lparr>pr_GeneralHealthy := False, pr_Status := status,
        pr_LastCompletedAt := Some dbNow, pr_FailCount := newFailCount,
        pr_RecoveryStep := su_RecoveryStep u, pr_NextAttemptAt := Some (dbNow + su_NextDelay u),
        pr_ScanNotBefore := Some (dbNow + su_RepeatDelay u),
        pr_ObservationVersion := pr_ObservationVersion r + 1, pr_UpdatedAt := dbNow\<rparr>"

definition inconclusive_row :: "timestamp \<Rightarrow> ScanUpdate \<Rightarrow> ProxyRecord \<Rightarrow> ProxyRecord" where
  "inconclusive_row dbNow u r =
     (drop_lease r)\<lparr>pr_LastCompletedAt := Some dbNow, pr_NextAttemptAt := Some (dbNow + su_NextDelay u),
        pr_ScanNotBefore := Some (dbNow + su_RepeatDelay u), pr_UpdatedAt := dbNow\<rparr>"

definition completed_row :: "ProxyRecord \<Rightarrow> timestamp \<Rightarrow> ScanUpdate \<Rightarrow> ProxyRecord \<Rightarrow> ProxyRecord" where
  "completed_row current dbNow u r =
     (case su_Outcome u of
        ScanSuccess \<Rightarrow> success_row dbNow u r
      | ScanFailure \<Rightarrow> (case failureStatus current dbNow u of (status, n) \<Rightarrow> failure_row dbNow u status n r)
      | ScanInconclusive \<Rightarrow> inconclusive_row dbNow u r)"

definition CompleteScan :: "db_env \<Rightarrow> ScanLease \<Rightarrow> ScanUpdate \<Rightarrow> proxy_db \<Rightarrow> bool result \<times> proxy_db" where
  "CompleteScan env lease u db =
     (let i = pr_ID (sl_Record lease); dbNow = en_clock env i
      in case en_fault env SAcquire of
           Some e \<Rightarrow> (Inl e, db)
         | None \<Rightarrow>
             (case en_fault env SBegin of
                Some e \<Rightarrow> (Inl (wrapped ''scan complete begin'' e), db)
              | None \<Rightarrow>
                  (case en_fault env SQuery of
                     Some e \<Rightarrow> (Inl (wrapped ''scan complete lock'' e), db)
                   | None \<Rightarrow>
                       (case row_by_id i db of
                          None \<Rightarrow> (Inr False, db)
                        | Some current \<Rightarrow>
                            (case en_fault env SClock of
                               Some e \<Rightarrow> (Inl (wrapped ''scan complete clock'' e), db)
                             | None \<Rightarrow>
                                 (case en_fault env SExec of
                                    Some e \<Rightarrow> (Inl (wrapped ''scan complete'' e), db)
                                  | None \<Rightarrow>
                                      (case en_fault env SAffected of
                                         Some e \<Rightarrow> (Inl (wrapped ''scan complete rows'' e), db)
                                       | None \<Rightarrow>
                                           if \<not> list_ex (fencedWhere lease dbNow) (px_rows db)
                                           then (Inr False, db)
                                           else reply env SCommit ''scan complete commit'' db
                                                  (update_where (fencedWhere lease dbNow)
                                                     (completed_row current dbNow u) db) True)))))))"

definition ReleaseScan :: "db_env \<Rightarrow> ScanLease \<Rightarrow> proxy_db \<Rightarrow> unit result \<times> proxy_db" where
  "ReleaseScan env lease db =
     (case en_fault env SAcquire of
        Some e \<Rightarrow> (Inl e, db)
      | None \<Rightarrow>
          reply env SExec ''scan release'' db
            (update_where (\<lambda>r. pr_ID r = pr_ID (sl_Record lease) \<and> pr_ScanToken r = Some (sl_Token lease)
                               \<and> pr_ClaimedVersion r = Some (sl_Version lease))
               (\<lambda>r. (drop_lease r)\<lparr>pr_UpdatedAt := en_stmt env\<rparr>) db) ())"

section \<open>Consumers\<close>

definition refreshable :: "ProxyScanPolicy \<Rightarrow> timestamp \<Rightarrow> int \<Rightarrow> string \<Rightarrow> duration \<Rightarrow> ProxyRecord \<Rightarrow> bool" where
  "refreshable p stmt i owner lockTTL r =
     (pr_ID r = i \<and> pr_LockedBy r = Some owner \<and> after (pr_LockedAt r) (stmt - lockTTL)
      \<and> freshPredicate p stmt r \<and> null_or_due (pr_DestinationCooldownUntil r) stmt)"

definition RefreshConsumerLock :: "ProxyScanPolicy \<Rightarrow> db_env \<Rightarrow> int \<Rightarrow> string \<Rightarrow> duration \<Rightarrow> proxy_db
    \<Rightarrow> ProxyRecord option result \<times> proxy_db" where
  "RefreshConsumerLock p env i owner lockTTL db =
     (case en_fault env SAcquire of
        Some e \<Rightarrow> (Inl e, db)
      | None \<Rightarrow>
          (let P = refreshable p (en_stmt env) i owner lockTTL;
               f = (\<lambda>r. r\<lparr>pr_LockedAt := Some (en_stmt env), pr_UpdatedAt := en_stmt env\<rparr>)
           in reply env SQuery ''consumer lock refresh'' db (update_where P f db)
                (map_option f (find P (px_rows db)))))"

definition RecordConsumerFailure :: "db_env \<Rightarrow> ProxyRecord \<Rightarrow> string \<Rightarrow> duration \<Rightarrow> ScanUpdate \<Rightarrow> proxy_db
    \<Rightarrow> bool result \<times> proxy_db" where
  "RecordConsumerFailure env rec owner lockTTL u db =
     (let i = pr_ID rec; dbNow = en_clock env i
      in case en_fault env SAcquire of
           Some e \<Rightarrow> (Inl e, db)
         | None \<Rightarrow>
             (case en_fault env SBegin of
                Some e \<Rightarrow> (Inl (wrapped ''consumer failure begin'' e), db)
              | None \<Rightarrow>
                  (case en_fault env SQuery of
                     Some e \<Rightarrow> (Inl (wrapped ''consumer failure lock'' e), db)
                   | None \<Rightarrow>
                       (case row_by_id i db of
                          None \<Rightarrow> (Inr False, db)
                        | Some current \<Rightarrow>
                            (case en_fault env SClock of
                               Some e \<Rightarrow> (Inl (wrapped ''consumer failure clock'' e), db)
                             | None \<Rightarrow>
                                 (let owned = (pr_LockedBy current = Some owner);
                                      lockValid = (owned \<and> after (pr_LockedAt current) (dbNow - lockTTL))
                                  in if \<not> lockValid \<or> pr_ObservationVersion current \<noteq> pr_ObservationVersion rec
                                     then (case en_fault env SExec of
                                             Some e \<Rightarrow> (Inl (wrapped ''consumer failure release'' e), db)
                                           | None \<Rightarrow>
                                               reply env SCommit ''consumer failure commit'' db
                                                 (update_where
                                                    (\<lambda>r. pr_ID r = i \<and> pr_LockedBy r = Some owner
                                                         \<and> after (pr_LockedAt r) (dbNow - lockTTL))
                                                    (\<lambda>r. r\<lparr>pr_LockedBy := None, pr_LockedAt := None,
                                                           pr_UpdatedAt := dbNow\<rparr>) db) False)
                                     else (case failureStatus current dbNow u of
                                             (status, newFailCount) \<Rightarrow>
                                               (case en_fault env SExec of
                                                  Some e \<Rightarrow> (Inl (wrapped ''consumer failure'' e), db)
                                                | None \<Rightarrow>
                                                    reply env SCommit ''consumer failure commit'' db
                                                      (update_where (\<lambda>r. pr_ID r = i)
                                                         (failure_row dbNow u status newFailCount) db)
                                                      True))))))))"

definition CooldownDestination :: "db_env \<Rightarrow> int \<Rightarrow> string \<Rightarrow> duration \<Rightarrow> duration \<Rightarrow> proxy_db
    \<Rightarrow> unit result \<times> proxy_db" where
  "CooldownDestination env i owner lockTTL delay db =
     (case en_fault env SAcquire of
        Some e \<Rightarrow> (Inl e, db)
      | None \<Rightarrow>
          reply env SExec ''destination cooldown'' db
            (update_where (\<lambda>r. pr_ID r = i \<and> pr_LockedBy r = Some owner)
               (\<lambda>r. r\<lparr>pr_DestinationCooldownUntil :=
                        Some (case pr_DestinationCooldownUntil r of
                                None \<Rightarrow> en_stmt env + delay
                              | Some t \<Rightarrow> max t (en_stmt env + delay)),
                      pr_LockedBy := None, pr_LockedAt := None, pr_UpdatedAt := en_stmt env\<rparr>) db) ())"

section \<open>The order of claimed leases\<close>

definition lease_key :: "(ScanLease \<Rightarrow> timestamp option) \<Rightarrow> ScanLease \<Rightarrow> timestamp option \<times> int" where
  "lease_key key l = (key l, pr_ID (sl_Record l))"

lemma lease_less_iff: "lease_less key a b \<longleftrightarrow> lease_key key a < lease_key key b"
  by (auto simp: lease_less_def lease_key_def less_prod_def split: option.splits)

lemma stable_insert_eq: "stable_insert (\<lambda>a b. f a < (f b :: 'k :: linorder)) x xs = insort_key f x xs"
  by (induction xs) (auto simp: not_less)

lemma SliceStable_eq: "SliceStable (\<lambda>a b. f a < (f b :: 'k :: linorder)) xs = sort_key f xs"
  by (simp add: SliceStable_def sort_key_def stable_insert_eq [abs_def])

text \<open>The comparison function implements the ORDER BY of the claim.\<close>

lemma sortScanLeases_eq: "sortScanLeases key leases = sort_key (lease_key key) leases"
  unfolding sortScanLeases_def SliceStable_eq [symmetric] lease_less_iff [abs_def] ..

lemma insort_key_map: "insort_key f (g x) (map g xs) = map g (insort_key (\<lambda>y. f (g y)) x xs)"
  by (induction xs) auto

lemma sort_key_map: "sort_key f (map g xs) = map g (sort_key (\<lambda>y. f (g y)) xs)"
  by (induction xs) (auto simp: insort_key_map)

lemma filter_key_singleton:
  "distinct xs \<Longrightarrow> inj_on f (set xs) \<Longrightarrow> k \<in> set xs \<Longrightarrow> filter (\<lambda>x. f k = f x) xs = [k]"
proof (induction xs)
  case (Cons x xs)
  show ?case
  proof (cases "k = x")
    case True
    with Cons.prems have "\<forall>y \<in> set xs. f k \<noteq> f y" by (auto simp: inj_on_def)
    then show ?thesis using True by (simp add: filter_empty_conv)
  next
    case False
    with Cons show ?thesis by (auto simp: inj_on_def)
  qed
qed simp

lemma sort_key_unique:
  assumes "distinct xs" and "distinct ys" and "set xs = set ys" and "inj_on f (set xs)"
    and "sorted (map f ys)"
  shows "sort_key f xs = ys"
proof (rule properties_for_sort_key)
  show "mset ys = mset xs" using assms(1-3) by (simp add: set_eq_iff_mset_eq_distinct)
  show "filter (\<lambda>x. f k = f x) ys = filter (\<lambda>x. f k = f x) xs" if "k \<in> set ys" for k
    using filter_key_singleton [of xs f k] filter_key_singleton [of ys f k] assms that by simp
qed (rule assms(5))

lemma chosen_props:
  assumes d: "distinct (map pr_ID (px_rows db))"
  shows "distinct (chosen p env q n db)" and "inj_on pr_ID (set (px_rows db))"
    and "set (chosen p env q n db) \<subseteq> set (px_rows db)"
    and "sorted (map (\<lambda>r. (queue_deadline q r, pr_ID r)) (chosen p env q n db))"
    and "length (chosen p env q n db) \<le> nat n"
proof -
  show "inj_on pr_ID (set (px_rows db))" using d by (simp add: distinct_map)
  have "distinct (px_rows db)" using d by (simp add: distinct_map)
  then show "distinct (chosen p env q n db)" by (simp add: chosen_def)
  show "set (chosen p env q n db) \<subseteq> set (px_rows db)"
    unfolding chosen_def by (auto dest: in_set_takeD)
  show "sorted (map (\<lambda>r. (queue_deadline q r, pr_ID r)) (chosen p env q n db))"
    by (simp add: chosen_def take_map [symmetric] sorted_wrt_take)
  show "length (chosen p env q n db) \<le> nat n" by (simp add: chosen_def)
qed

lemma lease_row_simps [simp]:
  "pr_ID (lease_row p env tok r) = pr_ID r" "queue_deadline q (lease_row p env tok r) = queue_deadline q r"
  by (simp_all add: lease_row_def queue_deadline_def split: ScanQueue.splits)

lemma claimed_leases:
  fixes p :: ProxyScanPolicy and env :: db_env and q :: ScanQueue and n :: int
  assumes d: "distinct (map pr_ID (px_rows db))"
  defines "ids \<equiv> map pr_ID (chosen p env q n db)"
  shows "sortScanLeases (\<lambda>l. queue_deadline q (sl_Record l))
           (map (lease_of tok) (filter (\<lambda>r. pr_ID r \<in> set ids)
              (px_rows (update_where (\<lambda>r. pr_ID r \<in> set ids) (lease_row p env tok) db))))
         = map (\<lambda>r. lease_of tok (lease_row p env tok r)) (chosen p env q n db)"
proof -
  let ?F = "filter (\<lambda>r. pr_ID r \<in> set ids) (px_rows db)" and ?K = "\<lambda>r. (queue_deadline q r, pr_ID r)"
  have ch: "distinct (chosen p env q n db)" "inj_on pr_ID (set (px_rows db))"
    "set (chosen p env q n db) \<subseteq> set (px_rows db)" "sorted (map ?K (chosen p env q n db))"
    by (rule chosen_props [OF d])+
  have "filter (\<lambda>r. pr_ID r \<in> set ids) (map (\<lambda>r. if pr_ID r \<in> set ids then lease_row p env tok r else r) xs)
      = map (lease_row p env tok) (filter (\<lambda>r. pr_ID r \<in> set ids) xs)" for xs
    by (induction xs) auto
  then have rows: "filter (\<lambda>r. pr_ID r \<in> set ids)
      (px_rows (update_where (\<lambda>r. pr_ID r \<in> set ids) (lease_row p env tok) db)) = map (lease_row p env tok) ?F"
    by (simp add: update_where_def)
  have "sort_key ?K ?F = chosen p env q n db"
  proof (rule sort_key_unique)
    show "distinct ?F" using d by (simp add: distinct_map)
    show "set ?F = set (chosen p env q n db)"
      using ch(2,3) unfolding ids_def by (auto simp: inj_on_def)
    show "inj_on ?K (set ?F)" using ch(2) by (auto simp: inj_on_def)
  qed (use ch in auto)
  then show ?thesis
    unfolding rows sortScanLeases_eq map_map sort_key_map
    by (simp add: lease_key_def lease_of_def)
qed

lemma ClaimScans_ok:
  assumes "distinct (map pr_ID (px_rows db))" and "0 < n" and "\<And>st. en_fault env st = None"
  shows "ClaimScans p env q n (Inr tok) db =
     (Inr (map (\<lambda>r. lease_of tok (lease_row p env tok r)) (chosen p env q n db)),
      update_where (\<lambda>r. pr_ID r \<in> set (map pr_ID (chosen p env q n db))) (lease_row p env tok) db)"
  using assms claimed_leases [OF assms(1)] by (simp add: ClaimScans_def Let_def reply_def)

lemma ClaimScans_result:
  assumes "distinct (map pr_ID (px_rows db))" and "ClaimScans p env q n tok db = (Inr ls, db')"
  shows "\<exists>t. tok = Inr t \<and> 0 < n \<and> ls = map (\<lambda>r. lease_of t (lease_row p env t r)) (chosen p env q n db)
     \<and> db' = update_where (\<lambda>r. pr_ID r \<in> set (map pr_ID (chosen p env q n db))) (lease_row p env t) db"
  using assms(2) claimed_leases [OF assms(1)]
  by (auto simp: ClaimScans_def Let_def reply_def split: if_splits sum.splits option.splits)

end
