(* ===== verification/Scan_Fencing.thy ===== *)
theory Scan_Fencing
  imports Scan_Store
begin

text \<open>
  What any sequence of store operations keeps. \<open>store_op\<close> lists the writes of the repository,
  \<open>row_step\<close> is the relation between one row before and after a write, and
  \<open>apply_op_row\<close> shows that every write changes every row by such a step. Invariants of the
  table and of one row over arbitrary interleavings then follow by rule inversion.
\<close>

section \<open>Operations and row steps\<close>

datatype store_op =
    OpInsert db_env ProxyRecord
  | OpClaimProxy db_env string duration
  | OpReleaseProxy db_env int string
  | OpClaimScans db_env ScanQueue int "string result"
  | OpCompleteScan db_env ScanLease ScanUpdate
  | OpReleaseScan db_env ScanLease
  | OpRefresh db_env int string duration
  | OpConsumerFailure db_env ProxyRecord string duration ScanUpdate
  | OpCooldown db_env int string duration duration

fun apply_op :: "ProxyScanPolicy \<Rightarrow> store_op \<Rightarrow> proxy_db \<Rightarrow> proxy_db" where
  "apply_op p (OpInsert env rec) db = snd (InsertIfAbsent env rec db)"
| "apply_op p (OpClaimProxy env owner ttl) db = snd (ClaimProxy p env owner ttl db)"
| "apply_op p (OpReleaseProxy env i owner) db = snd (ReleaseProxy env i owner db)"
| "apply_op p (OpClaimScans env q n tok) db = snd (ClaimScans p env q n tok db)"
| "apply_op p (OpCompleteScan env l u) db = snd (CompleteScan env l u db)"
| "apply_op p (OpReleaseScan env l) db = snd (ReleaseScan env l db)"
| "apply_op p (OpRefresh env i owner ttl) db = snd (RefreshConsumerLock p env i owner ttl db)"
| "apply_op p (OpConsumerFailure env rec owner ttl u) db = snd (RecordConsumerFailure env rec owner ttl u db)"
| "apply_op p (OpCooldown env i owner ttl d) db = snd (CooldownDestination env i owner ttl d db)"

definition apply_ops :: "ProxyScanPolicy \<Rightarrow> store_op list \<Rightarrow> proxy_db \<Rightarrow> proxy_db" where
  "apply_ops p ops db = fold (apply_op p) ops db"

inductive row_step :: "ProxyScanPolicy \<Rightarrow> store_op \<Rightarrow> ProxyRecord \<Rightarrow> ProxyRecord \<Rightarrow> bool"
  for p :: ProxyScanPolicy where
  same: "row_step p op r r"
| lock: "claimable p (en_stmt env) ttl r
    \<Longrightarrow> row_step p (OpClaimProxy env owner ttl) r (lock_row owner (en_stmt2 env) r)"
| unlock: "pr_ID r = i \<Longrightarrow> pr_LockedBy r = Some owner \<Longrightarrow> row_step p (OpReleaseProxy env i owner) r
    (r\<lparr>pr_LockedBy := None, pr_LockedAt := None, pr_UpdatedAt := en_now env\<rparr>)"
| lease: "claimLeaseWhere (en_stmt env) r \<Longrightarrow> claimQueueWhere p q (en_stmt env) r
    \<Longrightarrow> row_step p (OpClaimScans env q n (Inr tok)) r (lease_row p env tok r)"
| complete: "fencedWhere l (en_clock env (pr_ID r)) r
    \<Longrightarrow> row_step p (OpCompleteScan env l u) r (completed_row r (en_clock env (pr_ID r)) u r)"
| release: "pr_ID r = pr_ID (sl_Record l) \<Longrightarrow> pr_ScanToken r = Some (sl_Token l) \<Longrightarrow> pr_ClaimedVersion r = Some (sl_Version l)
    \<Longrightarrow> row_step p (OpReleaseScan env l) r ((drop_lease r)\<lparr>pr_UpdatedAt := en_stmt env\<rparr>)"
| refresh: "refreshable p (en_stmt env) i owner ttl r \<Longrightarrow> row_step p (OpRefresh env i owner ttl) r
    (r\<lparr>pr_LockedAt := Some (en_stmt env), pr_UpdatedAt := en_stmt env\<rparr>)"
| failed: "pr_ID r = pr_ID rec \<Longrightarrow> pr_LockedBy r = Some owner \<Longrightarrow> pr_ObservationVersion r = pr_ObservationVersion rec
    \<Longrightarrow> now = en_clock env (pr_ID rec) \<Longrightarrow> after (pr_LockedAt r) (now - ttl) \<Longrightarrow> failureStatus r now u = (status, n)
    \<Longrightarrow> row_step p (OpConsumerFailure env rec owner ttl u) r (failure_row now u status n r)"
| stale: "pr_ID r = pr_ID rec \<Longrightarrow> pr_LockedBy r = Some owner \<Longrightarrow> row_step p (OpConsumerFailure env rec owner ttl u) r
    (r\<lparr>pr_LockedBy := None, pr_LockedAt := None, pr_UpdatedAt := now\<rparr>)"
| cooldown: "pr_ID r = i \<Longrightarrow> pr_LockedBy r = Some owner
    \<Longrightarrow> c = Some (case pr_DestinationCooldownUntil r of None \<Rightarrow> en_stmt env + d | Some t \<Rightarrow> max t (en_stmt env + d))
    \<Longrightarrow> row_step p (OpCooldown env i owner ttl d) r
    (r\<lparr>pr_DestinationCooldownUntil := c, pr_LockedBy := None, pr_LockedAt := None,
       pr_UpdatedAt := en_stmt env\<rparr>)"

section \<open>Every write is a row step\<close>

definition table_step :: "(ProxyRecord \<Rightarrow> ProxyRecord \<Rightarrow> bool) \<Rightarrow> proxy_db \<Rightarrow> proxy_db \<Rightarrow> bool" where
  "table_step R db db' \<longleftrightarrow> px_next db' = px_next db \<and> list_all2 R (px_rows db) (px_rows db')"

lemma update_where_id: "update_where (\<lambda>_. False) f db = db"
  by (simp add: update_where_def)

lemma table_step_refl: "(\<And>r. R r r) \<Longrightarrow> table_step R db db"
  by (simp add: table_step_def list_all2_same)

lemma table_step_update:
  "(\<And>r. r \<in> set (px_rows db) \<Longrightarrow> P r \<Longrightarrow> R r (f r)) \<Longrightarrow> (\<And>r. R r r) \<Longrightarrow> table_step R db (update_where P f db)"
  by (simp add: table_step_def update_where_def list_all2_map2 list_all2_same)

lemma reply_snd_cases: "snd (reply env st pre db db' r) = db \<or> snd (reply env st pre db db' r) = db'"
  by (simp add: reply_def split: option.splits)

lemma table_step_reply:
  "table_step R db db' \<Longrightarrow> (\<And>r. R r r) \<Longrightarrow> table_step R db (snd (reply env st pre db db' x))"
  using reply_snd_cases [of env st pre db db' x] table_step_refl [of R db] by auto

lemma row_by_id_Some: "row_by_id i db = Some r \<Longrightarrow> r \<in> set (px_rows db) \<and> pr_ID r = i"
  by (auto simp: row_by_id_def find_Some_iff)

lemma row_by_id_unique:
  "distinct (map pr_ID (px_rows db)) \<Longrightarrow> r \<in> set (px_rows db) \<Longrightarrow> row_by_id (pr_ID r) db = Some r"
proof -
  assume d: "distinct (map pr_ID (px_rows db))" and r: "r \<in> set (px_rows db)"
  from r have "row_by_id (pr_ID r) db \<noteq> None" by (auto simp: row_by_id_def find_None_iff)
  then obtain r' where r': "row_by_id (pr_ID r) db = Some r'" by blast
  from row_by_id_Some [OF this] r d have "r' = r" by (auto simp: distinct_map inj_on_def)
  with r' show ?thesis by simp
qed

lemma chosen_eligible:
  "r \<in> set (chosen p env q n db) \<Longrightarrow> r \<in> set (px_rows db) \<and> claimLeaseWhere (en_stmt env) r
     \<and> claimQueueWhere p q (en_stmt env) r \<and> pr_ID r \<notin> set (en_held env)"
  unfolding chosen_def by (drule in_set_takeD) auto

lemma claim_candidates_mem:
  "r \<in> set (claim_candidates p env ttl db) \<Longrightarrow> r \<in> set (px_rows db) \<and> claimable p (en_stmt env) ttl r"
  by (auto simp: claim_candidates_def)

lemma same_id_same_row:
  "distinct (map pr_ID xs) \<Longrightarrow> r \<in> set xs \<Longrightarrow> s \<in> set xs \<Longrightarrow> pr_ID r = pr_ID s \<Longrightarrow> r = s"
  by (auto simp: distinct_map inj_on_def)

lemma step_ClaimProxy:
  assumes "distinct (map pr_ID (px_rows db))"
  shows "table_step (row_step p (OpClaimProxy env owner ttl)) db (snd (ClaimProxy p env owner ttl db))"
proof (cases "claim_candidates p env ttl db")
  case Nil
  then show ?thesis by (auto simp: ClaimProxy_def intro!: table_step_refl row_step.same split: option.splits)
next
  case (Cons r rs)
  then have "r \<in> set (px_rows db)" "claimable p (en_stmt env) ttl r"
    using claim_candidates_mem [of r p env ttl db] by auto
  then have "table_step (row_step p (OpClaimProxy env owner ttl)) db
      (update_where (\<lambda>x. pr_ID x = pr_ID r) (lock_row owner (en_stmt2 env)) db)"
    using same_id_same_row [OF assms] by (auto intro!: table_step_update row_step.same row_step.lock)
  with Cons show ?thesis
    by (auto simp: ClaimProxy_def intro!: table_step_refl row_step.same table_step_reply split: option.splits)
qed

lemma step_ClaimScans:
  assumes "distinct (map pr_ID (px_rows db))"
  shows "table_step (row_step p (OpClaimScans env q n tok)) db (snd (ClaimScans p env q n tok db))"
proof (cases tok)
  case (Inl e)
  then show ?thesis by (auto simp: ClaimScans_def intro!: table_step_refl row_step.same)
next
  case (Inr t)
  have "table_step (row_step p (OpClaimScans env q n tok)) db
      (update_where (\<lambda>r. pr_ID r \<in> set (map pr_ID (chosen p env q n db))) (lease_row p env t) db)"
  proof (rule table_step_update)
    fix r
    assume r: "r \<in> set (px_rows db)" "pr_ID r \<in> set (map pr_ID (chosen p env q n db))"
    then obtain s where s: "s \<in> set (chosen p env q n db)" "pr_ID s = pr_ID r" by auto
    with chosen_eligible [OF s(1)] r same_id_same_row [OF assms] have "s = r" by auto
    with chosen_eligible [OF s(1)] show "row_step p (OpClaimScans env q n tok) r (lease_row p env t r)"
      by (simp add: Inr row_step.lease)
  qed (rule row_step.same)
  with Inr show ?thesis
    by (auto simp: ClaimScans_def Let_def intro!: table_step_refl row_step.same table_step_reply
          split: option.splits)
qed

lemma step_CompleteScan:
  assumes "distinct (map pr_ID (px_rows db))"
  shows "table_step (row_step p (OpCompleteScan env l u)) db (snd (CompleteScan env l u db))"
proof (cases "row_by_id (pr_ID (sl_Record l)) db")
  case None
  then show ?thesis
    by (auto simp: CompleteScan_def Let_def intro!: table_step_refl row_step.same split: option.splits)
next
  case (Some cur)
  let ?now = "en_clock env (pr_ID (sl_Record l))"
  have "table_step (row_step p (OpCompleteScan env l u)) db
      (update_where (fencedWhere l ?now) (completed_row cur ?now u) db)"
  proof (rule table_step_update)
    fix r
    assume r: "r \<in> set (px_rows db)" "fencedWhere l ?now r"
    then have i: "pr_ID r = pr_ID (sl_Record l)" by (simp add: fencedWhere_def)
    with row_by_id_unique [OF assms r(1)] Some have "cur = r" by simp
    with r i show "row_step p (OpCompleteScan env l u) r (completed_row cur ?now u r)"
      using row_step.complete [of l env r p u] by simp
  qed (rule row_step.same)
  with Some show ?thesis
    by (auto simp: CompleteScan_def Let_def intro!: table_step_refl row_step.same table_step_reply
          split: option.splits)
qed

lemma step_ConsumerFailure:
  assumes "distinct (map pr_ID (px_rows db))"
  shows "table_step (row_step p (OpConsumerFailure env rec owner ttl u)) db
           (snd (RecordConsumerFailure env rec owner ttl u db))"
proof (cases "row_by_id (pr_ID rec) db")
  case None
  then show ?thesis
    by (auto simp: RecordConsumerFailure_def Let_def intro!: table_step_refl row_step.same split: option.splits)
next
  case (Some cur)
  let ?R = "row_step p (OpConsumerFailure env rec owner ttl u)"
  let ?now = "en_clock env (pr_ID rec)"
  have only: "r \<in> set (px_rows db) \<Longrightarrow> pr_ID r = pr_ID rec \<Longrightarrow> r = cur" for r
    using row_by_id_unique [OF assms, of r] Some by simp
  have stale: "table_step ?R db (update_where (\<lambda>r. pr_ID r = pr_ID rec \<and> pr_LockedBy r = Some owner
        \<and> after (pr_LockedAt r) (?now - ttl))
      (\<lambda>r. r\<lparr>pr_LockedBy := None, pr_LockedAt := None, pr_UpdatedAt := ?now\<rparr>) db)"
    by (auto intro!: table_step_update row_step.same row_step.stale)
  have fresh: "table_step ?R db (update_where (\<lambda>r. pr_ID r = pr_ID rec)
      (failure_row ?now u (fst (failureStatus cur ?now u)) (snd (failureStatus cur ?now u))) db)"
    if "pr_LockedBy cur = Some owner" "after (pr_LockedAt cur) (?now - ttl)" "pr_ObservationVersion cur = pr_ObservationVersion rec"
    using that by (auto intro!: table_step_update row_step.same dest!: only)
       (rule row_step.failed, auto)
  show ?thesis
    using Some stale fresh
    by (auto simp: RecordConsumerFailure_def Let_def intro!: table_step_refl row_step.same table_step_reply
          split: option.splits prod.splits)
qed

lemma step_other:
  "table_step (row_step p (OpReleaseProxy env i owner)) db (snd (ReleaseProxy env i owner db))"
  "table_step (row_step p (OpReleaseScan env l)) db (snd (ReleaseScan env l db))"
  "table_step (row_step p (OpRefresh env i owner ttl)) db (snd (RefreshConsumerLock p env i owner ttl db))"
  "table_step (row_step p (OpCooldown env i owner ttl d)) db (snd (CooldownDestination env i owner ttl d db))"
     apply (auto simp: ReleaseProxy_def intro!: table_step_refl row_step.same table_step_reply
      table_step_update row_step.unlock split: option.splits)[1]
    apply (auto simp: ReleaseScan_def intro!: table_step_refl row_step.same table_step_reply
      table_step_update row_step.release split: option.splits)[1]
   apply (auto simp: RefreshConsumerLock_def Let_def intro!: table_step_refl row_step.same table_step_reply
      table_step_update row_step.refresh split: option.splits)[1]
  apply (auto simp: CooldownDestination_def intro!: table_step_refl row_step.same table_step_reply
      table_step_update row_step.cooldown split: option.splits)[1]
  done

section \<open>The table invariant\<close>

definition row_ok :: "ProxyRecord \<Rightarrow> bool" where
  "row_ok r \<longleftrightarrow> (pr_ScanToken r = None \<longleftrightarrow> pr_ScanLeaseUntil r = None)
     \<and> (pr_ScanToken r = None \<longleftrightarrow> pr_ClaimedVersion r = None)
     \<and> (pr_ClaimedVersion r \<noteq> None \<longrightarrow> pr_ClaimedVersion r = Some (pr_ObservationVersion r))
     \<and> (pr_LockedBy r = None \<longleftrightarrow> pr_LockedAt r = None)
     \<and> (pr_GeneralHealthy r \<longrightarrow> pr_LastVerifiedAt r \<noteq> None)
     \<and> 0 \<le> pr_FailCount r \<and> 0 \<le> pr_ObservationVersion r"

definition proxy_inv :: "proxy_db \<Rightarrow> bool" where
  "proxy_inv db \<longleftrightarrow> distinct (map pr_ID (px_rows db)) \<and> list_all (\<lambda>r. pr_ID r < px_next db) (px_rows db)
     \<and> distinct (map row_key (px_rows db)) \<and> list_all row_ok (px_rows db)"

lemmas row_defs = lock_row_def lease_row_def completed_row_def success_row_def failure_row_def
  inconclusive_row_def drop_lease_def

lemma failureStatus_count [simp]: "snd (failureStatus r now u) = pr_FailCount r + 1"
  by (simp add: failureStatus_def Let_def)

lemma failureStatus_eq: "failureStatus r now u = (s, n) \<Longrightarrow> n = pr_FailCount r + 1"
  using failureStatus_count [of r now u] by simp

lemma row_step_ident: "row_step p op r r' \<Longrightarrow> pr_ID r' = pr_ID r \<and> row_key r' = row_key r"
  by (induction rule: row_step.induct)
     (auto simp: row_defs row_key_def split: ScanOutcome.splits prod.splits)

lemma row_step_ok:
  assumes "row_step p op r r'" and ok: "row_ok r"
  shows "row_ok r'"
  using assms
proof (induction rule: row_step.induct)
  case (complete l env r u)
  then show ?case
    by (auto simp: row_ok_def row_defs fencedWhere_def dest!: failureStatus_eq
          split: ScanOutcome.splits prod.splits)
next
  case (failed r rec owner now u status n env ttl)
  then show ?case by (auto simp: row_ok_def row_defs dest!: failureStatus_eq)
qed (auto simp: row_ok_def row_defs refreshable_def after_def split: option.splits)

lemma table_step_inv:
  assumes "table_step (row_step p op) db db'" and "proxy_inv db"
  shows "proxy_inv db'"
proof -
  have all: "list_all2 (row_step p op) (px_rows db) (px_rows db')" and nxt: "px_next db' = px_next db"
    using assms by (auto simp: table_step_def)
  have ids: "map pr_ID (px_rows db') = map pr_ID (px_rows db)"
    using all by (induction rule: list_all2_induct) (auto dest: row_step_ident)
  have keys: "map row_key (px_rows db') = map row_key (px_rows db)"
    using all by (induction rule: list_all2_induct) (auto dest: row_step_ident)
  have ok: "list_all row_ok (px_rows db) \<Longrightarrow> list_all row_ok (px_rows db')"
    using all by (induction rule: list_all2_induct) (auto dest: row_step_ok)
  have "list_all (\<lambda>r. pr_ID r < n) (px_rows db) \<Longrightarrow> list_all (\<lambda>r. pr_ID r < n) (px_rows db')" for n
    using all by (induction rule: list_all2_induct) (auto dest: row_step_ident)
  then show ?thesis using assms(2) ids keys ok nxt unfolding proxy_inv_def by simp
qed

lemma InsertIfAbsent_cases:
  "snd (InsertIfAbsent env rec db) = db
   \<or> snd (InsertIfAbsent env rec db) = db\<lparr>px_next := px_next db + 1\<rparr>
   \<or> (\<not> list_ex (\<lambda>r. row_key r = row_key rec) (px_rows db)
      \<and> snd (InsertIfAbsent env rec db) =
          db\<lparr>px_next := px_next db + 1, px_rows := px_rows db @ [new_row (px_next db) (en_now env) rec]\<rparr>)"
  by (auto simp: InsertIfAbsent_def reply_def Let_def split: option.splits)

lemma new_row_simps [simp]:
  "pr_ID (new_row i now rec) = i" "row_key (new_row i now rec) = row_key rec" "row_ok (new_row i now rec)"
  by (auto simp: new_row_def row_key_def row_ok_def)

lemma insert_inv: "proxy_inv db \<Longrightarrow> proxy_inv (snd (InsertIfAbsent env rec db))"
  using InsertIfAbsent_cases [of env rec db]
  by (auto simp: proxy_inv_def list_all_iff list_ex_iff; force)

lemma apply_op_cases:
  assumes "distinct (map pr_ID (px_rows db))"
  shows "table_step (row_step p op) db (apply_op p op db)
         \<or> (\<exists>env rec. op = OpInsert env rec)"
  using assms by (cases op)
    (auto intro: step_ClaimProxy step_ClaimScans step_CompleteScan step_ConsumerFailure step_other)

lemma apply_op_inv: "proxy_inv db \<Longrightarrow> proxy_inv (apply_op p op db)"
  using apply_op_cases [of db p op] table_step_inv [of p op db "apply_op p op db"] insert_inv
  by (auto simp: proxy_inv_def)

lemma apply_ops_Nil [simp]: "apply_ops p [] db = db"
  and apply_ops_Cons [simp]: "apply_ops p (op # ops) db = apply_ops p ops (apply_op p op db)"
  by (simp_all add: apply_ops_def)

lemma apply_ops_inv: "proxy_inv db \<Longrightarrow> proxy_inv (apply_ops p ops db)"
  by (induction ops arbitrary: db) (auto intro: apply_op_inv)

section \<open>Following one row\<close>

lemma find_list_all2:
  assumes "list_all2 R xs ys" and "\<And>x y. R x y \<Longrightarrow> P x = P y" and "find P xs = Some x"
  shows "\<exists>y. find P ys = Some y \<and> R x y"
  using assms by (induction rule: list_all2_induct) (auto split: if_splits)

lemma find_append_Some: "find P xs = Some x \<Longrightarrow> find P (xs @ ys) = Some x"
  by (induction xs) auto

lemma apply_op_row:
  assumes inv: "proxy_inv db" and row: "row_by_id i db = Some r"
  shows "\<exists>r'. row_by_id i (apply_op p op db) = Some r' \<and> row_step p op r r'"
proof -
  from inv have d: "distinct (map pr_ID (px_rows db))" by (simp add: proxy_inv_def)
  from apply_op_cases [OF d, of p op] show ?thesis
  proof
    assume "table_step (row_step p op) db (apply_op p op db)"
    then show ?thesis
      using row unfolding table_step_def row_by_id_def
      by (elim conjE find_list_all2) (auto dest: row_step_ident)
  next
    assume "\<exists>env rec. op = OpInsert env rec"
    then obtain env rec where op: "op = OpInsert env rec" by blast
    with row InsertIfAbsent_cases [of env rec db]
    have "row_by_id i (apply_op p op db) = Some r"
      by (auto simp: row_by_id_def find_append_Some)
    then show ?thesis by (auto intro: row_step.same)
  qed
qed

text \<open>Rule induction over a sequence: a row property kept by each allowed step holds at the end.\<close>

lemma apply_ops_row:
  assumes "proxy_inv db" and "row_by_id i db = Some r" and "Q r"
    and "\<And>op r r'. op \<in> set ops \<Longrightarrow> pr_ID r = i \<Longrightarrow> Q r \<Longrightarrow> row_step p op r r' \<Longrightarrow> Q r'"
  shows "\<exists>r'. row_by_id i (apply_ops p ops db) = Some r' \<and> Q r'"
  using assms
proof (induction ops arbitrary: db r)
  case Nil
  then show ?case by auto
next
  case (Cons op ops)
  from apply_op_row [OF Cons.prems(1,2), of p op] obtain r1 where
    r1: "row_by_id i (apply_op p op db) = Some r1" "row_step p op r r1" by blast
  have "pr_ID r = i" using Cons.prems(2) row_by_id_Some by blast
  then have "Q r1" using Cons.prems(4) [of op r r1] r1(2) Cons.prems(3) by simp
  moreover have "Q y" if "o' \<in> set ops" "pr_ID x = i" "Q x" "row_step p o' x y" for o' x y
    using Cons.prems(4) [of o' x y] that by simp
  ultimately show ?case using Cons.IH [OF apply_op_inv [OF Cons.prems(1)] r1(1)] by simp
qed

section \<open>Single-row laws\<close>

inductive_cases row_step_claimE: "row_step p (OpClaimScans env q n tok) r r'"
inductive_cases row_step_completeE: "row_step p (OpCompleteScan env l u) r r'"

lemma row_step_version: "row_step p op r r' \<Longrightarrow> pr_ObservationVersion r \<le> pr_ObservationVersion r'"
  by (induction rule: row_step.induct)
     (auto simp: row_defs split: ScanOutcome.splits prod.splits)

lemma row_step_healthy:
  "row_step p op r r' \<Longrightarrow> pr_LastVerifiedAt r' \<noteq> pr_LastVerifiedAt r \<or> (pr_GeneralHealthy r' \<and> \<not> pr_GeneralHealthy r)
   \<Longrightarrow> \<exists>env l u. op = OpCompleteScan env l u \<and> su_Outcome u = ScanSuccess
        \<and> fencedWhere l (en_clock env (pr_ID r)) r \<and> pr_LastVerifiedAt r' = Some (en_clock env (pr_ID r))"
  by (induction rule: row_step.induct)
     (auto simp: row_defs split: ScanOutcome.splits prod.splits)

text \<open>A token that a row no longer carries comes back only with a claim that uses it again.\<close>

fun claims_token :: "string \<Rightarrow> store_op \<Rightarrow> bool" where
  "claims_token t (OpClaimScans env q n tok) = (tok = Inr t)"
| "claims_token t _ = False"

lemma row_step_token_gone:
  "row_step p op r r' \<Longrightarrow> pr_ScanToken r \<noteq> Some t \<Longrightarrow> \<not> claims_token t op \<Longrightarrow> pr_ScanToken r' \<noteq> Some t"
  by (induction rule: row_step.induct)
     (auto simp: row_defs split: ScanOutcome.splits prod.splits)

text \<open>
  The writes that may end a lease on row \<open>i\<close> before its expiry \<open>t\<close>: a completion or release
  that presents its token, and a conclusive consumer failure on the row. A claim ends it only at
  a statement time of at least \<open>t\<close>.
\<close>

fun may_end_lease :: "int \<Rightarrow> string \<Rightarrow> timestamp \<Rightarrow> store_op \<Rightarrow> bool" where
  "may_end_lease i tok t (OpCompleteScan env l u) = (sl_Token l = tok)"
| "may_end_lease i tok t (OpReleaseScan env l) = (sl_Token l = tok)"
| "may_end_lease i tok t (OpConsumerFailure env rec owner ttl u) = (pr_ID rec = i)"
| "may_end_lease i tok t (OpClaimScans env q n k) = (t \<le> en_stmt env)"
| "may_end_lease i tok t _ = False"

definition holds_lease :: "string \<Rightarrow> int \<Rightarrow> timestamp \<Rightarrow> ProxyRecord \<Rightarrow> bool" where
  "holds_lease tok v t r \<longleftrightarrow> pr_ScanToken r = Some tok \<and> pr_ClaimedVersion r = Some v
     \<and> pr_ObservationVersion r = v \<and> pr_ScanLeaseUntil r = Some t"

lemma row_step_keeps_lease:
  "row_step p op r r' \<Longrightarrow> holds_lease tok v t r \<Longrightarrow> \<not> may_end_lease (pr_ID r) tok t op \<Longrightarrow> holds_lease tok v t r'"
  by (induction rule: row_step.induct)
     (auto simp: holds_lease_def row_defs fencedWhere_def claimLeaseWhere_def null_or_due_def)

section \<open>Fenced completion\<close>

lemma CompleteScan_accepted:
  assumes "CompleteScan env l u db = (Inr True, db')"
  shows "\<exists>cur. row_by_id (pr_ID (sl_Record l)) db = Some cur
     \<and> db' = update_where (fencedWhere l (en_clock env (pr_ID (sl_Record l))))
               (completed_row cur (en_clock env (pr_ID (sl_Record l))) u) db
     \<and> list_ex (fencedWhere l (en_clock env (pr_ID (sl_Record l)))) (px_rows db)"
  using assms by (auto simp: CompleteScan_def reply_def Let_def split: option.splits if_splits)

lemma CompleteScan_rejected: "CompleteScan env l u db = (Inr False, db') \<Longrightarrow> db' = db"
  by (auto simp: CompleteScan_def reply_def Let_def split: option.splits if_splits)

lemma fenced_row:
  assumes "distinct (map pr_ID (px_rows db))"
  shows "list_ex (fencedWhere l now) (px_rows db) \<longleftrightarrow>
     (\<exists>r. row_by_id (pr_ID (sl_Record l)) db = Some r \<and> fencedWhere l now r)"
proof
  assume "list_ex (fencedWhere l now) (px_rows db)"
  then obtain r where r: "r \<in> set (px_rows db)" "fencedWhere l now r" by (auto simp: list_ex_iff)
  with row_by_id_unique [OF assms r(1)] show "\<exists>r. row_by_id (pr_ID (sl_Record l)) db = Some r \<and> fencedWhere l now r"
    by (auto simp: fencedWhere_def)
next
  assume "\<exists>r. row_by_id (pr_ID (sl_Record l)) db = Some r \<and> fencedWhere l now r"
  then show "list_ex (fencedWhere l now) (px_rows db)"
    using row_by_id_Some by (auto simp: list_ex_iff)
qed

lemma row_by_id_update_where:
  assumes "\<And>r. pr_ID (f r) = pr_ID r"
  shows "row_by_id i (update_where P f db) = map_option (\<lambda>r. if P r then f r else r) (row_by_id i db)"
proof -
  have "find (\<lambda>r. pr_ID r = i) (map (\<lambda>r. if P r then f r else r) xs)
      = map_option (\<lambda>r. if P r then f r else r) (find (\<lambda>r. pr_ID r = i) xs)" for xs
    by (induction xs) (auto simp: assms)
  then show ?thesis by (simp add: row_by_id_def update_where_def)
qed

lemma completed_row_ID [simp]: "pr_ID (completed_row c now u r) = pr_ID r"
  by (auto simp: row_defs split: ScanOutcome.splits prod.splits)

lemma completed_row_no_token [simp]: "pr_ScanToken (completed_row c now u r) = None"
  by (auto simp: row_defs split: ScanOutcome.splits prod.splits)

lemma accepted_no_token:
  assumes inv: "proxy_inv db" and acc: "CompleteScan env l u db = (Inr True, db')"
  shows "\<exists>r. row_by_id (pr_ID (sl_Record l)) db' = Some r \<and> pr_ScanToken r = None"
proof -
  from inv have d: "distinct (map pr_ID (px_rows db))" by (simp add: proxy_inv_def)
  from CompleteScan_accepted [OF acc] fenced_row [OF d] obtain r cur where
    "row_by_id (pr_ID (sl_Record l)) db = Some r" "fencedWhere l (en_clock env (pr_ID (sl_Record l))) r"
    "db' = update_where (fencedWhere l (en_clock env (pr_ID (sl_Record l))))
               (completed_row cur (en_clock env (pr_ID (sl_Record l))) u) db" by blast
  then show ?thesis by (simp add: row_by_id_update_where)
qed

lemma needs_token:
  assumes "row_by_id (pr_ID (sl_Record l)) db = Some r" and "pr_ScanToken r \<noteq> Some (sl_Token l)"
    and "proxy_inv db"
  shows "fst (CompleteScan env l u db) \<noteq> Inr True"
proof
  assume "fst (CompleteScan env l u db) = Inr True"
  then obtain db' where "CompleteScan env l u db = (Inr True, db')" by (metis prod.collapse)
  from CompleteScan_accepted [OF this] fenced_row [of db l] assms show False
    by (auto simp: proxy_inv_def fencedWhere_def)
qed

lemma CompleteScan_healthy:
  assumes inv: "proxy_inv db" and ok: "\<And>st. en_fault env st = None"
    and row: "row_by_id (pr_ID (sl_Record l)) db = Some r"
    and lease: "holds_lease (sl_Token l) (sl_Version l) t r" and time: "en_clock env (pr_ID (sl_Record l)) < t"
  shows "CompleteScan env l u db = (Inr True, update_where (fencedWhere l (en_clock env (pr_ID (sl_Record l))))
            (completed_row r (en_clock env (pr_ID (sl_Record l))) u) db)"
proof -
  have "fencedWhere l (en_clock env (pr_ID (sl_Record l))) r"
    using lease time row_by_id_Some [OF row] by (simp add: fencedWhere_def holds_lease_def after_def)
  then have "list_ex (fencedWhere l (en_clock env (pr_ID (sl_Record l)))) (px_rows db)"
    using fenced_row [of db l] row inv by (auto simp: proxy_inv_def)
  then show ?thesis using ok row by (simp add: CompleteScan_def Let_def reply_def)
qed

section \<open>Consumer locks\<close>

text \<open>The writes that may take a consumer lock of \<open>owner\<close> taken at time \<open>s\<close>.\<close>

fun may_take_lock :: "string \<Rightarrow> timestamp \<Rightarrow> store_op \<Rightarrow> bool" where
  "may_take_lock owner s (OpClaimProxy env o' ttl) = (s < en_stmt env - ttl)"
| "may_take_lock owner s (OpReleaseProxy env i o') = (o' = owner)"
| "may_take_lock owner s (OpConsumerFailure env rec o' ttl u) = (o' = owner)"
| "may_take_lock owner s (OpCooldown env i o' ttl d) = (o' = owner)"
| "may_take_lock owner s (OpRefresh env i o' ttl) = (en_stmt env < s)"
| "may_take_lock owner s _ = False"

definition holds_lock :: "string \<Rightarrow> timestamp \<Rightarrow> ProxyRecord \<Rightarrow> bool" where
  "holds_lock owner s r \<longleftrightarrow> pr_LockedBy r = Some owner \<and> (\<exists>t. pr_LockedAt r = Some t \<and> s \<le> t)"

lemma row_step_keeps_lock:
  "row_step p op r r' \<Longrightarrow> holds_lock owner s r \<Longrightarrow> \<not> may_take_lock owner s op \<Longrightarrow> holds_lock owner s r'"
  by (induction rule: row_step.induct)
     (auto simp: holds_lock_def row_defs claimable_def split: ScanOutcome.splits prod.splits)

lemma ClaimProxy_result:
  assumes "ClaimProxy p env owner ttl db = (Inr (Some r), db')"
  shows "\<exists>r0. r0 \<in> set (px_rows db) \<and> claimable p (en_stmt env) ttl r0 \<and> r = lock_row owner (en_stmt2 env) r0
     \<and> db' = update_where (\<lambda>x. pr_ID x = pr_ID r0) (lock_row owner (en_stmt2 env)) db"
proof -
  obtain r0 rs where c: "claim_candidates p env ttl db = r0 # rs"
    and "r = lock_row owner (en_stmt2 env) r0
       \<and> db' = update_where (\<lambda>x. pr_ID x = pr_ID r0) (lock_row owner (en_stmt2 env)) db"
    using assms by (auto simp: ClaimProxy_def reply_def split: option.splits list.splits)
  with claim_candidates_mem [of r0 p env ttl db] show ?thesis by auto
qed

lemma lock_row_simps [simp]:
  "pr_ID (lock_row owner t r) = pr_ID r" "holds_lock owner s (lock_row owner t r) \<longleftrightarrow> s \<le> t"
  by (simp_all add: lock_row_def holds_lock_def)

lemma consumer_claim_row:
  assumes inv: "proxy_inv db" and claim: "ClaimProxy p env owner ttl db = (Inr (Some r), db1)"
  shows "freshPredicate p (en_stmt env) r \<and> pr_Protocol r \<in> set supported_protocols
         \<and> null_or_due (pr_DestinationCooldownUntil r) (en_stmt env)
         \<and> row_by_id (pr_ID r) db1 = Some r \<and> pr_LockedBy r = Some owner \<and> holds_lock owner (en_stmt2 env) r"
proof -
  from ClaimProxy_result [OF claim] obtain r0 where r0: "r0 \<in> set (px_rows db)"
    "claimable p (en_stmt env) ttl r0" "r = lock_row owner (en_stmt2 env) r0"
    "db1 = update_where (\<lambda>x. pr_ID x = pr_ID r0) (lock_row owner (en_stmt2 env)) db" by blast
  from inv have d: "distinct (map pr_ID (px_rows db))" by (simp add: proxy_inv_def)
  have "row_by_id (pr_ID r) db1 = Some r"
    using row_by_id_unique [OF d r0(1)] r0 by (simp add: row_by_id_update_where)
  with r0(2,3) show ?thesis
    by (auto simp: holds_lock_def claimable_def lock_row_def freshPredicate_def)
qed

section \<open>Fencing of leases over sequences of writes\<close>

lemma token_stays_gone:
  assumes "proxy_inv db" and "row_by_id i db = Some r" and "pr_ScanToken r = None"
    and "\<forall>op \<in> set ops. \<not> claims_token t op"
  shows "\<exists>r'. row_by_id i (apply_ops p ops db) = Some r' \<and> pr_ScanToken r' \<noteq> Some t"
  using apply_ops_row [of db i r "\<lambda>r. pr_ScanToken r \<noteq> Some t" ops p] assms row_step_token_gone by auto

lemma lease_survives:
  assumes "proxy_inv db" and "row_by_id i db = Some r" and "holds_lease tok v t r"
    and "\<forall>op \<in> set ops. \<not> may_end_lease i tok t op"
  shows "\<exists>r'. row_by_id i (apply_ops p ops db) = Some r' \<and> holds_lease tok v t r'"
  using apply_ops_row [of db i r "holds_lease tok v t" ops p] assms row_step_keeps_lease by auto

lemma claimed_row:
  assumes inv: "proxy_inv db" and claim: "ClaimScans p env q n (Inr tok) db = (Inr ls, db1)"
    and l: "l \<in> set ls"
  shows "row_by_id (pr_ID (sl_Record l)) db1 = Some (sl_Record l)
     \<and> sl_Token l = tok
     \<and> pr_ScanLeaseUntil (sl_Record l) = Some (en_clock env (pr_ID (sl_Record l)) + po_LeaseDuration p)
     \<and> holds_lease tok (sl_Version l) (en_clock env (pr_ID (sl_Record l)) + po_LeaseDuration p) (sl_Record l)"
proof -
  from inv have d: "distinct (map pr_ID (px_rows db))" by (simp add: proxy_inv_def)
  from ClaimScans_result [OF d claim] have ls: "ls = map (\<lambda>r. lease_of tok (lease_row p env tok r)) (chosen p env q n db)"
    and db1: "db1 = update_where (\<lambda>r. pr_ID r \<in> set (map pr_ID (chosen p env q n db))) (lease_row p env tok) db"
    by auto
  from l ls obtain r where r: "r \<in> set (chosen p env q n db)" "l = lease_of tok (lease_row p env tok r)" by auto
  have "row_by_id (pr_ID r) db = Some r"
    using row_by_id_unique [OF d] chosen_eligible [OF r(1)] by blast
  then show ?thesis
    using r db1 by (auto simp: row_by_id_update_where lease_of_def holds_lease_def lease_row_def)
qed

lemma token_blocks_completion:
  assumes inv: "proxy_inv db" and row: "row_by_id (pr_ID (sl_Record l)) db = Some r"
    and none: "pr_ScanToken r = None" and ops: "\<forall>op \<in> set ops. \<not> claims_token (sl_Token l) op"
  shows "fst (CompleteScan env l u (apply_ops p ops db)) \<noteq> Inr True"
proof -
  from token_stays_gone [OF inv row none ops] obtain r' where
    "row_by_id (pr_ID (sl_Record l)) (apply_ops p ops db) = Some r'" "pr_ScanToken r' \<noteq> Some (sl_Token l)" by blast
  with needs_token apply_ops_inv [OF inv] show ?thesis by blast
qed

lemma RecordConsumerFailure_accepted:
  assumes "RecordConsumerFailure env rec owner ttl u db = (Inr True, db')"
  shows "\<exists>cur. row_by_id (pr_ID rec) db = Some cur \<and> pr_LockedBy cur = Some owner
     \<and> after (pr_LockedAt cur) (en_clock env (pr_ID rec) - ttl)
     \<and> pr_ObservationVersion cur = pr_ObservationVersion rec
     \<and> db' = update_where (\<lambda>r. pr_ID r = pr_ID rec)
         (failure_row (en_clock env (pr_ID rec)) u (fst (failureStatus cur (en_clock env (pr_ID rec)) u))
            (snd (failureStatus cur (en_clock env (pr_ID rec)) u))) db"
  using assms by (auto simp: RecordConsumerFailure_def reply_def Let_def simp del: failureStatus_count
      split: option.splits if_splits prod.splits)

lemma failure_row_simps [simp]:
  "pr_ID (failure_row now u s n r) = pr_ID r" "pr_ScanToken (failure_row now u s n r) = None"
  "pr_ObservationVersion (failure_row now u s n r) = pr_ObservationVersion r + 1"
  by (simp_all add: failure_row_def drop_lease_def)

section \<open>Properties\<close>

text \<open>Concrete values for the witnesses: a policy, a call environment without faults, one row.\<close>

definition demo_policy :: ProxyScanPolicy where
  "demo_policy = \<lparr>po_VerifyInterval = 60, po_FreshnessTTL = 120, po_RecoveryBase = 10,
     po_RecoveryCap = 300, po_RecoveryHorizon = 3600, po_LeaseDuration = 30,
     po_MinRepeatInterval = 5, po_InconclusiveRetry = 15, po_DeadAfter = 1000, po_FailThreshold = 3\<rparr>"

definition demo_env :: "timestamp \<Rightarrow> db_env" where
  "demo_env t = \<lparr>en_fault = \<lambda>_. None, en_applied = False, en_stmt = t, en_stmt2 = t, en_clock = \<lambda>_. t,
     en_clock2 = \<lambda>_. t, en_now = t, en_held = [], en_pick = 0\<rparr>"

definition demo_rec :: ProxyRecord where
  "demo_rec = (new_row 7 0 (zero_proxy\<lparr>pr_Protocol := ''http'', pr_IP := ''h'', pr_Port := 80\<rparr>))
     \<lparr>pr_GeneralHealthy := True, pr_LastVerifiedAt := Some 90\<rparr>"

definition demo_db :: proxy_db where
  "demo_db = \<lparr>px_rows = [demo_rec], px_next = 8\<rparr>"

definition demo_update :: "ScanOutcome \<Rightarrow> ScanUpdate" where
  "demo_update out = \<lparr>su_Outcome = out, su_LatencyMS = 12, su_NextDelay = 60, su_RepeatDelay = 5,
     su_RecoveryStep = 1, su_FreshnessTTL = 120, su_DeadAfter = 1000, su_FailThreshold = 3\<rparr>"

definition demo_lease :: ScanLease where
  "demo_lease = lease_of ''t'' (lease_row demo_policy (demo_env 100) ''t'' demo_rec)"

lemmas demo_defs = zero_proxy_def demo_policy_def demo_env_def demo_rec_def demo_db_def demo_update_def demo_lease_def

lemma demo_simps [simp]:
  "sl_Token demo_lease = ''t''" "pr_ID (sl_Record demo_lease) = 7" "po_LeaseDuration demo_policy = 30"
  "en_clock (demo_env t) i = t" "en_stmt (demo_env t) = t" "en_stmt2 (demo_env t) = t"
  "en_fault (demo_env t) st = None" "pr_ID demo_rec = 7"
  by (simp_all add: demo_defs new_row_def lease_of_def lease_row_def)

lemma demo_inv: "proxy_inv demo_db"
  by (simp add: proxy_inv_def demo_defs new_row_def row_ok_def)

definition demo_db1 :: proxy_db where
  "demo_db1 = \<lparr>px_rows = [lease_row demo_policy (demo_env 100) ''t'' demo_rec], px_next = 8\<rparr>"

lemma demo_claim:
  "ClaimScans demo_policy (demo_env 100) ScanVerification 1 (Inr ''t'') demo_db = (Inr [demo_lease], demo_db1)"
proof -
  have "chosen demo_policy (demo_env 100) ScanVerification 1 demo_db = [demo_rec]"
    by (simp add: chosen_def demo_defs new_row_def claimLeaseWhere_def claimQueueWhere_def null_or_due_def)
  then show ?thesis
    using ClaimScans_ok [of demo_db 1 "demo_env 100" demo_policy ScanVerification "''t''"] demo_inv
    by (simp add: proxy_inv_def update_where_def demo_lease_def demo_db1_def)
       (simp add: demo_defs)
qed

text \<open>C11: Any sequence of store writes, with any faults, clocks and lock conflicts, keeps the table
  invariant: unique ids below the sequence, one row per (protocol, ip, port), lease columns that
  are set together with the claimed version equal to the current one, lock columns set together,
  and health only with a verification time.\<close>

theorem store_invariant: "proxy_inv db \<Longrightarrow> proxy_inv (apply_ops p ops db)"
  by (rule apply_ops_inv)

theorem store_invariant_witness:
  "proxy_inv (apply_ops demo_policy [OpInsert (demo_env 1) demo_rec,
     OpClaimScans (demo_env 100) ScanVerification 1 (Inr ''t'')] demo_db)"
  using store_invariant [OF demo_inv] by blast

text \<open>C4: At most one completion of a lease is accepted: after CompleteScan returned (true, nil), a
  replay with the same lease is rejected at any later time and for any update, whatever other
  writes happened in between, as long as no claim draws the same token again.\<close>

theorem completion_at_most_once:
  assumes "proxy_inv db" and "CompleteScan env l u db = (Inr True, db')"
    and "\<forall>op \<in> set ops. \<not> claims_token (sl_Token l) op"
  shows "fst (CompleteScan env2 l u2 (apply_ops p ops db')) \<noteq> Inr True"
proof -
  have "proxy_inv db'" using apply_op_inv [OF assms(1), of p "OpCompleteScan env l u"] assms(2) by simp
  with accepted_no_token [OF assms(1,2)] token_blocks_completion assms(3) show ?thesis by blast
qed

lemma demo_complete:
  "CompleteScan (demo_env 110) demo_lease (demo_update out) demo_db1
     = (Inr True, update_where (fencedWhere demo_lease 110)
         (completed_row (lease_row demo_policy (demo_env 100) ''t'' demo_rec) 110 (demo_update out)) demo_db1)"
  by (simp add: CompleteScan_def reply_def Let_def row_by_id_def fencedWhere_def demo_db1_def
      demo_defs new_row_def lease_row_def lease_of_def after_def)

lemma demo_inv1: "proxy_inv demo_db1"
  using apply_op_inv [OF demo_inv, of demo_policy "OpClaimScans (demo_env 100) ScanVerification 1 (Inr ''t'')"]
  by (simp add: demo_claim)

theorem completion_at_most_once_witness:
  "fst (CompleteScan (demo_env 112) demo_lease (demo_update ScanFailure)
      (apply_ops demo_policy [OpReleaseScan (demo_env 111) demo_lease]
        (snd (CompleteScan (demo_env 110) demo_lease (demo_update ScanSuccess) demo_db1)))) \<noteq> Inr True"
  unfolding demo_complete snd_conv
  by (rule completion_at_most_once [OF demo_inv1 demo_complete]) simp

text \<open>C12: A lease protects its holder: from a claim until the lease expires, no interleaving of other
  writes can make the holder's completion fail, unless somebody presents its token or a
  consumer records a conclusive failure of that row. In particular other replicas' claims at
  earlier database times do not take the row.\<close>

theorem lease_protects_holder:
  assumes inv: "proxy_inv db" and claim: "ClaimScans p env q n (Inr tok) db = (Inr ls, db1)"
    and l: "l \<in> set ls" and i: "i = pr_ID (sl_Record l)"
    and t: "t = en_clock env i + po_LeaseDuration p"
    and ops: "\<forall>op \<in> set ops. \<not> may_end_lease i tok t op"
    and ok: "\<forall>st. en_fault env2 st = None" and time: "en_clock env2 i < t"
  shows "fst (CompleteScan env2 l u (apply_ops p ops db1)) = Inr True"
proof -
  have inv1: "proxy_inv db1" using apply_op_inv [OF inv, of p "OpClaimScans env q n (Inr tok)"] claim by simp
  note row = claimed_row [OF inv claim l, folded i, folded t]
  from row have r: "row_by_id i db1 = Some (sl_Record l)" "holds_lease tok (sl_Version l) t (sl_Record l)"
    "sl_Token l = tok" by simp_all
  from lease_survives [OF inv1 r(1,2) ops] obtain r' where
    "row_by_id i (apply_ops p ops db1) = Some r'" "holds_lease tok (sl_Version l) t r'" by blast
  with CompleteScan_healthy [OF apply_ops_inv [OF inv1], of env2 l p ops r' t u] ok time r(3)
  show ?thesis by (simp add: i)
qed

theorem lease_protects_holder_witness:
  "fst (CompleteScan (demo_env 129) demo_lease (demo_update ScanSuccess)
      (apply_ops demo_policy [OpClaimScans (demo_env 120) ScanVerification 1 (Inr ''s''),
          OpClaimProxy (demo_env 121) ''c'' 10] demo_db1)) = Inr True"
  by (rule lease_protects_holder [OF demo_inv demo_claim, of _ 7 130]) simp_all

text \<open>C13: Two replicas never hold one row at once: while a lease has not been ended by its token, by a
  consumer failure or by expiry, a claim at an earlier database time returns no lease for it.\<close>

theorem claims_exclude_leased_row:
  assumes inv: "proxy_inv db" and claim: "ClaimScans p env q n (Inr tok) db = (Inr ls, db1)"
    and l: "l \<in> set ls" and i: "i = pr_ID (sl_Record l)"
    and t: "t = en_clock env i + po_LeaseDuration p"
    and ops: "\<forall>op \<in> set ops. \<not> may_end_lease i tok t op"
    and early: "en_stmt env2 < t"
    and claim2: "ClaimScans p env2 q2 n2 tok2 (apply_ops p ops db1) = (Inr ls2, db2)"
  shows "i \<notin> (\<lambda>l. pr_ID (sl_Record l)) ` set ls2"
proof
  assume "i \<in> (\<lambda>l. pr_ID (sl_Record l)) ` set ls2"
  have inv1: "proxy_inv db1" using apply_op_inv [OF inv, of p "OpClaimScans env q n (Inr tok)"] claim by simp
  then have inv2: "proxy_inv (apply_ops p ops db1)" by (rule apply_ops_inv)
  then have d: "distinct (map pr_ID (px_rows (apply_ops p ops db1)))" by (simp add: proxy_inv_def)
  from ClaimScans_result [OF d claim2] \<open>i \<in> _\<close> obtain r where
    r: "r \<in> set (chosen p env2 q2 n2 (apply_ops p ops db1))" "pr_ID r = i" by (auto simp: lease_of_def)
  from chosen_eligible [OF r(1)] have due: "claimLeaseWhere (en_stmt env2) r"
    and row: "row_by_id i (apply_ops p ops db1) = Some r" using row_by_id_unique [OF d] r(2) by auto
  note c = claimed_row [OF inv claim l, folded i, folded t]
  from lease_survives [OF inv1 _ _ ops, of "sl_Record l" "sl_Version l" p] c row
  have "holds_lease tok (sl_Version l) t r" by auto
  with due early show False by (simp add: claimLeaseWhere_def holds_lease_def null_or_due_def)
qed

theorem claims_exclude_leased_row_witness:
  "7 \<notin> (\<lambda>l. pr_ID (sl_Record l)) ` set (case fst (ClaimScans demo_policy (demo_env 120) ScanVerification 5
      (Inr ''s'') demo_db1) of Inr ls \<Rightarrow> ls | Inl _ \<Rightarrow> [])"
proof -
  have d: "distinct (map pr_ID (px_rows demo_db1))" using demo_inv1 by (simp add: proxy_inv_def)
  obtain ls2 db2 where c2: "ClaimScans demo_policy (demo_env 120) ScanVerification 5 (Inr ''s'') demo_db1 = (Inr ls2, db2)"
    using ClaimScans_ok [OF d, of 5 "demo_env 120" demo_policy ScanVerification "''s''"] by simp
  then have c3: "ClaimScans demo_policy (demo_env 120) ScanVerification 5 (Inr ''s'')
      (apply_ops demo_policy [] demo_db1) = (Inr ls2, db2)" by simp
  have "7 \<notin> (\<lambda>l. pr_ID (sl_Record l)) ` set ls2"
    by (rule claims_exclude_leased_row [OF demo_inv demo_claim _ _ _ _ _ c3, of demo_lease _ 130]) simp_all
  then show ?thesis by (simp add: c2)
qed

text \<open>C14: A conclusive consumer failure invalidates every scan lease handed out before it: once
  RecordConsumerFailure returned (true, nil) for a row, an earlier lease of that row is rejected,
  whatever happens in between, unless a later claim draws its token again.\<close>

theorem consumer_failure_fences_leases:
  assumes inv: "proxy_inv db" and acc: "RecordConsumerFailure env rec owner ttl u db = (Inr True, db')"
    and l: "pr_ID (sl_Record l) = pr_ID rec"
    and ops: "\<forall>op \<in> set ops. \<not> claims_token (sl_Token l) op"
  shows "fst (CompleteScan env2 l u2 (apply_ops p ops db')) \<noteq> Inr True"
proof -
  have "proxy_inv db'" using apply_op_inv [OF inv, of p "OpConsumerFailure env rec owner ttl u"] acc by simp
  moreover from RecordConsumerFailure_accepted [OF acc] have
    "\<exists>r. row_by_id (pr_ID rec) db' = Some r \<and> pr_ScanToken r = None"
    by (auto simp: row_by_id_update_where dest: row_by_id_Some)
  ultimately show ?thesis using token_blocks_completion ops l by metis
qed

definition demo_locked :: proxy_db where
  "demo_locked = \<lparr>px_rows = [lock_row ''c'' 105 (lease_row demo_policy (demo_env 100) ''t'' demo_rec)], px_next = 8\<rparr>"

lemma demo_locked_inv: "proxy_inv demo_locked"
  by (simp add: proxy_inv_def demo_locked_def row_ok_def lock_row_def lease_row_def demo_defs new_row_def)

theorem consumer_failure_fences_leases_witness:
  "fst (CompleteScan (demo_env 112) demo_lease (demo_update ScanSuccess)
      (snd (RecordConsumerFailure (demo_env 111) demo_rec ''c'' 60 (demo_update ScanFailure) demo_locked)))
    \<noteq> Inr True"
proof -
  have acc: "fst (RecordConsumerFailure (demo_env 111) demo_rec ''c'' 60 (demo_update ScanFailure) demo_locked) = Inr True"
    by (simp add: RecordConsumerFailure_def reply_def Let_def row_by_id_def demo_locked_def lock_row_def
        lease_row_def after_def split: prod.splits)
  then obtain db' where "RecordConsumerFailure (demo_env 111) demo_rec ''c'' 60 (demo_update ScanFailure) demo_locked
      = (Inr True, db')" by (metis prod.collapse)
  from consumer_failure_fences_leases [OF demo_locked_inv this, of demo_lease "[]"] show ?thesis
    by (simp add: \<open>_ = (Inr True, db')\<close>)
qed

text \<open>Evidence of health comes only from a scan: over any sequence of writes, a row that turns
  healthy, or whose verification time changes, does so by an accepted completion with
  outcome success (a consumer, a claim, a lock or an inconclusive scan never does).\<close>

lemma health_evidence_only_from_success:
  assumes inv: "proxy_inv db" and row: "row_by_id i db = Some r"
    and row': "row_by_id i (apply_ops p ops db) = Some r'"
    and change: "(\<not> pr_GeneralHealthy r \<and> pr_GeneralHealthy r') \<or> pr_LastVerifiedAt r \<noteq> pr_LastVerifiedAt r'"
  shows "\<exists>env l u. OpCompleteScan env l u \<in> set ops \<and> su_Outcome u = ScanSuccess
           \<and> pr_ID (sl_Record l) = i"
proof (rule ccontr)
  assume no: "\<not> ?thesis"
  let ?Q = "\<lambda>x. (pr_GeneralHealthy x \<longrightarrow> pr_GeneralHealthy r) \<and> pr_LastVerifiedAt x = pr_LastVerifiedAt r"
  have "\<exists>r'. row_by_id i (apply_ops p ops db) = Some r' \<and> ?Q r'"
  proof (rule apply_ops_row [OF inv row])
    fix op x y
    assume op: "op \<in> set ops" "pr_ID x = i" "?Q x" "row_step p op x y"
    show "?Q y"
    proof (rule ccontr)
      assume "\<not> ?Q y"
      with op(3) row_step_healthy [OF op(4)] obtain env l u where
        "op = OpCompleteScan env l u" "su_Outcome u = ScanSuccess" "fencedWhere l (en_clock env (pr_ID x)) x" by auto
      with no op(1,2) show False by (auto simp: fencedWhere_def)
    qed
  qed simp
  with row' change show False by auto
qed

text \<open>An inconclusive completion leaves the evidence of its row as it was: health, status,
  failure count, recovery step, version, latency, success times, consumer lock and destination
  cooldown; it only records the attempt, reschedules the row and ends the lease.\<close>

lemma inconclusive_preserves_evidence:
  assumes "proxy_inv db" and "CompleteScan env l u db = (Inr True, db')" and "su_Outcome u = ScanInconclusive"
  shows "\<exists>r now. row_by_id (pr_ID (sl_Record l)) db = Some r \<and> now = en_clock env (pr_ID r)
     \<and> row_by_id (pr_ID (sl_Record l)) db' = Some (r\<lparr>pr_ScanToken := None, pr_ScanLeaseUntil := None,
          pr_ClaimedVersion := None, pr_LastCompletedAt := Some now,
          pr_NextAttemptAt := Some (now + su_NextDelay u), pr_ScanNotBefore := Some (now + su_RepeatDelay u),
          pr_UpdatedAt := now\<rparr>)"
proof -
  from assms(1) have d: "distinct (map pr_ID (px_rows db))" by (simp add: proxy_inv_def)
  let ?i = "pr_ID (sl_Record l)"
  from CompleteScan_accepted [OF assms(2)] fenced_row [OF d] obtain r cur where
    r: "row_by_id ?i db = Some r" "fencedWhere l (en_clock env ?i) r"
    "db' = update_where (fencedWhere l (en_clock env ?i)) (completed_row cur (en_clock env ?i) u) db" by blast
  then have "pr_ID r = ?i" by (simp add: fencedWhere_def)
  with r assms(3) show ?thesis
    by (auto simp: row_by_id_update_where completed_row_def inconclusive_row_def drop_lease_def)
qed

text \<open>A consumer that claims a proxy receives one that is healthy, verified within the freshness
  TTL, of a supported protocol and not cooling down, and until it gives the row up (release,
  failure report or cooldown under its own name) or its lock outlives the claimants' TTL, it stays the owner,
  whatever other writes happen.\<close>

lemma consumer_lock_exclusive:
  assumes inv: "proxy_inv db" and claim: "ClaimProxy p env owner ttl db = (Inr (Some r), db1)"
    and ops: "\<forall>op \<in> set ops. \<not> may_take_lock owner (en_stmt2 env) op"
  shows "freshPredicate p (en_stmt env) r \<and> pr_Protocol r \<in> set supported_protocols
         \<and> null_or_due (pr_DestinationCooldownUntil r) (en_stmt env)
         \<and> (\<exists>r'. row_by_id (pr_ID r) (apply_ops p ops db1) = Some r' \<and> pr_LockedBy r' = Some owner)"
proof -
  note row = consumer_claim_row [OF inv claim]
  have inv1: "proxy_inv db1" using apply_op_inv [OF inv, of p "OpClaimProxy env owner ttl"] claim by simp
  from apply_ops_row [of db1 "pr_ID r" r "holds_lock owner (en_stmt2 env)" ops p] inv1 row
  have "\<exists>r'. row_by_id (pr_ID r) (apply_ops p ops db1) = Some r' \<and> holds_lock owner (en_stmt2 env) r'"
    using ops row_step_keeps_lock by blast
  then show ?thesis using row by (auto simp: holds_lock_def)
qed

end
