(* ===== verification/Scan_Worker.thy ===== *)
theory Scan_Worker
  imports Guard Admission Scan_Fencing "HOL-Library.AList"
begin

text \<open>
  domain/proxy/worker/scan.go: the scan dispatcher. One goroutine owns the scheduling state
  (\<open>dispatcher\<close>); the store, the guard and the clock are the operations \<open>scan_ops\<close> over an abstract
  world state. \<open>scan_step\<close> interleaves the dispatcher with the executors. The locale
  \<open>scan_store\<close> states what the dispatcher needs from the ProxyScanStore port, and the interpretation
  at the end discharges it for the PostgreSQL model. The laws proved here: the capacity
  invariant, that channel sends never block, that an admission pass wastes no capacity, and that
  the guard recheck fences persisted failures.
\<close>

section \<open>State\<close>

record 's scan_ops =
  so_Claim :: "ScanQueue \<Rightarrow> int \<Rightarrow> 's \<Rightarrow> ScanLease list result \<times> 's"
  so_Complete :: "ScanLease \<Rightarrow> ScanUpdate \<Rightarrow> 's \<Rightarrow> bool result \<times> 's"
  so_Release :: "ScanLease \<Rightarrow> 's \<Rightarrow> unit result \<times> 's"
  so_Guard :: "'s \<Rightarrow> GuardSnapshot"
  so_Now :: "'s \<Rightarrow> timestamp"
  so_Cancelled :: "'s \<Rightarrow> bool"

record scanJob =
  sj_lease :: ScanLease
  sj_queue :: ScanQueue

record scanResult =
  sr_lease :: ScanLease
  sr_queue :: ScanQueue
  sr_latency :: int
  sr_err :: "err option"
  sr_duration :: duration
  sr_startSnap :: GuardSnapshot
  sr_finishSnap :: GuardSnapshot
  sr_cancelled :: bool
  sr_panicked :: bool

record dispatcher =
  di_jobs :: "scanJob list"
  di_targets :: "int arr3"
  di_small :: bool
  di_free :: int
  di_inFlight :: "int arr3"
  di_adm :: admission
  di_owned :: "(int \<times> ScanLease) list"

definition newDispatcher :: "int \<Rightarrow> int arr3 \<Rightarrow> dispatcher" where
  "newDispatcher concurrency targets =
     \<lparr>di_jobs = [], di_targets = targets, di_small = (concurrency < 3), di_free = concurrency,
      di_inFlight = A3 0 0 0, di_adm = \<lparr>ad_credits = A3 0 0 0, ad_borrower = 0\<rparr>, di_owned = []\<rparr>"

fun queue_of_index :: "nat \<Rightarrow> ScanQueue" where
  "queue_of_index i = (if i = 0 then ScanVerification else if i = 1 then ScanRecovery else ScanBackground)"

section \<open>Pauses and bounds\<close>

record claimPause =
  pa_until :: timestamp
  pa_backoff :: duration

definition no_pause :: claimPause where
  "no_pause = \<lparr>pa_until = 0, pa_backoff = 0\<rparr>"

definition claimPauseFloor :: duration where "claimPauseFloor = 100 * millisecond"
definition claimPauseCeil :: duration where "claimPauseCeil = second"
definition defaultStoreTimeout :: duration where "defaultStoreTimeout = 5 * second"

definition pause_active :: "timestamp \<Rightarrow> claimPause \<Rightarrow> bool" where
  "pause_active now p = (now < pa_until p)"

definition engage :: "timestamp \<Rightarrow> claimPause \<Rightarrow> claimPause" where
  "engage now p =
     (let b = (if pa_backoff p \<le> 0 then claimPauseFloor
               else if pa_backoff p * 2 > claimPauseCeil then claimPauseCeil else pa_backoff p * 2)
      in \<lparr>pa_until = now + b, pa_backoff = b\<rparr>)"

definition lift :: "claimPause \<Rightarrow> claimPause" where
  "lift p = p\<lparr>pa_backoff := 0, pa_until := 0\<rparr>"

definition claimTimeout :: "ProxyScanPolicy \<Rightarrow> duration" where
  "claimTimeout p = (if po_LeaseDuration p \<le> 0 then defaultStoreTimeout else go_div (po_LeaseDuration p) 2)"

definition storeTimeout :: "ProxyScanPolicy \<Rightarrow> duration" where
  "storeTimeout p =
     (let limit = (if po_LeaseDuration p > 0 then min (go_div (po_LeaseDuration p) 2) (2 * second)
                   else defaultStoreTimeout)
      in if limit < 250 * millisecond then 250 * millisecond else limit)"

fun queueName :: "ScanQueue \<Rightarrow> string" where
  "queueName ScanVerification = ''verification''"
| "queueName ScanRecovery = ''recovery''"
| "queueName ScanBackground = ''background''"

fun outcomeName :: "ScanOutcome \<Rightarrow> string" where
  "outcomeName ScanSuccess = ''success''"
| "outcomeName ScanFailure = ''failure''"
| "outcomeName ScanInconclusive = ''inconclusive''"

definition checkReason :: "err option \<Rightarrow> string" where
  "checkReason e =
     (case e of
        None \<Rightarrow> []
      | Some e' \<Rightarrow>
          (case errors_as e' of
             Some ce \<Rightarrow> if ce_Reason ce \<noteq> [] then ce_Reason ce else kind_string (ce_Kind ce)
           | None \<Rightarrow> ''untyped''))"

section \<open>Admission passes\<close>

type_synonym 's pass = "dispatcher \<times> claimPause \<times> bool arr3 \<times> 's"

definition start_lease :: "ScanQueue \<Rightarrow> ScanLease \<Rightarrow> dispatcher \<Rightarrow> dispatcher" where
  "start_lease q lease d =
     d\<lparr>di_inFlight := set3 (di_inFlight d) (queue_index q) (get3 (di_inFlight d) (queue_index q) + 1),
       di_free := di_free d - 1,
       di_owned := AList.update (pr_ID (sl_Record lease)) lease (di_owned d),
       di_jobs := di_jobs d @ [\<lparr>sj_lease = lease, sj_queue = q\<rparr>]\<rparr>"

definition claimDue :: "'s scan_ops \<Rightarrow> ScanQueue \<Rightarrow> int \<Rightarrow> 's pass \<Rightarrow> bool \<times> 's pass" where
  "claimDue ops q limit st =
     (case st of (d, pause, emp, s) \<Rightarrow>
        (case so_Claim ops q limit s of
           (Inl e, s') \<Rightarrow>
             (False, d, (if \<not> so_Cancelled ops s' then engage (so_Now ops s') pause else pause), emp, s')
         | (Inr leases, s') \<Rightarrow>
             if leases = [] then (True, d, lift pause, set3 emp (queue_index q) True, s')
             else (True, fold (start_lease q) leases d, lift pause, emp, s')))"

fun fill_queues :: "'s scan_ops \<Rightarrow> nat list \<Rightarrow> 's pass \<Rightarrow> 's pass" where
  "fill_queues ops [] st = st"
| "fill_queues ops (i # is) st =
     (let d = fst st; deficit = get3 (di_targets d) i - get3 (di_inFlight d) i
      in if deficit \<le> 0 \<or> di_free d \<le> 0 then fill_queues ops is st
         else let limit = min deficit (di_free d)
              in if limit > 0
                 then (case claimDue ops (queue_of_index i) limit st of
                         (ok, st') \<Rightarrow> if \<not> ok then st' else fill_queues ops is st')
                 else fill_queues ops is st)"

definition fillReservations :: "'s scan_ops \<Rightarrow> 's pass \<Rightarrow> 's pass" where
  "fillReservations ops st = fill_queues ops [0, 1, 2] st"

text \<open>
  The queue of the next borrowed claim: the small-worker round robin below a concurrency of three,
  otherwise the first queue after the last borrower that has not returned empty in this pass.
\<close>

definition next_borrower :: "dispatcher \<Rightarrow> bool arr3 \<Rightarrow> nat option" where
  "next_borrower d emp =
     find (\<lambda>i. \<not> get3 emp i) (map (\<lambda>step. (ad_borrower (di_adm d) + 1 + step) mod 3) [0, 1, 2])"

definition borrow_queue :: "int arr3 \<Rightarrow> dispatcher \<Rightarrow> bool arr3 \<Rightarrow> nat option \<times> dispatcher" where
  "borrow_queue weights d emp =
     (if di_small d
      then (let available = A3 (\<not> get3 emp 0) (\<not> get3 emp 1) (\<not> get3 emp 2)
            in case chooseSmall (di_adm d) available weights of
                 (q, adm) \<Rightarrow> (q, d\<lparr>di_adm := adm\<rparr>))
      else (next_borrower d emp, d))"

definition open_queues :: "bool arr3 \<Rightarrow> nat" where
  "open_queues e = (case e of A3 a b c \<Rightarrow> (if a then 0 else 1) + (if b then 0 else 1) + (if c then 0 else 1))"

lemma fold_start_lease_free [simp]: "di_free (fold (start_lease q) ls d) = di_free d - int (length ls)"
  by (induction ls arbitrary: d) (auto simp: start_lease_def)

lemma borrow_queue_open:
  assumes "borrow_queue weights d emp = (Some i, d')"
  shows "i < 3 \<and> \<not> get3 emp i \<and> di_free d' = di_free d"
proof (cases "di_small d")
  case True
  with assms obtain adm where "chooseSmall (di_adm d) (A3 (\<not> get3 emp 0) (\<not> get3 emp 1) (\<not> get3 emp 2)) weights
      = (Some i, adm)" "d' = d\<lparr>di_adm := adm\<rparr>"
    by (auto simp: borrow_queue_def Let_def split: prod.splits)
  with chooseSmall_available [OF this(1)] show ?thesis
    by (cases emp) (auto split: if_splits)
next
  case False
  with assms show ?thesis
    by (auto simp: borrow_queue_def next_borrower_def find_Some_iff split: if_splits)
qed

lemma open_queues_mark: "i < 3 \<Longrightarrow> \<not> get3 emp i \<Longrightarrow> open_queues (set3 emp i True) < open_queues emp"
  by (cases emp) (auto simp: open_queues_def split: if_splits)

lemma queue_index_of [simp]: "i < 3 \<Longrightarrow> queue_index (queue_of_index i) = i"
  by auto

declare queue_of_index.simps [simp del]

lemma borrow_decreases:
  assumes claim: "(True, d'', pause', emp', s') = claimDue ops (queue_of_index i) 1 (d', pause, emp, s)"
    and q: "(Some i, d') = borrow_queue weights d emp" and free: "\<not> di_free d \<le> 0"
  shows "nat (di_free d'') + open_queues emp' < nat (di_free d) + open_queues emp"
proof -
  from borrow_queue_open [OF q [symmetric]] have i: "i < 3" "\<not> get3 emp i" "di_free d' = di_free d" by auto
  show ?thesis
    using claim [symmetric] i free open_queues_mark [of i emp]
    by (auto simp: claimDue_def split: prod.splits sum.splits if_splits)
qed

function borrow :: "'s scan_ops \<Rightarrow> int arr3 \<Rightarrow> 's pass \<Rightarrow> 's pass" where
  "borrow ops weights (d, pause, emp, s) =
     (if di_free d \<le> 0 then (d, pause, emp, s)
      else case borrow_queue weights d emp of
             (None, d') \<Rightarrow> (d', pause, emp, s)
           | (Some i, d') \<Rightarrow>
               (case claimDue ops (queue_of_index i) 1 (d', pause, emp, s) of
                  (ok, d'', pause', emp', s') \<Rightarrow>
                    if \<not> ok then (d'', pause', emp', s')
                    else borrow ops weights
                           ((if di_small d then d'' else d''\<lparr>di_adm := (di_adm d'')\<lparr>ad_borrower := i\<rparr>\<rparr>),
                            pause', emp', s')))"
  by pat_completeness auto
termination
  by (relation "measure (\<lambda>(ops, weights, d, pause, emp, s). nat (di_free d) + open_queues emp)")
     (auto intro!: borrow_decreases)

definition admit :: "'s scan_ops \<Rightarrow> int arr3 \<Rightarrow> dispatcher \<times> claimPause \<times> 's \<Rightarrow> dispatcher \<times> claimPause \<times> 's" where
  "admit ops weights st =
     (case st of (d, pause, s) \<Rightarrow>
        if di_free d \<le> 0 \<or> pause_active (so_Now ops s) pause then (d, pause, s)
        else if \<not> gs_Healthy (so_Guard ops s) then (d, pause, s)
        else (case borrow ops weights (fillReservations ops (d, pause, A3 False False False, s)) of
                (d', pause', emp', s') \<Rightarrow> (d', pause', s')))"

section \<open>Completions\<close>

definition releaseLease :: "'s scan_ops \<Rightarrow> ScanLease \<Rightarrow> 's \<Rightarrow> 's" where
  "releaseLease ops lease s = snd (so_Release ops lease s)"

definition effectiveFinish :: "scanResult \<Rightarrow> GuardSnapshot \<Rightarrow> GuardSnapshot" where
  "effectiveFinish res recheck =
     (if gs_Generation recheck \<noteq> gs_Generation (sr_startSnap res) then recheck else sr_finishSnap res)"

definition scan_update :: "ProxyScanPolicy \<Rightarrow> scanResult \<Rightarrow> GuardSnapshot \<Rightarrow> ScanUpdate" where
  "scan_update p res recheck =
     MakeScanUpdate p (sl_Record (sr_lease res)) (sr_latency res) (sr_err res) (sr_startSnap res)
       (effectiveFinish res recheck)"

text \<open>The last component tells whether the notifier fired.\<close>

definition scan_finish :: "'s scan_ops \<Rightarrow> ProxyScanPolicy \<Rightarrow> scanResult \<Rightarrow> claimPause \<times> 's
    \<Rightarrow> claimPause \<times> 's \<times> bool" where
  "scan_finish ops p res st =
     (case st of (pause, s) \<Rightarrow>
        (let update = scan_update p res (so_Guard ops s)
         in case so_Complete ops (sr_lease res) update s of
              (Inl e, s') \<Rightarrow> (engage (so_Now ops s') pause, s', False)
            | (Inr accepted, s') \<Rightarrow> (lift pause, s', accepted \<and> su_Outcome update = ScanSuccess)))"

definition handle :: "'s scan_ops \<Rightarrow> ProxyScanPolicy \<Rightarrow> scanResult \<Rightarrow> dispatcher \<times> claimPause \<times> 's
    \<Rightarrow> dispatcher \<times> claimPause \<times> 's \<times> bool" where
  "handle ops p res st =
     (case st of (d, pause, s) \<Rightarrow>
        (let i = queue_index (sr_queue res);
             d' = d\<lparr>di_inFlight := set3 (di_inFlight d) i (get3 (di_inFlight d) i - 1),
                    di_free := di_free d + 1,
                    di_owned := AList.delete (pr_ID (sl_Record (sr_lease res))) (di_owned d)\<rparr>
         in if sr_panicked res then (d', pause, releaseLease ops (sr_lease res) s, False)
            else if sr_cancelled res then (d', pause, releaseLease ops (sr_lease res) s, False)
            else (case scan_finish ops p res (pause, s) of (pause', s', fired) \<Rightarrow> (d', pause', s', fired))))"

text \<open>\<open>drain\<close>: the results delivered before the shutdown timer, as long as leases are owned.\<close>

fun drain :: "'s scan_ops \<Rightarrow> ProxyScanPolicy \<Rightarrow> scanResult list \<Rightarrow> dispatcher \<times> claimPause \<times> 's
    \<Rightarrow> dispatcher \<times> claimPause \<times> 's" where
  "drain ops p [] st = st"
| "drain ops p (res # rs) (d, pause, s) =
     (if di_owned d = [] then (d, pause, s)
      else case handle ops p res (d, pause, s) of
             (d', pause', s', fired) \<Rightarrow> drain ops p rs (d', pause', s'))"

definition releaseOutstanding :: "'s scan_ops \<Rightarrow> dispatcher \<Rightarrow> 's \<Rightarrow> 's" where
  "releaseOutstanding ops d s = fold (\<lambda>(i, lease). releaseLease ops lease) (di_owned d) s"

text \<open>\<open>runCheck\<close>: a check returns a latency and an error, or panics.\<close>

datatype check_outcome = Panics | Returns int "err option"

definition scan_runCheck :: "scanJob \<Rightarrow> GuardSnapshot \<Rightarrow> check_outcome \<Rightarrow> duration \<Rightarrow> GuardSnapshot \<Rightarrow> bool
    \<Rightarrow> scanResult" where
  "scan_runCheck job start out dur finish cancelled =
     (let base = \<lparr>sr_lease = sj_lease job, sr_queue = sj_queue job, sr_latency = 0, sr_err = None,
                  sr_duration = 0, sr_startSnap = start,
                  sr_finishSnap = \<lparr>gs_Healthy = False, gs_Generation = 0\<rparr>,
                  sr_cancelled = False, sr_panicked = False\<rparr>
      in case out of
           Panics \<Rightarrow> base\<lparr>sr_panicked := True, sr_err := None\<rparr>
         | Returns latency e \<Rightarrow>
             base\<lparr>sr_latency := latency, sr_err := e, sr_duration := dur, sr_finishSnap := finish,
                  sr_cancelled := cancelled\<rparr>)"

definition RunScan_check :: "int \<Rightarrow> int arr3 \<Rightarrow> err option" where
  "RunScan_check concurrency weights =
     (if concurrency \<le> 0
      then Some (EText (''proxy scan: concurrency must be positive, got '' @ show_int concurrency))
      else case find (\<lambda>i. get3 weights i \<le> 0) [0, 1, 2] of
             Some i \<Rightarrow> Some (EText (''proxy scan: queue weight '' @ show_nat i @ '' must be positive, got ''
                              @ show_int (get3 weights i)))
           | None \<Rightarrow> None)"

section \<open>The dispatch loop and its executors\<close>

record 's scan_state =
  st_disp :: dispatcher
  st_pause :: claimPause
  st_running :: "scanJob list"
  st_results :: "scanResult list"
  st_world :: 's
  st_fired :: nat

definition scan_start :: "int \<Rightarrow> int arr3 \<Rightarrow> 's \<Rightarrow> 's scan_state" where
  "scan_start concurrency targets s =
     \<lparr>st_disp = newDispatcher concurrency targets, st_pause = no_pause, st_running = [],
      st_results = [], st_world = s, st_fired = 0\<rparr>"

inductive scan_step :: "'s scan_ops \<Rightarrow> ProxyScanPolicy \<Rightarrow> int arr3 \<Rightarrow> ('s \<Rightarrow> 's \<Rightarrow> bool) \<Rightarrow> 's scan_state \<Rightarrow> 's scan_state \<Rightarrow> bool"
  for ops :: "'s scan_ops" and p :: ProxyScanPolicy and weights :: "int arr3" and world :: "'s \<Rightarrow> 's \<Rightarrow> bool" where
  world: "world (st_world st) s' \<Longrightarrow> scan_step ops p weights world st (st\<lparr>st_world := s'\<rparr>)"
| take_job: "di_jobs (st_disp st) = j # js \<Longrightarrow>
    scan_step ops p weights world st
      (st\<lparr>st_disp := (st_disp st)\<lparr>di_jobs := js\<rparr>, st_running := j # st_running st\<rparr>)"
| check_done: "st_running st = us @ j # vs \<Longrightarrow>
    scan_step ops p weights world st
      (st\<lparr>st_running := us @ vs, st_results := st_results st @ [scan_runCheck j start out dur finish cancelled]\<rparr>)"
| handle: "st_results st = res # rs \<Longrightarrow>
    handle ops p res (st_disp st, st_pause st, st_world st) = (d', pause', s', fired) \<Longrightarrow>
    scan_step ops p weights world st
      (st\<lparr>st_results := rs, st_disp := d', st_pause := pause', st_world := s',
          st_fired := st_fired st + (if fired then 1 else 0)\<rparr>)"
| admit: "admit ops weights (st_disp st, st_pause st, st_world st) = (d', pause', s') \<Longrightarrow>
    scan_step ops p weights world st (st\<lparr>st_disp := d', st_pause := pause', st_world := s'\<rparr>)"

inductive scan_reachable :: "'s scan_ops \<Rightarrow> ProxyScanPolicy \<Rightarrow> int arr3 \<Rightarrow> ('s \<Rightarrow> 's \<Rightarrow> bool) \<Rightarrow> 's scan_state \<Rightarrow> 's scan_state \<Rightarrow> bool"
  for ops :: "'s scan_ops" and p :: ProxyScanPolicy and weights :: "int arr3" and world :: "'s \<Rightarrow> 's \<Rightarrow> bool"
  and st0 :: "'s scan_state" where
  start: "scan_reachable ops p weights world st0 st0"
| step: "scan_reachable ops p weights world st0 st \<Longrightarrow> scan_step ops p weights world st st' \<Longrightarrow>
    scan_reachable ops p weights world st0 st'"

section \<open>Capacity\<close>

definition queued :: "ScanQueue \<Rightarrow> scanJob list \<Rightarrow> int" where
  "queued q js = int (length (filter (\<lambda>j. sj_queue j = q) js))"

definition delivered :: "ScanQueue \<Rightarrow> scanResult list \<Rightarrow> int" where
  "delivered q rs = int (length (filter (\<lambda>r. sr_queue r = q) rs))"

text \<open>\<open>busy q\<close> counts the jobs of queue \<open>q\<close> that have left the job channel and are not handled yet.\<close>

definition disp_inv :: "int \<Rightarrow> (ScanQueue \<Rightarrow> int) \<Rightarrow> dispatcher \<Rightarrow> bool" where
  "disp_inv c busy d \<longleftrightarrow> 0 \<le> di_free d \<and> di_free d + sum3 (di_inFlight d) = c
     \<and> (\<forall>q. get3 (di_inFlight d) (queue_index q) = busy q + queued q (di_jobs d))"

definition scan_inv :: "int \<Rightarrow> 's scan_state \<Rightarrow> bool" where
  "scan_inv c st \<longleftrightarrow>
     disp_inv c (\<lambda>q. queued q (st_running st) + delivered q (st_results st)) (st_disp st)"

lemma queued_simps [simp]:
  "queued q [] = 0" "queued q (j # js) = (if sj_queue j = q then 1 else 0) + queued q js"
  "queued q (js @ ks) = queued q js + queued q ks"
  by (auto simp: queued_def)

lemma delivered_simps [simp]:
  "delivered q [] = 0" "delivered q (r # rs) = (if sr_queue r = q then 1 else 0) + delivered q rs"
  "delivered q (rs @ ss) = delivered q rs + delivered q ss"
  by (auto simp: delivered_def)

lemma queue_index_inj [simp]: "queue_index q = queue_index q' \<longleftrightarrow> q = q'"
  by (cases q; cases q') auto

lemma get3_set3_queue:
  "get3 (set3 a (queue_index q) v) (queue_index q') = (if q = q' then v else get3 a (queue_index q'))"
  using get3_set3_other [of "queue_index q" "queue_index q'" a v] by auto

lemma start_lease_inv:
  "disp_inv c busy d \<Longrightarrow> 1 \<le> di_free d \<Longrightarrow> disp_inv c busy (start_lease q l d)"
  by (auto simp: disp_inv_def start_lease_def get3_set3_queue)

lemma start_leases_inv:
  "disp_inv c busy d \<Longrightarrow> int (length ls) \<le> di_free d \<Longrightarrow> disp_inv c busy (fold (start_lease q) ls d)"
proof (induction ls arbitrary: d)
  case (Cons l ls)
  have "di_free (start_lease q l d) = di_free d - 1" by (simp add: start_lease_def)
  with Cons start_lease_inv [of c busy d q l] show ?case by simp
qed simp

lemma outstanding_sum:
  assumes "disp_inv c busy d"
  shows "(\<Sum>q \<in> {ScanVerification, ScanRecovery, ScanBackground}. busy q + queued q (di_jobs d)) = c - di_free d"
proof -
  have f: "get3 (di_inFlight d) (queue_index q) = busy q + queued q (di_jobs d)" for q
    using assms by (simp add: disp_inv_def)
  have "sum3 (di_inFlight d) = c - di_free d" using assms by (simp add: disp_inv_def)
  then show ?thesis
    using f [of ScanVerification] f [of ScanRecovery] f [of ScanBackground]
    by (cases "di_inFlight d") auto
qed

lemma length_queued: "int (length js) = queued ScanVerification js + queued ScanRecovery js + queued ScanBackground js"
  by (induction js) (auto split: if_splits, metis (full_types) ScanQueue.exhaust)

lemma length_delivered:
  "int (length rs) = delivered ScanVerification rs + delivered ScanRecovery rs + delivered ScanBackground rs"
  by (induction rs) (auto split: if_splits, metis (full_types) ScanQueue.exhaust)

lemma scan_inv_lengths:
  assumes "scan_inv c st"
  shows "int (length (di_jobs (st_disp st)) + length (st_running st) + length (st_results st))
           = c - di_free (st_disp st)"
  using outstanding_sum [OF assms [unfolded scan_inv_def]] length_queued [of "st_running st"]
    length_queued [of "di_jobs (st_disp st)"] length_delivered [of "st_results st"] by simp

lemma borrow_queue_inv:
  "disp_inv c busy d \<Longrightarrow> borrow_queue weights d emp = (q, d') \<Longrightarrow> disp_inv c busy d'"
  by (auto simp: borrow_queue_def disp_inv_def Let_def split: if_splits prod.splits)

lemma disp_inv_adm [simp]: "disp_inv c busy (d\<lparr>di_adm := a\<rparr>) \<longleftrightarrow> disp_inv c busy d"
  by (simp add: disp_inv_def)

lemma handle_inv:
  assumes "disp_inv c busy d" and "handle ops p res (d, pause, s) = (d', pause', s', fired)"
    and "0 < get3 (di_inFlight d) (queue_index (sr_queue res))"
  shows "disp_inv c (\<lambda>q. busy q - (if q = sr_queue res then 1 else 0)) d'"
  using assms by (auto simp: handle_def disp_inv_def Let_def get3_set3_queue split: if_splits prod.splits)

section \<open>The store interface\<close>

text \<open>
  What the dispatcher relies on: a claim returns at most as many leases as asked for, and every
  store call, and whatever the rest of the world does, keeps the store's own invariant.
\<close>

locale scan_store =
  fixes ops :: "'s scan_ops" and inv :: "'s \<Rightarrow> bool" and world :: "'s \<Rightarrow> 's \<Rightarrow> bool"
  assumes claim_bounded: "inv s \<Longrightarrow> so_Claim ops q n s = (Inr ls, s') \<Longrightarrow> int (length ls) \<le> max 0 n"
    and claim_inv: "inv s \<Longrightarrow> inv (snd (so_Claim ops q n s))"
    and complete_inv: "inv s \<Longrightarrow> inv (snd (so_Complete ops l u s))"
    and release_inv: "inv s \<Longrightarrow> inv (snd (so_Release ops l s))"
    and world_inv: "inv s \<Longrightarrow> world s s' \<Longrightarrow> inv s'"
begin

definition pass_inv :: "int \<Rightarrow> (ScanQueue \<Rightarrow> int) \<Rightarrow> 's pass \<Rightarrow> bool" where
  "pass_inv c busy st \<longleftrightarrow> (case st of (d, pause, emp, s) \<Rightarrow> disp_inv c busy d \<and> inv s)"

lemma claimDue_inv:
  assumes "pass_inv c busy (d, pause, emp, s)" and "0 < n" and "n \<le> di_free d"
    and "claimDue ops q n (d, pause, emp, s) = (ok, st')"
  shows "pass_inv c busy st'"
proof -
  obtain r s1 where c: "so_Claim ops q n s = (r, s1)" by fastforce
  have inv1: "inv s1" using claim_inv [of s q n] assms(1) c by (simp add: pass_inv_def)
  show ?thesis
  proof (cases r)
    case (Inl e)
    with c assms inv1 show ?thesis by (auto simp: claimDue_def pass_inv_def)
  next
    case (Inr ls)
    with c claim_bounded [of s q n ls s1] assms have "int (length ls) \<le> di_free d" by (simp add: pass_inv_def)
    with Inr c assms inv1 start_leases_inv [of c busy d ls q] show ?thesis
      by (auto simp: claimDue_def pass_inv_def split: if_splits)
  qed
qed

lemma fill_queues_inv: "pass_inv c busy st \<Longrightarrow> pass_inv c busy (fill_queues ops is st)"
proof (induction "is" arbitrary: st)
  case (Cons i "is")
  obtain d pause emp s where st: "st = (d, pause, emp, s)" by (cases st) auto
  let ?n = "min (get3 (di_targets d) i - get3 (di_inFlight d) i) (di_free d)"
  obtain ok st' where c: "claimDue ops (queue_of_index i) ?n st = (ok, st')"
    by (cases "claimDue ops (queue_of_index i) ?n st") auto
  have "0 < ?n \<Longrightarrow> pass_inv c busy st'"
    using claimDue_inv [of c busy d pause emp s ?n "queue_of_index i" ok st'] Cons.prems c st by simp
  with Cons c st show ?case by (auto simp: Let_def)
qed simp

lemma borrow_inv: "ops' = ops \<Longrightarrow> pass_inv c busy st \<Longrightarrow> pass_inv c busy (borrow ops' weights st)"
proof (induction ops' weights st rule: borrow.induct)
  case (1 opsa weights d pause emp s)
  show ?case
  proof (cases "di_free d \<le> 0")
    case True
    then show ?thesis using 1 by simp
  next
    case False
    obtain q d' where q: "borrow_queue weights d emp = (q, d')" by (cases "borrow_queue weights d emp") auto
    have inv': "pass_inv c busy (d', pause, emp, s)"
      using borrow_queue_inv [OF _ q] 1(3) by (auto simp: pass_inv_def)
    show ?thesis
    proof (cases q)
      case None
      then show ?thesis using inv' q False by simp
    next
      case (Some i)
      obtain ok d'' pause' emp' s' where
        c: "claimDue ops (queue_of_index i) 1 (d', pause, emp, s) = (ok, d'', pause', emp', s')"
        by (metis prod_cases5)
      have "di_free d' = di_free d" using borrow_queue_open q Some by blast
      then have inv'': "pass_inv c busy (d'', pause', emp', s')"
        using claimDue_inv [OF inv' _ _ c] False by simp
      then have inv3: "pass_inv c busy ((if di_small d then d'' else d''\<lparr>di_adm := (di_adm d'')\<lparr>ad_borrower := i\<rparr>\<rparr>),
          pause', emp', s')" by (simp add: pass_inv_def)
      show ?thesis
        using 1(1) [OF False q [symmetric] Some, of ok "(d'', pause', emp', s')" d'' "(pause', emp', s')"
            pause' "(emp', s')" emp' s'] 1(2) inv3 inv'' False q Some c
        by (cases ok) auto
    qed
  qed
qed

lemma admit_inv:
  assumes "disp_inv c busy d" and "inv s" and "admit ops weights (d, pause, s) = (d', pause', s')"
  shows "disp_inv c busy d' \<and> inv s'"
proof -
  have "pass_inv c busy (borrow ops weights (fillReservations ops (d, pause, A3 False False False, s)))"
    using assms(1,2) unfolding fillReservations_def
    by (intro borrow_inv refl fill_queues_inv) (simp add: pass_inv_def)
  then show ?thesis
    using assms by (auto simp: admit_def pass_inv_def split: if_splits prod.splits)
qed

lemma handle_world_inv: "inv s \<Longrightarrow> handle ops p res (d, pause, s) = (d', pause', s', fired) \<Longrightarrow> inv s'"
  using complete_inv [of s] release_inv [of s]
  by (auto simp: handle_def scan_finish_def releaseLease_def Let_def split: if_splits prod.splits sum.splits)
     (metis snd_conv)+

lemma scan_step_inv:
  assumes "scan_step ops p weights world st st'" and "scan_inv c st" and "inv (st_world st)"
  shows "scan_inv c st' \<and> inv (st_world st')"
  using assms
proof (induction rule: scan_step.induct)
  case (world st s')
  then show ?case using world_inv by (auto simp: scan_inv_def)
next
  case (take_job st j js)
  then show ?case by (auto simp: scan_inv_def disp_inv_def)
next
  case (check_done st us j vs start out dur finish cancelled)
  have "sr_queue (scan_runCheck j start out dur finish cancelled) = sj_queue j"
    by (simp add: scan_runCheck_def Let_def split: check_outcome.splits)
  with check_done show ?case by (auto simp: scan_inv_def disp_inv_def)
next
  case (handle st res rs d' pause' s' fired)
  let ?busy = "\<lambda>q. queued q (st_running st) + delivered q (st_results st)"
  have d: "disp_inv c ?busy (st_disp st)" using handle by (simp add: scan_inv_def)
  have "0 \<le> queued (sr_queue res) (st_running st)" "0 \<le> queued (sr_queue res) (di_jobs (st_disp st))"
    "0 \<le> delivered (sr_queue res) rs" by (simp_all add: queued_def delivered_def)
  moreover have "get3 (di_inFlight (st_disp st)) (queue_index (sr_queue res))
      = queued (sr_queue res) (st_running st) + (1 + delivered (sr_queue res) rs)
        + queued (sr_queue res) (di_jobs (st_disp st))"
    using d handle(1) by (simp add: disp_inv_def)
  ultimately have "0 < get3 (di_inFlight (st_disp st)) (queue_index (sr_queue res))" by linarith
  from handle_inv [OF d handle(2) this] handle(1) have "disp_inv c (\<lambda>q. queued q (st_running st) + delivered q rs) d'"
    by (simp add: disp_inv_def)
  then show ?case using handle_world_inv [OF handle(4) handle(2)] by (simp add: scan_inv_def)
next
  case (admit st d' pause' s')
  from admit_inv [OF admit(2) [unfolded scan_inv_def] admit(3) admit(1)]
  show ?case by (simp add: scan_inv_def)
qed

lemma scan_reachable_inv:
  assumes "scan_reachable ops p weights world (scan_start c targets s) st" and "0 \<le> c" and "inv s"
  shows "scan_inv c st \<and> inv (st_world st)"
  using assms
proof (induction rule: scan_reachable.induct)
  case start
  then show ?case by (simp add: scan_inv_def disp_inv_def scan_start_def newDispatcher_def)
next
  case (step st st')
  then show ?case using scan_step_inv by blast
qed

end

section \<open>Work conservation\<close>

lemma rotation_complete: "{(b + 1) mod 3, (b + 1 + 1) mod 3, (b + 1 + 2) mod 3} = {0, 1, 2 :: nat}"
proof -
  consider "b mod 3 = 0" | "b mod 3 = 1" | "b mod 3 = 2" by linarith
  then show ?thesis by cases (auto simp: mod_simps; presburger)+
qed

lemma next_borrower_None:
  assumes "next_borrower d emp = None"
  shows "emp = A3 True True True"
proof -
  let ?b = "ad_borrower (di_adm d)"
  have "\<forall>i \<in> {(?b + 1) mod 3, (?b + 1 + 1) mod 3, (?b + 1 + 2) mod 3}. get3 emp i"
    using assms by (auto simp: next_borrower_def split: if_splits)
  then have "\<forall>i \<in> {0, 1, 2}. get3 emp i" unfolding rotation_complete .
  then show ?thesis by (cases emp) auto
qed

lemma borrow_queue_None:
  assumes "borrow_queue weights d emp = (None, d')"
  shows "emp = A3 True True True"
proof (cases "di_small d")
  case True
  with assms have "fst (chooseSmall (di_adm d) (A3 (\<not> get3 emp 0) (\<not> get3 emp 1) (\<not> get3 emp 2)) weights) = None"
    by (auto simp: borrow_queue_def Let_def split: prod.splits)
  then show ?thesis unfolding chooseSmall_None_iff by (cases emp) auto
next
  case False
  with assms show ?thesis by (auto simp: borrow_queue_def intro: next_borrower_None)
qed

lemma claimDue_ok:
  "so_Claim ops q n s = (Inr ls, s') \<Longrightarrow> fst (claimDue ops q n (d, pause, emp, s))"
  by (simp add: claimDue_def)

lemma borrow_fills:
  assumes "\<forall>q n s. \<exists>ls s'. so_Claim ops q n s = (Inr ls, s')"
  shows "borrow ops weights st = (d', pause', emp', s') \<Longrightarrow> di_free d' \<le> 0 \<or> emp' = A3 True True True"
  using assms
proof (induction ops weights st arbitrary: rule: borrow.induct)
  case (1 ops weights d pause emp s)
  show ?case
  proof (cases "di_free d \<le> 0")
    case True
    then show ?thesis using 1 by simp
  next
    case False
    obtain q e where q: "borrow_queue weights d emp = (q, e)" by (cases "borrow_queue weights d emp") auto
    show ?thesis
    proof (cases q)
      case None
      then show ?thesis using 1(2) q False borrow_queue_None by auto
    next
      case (Some i)
      obtain ok d'' p'' e'' s'' where
        c: "claimDue ops (queue_of_index i) 1 (e, pause, emp, s) = (ok, d'', p'', e'', s'')"
        by (metis prod_cases5)
      have ok: "ok" using 1(3) claimDue_ok c by (metis fst_conv)
      show ?thesis
        using 1(1) [OF False q [symmetric] Some, of ok "(d'', p'', e'', s'')" d'' "(p'', e'', s'')"
            p'' "(e'', s'')" e'' s''] 1(2,3) ok False q Some c by simp
    qed
  qed
qed

section \<open>The PostgreSQL store as provider\<close>

text \<open>
  The world of the dispatcher with the repository of Scan\_Store behind the port: the table and a
  counter of calls, which selects the environment, token, clock and guard reading of each call.
\<close>

record pg_world =
  pw_db :: proxy_db
  pw_tick :: nat

record pg_inputs =
  pi_env :: "nat \<Rightarrow> db_env"
  pi_token :: "nat \<Rightarrow> string result"
  pi_now :: "nat \<Rightarrow> timestamp"
  pi_guard :: "nat \<Rightarrow> GuardSnapshot"
  pi_cancelled :: "nat \<Rightarrow> bool"

definition pg_call :: "('a result \<times> proxy_db) \<Rightarrow> pg_world \<Rightarrow> 'a result \<times> pg_world" where
  "pg_call r w = (fst r, w\<lparr>pw_db := snd r, pw_tick := pw_tick w + 1\<rparr>)"

definition pg_scan_ops :: "ProxyScanPolicy \<Rightarrow> pg_inputs \<Rightarrow> pg_world scan_ops" where
  "pg_scan_ops p inp =
     \<lparr>so_Claim = (\<lambda>q n w. pg_call (ClaimScans p (pi_env inp (pw_tick w)) q n (pi_token inp (pw_tick w)) (pw_db w)) w),
      so_Complete = (\<lambda>l u w. pg_call (CompleteScan (pi_env inp (pw_tick w)) l u (pw_db w)) w),
      so_Release = (\<lambda>l w. pg_call (ReleaseScan (pi_env inp (pw_tick w)) l (pw_db w)) w),
      so_Guard = (\<lambda>w. pi_guard inp (pw_tick w)),
      so_Now = (\<lambda>w. pi_now inp (pw_tick w)),
      so_Cancelled = (\<lambda>w. pi_cancelled inp (pw_tick w))\<rparr>"

definition pg_others :: "ProxyScanPolicy \<Rightarrow> pg_world \<Rightarrow> pg_world \<Rightarrow> bool" where
  "pg_others p w w' \<longleftrightarrow> (\<exists>ops. pw_db w' = apply_ops p ops (pw_db w))"

lemma ClaimScans_length:
  assumes "proxy_inv db" and "ClaimScans p env q n tok db = (Inr ls, db')"
  shows "int (length ls) \<le> max 0 n"
proof -
  from assms(1) have d: "distinct (map pr_ID (px_rows db))" by (simp add: proxy_inv_def)
  from ClaimScans_result [OF d assms(2)] chosen_props(5) [OF d, of p env q n] show ?thesis by auto
qed

interpretation pg_store: scan_store "pg_scan_ops p inp" "\<lambda>w. proxy_inv (pw_db w)" "pg_others p"
  for p :: ProxyScanPolicy and inp :: pg_inputs
proof unfold_locales
  fix s :: pg_world
  assume inv: "proxy_inv (pw_db s)"
  show "int (length ls) \<le> max 0 n" if "so_Claim (pg_scan_ops p inp) q n s = (Inr ls, s')" for q n ls s'
    using that ClaimScans_length [OF inv, of p "pi_env inp (pw_tick s)" q n "pi_token inp (pw_tick s)" ls]
    by (auto simp: pg_scan_ops_def pg_call_def prod_eq_iff)
  show "proxy_inv (pw_db (snd (so_Claim (pg_scan_ops p inp) q n s)))" for q n
    using apply_op_inv [OF inv, of p "OpClaimScans (pi_env inp (pw_tick s)) q n (pi_token inp (pw_tick s))"]
    by (simp add: pg_scan_ops_def pg_call_def)
  show "proxy_inv (pw_db (snd (so_Complete (pg_scan_ops p inp) l u s)))" for l u
    using apply_op_inv [OF inv, of p "OpCompleteScan (pi_env inp (pw_tick s)) l u"]
    by (simp add: pg_scan_ops_def pg_call_def)
  show "proxy_inv (pw_db (snd (so_Release (pg_scan_ops p inp) l s)))" for l
    using apply_op_inv [OF inv, of p "OpReleaseScan (pi_env inp (pw_tick s)) l"]
    by (simp add: pg_scan_ops_def pg_call_def)
  show "proxy_inv (pw_db s')" if "pg_others p s s'" for s'
    using that apply_ops_inv [OF inv] by (auto simp: pg_others_def)
qed

section \<open>Properties\<close>

text \<open>C39: The dispatcher never oversubscribes: in every state that RunScan reaches with the PostgreSQL
  store, whatever checks, faults, guard readings and other replicas do, the free slots and the
  checks in flight add up to the concurrency, no counter is negative, and queued, running
  and finished checks together never exceed the concurrency, so that no send on the job or
  result channel (both of that capacity) ever blocks.\<close>

theorem dispatcher_capacity:
  assumes "0 < c" and "proxy_inv db"
    and "scan_reachable (pg_scan_ops p inp) p weights (pg_others p)
           (scan_start c targets \<lparr>pw_db = db, pw_tick = 0\<rparr>) st"
  shows "0 \<le> di_free (st_disp st) \<and> di_free (st_disp st) + sum3 (di_inFlight (st_disp st)) = c
     \<and> (\<forall>q. 0 \<le> get3 (di_inFlight (st_disp st)) (queue_index q))
     \<and> int (length (di_jobs (st_disp st)) + length (st_running st) + length (st_results st)) \<le> c"
proof -
  have inv: "scan_inv c st"
    using pg_store.scan_reachable_inv [OF assms(3)] assms(1,2) by simp
  then have "0 \<le> get3 (di_inFlight (st_disp st)) (queue_index q)" for q
    by (simp add: scan_inv_def disp_inv_def queued_def delivered_def)
  with inv scan_inv_lengths [OF inv] show ?thesis by (simp add: scan_inv_def disp_inv_def)
qed

text \<open>The demonstration row is admitted, and an executor has taken its check.\<close>

definition quiet_inputs :: pg_inputs where
  "quiet_inputs = \<lparr>pi_env = (\<lambda>n. demo_env 100), pi_token = (\<lambda>n. Inr ''t''), pi_now = (\<lambda>n. 100),
     pi_guard = (\<lambda>n. \<lparr>gs_Healthy = True, gs_Generation = 0\<rparr>), pi_cancelled = (\<lambda>n. False)\<rparr>"

definition quiet_start :: "pg_world scan_state" where
  "quiet_start = scan_start 4 (A3 2 1 1) \<lparr>pw_db = demo_db, pw_tick = 0\<rparr>"

lemma quiet_admission:
  "case admit (pg_scan_ops demo_policy quiet_inputs) (A3 50 30 20) (st_disp quiet_start, st_pause quiet_start, st_world quiet_start) of
     (d, pause, s) \<Rightarrow> length (di_jobs d) = 1"
  by code_simp

theorem dispatcher_capacity_witness:
  "\<exists>st. scan_reachable (pg_scan_ops demo_policy quiet_inputs) demo_policy (A3 50 30 20) (pg_others demo_policy) quiet_start st
     \<and> length (st_running st) = 1 \<and> 0 \<le> di_free (st_disp st) \<and> di_free (st_disp st) + sum3 (di_inFlight (st_disp st)) = 4"
proof -
  let ?ops = "pg_scan_ops demo_policy quiet_inputs"
  obtain d pause s j where a: "admit ?ops (A3 50 30 20) (st_disp quiet_start, st_pause quiet_start, st_world quiet_start) = (d, pause, s)"
    and j: "di_jobs d = [j]"
    using quiet_admission by (auto split: prod.splits simp: length_Suc_conv)
  let ?st = "quiet_start\<lparr>st_disp := d, st_pause := pause, st_world := s\<rparr>"
  let ?st' = "?st\<lparr>st_disp := d\<lparr>di_jobs := []\<rparr>, st_running := [j]\<rparr>"
  have "st_running quiet_start = []" by (simp add: quiet_start_def scan_start_def)
  then have "scan_step ?ops demo_policy (A3 50 30 20) (pg_others demo_policy) ?st ?st'"
    using scan_step.take_job [of ?st j "[]" ?ops] j by simp
  then have r: "scan_reachable ?ops demo_policy (A3 50 30 20) (pg_others demo_policy) quiet_start ?st'"
    by (rule scan_reachable.step [OF scan_reachable.step [OF scan_reachable.start scan_step.admit [OF a]]])
  from dispatcher_capacity [OF _ demo_inv this [unfolded quiet_start_def]] r show ?thesis
    by (intro exI [of _ ?st']) (auto simp: quiet_start_def)
qed

text \<open>An admission pass wastes no capacity: when the store answers every claim, borrowing ends
  only with no free slot left or after each of the three queues answered with no due row.\<close>

lemma borrow_work_conserving:
  assumes "\<forall>q n s. \<exists>ls s'. so_Claim ops q n s = (Inr ls, s')"
    and "borrow ops weights (d, pause, emp, s) = (d', pause', emp', s')"
  shows "di_free d' \<le> 0 \<or> emp' = A3 True True True"
  using borrow_fills [OF assms(1,2)] .

definition idle_ops :: "unit scan_ops" where
  "idle_ops = \<lparr>so_Claim = (\<lambda>q n s. (Inr [], s)), so_Complete = (\<lambda>l u s. (Inr False, s)),
     so_Release = (\<lambda>l s. (Inr (), s)), so_Guard = (\<lambda>s. \<lparr>gs_Healthy = True, gs_Generation = 0\<rparr>),
     so_Now = (\<lambda>s. 1), so_Cancelled = (\<lambda>s. False)\<rparr>"

text \<open>A failure is persisted only under a quiet guard: when the update that finish persists is a
  conclusive failure, every control request completed between the start of the check and the
  recheck right before persistence succeeded.\<close>

lemma persisted_failure_fenced:
  assumes "sr_startSnap res = guard_run cs" and "sr_finishSnap res = guard_run (cs @ ds)"
    and "recheck = guard_run (cs @ ds @ es)" and "length (ds @ es) < 2 ^ 64"
    and "su_Outcome (scan_update p res recheck) = ScanFailure"
  shows "list_all (\<lambda>d. d = None) (ds @ es)"
proof -
  from assms(5) have h: "gs_Healthy (sr_startSnap res)"
    "gs_Generation (sr_startSnap res) = gs_Generation (effectiveFinish res recheck)"
    by (auto simp: scan_update_def ClassifyCheck_failure_iff)
  then have "gs_Generation recheck = gs_Generation (sr_startSnap res)"
    by (auto simp: effectiveFinish_def split: if_splits)
  then have "gs_Generation (fold control (ds @ es) (guard_run cs)) = gs_Generation (guard_run cs)"
    using assms(1,3) by (simp add: guard_run_append)
  with no_outage_between [of "guard_run cs" "ds @ es"] assms(1,4) h(1) show ?thesis by simp
qed

text \<open>The bounds on store calls respect the lease: a persistence call is bounded by at least 250ms
  and, for a lease of half a second or more, by at most half the lease; a claim by half the lease.\<close>

lemma store_call_bounds:
  assumes "500 * millisecond \<le> po_LeaseDuration p"
  shows "250 * millisecond \<le> storeTimeout p \<and> 2 * storeTimeout p \<le> po_LeaseDuration p
     \<and> 2 * claimTimeout p \<le> po_LeaseDuration p"
  using assms by (auto simp: storeTimeout_def claimTimeout_def go_div_nonneg Let_def time_units min_def)

end
