(* ===== verification/Proxy_Hub.thy ===== *)
theory Proxy_Hub
  imports Scan_Worker Json
begin

text \<open>
  domain/proxy: the consumer side of the proxy pool (proxy.go, hub.go) and the ingestion of
  discovered proxies (service.go, handler/). The repository port is the record
  \<open>proxy_repo\<close> of operations over an abstract world state. The locale \<open>proxy_pool\<close> states the
  contract that the hub relies on, and the interpretation at the end discharges it for the
  PostgreSQL repository. The laws proved here: a proxy that NewProxy hands out is locked by its
  owner, a rejected one is not left locked, and ingestion keeps one row per endpoint.
\<close>

section \<open>The repository port\<close>

record 's proxy_repo =
  re_Exists :: "string \<Rightarrow> string \<Rightarrow> int \<Rightarrow> 's \<Rightarrow> bool result \<times> 's"
  re_InsertIfAbsent :: "ProxyRecord \<Rightarrow> 's \<Rightarrow> (int \<times> bool) result \<times> 's"
  re_ClaimProxy :: "string \<Rightarrow> duration \<Rightarrow> 's \<Rightarrow> ProxyRecord option result \<times> 's"
  re_RefreshConsumerLock :: "int \<Rightarrow> string \<Rightarrow> duration \<Rightarrow> 's \<Rightarrow> ProxyRecord option result \<times> 's"
  re_RecordConsumerFailure :: "ProxyRecord \<Rightarrow> string \<Rightarrow> duration \<Rightarrow> ScanUpdate \<Rightarrow> 's \<Rightarrow> bool result \<times> 's"
  re_CooldownDestination :: "int \<Rightarrow> string \<Rightarrow> duration \<Rightarrow> duration \<Rightarrow> 's \<Rightarrow> unit result \<times> 's"
  re_ReleaseProxy :: "int \<Rightarrow> string \<Rightarrow> 's \<Rightarrow> unit result \<times> 's"
  re_RandomActive :: "int list \<Rightarrow> 's \<Rightarrow> ProxyRecord option result \<times> 's"

section \<open>Proxy (proxy.go)\<close>

record Proxy =
  dp_record :: ProxyRecord
  dp_policy :: ProxyScanPolicy

definition Address :: "Proxy \<Rightarrow> string" where
  "Address p = pr_Protocol (dp_record p) @ ''://'' @ pr_IP (dp_record p) @ '':'' @ show_int (pr_Port (dp_record p))"

definition CanUse :: "'s proxy_repo \<Rightarrow> Proxy \<Rightarrow> string \<Rightarrow> duration \<Rightarrow> 's \<Rightarrow> bool result \<times> Proxy \<times> 's" where
  "CanUse repo p owner lockTTL s =
     (case re_RefreshConsumerLock repo (pr_ID (dp_record p)) owner lockTTL s of
        (Inl e, s') \<Rightarrow> (Inl (wrapped ''refresh consumer lock'' e), p, s')
      | (Inr None, s') \<Rightarrow> (Inr False, p, s')
      | (Inr (Some fresh), s') \<Rightarrow> (Inr True, p\<lparr>dp_record := fresh\<rparr>, s'))"

definition MarkFailed :: "'s proxy_repo \<Rightarrow> Proxy \<Rightarrow> string \<Rightarrow> duration \<Rightarrow> 's \<Rightarrow> bool result \<times> 's" where
  "MarkFailed repo p owner lockTTL s =
     re_RecordConsumerFailure repo (dp_record p) owner lockTTL
       (MakeConsumerFailureUpdate (dp_policy p) (dp_record p)) s"

definition Proxy_CooldownDestination :: "'s proxy_repo \<Rightarrow> Proxy \<Rightarrow> string \<Rightarrow> duration \<Rightarrow> duration \<Rightarrow> 's
    \<Rightarrow> unit result \<times> 's" where
  "Proxy_CooldownDestination repo p owner lockTTL delay s =
     re_CooldownDestination repo (pr_ID (dp_record p)) owner lockTTL delay s"

definition Release :: "'s proxy_repo \<Rightarrow> Proxy \<Rightarrow> string \<Rightarrow> 's \<Rightarrow> unit result \<times> Proxy \<times> 's" where
  "Release repo p owner s =
     (case re_ReleaseProxy repo (pr_ID (dp_record p)) owner s of
        (Inl e, s') \<Rightarrow> (Inl e, p, s')
      | (Inr _, s') \<Rightarrow> (Inr (), p\<lparr>dp_record := (dp_record p)\<lparr>pr_LockedBy := None, pr_LockedAt := None\<rparr>\<rparr>, s'))"

section \<open>ProxyHub (hub.go)\<close>

text \<open>\<open>hb_checker\<close> is \<open>None\<close> for a hub without a destination checker.\<close>

record 's ProxyHub =
  hb_repo :: "'s proxy_repo"
  hb_lockTTL :: duration
  hb_checker :: "(string \<Rightarrow> string \<Rightarrow> int \<Rightarrow> 's \<Rightarrow> (int \<times> err option) \<times> 's) option"
  hb_destCooldown :: duration
  hb_policy :: ProxyScanPolicy

definition new_Proxy :: "'s ProxyHub \<Rightarrow> ProxyRecord \<Rightarrow> Proxy" where
  "new_Proxy h rec = \<lparr>dp_record = rec, dp_policy = hb_policy h\<rparr>"

definition releaseClaim :: "'s ProxyHub \<Rightarrow> Proxy \<Rightarrow> string \<Rightarrow> 's \<Rightarrow> 's" where
  "releaseClaim h p owner s = snd (snd (Release (hb_repo h) p owner s))"

definition reject_claim :: "'s ProxyHub \<Rightarrow> Proxy \<Rightarrow> string \<Rightarrow> err \<Rightarrow> 's \<Rightarrow> Proxy option result \<times> 's" where
  "reject_claim h p owner e s =
     (case errors_as e of
        None \<Rightarrow> (Inr None, releaseClaim h p owner s)
      | Some ce \<Rightarrow>
          (case ce_Kind ce of
             CheckProxy \<Rightarrow>
               (case MarkFailed (hb_repo h) p owner (hb_lockTTL h) s of
                  (Inl e', s') \<Rightarrow> (Inl e', s')
                | (Inr _, s') \<Rightarrow> (Inr None, releaseClaim h p owner s'))
           | CheckTarget \<Rightarrow>
               (case Proxy_CooldownDestination (hb_repo h) p owner (hb_lockTTL h)
                       (max (ce_RetryAfter ce) (hb_destCooldown h)) s of
                  (Inl e', s') \<Rightarrow> (Inl e', s')
                | (Inr _, s') \<Rightarrow> (Inr None, s'))
           | _ \<Rightarrow> (Inr None, releaseClaim h p owner s)))"

definition NewProxy :: "'s ProxyHub \<Rightarrow> string \<Rightarrow> 's \<Rightarrow> Proxy option result \<times> 's" where
  "NewProxy h owner s =
     (case re_ClaimProxy (hb_repo h) owner (hb_lockTTL h) s of
        (Inl e, s1) \<Rightarrow> (Inl e, s1)
      | (Inr None, s1) \<Rightarrow> (Inr None, s1)
      | (Inr (Some rec), s1) \<Rightarrow>
          (let p = new_Proxy h rec
           in case hb_checker h of
                None \<Rightarrow> (Inr (Some p), s1)
              | Some check \<Rightarrow>
                  (case check (pr_Protocol rec) (pr_IP rec) (pr_Port rec) s1 of
                     ((_, None), s2) \<Rightarrow>
                       (case re_RefreshConsumerLock (hb_repo h) (pr_ID rec) owner (hb_lockTTL h) s2 of
                          (Inl e, s3) \<Rightarrow> (Inl e, s3)
                        | (Inr None, s3) \<Rightarrow> (Inr None, releaseClaim h p owner s3)
                        | (Inr (Some current), s3) \<Rightarrow> (Inr (Some (new_Proxy h current)), s3))
                   | ((_, Some e), s2) \<Rightarrow> reject_claim h p owner e s2)))"

text \<open>The notification channel has a buffer of one: \<open>True\<close> when a signal is pending.\<close>

definition NotifyAvailable :: "bool \<Rightarrow> bool" where
  "NotifyAvailable pending = True"

definition WaitAvailable :: "sentinel option \<Rightarrow> bool \<Rightarrow> (err option \<times> bool) option" where
  "WaitAvailable ctxErr pending =
     (if pending then Some (None, False)
      else case ctxErr of Some e \<Rightarrow> Some (Some (ESent e), pending) | None \<Rightarrow> None)"

definition RandomActiveExcluding :: "'s ProxyHub \<Rightarrow> int list \<Rightarrow> 's \<Rightarrow> Proxy option result \<times> 's" where
  "RandomActiveExcluding h excludeIDs s =
     (case re_RandomActive (hb_repo h) excludeIDs s of
        (Inl e, s') \<Rightarrow> (Inl e, s')
      | (Inr rec, s') \<Rightarrow> (Inr (map_option (new_Proxy h) rec), s'))"

definition Hub_RandomActive :: "'s ProxyHub \<Rightarrow> 's \<Rightarrow> Proxy option result \<times> 's" where
  "Hub_RandomActive h s =
     (case re_RandomActive (hb_repo h) [] s of
        (Inl e, s') \<Rightarrow> (Inl e, s')
      | (Inr rec, s') \<Rightarrow> (Inr (map_option (new_Proxy h) rec), s'))"

definition SwapActive :: "'s ProxyHub \<Rightarrow> Proxy option \<Rightarrow> 's \<Rightarrow> Proxy option result \<times> 's" where
  "SwapActive h current s =
     (case current of
        None \<Rightarrow> Hub_RandomActive h s
      | Some c \<Rightarrow>
          (case re_RandomActive (hb_repo h) [pr_ID (dp_record c)] s of
             (Inl e, s') \<Rightarrow> (Inl e, s')
           | (Inr rec, s') \<Rightarrow> (Inr (map_option (new_Proxy h) rec), s')))"

section \<open>Ingestion (service.go, handler/)\<close>

record NewProxyPayload =
  np_Protocol :: string
  np_IP :: string
  np_Port :: int
  np_Country :: "string option"
  np_Anonymity :: "string option"
  np_Source :: string
  np_UptimePercent :: "rat option"

definition EventNewProxy :: string where
  "EventNewProxy = ''new-proxy''"

definition ProcessNewProxy :: "'s proxy_repo \<Rightarrow> NewProxyPayload \<Rightarrow> 's \<Rightarrow> err option \<times> 's" where
  "ProcessNewProxy repo q s =
     (case re_Exists repo (np_Protocol q) (np_IP q) (np_Port q) s of
        (Inl e, s1) \<Rightarrow> (Some e, s1)
      | (Inr True, s1) \<Rightarrow> (None, s1)
      | (Inr False, s1) \<Rightarrow>
          (let rec = zero_proxy\<lparr>pr_Protocol := np_Protocol q, pr_IP := np_IP q, pr_Port := np_Port q,
                       pr_Country := np_Country q, pr_Anonymity := np_Anonymity q,
                       pr_Source := np_Source q, pr_UptimePercent := np_UptimePercent q\<rparr>
           in case re_InsertIfAbsent repo rec s1 of
                (Inl e, s2) \<Rightarrow> (Some e, s2)
              | (Inr _, s2) \<Rightarrow> (None, s2)))"

definition proxy_fields :: "string list" where
  "proxy_fields = [''protocol'', ''ip'', ''port'', ''country'', ''anonymity'', ''source'', ''uptime_percent'']"

definition encode_NewProxy :: "NewProxyPayload \<Rightarrow> json" where
  "encode_NewProxy q =
     JObj ([(''protocol'', JStr (np_Protocol q)), (''ip'', JStr (np_IP q)), (''port'', JInt (np_Port q))]
           @ omitempty ''country'' JStr (np_Country q) @ omitempty ''anonymity'' JStr (np_Anonymity q)
           @ [(''source'', JStr (np_Source q))]
           @ omitempty ''uptime_percent'' enc_float (np_UptimePercent q))"

definition NewProxyJob :: "NewProxyPayload \<Rightarrow> QueueJob" where
  "NewProxyJob q = \<lparr>qj_Type = EventNewProxy, qj_Payload = Some (encode_NewProxy q)\<rparr>"

definition zero_NewProxyPayload :: NewProxyPayload where
  "zero_NewProxyPayload = \<lparr>np_Protocol = [], np_IP = [], np_Port = 0, np_Country = None,
     np_Anonymity = None, np_Source = [], np_UptimePercent = None\<rparr>"

definition decode_NewProxy :: "payload \<Rightarrow> NewProxyPayload result" where
  "decode_NewProxy pl =
     (case pl of
        None \<Rightarrow> Inl (EText ''invalid character in JSON document'')
      | Some JNull \<Rightarrow> Inr zero_NewProxyPayload
      | Some (JObj kvs) \<Rightarrow>
          (let (protocol, b1) = dec_field dec_string [] proxy_fields ''protocol'' kvs;
               (ip, b2) = dec_field dec_string [] proxy_fields ''ip'' kvs;
               (port, b3) = dec_field dec_int 0 proxy_fields ''port'' kvs;
               (country, b4) = dec_field dec_string_ptr None proxy_fields ''country'' kvs;
               (anonymity, b5) = dec_field dec_string_ptr None proxy_fields ''anonymity'' kvs;
               (source, b6) = dec_field dec_string [] proxy_fields ''source'' kvs;
               (uptime, b7) = dec_field dec_float_ptr None proxy_fields ''uptime_percent'' kvs
           in if b1 \<or> b2 \<or> b3 \<or> b4 \<or> b5 \<or> b6 \<or> b7 then Inl (json_error ''NewProxyPayload'')
              else Inr \<lparr>np_Protocol = protocol, np_IP = ip, np_Port = port, np_Country = country,
                        np_Anonymity = anonymity, np_Source = source, np_UptimePercent = uptime\<rparr>)
      | Some _ \<Rightarrow> Inl (json_error ''NewProxyPayload''))"

definition NewProxy_Handle :: "'s proxy_repo \<Rightarrow> payload \<Rightarrow> 's \<Rightarrow> QueueJob list result \<times> 's" where
  "NewProxy_Handle repo pl s =
     (case decode_NewProxy pl of
        Inl e \<Rightarrow> (Inl (wrapped ''new-proxy payload'' e), s)
      | Inr q \<Rightarrow>
          (case ProcessNewProxy repo q s of
             (Some e, s') \<Rightarrow> (Inl e, s')
           | (None, s') \<Rightarrow> (Inr [], s')))"

section \<open>The pool contract\<close>

text \<open>
  \<open>locked i owner s\<close>: the row \<open>i\<close> is locked by \<open>owner\<close>; \<open>usable\<close>: what a claim or refresh vouches
  for. A reported success means that the effect took place; a reported error promises nothing.
\<close>

locale proxy_pool =
  fixes repo :: "'s proxy_repo" and inv :: "'s \<Rightarrow> bool"
    and locked :: "int \<Rightarrow> string \<Rightarrow> 's \<Rightarrow> bool" and usable :: "ProxyRecord \<Rightarrow> 's \<Rightarrow> bool"
  assumes claim_locks: "inv s \<Longrightarrow> re_ClaimProxy repo owner ttl s = (Inr (Some r), s')
      \<Longrightarrow> locked (pr_ID r) owner s' \<and> usable r s"
    and refresh_locks: "inv s \<Longrightarrow> re_RefreshConsumerLock repo i owner ttl s = (Inr (Some r), s')
      \<Longrightarrow> pr_ID r = i \<and> locked i owner s' \<and> usable r s"
    and release_unlocks: "inv s \<Longrightarrow> re_ReleaseProxy repo i owner s = (Inr u, s') \<Longrightarrow> \<not> locked i owner s'"
    and cooldown_unlocks: "inv s \<Longrightarrow> re_CooldownDestination repo i owner ttl d s = (Inr u, s') \<Longrightarrow> \<not> locked i owner s'"
    and claim_keeps: "inv s \<Longrightarrow> inv (snd (re_ClaimProxy repo owner ttl s))"
    and refresh_keeps: "inv s \<Longrightarrow> inv (snd (re_RefreshConsumerLock repo i owner ttl s))"
    and failure_keeps: "inv s \<Longrightarrow> inv (snd (re_RecordConsumerFailure repo r owner ttl upd s))"
begin

text \<open>The checker and other actors may change the world, but keep its invariant.\<close>

lemma NewProxy_locked:
  assumes "inv s" and "hb_repo h = repo" and "NewProxy h owner s = (Inr (Some p), s')"
    and check: "\<And>f pr ip po s r s2. hb_checker h = Some f \<Longrightarrow> inv s \<Longrightarrow> f pr ip po s = (r, s2) \<Longrightarrow> inv s2"
  shows "locked (pr_ID (dp_record p)) owner s' \<and> (\<exists>s0. inv s0 \<and> usable (dp_record p) s0)"
proof -
  obtain rc s1 where c: "re_ClaimProxy repo owner (hb_lockTTL h) s = (rc, s1)"
    by (cases "re_ClaimProxy repo owner (hb_lockTTL h) s") auto
  have inv1: "inv s1" using claim_keeps [OF assms(1), of owner "hb_lockTTL h"] c by simp
  from assms(2,3) c obtain rec where rec: "rc = Inr (Some rec)"
    by (auto simp: NewProxy_def split: sum.splits option.splits)
  note cl = claim_locks [OF assms(1) c [unfolded rec]]
  show ?thesis
  proof (cases "hb_checker h")
    case None
    with assms(1-3) c rec cl show ?thesis by (auto simp: NewProxy_def new_Proxy_def Let_def)
  next
    case (Some f)
    obtain ms e s2 where k: "f (pr_Protocol rec) (pr_IP rec) (pr_Port rec) s1 = ((ms, e), s2)"
      by (metis surj_pair)
    have inv2: "inv s2" using check [OF Some inv1 k] .
    show ?thesis
    proof (cases e)
      case None
      with assms(2,3) c rec Some k obtain cur where
        "re_RefreshConsumerLock repo (pr_ID rec) owner (hb_lockTTL h) s2 = (Inr (Some cur), s')"
        "p = new_Proxy h cur"
        by (auto simp: NewProxy_def Let_def split: prod.splits sum.splits option.splits)
      with refresh_locks [OF inv2] inv2 show ?thesis by (auto simp: new_Proxy_def)
    next
      case e: (Some e')
      with assms(2,3) c rec Some k show ?thesis
        by (auto simp: NewProxy_def Let_def reject_claim_def
            split: prod.splits sum.splits option.splits check_kind.splits)
    qed
  qed
qed

lemma releaseClaim_unlocked:
  assumes "inv s" and "hb_repo h = repo"
    and "\<And>s. inv s \<Longrightarrow> \<exists>s'. re_ReleaseProxy repo (pr_ID (dp_record p)) owner s = (Inr (), s')"
  shows "\<not> locked (pr_ID (dp_record p)) owner (releaseClaim h p owner s)"
proof -
  from assms(3) [OF assms(1)] obtain s' where
    r: "re_ReleaseProxy repo (pr_ID (dp_record p)) owner s = (Inr (), s')" by blast
  with assms(2) have "releaseClaim h p owner s = s'" by (simp add: releaseClaim_def Release_def)
  with release_unlocks [OF assms(1) r] show ?thesis by simp
qed

text \<open>A claim that ends without a proxy and without an error does not leave its row locked.\<close>

lemma reject_unlocked:
  assumes "inv s" and "hb_repo h = repo" and "reject_claim h p owner e s = (Inr None, s')"
    and rel: "\<And>s. inv s \<Longrightarrow> \<exists>s'. re_ReleaseProxy repo (pr_ID (dp_record p)) owner s = (Inr (), s')"
  shows "\<not> locked (pr_ID (dp_record p)) owner s'"
proof -
  have relc: "\<not> locked (pr_ID (dp_record p)) owner (releaseClaim h p owner t)" if "inv t" for t
    using releaseClaim_unlocked [OF that assms(2) rel] .
  have fail: "inv t" if "MarkFailed (hb_repo h) p owner (hb_lockTTL h) s = (r, t)" for r t
    using that failure_keeps [OF assms(1)] assms(2) by (metis MarkFailed_def snd_conv)
  have cool: "\<not> locked (pr_ID (dp_record p)) owner t"
    if "Proxy_CooldownDestination (hb_repo h) p owner (hb_lockTTL h) d s = (Inr u, t)" for d u t
    using that cooldown_unlocks [OF assms(1)] assms(2) by (auto simp: Proxy_CooldownDestination_def)
  show ?thesis
    using assms(1,3) relc fail cool
    by (auto simp: reject_claim_def split: option.splits check_kind.splits prod.splits sum.splits)
qed

end

section \<open>The PostgreSQL repository as provider\<close>

definition pg_repo :: "ProxyScanPolicy \<Rightarrow> pg_inputs \<Rightarrow> pg_world proxy_repo" where
  "pg_repo p inp =
     \<lparr>re_Exists = (\<lambda>pr ip po w. pg_call (Exists (pi_env inp (pw_tick w)) pr ip po (pw_db w), pw_db w) w),
      re_InsertIfAbsent = (\<lambda>r w. pg_call (InsertIfAbsent (pi_env inp (pw_tick w)) r (pw_db w)) w),
      re_ClaimProxy = (\<lambda>o' ttl w. pg_call (ClaimProxy p (pi_env inp (pw_tick w)) o' ttl (pw_db w)) w),
      re_RefreshConsumerLock = (\<lambda>i o' ttl w. pg_call (RefreshConsumerLock p (pi_env inp (pw_tick w)) i o' ttl (pw_db w)) w),
      re_RecordConsumerFailure = (\<lambda>r o' ttl u w. pg_call (RecordConsumerFailure (pi_env inp (pw_tick w)) r o' ttl u (pw_db w)) w),
      re_CooldownDestination = (\<lambda>i o' ttl d w. pg_call (CooldownDestination (pi_env inp (pw_tick w)) i o' ttl d (pw_db w)) w),
      re_ReleaseProxy = (\<lambda>i o' w. pg_call (ReleaseProxy (pi_env inp (pw_tick w)) i o' (pw_db w)) w),
      re_RandomActive = (\<lambda>xs w. pg_call (RandomActive p (pi_env inp (pw_tick w)) xs (pw_db w), pw_db w) w)\<rparr>"

definition pg_locked :: "int \<Rightarrow> string \<Rightarrow> pg_world \<Rightarrow> bool" where
  "pg_locked i owner w \<longleftrightarrow> (\<exists>r. row_by_id i (pw_db w) = Some r \<and> pr_LockedBy r = Some owner)"

definition pg_usable :: "ProxyScanPolicy \<Rightarrow> pg_inputs \<Rightarrow> ProxyRecord \<Rightarrow> pg_world \<Rightarrow> bool" where
  "pg_usable p inp r w \<longleftrightarrow> freshPredicate p (en_stmt (pi_env inp (pw_tick w))) r
     \<and> null_or_due (pr_DestinationCooldownUntil r) (en_stmt (pi_env inp (pw_tick w)))"

lemma refresh_result:
  assumes "distinct (map pr_ID (px_rows db))" and "RefreshConsumerLock p env i owner ttl db = (Inr (Some r), db')"
  shows "pr_ID r = i \<and> freshPredicate p (en_stmt env) r \<and> null_or_due (pr_DestinationCooldownUntil r) (en_stmt env)
     \<and> row_by_id i db' = Some r \<and> pr_LockedBy r = Some owner"
proof -
  let ?P = "refreshable p (en_stmt env) i owner ttl"
  let ?f = "\<lambda>r. r\<lparr>pr_LockedAt := Some (en_stmt env), pr_UpdatedAt := en_stmt env\<rparr>"
  from assms(2) obtain r0 where r0: "find ?P (px_rows db) = Some r0" "r = ?f r0" "db' = update_where ?P ?f db"
    by (auto simp: RefreshConsumerLock_def reply_def Let_def split: option.splits)
  then have P: "?P r0" "r0 \<in> set (px_rows db)" by (auto simp: find_Some_iff)
  then have "row_by_id i db = Some r0" using row_by_id_unique [OF assms(1)] by (auto simp: refreshable_def)
  with r0 P show ?thesis
    by (auto simp: row_by_id_update_where refreshable_def freshPredicate_def)
qed

lemma unlocked_row:
  assumes f: "\<And>r. pr_ID (f r) = pr_ID r" "\<And>r. pr_LockedBy (f r) = None"
    and row: "row_by_id i (update_where (\<lambda>r. pr_ID r = i \<and> pr_LockedBy r = Some owner) f db) = Some r"
  shows "pr_LockedBy r \<noteq> Some owner"
proof -
  let ?P = "\<lambda>r. pr_ID r = i \<and> pr_LockedBy r = Some owner"
  from row obtain r0 where r0: "row_by_id i db = Some r0" "r = (if ?P r0 then f r0 else r0)"
    unfolding row_by_id_update_where [OF f(1)] by auto
  from row_by_id_Some [OF r0(1)] have "pr_ID r0 = i" by simp
  with r0(2) f(2) show ?thesis by (cases "?P r0") simp_all
qed

lemma ReleaseProxy_unlocks:
  assumes "ReleaseProxy env i owner db = (Inr u, db')" and "row_by_id i db' = Some r"
  shows "pr_LockedBy r \<noteq> Some owner"
proof -
  from assms(1) have db': "db' = update_where (\<lambda>r. pr_ID r = i \<and> pr_LockedBy r = Some owner)
      (\<lambda>r. r\<lparr>pr_LockedBy := None, pr_LockedAt := None, pr_UpdatedAt := en_now env\<rparr>) db"
    by (simp add: ReleaseProxy_def reply_def split: option.splits)
  show ?thesis by (rule unlocked_row [OF _ _ assms(2) [unfolded db']]) simp_all
qed

lemma CooldownDestination_unlocks:
  assumes "CooldownDestination env i owner ttl d db = (Inr u, db')" and "row_by_id i db' = Some r"
  shows "pr_LockedBy r \<noteq> Some owner"
proof -
  from assms(1) have db': "db' = update_where (\<lambda>r. pr_ID r = i \<and> pr_LockedBy r = Some owner)
      (\<lambda>r. r\<lparr>pr_DestinationCooldownUntil := Some (case pr_DestinationCooldownUntil r of
                  None \<Rightarrow> en_stmt env + d | Some t \<Rightarrow> max t (en_stmt env + d)),
             pr_LockedBy := None, pr_LockedAt := None, pr_UpdatedAt := en_stmt env\<rparr>) db"
    by (simp add: CooldownDestination_def reply_def split: option.splits)
  show ?thesis by (rule unlocked_row [OF _ _ assms(2) [unfolded db']]) simp_all
qed

interpretation pg_pool: proxy_pool "pg_repo p inp" "\<lambda>w. proxy_inv (pw_db w)" pg_locked "pg_usable p inp"
  for p :: ProxyScanPolicy and inp :: pg_inputs
proof unfold_locales
  fix s :: pg_world
  let ?env = "pi_env inp (pw_tick s)"
  assume inv: "proxy_inv (pw_db s)"
  then have d: "distinct (map pr_ID (px_rows (pw_db s)))" by (simp add: proxy_inv_def)
  show "pg_locked (pr_ID r) owner s' \<and> pg_usable p inp r s"
    if "re_ClaimProxy (pg_repo p inp) owner ttl s = (Inr (Some r), s')" for owner ttl r s'
  proof -
    from that have c: "ClaimProxy p ?env owner ttl (pw_db s) = (Inr (Some r), pw_db s')"
      by (auto simp: pg_repo_def pg_call_def prod_eq_iff)
    from consumer_claim_row [OF inv c] show ?thesis by (auto simp: pg_locked_def pg_usable_def)
  qed
  show "pr_ID r = i \<and> pg_locked i owner s' \<and> pg_usable p inp r s"
    if "re_RefreshConsumerLock (pg_repo p inp) i owner ttl s = (Inr (Some r), s')" for i owner ttl r s'
  proof -
    from that have "RefreshConsumerLock p ?env i owner ttl (pw_db s) = (Inr (Some r), pw_db s')"
      by (auto simp: pg_repo_def pg_call_def prod_eq_iff)
    from refresh_result [OF d this] show ?thesis by (auto simp: pg_locked_def pg_usable_def)
  qed
  show "\<not> pg_locked i owner s'" if "re_ReleaseProxy (pg_repo p inp) i owner s = (Inr u, s')" for i owner u s'
    using that ReleaseProxy_unlocks [of ?env i owner "pw_db s" u "pw_db s'"]
    by (auto simp: pg_repo_def pg_call_def pg_locked_def prod_eq_iff)
  show "\<not> pg_locked i owner s'" if "re_CooldownDestination (pg_repo p inp) i owner ttl dl s = (Inr u, s')"
    for i owner ttl dl u s'
    using that CooldownDestination_unlocks [of ?env i owner ttl dl "pw_db s" u "pw_db s'"]
    by (auto simp: pg_repo_def pg_call_def pg_locked_def prod_eq_iff)
  show "proxy_inv (pw_db (snd (re_ClaimProxy (pg_repo p inp) owner ttl s)))" for owner ttl
    using apply_op_inv [OF inv, of p "OpClaimProxy ?env owner ttl"] by (simp add: pg_repo_def pg_call_def)
  show "proxy_inv (pw_db (snd (re_RefreshConsumerLock (pg_repo p inp) i owner ttl s)))" for i owner ttl
    using apply_op_inv [OF inv, of p "OpRefresh ?env i owner ttl"] by (simp add: pg_repo_def pg_call_def)
  show "proxy_inv (pw_db (snd (re_RecordConsumerFailure (pg_repo p inp) r owner ttl upd s)))" for r owner ttl upd
    using apply_op_inv [OF inv, of p "OpConsumerFailure ?env r owner ttl upd"] by (simp add: pg_repo_def pg_call_def)
qed

section \<open>Properties\<close>

lemma field_fold [simp]:
  "fold_key ''protocol'' = ''protocol''" "fold_key ''ip'' = ''ip''" "fold_key ''port'' = ''port''"
  by (simp_all add: of_char_def)

lemma proxy_fields_mem [simp]:
  "''protocol'' \<in> set proxy_fields" "''ip'' \<in> set proxy_fields" "''port'' \<in> set proxy_fields"
  "''country'' \<in> set proxy_fields" "''anonymity'' \<in> set proxy_fields" "''source'' \<in> set proxy_fields"
  "''uptime_percent'' \<in> set proxy_fields"
  by (simp_all add: proxy_fields_def)

text \<open>A proxy that NewProxy hands to a worker is the worker's: with the PostgreSQL repository, for
  any faults and for any checker (which may take time while other replicas write, but keeps the
  table invariant), the row of the returned proxy is locked by the owner in the database, and
  when last validated it was healthy, fresh and not cooling down.\<close>

lemma handed_out_proxy_is_locked:
  assumes "proxy_inv (pw_db w)" and "hb_repo h = pg_repo p inp"
    and "NewProxy h owner w = (Inr (Some px), w')"
    and "\<forall>f pr ip po w r w2. hb_checker h = Some f \<longrightarrow> proxy_inv (pw_db w) \<longrightarrow> f pr ip po w = (r, w2)
           \<longrightarrow> proxy_inv (pw_db w2)"
  shows "\<exists>r. row_by_id (pr_ID (dp_record px)) (pw_db w') = Some r \<and> pr_LockedBy r = Some owner
     \<and> (\<exists>w0. pg_usable p inp (dp_record px) w0)"
proof -
  have check: "proxy_inv (pw_db w2)" if "hb_checker h = Some f" "proxy_inv (pw_db w)" "f pr ip po w = (r, w2)"
    for f pr ip po w r w2 using assms(4) that by blast
  have "pg_locked (pr_ID (dp_record px)) owner w'
      \<and> (\<exists>s0. proxy_inv (pw_db s0) \<and> pg_usable p inp (dp_record px) s0)"
    by (rule pg_pool.NewProxy_locked [OF assms(1-3)]) (rule check)
  then show ?thesis by (auto simp: pg_locked_def)
qed

definition demo_inputs :: pg_inputs where
  "demo_inputs = \<lparr>pi_env = (\<lambda>n. demo_env (100 + int n)), pi_token = (\<lambda>n. Inr ''t''), pi_now = (\<lambda>n. 100),
     pi_guard = (\<lambda>n. \<lparr>gs_Healthy = True, gs_Generation = 0\<rparr>), pi_cancelled = (\<lambda>n. False)\<rparr>"

definition demo_hub :: "err option \<Rightarrow> pg_world ProxyHub" where
  "demo_hub e = \<lparr>hb_repo = pg_repo demo_policy demo_inputs, hb_lockTTL = 60,
     hb_checker = Some (\<lambda>pr ip po w. ((5, e), w)), hb_destCooldown = 30, hb_policy = demo_policy\<rparr>"

lemma demo_candidates: "claim_candidates demo_policy (demo_env 100) 60 demo_db = [demo_rec]"
  by (simp add: claim_candidates_def claimable_def freshPredicate_def null_or_due_def after_def
      supported_protocols_def demo_defs new_row_def)

lemma demo_claim_proxy:
  "ClaimProxy demo_policy (demo_env 100) ''w'' 60 demo_db
     = (Inr (Some (lock_row ''w'' 100 demo_rec)), \<lparr>px_rows = [lock_row ''w'' 100 demo_rec], px_next = 8\<rparr>)"
  by (simp add: ClaimProxy_def demo_candidates reply_def) (simp add: update_where_def demo_db_def)

text \<open>A rejected claim does not leak its lock: when a checked proxy is rejected and the rejection
  reports no error (dead proxy, destination rejection, local or unknown failure), its row is no longer
  locked by the worker, provided releasing the row succeeds.\<close>

lemma rejected_claim_is_unlocked:
  assumes "proxy_inv (pw_db w)" and "hb_repo h = pg_repo p inp"
    and "reject_claim h px owner e w = (Inr None, w')"
    and "\<forall>n. en_fault (pi_env inp n) SAcquire = None \<and> en_fault (pi_env inp n) SExec = None"
  shows "\<not> pg_locked (pr_ID (dp_record px)) owner w'"
proof -
  have "\<exists>s'. re_ReleaseProxy (pg_repo p inp) (pr_ID (dp_record px)) owner s = (Inr (), s')" for s
    using assms(4) by (simp add: pg_repo_def pg_call_def ReleaseProxy_def reply_def)
  then show ?thesis by (rule pg_pool.reject_unlocked [OF assms(1-3)])
qed

lemma Exists_result: "Exists env pr ip po db = Inr b \<Longrightarrow> b = list_ex (\<lambda>r. row_key r = (pr, ip, po)) (px_rows db)"
  by (auto simp: Exists_def split: option.splits)

lemma InsertIfAbsent_result:
  assumes "InsertIfAbsent env rec db = (Inr x, db')"
  shows "list_ex (\<lambda>r. row_key r = row_key rec) (px_rows db')
     \<and> (px_rows db' = px_rows db \<or> px_rows db' = px_rows db @ [new_row (px_next db) (en_now env) rec])"
  using assms by (auto simp: InsertIfAbsent_def reply_def Let_def split: option.splits if_splits)

text \<open>Ingestion is idempotent and brings no evidence: when ProcessNewProxy reports success, the
  endpoint is in the table exactly once, rows that were there are unchanged, and a row it added is
  unverified (not healthy, never verified, version 0, no lease).\<close>

lemma ingestion_inserts_once:
  assumes inv: "proxy_inv (pw_db w)" and ok: "ProcessNewProxy (pg_repo p inp) q w = (None, w')"
  shows "proxy_inv (pw_db w')
     \<and> length (filter (\<lambda>r. row_key r = (np_Protocol q, np_IP q, np_Port q)) (px_rows (pw_db w'))) = 1
     \<and> (\<exists>new. px_rows (pw_db w') = px_rows (pw_db w) @ new
          \<and> list_all (\<lambda>r. \<not> pr_GeneralHealthy r \<and> pr_LastVerifiedAt r = None \<and> pr_ObservationVersion r = 0
                        \<and> pr_ScanToken r = None) new)"
proof -
  let ?k = "(np_Protocol q, np_IP q, np_Port q)"
  have main: "proxy_inv (pw_db w') \<and> list_ex (\<lambda>r. row_key r = ?k) (px_rows (pw_db w'))
     \<and> (\<exists>new. px_rows (pw_db w') = px_rows (pw_db w) @ new
          \<and> list_all (\<lambda>r. \<not> pr_GeneralHealthy r \<and> pr_LastVerifiedAt r = None \<and> pr_ObservationVersion r = 0
                        \<and> pr_ScanToken r = None) new)"
  proof -
    let ?env = "pi_env inp (pw_tick w)"
    from ok obtain b where b: "Exists ?env (np_Protocol q) (np_IP q) (np_Port q) (pw_db w) = Inr b"
      by (auto simp: ProcessNewProxy_def pg_repo_def pg_call_def split: sum.splits)
    note ex = Exists_result [OF b]
    show ?thesis
    proof (cases b)
      case True
      with ok b ex inv show ?thesis by (auto simp: ProcessNewProxy_def pg_repo_def pg_call_def)
    next
      case False
      let ?rec = "zero_proxy\<lparr>pr_Protocol := np_Protocol q, pr_IP := np_IP q, pr_Port := np_Port q,
                       pr_Country := np_Country q, pr_Anonymity := np_Anonymity q,
                       pr_Source := np_Source q, pr_UptimePercent := np_UptimePercent q\<rparr>"
      let ?e2 = "pi_env inp (Suc (pw_tick w))"
      from ok b False obtain x where i: "InsertIfAbsent ?e2 ?rec (pw_db w) = (Inr x, pw_db w')"
        by (auto simp: ProcessNewProxy_def pg_repo_def pg_call_def Let_def prod_eq_iff split: prod.splits sum.splits)
      have k: "row_key ?rec = ?k" by (simp add: row_key_def)
      from InsertIfAbsent_result [OF i] insert_inv [OF inv, of ?e2 ?rec] i k show ?thesis
        by (auto simp: new_row_def)
    qed
  qed
  then have "distinct (map row_key (px_rows (pw_db w')))" by (simp add: proxy_inv_def)
  then have "length (filter (\<lambda>r. row_key r = ?k) (px_rows (pw_db w'))) \<le> 1"
  proof -
    have "distinct (map row_key xs) \<Longrightarrow> length (filter (\<lambda>r. row_key r = ?k) xs) \<le> 1" for xs
      by (induction xs) (auto simp: filter_empty_conv image_iff)
    with \<open>distinct (map row_key (px_rows (pw_db w')))\<close> show ?thesis by blast
  qed
  moreover have "filter (\<lambda>r. row_key r = ?k) (px_rows (pw_db w')) \<noteq> []"
    using main by (auto simp: filter_empty_conv list_ex_iff)
  then have "0 < length (filter (\<lambda>r. row_key r = ?k) (px_rows (pw_db w')))" by blast
  ultimately have "length (filter (\<lambda>r. row_key r = ?k) (px_rows (pw_db w'))) = 1" by linarith
  with main show ?thesis by blast
qed

definition demo_payload :: NewProxyPayload where
  "demo_payload = zero_NewProxyPayload\<lparr>np_Protocol := ''http'', np_IP := ''i'', np_Port := 81\<rparr>"

text \<open>A new-proxy job survives the queue: decoding the payload that NewProxyJob builds gives back the
  discovered proxy, for every port that fits an int.\<close>

lemma new_proxy_roundtrip:
  assumes "min_i64 \<le> np_Port q" and "np_Port q \<le> max_i64"
  shows "decode_NewProxy (qj_Payload (NewProxyJob q)) = Inr q"
  using assms
  by (simp add: decode_NewProxy_def NewProxyJob_def encode_NewProxy_def dec_field_def split: option.splits)

end
