(* ===== verification/Census_Worker.thy ===== *)
theory Census_Worker
  imports Publish_Jobs Proxy_Hub
begin

text \<open>
  domain/census/worker/worker.go, domain/census/handler/handler.go and domain/proxy/worker/worker.go: what happens to one
  delivery between the queue and its handler. The plain worker, the worker that owns a proxy and the
  proxy ingestion worker are functions over an abstract world; the queue's Consume is an argument. Logging is left
  out. The locale \<open>proxy_worker\<close> states what the proxy mode relies on; it is interpreted on the PostgreSQL
  proxy table, with arbitrary writes of other replicas while the worker waits.
\<close>

section \<open>Handlers and their registry (handler.go)\<close>

text \<open>A handler returns or panics with a value; the rendered value and the stack are inputs.\<close>

datatype handled = Returned "QueueJob list result" | Panicked string string

type_synonym 's job_handler = "payload \<Rightarrow> 's \<Rightarrow> handled \<times> 's"
type_synonym 's registry = "string \<rightharpoonup> 's job_handler"

definition NewRegistry :: "'s registry" where "NewRegistry = Map.empty"

definition Register :: "string \<Rightarrow> 's job_handler \<Rightarrow> 's registry \<Rightarrow> 's registry" where
  "Register eventType h r = r(eventType \<mapsto> h)"

definition Registry_Get :: "'s registry \<Rightarrow> string \<Rightarrow> 's job_handler option" where
  "Registry_Get r eventType = r eventType"

definition run_handler :: "'s job_handler \<Rightarrow> payload \<Rightarrow> 's \<Rightarrow> QueueJob list result \<times> 's" where
  "run_handler h pl s =
     (case h pl s of
        (Returned r, s') \<Rightarrow> (r, s')
      | (Panicked v stack, s') \<Rightarrow> (Inl (EText (''worker panic: '' @ v @ CHR 0x0A # ''stack: '' @ stack)), s'))"

fun publish_next :: "(QueueJob \<Rightarrow> 's \<Rightarrow> err option \<times> 's) \<Rightarrow> QueueJob list \<Rightarrow> 's \<Rightarrow> err option \<times> 's" where
  "publish_next pub [] s = (None, s)"
| "publish_next pub (job # jobs) s =
     (case pub job s of (Some e, s') \<Rightarrow> (Some e, s') | (None, s') \<Rightarrow> publish_next pub jobs s')"

section \<open>The plain worker\<close>

definition identity_fields :: "string list" where
  "identity_fields = [''from'', ''to'', ''character_id'']"

definition jobAttrs :: "payload \<Rightarrow> (string \<times> u32) list" where
  "jobAttrs pl =
     (case pl of
        Some (JObj kvs) \<Rightarrow>
          (let (frm, b1) = dec_field dec_u32 0 identity_fields ''from'' kvs;
               (to, b2) = dec_field dec_u32 0 identity_fields ''to'' kvs;
               (i, b3) = dec_field dec_u32 0 identity_fields ''character_id'' kvs
           in if b1 \<or> b2 \<or> b3 then []
              else (if frm \<noteq> 0 \<or> to \<noteq> 0 then [(''from'', frm), (''to'', to)] else [])
                 @ (if i \<noteq> 0 then [(''character_id'', i)] else []))
      | _ \<Rightarrow> [])"

record 's Worker =
  wk_publish :: "QueueJob \<Rightarrow> 's \<Rightarrow> err option \<times> 's"
  wk_handlers :: "'s registry"
  wk_limiter :: "'s lodestone_limiter"
  wk_sleep :: "duration \<Rightarrow> 's \<Rightarrow> 's"

definition waitForProviders :: "'s lodestone_limiter \<Rightarrow> string \<Rightarrow> 's \<Rightarrow> err option \<times> 's" where
  "waitForProviders rl eventType s = (if has_suffix eventType ''.failed'' then (None, s) else limiter_wait rl s)"

definition isGeneralProxyFailure :: "err \<Rightarrow> bool" where
  "isGeneralProxyFailure e = (case errors_as e of None \<Rightarrow> False | Some ce \<Rightarrow> ce_Kind ce = CheckProxy)"

definition missingHandlerError :: "string \<Rightarrow> err" where
  "missingHandlerError eventType = EWrap [] (ESent ErrNoHandler) ('': no handler registered for event '' @ eventType)"

definition rate_limited :: "err \<Rightarrow> bool" where
  "rate_limited e \<longleftrightarrow> str_contains (error_text e) ''429'' \<or> str_contains (error_text e) ''rate limit''"

definition processJob :: "'s Worker \<Rightarrow> QueueJob \<Rightarrow> 's \<Rightarrow> err option \<times> 's" where
  "processJob w job s =
     (case Registry_Get (wk_handlers w) (qj_Type job) of
        None \<Rightarrow> (Some (missingHandlerError (qj_Type job)), s)
      | Some h \<Rightarrow>
          (case waitForProviders (wk_limiter w) (qj_Type job) s of
             (Some e, s1) \<Rightarrow> (Some e, s1)
           | (None, s1) \<Rightarrow>
               (case run_handler h (qj_Payload job) s1 of
                  (Inl e, s2) \<Rightarrow> (Some e, if rate_limited e then wk_sleep w (200 * millisecond) s2 else s2)
                | (Inr next, s2) \<Rightarrow> publish_next (wk_publish w) next s2)))"

definition census_events :: "string list" where
  "census_events = [EventIDSweep, EventCharacterCensus, EventAchievementCensus]"

definition unhandled :: "string \<Rightarrow> err" where
  "unhandled eventType = EText (''no handler registered for event '' @ CHR 0x22 # eventType @ [CHR 0x22])"

text \<open>\<open>consume\<close> is \<open>queue.Consume\<close>: it gets the event types, the concurrency and the job function.\<close>

definition RunEvents :: "(string list \<Rightarrow> int \<Rightarrow> (QueueJob \<Rightarrow> 's \<Rightarrow> err option \<times> 's) \<Rightarrow> 's \<Rightarrow> err option \<times> 's)
    \<Rightarrow> 's Worker \<Rightarrow> string list \<Rightarrow> int \<Rightarrow> 's \<Rightarrow> err option \<times> 's" where
  "RunEvents consume w types0 concurrency0 s =
     (let concurrency = (if concurrency0 \<le> 0 then 4 else concurrency0);
          types = (if types0 = [] then census_events else types0)
      in case find (\<lambda>et. \<not> has_suffix et ''.failed'' \<and> Registry_Get (wk_handlers w) et = None) types of
           Some et \<Rightarrow> (Some (unhandled et), s)
         | None \<Rightarrow>
             (case consume types concurrency (processJob w) s of
                (Some e, s') \<Rightarrow> (if errors_is e CtxCanceled then None else Some e, s')
              | (None, s') \<Rightarrow> (None, s')))"

section \<open>The proxy ingestion worker (domain/proxy/worker/worker.go)\<close>

definition ProxyQueue_processJob :: "'s Worker \<Rightarrow> QueueJob \<Rightarrow> 's \<Rightarrow> err option \<times> 's" where
  "ProxyQueue_processJob w job s =
     (case Registry_Get (wk_handlers w) (qj_Type job) of
        None \<Rightarrow> (Some (EText (''no handler registered for event '' @ qj_Type job)), s)
      | Some h \<Rightarrow>
          (case run_handler h (qj_Payload job) s of
             (Inl e, s1) \<Rightarrow> (Some e, s1)
           | (Inr next, s1) \<Rightarrow> publish_next (wk_publish w) next s1))"

definition ProxyQueue_RunEvents :: "(string list \<Rightarrow> int \<Rightarrow> (QueueJob \<Rightarrow> 's \<Rightarrow> err option \<times> 's) \<Rightarrow> 's \<Rightarrow> err option \<times> 's)
    \<Rightarrow> 's Worker \<Rightarrow> string list \<Rightarrow> int \<Rightarrow> 's \<Rightarrow> err option \<times> 's" where
  "ProxyQueue_RunEvents consume w types0 concurrency0 s =
     (let concurrency = (if concurrency0 \<le> 0 then 4 else concurrency0);
          types = (if types0 = [] then [EventNewProxy] else types0)
      in case find (\<lambda>et. Registry_Get (wk_handlers w) et = None) types of
           Some et \<Rightarrow> (Some (unhandled et), s)
         | None \<Rightarrow> consume types concurrency (ProxyQueue_processJob w) s)"

section \<open>The worker with a proxy\<close>

text \<open>
  \<open>px_select\<close> waits for a timer, the notification channel or the end of the context; other replicas may write
  meanwhile. \<open>px_notify\<close> is \<open>proxyHub.NotifyAvailable\<close>. \<open>'c\<close> is the type of the Lodestone clients.
\<close>

datatype wake = TimerFired | Notified | CtxDone sentinel

record ('s, 'c) proxy_mode =
  px_hub :: "'s ProxyHub"
  px_publish :: "QueueJob \<Rightarrow> 's \<Rightarrow> err option \<times> 's"
  px_select :: "duration \<Rightarrow> 's \<Rightarrow> wake \<times> 's"
  px_notify :: "'s \<Rightarrow> 's"
  px_newRateLimiter :: "'s \<Rightarrow> 's lodestone_limiter \<times> 's"
  px_newLodestoneClient :: "string \<Rightarrow> 's lodestone_limiter \<Rightarrow> 's \<Rightarrow> 'c result \<times> 's"
  px_newHandlers :: "'c \<Rightarrow> 's lodestone_limiter \<Rightarrow> 's registry"

definition minBackoff :: duration where "minBackoff = 5 * second"
definition maxBackoff :: duration where "maxBackoff = 60 * second"

text \<open>The loop has no bound of its own: \<open>n\<close> attempts are made, and \<open>None\<close> means that all of them failed.\<close>

fun waitForProxy :: "('s, 'c) proxy_mode \<Rightarrow> string \<Rightarrow> nat \<Rightarrow> duration \<Rightarrow> 's \<Rightarrow> (Proxy result \<times> 's) option" where
  "waitForProxy x owner 0 backoff s = None"
| "waitForProxy x owner (Suc n) backoff s =
     (case NewProxy (px_hub x) owner s of
        (Inr (Some p), s1) \<Rightarrow> Some (Inr p, s1)
      | (_, s1) \<Rightarrow>
          (case px_select x backoff s1 of
             (CtxDone e, s2) \<Rightarrow> Some (Inl (ESent e), s2)
           | (TimerFired, s2) \<Rightarrow> waitForProxy x owner n (if backoff * 2 > maxBackoff then maxBackoff else backoff * 2) s2
           | (Notified, s2) \<Rightarrow> waitForProxy x owner n minBackoff s2))"

record ('s, 'c) worker_state =
  ws_proxy :: Proxy
  ws_client :: 'c
  ws_limiter :: "'s lodestone_limiter"
  ws_handlers :: "'s registry"

definition new_clients :: "('s, 'c) proxy_mode \<Rightarrow> Proxy \<Rightarrow> 's \<Rightarrow> ('s, 'c) worker_state result \<times> 's" where
  "new_clients x p s =
     (case px_newRateLimiter x s of
        (rl, s1) \<Rightarrow>
          (case px_newLodestoneClient x (Address p) rl s1 of
             (Inl e, s2) \<Rightarrow> (Inl e, s2)
           | (Inr c, s2) \<Rightarrow>
               (Inr \<lparr>ws_proxy = p, ws_client = c, ws_limiter = rl, ws_handlers = px_newHandlers x c rl\<rparr>, s2)))"

text \<open>The second component of the result is the previous proxy, whose lock fields Release clears.\<close>

definition replaceProxy :: "('s, 'c) proxy_mode \<Rightarrow> string \<Rightarrow> nat \<Rightarrow> Proxy option \<Rightarrow> 's
    \<Rightarrow> (('s, 'c) worker_state result \<times> Proxy option \<times> 's) option" where
  "replaceProxy x owner n previous s =
     (let (prev, s1) = (case previous of
                          None \<Rightarrow> (None, s)
                        | Some p \<Rightarrow> (case Release (hb_repo (px_hub x)) p owner s of (_, p', s') \<Rightarrow> (Some p', px_notify x s')))
      in case waitForProxy x owner n minBackoff s1 of
           None \<Rightarrow> None
         | Some (Inl e, s2) \<Rightarrow> Some (Inl (EWrap ''no checked proxy available: '' e []), prev, s2)
         | Some (Inr p, s2) \<Rightarrow>
             (case new_clients x p s2 of
                (Inl e, s3) \<Rightarrow>
                  Some (Inl (EWrap ''create lodestone client: '' e []), prev, snd (snd (Release (hb_repo (px_hub x)) p owner s3)))
              | (Inr ws, s3) \<Rightarrow> Some (Inr ws, prev, s3)))"

definition reacquire :: "('s, 'c) proxy_mode \<Rightarrow> string \<Rightarrow> nat \<Rightarrow> string \<Rightarrow> ('s, 'c) worker_state \<Rightarrow> 's
    \<Rightarrow> (err option \<times> ('s, 'c) worker_state \<times> 's) option" where
  "reacquire x owner n what ws s =
     (case replaceProxy x owner n (Some (ws_proxy ws)) s of
        None \<Rightarrow> None
      | Some (Inr ws', prev, s') \<Rightarrow> Some (None, ws', s')
      | Some (Inl e, prev, s') \<Rightarrow>
          Some (Some (EWrap what e []), (case prev of None \<Rightarrow> ws | Some p \<Rightarrow> ws\<lparr>ws_proxy := p\<rparr>), s'))"

text \<open>The start of processJob: refresh the lock of the current proxy, or replace a lost one.\<close>

definition ensure_proxy :: "('s, 'c) proxy_mode \<Rightarrow> string \<Rightarrow> nat \<Rightarrow> ('s, 'c) worker_state \<Rightarrow> 's
    \<Rightarrow> (err option \<times> ('s, 'c) worker_state \<times> 's) option" where
  "ensure_proxy x owner n ws s =
     (case CanUse (hb_repo (px_hub x)) (ws_proxy ws) owner (hb_lockTTL (px_hub x)) s of
        (Inl e, p, s1) \<Rightarrow> Some (Some (EWrap ''proxy canuse check: '' e []), ws\<lparr>ws_proxy := p\<rparr>, s1)
      | (Inr canUse, p, s1) \<Rightarrow>
          if canUse then Some (None, ws\<lparr>ws_proxy := p\<rparr>, s1)
          else reacquire x owner n ''proxy re-acquire: '' (ws\<lparr>ws_proxy := p\<rparr>) s1)"

text \<open>The second attempt, through the replacement proxy.\<close>

definition retry_job :: "('s, 'c) proxy_mode \<Rightarrow> string \<Rightarrow> QueueJob \<Rightarrow> ('s, 'c) worker_state \<Rightarrow> 's
    \<Rightarrow> err option \<times> ('s, 'c) worker_state \<times> 's" where
  "retry_job x owner job ws s =
     (let repo = hb_repo (px_hub x)
      in case waitForProviders (ws_limiter ws) (qj_Type job) s of
           (Some e, s1) \<Rightarrow> (Some e, ws, s1)
         | (None, s1) \<Rightarrow>
             (case Registry_Get (ws_handlers ws) (qj_Type job) of
                None \<Rightarrow> (Some (missingHandlerError (qj_Type job)), ws, s1)
              | Some h \<Rightarrow>
                  (case run_handler h (qj_Payload job) s1 of
                     (Inr next, s2) \<Rightarrow> (case publish_next (px_publish x) next s2 of (e, s3) \<Rightarrow> (e, ws, s3))
                   | (Inl e, s2) \<Rightarrow>
                       (case (if isGeneralProxyFailure e then MarkFailed repo (ws_proxy ws) owner (hb_lockTTL (px_hub x)) s2
                              else (Inr False, s2)) of
                          (Inl me, s3) \<Rightarrow> (Some (EWrap ''record proxy failure: '' me []), ws, s3)
                        | (Inr _, s3) \<Rightarrow>
                            (case Release repo (ws_proxy ws) owner s3 of (_, p, s4) \<Rightarrow> (Some e, ws\<lparr>ws_proxy := p\<rparr>, s4))))))"

definition job_failed :: "('s, 'c) proxy_mode \<Rightarrow> string \<Rightarrow> nat \<Rightarrow> QueueJob \<Rightarrow> err \<Rightarrow> ('s, 'c) worker_state \<Rightarrow> 's
    \<Rightarrow> (err option \<times> ('s, 'c) worker_state \<times> 's) option" where
  "job_failed x owner n job e ws s =
     (let hub = px_hub x
      in case errors_as e of
           None \<Rightarrow> Some (Some e, ws, s)
         | Some ce \<Rightarrow>
             if ce_Kind ce = CheckTarget
             then (case Proxy_CooldownDestination (hb_repo hub) (ws_proxy ws) owner (hb_lockTTL hub)
                          (max (ce_RetryAfter ce) (hb_destCooldown hub)) s of
                     (Inl cd, s1) \<Rightarrow> Some (Some (EWrap ''destination cooldown: '' cd []), ws, s1)
                   | (Inr _, s1) \<Rightarrow> Some (Some e, ws, s1))
             else if isGeneralProxyFailure e
             then (case MarkFailed (hb_repo hub) (ws_proxy ws) owner (hb_lockTTL hub) s of
                     (Inl me, s1) \<Rightarrow> Some (Some (EWrap ''record proxy failure: '' me []), ws, s1)
                   | (Inr _, s1) \<Rightarrow>
                       (case reacquire x owner n ''proxy re-acquire after failure: '' ws s1 of
                          None \<Rightarrow> None
                        | Some (Some re, ws', s2) \<Rightarrow> Some (Some re, ws', s2)
                        | Some (None, ws', s2) \<Rightarrow> Some (retry_job x owner job ws' s2)))
             else Some (Some e, ws, s))"

definition proxy_processJob :: "('s, 'c) proxy_mode \<Rightarrow> string \<Rightarrow> nat \<Rightarrow> QueueJob \<Rightarrow> ('s, 'c) worker_state \<Rightarrow> 's
    \<Rightarrow> (err option \<times> ('s, 'c) worker_state \<times> 's) option" where
  "proxy_processJob x owner n job ws0 s0 =
     (case ensure_proxy x owner n ws0 s0 of
        None \<Rightarrow> None
      | Some (Some e, ws, s) \<Rightarrow> Some (Some e, ws, s)
      | Some (None, ws, s) \<Rightarrow>
          (case waitForProviders (ws_limiter ws) (qj_Type job) s of
             (Some e, s1) \<Rightarrow> Some (Some e, ws, s1)
           | (None, s1) \<Rightarrow>
               (case Registry_Get (ws_handlers ws) (qj_Type job) of
                  None \<Rightarrow> Some (Some (missingHandlerError (qj_Type job)), ws, s1)
                | Some h \<Rightarrow>
                    (case run_handler h (qj_Payload job) s1 of
                       (Inl e, s2) \<Rightarrow> job_failed x owner n job e ws s2
                     | (Inr next, s2) \<Rightarrow> (case publish_next (px_publish x) next s2 of (e, s3) \<Rightarrow> Some (e, ws, s3))))))"

text \<open>\<open>consume\<close> runs the job function on the deliveries, one at a time, until claiming stops.\<close>

definition proxyWorkerLoop :: "('s, 'c) proxy_mode
    \<Rightarrow> ((QueueJob \<Rightarrow> ('s, 'c) worker_state \<Rightarrow> 's \<Rightarrow> (err option \<times> ('s, 'c) worker_state \<times> 's) option)
        \<Rightarrow> ('s, 'c) worker_state \<Rightarrow> 's \<Rightarrow> (err option \<times> ('s, 'c) worker_state \<times> 's) option)
    \<Rightarrow> string \<Rightarrow> nat \<Rightarrow> nat \<Rightarrow> 's \<Rightarrow> (err option \<times> 's) option" where
  "proxyWorkerLoop x consume ownerPrefix workerID n s =
     (let owner = ownerPrefix @ ''-w'' @ show_nat workerID; repo = hb_repo (px_hub x)
      in case waitForProxy x owner n minBackoff s of
           None \<Rightarrow> None
         | Some (Inl e, s1) \<Rightarrow> Some (Some (EWrap ''proxy acquire: '' e []), s1)
         | Some (Inr p, s1) \<Rightarrow>
             (case new_clients x p s1 of
                (Inl e, s2) \<Rightarrow>
                  (case Release repo p owner s2 of
                     (Inl re, _, s3) \<Rightarrow>
                       Some (Some (EJoin [EWrap ''create lodestone client: '' e [], EWrap ''release proxy: '' re []]), s3)
                   | (Inr _, _, s3) \<Rightarrow> Some (Some (EWrap ''create lodestone client: '' e []), s3))
              | (Inr ws, s2) \<Rightarrow>
                  (case consume (proxy_processJob x owner n) ws s2 of
                     None \<Rightarrow> None
                   | Some (r, ws', s3) \<Rightarrow>
                       (case Release repo (ws_proxy ws') owner s3 of
                          (Inl _, _, s4) \<Rightarrow> Some (r, s4)
                        | (Inr _, _, s4) \<Rightarrow> Some (r, px_notify x s4)))))"

text \<open>The results of the loops, in the order in which they end.\<close>

definition proxy_loop_errors :: "err option list \<Rightarrow> err option" where
  "proxy_loop_errors results =
     (let errs = [e. Some e \<leftarrow> results, \<not> errors_is e CtxCanceled] in if errs = [] then None else Some (EJoin errs))"

section \<open>Acknowledgement\<close>

lemma processJob_ack:
  assumes "processJob w job s = (None, s')"
  shows "\<exists>h s1 next s2. Registry_Get (wk_handlers w) (qj_Type job) = Some h
     \<and> run_handler h (qj_Payload job) s1 = (Inr next, s2) \<and> publish_next (wk_publish w) next s2 = (None, s')"
  using assms by (auto simp: processJob_def split: option.splits prod.splits sum.splits)

lemma retry_job_ack:
  assumes "retry_job x owner job ws s = (None, ws', s')"
  shows "\<exists>h s1 next s2. Registry_Get (ws_handlers ws') (qj_Type job) = Some h
     \<and> run_handler h (qj_Payload job) s1 = (Inr next, s2) \<and> publish_next (px_publish x) next s2 = (None, s')"
  using assms by (auto simp: retry_job_def Let_def split: option.splits prod.splits sum.splits)

lemma job_failed_ack:
  assumes "job_failed x owner n job e ws s = Some (None, ws', s')"
  shows "\<exists>ws1 s1. retry_job x owner job ws1 s1 = (None, ws', s')"
  using assms by (auto simp: job_failed_def Let_def split: option.splits prod.splits sum.splits if_splits)

lemma proxy_processJob_ack:
  assumes "proxy_processJob x owner n job ws s = Some (None, ws', s')"
  shows "\<exists>h s1 next s2. Registry_Get (ws_handlers ws') (qj_Type job) = Some h
     \<and> run_handler h (qj_Payload job) s1 = (Inr next, s2) \<and> publish_next (px_publish x) next s2 = (None, s')"
proof -
  from assms obtain ws1 s1 where e: "ensure_proxy x owner n ws s = Some (None, ws1, s1)"
    by (auto simp: proxy_processJob_def split: option.splits)
  show ?thesis
    using assms e retry_job_ack [of x owner job] job_failed_ack [of x owner n job]
    by (auto simp: proxy_processJob_def split: option.splits prod.splits sum.splits) metis+
qed

section \<open>Waiting for a proxy\<close>

text \<open>The timer and the world after a failed attempt; the context has not ended.\<close>

definition next_backoff :: "duration \<Rightarrow> duration" where
  "next_backoff b = (if b * 2 > maxBackoff then maxBackoff else b * 2)"

definition wait_step :: "('s, 'c) proxy_mode \<Rightarrow> string \<Rightarrow> duration \<times> 's \<Rightarrow> duration \<times> 's" where
  "wait_step x owner bs =
     (case px_select x (fst bs) (snd (NewProxy (px_hub x) owner (snd bs))) of
        (Notified, s) \<Rightarrow> (minBackoff, s)
      | (_, s) \<Rightarrow> (next_backoff (fst bs), s))"

lemma waitForProxy_Suc:
  "waitForProxy x owner (Suc n) b s =
     (case NewProxy (px_hub x) owner s of
        (Inr (Some p), s1) \<Rightarrow> Some (Inr p, s1)
      | (_, s1) \<Rightarrow>
          (case px_select x b s1 of
             (CtxDone e, s2) \<Rightarrow> Some (Inl (ESent e), s2)
           | _ \<Rightarrow> waitForProxy x owner n (fst (wait_step x owner (b, s))) (snd (wait_step x owner (b, s)))))"
  by (auto simp: wait_step_def next_backoff_def split: prod.splits sum.splits option.splits wake.splits)

lemma backoff_bounds:
  assumes "minBackoff \<le> b" and "b \<le> maxBackoff"
  shows "minBackoff \<le> fst ((wait_step x owner ^^ k) (b, s)) \<and> fst ((wait_step x owner ^^ k) (b, s)) \<le> maxBackoff"
proof (induction k)
  case (Suc k)
  then show ?case
    by (auto simp: wait_step_def next_backoff_def minBackoff_def maxBackoff_def second_def split: prod.splits wake.splits)
qed (use assms in simp)

lemma waitForProxy_returns:
  assumes "NewProxy (px_hub x) owner (snd ((wait_step x owner ^^ k) (b, s))) = (Inr (Some p), s')" and "k < n"
  shows "\<exists>r. waitForProxy x owner n b s = Some r"
  using assms
proof (induction k arbitrary: n b s)
  case 0
  then show ?case by (cases n) (auto split: prod.splits)
next
  case (Suc k)
  then obtain m where n: "n = Suc m" "k < m" by (cases n) auto
  obtain b1 s1 where st: "wait_step x owner (b, s) = (b1, s1)" by (metis surj_pair)
  from Suc.prems(1) have "NewProxy (px_hub x) owner (snd ((wait_step x owner ^^ k) (b1, s1))) = (Inr (Some p), s')"
    by (simp add: funpow_Suc_right st del: funpow.simps)
  from Suc.IH [OF this n(2)] n(1) st show ?case
    by (auto simp: waitForProxy_Suc simp del: waitForProxy.simps split: prod.splits sum.splits option.splits wake.splits)
qed

lemma waitForProxy_error:
  "waitForProxy x owner n b s = Some (Inl e, s') \<Longrightarrow> \<exists>c d t. e = ESent c \<and> px_select x d t = (CtxDone c, s')"
  by (induction n arbitrary: b s)
    (auto simp: waitForProxy_Suc simp del: waitForProxy.simps(2) split: prod.splits sum.splits option.splits wake.splits)

lemma backoff_ladder:
  assumes "\<And>d t. fst (px_select x d t) \<noteq> Notified"
  shows "fst ((wait_step x owner ^^ k) (minBackoff, s)) = min maxBackoff (minBackoff * 2 ^ k)"
proof (induction k)
  case 0
  then show ?case by (simp add: minBackoff_def maxBackoff_def second_def)
next
  case (Suc k)
  have step: "fst (wait_step x owner bs) = next_backoff (fst bs)" for bs
    using assms by (auto simp: wait_step_def split: prod.splits wake.splits) (metis fst_conv)
  have "(0 :: duration) < minBackoff * 2 ^ k" by (simp add: minBackoff_def second_def)
  with Suc show ?case
    by (auto simp: step next_backoff_def min_def maxBackoff_def second_def)
qed

section \<open>The proxy of a worker\<close>

text \<open>
  What the proxy mode relies on beyond the pool contract: waiting and notifying keep the invariant (others may write
  meanwhile), and building a client or a limiter does not give up a lock.
\<close>

locale proxy_worker = proxy_pool repo inv locked usable
  for repo :: "'s proxy_repo" and inv :: "'s \<Rightarrow> bool" and locked :: "int \<Rightarrow> string \<Rightarrow> 's \<Rightarrow> bool"
    and usable :: "ProxyRecord \<Rightarrow> 's \<Rightarrow> bool" +
  fixes x :: "('s, 'c) proxy_mode" and built :: "'c \<Rightarrow> string \<Rightarrow> bool"
  assumes hub_repo: "hb_repo (px_hub x) = repo"
    and check_keeps: "hb_checker (px_hub x) = Some f \<Longrightarrow> inv s \<Longrightarrow> f pr ip po s = (chk, s2) \<Longrightarrow> inv s2"
    and release_keeps: "inv s \<Longrightarrow> inv (snd (re_ReleaseProxy repo i owner s))"
    and cooldown_keeps: "inv s \<Longrightarrow> inv (snd (re_CooldownDestination repo i owner ttl d s))"
    and select_keeps: "inv s \<Longrightarrow> inv (snd (px_select x d s))"
    and notify_keeps: "inv s \<Longrightarrow> inv (px_notify x s)"
    and limiter_keeps: "inv s \<Longrightarrow> px_newRateLimiter x s = (rl, s') \<Longrightarrow> inv s' \<and> (locked i owner s \<longrightarrow> locked i owner s')"
    and client_keeps: "inv s \<Longrightarrow> px_newLodestoneClient x a rl s = (r, s') \<Longrightarrow> inv s' \<and> (locked i owner s \<longrightarrow> locked i owner s')"
    and client_built: "px_newLodestoneClient x a rl s = (Inr c, s') \<Longrightarrow> built c a"
begin

lemma Release_inv: "inv s \<Longrightarrow> Release repo p owner s = (r, p', s') \<Longrightarrow> inv s'"
  using release_keeps [of s "pr_ID (dp_record p)" owner] by (auto simp: Release_def split: prod.splits sum.splits)

lemma releaseClaim_inv: "inv s \<Longrightarrow> inv (releaseClaim (px_hub x) p owner s)"
  using Release_inv [of s p owner] by (cases "Release repo p owner s") (auto simp: releaseClaim_def hub_repo)

lemma reject_inv:
  assumes "inv s" and "reject_claim (px_hub x) p owner e s = (r, s')"
  shows "inv s'"
proof -
  have fail: "inv t" if "MarkFailed repo p owner ttl s = (u, t)" for ttl u t
    using that failure_keeps [OF assms(1)] by (metis MarkFailed_def snd_conv)
  have cool: "inv t" if "Proxy_CooldownDestination repo p owner ttl d s = (u, t)" for ttl d u t
    using that cooldown_keeps [OF assms(1)] by (metis Proxy_CooldownDestination_def snd_conv)
  show ?thesis
    using assms(2) fail cool releaseClaim_inv assms(1)
    by (auto simp: reject_claim_def hub_repo split: option.splits check_kind.splits prod.splits sum.splits)
qed

lemma NewProxy_inv:
  assumes "inv s" and "NewProxy (px_hub x) owner s = (r, s')"
  shows "inv s'"
proof -
  let ?ttl = "hb_lockTTL (px_hub x)"
  obtain rc s1 where c: "re_ClaimProxy repo owner ?ttl s = (rc, s1)" by (metis surj_pair)
  have i1: "inv s1" using claim_keeps [OF assms(1), of owner ?ttl] c by simp
  have ref: "inv t" if "inv u" "re_RefreshConsumerLock repo i owner ?ttl u = (v, t)" for u i v t
    using refresh_keeps [OF that(1), of i owner ?ttl] that(2) by simp
  show ?thesis
  proof (cases "(\<exists>rec. rc = Inr (Some rec)) \<and> (\<exists>f. hb_checker (px_hub x) = Some f)")
    case False
    with assms(2) c i1 show ?thesis by (auto simp: NewProxy_def hub_repo Let_def split: sum.splits option.splits)
  next
    case True
    then obtain rec f where rec: "rc = Inr (Some rec)" and f: "hb_checker (px_hub x) = Some f" by blast
    obtain m e s2 where k: "f (pr_Protocol rec) (pr_IP rec) (pr_Port rec) s1 = ((m, e), s2)" by (metis surj_pair)
    have i2: "inv s2" using check_keeps [OF f i1 k] .
    obtain v s3 where v: "re_RefreshConsumerLock repo (pr_ID rec) owner ?ttl s2 = (v, s3)" by (metis surj_pair)
    have i3: "inv s3" using ref [OF i2 v] .
    show ?thesis
    proof (cases e)
      case None
      with assms(2) c rec f k v i3 releaseClaim_inv [OF i3] show ?thesis
        by (auto simp: NewProxy_def hub_repo Let_def split: sum.splits option.splits)
    next
      case (Some e')
      with assms(2) c rec f k have "reject_claim (px_hub x) (new_Proxy (px_hub x) rec) owner e' s2 = (r, s')"
        by (simp add: NewProxy_def hub_repo Let_def)
      from reject_inv [OF i2 this] show ?thesis .
    qed
  qed
qed

lemma wait_inv:
  "inv s \<Longrightarrow> waitForProxy x owner n b s = Some (r, s') \<Longrightarrow> inv s'"
proof (induction n arbitrary: b s)
  case (Suc n)
  obtain u s1 where u: "NewProxy (px_hub x) owner s = (u, s1)" by (metis surj_pair)
  obtain v s2 where v: "px_select x b s1 = (v, s2)" by (metis surj_pair)
  have "inv s1" using NewProxy_inv [OF Suc.prems(1) u] .
  moreover from this have "inv s2" using select_keeps [of s1 b] v by simp
  ultimately show ?case using Suc.prems(2) Suc.IH u v by (auto split: sum.splits option.splits wake.splits if_splits)
qed simp

lemma wait_locked:
  "inv s \<Longrightarrow> waitForProxy x owner n b s = Some (Inr p, s') \<Longrightarrow>
    locked (pr_ID (dp_record p)) owner s' \<and> (\<exists>s0. inv s0 \<and> usable (dp_record p) s0)"
proof (induction n arbitrary: b s)
  case (Suc n)
  obtain u s1 where u: "NewProxy (px_hub x) owner s = (u, s1)" by (metis surj_pair)
  obtain v s2 where v: "px_select x b s1 = (v, s2)" by (metis surj_pair)
  have "inv s2" using select_keeps [OF NewProxy_inv [OF Suc.prems(1) u], of b] v by simp
  moreover have "locked (pr_ID (dp_record q)) owner s1 \<and> (\<exists>s0. inv s0 \<and> usable (dp_record q) s0)" if "u = Inr (Some q)" for q
    using NewProxy_locked [OF Suc.prems(1) hub_repo u [unfolded that]] check_keeps by blast
  ultimately show ?case using Suc.prems(2) Suc.IH u v by (auto split: sum.splits option.splits wake.splits if_splits)
qed simp

lemma new_clients_locked:
  assumes "inv s" and "new_clients x p s = (Inr ws, s')"
  shows "inv s' \<and> (locked i owner s \<longrightarrow> locked i owner s') \<and> ws_proxy ws = p \<and> built (ws_client ws) (Address p)"
proof -
  obtain rl s1 where l: "px_newRateLimiter x s = (rl, s1)" by (metis surj_pair)
  have k1: "inv s1" "locked i owner s \<longrightarrow> locked i owner s1" using limiter_keeps [OF assms(1) l] by blast+
  from assms(2) l obtain c where c: "px_newLodestoneClient x (Address p) rl s1 = (Inr c, s')"
      and ws: "ws_proxy ws = p" "ws_client ws = c"
    by (auto simp: new_clients_def split: prod.splits sum.splits)
  from client_keeps [OF k1(1) c] k1(2) client_built [OF c] ws show ?thesis by blast
qed

lemma reacquire_locked:
  assumes "inv s" and "reacquire x owner n what ws s = Some (None, ws', s')"
  shows "inv s' \<and> locked (pr_ID (dp_record (ws_proxy ws'))) owner s' \<and> (\<exists>s0. inv s0 \<and> usable (dp_record (ws_proxy ws')) s0)
    \<and> built (ws_client ws') (Address (ws_proxy ws'))"
proof -
  obtain r p' s1 where rel: "Release repo (ws_proxy ws) owner s = (r, p', s1)" by (metis surj_pair)
  have i1: "inv (px_notify x s1)" using notify_keeps [OF Release_inv [OF assms(1) rel]] .
  from assms(2) rel obtain q s2 where w: "waitForProxy x owner n minBackoff (px_notify x s1) = Some (Inr q, s2)"
      and c: "new_clients x q s2 = (Inr ws', s')"
    by (auto simp: reacquire_def replaceProxy_def hub_repo split: option.splits sum.splits prod.splits)
  from new_clients_locked [OF wait_inv [OF i1 w] c] wait_locked [OF i1 w] show ?thesis by blast
qed

lemma ensure_locked:
  assumes "inv s" and "ensure_proxy x owner n ws s = Some (None, ws', s')"
  shows "inv s' \<and> locked (pr_ID (dp_record (ws_proxy ws'))) owner s' \<and> (\<exists>s0. inv s0 \<and> usable (dp_record (ws_proxy ws')) s0)
    \<and> (built (ws_client ws') (Address (ws_proxy ws'))
        \<or> ws_client ws' = ws_client ws \<and> pr_ID (dp_record (ws_proxy ws')) = pr_ID (dp_record (ws_proxy ws)))"
proof -
  let ?ttl = "hb_lockTTL (px_hub x)" and ?i = "pr_ID (dp_record (ws_proxy ws))"
  obtain u s1 where u: "re_RefreshConsumerLock repo ?i owner ?ttl s = (u, s1)" by (metis surj_pair)
  have i1: "inv s1" using refresh_keeps [OF assms(1), of ?i owner ?ttl] u by simp
  from assms(2) u consider
      fresh where "u = Inr (Some fresh)" "s' = s1" "ws' = ws\<lparr>ws_proxy := (ws_proxy ws)\<lparr>dp_record := fresh\<rparr>\<rparr>"
    | "reacquire x owner n ''proxy re-acquire: '' ws s1 = Some (None, ws', s')"
    by (auto simp: ensure_proxy_def CanUse_def hub_repo split: sum.splits option.splits)
  then show ?thesis
  proof cases
    case 1
    with refresh_locks [OF assms(1) u [unfolded 1(1)]] i1 assms(1) show ?thesis by auto
  next
    case 2
    from reacquire_locked [OF i1 2] show ?thesis by blast
  qed
qed

end

section \<open>PostgreSQL as provider of the proxy mode\<close>

text \<open>
  The inputs: what ends each wait, the writes of other replicas during a wait or a check, the verdicts
  of the destination checks and of the client constructor. A client is the address it was built for.
\<close>

record mode_inputs =
  mi_wake :: "nat \<Rightarrow> wake"
  mi_others :: "nat \<Rightarrow> store_op list"
  mi_check :: "nat \<Rightarrow> int \<times> err option"
  mi_client :: "nat \<Rightarrow> err option"
  mi_publish :: "nat \<Rightarrow> err option"

definition elapse :: "ProxyScanPolicy \<Rightarrow> mode_inputs \<Rightarrow> pg_world \<Rightarrow> pg_world" where
  "elapse p mi w = w\<lparr>pw_db := apply_ops p (mi_others mi (pw_tick w)) (pw_db w), pw_tick := pw_tick w + 1\<rparr>"

definition pg_hub :: "ProxyScanPolicy \<Rightarrow> pg_inputs \<Rightarrow> mode_inputs \<Rightarrow> duration \<Rightarrow> duration \<Rightarrow> pg_world ProxyHub" where
  "pg_hub p inp mi ttl cd =
     \<lparr>hb_repo = pg_repo p inp, hb_lockTTL = ttl, hb_checker = Some (\<lambda>_ _ _ w. (mi_check mi (pw_tick w), elapse p mi w)),
      hb_destCooldown = cd, hb_policy = p\<rparr>"

definition pg_mode :: "ProxyScanPolicy \<Rightarrow> pg_inputs \<Rightarrow> mode_inputs \<Rightarrow> duration \<Rightarrow> duration \<Rightarrow> (string \<Rightarrow> pg_world registry)
    \<Rightarrow> (pg_world, string) proxy_mode" where
  "pg_mode p inp mi ttl cd hs =
     \<lparr>px_hub = pg_hub p inp mi ttl cd,
      px_publish = (\<lambda>job w. (mi_publish mi (pw_tick w), w\<lparr>pw_tick := pw_tick w + 1\<rparr>)),
      px_select = (\<lambda>d w. (mi_wake mi (pw_tick w), elapse p mi w)),
      px_notify = (\<lambda>w. w),
      px_newRateLimiter = (\<lambda>w. (None, w)),
      px_newLodestoneClient = (\<lambda>a rl w. (case mi_client mi (pw_tick w) of Some e \<Rightarrow> Inl e | None \<Rightarrow> Inr a,
                                         w\<lparr>pw_tick := pw_tick w + 1\<rparr>)),
      px_newHandlers = (\<lambda>a rl. hs a)\<rparr>"

lemma elapse_inv: "proxy_inv (pw_db w) \<Longrightarrow> proxy_inv (pw_db (elapse p mi w))"
  by (simp add: elapse_def apply_ops_inv)

interpretation pg_worker: proxy_worker "pg_repo p inp" "\<lambda>w. proxy_inv (pw_db w)" pg_locked "pg_usable p inp"
    "pg_mode p inp mi ttl cd hs" "(=)"
  for p inp mi ttl cd hs
proof (unfold_locales, goal_cases)
  case 1 show ?case by (simp add: pg_mode_def pg_hub_def)
next
  case (2 f s pr ip po chk s2) then show ?case by (auto simp: pg_mode_def pg_hub_def elapse_inv)
next
  case (3 s i owner)
  from apply_op_inv [OF this, of p "OpReleaseProxy (pi_env inp (pw_tick s)) i owner"] show ?case
    by (simp add: pg_repo_def pg_call_def)
next
  case (4 s i owner ttl d)
  from apply_op_inv [OF this, of p "OpCooldown (pi_env inp (pw_tick s)) i owner ttl d"] show ?case
    by (simp add: pg_repo_def pg_call_def)
next
  case 5 then show ?case by (simp add: pg_mode_def elapse_inv)
next
  case 6 then show ?case by (simp add: pg_mode_def)
next
  case 7 then show ?case by (auto simp: pg_mode_def)
next
  case 8 then show ?case by (auto simp: pg_mode_def pg_locked_def)
next
  case 9 then show ?case by (auto simp: pg_mode_def split: option.splits)
qed

section \<open>Properties\<close>

text \<open>C20: A job runs on a proxy that its worker owns. Whatever other replicas write and whatever fails, when the start of
  processJob, or the replacement after a proxy failure, lets the job go on, the row of the worker's proxy is
  locked by the worker, it was fresh and not cooling down when last validated, and the Lodestone client of the handlers
  is the one built for the address of that proxy, or the old client for the same row.\<close>

theorem job_runs_on_owned_proxy:
  assumes "proxy_inv (pw_db w)"
    and "ensure_proxy (pg_mode p inp mi ttl cd hs) owner n ws w = Some (None, ws', w')
      \<or> reacquire (pg_mode p inp mi ttl cd hs) owner n what ws w = Some (None, ws', w')"
  shows "(\<exists>r. row_by_id (pr_ID (dp_record (ws_proxy ws'))) (pw_db w') = Some r \<and> pr_LockedBy r = Some owner)
    \<and> (\<exists>w0. pg_usable p inp (dp_record (ws_proxy ws')) w0)
    \<and> (ws_client ws' = Address (ws_proxy ws')
        \<or> ws_client ws' = ws_client ws \<and> pr_ID (dp_record (ws_proxy ws')) = pr_ID (dp_record (ws_proxy ws)))"
  using assms(2)
proof
  assume "ensure_proxy (pg_mode p inp mi ttl cd hs) owner n ws w = Some (None, ws', w')"
  from pg_worker.ensure_locked [OF assms(1) this] show ?thesis unfolding pg_locked_def by auto
next
  assume "reacquire (pg_mode p inp mi ttl cd hs) owner n what ws w = Some (None, ws', w')"
  from pg_worker.reacquire_locked [OF assms(1) this] show ?thesis unfolding pg_locked_def by auto
qed

definition demo_mode_inputs :: mode_inputs where
  "demo_mode_inputs = \<lparr>mi_wake = (\<lambda>_. TimerFired), mi_others = (\<lambda>_. []), mi_check = (\<lambda>_. (5, None)), mi_client = (\<lambda>_. None),
     mi_publish = (\<lambda>_. None)\<rparr>"

definition demo_handler :: "pg_world job_handler" where
  "demo_handler pl w = (Returned (Inr [CharacterCensusJob 7]), w)"

definition demo_mode :: "(pg_world, string) proxy_mode" where
  "demo_mode = pg_mode demo_policy Proxy_Hub.demo_inputs demo_mode_inputs 60 30 (\<lambda>a. NewRegistry(EventIDSweep \<mapsto> demo_handler))"

definition demo_state :: "(pg_world, string) worker_state" where
  "demo_state = \<lparr>ws_proxy = \<lparr>dp_record = demo_rec, dp_policy = demo_policy\<rparr>, ws_client = ''http://h:80'', ws_limiter = None,
     ws_handlers = NewRegistry(EventIDSweep \<mapsto> demo_handler)\<rparr>"

lemma demo_refresh:
  "\<exists>r db. RefreshConsumerLock demo_policy (demo_env 100) 7 ''c'' 60 demo_locked = (Inr (Some r), db)"
  by (simp add: RefreshConsumerLock_def refreshable_def reply_def Let_def after_def null_or_due_def
        freshPredicate_def demo_locked_def demo_defs new_row_def lock_row_def lease_row_def)

theorem job_runs_on_owned_proxy_witness:
  "\<exists>ws' w'. ensure_proxy demo_mode ''c'' 1 demo_state \<lparr>pw_db = demo_locked, pw_tick = 0\<rparr> = Some (None, ws', w')
     \<and> (\<exists>r. row_by_id (pr_ID (dp_record (ws_proxy ws'))) (pw_db w') = Some r \<and> pr_LockedBy r = Some ''c'')"
proof -
  obtain r db where "RefreshConsumerLock demo_policy (demo_env 100) 7 ''c'' 60 demo_locked = (Inr (Some r), db)"
    using demo_refresh by blast
  then obtain ws' w' where e: "ensure_proxy demo_mode ''c'' 1 demo_state \<lparr>pw_db = demo_locked, pw_tick = 0\<rparr> = Some (None, ws', w')"
    by (simp add: ensure_proxy_def CanUse_def demo_mode_def pg_mode_def pg_hub_def pg_repo_def pg_call_def demo_state_def
        Proxy_Hub.demo_inputs_def)
  from job_runs_on_owned_proxy [OF _ disjI1 [OF e [unfolded demo_mode_def]]] demo_locked_inv e
  show ?thesis by auto
qed

text \<open>waitForProxy ends. If an attempt after \<open>k\<close> failed ones can hand out a proxy, then \<open>Suc k\<close> or more attempts
  give a proxy, or the context ended meanwhile; the timer between two attempts is always between 5 and 60
  seconds, and without notifications the k-th one is \<open>min (5 * 2 ^ k) 60\<close> seconds.\<close>

lemma wait_for_proxy_returns:
  assumes "NewProxy (px_hub x) owner (snd ((wait_step x owner ^^ k) (minBackoff, s))) = (Inr (Some p), s')" and "k < n"
  shows "((\<exists>q t. waitForProxy x owner n minBackoff s = Some (Inr q, t))
      \<or> (\<exists>c d t t'. waitForProxy x owner n minBackoff s = Some (Inl (ESent c), t') \<and> px_select x d t = (CtxDone c, t')))
    \<and> (\<forall>j. 5 * second \<le> fst ((wait_step x owner ^^ j) (minBackoff, s))
          \<and> fst ((wait_step x owner ^^ j) (minBackoff, s)) \<le> 60 * second)
    \<and> ((\<forall>d t. fst (px_select x d t) \<noteq> Notified) \<longrightarrow>
        (\<forall>j. fst ((wait_step x owner ^^ j) (minBackoff, s)) = min (60 * second) (5 * second * 2 ^ j)))"
proof (intro conjI)
  obtain r where "waitForProxy x owner n minBackoff s = Some r" using waitForProxy_returns [OF assms] by blast
  moreover obtain a t where "r = (a, t)" by (metis surj_pair)
  ultimately show "(\<exists>q t. waitForProxy x owner n minBackoff s = Some (Inr q, t))
      \<or> (\<exists>c d t t'. waitForProxy x owner n minBackoff s = Some (Inl (ESent c), t') \<and> px_select x d t = (CtxDone c, t'))"
    using waitForProxy_error [of x owner n minBackoff s] by (cases a) blast+
  show "\<forall>j. 5 * second \<le> fst ((wait_step x owner ^^ j) (minBackoff, s))
          \<and> fst ((wait_step x owner ^^ j) (minBackoff, s)) \<le> 60 * second"
    using backoff_bounds [where b = minBackoff and x = x and owner = owner and s = s] by (simp add: minBackoff_def maxBackoff_def second_def)
  show "(\<forall>d t. fst (px_select x d t) \<noteq> Notified) \<longrightarrow>
        (\<forall>j. fst ((wait_step x owner ^^ j) (minBackoff, s)) = min (60 * second) (5 * second * 2 ^ j))"
    using backoff_ladder [where x = x and owner = owner and s = s] by (simp add: minBackoff_def maxBackoff_def)
qed

text \<open>The first attempt of the demonstration finds a proxy.\<close>

lemma demo_acquire: "\<exists>px w'. NewProxy (px_hub demo_mode) ''w'' \<lparr>pw_db = demo_db, pw_tick = 0\<rparr> = (Inr (Some px), w')"
  by (simp add: NewProxy_def demo_mode_def pg_mode_def pg_hub_def pg_repo_def pg_call_def Proxy_Hub.demo_inputs_def demo_claim_proxy
        demo_mode_inputs_def elapse_def RefreshConsumerLock_def refreshable_def reply_def Let_def lock_row_def after_def null_or_due_def
        freshPredicate_def)
     (simp add: demo_defs new_row_def)

text \<open>A destination rejection (a typed CheckTarget error, 403, 429 or 5xx) neither rotates the identity nor touches
  health: the job's own error goes back to the queue, the worker keeps its proxy object, and in the
  table the row of its proxy is no longer locked by the worker. If the worker still held the lock, the row
  cools down until at least the Retry-After hint and the configured cooldown have passed, and
  its evidence, version and lease are unchanged.\<close>

lemma target_rejection_cools_down:
  assumes "errors_as e = Some ce" and "ce_Kind ce = CheckTarget" and "proxy_inv (pw_db w)"
    and "job_failed (pg_mode p inp mi ttl cd hs) owner n job e ws w = Some (Some e', ws', w')"
    and "\<forall>k. en_fault (pi_env inp k) SAcquire = None \<and> en_fault (pi_env inp k) SExec = None"
    and "row_by_id (pr_ID (dp_record (ws_proxy ws))) (pw_db w) = Some r"
  shows "e' = e \<and> ws' = ws \<and> \<not> pg_locked (pr_ID (dp_record (ws_proxy ws))) owner w'
    \<and> (pr_LockedBy r = Some owner \<longrightarrow>
        (\<exists>r' until. row_by_id (pr_ID (dp_record (ws_proxy ws))) (pw_db w') = Some r'
          \<and> pr_DestinationCooldownUntil r' = Some until \<and> en_stmt (pi_env inp (pw_tick w)) + max (ce_RetryAfter ce) cd \<le> until
          \<and> pr_GeneralHealthy r' = pr_GeneralHealthy r \<and> pr_LastVerifiedAt r' = pr_LastVerifiedAt r
          \<and> pr_ObservationVersion r' = pr_ObservationVersion r \<and> pr_ScanToken r' = pr_ScanToken r))"
proof -
  let ?i = "pr_ID (dp_record (ws_proxy ws))" and ?env = "pi_env inp (pw_tick w)" and ?d = "max (ce_RetryAfter ce) cd"
  let ?f = "\<lambda>r. r\<lparr>pr_DestinationCooldownUntil := Some (case pr_DestinationCooldownUntil r of
                     None \<Rightarrow> en_stmt ?env + ?d | Some t \<Rightarrow> max t (en_stmt ?env + ?d)),
                   pr_LockedBy := None, pr_LockedAt := None, pr_UpdatedAt := en_stmt ?env\<rparr>"
  have cool: "CooldownDestination ?env ?i owner ttl ?d (pw_db w)
      = (Inr (), update_where (\<lambda>r. pr_ID r = ?i \<and> pr_LockedBy r = Some owner) ?f (pw_db w))"
    using assms(5) by (simp add: CooldownDestination_def reply_def)
  with assms(1,2,4) have out: "e' = e" "ws' = ws"
      and db: "pw_db w' = update_where (\<lambda>r. pr_ID r = ?i \<and> pr_LockedBy r = Some owner) ?f (pw_db w)"
    by (auto simp: job_failed_def pg_mode_def pg_hub_def Proxy_CooldownDestination_def pg_repo_def pg_call_def Let_def)
  have "pr_LockedBy r' \<noteq> Some owner" if "row_by_id ?i (pw_db w') = Some r'" for r'
    using CooldownDestination_unlocks [OF cool] that db by simp
  moreover have "row_by_id ?i (pw_db w') = Some (if pr_LockedBy r = Some owner then ?f r else r)"
    using assms(6) row_by_id_Some [OF assms(6)] unfolding db by (simp add: row_by_id_update_where)
  ultimately show ?thesis using out by (auto simp: pg_locked_def split: option.splits)
qed

end
