(* ===== verification/Census_Pipeline.thy ===== *)
theory Census_Pipeline
  imports Census_Worker
begin

text \<open>
  The census pipeline as container/domain.go wires it: the broker delivers a job to the worker, the worker
  runs the registered handler against the census tables and the Lodestone, publishes what it returns and settles the
  delivery. The parts are the definitions of the component theories; what is new here is only their composition.
\<close>

section \<open>The composed system\<close>

record census_system =
  cs_census :: census_world
  cs_service :: Service
  cs_broker :: broker
  cs_tick :: nat

text \<open>
  The inputs of a run: those of the tables and the Lodestone, the fate of each publish, and the rate limiter: whether the
  Lodestone is available and how a wait for it ends.
\<close>

record pipeline_inputs =
  in_census :: census_inputs
  in_publish :: "nat \<Rightarrow> pub_outcome"
  in_available :: "nat \<Rightarrow> bool"
  in_wait :: "nat \<Rightarrow> sentinel option"
  in_client :: bool

definition system_limiter :: "pipeline_inputs \<Rightarrow> census_system lodestone_limiter" where
  "system_limiter inp =
     Some (\<lambda>s. in_available inp (cs_tick s),
           \<lambda>s. (map_option ESent (in_wait inp (cs_tick s)), s\<lparr>cs_tick := Suc (cs_tick s)\<rparr>))"

definition handler_limiter :: "pipeline_inputs \<Rightarrow> census_world lodestone_limiter" where
  "handler_limiter inp =
     Some (\<lambda>w. in_available inp (cw_tick w),
           \<lambda>w. (map_option ESent (in_wait inp (cw_tick w)), w\<lparr>cw_tick := Suc (cw_tick w)\<rparr>))"

definition on_tables :: "(payload \<Rightarrow> census_world \<Rightarrow> QueueJob list result \<times> census_world) \<Rightarrow> census_system job_handler" where
  "on_tables h pl s = (case h pl (cs_census s) of (r, w) \<Rightarrow> (Returned r, s\<lparr>cs_census := w\<rparr>))"

text \<open>The registry with a census service; without a database it is empty and RunEvents refuses to start.\<close>

definition census_handlers :: "pipeline_inputs \<Rightarrow> census_system registry" where
  "census_handlers inp =
     (let pt = pg_ports (in_census inp); client = in_client inp
      in Register EventCharacterCensus (on_tables (CharacterCensus_Handle pt client))
         (Register EventAchievementCensus
            (\<lambda>pl s. case AchievementCensus_Handle pt (handler_limiter inp) pl (cs_service s) (cs_census s) of
               (r, sv, w) \<Rightarrow> (Returned r, s\<lparr>cs_census := w, cs_service := sv\<rparr>))
         (Register EventIDSweep (on_tables (IDSweep_Handle pt client)) NewRegistry)))"

definition census_worker :: "pipeline_inputs \<Rightarrow> census_system Worker" where
  "census_worker inp =
     \<lparr>wk_publish = (\<lambda>job s. case Publish (in_publish inp (cs_tick s)) job (cs_broker s) of
         (r, bk) \<Rightarrow> (r, s\<lparr>cs_broker := bk, cs_tick := Suc (cs_tick s)\<rparr>)),
      wk_handlers = census_handlers inp, wk_limiter = system_limiter inp,
      wk_sleep = (\<lambda>d s. s\<lparr>cs_tick := Suc (cs_tick s)\<rparr>)\<rparr>"

text \<open>One iteration of consumeWorker, with a job function that acts on the system.\<close>

definition run_delivery :: "census_system Worker \<Rightarrow> pub_outcome \<Rightarrow> timestamp \<Rightarrow> bool \<Rightarrow> string \<Rightarrow> census_system \<Rightarrow> census_system" where
  "run_delivery w oc now stop et s =
     (case deliver (queuePrefix @ et) (cs_broker s) of
        None \<Rightarrow> s
      | Some (msg, bk1) \<Rightarrow>
          if stop then s\<lparr>cs_broker := requeue (queuePrefix @ et) msg bk1\<rparr>
          else (let job = \<lparr>qj_Type = canonicalEventType et, qj_Payload = mg_body msg\<rparr>
                in case processJob w job (s\<lparr>cs_broker := bk1\<rparr>) of
                     (Some e, s') \<Rightarrow>
                       s'\<lparr>cs_broker := settle (queuePrefix @ et) msg (handleFailure oc now msg (qj_Type job) e (cs_broker s'))\<rparr>
                   | (None, s') \<Rightarrow> s'))"

section \<open>Composition lemmas\<close>

lemma sweep_registered: "Registry_Get (census_handlers inp) EventIDSweep = Some (on_tables (IDSweep_Handle (pg_ports (in_census inp)) (in_client inp)))"
  by (simp add: census_handlers_def Registry_Get_def Register_def Let_def EventIDSweep_def EventCharacterCensus_def EventAchievementCensus_def)

lemma canonical_sweep: "canonicalEventType EventIDSweep = EventIDSweep" "\<not> has_suffix EventIDSweep ''.failed''"
  by (simp_all add: canonicalEventType_def trim_suffix_def has_suffix_def EventIDSweep_def)

lemma publish_next_effect:
  assumes "publish_next (wk_publish (census_worker inp)) jobs s = (r, s')" and "distinct (queue_names (cs_broker s))"
  shows "cs_census s' = cs_census s \<and> queue_names (cs_broker s') = queue_names (cs_broker s)
    \<and> bodies (cs_broker s) \<subseteq># bodies (cs_broker s')
    \<and> (r = None \<longrightarrow> bodies (cs_broker s') = bodies (cs_broker s) + mset (map qj_Payload jobs))"
  using assms
proof (induction jobs arbitrary: s)
  case (Cons job jobs)
  obtain u bk where u: "Publish (in_publish inp (cs_tick s)) job (cs_broker s) = (u, bk)" by (metis surj_pair)
  note K = publishConfirmed_keeps [OF Cons.prems(2) u [unfolded Publish_def]]
  let ?s1 = "s\<lparr>cs_broker := bk, cs_tick := Suc (cs_tick s)\<rparr>"
  show ?case
  proof (cases u)
    case (Some e)
    with Cons.prems u K show ?thesis by (auto simp: census_worker_def)
  next
    case None
    with Cons.prems u have rest: "publish_next (wk_publish (census_worker inp)) jobs ?s1 = (r, s')"
      by (simp add: census_worker_def)
    have "distinct (queue_names (cs_broker ?s1))" using K Cons.prems(2) by simp
    from Cons.IH [OF rest this] K None show ?thesis
      by (auto dest!: mset_subset_eq_insertD intro: subset_mset.less_imp_le)
  qed
qed auto

lemma system_wait_keeps:
  "waitForProviders (system_limiter inp) et s = (r, s1) \<Longrightarrow> cs_census s1 = cs_census s \<and> cs_broker s1 = cs_broker s"
  by (auto simp: waitForProviders_def limiter_wait_def system_limiter_def split: if_splits)

text \<open>The fate of an id-sweep job in the worker.\<close>

lemma sweep_job_effect:
  assumes "processJob (census_worker inp) \<lparr>qj_Type = EventIDSweep, qj_Payload = pl\<rparr> s = (r, s')"
    and "distinct (queue_names (cs_broker s))"
  shows "queue_names (cs_broker s') = queue_names (cs_broker s) \<and> bodies (cs_broker s) \<subseteq># bodies (cs_broker s')"
    and "r = None \<Longrightarrow> \<exists>jobs. IDSweep_Handle (pg_ports (in_census inp)) (in_client inp) pl (cs_census s) = (Inr jobs, cs_census s')
      \<and> bodies (cs_broker s') = bodies (cs_broker s) + mset (map qj_Payload jobs)"
proof -
  let ?H = "IDSweep_Handle (pg_ports (in_census inp)) (in_client inp) pl"
  obtain u s1 where u: "waitForProviders (system_limiter inp) EventIDSweep s = (u, s1)" by (metis surj_pair)
  note s1 = system_wait_keeps [OF u]
  obtain v w where v: "?H (cs_census s) = (v, w)" by (metis surj_pair)
  let ?s2 = "s1\<lparr>cs_census := w\<rparr>"
  have run: "run_handler (on_tables (IDSweep_Handle (pg_ports (in_census inp)) (in_client inp))) pl s1 = (v, ?s2)"
    using v s1 by (simp add: run_handler_def on_tables_def)
  have job: "processJob (census_worker inp) \<lparr>qj_Type = EventIDSweep, qj_Payload = pl\<rparr> s =
      (case u of Some e \<Rightarrow> (Some e, s1)
       | None \<Rightarrow> (case v of Inl e \<Rightarrow> (Some e, if rate_limited e then wk_sleep (census_worker inp) (200 * millisecond) ?s2 else ?s2)
                 | Inr jobs \<Rightarrow> publish_next (wk_publish (census_worker inp)) jobs ?s2))"
    using u run by (auto simp: processJob_def sweep_registered census_worker_def split: option.splits sum.splits)
  show "queue_names (cs_broker s') = queue_names (cs_broker s) \<and> bodies (cs_broker s) \<subseteq># bodies (cs_broker s')"
    using assms job s1 publish_next_effect [of inp _ ?s2 r s']
    by (auto simp: census_worker_def split: option.splits sum.splits if_splits)
  show "\<exists>jobs. ?H (cs_census s) = (Inr jobs, cs_census s') \<and> bodies (cs_broker s') = bodies (cs_broker s) + mset (map qj_Payload jobs)"
    if "r = None"
    using assms job s1 that v publish_next_effect [of inp _ ?s2 r s']
    by (auto split: option.splits sum.splits if_splits)
qed

text \<open>Errors of the broker and of the limiter carry no sentinel of the queue contract.\<close>

definition plain_outcome :: "pub_outcome \<Rightarrow> bool" where
  "plain_outcome oc = (case oc of PubReconnect e \<Rightarrow> plain_error e | PubSend e b \<Rightarrow> plain_error e | PubWait e b \<Rightarrow> plain_error e
     | _ \<Rightarrow> True)"

definition plain_inputs :: "pipeline_inputs \<Rightarrow> bool" where
  "plain_inputs inp \<longleftrightarrow> (\<forall>n. plain_outcome (in_publish inp n))
     \<and> (\<forall>n e. in_wait inp n = Some e \<longrightarrow> e \<in> {CtxCanceled, CtxDeadlineExceeded})"

lemma publish_error_plain:
  assumes "Publish oc job bk = (Some e, bk')" and "plain_outcome oc"
  shows "\<not> errors_is e ErrPoisonPayload \<and> \<not> errors_is e ErrNoHandler"
  using assms
  by (auto simp: Publish_def publishConfirmed_def plain_outcome_def plain_error_def split: pub_outcome.splits prod.splits bool.splits)

lemma publish_next_error:
  assumes "publish_next (wk_publish (census_worker inp)) jobs s = (Some e, s')" and "plain_inputs inp"
  shows "\<not> errors_is e ErrPoisonPayload \<and> \<not> errors_is e ErrNoHandler"
  using assms(1)
proof (induction jobs arbitrary: s)
  case (Cons job jobs)
  obtain u bk where u: "Publish (in_publish inp (cs_tick s)) job (cs_broker s) = (u, bk)" by (metis surj_pair)
  show ?case
  proof (cases u)
    case (Some e')
    with Cons.prems u have "Publish (in_publish inp (cs_tick s)) job (cs_broker s) = (Some e, bk)" by (simp add: census_worker_def)
    from publish_error_plain [OF this] assms(2) show ?thesis by (simp add: plain_inputs_def)
  next
    case None
    with Cons u show ?thesis by (simp add: census_worker_def)
  qed
qed simp

text \<open>The contract of the remaining ports: their errors carry no sentinel of the queue contract either.\<close>

locale census_ports_plain = census_repository pt probes stored
  for pt :: "'s census_ports" and probes and stored +
  assumes mark_plain: "pt_MarkDeleted pt i t s = (Some e, s') \<Longrightarrow> plain_error e"
    and fetch_achievements_plain: "pt_FetchAchievements pt i ms s = (Inl e, s') \<Longrightarrow> plain_error e"
    and summary_plain: "pt_UpdateAchievementSummary pt i pv li la s = (Some e, s') \<Longrightarrow> plain_error e"
    and private_plain: "pt_SetAchievementsPrivate pt i pv s = (Some e, s') \<Longrightarrow> plain_error e"
    and list_plain: "pt_ListMilestones pt s = (Inl e, s') \<Longrightarrow> plain_error e"
    and milestones_plain: "pt_UpsertCharacterMilestones pt i cms s = (Some e, s') \<Longrightarrow> plain_error e"
begin

lemma cached_plain: "cachedMilestones pt sv s = (Inl e, sv', s') \<Longrightarrow> plain_error e"
  using list_plain by (auto simp: cachedMilestones_def split: if_splits prod.splits sum.splits)

lemma process_plain: "ProcessMilestoneResults pt sv i sm s = (Inl e, sv', s') \<Longrightarrow> plain_error e"
  using cached_plain summary_plain private_plain milestones_plain
  by (auto simp: ProcessMilestoneResults_def Let_def plain_error_def [of "EText _"]
      split: option.splits if_splits prod.splits sum.splits)

lemma character_error:
  assumes "CharacterCensus_Handle pt client pl s = (Inl e, s')"
  shows "\<not> errors_is e ErrNoHandler \<and> (errors_is e ErrPoisonPayload \<longleftrightarrow> (\<exists>d. decode_CharacterID pl = Inl d))"
proof -
  have dec: "\<not> errors_is d ErrNoHandler" if "decode_CharacterID pl = Inl d" for d
    using that by (auto simp: decode_CharacterID_def json_error_def split: option.splits json.splits prod.splits if_splits)
  show ?thesis
    using assms dec fetch_plain mark_plain UpsertCharacter_cases(5)
    by (auto simp: CharacterCensus_Handle_def finishLodestone_def poison_def unconfigured_def plain_error_def
        split: sum.splits if_splits prod.splits option.splits)
qed

lemma achievement_fetch_error:
  "achievement_fetch pt sv i ids known s = (Inl e, sv', s') \<Longrightarrow> \<not> errors_is e ErrNoHandler \<and> \<not> errors_is e ErrPoisonPayload"
  using fetch_achievements_plain mark_plain process_plain
  by (auto simp: achievement_fetch_def plain_error_def split: sum.splits if_splits prod.splits option.splits)

lemma achievement_error:
  assumes "AchievementCensus_Handle pt rl pl sv s = (Inl e, sv', s')"
    and "\<And>t c t'. limiter_wait rl t = (Some c, t') \<Longrightarrow> plain_error c"
  shows "\<not> errors_is e ErrNoHandler \<and> (errors_is e ErrPoisonPayload \<longleftrightarrow> (\<exists>d. decode_CharacterID pl = Inl d))"
proof -
  have dec: "\<not> errors_is d ErrNoHandler" if "decode_CharacterID pl = Inl d" for d
    using that by (auto simp: decode_CharacterID_def json_error_def split: option.splits json.splits prod.splits if_splits)
  have ids: "\<not> errors_is d ErrNoHandler \<and> \<not> errors_is d ErrPoisonPayload" if "MilestoneIDs pt sv t = (Inl d, sv1, t')" for d sv1 t t'
    using that cached_plain by (auto simp: MilestoneIDs_def plain_error_def split: prod.splits sum.splits)
  show ?thesis
    using assms(1) dec ids assms(2) achievement_fetch_error
    by (auto simp: AchievementCensus_Handle_def poison_def plain_error_def split: sum.splits prod.splits option.splits)
qed

end

lemma exec_write_plain: "exec_write (env_at inp t) n pre db db' = (Some e, db2) \<Longrightarrow> plain_error e"
  by (auto simp: exec_write_def env_at_def wrapped_def plain_error_def [of "EWrap _ _ _"] port_err_plain [unfolded plain_error_def]
      split: option.splits)

lemma fault_plain: "cv_fault (env_at inp t) n = Some e \<Longrightarrow> plain_error e"
  by (auto simp: env_at_def port_err_plain)

interpretation pg_plain: census_ports_plain "pg_ports inp" cw_probes has_row for inp
proof (unfold_locales, goal_cases)
  case 1 then show ?case by (auto simp: pg_ports_def db_call_def MarkDeleted_def split: prod.splits intro: exec_write_plain)
next
  case 2 then show ?case by (auto simp: pg_ports_def intro: answer_plain)
next
  case 3 then show ?case by (auto simp: pg_ports_def db_call_def UpdateAchievementSummary_def split: prod.splits intro: exec_write_plain)
next
  case 4 then show ?case by (auto simp: pg_ports_def db_call_def SetAchievementsPrivate_def split: prod.splits intro: exec_write_plain)
next
  case 5 then show ?case
    by (auto simp: pg_ports_def db_call_def ListMilestones_def fetch_many_def split: prod.splits option.splits if_splits intro: fault_plain)
next
  case 6 then show ?case
    by (auto simp: pg_ports_def db_call_def UpsertCharacterMilestones_def wrapped_def plain_error_def [of "EWrap _ _ _"]
        split: prod.splits option.splits if_splits intro: fault_plain exec_write_plain)
qed

text \<open>A job that no retry can help: no handler, an undecodable payload or an inverted range.\<close>

definition unprocessable :: "QueueJob \<Rightarrow> bool" where
  "unprocessable job \<longleftrightarrow>
     (if qj_Type job = EventIDSweep
      then (case decode_IDSweep (qj_Payload job) of Inl _ \<Rightarrow> True | Inr p \<Rightarrow> is_From p > is_To p)
      else if qj_Type job \<in> {EventCharacterCensus, EventAchievementCensus}
      then (case decode_CharacterID (qj_Payload job) of Inl _ \<Rightarrow> True | Inr _ \<Rightarrow> False)
      else True)"

lemma registered_iff: "Registry_Get (census_handlers inp) et = None \<longleftrightarrow> et \<notin> {EventIDSweep, EventCharacterCensus, EventAchievementCensus}"
  by (simp add: census_handlers_def Registry_Get_def Register_def Let_def NewRegistry_def)

lemma handler_wait_plain:
  "plain_inputs inp \<Longrightarrow> limiter_wait (handler_limiter inp) w = (Some c, w') \<Longrightarrow> plain_error c"
  by (fastforce simp: limiter_wait_def handler_limiter_def plain_inputs_def plain_error_def split: if_splits)

lemma system_wait_plain:
  "plain_inputs inp \<Longrightarrow> waitForProviders (system_limiter inp) et s = (Some c, s') \<Longrightarrow> plain_error c"
  by (fastforce simp: waitForProviders_def limiter_wait_def system_limiter_def plain_inputs_def plain_error_def split: if_splits)

lemma events_distinct [simp]:
  "EventIDSweep \<noteq> EventCharacterCensus" "EventIDSweep \<noteq> EventAchievementCensus" "EventCharacterCensus \<noteq> EventAchievementCensus"
  "EventCharacterCensus \<noteq> EventIDSweep" "EventAchievementCensus \<noteq> EventIDSweep" "EventAchievementCensus \<noteq> EventCharacterCensus"
  by (simp_all add: EventIDSweep_def EventCharacterCensus_def EventAchievementCensus_def)

lemma census_run_cases:
  assumes "Registry_Get (census_handlers inp) et = Some h" and "run_handler h pl s = (r, s')"
  obtains (sweep) w where "et = EventIDSweep" "IDSweep_Handle (pg_ports (in_census inp)) (in_client inp) pl (cs_census s) = (r, w)"
  | (character) w where "et = EventCharacterCensus"
      "CharacterCensus_Handle (pg_ports (in_census inp)) (in_client inp) pl (cs_census s) = (r, w)"
  | (achievement) sv w where "et = EventAchievementCensus"
      "AchievementCensus_Handle (pg_ports (in_census inp)) (handler_limiter inp) pl (cs_service s) (cs_census s) = (r, sv, w)"
  using assms
  by (auto simp: census_handlers_def Registry_Get_def Register_def NewRegistry_def Let_def run_handler_def on_tables_def
      split: if_splits prod.splits)

lemma handler_error:
  assumes "Registry_Get (census_handlers inp) (qj_Type job) = Some h" and "run_handler h (qj_Payload job) s = (Inl e, s')"
    and "plain_inputs inp"
  shows "\<not> errors_is e ErrNoHandler \<and> (errors_is e ErrPoisonPayload \<longleftrightarrow> unprocessable job)"
  using assms(1,2)
proof (cases rule: census_run_cases)
  case sweep
  then show ?thesis using pg_census.IDSweep_poison [OF sweep(2)] by (simp add: unprocessable_def)
next
  case character
  then show ?thesis using pg_plain.character_error [OF character(2)] by (auto simp: unprocessable_def split: sum.splits)
next
  case achievement
  then show ?thesis using pg_plain.achievement_error [OF achievement(2) handler_wait_plain [OF assms(3)]]
    by (auto simp: unprocessable_def split: sum.splits)
qed

lemma handler_success:
  assumes "Registry_Get (census_handlers inp) (qj_Type job) = Some h" and "run_handler h (qj_Payload job) s = (Inr jobs, s')"
  shows "\<not> unprocessable job"
  using assms
  by (cases rule: census_run_cases)
    (auto simp: unprocessable_def IDSweep_Handle_def CharacterCensus_Handle_def AchievementCensus_Handle_def
      split: if_splits sum.splits)

lemma job_error_class:
  assumes "processJob (census_worker inp) job s = (Some e, s')" and "plain_inputs inp"
  shows "errors_is e ErrPoisonPayload \<or> errors_is e ErrNoHandler \<Longrightarrow> unprocessable job"
    and "unprocessable job \<Longrightarrow> fst (waitForProviders (system_limiter inp) (qj_Type job) s) = None \<Longrightarrow>
      errors_is e ErrPoisonPayload \<or> errors_is e ErrNoHandler"
proof -
  have parts: "wk_handlers (census_worker inp) = census_handlers inp" "wk_limiter (census_worker inp) = system_limiter inp"
    by (simp_all add: census_worker_def)
  obtain u s1 where u: "waitForProviders (system_limiter inp) (qj_Type job) s = (u, s1)" by (metis surj_pair)
  consider "Registry_Get (census_handlers inp) (qj_Type job) = None" "e = missingHandlerError (qj_Type job)"
    | h where "Registry_Get (census_handlers inp) (qj_Type job) = Some h" "u = Some e"
    | h s2 where "Registry_Get (census_handlers inp) (qj_Type job) = Some h" "u = None" "run_handler h (qj_Payload job) s1 = (Inl e, s2)"
    | h s2 jobs where "Registry_Get (census_handlers inp) (qj_Type job) = Some h" "u = None"
        "run_handler h (qj_Payload job) s1 = (Inr jobs, s2)" "publish_next (wk_publish (census_worker inp)) jobs s2 = (Some e, s')"
    using assms(1) u by (auto simp: processJob_def parts split: option.splits prod.splits sum.splits)
  then have "(errors_is e ErrPoisonPayload \<or> errors_is e ErrNoHandler \<longrightarrow> unprocessable job)
      \<and> (unprocessable job \<and> u = None \<longrightarrow> errors_is e ErrPoisonPayload \<or> errors_is e ErrNoHandler)"
  proof cases
    case 1
    then show ?thesis using registered_iff [of inp "qj_Type job"] by (simp add: missingHandlerError_def unprocessable_def)
  next
    case 2
    then show ?thesis using system_wait_plain [OF assms(2)] u by (auto simp: plain_error_def)
  next
    case 3
    then show ?thesis using handler_error [OF 3(1,3) assms(2)] by blast
  next
    case 4
    then show ?thesis using handler_success [OF 4(1,3)] publish_next_error [OF 4(4) assms(2)] by blast
  qed
  with u show "errors_is e ErrPoisonPayload \<or> errors_is e ErrNoHandler \<Longrightarrow> unprocessable job"
    and "unprocessable job \<Longrightarrow> fst (waitForProviders (system_limiter inp) (qj_Type job) s) = None \<Longrightarrow>
      errors_is e ErrPoisonPayload \<or> errors_is e ErrNoHandler"
    by simp_all
qed

section \<open>Properties\<close>

text \<open>C1: The id sweep loses no work end to end. After one delivery of an id-sweep message to the composed worker,
  whatever the Lodestone, the database, the broker and the shutdown do, either the broker still has
  the message and every other message (on its queue, the failed queue or the dead queue), or the
  message was acknowledged and its work is complete: every id of its range was probed once and in order, each
  found character is stored or hidden, and exactly the achievement-census jobs of the stored ones were
  added to the broker.\<close>

theorem id_sweep_delivery_loses_nothing:
  assumes "distinct (queue_names (cs_broker s))" and "deliver (queuePrefix @ EventIDSweep) (cs_broker s) = Some (msg, bk1)"
    and "s' = run_delivery (census_worker inp) oc now stop EventIDSweep s"
  shows "bodies (cs_broker s) \<subseteq># bodies (cs_broker s')
    \<or> (\<exists>p log. decode_IDSweep (mg_body msg) = Inr p
        \<and> cw_probes (cs_census s') = cw_probes (cs_census s) @ log
        \<and> map fst log = map word_of_int [uint (is_From p)..uint (is_To p)]
        \<and> (\<forall>q\<in>set log. settled (\<lambda>k. has_row k (cs_census s')) q)
        \<and> bodies (cs_broker s) + mset (map qj_Payload (concat (map chained log)))
            = add_mset (mg_body msg) (bodies (cs_broker s')))"
proof -
  note d = deliver_bodies [OF assms(1,2)]
  have d1: "distinct (queue_names bk1)" using assms(1) d(2) by simp
  let ?job = "\<lparr>qj_Type = EventIDSweep, qj_Payload = mg_body msg\<rparr>"
  obtain r t where p: "processJob (census_worker inp) ?job (s\<lparr>cs_broker := bk1\<rparr>) = (r, t)" by (metis surj_pair)
  have eff: "queue_names (cs_broker t) = queue_names bk1" "bodies bk1 \<subseteq># bodies (cs_broker t)"
    using sweep_job_effect(1) [OF p] d1 by simp_all
  show ?thesis
  proof (cases "stop \<or> r \<noteq> None")
    case True
    have dt: "distinct (queue_names (cs_broker t))" "has_queue (queuePrefix @ EventIDSweep) (cs_broker t)"
      using eff(1) d1 d(3) by (simp_all add: has_queue_iff)
    have "add_mset (mg_body msg) (bodies (cs_broker t))
        \<subseteq># bodies (settle (queuePrefix @ EventIDSweep) msg (handleFailure oc now msg EventIDSweep e (cs_broker t)))" for e
      using settle_preserves [OF handleFailure_preserves [OF dt(1)] dt(2)] .
    then have "add_mset (mg_body msg) (bodies bk1)
        \<subseteq># bodies (settle (queuePrefix @ EventIDSweep) msg (handleFailure oc now msg EventIDSweep e (cs_broker t)))" for e
      using eff(2) by (meson mset_subset_eq_add_mset_cancel subset_mset.order_trans)
    then have "bodies (cs_broker s) \<subseteq># bodies (cs_broker s')"
      using True assms(2,3) p d(1) bodies_requeue [OF d1 d(3)]
      by (auto simp: run_delivery_def canonical_sweep)
    then show ?thesis ..
  next
    case False
    then have s': "s' = t" "r = None" using assms(2,3) p by (simp_all add: run_delivery_def canonical_sweep)
    obtain jobs where h: "IDSweep_Handle (pg_ports (in_census inp)) (in_client inp) (mg_body msg) (cs_census s) = (Inr jobs, cs_census s')"
        and b: "bodies (cs_broker s') = bodies bk1 + mset (map qj_Payload jobs)"
      using sweep_job_effect(2) [OF p _ s'(2)] d1 s'(1) by auto
    from h obtain q where q: "decode_IDSweep (mg_body msg) = Inr q" "is_From q \<le> is_To q"
        "sweep_loop (pg_ports (in_census inp)) (is_To q) (is_From q) [] (cs_census s) = (Inr jobs, cs_census s')"
      by (auto simp: IDSweep_Handle_def not_less split: sum.splits if_splits)
    from pg_census.sweep_loop_ok [OF q(3,2)] q(1) b d(1) show ?thesis by auto
  qed
qed

definition demo_pipeline :: pipeline_inputs where
  "demo_pipeline = \<lparr>in_census = Census_Handlers.demo_inputs, in_publish = (\<lambda>_. PubAck), in_available = (\<lambda>_. True), in_wait = (\<lambda>_. None),
     in_client = True\<rparr>"

definition demo_system :: census_system where
  "demo_system = \<lparr>cs_census = demo_world, cs_service = NewService, cs_broker = enqueue ''census.id-sweep''
     \<lparr>mg_body = demo_sweep, mg_headers = None, mg_expiration = []\<rparr> (declareTopology []), cs_tick = 0\<rparr>"

lemma demo_system_names: "distinct (queue_names (cs_broker demo_system))"
  using topology_declared [of "[]"] by (simp add: demo_system_def topology_def queue_names_def [of "[]"])

theorem id_sweep_delivery_loses_nothing_witness:
  "\<exists>log. cw_probes (cs_census (run_delivery (census_worker demo_pipeline) PubAck 0 False EventIDSweep demo_system)) = cw_probes demo_world @ log
     \<and> map fst log = [7, 8]"
proof -
  let ?s = "run_delivery (census_worker demo_pipeline) PubAck 0 False EventIDSweep demo_system"
  have "deliver (queuePrefix @ EventIDSweep) (cs_broker demo_system) = Some (\<lparr>mg_body = demo_sweep, mg_headers = None, mg_expiration = []\<rparr>, declareTopology [])"
    by (simp add: demo_system_def declareTopology_def eventTypes_def declare_queue_def has_queue_def enqueue_def deliver_def
        queuePrefix_def EventIDSweep_def)
  note W = id_sweep_delivery_loses_nothing [OF demo_system_names this refl, of demo_pipeline PubAck 0 False]
  have "list_ex (\<lambda>x. demo_sweep \<in> set (map mg_body (snd x))) (cs_broker demo_system)" by code_simp
  then have "demo_sweep \<in># bodies (cs_broker demo_system)" by (auto simp: bodies_def list_ex_iff)
  moreover have "list_all (\<lambda>x. demo_sweep \<notin> set (map mg_body (snd x))) (cs_broker ?s)" by code_simp
  then have "demo_sweep \<notin># bodies (cs_broker ?s)" by (auto simp: bodies_def list_all_iff)
  ultimately have "\<not> bodies (cs_broker demo_system) \<subseteq># bodies (cs_broker ?s)" by (meson mset_subset_eqD)
  with W obtain p log where "decode_IDSweep demo_sweep = Inr p" "cw_probes (cs_census ?s) = cw_probes (cs_census demo_system) @ log"
      "map fst log = map word_of_int [uint (is_From p)..uint (is_To p)]" by auto
  moreover have "decode_IDSweep demo_sweep = Inr \<lparr>is_From = 7, is_To = 8, is_Source = ''auto''\<rparr>"
    by (simp add: demo_sweep_def decode_encode_IDSweep)
  ultimately show ?thesis by (auto simp: demo_system_def upto.simps)
qed

text \<open>C37: Only work that no retry can help is dead-parked. When the composed worker reports an error for a job, the queue
  parks the delivery on the dead queue only if its event has no handler, its payload cannot be decoded or
  its id range is inverted, and it does so whenever the rate limiter let such a job through; every other
  error (of the Lodestone, the database, the broker, the limiter or a panic) is retried with backoff.\<close>

theorem dead_letters_are_unprocessable:
  assumes "processJob (census_worker inp) job s = (Some e, s')" and "plain_inputs inp"
  shows "(fo_dead (failureDecision e attempts) \<longrightarrow> unprocessable job)
    \<and> (unprocessable job \<and> fst (waitForProviders (system_limiter inp) (qj_Type job) s) = None
        \<longrightarrow> fo_dead (failureDecision e attempts))
    \<and> (\<not> fo_dead (failureDecision e attempts) \<longrightarrow> fo_backoffSec (failureDecision e attempts) = retryBackoffSec attempts)"
  using job_error_class [OF assms] by (auto simp: failureDecision_def)

theorem dead_letters_are_unprocessable_witness:
  "\<exists>e s'. processJob (census_worker demo_pipeline) \<lparr>qj_Type = EventIDSweep, qj_Payload = None\<rparr> demo_system = (Some e, s')
     \<and> fo_dead (failureDecision e 1)"
proof -
  let ?job = "\<lparr>qj_Type = EventIDSweep, qj_Payload = None\<rparr>"
  have w: "waitForProviders (system_limiter demo_pipeline) EventIDSweep demo_system = (None, demo_system)"
    by (simp add: waitForProviders_def system_limiter_def limiter_wait_def demo_pipeline_def)
  then have "\<exists>e s'. processJob (census_worker demo_pipeline) ?job demo_system = (Some e, s')"
    by (simp add: processJob_def census_worker_def sweep_registered run_handler_def on_tables_def IDSweep_Handle_def decode_IDSweep_def)
  then obtain e s' where p: "processJob (census_worker demo_pipeline) ?job demo_system = (Some e, s')" by blast
  have "plain_inputs demo_pipeline" by (simp add: plain_inputs_def plain_outcome_def demo_pipeline_def)
  from dead_letters_are_unprocessable [OF p this, of 1] w p show ?thesis
    by (simp add: unprocessable_def decode_IDSweep_def)
qed

end
