(* ===== verification/Scan_Protocol.thy ===== *)
theory Scan_Protocol
  imports Scan_Fencing
begin

text \<open>
  The abstract specification of the scan pipeline on one proxy and the proof that the proxies table implements it. A proxy
  has a slot that holds at most one lease with the version it was claimed at and its expiry, a consumer lock with the time it was
  taken, a version that counts conclusive observations and a health flag; ten rules change it. The writes of the repository
  (proxy.go and proxy\_scan.go) refine the protocol: each one acts on each row as one event that the arguments and the clocks of the
  call determine, so what the protocol guarantees holds of the table under every interleaving.
\<close>

section \<open>The protocol\<close>

datatype slot = Idle | Leased string int timestamp

record proxy_view =
  pv_slot :: slot
  pv_lock :: "(string \<times> timestamp) option"
  pv_version :: int
  pv_healthy :: bool

datatype scan_event =
    Silent
  | Lease string timestamp timestamp
  | Settle string int timestamp ScanOutcome
  | GiveBack string int
  | Lock string duration timestamp timestamp
  | Extend string duration timestamp
  | Unlock string
  | Revoke string duration int timestamp

definition free_at :: "timestamp \<Rightarrow> slot \<Rightarrow> bool" where
  "free_at t sl = (case sl of Idle \<Rightarrow> True | Leased tok ver u \<Rightarrow> u \<le> t)"

definition lock_live :: "string \<Rightarrow> timestamp \<Rightarrow> (string \<times> timestamp) option \<Rightarrow> bool" where
  "lock_live owner t lk = (case lk of None \<Rightarrow> False | Some (ow, s) \<Rightarrow> ow = owner \<and> t < s)"

inductive protocol :: "scan_event \<Rightarrow> proxy_view \<Rightarrow> proxy_view \<Rightarrow> bool" where
  silent: "protocol Silent v v"
| lease: "free_at t (pv_slot v) \<Longrightarrow> protocol (Lease tok t u) v (v\<lparr>pv_slot := Leased tok (pv_version v) u\<rparr>)"
| success: "pv_slot v = Leased tok (pv_version v) u \<Longrightarrow> t < u
    \<Longrightarrow> protocol (Settle tok (pv_version v) t ScanSuccess) v (v\<lparr>pv_slot := Idle, pv_version := pv_version v + 1, pv_healthy := True\<rparr>)"
| failure: "pv_slot v = Leased tok (pv_version v) u \<Longrightarrow> t < u
    \<Longrightarrow> protocol (Settle tok (pv_version v) t ScanFailure) v (v\<lparr>pv_slot := Idle, pv_version := pv_version v + 1, pv_healthy := False\<rparr>)"
| inconclusive: "pv_slot v = Leased tok (pv_version v) u \<Longrightarrow> t < u
    \<Longrightarrow> protocol (Settle tok (pv_version v) t ScanInconclusive) v (v\<lparr>pv_slot := Idle\<rparr>)"
| give_back: "pv_slot v = Leased tok ver u \<Longrightarrow> protocol (GiveBack tok ver) v (v\<lparr>pv_slot := Idle\<rparr>)"
| lock: "pv_healthy v \<Longrightarrow> (\<And>ow s. pv_lock v = Some (ow, s) \<Longrightarrow> s < t - ttl)
    \<Longrightarrow> protocol (Lock owner ttl t u) v (v\<lparr>pv_lock := Some (owner, u)\<rparr>)"
| extend: "pv_healthy v \<Longrightarrow> lock_live owner (t - ttl) (pv_lock v) \<Longrightarrow> protocol (Extend owner ttl t) v (v\<lparr>pv_lock := Some (owner, t)\<rparr>)"
| unlock: "pv_lock v = Some (owner, s) \<Longrightarrow> protocol (Unlock owner) v (v\<lparr>pv_lock := None\<rparr>)"
| revoke: "lock_live owner (t - ttl) (pv_lock v)
    \<Longrightarrow> protocol (Revoke owner ttl (pv_version v) t) v (v\<lparr>pv_slot := Idle, pv_version := pv_version v + 1, pv_healthy := False\<rparr>)"

inductive protocol_run :: "scan_event list \<Rightarrow> proxy_view \<Rightarrow> proxy_view \<Rightarrow> bool" where
  stop: "protocol_run [] v v"
| step: "protocol ev v v1 \<Longrightarrow> protocol_run evs v1 v' \<Longrightarrow> protocol_run (ev # evs) v v'"

inductive_cases protocol_leaseE: "protocol (Lease tok t u) v v'"
inductive_cases protocol_settleE: "protocol (Settle tok ver t oc) v v'"
inductive_simps protocol_run_Cons: "protocol_run (ev # evs) v v'"
inductive_simps protocol_run_Nil: "protocol_run [] v v'"

section \<open>What the protocol guarantees\<close>

text \<open>A token that is not in the slot settles nothing until it is leased.\<close>

lemma settle_needs_lease:
  assumes "protocol_run evs v v'" and "\<forall>ver u. pv_slot v \<noteq> Leased tok ver u" and "\<forall>t u. Lease tok t u \<notin> set evs"
  shows "Settle tok ver t oc \<notin> set evs"
  using assms
proof (induction rule: protocol_run.induct)
  case (step ev v v1 evs v')
  from step.hyps(1) step.prems have "\<forall>ver u. pv_slot v1 \<noteq> Leased tok ver u" by (cases rule: protocol.cases) auto
  with step have "Settle tok ver t oc \<notin> set evs" by simp
  moreover have "ev \<noteq> Settle tok ver t oc" using step.hyps(1) step.prems(1) by (auto elim: protocol_settleE)
  ultimately show ?case by auto
qed simp

lemma version_monotone: "protocol_run evs v v' \<Longrightarrow> pv_version v \<le> pv_version v'"
  by (induction rule: protocol_run.induct) (auto elim!: protocol.cases)

lemma healthy_by_success:
  assumes "protocol_run evs v v'" and "\<not> pv_healthy v" and "pv_healthy v'"
  shows "\<exists>tok ver t. Settle tok ver t ScanSuccess \<in> set evs"
  using assms
proof (induction rule: protocol_run.induct)
  case (step ev v v1 evs v')
  show ?case
  proof (cases "pv_healthy v1")
    case True
    with step.hyps(1) step.prems(1) have "\<exists>tok ver t. ev = Settle tok ver t ScanSuccess" by (cases rule: protocol.cases) auto
    then show ?thesis by auto
  next
    case False
    with step show ?thesis by auto
  qed
qed simp

section \<open>The table refines the protocol\<close>

definition view :: "ProxyRecord \<Rightarrow> proxy_view" where
  "view r = \<lparr>pv_slot = (case (pr_ScanToken r, pr_ClaimedVersion r, pr_ScanLeaseUntil r) of
                          (Some tok, Some ver, Some u) \<Rightarrow> Leased tok ver u | _ \<Rightarrow> Idle),
     pv_lock = (case (pr_LockedBy r, pr_LockedAt r) of (Some owner, Some t) \<Rightarrow> Some (owner, t) | _ \<Rightarrow> None),
     pv_version = pr_ObservationVersion r, pv_healthy = pr_GeneralHealthy r\<rparr>"

text \<open>The events a write may stand for on row \<open>i\<close>: the tokens, versions and owners are those of the call, the times are
  those of the statement and of the database clock.\<close>

fun events :: "ProxyScanPolicy \<Rightarrow> int \<Rightarrow> store_op \<Rightarrow> scan_event list" where
  "events p i (OpInsert env rec) = []"
| "events p i (OpClaimScans env q n (Inr tok)) = [Lease tok (en_stmt env) (en_clock env i + po_LeaseDuration p)]"
| "events p i (OpClaimScans env q n (Inl e)) = []"
| "events p i (OpCompleteScan env l upd) =
     (if pr_ID (sl_Record l) = i then [Settle (sl_Token l) (sl_Version l) (en_clock env i) (su_Outcome upd)] else [])"
| "events p i (OpReleaseScan env l) = (if pr_ID (sl_Record l) = i then [GiveBack (sl_Token l) (sl_Version l)] else [])"
| "events p i (OpClaimProxy env owner ttl) = [Lock owner ttl (en_stmt env) (en_stmt2 env)]"
| "events p i (OpReleaseProxy env j owner) = (if j = i then [Unlock owner] else [])"
| "events p i (OpRefresh env j owner ttl) = (if j = i then [Extend owner ttl (en_stmt env)] else [])"
| "events p i (OpConsumerFailure env rec owner ttl upd) =
     (if pr_ID rec = i then [Revoke owner ttl (pr_ObservationVersion rec) (en_clock env i), Unlock owner] else [])"
| "events p i (OpCooldown env j owner ttl d) = (if j = i then [Unlock owner] else [])"

text \<open>Whether the reply of a write tells its caller that it changed row \<open>i\<close>. A statement that returns no row counts is
  known to have changed the row when it succeeds and the row carries the owner or the lease it names.\<close>

fun reported :: "ProxyScanPolicy \<Rightarrow> int \<Rightarrow> store_op \<Rightarrow> proxy_db \<Rightarrow> bool" where
  "reported p i (OpInsert env rec) db = False"
| "reported p i (OpClaimScans env q n tok) db =
     (case fst (ClaimScans p env q n tok db) of Inr ls \<Rightarrow> i \<in> set (map (\<lambda>l. pr_ID (sl_Record l)) ls) | Inl _ \<Rightarrow> False)"
| "reported p i (OpCompleteScan env l upd) db = (fst (CompleteScan env l upd db) = Inr True \<and> pr_ID (sl_Record l) = i)"
| "reported p i (OpReleaseScan env l) db = (fst (ReleaseScan env l db) = Inr () \<and> pr_ID (sl_Record l) = i
     \<and> (case row_by_id i db of None \<Rightarrow> False
        | Some r \<Rightarrow> pr_ScanToken r = Some (sl_Token l) \<and> pr_ClaimedVersion r = Some (sl_Version l)))"
| "reported p i (OpClaimProxy env owner ttl) db =
     (case fst (ClaimProxy p env owner ttl db) of Inr (Some r) \<Rightarrow> pr_ID r = i | _ \<Rightarrow> False)"
| "reported p i (OpReleaseProxy env j owner) db = (fst (ReleaseProxy env j owner db) = Inr () \<and> j = i
     \<and> (case row_by_id i db of None \<Rightarrow> False | Some r \<Rightarrow> pr_LockedBy r = Some owner))"
| "reported p i (OpRefresh env j owner ttl) db =
     (case fst (RefreshConsumerLock p env j owner ttl db) of Inr (Some r) \<Rightarrow> j = i | _ \<Rightarrow> False)"
| "reported p i (OpConsumerFailure env rec owner ttl upd) db =
     (fst (RecordConsumerFailure env rec owner ttl upd db) = Inr True \<and> pr_ID rec = i)"
| "reported p i (OpCooldown env j owner ttl d) db = (fst (CooldownDestination env j owner ttl d db) = Inr () \<and> j = i
     \<and> (case row_by_id i db of None \<Rightarrow> False | Some r \<Rightarrow> pr_LockedBy r = Some owner))"

definition explains :: "ProxyScanPolicy \<Rightarrow> int \<Rightarrow> proxy_db \<Rightarrow> store_op \<Rightarrow> scan_event \<Rightarrow> bool" where
  "explains p i db op ev =
     (if reported p i op db then [ev] = take 1 (events p i op) else ev = Silent \<or> ev \<in> set (events p i op))"

subsection \<open>The event of each statement\<close>

lemma lease_event:
  "claimLeaseWhere (en_stmt env) r \<Longrightarrow>
     protocol (Lease tok (en_stmt env) (en_clock env (pr_ID r) + po_LeaseDuration p)) (view r) (view (lease_row p env tok r))"
  using protocol.lease [of "en_stmt env" "view r" tok "en_clock env (pr_ID r) + po_LeaseDuration p"]
  by (auto simp: view_def lease_row_def free_at_def claimLeaseWhere_def null_or_due_def split: option.splits)

lemma completed_view:
  "view (completed_row c now u r) = (case su_Outcome u of
     ScanSuccess \<Rightarrow> (view r)\<lparr>pv_slot := Idle, pv_version := pv_version (view r) + 1, pv_healthy := True\<rparr>
   | ScanFailure \<Rightarrow> (view r)\<lparr>pv_slot := Idle, pv_version := pv_version (view r) + 1, pv_healthy := False\<rparr>
   | ScanInconclusive \<Rightarrow> (view r)\<lparr>pv_slot := Idle\<rparr>)"
  by (cases "su_Outcome u"; cases "pr_LockedBy r"; cases "failureStatus c now u") (simp_all add: view_def row_defs)

lemma settle_event:
  assumes "fencedWhere l now r"
  shows "protocol (Settle (sl_Token l) (sl_Version l) now (su_Outcome upd)) (view r) (view (completed_row c now upd r))"
proof -
  obtain u where u: "pr_ScanLeaseUntil r = Some u" "now < u" using assms by (auto simp: fencedWhere_def after_def split: option.splits)
  have e: "pv_slot (view r) = Leased (sl_Token l) (pv_version (view r)) u" "now < u" "sl_Version l = pv_version (view r)"
    using assms u by (simp_all add: view_def fencedWhere_def)
  show ?thesis unfolding e(3)
    using protocol.success [OF e(1,2)] protocol.failure [OF e(1,2)] protocol.inconclusive [OF e(1,2)] completed_view [of c now upd r]
    by (cases "su_Outcome upd") simp_all
qed

lemma give_back_event:
  assumes "row_ok r" and "pr_ScanToken r = Some tok" and "pr_ClaimedVersion r = Some ver"
  shows "protocol (GiveBack tok ver) (view r) (view ((drop_lease r)\<lparr>pr_UpdatedAt := t\<rparr>))"
proof -
  obtain u where "pv_slot (view r) = Leased tok ver u" using assms by (auto simp: view_def row_ok_def)
  from protocol.give_back [OF this] show ?thesis by (simp add: view_def drop_lease_def)
qed

lemma lock_event: "claimable p t ttl r \<Longrightarrow> protocol (Lock owner ttl t u) (view r) (view (lock_row owner u r))"
  using protocol.lock [of "view r" t ttl owner u]
  by (auto simp: view_def lock_row_def claimable_def freshPredicate_def split: option.splits)

lemma extend_event:
  "refreshable p t i owner ttl r
    \<Longrightarrow> protocol (Extend owner ttl t) (view r) (view (r\<lparr>pr_LockedAt := Some t, pr_UpdatedAt := t\<rparr>))"
  using protocol.extend [of "view r" owner t ttl]
  by (auto simp: view_def refreshable_def freshPredicate_def lock_live_def after_def split: option.splits)

lemma unlock_event:
  assumes "row_ok r" and "pr_LockedBy r = Some owner" and "view r' = (view r)\<lparr>pv_lock := None\<rparr>"
  shows "protocol (Unlock owner) (view r) (view r')"
proof -
  obtain t where "pv_lock (view r) = Some (owner, t)" using assms by (auto simp: view_def row_ok_def)
  from protocol.unlock [OF this] show ?thesis using assms(3) by simp
qed

lemma unlocked_view:
  "view (r\<lparr>pr_LockedBy := None, pr_LockedAt := None, pr_UpdatedAt := t\<rparr>) = (view r)\<lparr>pv_lock := None\<rparr>"
  "view (r\<lparr>pr_DestinationCooldownUntil := c, pr_LockedBy := None, pr_LockedAt := None, pr_UpdatedAt := t\<rparr>) = (view r)\<lparr>pv_lock := None\<rparr>"
  by (simp_all add: view_def)

lemma revoke_event:
  "pr_LockedBy r = Some owner \<Longrightarrow> after (pr_LockedAt r) (t - ttl) \<Longrightarrow> pr_ObservationVersion r = ver
    \<Longrightarrow> protocol (Revoke owner ttl ver t) (view r) (view (failure_row t u status n r))"
  using protocol.revoke [of owner t ttl "view r"]
  by (auto simp: view_def row_defs lock_live_def after_def split: option.splits)

lemma row_step_protocol:
  assumes "row_step p op r r'" and "row_ok r"
  shows "\<exists>ev. (ev = Silent \<or> ev \<in> set (events p (pr_ID r) op)) \<and> protocol ev (view r) (view r')"
  using assms(1)
proof cases
  case same
  then show ?thesis by (auto intro: protocol.silent)
next
  case (lock env ttl owner)
  with lock_event [OF lock(3)] show ?thesis by auto
next
  case (unlock i owner env)
  then show ?thesis
    using unlock_event [OF assms(2), of owner r'] by (intro exI [of _ "Unlock owner"]) (simp add: unlocked_view)
next
  case (lease env q tok n)
  with lease_event [OF lease(3)] show ?thesis by auto
next
  case (complete l env u)
  with settle_event [OF complete(3)] show ?thesis by (auto simp: fencedWhere_def)
next
  case (release l env)
  with give_back_event [OF assms(2) release(4,5)] show ?thesis by auto
next
  case (refresh env i owner ttl)
  with extend_event [OF refresh(3)] show ?thesis by (auto simp: refreshable_def)
next
  case (failed rec owner now env ttl u status n)
  with revoke_event [OF failed(4,7,5)] show ?thesis by (metis events.simps(9) list.set_intros(1))
next
  case (stale rec owner env ttl u now)
  then show ?thesis
    using unlock_event [OF assms(2), of owner r'] by (intro exI [of _ "Unlock owner"]) (simp add: unlocked_view)
next
  case (cooldown i owner c env d ttl)
  with unlock_event [OF assms(2) cooldown(4) unlocked_view(2)] show ?thesis by auto
qed

subsection \<open>A reported write took place\<close>

lemma updated_row:
  assumes "row_by_id i db = Some r" and "P r" and "\<And>r. pr_ID (f r) = pr_ID r"
  shows "row_by_id i (update_where P f db) = Some (f r)"
  using assms by (simp add: row_by_id_update_where)

lemma statement_done:
  "fst (ReleaseScan env l db) = Inr () \<Longrightarrow> snd (ReleaseScan env l db) =
     update_where (\<lambda>r. pr_ID r = pr_ID (sl_Record l) \<and> pr_ScanToken r = Some (sl_Token l) \<and> pr_ClaimedVersion r = Some (sl_Version l))
       (\<lambda>r. (drop_lease r)\<lparr>pr_UpdatedAt := en_stmt env\<rparr>) db"
  "fst (ReleaseProxy env i owner db) = Inr () \<Longrightarrow> snd (ReleaseProxy env i owner db) =
     update_where (\<lambda>r. pr_ID r = i \<and> pr_LockedBy r = Some owner)
       (\<lambda>r. r\<lparr>pr_LockedBy := None, pr_LockedAt := None, pr_UpdatedAt := en_now env\<rparr>) db"
  "fst (CooldownDestination env i owner ttl d db) = Inr () \<Longrightarrow> snd (CooldownDestination env i owner ttl d db) =
     update_where (\<lambda>r. pr_ID r = i \<and> pr_LockedBy r = Some owner)
       (\<lambda>r. r\<lparr>pr_DestinationCooldownUntil :=
                Some (case pr_DestinationCooldownUntil r of None \<Rightarrow> en_stmt env + d | Some t \<Rightarrow> max t (en_stmt env + d)),
              pr_LockedBy := None, pr_LockedAt := None, pr_UpdatedAt := en_stmt env\<rparr>) db"
  "RefreshConsumerLock p env i owner ttl db = (Inr x, db') \<Longrightarrow> db' = update_where (refreshable p (en_stmt env) i owner ttl)
     (\<lambda>r. r\<lparr>pr_LockedAt := Some (en_stmt env), pr_UpdatedAt := en_stmt env\<rparr>) db"
  by (auto simp: ReleaseScan_def ReleaseProxy_def CooldownDestination_def RefreshConsumerLock_def reply_def Let_def split: option.splits)

text \<open>What a reported write gives on the row: the facts its cases share.\<close>

lemma reported_row:
  assumes "proxy_inv db" and "row_by_id i db = Some r"
  shows "distinct (map pr_ID (px_rows db))" and "row_ok r" and "pr_ID r = i"
    and "\<And>x. x \<in> set (px_rows db) \<Longrightarrow> pr_ID x = i \<Longrightarrow> x = r"
proof -
  show d: "distinct (map pr_ID (px_rows db))" and "row_ok r" and "pr_ID r = i"
    using assms row_by_id_Some [OF assms(2)] by (auto simp: proxy_inv_def list_all_iff)
  show "x = r" if "x \<in> set (px_rows db)" "pr_ID x = i" for x
    using row_by_id_unique [OF d that(1)] that(2) assms(2) by simp
qed

definition takes_place :: "ProxyScanPolicy \<Rightarrow> int \<Rightarrow> proxy_db \<Rightarrow> store_op \<Rightarrow> ProxyRecord \<Rightarrow> bool" where
  "takes_place p i db op r \<longleftrightarrow>
     (\<exists>r' ev. row_by_id i (apply_op p op db) = Some r' \<and> [ev] = take 1 (events p i op) \<and> protocol ev (view r) (view r'))"

lemma reports_ClaimScans:
  assumes inv: "proxy_inv db" and row: "row_by_id i db = Some r" and rep: "reported p i (OpClaimScans env q n tok) db"
  shows "takes_place p i db (OpClaimScans env q n tok) r"
proof -
  let ?op = "OpClaimScans env q n tok"
  note d = reported_row(1) [OF inv row] and ok = reported_row(2) [OF inv row] and id = reported_row(3) [OF inv row]
    and this_row = reported_row(4) [OF inv row]
  obtain ls db1 where c: "ClaimScans p env q n tok db = (Inr ls, db1)" "i \<in> set (map (\<lambda>l. pr_ID (sl_Record l)) ls)"
    using rep by (cases "ClaimScans p env q n tok db") (auto split: sum.splits)
  obtain t where t: "tok = Inr t" using c(1) by (cases tok) (auto simp: ClaimScans_def split: if_splits)
  from ClaimScans_result [OF d c(1) [unfolded t]] c(2)
  have "i \<in> set (map pr_ID (chosen p env q n db))"
    and db1: "db1 = update_where (\<lambda>r. pr_ID r \<in> set (map pr_ID (chosen p env q n db))) (lease_row p env t) db"
    by (auto simp: lease_of_def lease_row_def)
  then have r: "r \<in> set (chosen p env q n db)" using this_row chosen_eligible by (force simp: id)
  have "row_by_id i db1 = Some (lease_row p env t r)"
    unfolding db1 by (rule updated_row [OF row]) (use r in \<open>auto simp: lease_row_def\<close>)
  with lease_event [of env r t p] chosen_eligible [OF r] show ?thesis by (simp add: takes_place_def c(1) [unfolded t] t id)
qed

lemma reports_CompleteScan:
  assumes inv: "proxy_inv db" and row: "row_by_id i db = Some r" and rep: "reported p i (OpCompleteScan env l u) db"
  shows "takes_place p i db (OpCompleteScan env l u) r"
proof -
  let ?op = "OpCompleteScan env l u"
  note d = reported_row(1) [OF inv row] and ok = reported_row(2) [OF inv row] and id = reported_row(3) [OF inv row]
    and this_row = reported_row(4) [OF inv row]
  have i: "pr_ID (sl_Record l) = i" and "CompleteScan env l u db = (Inr True, apply_op p ?op db)"
    using rep by (auto simp: prod_eq_iff)
  from CompleteScan_accepted [OF this(2)] fenced_row [OF d] row i obtain cur where
    f: "fencedWhere l (en_clock env i) r"
    "apply_op p ?op db = update_where (fencedWhere l (en_clock env i)) (completed_row cur (en_clock env i) u) db" by auto
  have "row_by_id i (apply_op p ?op db) = Some (completed_row cur (en_clock env i) u r)"
    unfolding f(2) by (rule updated_row [where f = "completed_row cur (en_clock env i) u", OF row]) (use f(1) in simp_all)
  with settle_event [OF f(1)] show ?thesis by (simp add: takes_place_def i)
qed

lemma reports_ClaimProxy:
  assumes inv: "proxy_inv db" and row: "row_by_id i db = Some r" and rep: "reported p i (OpClaimProxy env owner ttl) db"
  shows "takes_place p i db (OpClaimProxy env owner ttl) r"
proof -
  let ?op = "OpClaimProxy env owner ttl"
  note d = reported_row(1) [OF inv row] and ok = reported_row(2) [OF inv row] and id = reported_row(3) [OF inv row]
    and this_row = reported_row(4) [OF inv row]
  obtain r1 db1 where c: "ClaimProxy p env owner ttl db = (Inr (Some r1), db1)" "pr_ID r1 = i"
    using rep by (cases "ClaimProxy p env owner ttl db") (auto split: sum.splits option.splits)
  from ClaimProxy_result [OF c(1)] c(2) this_row id have
    r: "claimable p (en_stmt env) ttl r" "db1 = update_where (\<lambda>x. pr_ID x = i) (lock_row owner (en_stmt2 env)) db" by auto
  have "row_by_id i db1 = Some (lock_row owner (en_stmt2 env) r)"
    unfolding r(2) by (rule updated_row [OF row]) (simp_all add: id)
  with lock_event [OF r(1)] show ?thesis by (simp add: takes_place_def c(1))
qed

lemma reports_ConsumerFailure:
  assumes inv: "proxy_inv db" and row: "row_by_id i db = Some r" and rep: "reported p i (OpConsumerFailure env rec owner ttl u) db"
  shows "takes_place p i db (OpConsumerFailure env rec owner ttl u) r"
proof -
  let ?op = "OpConsumerFailure env rec owner ttl u"
  note d = reported_row(1) [OF inv row] and ok = reported_row(2) [OF inv row] and id = reported_row(3) [OF inv row]
    and this_row = reported_row(4) [OF inv row]
  have i: "pr_ID rec = i" and "RecordConsumerFailure env rec owner ttl u db = (Inr True, apply_op p ?op db)"
    using rep by (auto simp: prod_eq_iff)
  from RecordConsumerFailure_accepted [OF this(2)] row i have
    g: "pr_LockedBy r = Some owner" "after (pr_LockedAt r) (en_clock env i - ttl)" "pr_ObservationVersion r = pr_ObservationVersion rec"
    and db1: "apply_op p ?op db = update_where (\<lambda>r. pr_ID r = i) (failure_row (en_clock env i) u
        (fst (failureStatus r (en_clock env i) u)) (snd (failureStatus r (en_clock env i) u))) db" by auto
  have "\<exists>s n. row_by_id i (apply_op p ?op db) = Some (failure_row (en_clock env i) u s n r)"
    unfolding db1 using updated_row [OF row, of "\<lambda>r. pr_ID r = i"] failure_row_simps(1) id by blast
  with revoke_event [OF g] show ?thesis by (auto simp: takes_place_def i)
qed

lemma reports_ReleaseScan:
  assumes inv: "proxy_inv db" and row: "row_by_id i db = Some r" and rep: "reported p i (OpReleaseScan env l) db"
  shows "takes_place p i db (OpReleaseScan env l) r"
proof -
  let ?op = "OpReleaseScan env l"
  note d = reported_row(1) [OF inv row] and ok = reported_row(2) [OF inv row] and id = reported_row(3) [OF inv row]
    and this_row = reported_row(4) [OF inv row]
  have i: "pr_ID (sl_Record l) = i" and g: "pr_ScanToken r = Some (sl_Token l)" "pr_ClaimedVersion r = Some (sl_Version l)"
    and f: "fst (ReleaseScan env l db) = Inr ()" using rep row by auto
  have "row_by_id i (snd (ReleaseScan env l db)) = Some ((drop_lease r)\<lparr>pr_UpdatedAt := en_stmt env\<rparr>)"
    unfolding statement_done(1) [OF f] by (rule updated_row [OF row]) (simp_all add: i g id drop_lease_def)
  with give_back_event [OF ok g] show ?thesis by (simp add: takes_place_def i)
qed

lemma reports_Refresh:
  assumes inv: "proxy_inv db" and row: "row_by_id i db = Some r" and rep: "reported p i (OpRefresh env j owner ttl) db"
  shows "takes_place p i db (OpRefresh env j owner ttl) r"
proof -
  let ?op = "OpRefresh env j owner ttl"
  note d = reported_row(1) [OF inv row] and ok = reported_row(2) [OF inv row] and id = reported_row(3) [OF inv row]
    and this_row = reported_row(4) [OF inv row]
  obtain r1 where i: "j = i" and q: "RefreshConsumerLock p env j owner ttl db = (Inr (Some r1), apply_op p ?op db)"
    using rep by (auto simp: prod_eq_iff split: sum.splits option.splits)
  then obtain x where "find (refreshable p (en_stmt env) i owner ttl) (px_rows db) = Some x"
    by (auto simp: RefreshConsumerLock_def reply_def Let_def split: option.splits)
  then have "x \<in> set (px_rows db)" "refreshable p (en_stmt env) i owner ttl x" by (auto simp: find_Some_iff)
  then have g: "refreshable p (en_stmt env) i owner ttl r" using this_row [of x] by (auto simp: refreshable_def)
  have "row_by_id i (apply_op p ?op db) = Some (r\<lparr>pr_LockedAt := Some (en_stmt env), pr_UpdatedAt := en_stmt env\<rparr>)"
    using updated_row [where P = "refreshable p (en_stmt env) i owner ttl", OF row g] statement_done(4) [OF q] i by simp
  with extend_event [OF g] show ?thesis by (simp add: takes_place_def i)
qed

lemma reports_ReleaseProxy:
  assumes inv: "proxy_inv db" and row: "row_by_id i db = Some r" and rep: "reported p i (OpReleaseProxy env j owner) db"
  shows "takes_place p i db (OpReleaseProxy env j owner) r"
proof -
  let ?op = "OpReleaseProxy env j owner"
  note d = reported_row(1) [OF inv row] and ok = reported_row(2) [OF inv row] and id = reported_row(3) [OF inv row]
    and this_row = reported_row(4) [OF inv row]
  have i: "j = i" and g: "pr_LockedBy r = Some owner" and f: "fst (ReleaseProxy env j owner db) = Inr ()"
    using rep row by auto
  have "row_by_id i (snd (ReleaseProxy env j owner db))
      = Some (r\<lparr>pr_LockedBy := None, pr_LockedAt := None, pr_UpdatedAt := en_now env\<rparr>)"
    unfolding statement_done(2) [OF f] by (rule updated_row [OF row]) (simp_all add: i g id)
  with unlock_event [OF ok g unlocked_view(1)] show ?thesis by (simp add: takes_place_def i)
qed

lemma reports_Cooldown:
  assumes inv: "proxy_inv db" and row: "row_by_id i db = Some r" and rep: "reported p i (OpCooldown env j owner ttl dl) db"
  shows "takes_place p i db (OpCooldown env j owner ttl dl) r"
proof -
  let ?op = "OpCooldown env j owner ttl dl"
  note d = reported_row(1) [OF inv row] and ok = reported_row(2) [OF inv row] and id = reported_row(3) [OF inv row]
    and this_row = reported_row(4) [OF inv row]
  have i: "j = i" and g: "pr_LockedBy r = Some owner" and f: "fst (CooldownDestination env j owner ttl dl db) = Inr ()"
    using rep row by auto
  have "\<exists>c. row_by_id i (snd (CooldownDestination env j owner ttl dl db)) = Some (r\<lparr>pr_DestinationCooldownUntil := c,
      pr_LockedBy := None, pr_LockedAt := None, pr_UpdatedAt := en_stmt env\<rparr>)"
    unfolding statement_done(3) [OF f] by (rule exI, rule updated_row [OF row]) (simp_all add: i g id)
  with unlock_event [OF ok g unlocked_view(2)] show ?thesis by (auto simp: takes_place_def i)
qed

lemma reported_protocol:
  assumes "proxy_inv db" and "row_by_id i db = Some r" and "reported p i op db"
  shows "takes_place p i db op r"
  using assms by (cases op) (simp_all add: reports_ClaimScans reports_CompleteScan reports_ClaimProxy reports_ConsumerFailure
      reports_ReleaseScan reports_Refresh reports_ReleaseProxy reports_Cooldown)

lemma apply_op_protocol:
  assumes "proxy_inv db" and "row_by_id i db = Some r"
  shows "\<exists>r' ev. row_by_id i (apply_op p op db) = Some r' \<and> explains p i db op ev \<and> protocol ev (view r) (view r')"
proof (cases "reported p i op db")
  case True
  with reported_protocol [OF assms True] show ?thesis by (auto simp: explains_def takes_place_def)
next
  case False
  have "row_ok r" "pr_ID r = i" using assms row_by_id_Some [OF assms(2)] by (auto simp: proxy_inv_def list_all_iff)
  with apply_op_row [OF assms, of p op] row_step_protocol [of p op r] False show ?thesis by (fastforce simp: explains_def)
qed

text \<open>C2: The proxies table implements the lease and lock protocol. For every sequence of repository writes by any number of replicas,
  under any faults, clocks and lock conflicts, and for every proxy, there is a run of the abstract protocol with one event
  per write that leads from the abstract state of the row to that of its successor. The event of a write carries its arguments
  and its clocks: a scan is settled only with the token and the version of the lease at a database time before the lease's expiry,
  and a lease expires exactly the lease duration after the clock of its claim. A write whose reply reports success on the row is
  its event; any other write is that event or none.\<close>

theorem scan_store_refines_protocol:
  assumes "proxy_inv db" and "row_by_id i db = Some r"
  shows "\<exists>evs r'. row_by_id i (apply_ops p ops db) = Some r' \<and> protocol_run evs (view r) (view r') \<and> length evs = length ops
    \<and> (\<forall>k < length ops. explains p i (apply_ops p (take k ops) db) (ops ! k) (evs ! k))"
  using assms
proof (induction ops arbitrary: db r)
  case Nil
  then show ?case by (auto intro: protocol_run.stop)
next
  case (Cons op ops)
  obtain r1 ev where r1: "row_by_id i (apply_op p op db) = Some r1" "explains p i db op ev" "protocol ev (view r) (view r1)"
    using apply_op_protocol [OF Cons.prems] by blast
  from Cons.IH [OF apply_op_inv [OF Cons.prems(1)] r1(1)] obtain evs r' where
    "row_by_id i (apply_ops p ops (apply_op p op db)) = Some r'" "protocol_run evs (view r1) (view r')" "length evs = length ops"
    "\<forall>k < length ops. explains p i (apply_ops p (take k ops) (apply_op p op db)) (ops ! k) (evs ! k)" by blast
  with r1(2,3) show ?case
    by (auto intro!: exI [of _ "ev # evs"] intro: protocol_run.step simp: less_Suc_eq_0_disj)
qed

theorem scan_store_refines_protocol_witness:
  "\<exists>r'. row_by_id 7 (apply_ops demo_policy [OpClaimScans (demo_env 100) ScanVerification 1 (Inr ''t''),
          OpCompleteScan (demo_env 110) demo_lease (demo_update ScanSuccess)] demo_db) = Some r'
     \<and> protocol_run [Lease ''t'' 100 130, Settle ''t'' 0 110 ScanSuccess] (view demo_rec) (view r')"
proof -
  let ?ops = "[OpClaimScans (demo_env 100) ScanVerification 1 (Inr ''t''),
    OpCompleteScan (demo_env 110) demo_lease (demo_update ScanSuccess)]"
  have "row_by_id 7 demo_db = Some demo_rec" by (simp add: row_by_id_def demo_db_def)
  from scan_store_refines_protocol [OF demo_inv this, of demo_policy ?ops] obtain evs r' where
    run: "row_by_id 7 (apply_ops demo_policy ?ops demo_db) = Some r'" "protocol_run evs (view demo_rec) (view r')" "length evs = 2"
    and ex: "\<forall>k < 2. explains demo_policy 7 (apply_ops demo_policy (take k ?ops) demo_db) (?ops ! k) (evs ! k)"
    by (auto simp: numeral_2_eq_2)
  have "sl_Version demo_lease = 0" by (simp add: demo_defs lease_of_def lease_row_def new_row_def)
  then have "evs ! 0 = Lease ''t'' 100 130" "evs ! 1 = Settle ''t'' 0 110 ScanSuccess"
    using ex [rule_format, of 0] ex [rule_format, of 1]
    by (simp_all add: explains_def demo_claim demo_complete) (simp_all add: demo_update_def)
  then have "evs = [Lease ''t'' 100 130, Settle ''t'' 0 110 ScanSuccess]"
    using run(3) by (auto simp: numeral_2_eq_2 length_Suc_conv)
  with run show ?thesis by blast
qed

end
