(* ===== verification/Lodestone_Html.thy ===== *)
theory Lodestone_Html
  imports Proxy_Store
begin

text \<open>
  infrastructure/lodestone/client.go, the parsing half: text and attribute extraction by string search, the profile page,
  the class list, and the achievement pages through a parsed tree. The tree itself comes from golang.org/x/net/html, which is an
  argument here. Results: entity decoding is single-pass exactly when the map iteration leaves the ampersand for the end, tree search is
  search in document order, and the class list of a page in the documented format is read back.
\<close>

section \<open>Byte strings\<close>

definition is_ws :: "char \<Rightarrow> bool" where
  "is_ws c \<longleftrightarrow> c \<in> {CHR 0x09, CHR 0x0A, CHR 0x0C, CHR 0x0D, CHR 0x20}"

text \<open>\<open>strings.ReplaceAll\<close> for a non-empty pattern.\<close>

function replace_all :: "string \<Rightarrow> string \<Rightarrow> string \<Rightarrow> string" where
  "replace_all old new [] = []"
| "replace_all old new (c # cs) =
     (if old \<noteq> [] \<and> is_prefix old (c # cs) then new @ replace_all old new (drop (length old - 1) cs)
      else c # replace_all old new cs)"
  by pat_completeness auto
termination by (relation "measure (\<lambda>(old, new, s). length s)") auto

text \<open>The expressions \<open><[^>]*>\<close> and \<open>\s+\<close>, each match replaced by a space.\<close>

function replace_tags :: "string \<Rightarrow> string" where
  "replace_tags [] = []"
| "replace_tags (c # cs) =
     (if c = CHR ''<'' \<and> CHR ''>'' \<in> set cs then CHR '' '' # replace_tags (tl (dropWhile (\<lambda>x. x \<noteq> CHR ''>'') cs))
      else c # replace_tags cs)"
  by pat_completeness auto
termination
proof (relation "measure length", goal_cases)
  case (2 c cs)
  have "length (dropWhile (\<lambda>x. x \<noteq> CHR ''>'') cs) \<le> length cs" by (rule length_dropWhile_le)
  then show ?case by simp
qed auto

function replace_spaces :: "string \<Rightarrow> string" where
  "replace_spaces [] = []"
| "replace_spaces (c # cs) = (if is_ws c then CHR '' '' # replace_spaces (dropWhile is_ws cs) else c # replace_spaces cs)"
  by pat_completeness auto
termination
proof (relation "measure length", goal_cases)
  case (2 c cs)
  have "length (dropWhile is_ws cs) \<le> length cs" by (rule length_dropWhile_le)
  then show ?case by simp
qed auto

definition entityMap :: "(string \<times> char) list" where
  "entityMap = [(''&#39;'', CHR 0x27), (''&amp;'', CHR ''&''), (''&lt;'', CHR ''<''), (''&gt;'', CHR ''>''),
     (''&quot;'', CHR 0x22), (''&#34;'', CHR 0x22), (''&nbsp;'', CHR '' '')]"

definition replace_entities :: "(string \<times> char) list \<Rightarrow> string \<Rightarrow> string" where
  "replace_entities order s = fold (\<lambda>(entity, replacement). replace_all entity [replacement]) order s"

text \<open>The entity map is iterated in an order that Go chooses anew for every call: \<open>ord\<close> gives it for each text.\<close>

type_synonym entity_order = "string \<Rightarrow> (string \<times> char) list"

definition stripTags :: "entity_order \<Rightarrow> string \<Rightarrow> string" where
  "stripTags ord s = trim_space (replace_spaces (replace_entities (ord s) (replace_tags s)))"

text \<open>
  A search for a literal, a non-empty run of bytes of a class and a literal that starts outside of the class: the leftmost match of
  \<open>pre([class]+)post\<close>, the run being its group.
\<close>

fun find_run :: "string \<Rightarrow> (char \<Rightarrow> bool) \<Rightarrow> string \<Rightarrow> string \<Rightarrow> string option" where
  "find_run pre P post s =
     (if is_prefix pre s \<and> takeWhile P (drop (length pre) s) \<noteq> [] \<and> is_prefix post (dropWhile P (drop (length pre) s))
      then Some (takeWhile P (drop (length pre) s))
      else case s of [] \<Rightarrow> None | c # cs \<Rightarrow> find_run pre P post cs)"

declare find_run.simps [simp del]

definition timestampEpochRe :: "string \<Rightarrow> string option" where
  "timestampEpochRe = find_run ''ldst_strftime('' is_digit '',''"

definition achievementDetailIDRe :: "string \<Rightarrow> string option" where
  "achievementDetailIDRe = find_run ''/achievement/detail/'' is_digit ''/''"

definition nameRe :: "string \<Rightarrow> string option" where
  "nameRe = find_run (''entry__activity__txt'' @ [CHR 0x22] @ ''>'') (\<lambda>c. c \<noteq> CHR ''<'') ''</p>''"

definition fcIDRe :: "string \<Rightarrow> string option" where
  "fcIDRe = find_run ''/lodestone/freecompany/'' is_digit ''/''"

definition worldDCRe :: "string \<Rightarrow> (string \<times> string) option" where
  "worldDCRe s =
     (let world = takeWhile (\<lambda>c. \<not> is_ws c) s; r1 = dropWhile (\<lambda>c. \<not> is_ws c) s; r2 = dropWhile is_ws r1;
          dc = takeWhile (\<lambda>c. c \<noteq> CHR '']'') (tl r2)
      in if world \<noteq> [] \<and> r1 \<noteq> [] \<and> is_prefix ''['' r2 \<and> dc \<noteq> [] \<and> tl r2 = dc @ '']'' then Some (world, dc) else None)"

text \<open>The expression for the quoted name in the activity text, which ignores case.\<close>

definition activity_name_at :: "string \<Rightarrow> string option" where
  "activity_name_at s =
     (let lit = ''character achievement''; r1 = drop (length lit) s; r2 = dropWhile is_ws r1;
          name = takeWhile (\<lambda>c. c \<noteq> CHR 0x22) (tl r2); r3 = tl (dropWhile (\<lambda>c. c \<noteq> CHR 0x22) (tl r2)); r4 = dropWhile is_ws r3
      in if is_prefix lit (map ascii_lower s) \<and> r1 \<noteq> r2 \<and> is_prefix [CHR 0x22] r2 \<and> name \<noteq> []
            \<and> CHR 0x22 \<in> set (tl r2) \<and> r3 \<noteq> r4 \<and> is_prefix ''earned'' (map ascii_lower r4)
         then Some name else None)"

fun achievementActivityNameRe :: "string \<Rightarrow> string option" where
  "achievementActivityNameRe [] = None"
| "achievementActivityNameRe (c # cs) =
     (case activity_name_at (c # cs) of Some n \<Rightarrow> Some n | None \<Rightarrow> achievementActivityNameRe cs)"

section \<open>Extraction by search\<close>

text \<open>The content between a marker's tag and an end tag, and the rest of the page behind the end tag.\<close>

definition between :: "string \<Rightarrow> string \<Rightarrow> string \<Rightarrow> (string \<times> string) option" where
  "between html startMarker endTag =
     (case str_index html startMarker of
        None \<Rightarrow> None
      | Some startIdx \<Rightarrow>
          (case str_index (drop startIdx html) ''>'' of
             None \<Rightarrow> None
           | Some tagEnd \<Rightarrow>
               (let content = drop (startIdx + tagEnd + 1) html
                in case str_index content endTag of
                     None \<Rightarrow> None
                   | Some endIdx \<Rightarrow> Some (take endIdx content, drop (endIdx + length endTag) content))))"

definition extractTextBetween :: "entity_order \<Rightarrow> string \<Rightarrow> string \<Rightarrow> string \<Rightarrow> string" where
  "extractTextBetween ord html startMarker endTag =
     (case between html startMarker endTag of None \<Rightarrow> [] | Some (t, _) \<Rightarrow> stripTags ord t)"

lemma between_shorter: "between html m e = Some (t, rest) \<Longrightarrow> length rest < length html"
  by (auto simp: between_def Let_def split: option.splits dest!: str_index_bound)

function extractAllTextBetween :: "entity_order \<Rightarrow> string \<Rightarrow> string \<Rightarrow> string \<Rightarrow> string list" where
  "extractAllTextBetween ord html startMarker endTag =
     (case between html startMarker endTag of
        None \<Rightarrow> []
      | Some (t, rest) \<Rightarrow> stripTags ord t # extractAllTextBetween ord rest startMarker endTag)"
  by pat_completeness auto
termination by (relation "measure (\<lambda>(ord, html, m, e). length html)") (auto dest: between_shorter)

declare extractAllTextBetween.simps [simp del]

definition quote :: string where "quote = [CHR 0x22]"

definition extractAttribute :: "string \<Rightarrow> string \<Rightarrow> string" where
  "extractAttribute tagHTML attr =
     (let attrPattern = attr @ ''='' @ quote
      in case str_index tagHTML attrPattern of
           None \<Rightarrow> []
         | Some idx \<Rightarrow>
             (let r = drop (idx + length attrPattern) tagHTML
              in case str_index r quote of None \<Rightarrow> [] | Some n \<Rightarrow> take n r))"

definition extractAttr :: "string \<Rightarrow> string \<Rightarrow> string \<Rightarrow> string \<Rightarrow> string" where
  "extractAttr html containerMarker tagName attr =
     (case str_index html containerMarker of
        None \<Rightarrow> []
      | Some startIdx \<Rightarrow>
          (case str_index (drop startIdx html) (''<'' @ tagName) of
             None \<Rightarrow> []
           | Some tagStart \<Rightarrow>
               (let r = drop (startIdx + tagStart) html
                in case str_index r ''>'' of None \<Rightarrow> [] | Some tagEnd \<Rightarrow> extractAttribute (take (tagEnd + 1) r) attr)))"

definition extractAlt :: "string \<Rightarrow> string \<Rightarrow> string" where
  "extractAlt html containerMarker = extractAttr html containerMarker ''img'' ''alt''"

definition extractHref :: "string \<Rightarrow> string \<Rightarrow> string" where
  "extractHref html containerMarker = extractAttr html containerMarker ''a'' ''href''"

section \<open>The class list\<close>

definition lodestoneJobIDs :: "(string \<times> u8) list" where
  "lodestoneJobIDs =
     [(''Paladin'', 19), (''Warrior'', 21), (''Dark Knight'', 32), (''Gunbreaker'', 37),
      (''White Mage'', 24), (''Scholar'', 28), (''Astrologian'', 33), (''Sage'', 40),
      (''Monk'', 20), (''Dragoon'', 22), (''Ninja'', 30), (''Samurai'', 34), (''Reaper'', 39), (''Viper'', 41),
      (''Bard'', 23), (''Machinist'', 31), (''Dancer'', 38),
      (''Black Mage'', 25), (''Summoner'', 27), (''Red Mage'', 35), (''Pictomancer'', 42), (''Blue Mage'', 36),
      (''Carpenter'', 8), (''Blacksmith'', 9), (''Armorer'', 10), (''Goldsmith'', 11), (''Leatherworker'', 12),
      (''Weaver'', 13), (''Alchemist'', 14), (''Culinarian'', 15),
      (''Miner'', 16), (''Botanist'', 17), (''Fisher'', 18),
      (''Gladiator'', 1), (''Pugilist'', 2), (''Marauder'', 3), (''Lancer'', 4), (''Archer'', 5), (''Conjurer'', 6),
      (''Thaumaturge'', 7), (''Arcanist'', 26), (''Rogue'', 29)]"

text \<open>\<open>strconv.ParseUint(s, 10, 8)\<close> with the error dropped: 0 for a syntax error, 255 for a larger number.\<close>

definition parse_level :: "string \<Rightarrow> u8" where
  "parse_level s =
     (if s = [] then 0 else case digits_val 0 s of None \<Rightarrow> 0 | Some n \<Rightarrow> if n > 255 then 255 else of_nat n)"

text \<open>One list entry, from its \<open><li>\<close> up to its end tag; \<open>None\<close> when the entry is skipped.\<close>

definition job_entry :: "u32 \<Rightarrow> string \<Rightarrow> ClassJobRecord option" where
  "job_entry charID entryHTML =
     (let tooltip = extractAttribute entryHTML ''data-tooltip''
      in if tooltip = [] then None
         else (let unlimited = trim_suffix tooltip '' (Limited Job)'';
                   first = (case str_index unlimited '' / '' of None \<Rightarrow> unlimited | Some idx \<Rightarrow> take idx unlimited);
                   jobName = trim_space first
               in case last_index entryHTML CHR ''>'' of
                    None \<Rightarrow> None
                  | Some imgEnd \<Rightarrow>
                      if imgEnd + 1 \<ge> length entryHTML then None
                      else (let levelStr = trim_space (drop (imgEnd + 1) entryHTML)
                            in if levelStr = ''-'' \<or> levelStr = [] then None
                               else (let level = parse_level (trim_space (trim_prefix levelStr ''Lv.''))
                                     in case map_of lodestoneJobIDs jobName of
                                          None \<Rightarrow> None
                                        | Some classJobID \<Rightarrow>
                                            Some \<lparr>cj_CharacterID = charID, cj_ClassJobID = classJobID, cj_Name = jobName,
                                                  cj_Level = level, cj_ExpLevel = 0\<rparr>))))"

function job_entries :: "u32 \<Rightarrow> string \<Rightarrow> ClassJobRecord list" where
  "job_entries charID html =
     (case str_index html ''<li>'' of
        None \<Rightarrow> []
      | Some liIdx \<Rightarrow>
          (case str_index (drop liIdx html) ''</li>'' of
             None \<Rightarrow> []
           | Some liEnd \<Rightarrow>
               (case job_entry charID (take liEnd (drop liIdx html)) of None \<Rightarrow> [] | Some j \<Rightarrow> [j])
               @ job_entries charID (drop (liIdx + liEnd + 1) html)))"
  by pat_completeness auto
termination by (relation "measure (\<lambda>(i, html). length html)") (auto dest!: str_index_bound)

declare job_entries.simps [simp del]

definition parseClassJobs :: "string \<Rightarrow> u32 \<Rightarrow> ClassJobRecord list" where
  "parseClassJobs html charID =
     (case str_index html (''class='' @ quote @ ''character__level__list'' @ quote) of
        None \<Rightarrow> []
      | Some listIdx \<Rightarrow> job_entries charID (drop listIdx html))"

section \<open>The profile page\<close>

definition marker :: "string \<Rightarrow> string" where "marker cls = ''class='' @ quote @ cls @ quote"

definition before :: "string \<Rightarrow> string \<Rightarrow> string" where
  "before sep s = (case str_index s sep of None \<Rightarrow> s | Some i \<Rightarrow> take i s)"

definition male :: string where "male = [CHR 0xE2, CHR 0x99, CHR 0x82]"
definition female :: string where "female = [CHR 0xE2, CHR 0x99, CHR 0x80]"

definition world_text :: "entity_order \<Rightarrow> string \<Rightarrow> string" where
  "world_text ord html =
     trim_suffix (trim_prefix (trim_space (extractTextBetween ord html (marker ''frame__chara__world'') ''</p>'')) ''('') '')''"

text \<open>Race, tribe and gender of the first block.\<close>

definition race_block :: "string \<Rightarrow> u8 \<times> string \<times> string" where
  "race_block txt =
     (let c0 = trim_space txt;
          (gender, c1) = (if str_contains c0 male then (1, replace_all male [] c0)
                          else if str_contains c0 female then (2, replace_all female [] c0) else (0, c0));
          c = trim_space (before '' / '' c1)
      in if is_prefix ''Au Ra '' c then (gender, ''Au Ra'', trim_space (drop 6 c))
         else case str_index c '' '' of
                Some idx \<Rightarrow> if idx > 0 then (gender, take idx c, trim_space (drop (idx + 1) c)) else (gender, c, [])
              | None \<Rightarrow> (gender, c, []))"

definition free_company :: "entity_order \<Rightarrow> string \<Rightarrow> string \<times> string" where
  "free_company ord html =
     (let m = marker ''character__freecompany__name'';
          name = (\<lambda>endTag. trim_space (trim_prefix (extractTextBetween ord html m endTag) ''Free Company''));
          fcName = (if name ''</a>'' = [] then name ''</h4>'' else name ''</a>'');
          link0 = extractHref html m;
          link = (if link0 = [] then extractHref html (marker ''character__freecompany__crest'') else link0)
      in (case fcIDRe link of None \<Rightarrow> [] | Some i \<Rightarrow> i, fcName))"

definition parseCharacterProfile :: "entity_order \<Rightarrow> string \<Rightarrow> u32 \<Rightarrow> CharacterProfile result" where
  "parseCharacterProfile ord html i =
     (let name = trim_space (extractTextBetween ord html (marker ''frame__chara__name'') ''</p>'')
      in if name = [] then Inl (EText ''could not parse character name from HTML'')
         else (let worldText = world_text ord html;
                   (world, dc) = (case worldDCRe worldText of Some (w, d) \<Rightarrow> (w, d) | None \<Rightarrow> (worldText, []));
                   raceTribe = extractAllTextBetween ord html (marker ''character-block__name'') ''</p>'';
                   (gender, race, tribe0) = (if length raceTribe \<ge> 1 then race_block (raceTribe ! 0) else (0, [], []));
                   tribe = (if length raceTribe \<ge> 2 \<and> tribe0 = [] then trim_space (raceTribe ! 1) else tribe0);
                   gc = (if length raceTribe \<ge> 4 then trim_space (before '' / '' (trim_space (raceTribe ! 3))) else []);
                   (fcID, fcName) = free_company ord html
               in Inr \<lparr>cp_ID = i, cp_Name = name, cp_World = world, cp_Datacenter = dc, cp_Gender = gender,
                       cp_Bio = trim_space (extractTextBetween ord html (marker ''character__profile__state'') ''</p>''),
                       cp_Race = race, cp_Tribe = tribe, cp_GrandCompany = gc, cp_FreeCompanyID = fcID, cp_FreeCompanyName = fcName,
                       cp_ActiveJob = extractAlt html (marker ''character__class_icon''), cp_ClassJobs = parseClassJobs html i\<rparr>))"

section \<open>The achievement pages\<close>

datatype node_type = ElementNode | TextNode | OtherNode

datatype html_node = HtmlNode (nd_Type: node_type) (nd_Data: string) (nd_Attr: "(string \<times> string) list") (nd_Children: "html_node list")

fun findHTMLNode :: "(html_node \<Rightarrow> bool) \<Rightarrow> html_node \<Rightarrow> html_node option"
  and find_child :: "(html_node \<Rightarrow> bool) \<Rightarrow> html_node list \<Rightarrow> html_node option" where
  "findHTMLNode m (HtmlNode t d as cs) = (if m (HtmlNode t d as cs) then Some (HtmlNode t d as cs) else find_child m cs)"
| "find_child m [] = None"
| "find_child m (c # cs) = (case findHTMLNode m c of Some x \<Rightarrow> Some x | None \<Rightarrow> find_child m cs)"

fun htmlNodeText :: "html_node \<Rightarrow> string" and children_text :: "html_node list \<Rightarrow> string" where
  "htmlNodeText (HtmlNode t d as cs) = (if t = TextNode then d else []) @ children_text cs"
| "children_text [] = []"
| "children_text (c # cs) = htmlNodeText c @ children_text cs"

text \<open>\<open>strings.Fields\<close>: the non-empty pieces between runs of Unicode white space.\<close>

function fields_from :: "string \<Rightarrow> string \<Rightarrow> string list" where
  "fields_from acc [] = (if acc = [] then [] else [acc])"
| "fields_from acc (c # cs) =
     (case find (\<lambda>r. is_prefix r (c # cs)) space_runes of
        Some r \<Rightarrow> (if acc = [] then [] else [acc]) @ fields_from [] (drop (length r - 1) cs)
      | None \<Rightarrow> fields_from (acc @ [c]) cs)"
  by pat_completeness auto
termination by (relation "measure (\<lambda>(acc, s). length s)") auto

definition fields :: "string \<Rightarrow> string list" where "fields s = fields_from [] s"

definition hasHTMLClass :: "html_node \<Rightarrow> string \<Rightarrow> bool" where
  "hasHTMLClass node want = list_ex (\<lambda>(k, v). k = ''class'' \<and> want \<in> set (fields v)) (nd_Attr node)"

definition htmlNodeAttr :: "html_node \<Rightarrow> string \<Rightarrow> string" where
  "htmlNodeAttr node key = (case map_of (nd_Attr node) key of None \<Rightarrow> [] | Some v \<Rightarrow> v)"

definition element :: "string \<Rightarrow> string \<Rightarrow> html_node \<Rightarrow> bool" where
  "element tag cls node \<longleftrightarrow> nd_Type node = ElementNode \<and> nd_Data node = tag \<and> hasHTMLClass node cls"

definition achievementNameFromActivityText :: "string \<Rightarrow> string" where
  "achievementNameFromActivityText text =
     (case achievementActivityNameRe (trim_space text) of Some n \<Rightarrow> n | None \<Rightarrow> trim_space text)"

definition extractAchievementName :: "string \<Rightarrow> string" where
  "extractAchievementName html = (case nameRe html of None \<Rightarrow> [] | Some n \<Rightarrow> trim_space n)"

text \<open>\<open>time.Unix(epoch, 0)\<close> and \<open>strconv.ParseInt(s, 10, 64)\<close> of a digit string.\<close>

definition unix_time :: "int \<Rightarrow> timestamp" where
  "unix_time epoch = i64 (epoch + 62135596800) * second"

definition parse_epoch :: "string \<Rightarrow> timestamp result" where
  "parse_epoch digits =
     (case atoi digits of
        None \<Rightarrow> Inl (wrapped ''parse epoch'' (EText (''strconv.ParseInt: parsing '' @ quote @ digits @ quote @ '': value out of range'')))
      | Some n \<Rightarrow> Inr (unix_time n))"

definition node_time :: "string \<Rightarrow> html_node \<Rightarrow> timestamp result" where
  "node_time missing row =
     (case findHTMLNode (element ''time'' ''entry__activity__time'') row of
        None \<Rightarrow> Inl (EText missing)
      | Some timeNode \<Rightarrow>
          (case timestampEpochRe (htmlNodeText timeNode) of None \<Rightarrow> Inl (EText missing) | Some d \<Rightarrow> parse_epoch d))"

text \<open>\<open>parse\<close> is html.Parse.\<close>

definition extractAchievementTimestamp :: "(string \<Rightarrow> html_node result) \<Rightarrow> string \<Rightarrow> timestamp result" where
  "extractAchievementTimestamp parse html =
     (case parse html of
        Inl e \<Rightarrow> Inl (wrapped ''parse achievement HTML'' e)
      | Inr doc \<Rightarrow>
          (case findHTMLNode (element ''div'' ''entry__achievement__view--complete'') doc of
             None \<Rightarrow> Inl (EText ''completed achievement row not found'')
           | Some completeRow \<Rightarrow> node_time ''completed achievement timestamp not found'' completeRow))"

definition parse_id32 :: "string \<Rightarrow> u32 result" where
  "parse_id32 digits =
     (case digits_val 0 digits of
        Some n \<Rightarrow> if n < 2 ^ 32 then Inr (of_nat n) else Inl (wrapped ''parse achievement ID'' (EText ''value out of range''))
      | None \<Rightarrow> Inl (wrapped ''parse achievement ID'' (EText ''invalid syntax'')))"

definition extractLatestAchievement :: "(string \<Rightarrow> html_node result) \<Rightarrow> string \<Rightarrow> AchievementResult option result" where
  "extractLatestAchievement parse html =
     (case parse html of
        Inl e \<Rightarrow> Inl (wrapped ''parse achievement list HTML'' e)
      | Inr doc \<Rightarrow>
          (case findHTMLNode (\<lambda>node. element ''a'' ''entry__achievement'' node
                 \<and> achievementDetailIDRe (htmlNodeAttr node ''href'') \<noteq> None) doc of
             None \<Rightarrow> Inr None
           | Some row \<Rightarrow>
               (case node_time ''latest completed achievement timestamp not found'' row of
                  Inl e \<Rightarrow> Inl e
                | Inr earnedAt \<Rightarrow>
                    (case achievementDetailIDRe (htmlNodeAttr row ''href'') of
                       None \<Rightarrow> Inl (EText ''latest completed achievement ID not found'')
                     | Some d \<Rightarrow>
                         (case parse_id32 d of
                            Inl e \<Rightarrow> Inl e
                          | Inr i \<Rightarrow>
                              Inr (Some \<lparr>ar_AchievementID = i,
                                ar_Name = (case findHTMLNode (\<lambda>node. nd_Type node = ElementNode \<and> hasHTMLClass node ''entry__activity__txt'') row of
                                             None \<Rightarrow> [] | Some nameNode \<Rightarrow> achievementNameFromActivityText (htmlNodeText nameNode)),
                                ar_Earned = True, ar_EarnedAt = earnedAt\<rparr>))))))"

section \<open>Tree search is search in document order\<close>

fun preorder :: "html_node \<Rightarrow> html_node list" where
  "preorder (HtmlNode t d as cs) = HtmlNode t d as cs # concat (map preorder cs)"

lemma find_append: "find P (xs @ ys) = (case find P xs of None \<Rightarrow> find P ys | Some x \<Rightarrow> Some x)"
  by (induction xs) auto

lemma find_member: "find P xs = Some x \<Longrightarrow> x \<in> set xs \<and> P x"
  by (induction xs) (auto split: if_splits)

lemma findHTMLNode_preorder: "findHTMLNode m n = find m (preorder n)"
  and find_child_preorder: "find_child m cs = find m (concat (map preorder cs))"
  by (induction m n and m cs rule: findHTMLNode_find_child.induct) (auto simp: find_append split: option.splits)

lemma htmlNodeText_preorder: "htmlNodeText n = concat (map nd_Data (filter (\<lambda>x. nd_Type x = TextNode) (preorder n)))"
  and children_text_preorder: "children_text cs = concat (map nd_Data (filter (\<lambda>x. nd_Type x = TextNode) (concat (map preorder cs))))"
  by (induction n and cs rule: htmlNodeText_children_text.induct) auto

section \<open>Entity decoding\<close>

text \<open>Decoding in one pass: every entity of the text is replaced once.\<close>

function decode :: "(string \<times> char) list \<Rightarrow> string \<Rightarrow> string" where
  "decode E [] = []"
| "decode E (c # cs) =
     (case find (\<lambda>p. is_prefix (fst p) (c # cs)) E of
        Some (e, r) \<Rightarrow> r # decode E (drop (length e - 1) cs)
      | None \<Rightarrow> c # decode E cs)"
  by pat_completeness auto
termination by (relation "measure (\<lambda>(E, s). length s)") auto

definition entity_form :: "string \<Rightarrow> bool" where
  "entity_form e \<longleftrightarrow> (\<exists>w. e = CHR ''&'' # w @ '';'' \<and> CHR ''&'' \<notin> set w \<and> CHR '';'' \<notin> set w)"

definition clean_entities :: "(string \<times> char) list \<Rightarrow> string set \<Rightarrow> bool" where
  "clean_entities E names \<longleftrightarrow> (\<forall>p\<in>set E. entity_form (fst p) \<and> snd p \<noteq> CHR ''&'' \<and> (\<forall>e\<in>names. snd p \<notin> set e))"

lemma entity_unique:
  assumes "entity_form a" and "entity_form b" and "is_prefix a s" and "is_prefix b s"
  shows "a = b"
proof -
  from assms(1,2) obtain v w where v: "a = CHR ''&'' # v @ '';''" "CHR '';'' \<notin> set v" and w: "b = CHR ''&'' # w @ '';''" "CHR '';'' \<notin> set w"
    by (auto simp: entity_form_def)
  from assms(3,4) v(1) w(1) obtain x y where "v @ CHR '';'' # x = w @ CHR '';'' # y" by (auto simp: is_prefix_iff)
  then have "takeWhile (\<lambda>c. c \<noteq> CHR '';'') (v @ CHR '';'' # x) = takeWhile (\<lambda>c. c \<noteq> CHR '';'') (w @ CHR '';'' # y)" by simp
  with v(2) w(2) have "v = w" by (auto simp: takeWhile_append split: if_splits)
  with v w show ?thesis by simp
qed

lemma decode_prefix:
  assumes "clean_entities E {w}" and "CHR ''&'' \<notin> set w"
  shows "is_prefix w (decode E s) \<longleftrightarrow> is_prefix w s"
  using assms
proof (induction w arbitrary: s)
  case (Cons x w)
  show ?case
  proof (cases s)
    case s: (Cons c cs)
    show ?thesis
    proof (cases "find (\<lambda>p. is_prefix (fst p) (c # cs)) E")
      case None
      have "clean_entities E {w}" using Cons.prems(1) by (auto simp: clean_entities_def)
      with None s Cons show ?thesis by simp
    next
      case (Some p)
      then have p: "p \<in> set E" "is_prefix (fst p) (c # cs)" by (auto simp: find_Some_iff)
      with Cons.prems(1) have "c = CHR ''&''" "snd p \<noteq> x" by (auto simp: clean_entities_def entity_form_def)
      with Some s Cons.prems(2) show ?thesis by (cases p) auto
    qed
  qed simp
qed simp

lemma decode_drop:
  assumes "clean_entities E {}" and "CHR ''&'' \<notin> set w" and "is_prefix w s"
  shows "drop (length w) (decode E s) = decode E (drop (length w) s)"
  using assms
proof (induction w arbitrary: s)
  case (Cons x w)
  then obtain cs where s: "s = x # cs" "is_prefix w cs" by (cases s) auto
  have "find (\<lambda>p. is_prefix (fst p) (x # cs)) E = None"
  proof (rule ccontr)
    assume "find (\<lambda>p. is_prefix (fst p) (x # cs)) E \<noteq> None"
    then obtain p where "p \<in> set E" "is_prefix (fst p) (x # cs)" using find_member by fastforce
    with Cons.prems(1,2) show False by (auto simp: clean_entities_def entity_form_def)
  qed
  with s Cons show ?case by simp
qed simp

lemma decode_step:
  assumes E: "clean_entities E {e}" and e: "entity_form e" "e \<notin> fst ` set E"
  shows "replace_all e [r] (decode E s) = decode (E @ [(e, r)]) s"
proof (induction "E @ [(e, r)]" s rule: decode.induct)
  case (2 c cs)
  obtain w where w: "e = CHR ''&'' # w" "CHR ''&'' \<notin> set w" using e(1) by (auto simp: entity_form_def)
  have Ew: "clean_entities E {w}" "clean_entities E {}" using E w(1) by (auto simp: clean_entities_def)
  show ?case
  proof (cases "find (\<lambda>p. is_prefix (fst p) (c # cs)) E")
    case (Some p)
    obtain e' r' where p: "p = (e', r')" by (cases p)
    with Some have "p \<in> set E" by (auto simp: find_Some_iff)
    with E p have r': "r' \<noteq> CHR ''&''" by (auto simp: clean_entities_def)
    have f: "find (\<lambda>p. is_prefix (fst p) (c # cs)) (E @ [(e, r)]) = Some (e', r')" using Some p by (simp add: find_append)
    from 2(2) [OF f refl] f Some p r' w(1) show ?thesis by simp
  next
    case None
    have pre: "is_prefix e (c # decode E cs) \<longleftrightarrow> is_prefix e (c # cs)" using decode_prefix [OF Ew(1) w(2)] w(1) by simp
    show ?thesis
    proof (cases "is_prefix e (c # cs)")
      case True
      then have cs: "is_prefix w cs" using w(1) by simp
      have f: "find (\<lambda>p. is_prefix (fst p) (c # cs)) (E @ [(e, r)]) = Some (e, r)" using None True by (simp add: find_append)
      have "replace_all e [r] (decode E (c # cs)) = r # replace_all e [r] (decode E (drop (length w) cs))"
        using None True pre decode_drop [OF Ew(2) w(2) cs] w(1) by simp
      with 2(2) [OF f refl] f w(1) show ?thesis by simp
    next
      case False
      have f: "find (\<lambda>p. is_prefix (fst p) (c # cs)) (E @ [(e, r)]) = None" using None False by (simp add: find_append)
      with 2(1) [OF f] None False pre show ?thesis by simp
    qed
  qed
qed simp

lemma decode_Nil [simp]: "decode [] s = s"
  by (induction "[] :: (string \<times> char) list" s rule: decode.induct) auto

lemma decode_fold:
  assumes "clean_entities (E @ es) (fst ` set (E @ es))" and "distinct (map fst (E @ es))"
  shows "replace_entities es (decode E s) = decode (E @ es) s"
  using assms
proof (induction es arbitrary: E)
  case (Cons p es)
  obtain e r where p: "p = (e, r)" by (cases p)
  have step: "replace_all e [r] (decode E s) = decode (E @ [p]) s"
    unfolding p using Cons.prems p by (intro decode_step) (auto simp: clean_entities_def)
  have "replace_entities es (decode (E @ [p]) s) = decode ((E @ [p]) @ es) s"
    using Cons.prems by (intro Cons.IH) simp_all
  with step p show ?case by (simp add: replace_entities_def)
qed (simp add: replace_entities_def)

text \<open>The order of the entities does not matter to a single pass.\<close>

lemma find_unique:
  assumes "set xs = set ys" and "\<And>x y. x \<in> set xs \<Longrightarrow> y \<in> set xs \<Longrightarrow> P x \<Longrightarrow> P y \<Longrightarrow> x = y"
  shows "find P xs = find P ys"
proof (cases "find P xs")
  case None
  with assms(1) show ?thesis by (metis find_None_iff)
next
  case (Some x)
  then have x: "x \<in> set xs" "P x" using find_member by fast+
  with assms(1) obtain y where y: "find P ys = Some y" by (metis find_None_iff not_Some_eq)
  then have "y \<in> set ys" "P y" using find_member by fast+
  with x assms y Some show ?thesis by simp
qed

lemma decode_order:
  assumes "set E = set E'" and "\<And>p. p \<in> set E \<Longrightarrow> entity_form (fst p)" and "distinct (map fst E)"
  shows "decode E s = decode E' s"
proof (induction s rule: length_induct)
  case (1 s)
  show ?case
  proof (cases s)
    case (Cons c cs)
    have same: "find (\<lambda>p. is_prefix (fst p) (c # cs)) E = find (\<lambda>p. is_prefix (fst p) (c # cs)) E'"
    proof (rule find_unique [OF assms(1)])
      fix x y assume m: "x \<in> set E" "y \<in> set E" "is_prefix (fst x) (c # cs)" "is_prefix (fst y) (c # cs)"
      with entity_unique assms(2) have "fst x = fst y" by blast
      with assms(3) m show "x = y" by (auto simp: distinct_map inj_on_def)
    qed
    have "decode E t = decode E' t" if "length t \<le> length cs" for t using 1 that Cons by simp
    with same Cons show ?thesis by (simp split: option.splits)
  qed simp
qed

lemma decode_absent:
  assumes "\<And>i. \<not> is_prefix e (drop i s)"
  shows "decode (E @ [(e, r)]) s = decode E s"
  using assms
proof (induction s rule: length_induct)
  case (1 s)
  show ?case
  proof (cases s)
    case (Cons c cs)
    have "\<not> is_prefix e (c # cs)" using 1(2) [of 0] Cons by simp
    then have f: "find (\<lambda>p. is_prefix (fst p) (c # cs)) (E @ [(e, r)]) = find (\<lambda>p. is_prefix (fst p) (c # cs)) E"
      by (simp add: find_append split: option.splits)
    have "decode (E @ [(e, r)]) (drop n cs) = decode E (drop n cs)" for n
    proof -
      have "\<not> is_prefix e (drop i (drop n cs))" for i using 1(2) [of "Suc (n + i)"] Cons by (simp add: add.commute)
      with 1(1) Cons show ?thesis by simp
    qed
    note D = this
    have "decode (E @ [(e, r)]) cs = decode E cs" using D [of 0] by simp
    with D f Cons show ?thesis by (simp split: option.splits)
  qed simp
qed

lemma str_index_None: "str_index s p = None \<Longrightarrow> \<not> is_prefix p (drop i s)"
proof (induction s arbitrary: i)
  case (Cons c cs)
  then show ?case by (cases i) (auto split: if_splits)
qed (cases p; simp)

lemma entity_form_iff: "entity_form e \<longleftrightarrow>
  2 \<le> length e \<and> hd e = CHR ''&'' \<and> last e = CHR '';'' \<and> CHR ''&'' \<notin> set (butlast (tl e)) \<and> CHR '';'' \<notin> set (butlast (tl e))"
proof
  assume r: "2 \<le> length e \<and> hd e = CHR ''&'' \<and> last e = CHR '';'' \<and> CHR ''&'' \<notin> set (butlast (tl e)) \<and> CHR '';'' \<notin> set (butlast (tl e))"
  then obtain x y zs where e: "e = x # y # zs" by (cases e; cases "tl e") auto
  have "butlast (y # zs) @ [last (y # zs)] = y # zs" by (rule append_butlast_last_id) simp
  with e r have "e = CHR ''&'' # butlast (tl e) @ '';''" by simp
  with r show "entity_form e" unfolding entity_form_def by blast
qed (auto simp: entity_form_def)

definition ampersand :: "string \<times> char" where "ampersand = (''&amp;'', CHR ''&'')"

definition entity_checks :: bool where
  "entity_checks \<longleftrightarrow> distinct (map fst entityMap) \<and> ampersand \<in> set entityMap
     \<and> list_all (\<lambda>p. let e = fst p in 2 \<le> length e \<and> hd e = CHR ''&'' \<and> last e = CHR '';''
          \<and> CHR ''&'' \<notin> set (butlast (tl e)) \<and> CHR '';'' \<notin> set (butlast (tl e))) entityMap
     \<and> list_all (\<lambda>p. p = ampersand \<or> snd p \<noteq> CHR ''&'' \<and> list_all (\<lambda>q. snd p \<notin> set (fst q)) entityMap) entityMap"

lemma entity_checks: entity_checks by code_simp

lemma entityMap_clean:
  "distinct (map fst entityMap)" "ampersand \<in> set entityMap" "p \<in> set entityMap \<Longrightarrow> entity_form (fst p)"
  "p \<in> set entityMap \<Longrightarrow> p \<noteq> ampersand \<Longrightarrow> snd p \<noteq> CHR ''&'' \<and> (\<forall>e\<in>fst ` set entityMap. snd p \<notin> set e)"
  using entity_checks by (auto simp: entity_checks_def entity_form_iff list_all_iff Let_def)

lemma order_keys: "set order = set entityMap \<Longrightarrow> distinct order \<Longrightarrow> distinct (map fst order)"
  using entityMap_clean(1) by (simp add: distinct_map)

lemma clean_part:
  assumes "set es \<subseteq> set entityMap - {ampersand}"
  shows "clean_entities es (fst ` set es)" and "entity_form (fst ampersand) \<and> clean_entities es {fst ampersand}"
proof -
  have p: "entity_form (fst p) \<and> snd p \<noteq> CHR ''&'' \<and> (\<forall>e\<in>fst ` set entityMap. snd p \<notin> set e)" if "p \<in> set es" for p
    using assms that entityMap_clean(3,4) [of p] by blast
  have k: "fst ` set es \<subseteq> fst ` set entityMap" using assms by blast
  show "clean_entities es (fst ` set es)" unfolding clean_entities_def using p k by blast
  show "entity_form (fst ampersand) \<and> clean_entities es {fst ampersand}"
    unfolding clean_entities_def using p entityMap_clean(2,3) by blast
qed

lemma entities_last:
  assumes o: "set order = set entityMap" "distinct order" and l: "last order = ampersand"
  shows "replace_entities order s = decode entityMap s"
proof -
  have "order \<noteq> []" using o(1) entityMap_clean(2) by auto
  then have split: "order = butlast order @ [ampersand]" using l by (metis append_butlast_last_id)
  define es where "es = butlast order"
  have oe: "order = es @ [ampersand]" using split by (simp add: es_def)
  have keys: "distinct (map fst es @ [fst ampersand])" using order_keys [OF o] by (simp add: oe)
  have es: "set es \<subseteq> set entityMap - {ampersand}" "distinct (map fst es)" "fst ampersand \<notin> fst ` set es"
    using o(1) keys unfolding oe by auto
  have "replace_entities order s = replace_all (fst ampersand) [snd ampersand] (replace_entities es s)"
    by (simp add: oe replace_entities_def case_prod_beta)
  also have "replace_entities es s = decode es s"
    using decode_fold [of "[]" es s] clean_part(1) [OF es(1)] es(2) by simp
  also have "replace_all (fst ampersand) [snd ampersand] (decode es s) = decode (es @ [ampersand]) s"
    using decode_step [of es "fst ampersand" "snd ampersand" s] clean_part(2) [OF es(1)] es(3) by simp
  also have "\<dots> = decode entityMap s"
    using o entityMap_clean(3) keys by (intro decode_order) (auto simp: oe)
  finally show ?thesis .
qed

lemma entities_absent:
  assumes o: "set order = set entityMap" "distinct order" and a: "str_index s (fst ampersand) = None"
  shows "replace_entities order s = decode entityMap s"
proof -
  obtain es fs where oe: "order = es @ ampersand # fs" using o(1) entityMap_clean(2) by (metis split_list)
  have keys: "distinct (map fst ((es @ fs) @ [ampersand]))" using order_keys [OF o] by (auto simp: oe)
  have sub: "set (es @ fs) \<subseteq> set entityMap - {ampersand}" using o unfolding oe by auto
  have absent: "\<not> is_prefix (fst ampersand) (drop i s)" for i using str_index_None [OF a] .
  have clean: "clean_entities es (fst ` set es)" "clean_entities es {fst ampersand}" "entity_form (fst ampersand)"
    using clean_part [of es] sub by auto
  have "replace_entities order s = replace_entities fs (replace_all (fst ampersand) [snd ampersand] (replace_entities es s))"
    by (simp add: oe replace_entities_def case_prod_beta)
  also have "replace_entities es s = decode es s" using decode_fold [of "[]" es s] clean(1) keys by simp
  also have "replace_all (fst ampersand) [snd ampersand] (decode es s) = decode (es @ [ampersand]) s"
    using decode_step [of es "fst ampersand" "snd ampersand" s] clean(2,3) keys by auto
  also have "\<dots> = decode es s" using decode_absent [of "fst ampersand" s es "snd ampersand"] absent by simp
  also have "replace_entities fs (decode es s) = decode (es @ fs) s"
    using clean_part(1) [OF sub] keys by (intro decode_fold) auto
  also have "\<dots> = decode ((es @ fs) @ [ampersand]) s"
    using decode_absent [of "fst ampersand" s "es @ fs" "snd ampersand"] absent by simp
  also have "\<dots> = decode entityMap s"
    using o entityMap_clean(3) keys by (intro decode_order) (auto simp: oe)
  finally show ?thesis .
qed

section \<open>Reading back a class list\<close>

text \<open>The list in the format that the comment of parseClassJobs gives.\<close>

definition rendered_entry :: "string \<Rightarrow> u8 \<Rightarrow> string" where
  "rendered_entry name level = ''<li><img data-tooltip='' @ quote @ name @ quote @ ''>'' @ show_nat (unat level)"

definition rendered_jobs :: "(string \<times> u8) list \<Rightarrow> string" where
  "rendered_jobs jobs = concat (map (\<lambda>(name, level). rendered_entry name level @ ''</li>'') jobs)"

definition plain_name :: "string \<Rightarrow> bool" where
  "plain_name n \<longleftrightarrow> n \<noteq> [] \<and> CHR 0x22 \<notin> set n \<and> CHR ''<'' \<notin> set n \<and> trim_suffix n '' (Limited Job)'' = n
     \<and> str_index n '' / '' = None \<and> trim_space n = n"

lemma table_names: "list_all (\<lambda>p. plain_name (fst p)) lodestoneJobIDs"
  by code_simp

lemma attribute_back:
  assumes "CHR 0x22 \<notin> set n" and "n \<noteq> []"
  shows "extractAttribute (rendered_entry n l) ''data-tooltip'' = n"
proof -
  let ?p = "''data-tooltip='' @ quote" and ?r = "n @ quote @ ''>'' @ show_nat (unat l)"
  have e: "rendered_entry n l = ''<li><img '' @ ?p @ ?r" by (simp add: rendered_entry_def)
  have "str_index (?p @ ?r) ?p = Some 0" by (simp add: quote_def)
  then have "str_index (rendered_entry n l) ?p = Some (length ''<li><img '')"
    unfolding e by (subst str_index_skip) auto
  moreover have "drop (length ''<li><img '' + length ?p) (rendered_entry n l) = ?r" unfolding e by simp
  moreover have "str_index ?r quote = Some (length n)"
    using assms(1) str_index_skip [of quote n "quote @ ''>'' @ show_nat (unat l)"] by (simp add: quote_def)
  ultimately show ?thesis by (simp add: extractAttribute_def Let_def)
qed

lemma parse_level_show: "parse_level (show_nat (unat l)) = l"
proof -
  have "unat l < 2 ^ LENGTH(8)" by (rule unsigned_less)
  then have "unat l \<le> 255" by simp
  then show ?thesis by (simp add: parse_level_def show_nat_nonempty show_nat_digits)
qed

lemma entry_back:
  assumes "map_of lodestoneJobIDs n = Some i"
  shows "job_entry charID (rendered_entry n l) =
    Some \<lparr>cj_CharacterID = charID, cj_ClassJobID = i, cj_Name = n, cj_Level = l, cj_ExpLevel = 0\<rparr>"
proof -
  have "(n, i) \<in> set lodestoneJobIDs" using assms by (rule map_of_SomeD)
  with table_names have n: "plain_name n" by (auto simp: list_all_iff)
  let ?d = "show_nat (unat l)"
  have dig: "is_digit c" if "c \<in> set ?d" for c using show_nat_chars that .
  have gt: "CHR ''>'' \<notin> set ?d" "?d \<noteq> ''-''" "hd ?d \<noteq> CHR ''L''"
    using dig [of "CHR ''>''"] dig [of "CHR ''-''"] dig [OF hd_in_set [OF show_nat_nonempty]] by (auto simp: is_digit_range)
  have e: "rendered_entry n l = (''<li><img data-tooltip='' @ quote @ n @ quote) @ CHR ''>'' # ?d" by (simp add: rendered_entry_def)
  have li: "last_index (rendered_entry n l) CHR ''>'' = Some (length (''<li><img data-tooltip='' @ quote @ n @ quote))"
    unfolding e by (rule last_index_snoc [OF gt(1)])
  have tp: "trim_prefix ?d ''Lv.'' = ?d" using gt(3) show_nat_nonempty [of "unat l"] by (cases ?d) (auto simp: trim_prefix_def)
  have tr: "trim_space ?d = ?d" using trim_digits [OF show_nat_nonempty dig] .
  have rest: "drop (length (''<li><img data-tooltip='' @ quote @ n @ quote) + 1) (rendered_entry n l) = ?d" unfolding e by simp
  have len: "\<not> length (''<li><img data-tooltip='' @ quote @ n @ quote) + 1 \<ge> length (rendered_entry n l)"
    unfolding e using show_nat_nonempty [of "unat l"] by simp
  have at: "extractAttribute (rendered_entry n l) ''data-tooltip'' = n" using n by (intro attribute_back) (auto simp: plain_name_def)
  show ?thesis
    unfolding job_entry_def at li
    using n rest len tr tp gt(2) assms by (simp add: Let_def plain_name_def show_nat_nonempty parse_level_show)
qed

lemma entry_end:
  assumes "CHR ''<'' \<notin> set n"
  shows "str_index (rendered_entry n l @ ''</li>'' @ rest) ''</li>'' = Some (length (rendered_entry n l))"
proof -
  let ?a = "''li>''" and ?b = "''img data-tooltip='' @ quote @ n @ quote @ ''>'' @ show_nat (unat l)"
  have e: "rendered_entry n l = CHR ''<'' # ?a @ CHR ''<'' # ?b" by (simp add: rendered_entry_def)
  have b: "CHR ''<'' \<notin> set ?b" using assms show_nat_chars [of "CHR ''<''" "unat l"] by (auto simp: quote_def is_digit_range)
  have "str_index (?b @ ''</li>'' @ rest) ''</li>'' = Some (length ?b)" using b by (subst str_index_skip) auto
  then have "str_index (CHR ''<'' # ?b @ ''</li>'' @ rest) ''</li>'' = Some (Suc (length ?b))" by simp
  then have "str_index (?a @ CHR ''<'' # ?b @ ''</li>'' @ rest) ''</li>'' = Some (length ?a + Suc (length ?b))"
    by (subst str_index_skip) auto
  then show ?thesis unfolding e by simp
qed

lemma entries_back:
  assumes "\<And>n l. (n, l) \<in> set jobs \<Longrightarrow> map_of lodestoneJobIDs n \<noteq> None"
    and "\<And>b. str_index (u @ b) ''<li>'' = map_option ((+) (length u)) (str_index b ''<li>'')"
  shows "job_entries charID (u @ rendered_jobs jobs) =
    map (\<lambda>(n, l). \<lparr>cj_CharacterID = charID, cj_ClassJobID = the (map_of lodestoneJobIDs n), cj_Name = n, cj_Level = l, cj_ExpLevel = 0\<rparr>) jobs"
  using assms
proof (induction jobs arbitrary: u)
  case Nil
  have "str_index (u @ []) ''<li>'' = None" unfolding Nil.prems(2) by simp
  then show ?case by (subst job_entries.simps) (simp add: rendered_jobs_def)
next
  case (Cons p jobs)
  obtain n l where p: "p = (n, l)" by (cases p)
  with Cons.prems(1) obtain i where i: "map_of lodestoneJobIDs n = Some i" by fastforce
  then have "CHR ''<'' \<notin> set n" using table_names map_of_SomeD [OF i] by (auto simp: list_all_iff plain_name_def)
  note end_at = entry_end [OF this, of l "rendered_jobs jobs"]
  let ?e = "rendered_entry n l"
  have html: "u @ rendered_jobs (p # jobs) = u @ ?e @ ''</li>'' @ rendered_jobs jobs" by (simp add: rendered_jobs_def p)
  have start: "str_index (u @ ?e @ ''</li>'' @ rendered_jobs jobs) ''<li>'' = Some (length u)"
    unfolding Cons.prems(2) by (simp add: rendered_entry_def)
  have "job_entries charID (''/li>'' @ rendered_jobs jobs) = map (\<lambda>(n, l). \<lparr>cj_CharacterID = charID,
      cj_ClassJobID = the (map_of lodestoneJobIDs n), cj_Name = n, cj_Level = l, cj_ExpLevel = 0\<rparr>) jobs"
    using Cons.prems(1) by (intro Cons.IH str_index_skip) auto
  with html start end_at entry_back [OF i, of charID l] i p show ?case by (subst job_entries.simps) simp
qed

section \<open>Properties\<close>

text \<open>A class list in the documented format is read back exactly: for any jobs of the job table with any levels, behind
  any page text before which the list marker does not occur, parseClassJobs returns the jobs in order with their ids and levels.\<close>

lemma class_list_roundtrip:
  assumes "\<And>n l. (n, l) \<in> set jobs \<Longrightarrow> map_of lodestoneJobIDs n \<noteq> None"
    and "str_index (page @ marker ''character__level__list'' @ ''><ul>'' @ rendered_jobs jobs) (marker ''character__level__list'') = Some (length page)"
  shows "parseClassJobs (page @ marker ''character__level__list'' @ ''><ul>'' @ rendered_jobs jobs) charID =
    map (\<lambda>(n, l). \<lparr>cj_CharacterID = charID, cj_ClassJobID = the (map_of lodestoneJobIDs n), cj_Name = n, cj_Level = l, cj_ExpLevel = 0\<rparr>) jobs"
proof -
  let ?u = "marker ''character__level__list'' @ ''><ul>''"
  have skip: "str_index (?u @ b) ''<li>'' = map_option ((+) (length ?u)) (str_index b ''<li>'')" for b
    by (cases "str_index b ''<li>''") (simp_all add: marker_def quote_def)
  have "drop (length page) (page @ ?u @ rendered_jobs jobs) = ?u @ rendered_jobs jobs" by simp
  then show ?thesis
    using assms(2) entries_back [of jobs ?u charID, OF assms(1) skip] by (simp add: parseClassJobs_def marker_def)
qed

text \<open>stripTags decodes every entity of the text once, whatever order the map iteration takes, if the text has no ampersand
  entity or the iteration ends with it. For other orders the result is not determined: an escaped entity is decoded once or twice,
  so the same page gives different texts in different runs.\<close>

lemma entity_decoding:
  "(set (ord s) = set entityMap \<and> distinct (ord s) \<and> (last (ord s) = ampersand \<or> \<not> str_contains (replace_tags s) (fst ampersand)) \<longrightarrow>
      stripTags ord s = trim_space (replace_spaces (decode entityMap (replace_tags s))))
    \<and> (\<exists>o1 o2 t. set o1 = set entityMap \<and> distinct o1 \<and> set o2 = set entityMap \<and> distinct o2
        \<and> stripTags (\<lambda>_. o1) t \<noteq> stripTags (\<lambda>_. o2) t)"
proof (rule conjI)
  show "set (ord s) = set entityMap \<and> distinct (ord s) \<and> (last (ord s) = ampersand \<or> \<not> str_contains (replace_tags s) (fst ampersand)) \<longrightarrow>
      stripTags ord s = trim_space (replace_spaces (decode entityMap (replace_tags s)))"
    using entities_last [of "ord s"] entities_absent [of "ord s" "replace_tags s"] by (auto simp: stripTags_def str_contains_def)
  let ?o = "rotate1 (rotate1 entityMap)"
  have "set ?o = set entityMap \<and> distinct ?o \<and> distinct entityMap"
    using entityMap_clean(1) by (simp add: distinct_map)
  moreover have "stripTags (\<lambda>_. entityMap) ''&amp;lt;'' \<noteq> stripTags (\<lambda>_. ?o) ''&amp;lt;''" by code_simp
  ultimately show "\<exists>o1 o2 t. set o1 = set entityMap \<and> distinct o1 \<and> set o2 = set entityMap \<and> distinct o2
        \<and> stripTags (\<lambda>_. o1) t \<noteq> stripTags (\<lambda>_. o2) t" by metis
qed

end
