(* ===== verification/Rate_Limiter.thy ===== *)
theory Rate_Limiter
  imports Contract "HOL-Library.AList"
begin

text \<open>
  infrastructure/provider: the shared \<open>RateLimiter\<close> (limiter.go) and the goroutine-local
  \<open>ProxyRateLimiter\<close> (proxy\_limiter.go). Both keep a map from provider to the end of its pause. The
  locale \<open>provider_limiter\<close> states the contract of contract.ProviderRateLimiter that callers
  rely on; both limiters interpret it. The laws proved here: pauses are never shortened, waiting never
  ends early, and the two implementations agree.
\<close>

section \<open>State\<close>

record limiter =
  rl_pausedUntil :: "(string \<times> timestamp) list"
  rl_reasons :: "(string \<times> string) list"

definition new_limiter :: limiter where
  "new_limiter = \<lparr>rl_pausedUntil = [], rl_reasons = []\<rparr>"

section \<open>RateLimiter (limiter.go)\<close>

definition IsAvailable :: "timestamp \<Rightarrow> string \<Rightarrow> limiter \<Rightarrow> bool" where
  "IsAvailable now p r =
     (case map_of (rl_pausedUntil r) p of None \<Rightarrow> True | Some until \<Rightarrow> now > until)"

definition Pause :: "timestamp \<Rightarrow> string \<Rightarrow> duration \<Rightarrow> string \<Rightarrow> limiter \<Rightarrow> limiter" where
  "Pause now p d reason r =
     (let newUntil = now + d
      in case map_of (rl_pausedUntil r) p of
           Some cur \<Rightarrow>
             if cur > newUntil then r
             else r\<lparr>rl_pausedUntil := AList.update p newUntil (rl_pausedUntil r),
                    rl_reasons := AList.update p reason (rl_reasons r)\<rparr>
         | None \<Rightarrow> r\<lparr>rl_pausedUntil := AList.update p newUntil (rl_pausedUntil r),
                     rl_reasons := AList.update p reason (rl_reasons r)\<rparr>)"

definition PausedUntil :: "timestamp \<Rightarrow> string \<Rightarrow> limiter \<Rightarrow> timestamp \<times> bool" where
  "PausedUntil now p r =
     (case map_of (rl_pausedUntil r) p of
        None \<Rightarrow> (0, False)
      | Some until \<Rightarrow> if now > until then (0, False) else (until, True))"

text \<open>
  One reading of the wait loop: the limiter, the two clock readings, and \<open>ctx.Err()\<close> when the
  context ends before the timer fires. The result is \<open>None\<close> while the loop is still waiting.
\<close>

record wait_reading =
  wr_limiter :: limiter
  wr_now :: timestamp
  wr_now2 :: timestamp
  wr_ctx :: "sentinel option"

fun WaitUntilAvailable :: "string \<Rightarrow> wait_reading list \<Rightarrow> err option option" where
  "WaitUntilAvailable p [] = None"
| "WaitUntilAvailable p (w # ws) =
     (case map_of (rl_pausedUntil (wr_limiter w)) p of
        None \<Rightarrow> Some None
      | Some until \<Rightarrow>
          if wr_now w > until then Some None
          else if time_sub until (wr_now2 w) \<le> 0 then Some None
          else case wr_ctx w of
                 Some e \<Rightarrow> Some (Some (ESent e))
               | None \<Rightarrow> WaitUntilAvailable p ws)"

definition earliest_step :: "timestamp \<Rightarrow> string \<times> timestamp \<Rightarrow> timestamp \<Rightarrow> timestamp" where
  "earliest_step now pu earliest =
     (if snd pu > now then (if earliest = 0 \<or> snd pu < earliest then snd pu else earliest) else earliest)"

definition EarliestAvailable :: "timestamp \<Rightarrow> limiter \<Rightarrow> timestamp" where
  "EarliestAvailable now r = fold (earliest_step now) (rl_pausedUntil r) 0"

definition Reset :: "string \<Rightarrow> limiter \<Rightarrow> limiter" where
  "Reset p r = r\<lparr>rl_pausedUntil := AList.delete p (rl_pausedUntil r),
                 rl_reasons := AList.delete p (rl_reasons r)\<rparr>"

section \<open>ProxyRateLimiter (proxy\_limiter.go)\<close>

text \<open>A missing map entry reads as the zero time.\<close>

definition paused_until0 :: "string \<Rightarrow> limiter \<Rightarrow> timestamp" where
  "paused_until0 p r = (case map_of (rl_pausedUntil r) p of None \<Rightarrow> 0 | Some t \<Rightarrow> t)"

definition Proxy_IsAvailable :: "timestamp \<Rightarrow> string \<Rightarrow> limiter \<Rightarrow> bool" where
  "Proxy_IsAvailable now p r =
     (case map_of (rl_pausedUntil r) p of None \<Rightarrow> True | Some until \<Rightarrow> now > until)"

definition Proxy_Pause :: "timestamp \<Rightarrow> string \<Rightarrow> duration \<Rightarrow> string \<Rightarrow> limiter \<Rightarrow> limiter" where
  "Proxy_Pause now p d reason r =
     (let newUntil = now + d
      in if paused_until0 p r > newUntil then r
         else r\<lparr>rl_pausedUntil := AList.update p newUntil (rl_pausedUntil r),
                rl_reasons := AList.update p reason (rl_reasons r)\<rparr>)"

definition Proxy_PausedUntil :: "timestamp \<Rightarrow> string \<Rightarrow> limiter \<Rightarrow> timestamp \<times> bool" where
  "Proxy_PausedUntil now p r =
     (case map_of (rl_pausedUntil r) p of
        None \<Rightarrow> (0, False)
      | Some until \<Rightarrow> if now > until then (0, False) else (until, True))"

fun Proxy_WaitUntilAvailable :: "string \<Rightarrow> wait_reading list \<Rightarrow> err option option" where
  "Proxy_WaitUntilAvailable p [] = None"
| "Proxy_WaitUntilAvailable p (w # ws) =
     (if Proxy_IsAvailable (wr_now w) p (wr_limiter w) then Some None
      else let until = paused_until0 p (wr_limiter w)
           in if time_sub until (wr_now2 w) \<le> 0 then Some None
              else case wr_ctx w of
                     Some e \<Rightarrow> Some (Some (ESent e))
                   | None \<Rightarrow> Proxy_WaitUntilAvailable p ws)"

definition Proxy_EarliestAvailable :: "timestamp \<Rightarrow> limiter \<Rightarrow> timestamp" where
  "Proxy_EarliestAvailable now r =
     fold (\<lambda>pu earliest. if snd pu > now \<and> (earliest = 0 \<or> snd pu < earliest) then snd pu else earliest)
       (rl_pausedUntil r) 0"

definition Proxy_Reset :: "string \<Rightarrow> limiter \<Rightarrow> limiter" where
  "Proxy_Reset p r = r\<lparr>rl_pausedUntil := AList.delete p (rl_pausedUntil r),
                       rl_reasons := AList.delete p (rl_reasons r)\<rparr>"

section \<open>The contract\<close>

text \<open>\<open>until p s\<close> is the stored end of the pause; times are not before the zero time.\<close>

locale provider_limiter =
  fixes pause :: "timestamp \<Rightarrow> string \<Rightarrow> duration \<Rightarrow> string \<Rightarrow> 's \<Rightarrow> 's"
    and reset :: "string \<Rightarrow> 's \<Rightarrow> 's"
    and until :: "string \<Rightarrow> 's \<Rightarrow> timestamp option"
    and available :: "timestamp \<Rightarrow> string \<Rightarrow> 's \<Rightarrow> bool"
  assumes pause_same: "0 \<le> now + d \<Longrightarrow> until p (pause now p d r s)
      = Some (case until p s of None \<Rightarrow> now + d | Some t \<Rightarrow> max t (now + d))"
    and pause_other: "q \<noteq> p \<Longrightarrow> until q (pause now p d r s) = until q s"
    and reset_same: "until p (reset p s) = None"
    and reset_other: "q \<noteq> p \<Longrightarrow> until q (reset p s) = until q s"
    and available_iff: "available now p s \<longleftrightarrow> (case until p s of None \<Rightarrow> True | Some t \<Rightarrow> t < now)"
begin

text \<open>A sequence of pauses of arbitrary providers: (now, provider, duration, reason).\<close>

fun pauses :: "(timestamp \<times> string \<times> duration \<times> string) list \<Rightarrow> 's \<Rightarrow> 's" where
  "pauses [] s = s"
| "pauses ((now, p, d, r) # xs) s = pauses xs (pause now p d r s)"

lemma until_grows:
  "until p s = Some t \<Longrightarrow> list_all (\<lambda>(now, q, d, r). 0 \<le> now + d) xs
   \<Longrightarrow> \<exists>t'. until p (pauses xs s) = Some t' \<and> t \<le> t'"
proof (induction xs s arbitrary: t rule: pauses.induct)
  case (2 now q d r xs s)
  show ?case
  proof (cases "q = p")
    case True
    with 2 have "until p (pause now q d r s) = Some (max t (now + d))" by (simp add: pause_same)
    with 2(1) [OF this] 2(3) show ?thesis by auto
  next
    case False
    with 2 show ?thesis by (simp add: pause_other)
  qed
qed simp

lemma pause_not_shortened:
  assumes "(now, p, d, r) \<in> set xs" and "list_all (\<lambda>(now, q, d, r). 0 \<le> now + d) xs"
    and "available t p (pauses xs s)"
  shows "now + d < t"
  using assms
proof (induction xs s rule: pauses.induct)
  case (2 now' q d' r' xs s)
  show ?case
  proof (cases "(now, p, d, r) = (now', q, d', r')")
    case True
    with 2 have "\<exists>u. until p (pause now p d r s) = Some u \<and> now + d \<le> u"
      by (auto simp: pause_same split: option.splits)
    then obtain u where u: "until p (pause now p d r s) = Some u" "now + d \<le> u" by blast
    from until_grows [OF u(1), of xs] 2(3) obtain t' where
      "until p (pauses xs (pause now p d r s)) = Some t'" "u \<le> t'" by auto
    with u 2(4) True show ?thesis by (simp add: available_iff)
  next
    case False
    with 2 show ?thesis by auto
  qed
qed simp

end

section \<open>Both limiters provide it\<close>

definition limiter_until :: "string \<Rightarrow> limiter \<Rightarrow> timestamp option" where
  "limiter_until p r = map_of (rl_pausedUntil r) p"

interpretation shared: provider_limiter Pause Reset limiter_until IsAvailable
  by unfold_locales
     (auto simp: Pause_def Reset_def IsAvailable_def limiter_until_def Let_def update_conv' delete_conv'
        split: option.splits)

interpretation local_limiter: provider_limiter Proxy_Pause Proxy_Reset limiter_until Proxy_IsAvailable
  by unfold_locales
     (auto simp: Proxy_Pause_def Proxy_Reset_def Proxy_IsAvailable_def paused_until0_def limiter_until_def
        Let_def update_conv' delete_conv' split: option.splits)

section \<open>Properties\<close>

text \<open>A pause is honoured in full: after any sequence of pauses of any providers, a provider is
  available only after the end of every pause that was requested for it, for both limiters (times
  that do not precede the zero time).\<close>

lemma pauses_are_honoured:
  assumes "(now, p, d, r) \<in> set xs" and "list_all (\<lambda>(now, q, d, r). 0 \<le> now + d) xs"
  shows "(IsAvailable t p (shared.pauses xs s) \<longrightarrow> now + d < t)
     \<and> (Proxy_IsAvailable t p (local_limiter.pauses xs s) \<longrightarrow> now + d < t)"
  using shared.pause_not_shortened [OF assms] local_limiter.pause_not_shortened [OF assms] by blast

lemma wait_equal: "Proxy_WaitUntilAvailable p ws = WaitUntilAvailable p ws"
  by (induction ws) (auto simp: Proxy_IsAvailable_def paused_until0_def Let_def split: option.splits)

text \<open>Waiting does not end early: WaitUntilAvailable returns nil only at a reading where the provider
  has no pause or the clock has reached its end, and returns the context error only for an ended
  context; the goroutine-local limiter returns the same.\<close>

lemma wait_not_early:
  "(WaitUntilAvailable p ws = Some None \<longrightarrow>
      (\<exists>w \<in> set ws. case map_of (rl_pausedUntil (wr_limiter w)) p of
          None \<Rightarrow> True | Some until \<Rightarrow> until < wr_now w \<or> until \<le> wr_now2 w))
   \<and> (\<forall>e. WaitUntilAvailable p ws = Some (Some e) \<longrightarrow> (\<exists>w \<in> set ws. \<exists>c. wr_ctx w = Some c \<and> e = ESent c))
   \<and> Proxy_WaitUntilAvailable p ws = WaitUntilAvailable p ws"
proof (intro conjI allI impI)
  show "Proxy_WaitUntilAvailable p ws = WaitUntilAvailable p ws" by (rule wait_equal)
  show "\<exists>w \<in> set ws. case map_of (rl_pausedUntil (wr_limiter w)) p of
          None \<Rightarrow> True | Some until \<Rightarrow> until < wr_now w \<or> until \<le> wr_now2 w"
    if "WaitUntilAvailable p ws = Some None"
    using that by (induction ws) (auto simp: time_sub_def min_i64_def max_i64_def split: option.splits if_splits)
  show "\<exists>w \<in> set ws. \<exists>c. wr_ctx w = Some c \<and> e = ESent c" if "WaitUntilAvailable p ws = Some (Some e)" for e
    using that by (induction ws) (auto split: option.splits if_splits)
qed

lemma Min_insert_min: "finite S \<Longrightarrow> Min (insert (min a b) S) = Min (insert a (insert b (S :: int set)))"
  by (cases "S = {}") (auto simp: min.assoc)

lemma earliest_fold:
  assumes "0 \<le> now"
  shows "(acc = 0 \<or> now < acc) \<Longrightarrow>
     fold (earliest_step now) xs acc =
       (if acc = 0 \<and> (\<forall>x \<in> set xs. snd x \<le> now) then 0
        else Min ((if acc = 0 then {} else {acc}) \<union> {t \<in> snd ` set xs. now < t}))"
proof (induction xs arbitrary: acc)
  case Nil
  then show ?case by simp
next
  case (Cons x xs)
  obtain t where t: "t = snd x" by simp
  let ?S = "{t \<in> snd ` set xs. now < t}"
  have fin: "finite ?S" by simp
  show ?case
  proof (cases "now < t")
    case False
    then have "earliest_step now x acc = acc" "{t \<in> snd ` set (x # xs). now < t} = ?S"
      using t by (auto simp: earliest_step_def)
    with Cons False t show ?thesis by auto
  next
    case True
    then have S: "{t \<in> snd ` set (x # xs). now < t} = insert t ?S" using t by auto
    let ?a = "earliest_step now x acc"
    have a: "?a = (if acc = 0 then t else min acc t)" "now < ?a" "?a \<noteq> 0"
      using True t Cons.prems assms by (auto simp: earliest_step_def)
    have "fold (earliest_step now) (x # xs) acc = Min (insert ?a ?S)"
      using Cons.IH [of ?a] a by simp
    also have "\<dots> = Min ((if acc = 0 then {} else {acc}) \<union> insert t ?S)"
      using a(1) Min_insert_min [OF fin, of acc t]
      by (cases "acc = 0") (simp_all only: simp_thms if_True if_False Un_empty_left Un_insert_left)
    finally show ?thesis using S True t by auto
  qed
qed

text \<open>EarliestAvailable is the least end of a pause that lies in the future, and the zero time when
  there is none; both limiters compute the same value.\<close>

lemma earliest_is_least:
  assumes "0 \<le> now"
  shows "EarliestAvailable now r =
       (let ends = {t \<in> snd ` set (rl_pausedUntil r). now < t} in if ends = {} then 0 else Min ends)
     \<and> Proxy_EarliestAvailable now r = EarliestAvailable now r"
proof
  have "(\<forall>x \<in> set (rl_pausedUntil r). snd x \<le> now) \<longleftrightarrow> {t \<in> snd ` set (rl_pausedUntil r). now < t} = {}"
    by (auto simp: not_less)
  then show "EarliestAvailable now r =
       (let ends = {t \<in> snd ` set (rl_pausedUntil r). now < t} in if ends = {} then 0 else Min ends)"
    using earliest_fold [OF assms, of 0 "rl_pausedUntil r"] by (simp add: EarliestAvailable_def Let_def)
  have "(\<lambda>pu e. if snd pu > now \<and> (e = 0 \<or> snd pu < e) then snd pu else e) = earliest_step now"
    by (auto simp: earliest_step_def fun_eq_iff)
  then show "Proxy_EarliestAvailable now r = EarliestAvailable now r"
    by (simp add: Proxy_EarliestAvailable_def EarliestAvailable_def)
qed

end
