(* ===== verification/Lodestone_Client.thy ===== *)
theory Lodestone_Client
  imports Lodestone_Html Guard Rate_Limiter Census_Handlers
begin

text \<open>
  infrastructure/lodestone/client.go, the requesting half: the retry loop of doRequest, the recognition of Cloudflare blocks, and the
  three operations that turn answers into results. The provider rate limiter is the interface contract.ProviderRateLimiter, here its two
  operations over any state; the lemmas about pauses are proved in the locale \<open>provider_limiter\<close> and hold for both limiters.
  Results: a rejection by the destination pauses the provider and is reported with its hint, a character counts as missing only after an
  answer that says so, and only ambiguous failures are retried.
\<close>

section \<open>What one attempt observes\<close>

record lodestone_response = http_response +
  rs_CfMitigated :: string

text \<open>
  The inputs of one iteration of the retry loop: \<open>ctx.Err()\<close>, the results of the token bucket (golang.org/x/time/rate), of building the
  request and of \<open>httpClient.Do\<close>, whether the transport error is a \<open>net.Error\<close> and then its Timeout, the random number of the jitter,
  the context error if the context ends before the timer, and the clock readings in their order.
\<close>

record attempt =
  at_Ctx :: "sentinel option"
  at_Token :: "err option"
  at_Request :: "err option"
  at_Do :: "err + lodestone_response"
  at_NetTimeout :: "bool option"
  at_Rand :: rat
  at_Done :: "sentinel option"
  at_Now :: timestamp
  at_PauseNow :: timestamp
  at_Now2 :: timestamp

record 's limiter_ops =
  lo_Wait :: "string \<Rightarrow> 's \<Rightarrow> err option \<times> 's"
  lo_Pause :: "timestamp \<Rightarrow> string \<Rightarrow> duration \<Rightarrow> string \<Rightarrow> 's \<Rightarrow> 's"

text \<open>\<open>lc_rateLimiter\<close> is \<open>None\<close> for a nil interface.\<close>

record 's CustomClient =
  lc_rate :: rat
  lc_maxRetries :: int
  lc_backoffBase :: duration
  lc_rateLimiter :: "'s limiter_ops option"
  lc_proxyURL :: string

text \<open>The limiter's state, with the urls requested and the times slept so far.\<close>

record 's client_state =
  ls_limiter :: 's
  ls_sent :: "string list"
  ls_slept :: "duration list"

definition ProviderLodestone :: string where "ProviderLodestone = ''lodestone''"

definition rateLimitPause :: duration where "rateLimitPause = 30 * second"
definition challengePause :: duration where "challengePause = 5 * second"
definition maxSafeRate :: rat where "maxSafeRate = 1"

text \<open>The configuration is the pair of RateLimit and MaxRetries; \<open>newTransport\<close> is the result of building the proxy transport.\<close>

definition NewCustomClient :: "(rat \<times> int) option \<Rightarrow> 's limiter_ops option \<Rightarrow> string \<Rightarrow> (string \<Rightarrow> err option) \<Rightarrow> 's CustomClient result" where
  "NewCustomClient cfg rateLimiter proxyURL newTransport =
     (case cfg of
        None \<Rightarrow> Inl (EText ''lodestone config is nil'')
      | Some (rateLimit, maxRetries) \<Rightarrow>
          (let rps0 = (if rateLimit \<le> 0 then maxSafeRate else rateLimit);
               rps = (if rps0 > maxSafeRate then maxSafeRate else rps0);
               c = \<lparr>lc_rate = rps, lc_maxRetries = maxRetries, lc_backoffBase = 500 * millisecond,
                    lc_rateLimiter = rateLimiter, lc_proxyURL = proxyURL\<rparr>
           in if proxyURL \<noteq> []
              then (case newTransport proxyURL of
                      Some e \<Rightarrow> Inl (wrapped ''lodestone proxy transport'' e)
                    | None \<Rightarrow> Inr c)
              else Inr c))"

section \<open>Helpers\<close>

text \<open>The jitter, \<open>r\<close> the random number of \<open>[0, 1)\<close>; float64 is taken as exact.\<close>

definition jittered :: "rat \<Rightarrow> duration \<Rightarrow> duration" where
  "jittered r d = (if d \<le> 0 then 0 else \<lfloor>of_int d * (9 / 10 + 2 / 10 * r)\<rfloor>)"

definition isTimeoutError :: "bool option \<Rightarrow> err \<Rightarrow> bool" where
  "isTimeoutError net e = (case net of Some timeout \<Rightarrow> timeout | None \<Rightarrow> errors_is e CtxDeadlineExceeded)"

definition challengeMarkers :: "string list" where
  "challengeMarkers = [''just a moment'', ''attention required'', ''cf-error-details'', ''error 1020'', ''cloudflare'']"

definition isCloudflareChallenge :: "lodestone_response \<Rightarrow> string \<Rightarrow> bool" where
  "isCloudflareChallenge resp body =
     (if map ascii_lower (rs_CfMitigated resp) = ''challenge'' then True
      else if body = [] then False
      else let lower = to_lower (take (64 * 1024) body) in list_ex (str_contains lower) challengeMarkers)"

text \<open>Header, body and pause of a rejection; \<open>pt\<close> is \<open>http.ParseTime\<close>.\<close>

definition pause_or :: "duration \<Rightarrow> duration \<Rightarrow> duration" where
  "pause_or usual hint = (if hint \<le> 0 then usual else hint)"

definition pause_provider :: "'s CustomClient \<Rightarrow> timestamp \<Rightarrow> duration \<Rightarrow> string \<Rightarrow> 's client_state \<Rightarrow> 's client_state" where
  "pause_provider c now pause reason s =
     (case lc_rateLimiter c of
        None \<Rightarrow> s
      | Some ops \<Rightarrow> s\<lparr>ls_limiter := lo_Pause ops now ProviderLodestone pause reason (ls_limiter s)\<rparr>)"

definition pauseForChallenge :: "(string \<Rightarrow> timestamp option) \<Rightarrow> 's CustomClient \<Rightarrow> attempt \<Rightarrow> lodestone_response
    \<Rightarrow> 's client_state \<Rightarrow> 's client_state" where
  "pauseForChallenge pt c a resp s =
     pause_provider c (at_PauseNow a) (pause_or challengePause (ParseRetryAfter pt (rs_RetryAfter resp) (at_Now a)))
       ''lodestone challenge'' s"

definition http_from :: "int \<Rightarrow> string \<Rightarrow> err" where
  "http_from status url = EText (''HTTP '' @ show_int status @ '' from '' @ url)"

section \<open>The retry loop\<close>

datatype verdict =
    Return string int "err option"
  | Continue err

text \<open>The part of an iteration behind a response.\<close>

definition on_response :: "(string \<Rightarrow> timestamp option) \<Rightarrow> 's CustomClient \<Rightarrow> string \<Rightarrow> attempt \<Rightarrow> lodestone_response
    \<Rightarrow> 's client_state \<Rightarrow> verdict \<times> 's client_state" where
  "on_response pt c url a resp s =
     (case rs_Body resp of
        (_, Some e) \<Rightarrow> (Continue e, s)
      | (body, None) \<Rightarrow>
          if rs_Status resp = 429
          then (let retryAfter = ParseRetryAfter pt (rs_RetryAfter resp) (at_Now a)
                in (Return [] (rs_Status resp) (Some (wrapped (''request '' @ url)
                      (ECheck CheckTarget ''status 429'' False retryAfter (Some (http_from (rs_Status resp) url))))),
                    pause_provider c (at_PauseNow a) (pause_or rateLimitPause retryAfter) ''lodestone 429 rate limited'' s))
          else if rs_Status resp = 202
          then (Return [] (rs_Status resp) (Some (wrapped (''request '' @ url)
                  (ECheck CheckTarget ''status 202'' True (ParseRetryAfter pt (rs_RetryAfter resp) (at_Now2 a))
                     (Some (http_from (rs_Status resp) url))))),
                pauseForChallenge pt c a resp s)
          else if rs_Status resp = 403 \<and> isCloudflareChallenge resp body
          then (Return [] (rs_Status resp) (Some (wrapped (''request '' @ url)
                  (ECheck CheckTarget ''status 403 challenge'' True (ParseRetryAfter pt (rs_RetryAfter resp) (at_Now2 a))
                     (Some (http_from (rs_Status resp) url))))),
                pauseForChallenge pt c a resp s)
          else (Return body (rs_Status resp) None, s))"

definition is_proxy_failure :: "err \<Rightarrow> bool" where
  "is_proxy_failure e = (case errors_as e of None \<Rightarrow> False | Some ce \<Rightarrow> ce_Kind ce = CheckProxy)"

definition backoff :: "'s CustomClient \<Rightarrow> nat \<Rightarrow> duration" where
  "backoff c n = i64 (lc_backoffBase c * i64 (2 ^ n))"

text \<open>The part of an iteration behind a transport error, \<open>n\<close> the attempt counted from 0.\<close>

definition on_failure :: "'s CustomClient \<Rightarrow> string \<Rightarrow> nat \<Rightarrow> attempt \<Rightarrow> err \<Rightarrow> 's client_state \<Rightarrow> verdict \<times> 's client_state" where
  "on_failure c url n a e s =
     (let lastErr = WrapProxyDial e
      in if is_proxy_failure lastErr then (Return [] 0 (Some (wrapped (''request '' @ url) lastErr)), s)
         else if isTimeoutError (at_NetTimeout a) e then (Return [] 0 (Some (wrapped (''request '' @ url) lastErr)), s)
         else if int n < lc_maxRetries c
         then (case at_Done a of
                 Some ce \<Rightarrow> (Return [] 0 (Some (ESent ce)), s)
               | None \<Rightarrow> (Continue lastErr, s\<lparr>ls_slept := ls_slept s @ [jittered (at_Rand a) (backoff c n)]\<rparr>))
         else (Continue lastErr, s))"

definition iteration :: "(string \<Rightarrow> timestamp option) \<Rightarrow> 's CustomClient \<Rightarrow> string \<Rightarrow> nat \<Rightarrow> attempt
    \<Rightarrow> 's client_state \<Rightarrow> verdict \<times> 's client_state" where
  "iteration pt c url n a s =
     (case at_Ctx a of
        Some e \<Rightarrow> (Return [] 0 (Some (ESent e)), s)
      | None \<Rightarrow>
          (case (case lc_rateLimiter c of None \<Rightarrow> (None, ls_limiter s) | Some ops \<Rightarrow> lo_Wait ops ProviderLodestone (ls_limiter s)) of
             (Some e, l) \<Rightarrow> (Return [] 0 (Some e), s\<lparr>ls_limiter := l\<rparr>)
           | (None, l) \<Rightarrow>
               (case at_Token a of
                  Some e \<Rightarrow> (Return [] 0 (Some e), s\<lparr>ls_limiter := l\<rparr>)
                | None \<Rightarrow>
                    (case at_Request a of
                       Some e \<Rightarrow> (Return [] 0 (Some (wrapped ''create request'' e)), s\<lparr>ls_limiter := l\<rparr>)
                     | None \<Rightarrow>
                         (let s' = s\<lparr>ls_limiter := l, ls_sent := ls_sent s @ [url]\<rparr>
                          in case at_Do a of
                               Inl e \<Rightarrow> on_failure c url n a e s'
                             | Inr resp \<Rightarrow> on_response pt c url a resp s')))))"

text \<open>\<open>m\<close> iterations are left, the next has number \<open>n\<close>; \<open>env\<close> gives the inputs of every iteration.\<close>

fun request_loop :: "(string \<Rightarrow> timestamp option) \<Rightarrow> 's CustomClient \<Rightarrow> string \<Rightarrow> (nat \<Rightarrow> attempt) \<Rightarrow> nat \<Rightarrow> nat \<Rightarrow> err option
    \<Rightarrow> 's client_state \<Rightarrow> (string \<times> int \<times> err option) \<times> 's client_state" where
  "request_loop pt c url env 0 n lastErr s =
     (([], 0, Some (wrapped (''request '' @ url)
         (case lastErr of None \<Rightarrow> EText (''request '' @ url @ '': all attempts failed'') | Some e \<Rightarrow> e))), s)"
| "request_loop pt c url env (Suc m) n lastErr s =
     (case iteration pt c url n (env n) s of
        (Return body status e, s') \<Rightarrow> ((body, status, e), s')
      | (Continue e, s') \<Rightarrow> request_loop pt c url env m (Suc n) (Some e) s')"

definition doRequest :: "(string \<Rightarrow> timestamp option) \<Rightarrow> 's CustomClient \<Rightarrow> (nat \<Rightarrow> attempt) \<Rightarrow> string \<Rightarrow> 's client_state
    \<Rightarrow> (string \<times> int \<times> err option) \<times> 's client_state" where
  "doRequest pt c env url s = request_loop pt c url env (nat (lc_maxRetries c + 1)) 0 None s"

section \<open>Characters and achievements\<close>

definition character_url :: "u32 \<Rightarrow> string" where
  "character_url i = ''https://na.finalfantasyxiv.com/lodestone/character/'' @ show_u32 i @ ''/''"

definition FetchCharacter :: "(string \<Rightarrow> timestamp option) \<Rightarrow> entity_order \<Rightarrow> 's CustomClient \<Rightarrow> (nat \<Rightarrow> attempt) \<Rightarrow> u32
    \<Rightarrow> 's client_state \<Rightarrow> CharacterProfile result \<times> 's client_state" where
  "FetchCharacter pt ord c env i s =
     (case doRequest pt c env (character_url i) s of
        ((_, _, Some e), s') \<Rightarrow> (Inl (wrapped (''fetch character '' @ show_u32 i) e), s')
      | ((body, status, None), s') \<Rightarrow>
          if status = 404 \<or> status = 403 then (Inl (ESent ErrCharacterNotFound), s')
          else if status \<noteq> 200 then (Inl (EText (''fetch character '' @ show_u32 i @ '': HTTP '' @ show_int status)), s')
          else (case parseCharacterProfile ord body i of
                  Inl e \<Rightarrow> (Inl (wrapped (''parse character '' @ show_u32 i) e), s')
                | Inr profile \<Rightarrow> (Inr profile, s')))"

definition detail_url :: "u32 \<Rightarrow> u32 \<Rightarrow> string" where
  "detail_url i k = character_url i @ ''achievement/detail/'' @ show_u32 k @ ''/''"

definition completeMarker :: string where "completeMarker = ''entry__achievement__view--complete''"

definition checkSingleAchievement :: "(string \<Rightarrow> timestamp option) \<Rightarrow> (string \<Rightarrow> html_node result) \<Rightarrow> 's CustomClient
    \<Rightarrow> (nat \<Rightarrow> attempt) \<Rightarrow> u32 \<Rightarrow> u32 \<Rightarrow> 's client_state \<Rightarrow> AchievementResult result \<times> 's client_state" where
  "checkSingleAchievement pt parse c env charID k s =
     (case doRequest pt c env (detail_url charID k) s of
        ((_, _, Some e), s') \<Rightarrow> (Inl e, s')
      | ((html, status, None), s') \<Rightarrow>
          (let result = \<lparr>ar_AchievementID = k, ar_Name = extractAchievementName html, ar_Earned = False, ar_EarnedAt = 0\<rparr>
           in if status = 403 then (Inl (ESent ErrAchievementsPrivate), s')
              else if status \<noteq> 200
              then (Inl (EText (''achievement detail '' @ show_u32 charID @ ''/'' @ show_u32 k @ '': HTTP '' @ show_int status)), s')
              else if str_contains html completeMarker
              then (case extractAchievementTimestamp parse html of
                      Inl e \<Rightarrow> (Inl (wrapped (''parse earned timestamp for achievement '' @ show_u32 k) e), s')
                    | Inr earnedAt \<Rightarrow> (Inr (result\<lparr>ar_Earned := True, ar_EarnedAt := earnedAt\<rparr>), s'))
              else (Inr result, s')))"

definition private_summary :: AchievementSummary where
  "private_summary = \<lparr>as_Private = True, as_TotalAchievements = 0, as_TotalPoints = 0, as_Milestones = [], as_LatestAchievement = None\<rparr>"

text \<open>The loop over the milestones: the results so far, or the end of the operation by an error or a private list.\<close>

datatype milestones = Collected "AchievementResult list" | PrivateList | Failed err

fun check_milestones :: "(string \<Rightarrow> timestamp option) \<Rightarrow> (string \<Rightarrow> html_node result) \<Rightarrow> 's CustomClient
    \<Rightarrow> (nat \<Rightarrow> nat \<Rightarrow> attempt) \<Rightarrow> u32 \<Rightarrow> nat \<Rightarrow> u32 list \<Rightarrow> AchievementResult list \<Rightarrow> 's client_state \<Rightarrow> milestones \<times> 's client_state" where
  "check_milestones pt parse c env charID n [] results s = (Collected results, s)"
| "check_milestones pt parse c env charID n (k # ks) results s =
     (case checkSingleAchievement pt parse c (env n) charID k s of
        (Inl e, s') \<Rightarrow>
          if errors_is e ErrAchievementsPrivate then (PrivateList, s')
          else (Failed (wrapped (''check achievement '' @ show_u32 k @ '' for character '' @ show_u32 charID) e), s')
      | (Inr result, s') \<Rightarrow>
          if ar_Earned result then check_milestones pt parse c env charID (Suc n) ks (results @ [result]) s'
          else (Collected results, s'))"

definition FetchAchievements :: "(string \<Rightarrow> timestamp option) \<Rightarrow> (string \<Rightarrow> html_node result) \<Rightarrow> 's CustomClient
    \<Rightarrow> (nat \<Rightarrow> nat \<Rightarrow> attempt) \<Rightarrow> u32 \<Rightarrow> u32 list \<Rightarrow> 's client_state \<Rightarrow> AchievementSummary result \<times> 's client_state" where
  "FetchAchievements pt parse c env charID milestoneIDs s =
     (case doRequest pt c (env 0) (character_url charID @ ''achievement/'') s of
        ((_, _, Some e), s') \<Rightarrow> (Inl (wrapped (''fetch achievement list for character '' @ show_u32 charID) e), s')
      | ((body, status, None), s') \<Rightarrow>
          if status = 404 then (Inl (ESent ErrCharacterNotFound), s')
          else if status = 403 then (Inr private_summary, s')
          else if status \<noteq> 200
          then (Inl (EText (''achievement list '' @ show_u32 charID @ '': HTTP '' @ show_int status)), s')
          else (case extractLatestAchievement parse body of
                  Inl e \<Rightarrow> (Inl (wrapped (''parse latest achievement for character '' @ show_u32 charID) e), s')
                | Inr latest \<Rightarrow>
                    (case check_milestones pt parse c env charID 1 milestoneIDs [] s' of
                       (Failed e, s2) \<Rightarrow> (Inl e, s2)
                     | (PrivateList, s2) \<Rightarrow> (Inr private_summary, s2)
                     | (Collected results, s2) \<Rightarrow>
                         (Inr \<lparr>as_Private = False, as_TotalAchievements = 0, as_TotalPoints = 0,
                               as_Milestones = results, as_LatestAchievement = latest\<rparr>, s2))))"

section \<open>How the loop ends\<close>

lemma WrapProxyDial_is [simp]: "errors_is (WrapProxyDial e) x = errors_is e x"
  by (simp add: WrapProxyDial_def split: option.splits)

lemma wrapped_is [simp]: "errors_is (wrapped p e) x = errors_is e x" and wrapped_as [simp]: "errors_as (wrapped p e) = errors_as e"
  by (simp_all add: wrapped_def)

text \<open>No input error of the attempt carries the sentinel.\<close>

definition free_of :: "sentinel \<Rightarrow> attempt \<Rightarrow> bool" where
  "free_of x a \<longleftrightarrow> at_Ctx a \<noteq> Some x \<and> at_Done a \<noteq> Some x
     \<and> (case at_Token a of None \<Rightarrow> True | Some e \<Rightarrow> \<not> errors_is e x)
     \<and> (case at_Request a of None \<Rightarrow> True | Some e \<Rightarrow> \<not> errors_is e x)
     \<and> (case at_Do a of Inl e \<Rightarrow> \<not> errors_is e x
         | Inr resp \<Rightarrow> (case snd (rs_Body resp) of None \<Rightarrow> True | Some e \<Rightarrow> \<not> errors_is e x))"

definition wait_free_of :: "sentinel \<Rightarrow> 's CustomClient \<Rightarrow> bool" where
  "wait_free_of x c \<longleftrightarrow> (\<forall>ops. lc_rateLimiter c = Some ops \<longrightarrow>
     (\<forall>l e l'. lo_Wait ops ProviderLodestone l = (Some e, l') \<longrightarrow> \<not> errors_is e x))"

lemma wait_plain: "wait_free_of x c \<Longrightarrow> lc_rateLimiter c = Some ops \<Longrightarrow> lo_Wait ops ProviderLodestone l = (Some e, l') \<Longrightarrow> \<not> errors_is e x"
  unfolding wait_free_of_def by blast

lemma pause_provider_sent [simp]:
  "ls_sent (pause_provider c now d r s) = ls_sent s" "ls_slept (pause_provider c now d r s) = ls_slept s"
  by (simp_all add: pause_provider_def split: option.splits)

lemma pauseForChallenge_sent [simp]:
  "ls_sent (pauseForChallenge pt c a resp s) = ls_sent s" "ls_slept (pauseForChallenge pt c a resp s) = ls_slept s"
  by (simp_all add: pauseForChallenge_def)

lemmas iteration_defs = iteration_def on_failure_def on_response_def Let_def

text \<open>A retried iteration has sent one request, whose failure was ambiguous.\<close>

lemma iteration_Continue:
  assumes "iteration pt c url n a s = (Continue e, s')"
  shows "ls_sent s' = ls_sent s @ [url]"
    and "case at_Do a of Inl d \<Rightarrow> e = WrapProxyDial d \<and> \<not> is_proxy_failure e \<and> \<not> isTimeoutError (at_NetTimeout a) d
           | Inr resp \<Rightarrow> snd (rs_Body resp) = Some e"
    and "ls_slept s' = ls_slept s \<or> int n < lc_maxRetries c \<and> ls_slept s' = ls_slept s @ [jittered (at_Rand a) (backoff c n)]"
  using assms by (auto simp: iteration_defs split: option.splits prod.splits sum.splits if_splits)

text \<open>A returned answer belongs to the response of the iteration.\<close>

definition rejected :: "lodestone_response \<Rightarrow> bool" where
  "rejected resp \<longleftrightarrow> rs_Status resp = 429 \<or> rs_Status resp = 202 \<or> rs_Status resp = 403 \<and> isCloudflareChallenge resp (fst (rs_Body resp))"

lemma iteration_answer:
  assumes "iteration pt c url n a s = (Return b st e, s')" and "st \<noteq> 0 \<or> e = None"
  shows "\<exists>resp. at_Do a = Inr resp \<and> snd (rs_Body resp) = None \<and> rs_Status resp = st \<and> ls_sent s' = ls_sent s @ [url]
    \<and> ls_slept s' = ls_slept s \<and> (e = None \<longleftrightarrow> \<not> rejected resp) \<and> (e = None \<longrightarrow> b = fst (rs_Body resp))"
  using assms by (auto simp: iteration_defs rejected_def split: option.splits prod.splits sum.splits if_splits)

lemma iteration_error:
  assumes "iteration pt c url n a s = (Return b 0 (Some e), s')"
  shows "length (ls_sent s') \<le> Suc (length (ls_sent s)) \<and> ls_slept s' = ls_slept s"
  using assms by (auto simp: iteration_defs split: option.splits prod.splits sum.splits if_splits)

lemma iteration_plain:
  assumes "free_of x a" and "wait_free_of x c" and "iteration pt c url n a s = (v, s')"
  shows "case v of Return b st e \<Rightarrow> (case e of None \<Rightarrow> True | Some e \<Rightarrow> \<not> errors_is e x) | Continue e \<Rightarrow> \<not> errors_is e x"
  using assms
  by (auto simp: iteration_defs free_of_def http_from_def split: option.splits prod.splits sum.splits if_splits dest: wait_plain)

text \<open>The loop ends in an iteration that returns, or runs out of attempts; every iteration before has sent one request.\<close>

lemma loop_cases:
  assumes "request_loop pt c url env m n le s = ((b, st, e), s')"
  shows "(\<exists>k<m. \<exists>s1. iteration pt c url (n + k) (env (n + k)) s1 = (Return b st e, s')
            \<and> ls_sent s1 = ls_sent s @ replicate k url)
       \<or> (b = [] \<and> st = 0 \<and> ls_sent s' = ls_sent s @ replicate m url \<and> (\<exists>d. e = Some d))"
  using assms
proof (induction m arbitrary: n le s)
  case (Suc m)
  show ?case
  proof (cases "iteration pt c url n (env n) s")
    case (Pair v s1)
    show ?thesis
    proof (cases v)
      case (Return b' st' e')
      with Pair Suc.prems have "iteration pt c url (n + 0) (env (n + 0)) s = (Return b st e, s')" by simp
      then show ?thesis by (intro disjI1 exI [of _ 0]) auto
    next
      case (Continue d)
      with Pair Suc.prems have "request_loop pt c url env m (Suc n) (Some d) s1 = ((b, st, e), s')" by simp
      note ih = Suc.IH [OF this]
      have s1: "ls_sent s1 = ls_sent s @ [url]" using iteration_Continue(1) Pair Continue by blast
      from ih show ?thesis
      proof
        assume "\<exists>k<m. \<exists>s2. iteration pt c url (Suc n + k) (env (Suc n + k)) s2 = (Return b st e, s')
            \<and> ls_sent s2 = ls_sent s1 @ replicate k url"
        then obtain k s2 where "k < m" "iteration pt c url (n + Suc k) (env (n + Suc k)) s2 = (Return b st e, s')"
          "ls_sent s2 = ls_sent s1 @ replicate k url" by auto
        with s1 show ?thesis by (intro disjI1 exI [of _ "Suc k"]) auto
      qed (use s1 in auto)
    qed
  qed
qed auto

lemma loop_plain:
  assumes "\<And>k. free_of x (env k)" and "wait_free_of x c" and "case le of None \<Rightarrow> True | Some d \<Rightarrow> \<not> errors_is d x"
    and "request_loop pt c url env m n le s = ((b, st, Some e), s')"
  shows "\<not> errors_is e x"
  using assms(3,4)
proof (induction m arbitrary: n le s)
  case (Suc m)
  obtain v s1 where it: "iteration pt c url n (env n) s = (v, s1)" by (cases "iteration pt c url n (env n) s")
  note plain = iteration_plain [OF assms(1) [of n] assms(2) it]
  show ?case
  proof (cases v)
    case (Continue d)
    with Suc.IH [of "Some d" "Suc n" s1] Suc.prems(2) it plain show ?thesis by simp
  qed (use Suc.prems(2) it plain in simp)
qed (auto split: option.splits)

lemma doRequest_plain:
  assumes "\<And>k. free_of x (env k)" and "wait_free_of x c" and "doRequest pt c env url s = ((b, st, Some e), s')"
  shows "\<not> errors_is e x"
  using loop_plain [of x env c None] assms by (simp add: doRequest_def)

text \<open>An answer of the destination: the response of the last request sent, and whether it is a rejection.\<close>

lemma doRequest_answer:
  assumes "doRequest pt c env url s = ((b, st, e), s')" and "st \<noteq> 0 \<or> e = None"
  shows "\<exists>k resp s1. int k \<le> lc_maxRetries c \<and> at_Do (env k) = Inr resp \<and> snd (rs_Body resp) = None \<and> rs_Status resp = st
    \<and> ls_sent s' = ls_sent s @ replicate (Suc k) url \<and> (e = None \<longleftrightarrow> \<not> rejected resp) \<and> (e = None \<longrightarrow> b = fst (rs_Body resp))
    \<and> iteration pt c url k (env k) s1 = (Return b st e, s')"
proof -
  from loop_cases [OF assms(1) [unfolded doRequest_def]] assms(2) obtain k s1 where k: "k < nat (lc_maxRetries c + 1)"
    and it: "iteration pt c url k (env k) s1 = (Return b st e, s')" and s1: "ls_sent s1 = ls_sent s @ replicate k url"
    by auto
  from iteration_answer [OF it assms(2)] obtain resp where r: "at_Do (env k) = Inr resp" "snd (rs_Body resp) = None"
    "rs_Status resp = st" "ls_sent s' = ls_sent s1 @ [url]" "e = None \<longleftrightarrow> \<not> rejected resp" "e = None \<longrightarrow> b = fst (rs_Body resp)"
    by blast
  have "ls_sent s' = ls_sent s @ replicate (Suc k) url" using r(4) s1 by (simp add: replicate_append_same)
  moreover have "int k \<le> lc_maxRetries c" using k by linarith
  ultimately show ?thesis using r it by blast
qed

section \<open>Pauses\<close>

lemma ParseRetryAfter_pause: "0 < u \<Longrightarrow> 0 < pause_or u (ParseRetryAfter pt h t)"
  by (simp add: pause_or_def)

text \<open>How long a rejection with the status pauses the provider.\<close>

definition rejection_pause :: "(string \<Rightarrow> timestamp option) \<Rightarrow> attempt \<Rightarrow> lodestone_response \<Rightarrow> duration" where
  "rejection_pause pt a resp = pause_or (if rs_Status resp = 429 then rateLimitPause else challengePause)
     (ParseRetryAfter pt (rs_RetryAfter resp) (at_Now a))"

lemma rejection_pause_pos: "0 < rejection_pause pt a resp"
  unfolding rejection_pause_def
  by (rule ParseRetryAfter_pause) (simp add: rateLimitPause_def challengePause_def second_def)

lemma iteration_rejected:
  assumes "iteration pt c url n a s = (Return b st (Some e), s')" and "st \<noteq> 0" and "lc_rateLimiter c = Some ops"
  shows "\<exists>resp r l. at_Do a = Inr resp \<and> b = []
     \<and> ls_limiter s' = lo_Pause ops (at_PauseNow a) ProviderLodestone (rejection_pause pt a resp) r l
     \<and> errors_as e = Some \<lparr>ce_Kind = CheckTarget, ce_Reason = ''status '' @ show_int st @ (if st = 403 then '' challenge'' else []),
          ce_Challenge = (st \<noteq> 429), ce_RetryAfter = ParseRetryAfter pt (rs_RetryAfter resp) (if st = 429 then at_Now a else at_Now2 a)\<rparr>"
proof -
  have t: "show_int 429 = ''429''" "show_int 403 = ''403''" "show_int 202 = ''202''" by code_simp+
  from iteration_answer [OF assms(1)] assms(2) obtain resp where r: "at_Do a = Inr resp" by blast
  then have "b = [] \<and> (\<exists>r l. ls_limiter s' = lo_Pause ops (at_PauseNow a) ProviderLodestone (rejection_pause pt a resp) r l)
     \<and> errors_as e = Some \<lparr>ce_Kind = CheckTarget, ce_Reason = ''status '' @ show_int st @ (if st = 403 then '' challenge'' else []),
          ce_Challenge = (st \<noteq> 429), ce_RetryAfter = ParseRetryAfter pt (rs_RetryAfter resp) (if st = 429 then at_Now a else at_Now2 a)\<rparr>"
    using assms
    by (auto simp: iteration_defs pause_provider_def pauseForChallenge_def rejection_pause_def t
        split: option.splits prod.splits if_splits intro!: exI)
  with r show ?thesis by blast
qed

context provider_limiter
begin

text \<open>Whatever limiter the client has, a rejection makes the provider unavailable until the pause is over.\<close>

lemma rejection_pauses:
  assumes "iteration pt c url n a s = (Return b st (Some e), s')" and "st \<noteq> 0" and "lc_rateLimiter c = Some ops"
    and "lo_Pause ops = pause" and "0 \<le> at_PauseNow a" and "available t ProviderLodestone (ls_limiter s')"
  shows "\<exists>resp. at_Do a = Inr resp \<and> at_PauseNow a + rejection_pause pt a resp < t"
proof -
  from iteration_rejected [OF assms(1-3)] obtain resp r l where r: "at_Do a = Inr resp"
    "ls_limiter s' = pause (at_PauseNow a) ProviderLodestone (rejection_pause pt a resp) r l" unfolding assms(4) by blast
  have "0 \<le> at_PauseNow a + rejection_pause pt a resp" using assms(5) rejection_pause_pos [of pt a resp] by linarith
  from pause_same [OF this, of ProviderLodestone r l] assms(6) r show ?thesis
    by (auto simp: available_iff split: option.splits)
qed

end

section \<open>Retries\<close>

text \<open>A failure that a retry may cure: neither a dead proxy nor a timeout, or a body that broke off.\<close>

definition ambiguous :: "attempt \<Rightarrow> bool" where
  "ambiguous a \<longleftrightarrow> (case at_Do a of Inl e \<Rightarrow> \<not> is_proxy_failure (WrapProxyDial e) \<and> \<not> isTimeoutError (at_NetTimeout a) e
     | Inr resp \<Rightarrow> snd (rs_Body resp) \<noteq> None)"

lemma iteration_sent: "iteration pt c url n a s = (v, s') \<Longrightarrow> ls_sent s' = ls_sent s \<or> ls_sent s' = ls_sent s @ [url]"
  by (auto simp: iteration_defs split: option.splits prod.splits sum.splits if_splits)

lemma loop_sent:
  "request_loop pt c url env m n le s = (r, s') \<Longrightarrow>
     \<exists>k\<le>m. ls_sent s' = ls_sent s @ replicate k url \<and> (\<forall>j. Suc j < k \<longrightarrow> ambiguous (env (n + j)))"
proof (induction m arbitrary: n le s)
  case (Suc m)
  obtain v s1 where it: "iteration pt c url n (env n) s = (v, s1)" by (cases "iteration pt c url n (env n) s")
  show ?case
  proof (cases v)
    case (Return b st e)
    with it Suc.prems iteration_sent [OF it] show ?thesis by (auto intro: exI [of _ 0] exI [of _ 1])
  next
    case (Continue d)
    note c = iteration_Continue [OF it [unfolded Continue]]
    from Suc.prems it Continue have "request_loop pt c url env m (Suc n) (Some d) s1 = (r, s')" by simp
    from Suc.IH [OF this] obtain k where k: "k \<le> m" "ls_sent s' = ls_sent s1 @ replicate k url"
      "\<And>j. Suc j < k \<Longrightarrow> ambiguous (env (Suc n + j))" by blast
    have "ambiguous (env n)" using c(2) by (auto simp: ambiguous_def split: sum.splits)
    then have "ambiguous (env (n + j))" if "Suc j < Suc k" for j using that k(3) [of "j - 1"] by (cases j) auto
    with k c(1) show ?thesis by (intro exI [of _ "Suc k"]) auto
  qed
qed simp

lemma jittered_upper:
  assumes "0 \<le> d" and "0 \<le> r" and "r \<le> 1"
  shows "10 * jittered r d \<le> 11 * d"
proof (cases "d \<le> 0")
  case True
  with assms show ?thesis by (simp add: jittered_def)
next
  case False
  have "rat_of_int (jittered r d) \<le> of_int d * (9 / 10 + 2 / 10 * r)" using False by (simp add: jittered_def)
  also have "\<dots> \<le> of_int d * (11 / 10)" using assms by (intro mult_left_mono) auto
  finally have "rat_of_int (10 * jittered r d) \<le> of_int (11 * d)" by simp
  then show ?thesis by (simp only: of_int_le_iff)
qed

lemma backoff_exact:
  assumes "lc_backoffBase c = 500 * millisecond" and "n \<le> 30"
  shows "backoff c n = 500 * millisecond * 2 ^ n"
proof -
  define q where "q = (2 :: int) ^ n"
  have "(2 :: int) ^ n \<le> 2 ^ 30" using assms(2) by (intro power_increasing) auto
  then have "0 < q" "q \<le> 1073741824" by (simp_all add: q_def)
  then have "is_i64 q" "is_i64 (500 * millisecond * q)"
    by (auto simp: is_i64_def min_i64_def max_i64_def millisecond_def)
  then show ?thesis using assms(1) by (simp add: backoff_def i64_id q_def)
qed

lemma loop_slept:
  assumes c: "lc_backoffBase c = 500 * millisecond" "lc_maxRetries c \<le> 31" and r: "\<And>k. 0 \<le> at_Rand (env k) \<and> at_Rand (env k) \<le> 1"
    and "request_loop pt c url env m n le s = (x, s')"
  shows "\<exists>ds. ls_slept s' = ls_slept s @ ds \<and> sum_list ds + 550 * millisecond * 2 ^ n \<le> 550 * millisecond * 2 ^ max n (nat (lc_maxRetries c))"
  using assms(4)
proof (induction m arbitrary: n le s)
  case (Suc m)
  let ?u = "550 * millisecond" and ?R = "nat (lc_maxRetries c)"
  have mono: "(2 :: int) ^ n \<le> 2 ^ max n ?R" by (rule power_increasing) auto
  obtain v s1 where it: "iteration pt c url n (env n) s = (v, s1)" by (cases "iteration pt c url n (env n) s")
  show ?case
  proof (cases v)
    case (Return b st e)
    then have "ls_slept s1 = ls_slept s"
      using it iteration_answer [of pt c url n "env n" s b st e s1] iteration_error [of pt c url n "env n" s b _ s1] by (cases e; cases "st = 0") auto
    with Return it Suc.prems mono show ?thesis by (auto simp: millisecond_def)
  next
    case (Continue d)
    from Suc.prems it Continue have "request_loop pt c url env m (Suc n) (Some d) s1 = (x, s')" by simp
    from Suc.IH [OF this] obtain ds where ds: "ls_slept s' = ls_slept s1 @ ds"
      "sum_list ds + ?u * 2 ^ Suc n \<le> ?u * 2 ^ max (Suc n) ?R" by blast
    from iteration_Continue(3) [OF it [unfolded Continue]] show ?thesis
    proof
      assume "ls_slept s1 = ls_slept s"
      moreover have "?u * 2 ^ max (Suc n) ?R + ?u * 2 ^ n \<le> ?u * 2 ^ max n ?R + ?u * 2 ^ Suc n"
      proof (cases "?R \<le> n")
        case False
        then have "max (Suc n) ?R = max n ?R" by simp
        then show ?thesis by (simp add: millisecond_def)
      qed (simp add: max_def millisecond_def)
      ultimately show ?thesis using ds by (intro exI [of _ ds]) auto
    next
      assume sl: "int n < lc_maxRetries c \<and> ls_slept s1 = ls_slept s @ [jittered (at_Rand (env n)) (backoff c n)]"
      then have n: "n \<le> 30" "max (Suc n) ?R = max n ?R" using c(2) by auto
      have "10 * jittered (at_Rand (env n)) (backoff c n) \<le> 11 * (500 * millisecond * 2 ^ n)"
        using jittered_upper [of "backoff c n" "at_Rand (env n)"] r backoff_exact [OF c(1) n(1)] by (simp add: millisecond_def)
      then have "jittered (at_Rand (env n)) (backoff c n) \<le> ?u * 2 ^ n" by (simp add: millisecond_def)
      with sl ds n(2) show ?thesis by (intro exI [of _ "jittered (at_Rand (env n)) (backoff c n) # ds"]) auto
    qed
  qed
qed (auto simp: millisecond_def intro: power_increasing)

section \<open>Errors of the operations\<close>

lemma profile_error_plain: "parseCharacterProfile ord html i = Inl e \<Longrightarrow> \<not> errors_is e x"
  by (auto simp: parseCharacterProfile_def Let_def split: if_splits prod.splits)

lemma node_time_plain: "node_time missing row = Inl e \<Longrightarrow> \<not> errors_is e x"
  by (auto simp: node_time_def parse_epoch_def split: option.splits)

lemma latest_error_plain:
  assumes "\<And>h d. parse h = Inl d \<Longrightarrow> \<not> errors_is d x" and "extractLatestAchievement parse html = Inl e"
  shows "\<not> errors_is e x"
  using assms by (auto simp: extractLatestAchievement_def parse_id32_def split: sum.splits option.splits if_splits dest: node_time_plain)

lemma timestamp_error_plain:
  assumes "\<And>h d. parse h = Inl d \<Longrightarrow> \<not> errors_is d x" and "extractAchievementTimestamp parse html = Inl e"
  shows "\<not> errors_is e x"
  using assms by (auto simp: extractAchievementTimestamp_def split: sum.splits option.splits dest: node_time_plain)

lemma single_error_plain:
  assumes "\<And>h d. parse h = Inl d \<Longrightarrow> \<not> errors_is d x" and "\<And>k. free_of x (env k)" and "wait_free_of x c"
    and "x \<noteq> ErrAchievementsPrivate" and "checkSingleAchievement pt parse c env i k s = (Inl e, s')"
  shows "\<not> errors_is e x"
  using assms(4,5) timestamp_error_plain [OF assms(1)] doRequest_plain [OF assms(2,3)]
  by (auto simp: checkSingleAchievement_def Let_def split: prod.splits option.splits if_splits sum.splits)

lemma milestones_error_plain:
  assumes "\<And>h d. parse h = Inl d \<Longrightarrow> \<not> errors_is d x" and "\<And>n k. free_of x (env n k)" and "wait_free_of x c"
    and "x \<noteq> ErrAchievementsPrivate" and "check_milestones pt parse c env i n ks rs s = (Failed e, s')"
  shows "\<not> errors_is e x"
  using assms(5)
proof (induction ks arbitrary: n rs s)
  case (Cons k ks)
  then show ?case using single_error_plain [OF assms(1) assms(2) [of n] assms(3,4), where pt = pt and i = i and k = k and s = s]
    by (auto split: prod.splits sum.splits if_splits)
qed simp

text \<open>A page that an attempt has received.\<close>

definition answered :: "attempt \<Rightarrow> string \<Rightarrow> bool" where
  "answered a html \<longleftrightarrow> (\<exists>resp. at_Do a = Inr resp \<and> rs_Body resp = (html, None) \<and> rs_Status resp = 200)"

text \<open>A checked achievement: the page is the answer to the last request for its address.\<close>

lemma single_result:
  assumes "checkSingleAchievement pt parse c env i k s = (Inr r, s')"
  shows "\<exists>t html. ar_AchievementID r = k \<and> answered (env t) html \<and> ls_sent s' = ls_sent s @ replicate (Suc t) (detail_url i k)
     \<and> (ar_Earned r \<longleftrightarrow> str_contains html completeMarker)
     \<and> (ar_Earned r \<longrightarrow> extractAchievementTimestamp parse html = Inr (ar_EarnedAt r))"
proof -
  obtain html st e s1 where d: "doRequest pt c env (detail_url i k) s = ((html, st, e), s1)" by (metis prod_cases3 surj_pair)
  with assms have e: "e = None" "st = 200" "s1 = s'"
    by (auto simp: checkSingleAchievement_def Let_def split: option.splits if_splits sum.splits)
  from doRequest_answer [OF d] e obtain t where "answered (env t) html" "ls_sent s' = ls_sent s @ replicate (Suc t) (detail_url i k)"
    unfolding answered_def by (metis prod.collapse)
  with assms d e show ?thesis
    by (auto simp: checkSingleAchievement_def Let_def split: if_splits sum.splits)
qed

text \<open>The loop: \<open>ts\<close> are the numbers of the repeated requests per achievement that was looked at.\<close>

definition earned_prefix :: "(string \<Rightarrow> html_node result) \<Rightarrow> (nat \<Rightarrow> nat \<Rightarrow> attempt) \<Rightarrow> nat \<Rightarrow> u32 list \<Rightarrow> nat list \<Rightarrow> AchievementResult list \<Rightarrow> bool" where
  "earned_prefix parse env n ks ts ms \<longleftrightarrow> length ms \<le> length ks \<and> map ar_AchievementID ms = take (length ms) ks
    \<and> length ts = (if length ms < length ks then Suc (length ms) else length ms)
    \<and> (\<forall>j<length ms. ar_Earned (ms ! j) \<and> (\<exists>html. answered (env (n + j) (ts ! j)) html \<and> str_contains html completeMarker
         \<and> extractAchievementTimestamp parse html = Inr (ar_EarnedAt (ms ! j))))
    \<and> (length ms < length ks \<longrightarrow> (\<exists>html. answered (env (n + length ms) (ts ! length ms)) html \<and> \<not> str_contains html completeMarker))"

lemma earned_prefix_Cons:
  assumes "earned_prefix parse env (Suc n) ks ts ms" and "ar_AchievementID r = k" and "ar_Earned r"
    and "answered (env n t) html" "str_contains html completeMarker" "extractAchievementTimestamp parse html = Inr (ar_EarnedAt r)"
  shows "earned_prefix parse env n (k # ks) (t # ts) (r # ms)"
proof -
  have "ar_Earned ((r # ms) ! j) \<and> (\<exists>html. answered (env (n + j) ((t # ts) ! j)) html \<and> str_contains html completeMarker
      \<and> extractAchievementTimestamp parse html = Inr (ar_EarnedAt ((r # ms) ! j)))" if "j < length (r # ms)" for j
    using that assms by (cases j) (auto simp: earned_prefix_def)
  with assms(1,2) show ?thesis unfolding earned_prefix_def by auto
qed

lemma milestones_prefix:
  assumes "check_milestones pt parse c env i n ks rs s = (Collected out, s')"
  shows "\<exists>ms ts. out = rs @ ms \<and> earned_prefix parse env n ks ts ms
    \<and> ls_sent s' = ls_sent s @ concat (map2 (\<lambda>t k. replicate (Suc t) (detail_url i k)) ts ks)"
  using assms
proof (induction ks arbitrary: n rs s)
  case Nil
  then show ?case by (auto simp: earned_prefix_def)
next
  case (Cons k ks)
  then obtain r s1 where r: "checkSingleAchievement pt parse c (env n) i k s = (Inr r, s1)"
    by (auto split: prod.splits sum.splits if_splits)
  from single_result [OF r] obtain t html where one: "ar_AchievementID r = k" "answered (env n t) html"
    "ls_sent s1 = ls_sent s @ replicate (Suc t) (detail_url i k)" "ar_Earned r \<longleftrightarrow> str_contains html completeMarker"
    "ar_Earned r \<longrightarrow> extractAchievementTimestamp parse html = Inr (ar_EarnedAt r)" by blast
  show ?case
  proof (cases "ar_Earned r")
    case True
    with Cons.prems r have "check_milestones pt parse c env i (Suc n) ks (rs @ [r]) s1 = (Collected out, s')" by simp
    from Cons.IH [OF this] obtain ms ts where ms: "out = rs @ r # ms" "earned_prefix parse env (Suc n) ks ts ms"
      "ls_sent s' = ls_sent s1 @ concat (map2 (\<lambda>t k. replicate (Suc t) (detail_url i k)) ts ks)" by auto
    from earned_prefix_Cons [OF ms(2) one(1) True one(2)] True one ms show ?thesis
      by (intro exI [of _ "r # ms"] exI [of _ "t # ts"]) simp
  next
    case False
    with Cons.prems r one show ?thesis
      by (intro exI [of _ "[]"] exI [of _ "[t]"]) (auto simp: earned_prefix_def)
  qed
qed

section \<open>Profiles\<close>

lemma job_entry_wf:
  "job_entry i h = Some j \<Longrightarrow> cj_CharacterID j = i \<and> map_of lodestoneJobIDs (cj_Name j) = Some (cj_ClassJobID j) \<and> cj_ExpLevel j = 0"
  by (auto simp: job_entry_def Let_def split: option.splits if_splits)

lemma job_entries_wf:
  "j \<in> set (job_entries i h) \<Longrightarrow> cj_CharacterID j = i \<and> map_of lodestoneJobIDs (cj_Name j) = Some (cj_ClassJobID j) \<and> cj_ExpLevel j = 0"
proof (induction i h rule: job_entries.induct)
  case (1 i h)
  note eq = job_entries.simps [of i h]
  from 1(2) obtain a b where ab: "str_index h ''<li>'' = Some a" "str_index (drop a h) ''</li>'' = Some b"
    by (cases "str_index h ''<li>''"; cases "str_index (drop (the (str_index h ''<li>'')) h) ''</li>''") (simp_all add: eq)
  from 1(2) consider "job_entry i (take b (drop a h)) = Some j" | "j \<in> set (job_entries i (drop (a + b + 1) h))"
    by (cases "job_entry i (take b (drop a h))") (auto simp: eq ab)
  then show ?case
  proof cases
    case 1
    then show ?thesis by (rule job_entry_wf)
  next
    case 2
    with 1(1) [OF ab] show ?thesis by simp
  qed
qed

lemma find_run_digits: "find_run pre P post s = Some r \<Longrightarrow> r \<noteq> [] \<and> list_all P r"
proof (induction s)
  case Nil
  then show ?case by (simp add: find_run.simps [of pre P post "[]"] split: if_splits)
next
  case (Cons x s)
  let ?t = "takeWhile P (drop (length pre) (x # s))"
  let ?c = "is_prefix pre (x # s) \<and> ?t \<noteq> [] \<and> is_prefix post (dropWhile P (drop (length pre) (x # s)))"
  have eq: "find_run pre P post (x # s) = (if ?c then Some ?t else find_run pre P post s)"
    by (subst find_run.simps) (simp only: list.case)
  show ?case
  proof (cases ?c)
    case True
    then have "r = ?t" "?t \<noteq> []" using Cons.prems unfolding eq by simp_all
    moreover have "list_all P ?t" using set_takeWhileD [of _ P "drop (length pre) (x # s)"] by (simp add: list_all_iff)
    ultimately show ?thesis by metis
  next
    case False
    then have "find_run pre P post s = Some r" using Cons.prems unfolding eq by (simp only: if_False)
    then show ?thesis by (rule Cons.IH)
  qed
qed

section \<open>Missing characters\<close>

lemma FetchCharacter_missing:
  assumes "\<And>k. free_of ErrCharacterNotFound (env k)" and "wait_free_of ErrCharacterNotFound c"
    and "FetchCharacter pt ord c env i s = (Inl e, s')" and "errors_is e ErrCharacterNotFound"
  shows "\<exists>k resp. int k \<le> lc_maxRetries c \<and> at_Do (env k) = Inr resp \<and> snd (rs_Body resp) = None
     \<and> ls_sent s' = ls_sent s @ replicate (Suc k) (character_url i)
     \<and> (rs_Status resp = 404 \<or> rs_Status resp = 403 \<and> \<not> isCloudflareChallenge resp (fst (rs_Body resp)))"
proof -
  obtain b st x l where d: "doRequest pt c env (character_url i) s = ((b, st, x), l)" by (metis prod_cases3 surj_pair)
  have "\<not> errors_is d ErrCharacterNotFound" if "x = Some d" for d
    using doRequest_plain [where env = env, OF assms(1,2)] \<open>doRequest _ _ _ _ _ = _\<close> that by blast
  with assms(3,4) d have "x = None \<and> l = s' \<and> (st = 404 \<or> st = 403)"
    by (auto simp: FetchCharacter_def split: option.splits if_splits sum.splits dest: profile_error_plain)
  with doRequest_answer [OF d] show ?thesis unfolding rejected_def by metis
qed

lemma FetchAchievements_missing:
  assumes "\<And>n k. free_of ErrCharacterNotFound (env n k)" and "wait_free_of ErrCharacterNotFound c"
    and "\<And>h d. parse h = Inl d \<Longrightarrow> \<not> errors_is d ErrCharacterNotFound"
    and "FetchAchievements pt parse c env i ids s = (Inl e, s')" and "errors_is e ErrCharacterNotFound"
  shows "\<exists>k resp. int k \<le> lc_maxRetries c \<and> at_Do (env 0 k) = Inr resp \<and> snd (rs_Body resp) = None
     \<and> ls_sent s' = ls_sent s @ replicate (Suc k) (character_url i @ ''achievement/'') \<and> rs_Status resp = 404"
proof -
  obtain b st x l where d: "doRequest pt c (env 0) (character_url i @ ''achievement/'') s = ((b, st, x), l)"
    by (metis prod_cases3 surj_pair)
  have "\<not> errors_is d ErrCharacterNotFound" if "x = Some d" for d
    using doRequest_plain [of ErrCharacterNotFound "env 0" c] assms(1,2) \<open>doRequest _ _ _ _ _ = _\<close> that by blast
  moreover have "\<not> errors_is d ErrCharacterNotFound" if "extractLatestAchievement parse b = Inl d" for d
    using latest_error_plain [of parse ErrCharacterNotFound b d] assms(3) that by blast
  moreover have "\<not> errors_is d ErrCharacterNotFound" if "check_milestones pt parse c env i 1 ids [] l = (Failed d, l')" for d l'
    using milestones_error_plain [of parse ErrCharacterNotFound env c] assms(1-3) that by blast
  ultimately have "x = None \<and> l = s' \<and> st = 404"
    using assms(4,5) d by (auto simp: FetchAchievements_def split: option.splits if_splits sum.splits prod.splits milestones.splits)
  with doRequest_answer [OF d] show ?thesis by metis
qed

section \<open>Ports\<close>

text \<open>The Lodestone side of the census ports, provided by a client whose state is a part of the state of the ports.\<close>

definition lodestone_ports :: "(string \<Rightarrow> timestamp option) \<Rightarrow> entity_order \<Rightarrow> (string \<Rightarrow> html_node result) \<Rightarrow> 'l CustomClient
    \<Rightarrow> ('s \<Rightarrow> nat \<Rightarrow> nat \<Rightarrow> attempt) \<Rightarrow> ('s \<Rightarrow> 'l client_state) \<Rightarrow> ('l client_state \<Rightarrow> 's \<Rightarrow> 's) \<Rightarrow> 's census_ports \<Rightarrow> 's census_ports" where
  "lodestone_ports pt ord parse c env get put ports = ports
     \<lparr>pt_FetchCharacter := \<lambda>i s. (let (r, l) = FetchCharacter pt ord c (env s 0) i (get s) in (r, put l s)),
      pt_FetchAchievements := \<lambda>i ids s. (let (r, l) = FetchAchievements pt parse c (env s) i ids (get s) in (map_sum id Some r, put l s))\<rparr>"

lemma FetchCharacter_error:
  "doRequest pt c env (character_url i) s = ((b, st, Some e), s') \<Longrightarrow>
     FetchCharacter pt ord c env i s = (Inl (wrapped (''fetch character '' @ show_u32 i) e), s')"
  by (simp add: FetchCharacter_def)

section \<open>Concrete clients\<close>

definition answer_with :: "int \<Rightarrow> string \<Rightarrow> attempt" where
  "answer_with status body = \<lparr>at_Ctx = None, at_Token = None, at_Request = None,
     at_Do = Inr \<lparr>rs_Status = status, rs_RetryAfter = [], rs_Body = (body, None), rs_CfMitigated = []\<rparr>,
     at_NetTimeout = None, at_Rand = 0, at_Done = None, at_Now = 1000, at_PauseNow = 2000, at_Now2 = 3000\<rparr>"

definition fail_with :: "err \<Rightarrow> attempt" where
  "fail_with e = (answer_with 200 [])\<lparr>at_Do := Inl e, at_NetTimeout := Some False\<rparr>"

definition shared_client :: "int \<Rightarrow> limiter CustomClient" where
  "shared_client retries = \<lparr>lc_rate = 1, lc_maxRetries = retries, lc_backoffBase = 500 * millisecond,
     lc_rateLimiter = Some \<lparr>lo_Wait = \<lambda>p l. (None, l), lo_Pause = Pause\<rparr>, lc_proxyURL = []\<rparr>"

definition idle :: "limiter client_state" where
  "idle = \<lparr>ls_limiter = new_limiter, ls_sent = [], ls_slept = []\<rparr>"

definition detail_tree :: html_node where
  "detail_tree = HtmlNode ElementNode ''div'' [(''class'', ''row entry__achievement__view--complete'')]
     [HtmlNode ElementNode ''time'' [(''class'', ''entry__activity__time'')] [HtmlNode TextNode ''ldst_strftime(17, 1)'' [] []]]"

definition detail_pages :: "nat \<Rightarrow> nat \<Rightarrow> attempt" where
  "detail_pages n k = answer_with 200 (if n = 1 then completeMarker else [])"

lemma concrete_free: "free_of x (answer_with st b)" "wait_free_of x (shared_client r)"
  by (simp_all add: free_of_def answer_with_def wait_free_of_def shared_client_def)

section \<open>Properties\<close>

text \<open>C6: A character counts as missing only after an answer that says so: FetchCharacter fails with ErrCharacterNotFound only when
  the last request it sent was answered with a complete 404, or with a 403 that shows no sign of a Cloudflare block; FetchAchievements
  only for a 404 of the achievement list. A rejected, timed out or broken request never has this result. The errors of the network, of
  the limiters and of the HTML parser are assumed not to carry the sentinel.\<close>

theorem missing_only_when_answered:
  assumes "\<And>n k. free_of ErrCharacterNotFound (env n k)" and "wait_free_of ErrCharacterNotFound c"
    and "\<And>h d. parse h = Inl d \<Longrightarrow> \<not> errors_is d ErrCharacterNotFound"
  shows "(FetchCharacter pt ord c (env 0) i s = (Inl e, s') \<and> errors_is e ErrCharacterNotFound \<longrightarrow>
      (\<exists>k resp. int k \<le> lc_maxRetries c \<and> at_Do (env 0 k) = Inr resp \<and> snd (rs_Body resp) = None
         \<and> ls_sent s' = ls_sent s @ replicate (Suc k) (character_url i)
         \<and> (rs_Status resp = 404 \<or> rs_Status resp = 403 \<and> \<not> isCloudflareChallenge resp (fst (rs_Body resp)))))
    \<and> (FetchAchievements pt parse c env i ids s = (Inl e, s') \<and> errors_is e ErrCharacterNotFound \<longrightarrow>
      (\<exists>k resp. int k \<le> lc_maxRetries c \<and> at_Do (env 0 k) = Inr resp \<and> snd (rs_Body resp) = None
         \<and> ls_sent s' = ls_sent s @ replicate (Suc k) (character_url i @ ''achievement/'') \<and> rs_Status resp = 404))"
  using FetchCharacter_missing [where env = "env 0", OF assms(1,2)] FetchAchievements_missing [where env = env and parse = parse, OF assms]
  by (intro conjI impI; elim conjE) blast+

theorem missing_only_when_answered_witness:
  "let (r, s') = FetchCharacter (\<lambda>_. None) (\<lambda>_. entityMap) (shared_client 2) (\<lambda>k. answer_with 404 []) 7 idle
   in \<exists>e k. r = Inl e \<and> errors_is e ErrCharacterNotFound \<and> k \<le> 2 \<and> ls_sent s' = replicate (Suc k) (character_url 7)"
proof -
  let ?f = "FetchCharacter (\<lambda>_. None) (\<lambda>_. entityMap) (shared_client 2) (\<lambda>k. answer_with 404 []) 7 idle"
  obtain s' where f: "?f = (Inl (ESent ErrCharacterNotFound), s')"
    by (simp add: FetchCharacter_def doRequest_def shared_client_def answer_with_def idle_def iteration_defs eval_nat_numeral)
  have "\<exists>k. int k \<le> lc_maxRetries (shared_client 2) \<and> ls_sent s' = ls_sent idle @ replicate (Suc k) (character_url 7)"
    using missing_only_when_answered [of "\<lambda>_ _. answer_with 404 []" "shared_client 2" "\<lambda>_. Inl (EText [])", THEN conjunct1] f concrete_free
    by fastforce
  with f show ?thesis by (auto simp: idle_def shared_client_def)
qed

text \<open>C7: A rejection pauses the provider and is reported with its hint. When doRequest fails with a status, the last request sent
  was answered with 429, with 202 or with a Cloudflare block; the error is a target error that carries the Retry-After hint and tells
  a challenge from a rate limit; and with either limiter the Lodestone is not available before the pause is over, which is the hint or
  else 30 seconds for a 429 and 5 seconds for a challenge.\<close>

theorem rejection_pauses_provider:
  assumes "doRequest pt c env url s = ((b, st, Some e), s')" and "st \<noteq> 0" and "lc_rateLimiter c = Some ops"
    and "lo_Pause ops = Pause \<or> lo_Pause ops = Proxy_Pause" and "\<And>k. 0 \<le> at_PauseNow (env k)"
  shows "\<exists>k resp. at_Do (env k) = Inr resp \<and> ls_sent s' = ls_sent s @ replicate (Suc k) url \<and> rs_Status resp = st \<and> rejected resp
    \<and> (\<exists>ce. errors_as e = Some ce \<and> ce_Kind ce = CheckTarget \<and> ce_Challenge ce = (st \<noteq> 429)
         \<and> ce_RetryAfter ce = ParseRetryAfter pt (rs_RetryAfter resp) (if st = 429 then at_Now (env k) else at_Now2 (env k)))
    \<and> (let until = at_PauseNow (env k) + pause_or (if st = 429 then rateLimitPause else challengePause)
                     (ParseRetryAfter pt (rs_RetryAfter resp) (at_Now (env k)))
       in \<forall>t\<le>until. \<not> IsAvailable t ProviderLodestone (ls_limiter s') \<and> \<not> Proxy_IsAvailable t ProviderLodestone (ls_limiter s'))"
proof -
  from doRequest_answer [OF assms(1)] assms(2) obtain k resp s1 where k: "at_Do (env k) = Inr resp" "rs_Status resp = st"
    "ls_sent s' = ls_sent s @ replicate (Suc k) url" "rejected resp" and it: "iteration pt c url k (env k) s1 = (Return b st (Some e), s')" by blast
  have same: "Proxy_IsAvailable t p l = IsAvailable t p l" for t p l by (simp add: Proxy_IsAvailable_def IsAvailable_def)
  have "at_PauseNow (env k) + rejection_pause pt (env k) resp < t" if "IsAvailable t ProviderLodestone (ls_limiter s')" for t
    using assms(4) shared.rejection_pauses [OF it assms(2,3) _ assms(5) that]
      local_limiter.rejection_pauses [OF it assms(2,3) _ assms(5), of t] that k(1) by (auto simp: same)
  then have "\<forall>t\<le>at_PauseNow (env k) + rejection_pause pt (env k) resp. \<not> IsAvailable t ProviderLodestone (ls_limiter s')" by fastforce
  moreover from iteration_rejected [OF it assms(2,3)] k(1) have "\<exists>ce. errors_as e = Some ce \<and> ce_Kind ce = CheckTarget
    \<and> ce_Challenge ce = (st \<noteq> 429) \<and> ce_RetryAfter ce = ParseRetryAfter pt (rs_RetryAfter resp) (if st = 429 then at_Now (env k) else at_Now2 (env k))"
    by auto
  ultimately show ?thesis using k by (intro exI [of _ k] exI [of _ resp]) (simp add: rejection_pause_def Let_def same)
qed

theorem rejection_pauses_provider_witness:
  "\<not> IsAvailable 30000002000 ProviderLodestone
     (ls_limiter (snd (doRequest (\<lambda>_. None) (shared_client 2) (\<lambda>k. answer_with 429 []) ''u'' idle)))"
proof -
  let ?d = "doRequest (\<lambda>_. None) (shared_client 2) (\<lambda>k. answer_with 429 []) ''u'' idle"
  have d: "fst (snd (fst ?d)) = 429" "snd (snd (fst ?d)) \<noteq> None" by code_simp+
  then obtain b e l where D: "?d = ((b, 429, Some e), l)" by (metis prod.collapse not_Some_eq)
  obtain ops where o: "lc_rateLimiter (shared_client 2) = Some ops" "lo_Pause ops = Pause" by (simp add: shared_client_def)
  have hint: "ParseRetryAfter (\<lambda>_. None) [] t = 0" for t by (simp add: ParseRetryAfter_def)
  from rejection_pauses_provider [OF D _ o(1)] o(2)
  have "\<forall>t\<le>2000 + rateLimitPause. \<not> IsAvailable t ProviderLodestone (ls_limiter l)"
    by (auto simp: answer_with_def hint pause_or_def Let_def)
  with D show ?thesis by (simp add: rateLimitPause_def second_def)
qed

text \<open>Retries are bounded and only follow ambiguous failures: doRequest sends at most maxRetries + 1 requests, retries only
  after a failure that is neither a dead proxy nor a timeout or after a body that broke off, and its backoffs add up to at most
  550 ms times 2 to the number of retries less one (up to 31 retries, for the base of NewCustomClient and the jitter's range).\<close>

lemma request_budget:
  assumes "doRequest pt c env url s = (r, s')" and "lc_backoffBase c = 500 * millisecond"
    and "0 \<le> lc_maxRetries c" and "lc_maxRetries c \<le> 31" and "\<And>k. 0 \<le> at_Rand (env k) \<and> at_Rand (env k) \<le> 1"
  shows "\<exists>k ds. int k \<le> lc_maxRetries c + 1 \<and> ls_sent s' = ls_sent s @ replicate k url
    \<and> (\<forall>j. Suc j < k \<longrightarrow> ambiguous (env j))
    \<and> ls_slept s' = ls_slept s @ ds \<and> sum_list ds \<le> 550 * millisecond * (2 ^ nat (lc_maxRetries c) - 1)"
proof -
  note loop = assms(1) [unfolded doRequest_def]
  from loop_sent [OF loop] obtain k where k: "k \<le> nat (lc_maxRetries c + 1)" "ls_sent s' = ls_sent s @ replicate k url"
    "\<forall>j. Suc j < k \<longrightarrow> ambiguous (env j)" by auto
  from loop_slept [OF assms(2,4,5) loop] obtain ds where "ls_slept s' = ls_slept s @ ds"
    "sum_list ds \<le> 550 * millisecond * (2 ^ nat (lc_maxRetries c) - 1)" by (auto simp: right_diff_distrib)
  with k assms(3) show ?thesis by (intro exI [of _ k] exI [of _ ds]) auto
qed

text \<open>C29: The milestones of a character are the earned prefix of the ids asked for: a summary that is not private lists the ids in
  order, each earned according to the page that answered the last request for its own detail address, and with the time of that page's
  completed row; when the list stops short, the answer of the next detail address lacks the completion marker. The requests sent are
  those for the character's achievement list, and then for one detail address per id looked at, each repeated as often as it was tried.\<close>

theorem milestones_are_earned_prefix:
  assumes "FetchAchievements pt parse c env i ids s = (Inr summary, s')" and "\<not> as_Private summary"
  shows "let ms = as_Milestones summary; k = length ms;
      address = ''https://na.finalfantasyxiv.com/lodestone/character/'' @ show_u32 i @ ''/achievement/''
    in k \<le> length ids \<and> map ar_AchievementID ms = take k ids
    \<and> (\<exists>t0 ts. length ts = (if k < length ids then Suc k else k)
        \<and> ls_sent s' = ls_sent s @ replicate (Suc t0) address
            @ concat (map2 (\<lambda>t a. replicate (Suc t) (address @ ''detail/'' @ show_u32 a @ ''/'')) ts ids)
        \<and> (\<forall>j<k. ar_Earned (ms ! j) \<and> (\<exists>html. answered (env (Suc j) (ts ! j)) html \<and> str_contains html completeMarker
             \<and> extractAchievementTimestamp parse html = Inr (ar_EarnedAt (ms ! j))))
        \<and> (k < length ids \<longrightarrow> (\<exists>html. answered (env (Suc k) (ts ! k)) html \<and> \<not> str_contains html completeMarker)))"
proof -
  obtain b st s1 where d: "doRequest pt c (env 0) (character_url i @ ''achievement/'') s = ((b, st, None), s1)"
    and "check_milestones pt parse c env i 1 ids [] s1 = (Collected (as_Milestones summary), s')"
    using assms by (auto simp: FetchAchievements_def private_summary_def split: prod.splits option.splits if_splits sum.splits milestones.splits)
  from milestones_prefix [OF this(2)] obtain ts where ts: "earned_prefix parse env 1 ids ts (as_Milestones summary)"
    "ls_sent s' = ls_sent s1 @ concat (map2 (\<lambda>t k. replicate (Suc t) (detail_url i k)) ts ids)" by auto
  from doRequest_answer [OF d] obtain t0 where "ls_sent s1 = ls_sent s @ replicate (Suc t0) (character_url i @ ''achievement/'')" by blast
  with ts show ?thesis unfolding Let_def earned_prefix_def detail_url_def character_url_def
    by (intro conjI exI [of _ t0] exI [of _ ts]) simp_all
qed

theorem milestones_are_earned_prefix_witness:
  "\<exists>sm s' t0 t1 t2. FetchAchievements (\<lambda>_. None) (\<lambda>h. Inr (if h = [] then HtmlNode OtherNode [] [] [] else detail_tree))
            (shared_client 0) detail_pages 7 [1, 2, 3] idle = (Inr sm, s')
     \<and> map ar_AchievementID (as_Milestones sm) = [1] \<and> ar_Earned (as_Milestones sm ! 0)
     \<and> ls_sent s' = replicate (Suc t0) ''https://na.finalfantasyxiv.com/lodestone/character/7/achievement/''
         @ replicate (Suc t1) ''https://na.finalfantasyxiv.com/lodestone/character/7/achievement/detail/1/''
         @ replicate (Suc t2) ''https://na.finalfantasyxiv.com/lodestone/character/7/achievement/detail/2/''"
proof -
  let ?f = "FetchAchievements (\<lambda>_. None) (\<lambda>h. Inr (if h = [] then HtmlNode OtherNode [] [] [] else detail_tree))
            (shared_client 0) detail_pages 7 [1, 2, 3] idle"
  have f: "case fst ?f of Inl e \<Rightarrow> False | Inr sm \<Rightarrow> \<not> as_Private sm \<and> length (as_Milestones sm) = 1" by code_simp
  then obtain sm l where D: "?f = (Inr sm, l)" and p: "\<not> as_Private sm" "length (as_Milestones sm) = 1"
    by (cases ?f) (auto split: sum.splits)
  let ?address = "''https://na.finalfantasyxiv.com/lodestone/character/'' @ show_u32 7 @ ''/achievement/''"
  note m = milestones_are_earned_prefix [OF D p(1), unfolded Let_def p(2)]
  from m obtain t0 and ts :: "nat list" where ts: "length ts = (if 1 < length [1, 2, 3 :: u32] then Suc 1 else 1)"
      "ls_sent l = ls_sent idle @ replicate (Suc t0) ?address
         @ concat (map2 (\<lambda>t a. replicate (Suc t) (?address @ ''detail/'' @ show_u32 a @ ''/'')) ts [1, 2, 3])" by blast
  have r: "map ar_AchievementID (as_Milestones sm) = take 1 [1, 2, 3]" "ar_Earned (as_Milestones sm ! 0)" using m by blast+
  have u: "show_u32 7 = ''7''" "show_u32 1 = ''1''" "show_u32 2 = ''2''" by code_simp+
  from ts(1) obtain t1 t2 where "ts = [t1, t2]" by (auto simp: length_Suc_conv)
  with ts(2) r D show ?thesis by (intro exI [of _ sm] exI [of _ l] exI [of _ t0] exI [of _ t1] exI [of _ t2]) (simp add: u idle_def)
qed

text \<open>C30: A parsed profile is well formed: it has the id asked for, a non-empty name, a gender of 0, 1 or 2, a free company id that is
  empty or a number, and only jobs of the job table under their own ids.\<close>

theorem profile_wellformed:
  assumes "parseCharacterProfile ord html i = Inr p"
  shows "cp_ID p = i \<and> cp_Name p \<noteq> [] \<and> cp_Gender p \<le> 2 \<and> list_all is_digit (cp_FreeCompanyID p)
    \<and> (\<forall>j\<in>set (cp_ClassJobs p). cj_CharacterID j = i \<and> map_of lodestoneJobIDs (cj_Name j) = Some (cj_ClassJobID j))"
proof -
  have g: "fst (race_block t) \<le> 2" for t
    by (auto simp: race_block_def Let_def split: option.splits if_splits)
  have f: "list_all is_digit (fst (free_company ord html))"
    by (auto simp: free_company_def Let_def fcIDRe_def split: option.splits dest: find_run_digits)
  have j: "cj_CharacterID j = i \<and> map_of lodestoneJobIDs (cj_Name j) = Some (cj_ClassJobID j)" if "j \<in> set (parseClassJobs html i)" for j
    using that by (auto simp: parseClassJobs_def split: option.splits dest: job_entries_wf)
  have "cp_Gender p = (let ts = extractAllTextBetween ord html (marker ''character-block__name'') ''</p>''
        in if length ts \<ge> 1 then fst (race_block (ts ! 0)) else 0) \<and> cp_FreeCompanyID p = fst (free_company ord html)
      \<and> cp_ClassJobs p = parseClassJobs html i \<and> cp_ID p = i \<and> cp_Name p \<noteq> []"
    using assms by (auto simp: parseCharacterProfile_def Let_def split: if_splits prod.splits)
  with g f j show ?thesis by (simp add: Let_def)
qed

theorem profile_wellformed_witness:
  "\<exists>p. parseCharacterProfile (\<lambda>_. entityMap) (''<p '' @ marker ''frame__chara__name'' @ ''>Y&#39;shtola Rhul</p>'') 9 = Inr p
     \<and> cp_ID p = 9 \<and> cp_Name p = ''Y'' @ [CHR 0x27] @ ''shtola Rhul'' \<and> list_all is_digit (cp_FreeCompanyID p)"
proof -
  let ?p = "parseCharacterProfile (\<lambda>_. entityMap) (''<p '' @ marker ''frame__chara__name'' @ ''>Y&#39;shtola Rhul</p>'') 9"
  have "case ?p of Inl e \<Rightarrow> False | Inr p \<Rightarrow> cp_Name p = ''Y'' @ [CHR 0x27] @ ''shtola Rhul''" by code_simp
  then obtain p where p: "?p = Inr p" "cp_Name p = ''Y'' @ [CHR 0x27] @ ''shtola Rhul''" by (auto split: sum.splits)
  with profile_wellformed [OF p(1)] show ?thesis by auto
qed

text \<open>C8: A failed fetch settles nothing: when the request for a profile fails, by a block, a timeout or a lost proxy, the
  character census neither deletes nor writes the character and the sweep does not count the id as vacant; both report an error that
  keeps the classification of the request's error.\<close>

theorem failed_fetch_settles_nothing:
  assumes "doRequest pt c (env s 0) (character_url i) (get s) = ((b, st, Some e), l)"
    and "\<And>k. free_of ErrCharacterNotFound (env s 0 k)" and "wait_free_of ErrCharacterNotFound c"
  shows "\<exists>e1 e2. CharacterCensus_Handle (lodestone_ports pt ord parse c env get put ports) True (Some (encode_CharacterID i)) s = (Inl e1, put l s)
    \<and> sweep_probe (lodestone_ports pt ord parse c env get put ports) i s = (Inl e2, put l s)
    \<and> errors_as e1 = errors_as e \<and> errors_as e2 = errors_as e"
proof -
  have "\<not> errors_is e ErrCharacterNotFound" using doRequest_plain [where env = "env s 0", OF assms(2,3,1)] .
  moreover have "pt_FetchCharacter (lodestone_ports pt ord parse c env get put ports) i s
      = (Inl (wrapped (''fetch character '' @ show_u32 i) e), put l s)"
    using FetchCharacter_error [OF assms(1)] by (simp add: lodestone_ports_def)
  ultimately show ?thesis
    by (simp add: CharacterCensus_Handle_def sweep_probe_def decode_encode_CharacterID)
qed

theorem failed_fetch_settles_nothing_witness:
  "\<forall>ports. \<exists>e. fst (CharacterCensus_Handle (lodestone_ports (\<lambda>_. None) (\<lambda>_. entityMap) (\<lambda>_. Inl (EText [])) (shared_client 2)
       (\<lambda>_ _ _. answer_with 429 []) id (\<lambda>l s. l) ports) True (Some (encode_CharacterID 7)) idle) = Inl e
     \<and> map_option ce_Kind (errors_as e) = Some CheckTarget"
proof
  fix ports :: "limiter client_state census_ports"
  let ?env = "\<lambda>(_ :: limiter client_state) (_ :: nat) (_ :: nat). answer_with 429 []"
  let ?d = "doRequest (\<lambda>_. None) (shared_client 2) (?env idle 0) (character_url 7) (id idle)"
  have "map_option ce_Kind (Option.bind (snd (snd (fst ?d))) errors_as) = Some CheckTarget" by code_simp
  then obtain b st e l where D: "?d = ((b, st, Some e), l)" and k: "map_option ce_Kind (errors_as e) = Some CheckTarget"
    by (cases ?d) (auto split: option.splits bind_splits)
  from failed_fetch_settles_nothing [where env = ?env and get = id and s = idle and ports = ports and put = "\<lambda>l s. l"
      and ord = "\<lambda>_. entityMap" and parse = "\<lambda>_. Inl (EText [])", OF D concrete_free] k
  show "\<exists>e. fst (CharacterCensus_Handle (lodestone_ports (\<lambda>_. None) (\<lambda>_. entityMap) (\<lambda>_. Inl (EText [])) (shared_client 2)
       ?env id (\<lambda>l s. l) ports) True (Some (encode_CharacterID 7)) idle) = Inl e \<and> map_option ce_Kind (errors_as e) = Some CheckTarget"
    by (metis fst_conv)
qed

end
