(* ===== verification/Http_Stream.thy ===== *)
theory Http_Stream
  imports Proxy_Hub
begin

text \<open>
  infrastructure/httpclient: the plain client (client.go), the proxied client (proxy\_client.go) and the client that rotates
  over the active proxies (rotating\_proxy\_client.go). The network and net/url are arguments. The locale \<open>stream_client\<close>
  states what the users of GetStream rely on: the response is handed to the consumer at most once, and its error comes back unchanged.
  Both clients interpret it.
\<close>

section \<open>Requests\<close>

record HTTPRequest =
  rq_Method :: string
  rq_URL :: string
  rq_QueryParams :: "(string \<times> string) list"
  rq_Headers :: "(string \<times> string) list"
  rq_Body :: string
  rq_Timeout :: duration

record HTTPResponse =
  hr_StatusCode :: int
  hr_Headers :: "(string \<times> string list) list"
  hr_Body :: string

text \<open>A parsed URL: its query values, and the rest of it.\<close>

record parsed_url =
  pu_Query :: "(string \<times> string list) list"
  pu_Rest :: string

text \<open>net/url and the validation of http.NewRequest.\<close>

record url_ops =
  uo_Parse :: "string \<Rightarrow> parsed_url result"
  uo_String :: "parsed_url \<Rightarrow> string"
  uo_NewRequest :: "string \<Rightarrow> string \<Rightarrow> err option"

text \<open>A request that is ready to be sent; \<open>br_Timeout\<close> is the deadline added to the context.\<close>

record built_request =
  br_Method :: string
  br_URL :: string
  br_Headers :: "(string \<times> string) list"
  br_Body :: string
  br_Timeout :: "duration option"

text \<open>\<open>strings.ToUpper\<close> on a method name.\<close>

definition ascii_upper :: "char \<Rightarrow> char" where
  "ascii_upper c = (if 97 \<le> (of_char c :: nat) \<and> (of_char c :: nat) \<le> 122 then char_of ((of_char c :: nat) - 32) else c)"

definition query_set :: "string \<times> string \<Rightarrow> (string \<times> string list) list \<Rightarrow> (string \<times> string list) list" where
  "query_set kv q = AList.update (fst kv) [snd kv] q"

definition quoted :: "string \<Rightarrow> string" where "quoted s = [CHR 0x22] @ s @ [CHR 0x22]"

definition buildRequest :: "url_ops \<Rightarrow> HTTPRequest \<Rightarrow> built_request result" where
  "buildRequest u req =
     (let method = map ascii_upper (trim_space (rq_Method req))
      in if method = [] then Inl (EText ''http method is required'')
         else if trim_space (rq_URL req) = [] then Inl (EText ''request url is required'')
         else case uo_Parse u (rq_URL req) of
                Inl e \<Rightarrow> Inl (wrapped (''parse url '' @ quoted (rq_URL req)) e)
              | Inr parsed \<Rightarrow>
                  (let url = uo_String u (parsed\<lparr>pu_Query := fold query_set (rq_QueryParams req) (pu_Query parsed)\<rparr>)
                   in case uo_NewRequest u method url of
                        Some e \<Rightarrow> Inl (wrapped (''build request '' @ method @ '' '' @ url) e)
                      | None \<Rightarrow> Inr \<lparr>br_Method = method, br_URL = url, br_Headers = rq_Headers req, br_Body = rq_Body req,
                                      br_Timeout = (if rq_Timeout req > 0 then Some (rq_Timeout req) else None)\<rparr>))"

text \<open>What the server answers: status, headers and body.\<close>

record 'b http_answer =
  an_Status :: int
  an_Headers :: "(string \<times> string list) list"
  an_Body :: 'b

definition cloneHeaders :: "(string \<times> string list) list \<Rightarrow> (string \<times> string list) list" where
  "cloneHeaders headers = (if headers = [] then [] else map (\<lambda>(key, values). (key, values)) headers)"

definition zero_response :: HTTPResponse where
  "zero_response = \<lparr>hr_StatusCode = 0, hr_Headers = [], hr_Body = []\<rparr>"

text \<open>\<open>send\<close> is the exchange over the network and \<open>status_text\<close> is http.StatusText. A body is the bytes and the error that ends them.\<close>

definition Client_Do :: "url_ops \<Rightarrow> (built_request \<Rightarrow> err + (string \<times> err option) http_answer) \<Rightarrow> (int \<Rightarrow> string) \<Rightarrow> HTTPRequest
    \<Rightarrow> HTTPResponse \<times> err option" where
  "Client_Do u send status_text req =
     (case buildRequest u req of
        Inl e \<Rightarrow> (zero_response, Some e)
      | Inr q \<Rightarrow>
          (case send q of
             Inl e \<Rightarrow> (zero_response, Some (wrapped (''execute request '' @ br_Method q @ '' '' @ br_URL q) e))
           | Inr a \<Rightarrow>
               (case an_Body a of
                  (_, Some e) \<Rightarrow> (zero_response, Some (wrapped (''read response body '' @ br_Method q @ '' '' @ br_URL q) e))
                | (body, None) \<Rightarrow>
                    (let response = \<lparr>hr_StatusCode = an_Status a, hr_Headers = cloneHeaders (an_Headers a), hr_Body = body\<rparr>
                     in if an_Status a < 200 \<or> an_Status a \<ge> 300
                        then (let message = (if trim_space body = [] then status_text (an_Status a) else trim_space body)
                              in (response, Some (EText (''request '' @ br_Method q @ '' '' @ br_URL q @ '' failed with status ''
                                    @ show_int (an_Status a) @ '': '' @ message))))
                        else (response, None)))))"

definition call :: "string \<Rightarrow> string \<Rightarrow> (string \<times> string) list \<Rightarrow> (string \<times> string) list \<Rightarrow> string \<Rightarrow> HTTPRequest" where
  "call method url queryParams headers body =
     \<lparr>rq_Method = method, rq_URL = url, rq_QueryParams = queryParams, rq_Headers = headers, rq_Body = body, rq_Timeout = 0\<rparr>"

definition Client_Get where "Client_Get u send stx url queryParams headers = Client_Do u send stx (call ''GET'' url queryParams headers [])"
definition Client_Post where "Client_Post u send stx url queryParams headers body = Client_Do u send stx (call ''POST'' url queryParams headers body)"
definition Client_Patch where "Client_Patch u send stx url queryParams headers body = Client_Do u send stx (call ''PATCH'' url queryParams headers body)"
definition Client_Delete where "Client_Delete u send stx url queryParams headers = Client_Do u send stx (call ''DELETE'' url queryParams headers [])"

section \<open>Streaming\<close>

text \<open>
  The errors of a stream: the two unexported error types that the rotation looks for, and any other error. A consumer is outside
  of the package and returns only errors of the last kind.
\<close>

datatype stream_error = RetryableStatus int | TransportError err | OtherError err

fun stream_err :: "stream_error \<Rightarrow> err" where
  "stream_err (RetryableStatus status) = EText (''retryable HTTP status '' @ show_int status)"
| "stream_err (TransportError e) = e"
| "stream_err (OtherError e) = e"

type_synonym ('b, 's) consumer = "int \<Rightarrow> 'b \<Rightarrow> 's \<Rightarrow> err option \<times> 's"

record stream_request =
  sq_URL :: string
  sq_QueryParams :: "(string \<times> string) list"
  sq_Headers :: "(string \<times> string) list"

definition stream_call :: "stream_request \<Rightarrow> HTTPRequest" where
  "stream_call q = call ''GET'' (sq_URL q) (sq_QueryParams q) (sq_Headers q) []"

definition GetStream :: "url_ops \<Rightarrow> (built_request \<Rightarrow> err + 'b http_answer) \<Rightarrow> stream_request
    \<Rightarrow> (int \<Rightarrow> 'b \<Rightarrow> 's \<Rightarrow> stream_error option \<times> 's) \<Rightarrow> 's \<Rightarrow> stream_error option \<times> 's" where
  "GetStream u send q consume s =
     (case buildRequest u (stream_call q) of
        Inl e \<Rightarrow> (Some (OtherError e), s)
      | Inr r \<Rightarrow>
          (case send r of
             Inl e \<Rightarrow> (Some (TransportError (wrapped (''execute request '' @ br_Method r @ '' '' @ br_URL r) e)), s)
           | Inr a \<Rightarrow> consume (an_Status a) (an_Body a) s))"

text \<open>A consumer's error is none of the two types.\<close>

definition outside :: "('b, 's) consumer \<Rightarrow> int \<Rightarrow> 'b \<Rightarrow> 's \<Rightarrow> stream_error option \<times> 's" where
  "outside consume status body s = map_prod (map_option OtherError) id (consume status body s)"

definition direct_stream :: "url_ops \<Rightarrow> (built_request \<Rightarrow> err + 'b http_answer) \<Rightarrow> stream_request \<Rightarrow> ('b, 's) consumer \<Rightarrow> 's \<Rightarrow> err option \<times> 's" where
  "direct_stream u send q consume s = map_prod (map_option stream_err) id (GetStream u send q (outside consume) s)"

section \<open>The rotating client\<close>

text \<open>
  \<open>nc_New\<close> is the transport construction of NewProxyClient (after its own checks), \<open>nc_Send\<close> the exchange of the given attempt
  through the proxy with the given address.
\<close>

record 'b proxied_net =
  nc_Url :: url_ops
  nc_Transport :: "string \<Rightarrow> err option"
  nc_Send :: "nat \<Rightarrow> string \<Rightarrow> built_request \<Rightarrow> err + 'b http_answer"
  nc_Direct :: "built_request \<Rightarrow> err + 'b http_answer"

definition NewProxyClient :: "'b proxied_net \<Rightarrow> string \<Rightarrow> err option" where
  "NewProxyClient net proxyAddr =
     (if proxyAddr = [] then Some (EText ''proxy address is empty'')
      else case uo_Parse (nc_Url net) proxyAddr of
             Inl e \<Rightarrow> Some (wrapped ''parse proxy address'' e)
           | Inr _ \<Rightarrow> nc_Transport net proxyAddr)"

definition retryable_status :: "int \<Rightarrow> bool" where
  "retryable_status status \<longleftrightarrow> status = 403 \<or> status = 429 \<or> status \<ge> 500"

definition guarded :: "('b, 's) consumer \<Rightarrow> int \<Rightarrow> 'b \<Rightarrow> 's \<Rightarrow> stream_error option \<times> 's" where
  "guarded consume status body s =
     (if retryable_status status then (Some (RetryableStatus status), s) else outside consume status body s)"

definition proxied_attempt :: "'b proxied_net \<Rightarrow> nat \<Rightarrow> Proxy \<Rightarrow> stream_request \<Rightarrow> ('b, 's) consumer \<Rightarrow> 's \<Rightarrow> stream_error option \<times> 's" where
  "proxied_attempt net n p q consume s =
     (case NewProxyClient net (Address p) of
        Some e \<Rightarrow> (Some (TransportError e), s)
      | None \<Rightarrow> GetStream (nc_Url net) (nc_Send net n (Address p)) q (guarded consume) s)"

text \<open>
  The loop: \<open>m\<close> attempts are left and \<open>n\<close> is the number of the next. The state is that of the hub and that of the consumer. The
  result carries the proxies through which a request was attempted, in their order: a trace beside the program's own list of
  \<open>attemptedIDs\<close>.
\<close>

fun rotation :: "'w ProxyHub \<Rightarrow> 'b proxied_net \<Rightarrow> stream_request \<Rightarrow> ('b, 's) consumer \<Rightarrow> nat \<Rightarrow> nat \<Rightarrow> Proxy option \<Rightarrow> int list
    \<Rightarrow> stream_error option \<Rightarrow> 'w \<times> 's \<Rightarrow> (err option \<times> Proxy list) \<times> 'w \<times> 's" where
  "rotation hub net q consume 0 n current attemptedIDs lastErr (w, s) = ((map_option stream_err lastErr, []), w, s)"
| "rotation hub net q consume (Suc m) n None attemptedIDs lastErr (w, s) = ((map_option stream_err lastErr, []), w, s)"
| "rotation hub net q consume (Suc m) n (Some p) attemptedIDs lastErr (w, s) =
     (case proxied_attempt net n p q consume s of
        (None, s') \<Rightarrow> ((None, [p]), w, s')
      | (Some (OtherError e), s') \<Rightarrow> ((Some e, [p]), w, s')
      | (Some e, s') \<Rightarrow>
          (case RandomActiveExcluding hub attemptedIDs w of
             (Inl e2, w') \<Rightarrow> ((Some (EJoin [stream_err e, e2]), [p]), w', s')
           | (Inr next_proxy, w') \<Rightarrow>
               (case rotation hub net q consume m (Suc n) next_proxy
                       (case next_proxy of None \<Rightarrow> attemptedIDs | Some p' \<Rightarrow> attemptedIDs @ [pr_ID (dp_record p')]) (Some e) (w', s') of
                  ((r, ps), ws') \<Rightarrow> ((r, p # ps), ws'))))"

definition maxAttempts :: nat where "maxAttempts = 3"

definition Rotating_GetStream :: "'w ProxyHub \<Rightarrow> 'b proxied_net \<Rightarrow> stream_request \<Rightarrow> ('b, 's) consumer \<Rightarrow> 'w \<times> 's
    \<Rightarrow> (err option \<times> Proxy list) \<times> 'w \<times> 's" where
  "Rotating_GetStream hub net q consume ws =
     (case Hub_RandomActive hub (fst ws) of
        (Inl e, w') \<Rightarrow> ((Some e, []), w', snd ws)
      | (Inr None, w') \<Rightarrow>
          (case direct_stream (nc_Url net) (nc_Direct net) q consume (snd ws) of (r, s') \<Rightarrow> ((r, []), w', s'))
      | (Inr (Some p), w') \<Rightarrow> rotation hub net q consume maxAttempts 0 (Some p) [pr_ID (dp_record p)] None (w', snd ws))"

section \<open>The contract of a streaming client\<close>

text \<open>
  The outcome of a request does not depend on the consumer: an error before any response, or one response that is handed over.
\<close>

definition hand_over :: "(err + int \<times> 'b) \<Rightarrow> ('b, 's) consumer \<Rightarrow> 's \<Rightarrow> err option \<times> 's" where
  "hand_over out consume s = (case out of Inl e \<Rightarrow> (Some e, s) | Inr (status, body) \<Rightarrow> consume status body s)"

locale stream_client =
  fixes get :: "stream_request \<Rightarrow> ('b, 's) consumer \<Rightarrow> 'w \<times> 's \<Rightarrow> err option \<times> 'w \<times> 's"
  assumes handed_once: "\<exists>out w'. \<forall>consume s. get q consume (w, s) = (case hand_over out consume s of (r, s') \<Rightarrow> (r, w', s'))"

definition direct_get :: "url_ops \<Rightarrow> (built_request \<Rightarrow> err + 'b http_answer) \<Rightarrow> stream_request \<Rightarrow> ('b, 's) consumer \<Rightarrow> unit \<times> 's \<Rightarrow> err option \<times> unit \<times> 's" where
  "direct_get u send q consume ws = (case direct_stream u send q consume (snd ws) of (r, s') \<Rightarrow> (r, (), s'))"

definition rotating_get :: "'w ProxyHub \<Rightarrow> 'b proxied_net \<Rightarrow> stream_request \<Rightarrow> ('b, 's) consumer \<Rightarrow> 'w \<times> 's \<Rightarrow> err option \<times> 'w \<times> 's" where
  "rotating_get hub net q consume ws = (case Rotating_GetStream hub net q consume ws of ((r, _), ws') \<Rightarrow> (r, ws'))"

lemma outside_back: "map_prod (map_option stream_err) id (outside consume st b s) = consume st b s"
  by (cases "consume st b s") (simp add: outside_def option.map_comp comp_def option.map_ident)

lemma direct_once: "\<exists>out. \<forall>consume s. direct_stream u send q consume s = hand_over out consume s"
proof (cases "buildRequest u (stream_call q)")
  case (Inl e)
  then show ?thesis by (intro exI [of _ "Inl e"]) (simp add: direct_stream_def GetStream_def hand_over_def)
next
  case (Inr r)
  show ?thesis
  proof (cases "send r")
    case (Inl e)
    with Inr show ?thesis
      by (intro exI [of _ "Inl (wrapped (''execute request '' @ br_Method r @ '' '' @ br_URL r) e)"])
         (simp add: direct_stream_def GetStream_def hand_over_def)
  next
    case a: (Inr a)
    with Inr show ?thesis
      by (intro exI [of _ "Inr (an_Status a, an_Body a)"]) (simp add: direct_stream_def GetStream_def hand_over_def outside_back)
  qed
qed

text \<open>One attempt of the rotation: it hands over a response, or fails without touching the consumer.\<close>

definition attempt_out :: "'b proxied_net \<Rightarrow> nat \<Rightarrow> Proxy \<Rightarrow> stream_request \<Rightarrow> stream_error + int \<times> 'b" where
  "attempt_out net n p q =
     (case NewProxyClient net (Address p) of
        Some e \<Rightarrow> Inl (TransportError e)
      | None \<Rightarrow>
          (case buildRequest (nc_Url net) (stream_call q) of
             Inl e \<Rightarrow> Inl (OtherError e)
           | Inr r \<Rightarrow>
               (case nc_Send net n (Address p) r of
                  Inl e \<Rightarrow> Inl (TransportError (wrapped (''execute request '' @ br_Method r @ '' '' @ br_URL r) e))
                | Inr a \<Rightarrow> if retryable_status (an_Status a) then Inl (RetryableStatus (an_Status a)) else Inr (an_Status a, an_Body a))))"

lemma proxied_attempt_out:
  "proxied_attempt net n p q consume s =
     (case attempt_out net n p q of Inl e \<Rightarrow> (Some e, s) | Inr (st, b) \<Rightarrow> outside consume st b s)"
  by (simp add: proxied_attempt_def attempt_out_def GetStream_def guarded_def split: option.splits sum.splits)

lemma rotation_once:
  fixes net :: "'b proxied_net"
  shows "\<exists>out ids w'. \<forall>(consume :: ('b, 's) consumer) s. rotation hub net q consume m n current tried le (w, s)
     = (if le = None \<and> (m = 0 \<or> current = None) then ((None, []), w, s)
        else case hand_over out consume s of (r, s') \<Rightarrow> ((r, ids), w', s'))"
proof (induction m arbitrary: n current tried le w)
  case 0
  show ?case by (cases le) (auto simp: hand_over_def intro: exI [of _ "Inl (stream_err (the le))"])
next
  case (Suc m)
  show ?case
  proof (cases current)
    case None
    then show ?thesis by (cases le) (auto simp: hand_over_def intro: exI [of _ "Inl (stream_err (the le))"])
  next
    case (Some p)
    show ?thesis
    proof (cases "attempt_out net n p q")
      case (Inr a)
      obtain st b where a: "a = (st, b)" by (cases a)
      have "rotation hub net q consume (Suc m) n current tried le (w, s) = (case consume st b s of (r, s') \<Rightarrow> ((r, [p]), w, s'))"
        for consume :: "('b, 's) consumer" and s
      proof (cases "consume st b s")
        case (Pair r s')
        with Some Inr a show ?thesis by (cases r) (simp_all add: proxied_attempt_out outside_def)
      qed
      with Some a show ?thesis by (intro exI [of _ "Inr a"] exI [of _ "[p]"] exI [of _ w]) (simp add: hand_over_def del: rotation.simps)
    next
      case (Inl e)
      show ?thesis
      proof (cases "\<exists>d. e = OtherError d")
        case True
        then obtain d where "e = OtherError d" by blast
        with Some Inl show ?thesis
          by (intro exI [of _ "Inl d"] exI [of _ "[p]"] exI [of _ w]) (simp add: proxied_attempt_out hand_over_def)
      next
        case False
        obtain r w1 where r: "RandomActiveExcluding hub tried w = (r, w1)" by (cases "RandomActiveExcluding hub tried w")
        show ?thesis
        proof (cases r)
          case (Inl e2)
          with r False Some \<open>attempt_out net n p q = Inl e\<close> show ?thesis
            by (intro exI [of _ "Inl (EJoin [stream_err e, e2])"] exI [of _ "[p]"] exI [of _ w1])
               (auto simp: proxied_attempt_out hand_over_def split: stream_error.splits)
        next
          case (Inr nx)
          let ?t = "case nx of None \<Rightarrow> tried | Some p' \<Rightarrow> tried @ [pr_ID (dp_record p')]"
          from Suc.IH [of "Suc n" nx ?t "Some e" w1] obtain out ids w2 where
            ih: "\<And>(consume :: ('b, 's) consumer) s. rotation hub net q consume m (Suc n) nx ?t (Some e) (w1, s)
              = (case hand_over out consume s of (r, s') \<Rightarrow> ((r, ids), w2, s'))" by auto
          have "rotation hub net q consume (Suc m) n current tried le (w, s)
              = (case hand_over out consume s of (r, s') \<Rightarrow> ((r, p # ids), w2, s'))" for consume :: "('b, 's) consumer" and s
            using Some \<open>attempt_out net n p q = Inl e\<close> False r Inr ih [of consume s]
            by (cases e) (auto simp: proxied_attempt_out split: prod.splits)
          then show ?thesis using Some by (intro exI [of _ out] exI [of _ "p # ids"] exI [of _ w2]) (simp del: rotation.simps)
        qed
      qed
    qed
  qed
qed

text \<open>The whole request: the proxies tried come with the outcome.\<close>

lemma rotating_once:
  fixes net :: "'b proxied_net"
  shows "\<exists>out ids w'. \<forall>(consume :: ('b, 's) consumer) s. Rotating_GetStream hub net q consume (w, s) = (case hand_over out consume s of (r, s') \<Rightarrow> ((r, ids), w', s'))"
proof (cases "Hub_RandomActive hub w")
  case (Pair r w1)
  show ?thesis
  proof (cases r)
    case (Inl e)
    with Pair show ?thesis
      by (intro exI [of _ "Inl e"] exI [of _ "[]"] exI [of _ w1]) (simp add: Rotating_GetStream_def hand_over_def)
  next
    case (Inr current)
    show ?thesis
    proof (cases current)
      case None
      from direct_once obtain out where
        "\<And>(consume :: ('b, 's) consumer) s. direct_stream (nc_Url net) (nc_Direct net) q consume s = hand_over out consume s" by blast
      with None Inr Pair show ?thesis
        by (intro exI [of _ out] exI [of _ "[]"] exI [of _ w1]) (simp add: Rotating_GetStream_def)
    next
      case (Some p)
      from rotation_once [of hub net q maxAttempts 0 "Some p" "[pr_ID (dp_record p)]" None w1] obtain out ids w2 where
        "\<And>(consume :: ('b, 's) consumer) s. rotation hub net q consume maxAttempts 0 (Some p) [pr_ID (dp_record p)] None (w1, s)
          = (case hand_over out consume s of (r, s') \<Rightarrow> ((r, ids), w2, s'))" by (auto simp: maxAttempts_def)
      with Some Inr Pair show ?thesis
        by (intro exI [of _ out] exI [of _ ids] exI [of _ w2]) (simp add: Rotating_GetStream_def)
    qed
  qed
qed

interpretation direct_client: stream_client "direct_get u send" for u and send :: "built_request \<Rightarrow> err + 'b http_answer"
proof
  fix q and w :: unit
  from direct_once [of u send q] obtain out where o: "\<And>(consume :: ('b, 's) consumer) s. direct_stream u send q consume s = hand_over out consume s" by blast
  then show "\<exists>out w'. \<forall>(consume :: ('b, 's) consumer) s. direct_get u send q consume (w, s) = (case hand_over out consume s of (r, s') \<Rightarrow> (r, w', s'))"
    by (intro exI [of _ out]) (simp add: direct_get_def)
qed

interpretation rotating_client: stream_client "rotating_get hub net" for hub :: "'w ProxyHub" and net :: "'b proxied_net"
proof
  fix q w
  from rotating_once [of hub net q w] obtain out ids w' where
    o: "\<And>(consume :: ('b, 's) consumer) s. Rotating_GetStream hub net q consume (w, s)
      = (case hand_over out consume s of (r, s') \<Rightarrow> ((r, ids), w', s'))" by blast
  then show "\<exists>out w'. \<forall>(consume :: ('b, 's) consumer) s. rotating_get hub net q consume (w, s)
      = (case hand_over out consume s of (r, s') \<Rightarrow> (r, w', s'))"
    by (intro exI [of _ out] exI [of _ w']) (simp add: rotating_get_def case_prod_beta)
qed

section \<open>Distinct proxies\<close>

lemma pg_draw_excludes:
  assumes "RandomActiveExcluding hub xs w = (Inr (Some q), w')" and "hb_repo hub = pg_repo p inp"
  shows "pr_ID (dp_record q) \<notin> set xs"
proof -
  from assms obtain r where r: "RandomActive p (pi_env inp (pw_tick w)) xs (pw_db w) = Inr (Some r)" "q = new_Proxy hub r"
    by (auto simp: RandomActiveExcluding_def pg_repo_def pg_call_def split: sum.splits)
  define rows where "rows = filter (\<lambda>r. freshPredicate p (en_stmt (pi_env inp (pw_tick w))) r
     \<and> pr_Protocol r \<in> set supported_protocols \<and> (length xs = 0 \<or> pr_ID r \<notin> set xs)) (px_rows (pw_db w))"
  from r(1) have "rows \<noteq> [] \<and> r = rows ! (en_pick (pi_env inp (pw_tick w)) mod length rows)"
    unfolding RandomActive_def Let_def rows_def [symmetric] by (simp split: option.splits if_splits)
  then have "r \<in> set rows" by simp
  with r(2) show ?thesis by (auto simp: new_Proxy_def rows_def)
qed

lemma rotation_step:
  assumes "rotation hub net q consume (Suc m) n (Some p) tried le (w, s) = ((r, ps), ws')"
  shows "ps = [p] \<or> (\<exists>nx w1 e s1 ps'. ps = p # ps' \<and> RandomActiveExcluding hub tried w = (Inr nx, w1)
     \<and> rotation hub net q consume m (Suc n) nx (case nx of None \<Rightarrow> tried | Some p' \<Rightarrow> tried @ [pr_ID (dp_record p')]) (Some e) (w1, s1) = ((r, ps'), ws'))"
  using assms by (auto split: prod.splits option.splits stream_error.splits sum.splits)

lemma rotation_nobody: "rotation hub net q consume m n None tried le (w, s) = ((r, ps), ws') \<Longrightarrow> ps = []"
  by (cases m) auto

text \<open>The proxies tried: the current one first, then proxies that are not on the list of attempted ids, no two of them equal.\<close>

lemma rotation_distinct:
  assumes "hb_repo hub = pg_repo p inp" and "pr_ID (dp_record pr) \<in> set tried"
    and "rotation hub net q consume m n (Some pr) tried le (w, s) = ((r, ps), ws')"
  shows "length ps \<le> m \<and> distinct (map (\<lambda>x. pr_ID (dp_record x)) ps)
    \<and> (\<exists>ps'. (ps = [] \<or> ps = pr # ps') \<and> (\<forall>x\<in>set ps'. pr_ID (dp_record x) \<notin> set tried))"
  using assms(2,3)
proof (induction m arbitrary: n pr tried le w s ps)
  case (Suc m)
  from rotation_step [OF Suc.prems(2)] show ?case
  proof (elim disjE exE conjE)
    fix nx w1 e s1 ps'
    assume ps: "ps = pr # ps'" and d: "RandomActiveExcluding hub tried w = (Inr nx, w1)"
      and r: "rotation hub net q consume m (Suc n) nx (case nx of None \<Rightarrow> tried | Some p' \<Rightarrow> tried @ [pr_ID (dp_record p')]) (Some e) (w1, s1) = ((r, ps'), ws')"
    show ?thesis
    proof (cases nx)
      case None
      with r rotation_nobody [of hub net q consume m] have "ps' = []" by simp
      with ps show ?thesis by simp
    next
      case (Some p')
      have new: "pr_ID (dp_record p') \<notin> set tried" using pg_draw_excludes [OF _ assms(1)] d Some by simp
      from Suc.IH [of p' "tried @ [pr_ID (dp_record p')]" "Suc n" "Some e" w1 s1 ps'] r Some obtain ps'' where
        "length ps' \<le> m" "distinct (map (\<lambda>x. pr_ID (dp_record x)) ps')" "ps' = [] \<or> ps' = p' # ps''"
        "\<forall>x\<in>set ps''. pr_ID (dp_record x) \<notin> set (tried @ [pr_ID (dp_record p')])" by auto
      with new Suc.prems(1) ps show ?thesis by auto
    qed
  qed auto
qed (auto intro: exI [of _ "[]"])

section \<open>Properties\<close>

lemma rotation_guarded:
  assumes "rotation hub net q consume m n current tried le (w, s) = ((r, ids), w', s')" and "le \<noteq> None \<or> m \<noteq> 0 \<and> current \<noteq> None"
  shows "(r \<noteq> None \<and> s' = s) \<or> (\<exists>st b. consume st b s = (r, s') \<and> \<not> retryable_status st)"
  using assms
proof (induction m arbitrary: n current tried le w ids)
  case (Suc m)
  show ?case
  proof (cases current)
    case (Some p)
    show ?thesis
    proof (cases "attempt_out net n p q")
      case (Inr a)
      obtain st b where a: "a = (st, b)" by (cases a)
      have ns: "\<not> retryable_status st" using Inr a
        by (auto simp: attempt_out_def split: option.splits sum.splits if_splits)
      obtain r1 s1 where c: "consume st b s = (r1, s1)" by (cases "consume st b s")
      then have "r = r1 \<and> s' = s1" using Suc.prems(1) Some Inr a
        by (cases r1) (auto simp: proxied_attempt_out outside_def)
      with ns c have "consume st b s = (r, s') \<and> \<not> retryable_status st" by simp
      then show ?thesis by blast
    next
      case (Inl e)
      obtain x w1 where x: "RandomActiveExcluding hub tried w = (x, w1)" by (cases "RandomActiveExcluding hub tried w")
      have "(r \<noteq> None \<and> s' = s)
          \<or> (\<exists>n1 c1 t1 ids1. rotation hub net q consume m n1 c1 t1 (Some e) (w1, s) = ((r, ids1), w', s'))"
        using Inl Some Suc.prems(1) x by (cases e; cases x) (auto simp: proxied_attempt_out split: prod.splits)
      then show ?thesis using Suc.IH by blast
    qed
  qed (use Suc.prems in auto)
qed auto

text \<open>C19: The rotating client hands over at most one response. Whatever the proxies do, GetStream either fails and has not called
  the consumer, or has called it exactly once and returns its error unchanged; through a proxy the response handed over is no 403,
  429 or server error. With the PostgreSQL repository it attempts the request through no proxy twice, and through at most three.\<close>

theorem rotation_hands_over_once:
  fixes net :: "'b proxied_net" and consume :: "('b, 's) consumer"
  assumes "Rotating_GetStream hub net q consume (w, s) = ((r, ps), w', s')" and "hb_repo hub = pg_repo p inp"
  shows "((\<exists>e. r = Some e) \<and> s' = s \<or> (\<exists>st b. consume st b s = (r, s') \<and> (ps \<noteq> [] \<longrightarrow> \<not> retryable_status st)))
    \<and> distinct (map (\<lambda>x. pr_ID (dp_record x)) ps) \<and> length ps \<le> 3"
proof -
  obtain x w2 where x: "Hub_RandomActive hub w = (x, w2)" by (cases "Hub_RandomActive hub w")
  consider (err) e where "x = Inl e" | (direct) "x = Inr None" | (proxied) pr where "x = Inr (Some pr)"
    by (cases x) (auto intro: option.exhaust)
  then show ?thesis
  proof cases
    case err
    with assms(1) x show ?thesis by (auto simp: Rotating_GetStream_def)
  next
    case direct
    from direct_once [of "nc_Url net" "nc_Direct net" q] obtain out where
      "\<And>(consume :: ('b, 's) consumer) s. direct_stream (nc_Url net) (nc_Direct net) q consume s = hand_over out consume s" by blast
    from this [of consume s] direct assms(1) x have "hand_over out consume s = (r, s')" "ps = []"
      by (auto simp: Rotating_GetStream_def split: prod.splits)
    then show ?thesis by (cases out) (auto simp: hand_over_def split: prod.splits)
  next
    case proxied
    then have rot: "rotation hub net q consume 3 0 (Some pr) [pr_ID (dp_record pr)] None (w2, s) = ((r, ps), w', s')"
      using assms(1) x by (simp add: Rotating_GetStream_def maxAttempts_def)
    from rotation_distinct [OF assms(2) _ rot] rotation_guarded [OF rot] show ?thesis by auto
  qed
qed

text \<open>Proxies that answer 429 until the given attempt.\<close>

definition plain_url :: url_ops where
  "plain_url = \<lparr>uo_Parse = \<lambda>u. Inr \<lparr>pu_Query = [], pu_Rest = u\<rparr>, uo_String = pu_Rest, uo_NewRequest = \<lambda>m u. None\<rparr>"

definition answer :: "int \<Rightarrow> 'b \<Rightarrow> 'b http_answer" where
  "answer status body = \<lparr>an_Status = status, an_Headers = [], an_Body = body\<rparr>"

definition limited_net :: "nat \<Rightarrow> 'b \<Rightarrow> 'b proxied_net" where
  "limited_net k body = \<lparr>nc_Url = plain_url, nc_Transport = \<lambda>a. None,
     nc_Send = \<lambda>n a r. Inr (answer (if n < k then 429 else 200) body), nc_Direct = \<lambda>r. Inr (answer 200 body)\<rparr>"

text \<open>Two fresh proxies; the first one drawn answers 429, and the second one the list.\<close>

definition two_rows :: proxy_db where
  "two_rows = \<lparr>px_rows = [demo_rec, demo_rec\<lparr>pr_ID := 8, pr_IP := ''g''\<rparr>], px_next = 9\<rparr>"

theorem rotation_hands_over_once_witness:
  "\<exists>w' p1 p2. Rotating_GetStream (demo_hub None) (limited_net 1 ''list'') \<lparr>sq_URL = ''u'', sq_QueryParams = [], sq_Headers = []\<rparr>
       (\<lambda>st b s. (None, s @ [b])) (\<lparr>pw_db = two_rows, pw_tick = 0\<rparr>, []) = ((None, [p1, p2]), w', [''list''])
     \<and> pr_ID (dp_record p1) \<noteq> pr_ID (dp_record p2)"
proof -
  let ?g = "Rotating_GetStream (demo_hub None) (limited_net 1 ''list'') \<lparr>sq_URL = ''u'', sq_QueryParams = [], sq_Headers = []\<rparr>
       (\<lambda>st b s. (None, s @ [b])) (\<lparr>pw_db = two_rows, pw_tick = 0\<rparr>, [])"
  have "case ?g of ((r, ps), w', s') \<Rightarrow> r = None \<and> length ps = 2 \<and> s' = [''list'']" by code_simp
  then obtain p1 p2 w' where g: "?g = ((None, [p1, p2]), w', [''list''])" by (auto simp: numeral_2_eq_2 length_Suc_conv)
  from rotation_hands_over_once [OF g, of demo_policy demo_inputs] g show ?thesis by (auto simp: demo_hub_def)
qed

end
