(* ===== verification/Proxy_Sources.thy ===== *)
theory Proxy_Sources
  imports Http_Stream Json
begin

text \<open>
  The four providers of proxy lists: infrastructure/geonode, proxyscrape, pubproxy and textproxy. A JSON body is what the streaming
  decoder of encoding/json delivers of it, a text body is its bytes. The locale \<open>proxy_provider\<close> states the contract of
  contract.ProxyProvider: a provider emits a list of records that does not depend on the callback, stops at the first error of the callback
  and passes it on. The four providers interpret it over any streaming client.
\<close>

section \<open>Emitting\<close>

type_synonym 's emitter = "ProxyRecord \<Rightarrow> 's \<Rightarrow> err option \<times> 's"

fun emit_all :: "'s emitter \<Rightarrow> ProxyRecord list \<Rightarrow> 's \<Rightarrow> err option \<times> 's" where
  "emit_all emit [] s = (None, s)"
| "emit_all emit (r # rs) s = (case emit r s of (Some e, s') \<Rightarrow> (Some e, s') | (None, s') \<Rightarrow> emit_all emit rs s')"

section \<open>JSON bodies\<close>

text \<open>
  How a container of the stream ends: it is closed; the stream breaks where the decoder looks for the next element, so that More is
  false and the next Token fails; or it breaks in the element that More has announced.
\<close>

datatype ending = Closed | Cut err | Bad err

text \<open>A field value is complete, an array that is not closed, or a value without a first token.\<close>

datatype field = Whole json | Elements "json list" ending | Unreadable err

datatype json_body = Object "(string \<times> field) list" ending | NotObject json | NoToken err

fun broken :: "field \<Rightarrow> err option" where
  "broken (Whole v) = None"
| "broken (Elements vs Closed) = None"
| "broken (Elements vs (Cut e)) = Some e"
| "broken (Elements vs (Bad e)) = Some e"
| "broken (Unreadable e) = Some e"

section \<open>Decoding\<close>

fun dec_float :: "json \<Rightarrow> rat \<Rightarrow> rat \<times> bool" where
  "dec_float JNull old = (old, False)"
| "dec_float (JInt i) old = (of_int i, False)"
| "dec_float (JFrac q) old = (q, False)"
| "dec_float _ old = (old, True)"

fun dec_bool :: "json \<Rightarrow> bool \<Rightarrow> bool \<times> bool" where
  "dec_bool JNull old = (old, False)"
| "dec_bool (JBool b) old = (b, False)"
| "dec_bool _ old = (old, True)"

text \<open>A slice: every element is decoded into a zero value.\<close>

fun dec_slice :: "(json \<Rightarrow> 'a \<times> bool) \<Rightarrow> json \<Rightarrow> 'a list \<Rightarrow> 'a list \<times> bool" where
  "dec_slice dec JNull old = ([], False)"
| "dec_slice dec (JArr vs) old = (map (fst \<circ> dec) vs, list_ex (snd \<circ> dec) vs)"
| "dec_slice dec _ old = (old, True)"

text \<open>The members of an object, none for null; a value of another kind does not fit a struct.\<close>

definition struct_fields :: "json \<Rightarrow> (string \<times> json) list \<times> bool" where
  "struct_fields v = (case v of JObj kvs \<Rightarrow> (kvs, False) | JNull \<Rightarrow> ([], False) | _ \<Rightarrow> ([], True))"

definition nonempty :: "string \<Rightarrow> string option" where
  "nonempty s = (if s \<noteq> [] then Some s else None)"

definition discovered :: "string \<Rightarrow> string \<Rightarrow> int \<Rightarrow> timestamp \<Rightarrow> string \<Rightarrow> ProxyRecord" where
  "discovered protocol ip port now source = zero_proxy
     \<lparr>pr_Protocol := protocol, pr_IP := ip, pr_Port := port, pr_FirstSeenAt := now, pr_Source := source, pr_Status := ProxyStatusInactive\<rparr>"

section \<open>Geonode\<close>

record geonode_proxy =
  gp_IP :: string
  gp_Port :: string
  gp_Protocols :: "string list"
  gp_AnonymityLevel :: string
  gp_Country :: string
  gp_UpTime :: rat

definition geonode_fields :: "string list" where
  "geonode_fields = [''ip'', ''port'', ''protocols'', ''anonymityLevel'', ''country'', ''upTime'']"

definition decode_geonode_proxy :: "json \<Rightarrow> geonode_proxy \<times> bool" where
  "decode_geonode_proxy v =
     (let (kvs, b0) = struct_fields v;
          (ip, b1) = dec_field dec_string [] geonode_fields ''ip'' kvs;
          (port, b2) = dec_field dec_string [] geonode_fields ''port'' kvs;
          (protocols, b3) = dec_field (dec_slice (\<lambda>x. dec_string x [])) [] geonode_fields ''protocols'' kvs;
          (anonymity, b4) = dec_field dec_string [] geonode_fields ''anonymityLevel'' kvs;
          (country, b5) = dec_field dec_string [] geonode_fields ''country'' kvs;
          (upTime, b6) = dec_field dec_float 0 geonode_fields ''upTime'' kvs
      in (\<lparr>gp_IP = ip, gp_Port = port, gp_Protocols = protocols, gp_AnonymityLevel = anonymity, gp_Country = country, gp_UpTime = upTime\<rparr>,
          b0 \<or> b1 \<or> b2 \<or> b3 \<or> b4 \<or> b5 \<or> b6))"

definition geonode_api :: "string list" where "geonode_api = [''data'', ''total'', ''page'', ''limit'']"

text \<open>Data and Total of the response; the other two fields are decoded for their errors only.\<close>

definition decode_geonode :: "json \<Rightarrow> (geonode_proxy list \<times> int) result" where
  "decode_geonode v =
     (let (kvs, b0) = struct_fields v;
          (data, b1) = dec_field (dec_slice decode_geonode_proxy) [] geonode_api ''data'' kvs;
          (total, b2) = dec_field dec_int 0 geonode_api ''total'' kvs;
          (page, b3) = dec_field dec_int 0 geonode_api ''page'' kvs;
          (lim, b4) = dec_field dec_int 0 geonode_api ''limit'' kvs
      in if b0 \<or> b1 \<or> b2 \<or> b3 \<or> b4 then Inl (json_error ''apiResponse'') else Inr (data, total))"

text \<open>One call of Decode on a body: the whole value, or the error of a value that does not end.\<close>

definition whole_value :: "json_body \<Rightarrow> json result" where
  "whole_value b =
     (case b of
        NoToken e \<Rightarrow> Inl e
      | NotObject v \<Rightarrow> Inr v
      | Object fs en \<Rightarrow>
          (case find (\<lambda>e. e \<noteq> None) (map (broken \<circ> snd) fs) of
             Some (Some e) \<Rightarrow> Inl e
           | _ \<Rightarrow> (case en of
                     Cut e \<Rightarrow> Inl e
                   | Bad e \<Rightarrow> Inl e
                   | Closed \<Rightarrow> Inr (JObj (map (\<lambda>(k, f). (k, case f of Whole v \<Rightarrow> v | Elements vs _ \<Rightarrow> JArr vs | Unreadable _ \<Rightarrow> JNull)) fs)))))"

definition geonode_limit :: int where "geonode_limit = 100"

definition geonode_records :: "timestamp \<Rightarrow> geonode_proxy \<Rightarrow> ProxyRecord list" where
  "geonode_records now p =
     (case atoi (gp_Port p) of
        None \<Rightarrow> []
      | Some port \<Rightarrow>
          map (\<lambda>proto. (discovered proto (gp_IP p) port now ''geonode'')
                 \<lparr>pr_Country := nonempty (gp_Country p), pr_Anonymity := nonempty (gp_AnonymityLevel p),
                  pr_UptimePercent := (if gp_UpTime p > 0 then Some (gp_UpTime p) else None)\<rparr>)
            (gp_Protocols p))"

definition geonode_query :: "string \<Rightarrow> int \<Rightarrow> stream_request" where
  "geonode_query base page = \<lparr>sq_URL = base,
     sq_QueryParams = [(''limit'', show_int geonode_limit), (''page'', show_int page), (''sort_by'', ''lastChecked''), (''sort_type'', ''desc'')],
     sq_Headers = [(''Accept'', ''application/json'')]\<rparr>"

text \<open>The callback of one page. It only stores the page; the state of the stream is the stored page.\<close>

definition geonode_consume :: "int \<Rightarrow> (json_body, geonode_proxy list \<times> int) consumer" where
  "geonode_consume page status body stored_page =
     (if status \<noteq> 200
      then (Some (EText (''geonode: unexpected status '' @ show_int status @ '' on page '' @ show_int page)), stored_page)
      else case (case whole_value body of Inl e \<Rightarrow> Inl e | Inr v \<Rightarrow> decode_geonode v) of
             Inr r \<Rightarrow> (None, r)
           | Inl e \<Rightarrow> (Some (wrapped (''geonode decode page '' @ show_int page) e), stored_page))"

text \<open>
  The loop over the pages, with fuel: \<open>None\<close> when it is still running after \<open>m\<close> pages. The server decides by its total how long it
  runs. \<open>now\<close> is the clock at the given page.
\<close>

type_synonym ('b, 'c, 'w) getter = "stream_request \<Rightarrow> ('b, 'c) consumer \<Rightarrow> 'w \<times> 'c \<Rightarrow> err option \<times> 'w \<times> 'c"

fun geonode_pages :: "(json_body, geonode_proxy list \<times> int, 'w) getter \<Rightarrow> string \<Rightarrow> (int \<Rightarrow> timestamp) \<Rightarrow> 's emitter \<Rightarrow> nat \<Rightarrow> int
    \<Rightarrow> 'w \<times> 's \<Rightarrow> (err option \<times> 'w \<times> 's) option" where
  "geonode_pages get base now emit 0 page ws = None"
| "geonode_pages get base now emit (Suc m) page (w, s) =
     (case get (geonode_query base page) (geonode_consume page) (w, [], 0) of
        (Some e, w', _) \<Rightarrow> Some (Some (wrapped (''geonode fetch page '' @ show_int page) e), w', s)
      | (None, w', pageData, pageTotal) \<Rightarrow>
          (case emit_all emit (concat (map (geonode_records (now page)) pageData)) s of
             (Some e, s') \<Rightarrow> Some (Some e, w', s')
           | (None, s') \<Rightarrow>
               if int (length pageData) < geonode_limit \<or> i64 (page * geonode_limit) \<ge> pageTotal then Some (None, w', s')
               else geonode_pages get base now emit m (page + 1) (w', s')))"

definition geonode_FetchProxies :: "nat \<Rightarrow> (json_body, geonode_proxy list \<times> int, 'w) getter \<Rightarrow> string \<Rightarrow> (int \<Rightarrow> timestamp) \<Rightarrow> 's emitter
    \<Rightarrow> 'w \<times> 's \<Rightarrow> (err option \<times> 'w \<times> 's) option" where
  "geonode_FetchProxies fuel get base now emit ws = geonode_pages get base now emit fuel 1 ws"

section \<open>Arrays that are read element by element\<close>

text \<open>
  The common shape of the proxyscrape and pubproxy clients: the fields before the array are skipped, the elements are decoded and
  emitted one at a time, and the rest is read to the closing brace. \<open>each\<close> decodes one element and may skip it.
\<close>

fun each_element :: "string \<Rightarrow> (json \<Rightarrow> ProxyRecord option result) \<Rightarrow> 's emitter \<Rightarrow> json list \<Rightarrow> ending \<Rightarrow> 's \<Rightarrow> err option \<times> 's" where
  "each_element name each emit [] Closed s = (None, s)"
| "each_element name each emit [] (Cut e) s = (Some (wrapped (name @ '' close array'') e), s)"
| "each_element name each emit [] (Bad e) s = (Some (wrapped (name @ '' decode proxy'') e), s)"
| "each_element name each emit (v # vs) en s =
     (case each v of
        Inl e \<Rightarrow> (Some (wrapped (name @ '' decode proxy'') e), s)
      | Inr None \<Rightarrow> each_element name each emit vs en s
      | Inr (Some r) \<Rightarrow> (case emit r s of (Some e, s') \<Rightarrow> (Some e, s') | (None, s') \<Rightarrow> each_element name each emit vs en s'))"

fun skip_rest :: "string \<Rightarrow> (string \<times> field) list \<Rightarrow> ending \<Rightarrow> err option" where
  "skip_rest name [] Closed = None"
| "skip_rest name [] (Cut e) = Some (wrapped (name @ '' close object'') e)"
| "skip_rest name [] (Bad e) = Some (wrapped (name @ '' skip remaining key'') e)"
| "skip_rest name ((k, f) # fs) en =
     (case broken f of Some e \<Rightarrow> Some (wrapped (name @ '' skip remaining value'') e) | None \<Rightarrow> skip_rest name fs en)"

fun read_array :: "string \<Rightarrow> string \<Rightarrow> (json \<Rightarrow> ProxyRecord option result) \<Rightarrow> 's emitter \<Rightarrow> field \<Rightarrow> 's \<Rightarrow> err option \<times> 's" where
  "read_array name key each emit (Whole (JArr vs)) s = each_element name each emit vs Closed s"
| "read_array name key each emit (Whole v) s = (Some (EText (name @ '' '' @ key @ '': expected array'')), s)"
| "read_array name key each emit (Elements vs en) s = each_element name each emit vs en s"
| "read_array name key each emit (Unreadable e) s = (Some (wrapped (name @ '' '' @ key @ '' array'') e), s)"

fun find_array :: "string \<Rightarrow> string \<Rightarrow> (json \<Rightarrow> ProxyRecord option result) \<Rightarrow> 's emitter \<Rightarrow> (string \<times> field) list \<Rightarrow> ending \<Rightarrow> 's \<Rightarrow> err option \<times> 's" where
  "find_array name key each emit [] (Bad e) s = (Some (wrapped (name @ '' decode key'') e), s)"
| "find_array name key each emit [] _ s = (None, s)"
| "find_array name key each emit ((k, f) # fs) en s =
     (if k \<noteq> key
      then (case broken f of
              Some e \<Rightarrow> (Some (wrapped (name @ '' skip field'') e), s)
            | None \<Rightarrow> find_array name key each emit fs en s)
      else (case read_array name key each emit f s of
              (Some e, s') \<Rightarrow> (Some e, s')
            | (None, s') \<Rightarrow> (skip_rest name fs en, s')))"

definition array_consume :: "string \<Rightarrow> string \<Rightarrow> (json \<Rightarrow> ProxyRecord option result) \<Rightarrow> 's emitter \<Rightarrow> (json_body, 's) consumer" where
  "array_consume name key each emit status body s =
     (if status \<noteq> 200 then (Some (EText (name @ '': unexpected status '' @ show_int status)), s)
      else case body of
             NoToken e \<Rightarrow> (Some (wrapped (name @ '' decode'') e), s)
           | NotObject v \<Rightarrow> (Some (EText (name @ '' decode: expected object'')), s)
           | Object fs en \<Rightarrow> find_array name key each emit fs en s)"

section \<open>ProxyScrape\<close>

definition proxyscrape_fields :: "string list" where
  "proxyscrape_fields = [''alive'', ''ip'', ''port'', ''protocol'', ''country_code'', ''anonymity'', ''uptime'', ''timeout'']"

definition proxyscrape_each :: "timestamp \<Rightarrow> json \<Rightarrow> ProxyRecord option result" where
  "proxyscrape_each now v =
     (let (kvs, b0) = struct_fields v;
          (alive, b1) = dec_field dec_bool False proxyscrape_fields ''alive'' kvs;
          (ip, b2) = dec_field dec_string [] proxyscrape_fields ''ip'' kvs;
          (port, b3) = dec_field dec_int 0 proxyscrape_fields ''port'' kvs;
          (protocol, b4) = dec_field dec_string [] proxyscrape_fields ''protocol'' kvs;
          (country, b5) = dec_field dec_string [] proxyscrape_fields ''country_code'' kvs;
          (anonymity, b6) = dec_field dec_string [] proxyscrape_fields ''anonymity'' kvs;
          (uptime, b7) = dec_field dec_float 0 proxyscrape_fields ''uptime'' kvs;
          (timeout, b8) = dec_field dec_float 0 proxyscrape_fields ''timeout'' kvs
      in if b0 \<or> b1 \<or> b2 \<or> b3 \<or> b4 \<or> b5 \<or> b6 \<or> b7 \<or> b8 then Inl (json_error ''proxyResponse'')
         else if \<not> alive then Inr None
         else Inr (Some ((discovered (if to_lower protocol = [] then ''http'' else to_lower protocol) ip port now ''proxyscrape'')
                \<lparr>pr_Country := nonempty country, pr_Anonymity := nonempty anonymity,
                 pr_UptimePercent := (if uptime > 0 then Some uptime else None)\<rparr>)))"

definition proxyscrape_query :: "string \<Rightarrow> stream_request" where
  "proxyscrape_query base = \<lparr>sq_URL = base,
     sq_QueryParams = [(''request'', ''display_proxies''), (''proxy_format'', ''protocolipport''), (''format'', ''json''), (''timeout'', ''10000'')],
     sq_Headers = [(''Accept'', ''application/json'')]\<rparr>"

definition proxyscrape_FetchProxies :: "(json_body, 's, 'w) getter \<Rightarrow> string \<Rightarrow> timestamp \<Rightarrow> 's emitter \<Rightarrow> 'w \<times> 's \<Rightarrow> (err option \<times> 'w \<times> 's) option" where
  "proxyscrape_FetchProxies get base now emit ws =
     Some (get (proxyscrape_query base) (array_consume ''proxyscrape'' ''proxies'' (proxyscrape_each now) emit) ws)"

section \<open>PubProxy\<close>

text \<open>\<open>fmt.Sscanf(s, "%d", &n)\<close>: white space without a newline, an optional sign and digits; what follows is ignored.\<close>

function skip_space :: "string \<Rightarrow> string option" where
  "skip_space [] = Some []"
| "skip_space (c # cs) =
     (if c = CHR 0x0A then None
      else case find (\<lambda>r. is_prefix r (c # cs)) space_runes of
             Some r \<Rightarrow> skip_space (drop (length r - 1) cs)
           | None \<Rightarrow> Some (c # cs))"
  by pat_completeness auto
termination by (relation "measure length") auto

definition sscanf_d :: "string \<Rightarrow> int option" where
  "sscanf_d s =
     (case skip_space s of
        None \<Rightarrow> None
      | Some t \<Rightarrow>
          (let signed = is_prefix ''-'' t \<or> is_prefix ''+'' t;
               digits = takeWhile is_digit (if signed then tl t else t)
           in if digits = [] then None else atoi ((if signed then [hd t] else []) @ digits)))"

definition pubproxy_fields :: "string list" where
  "pubproxy_fields = [''ip'', ''port'', ''type'', ''country'', ''proxy_level'', ''speed'']"

definition pubproxy_each :: "timestamp \<Rightarrow> json \<Rightarrow> ProxyRecord option result" where
  "pubproxy_each now v =
     (let (kvs, b0) = struct_fields v;
          (ip, b1) = dec_field dec_string [] pubproxy_fields ''ip'' kvs;
          (port, b2) = dec_field dec_string [] pubproxy_fields ''port'' kvs;
          (typ, b3) = dec_field dec_string [] pubproxy_fields ''type'' kvs;
          (country, b4) = dec_field dec_string [] pubproxy_fields ''country'' kvs;
          (level, b5) = dec_field dec_string [] pubproxy_fields ''proxy_level'' kvs;
          (speed, b6) = dec_field dec_string [] pubproxy_fields ''speed'' kvs
      in if b0 \<or> b1 \<or> b2 \<or> b3 \<or> b4 \<or> b5 \<or> b6 then Inl (json_error ''proxyResponse'')
         else case sscanf_d port of
                None \<Rightarrow> Inr None
              | Some n \<Rightarrow>
                  Inr (Some ((discovered (if to_lower typ = [] then ''http'' else to_lower typ) ip n now ''pubproxy'')
                    \<lparr>pr_Country := nonempty country, pr_Anonymity := nonempty level\<rparr>)))"

definition pubproxy_query :: "string \<Rightarrow> stream_request" where
  "pubproxy_query base = \<lparr>sq_URL = base, sq_QueryParams = [(''format'', ''json''), (''limit'', ''5'')],
     sq_Headers = [(''Accept'', ''application/json'')]\<rparr>"

definition pubproxy_FetchProxies :: "(json_body, 's, 'w) getter \<Rightarrow> string \<Rightarrow> timestamp \<Rightarrow> 's emitter \<Rightarrow> 'w \<times> 's \<Rightarrow> (err option \<times> 'w \<times> 's) option" where
  "pubproxy_FetchProxies get base now emit ws =
     Some (get (pubproxy_query base) (array_consume ''pubproxy'' ''data'' (pubproxy_each now) emit) ws)"

section \<open>Text lists\<close>

text \<open>
  \<open>bufio.Scanner\<close> with its default split: lines without their line break, the last one also without a newline, and the error of
  a line that does not fit the buffer of 64 KiB.
\<close>

definition max_line :: nat where "max_line = 65536"

definition drop_cr :: "string \<Rightarrow> string" where
  "drop_cr l = trim_suffix l [CHR 0x0D]"

function scan_lines :: "string \<Rightarrow> string list \<times> bool" where
  "scan_lines [] = ([], False)"
| "scan_lines (c # cs) =
     (let l = takeWhile (\<lambda>x. x \<noteq> CHR 0x0A) (c # cs); rest = dropWhile (\<lambda>x. x \<noteq> CHR 0x0A) (c # cs)
      in if length l \<ge> max_line then ([], True)
         else case scan_lines (tl rest) of (ls, long) \<Rightarrow> (drop_cr l # ls, long))"
  by pat_completeness auto
termination
proof (relation "measure length", goal_cases)
  case (2 c cs l rest)
  have "length (dropWhile (\<lambda>x. x \<noteq> CHR 0x0A) (c # cs)) \<le> length (c # cs)" by (rule length_dropWhile_le)
  then show ?case using 2 by (cases rest) auto
qed simp

definition ErrTooLong :: err where "ErrTooLong = EText ''bufio.Scanner: token too long''"

text \<open>\<open>net.SplitHostPort\<close>, without the texts of its errors.\<close>

definition SplitHostPort :: "string \<Rightarrow> (string \<times> string) option" where
  "SplitHostPort hostport =
     (case last_index hostport CHR '':'' of
        None \<Rightarrow> None
      | Some i \<Rightarrow>
          if is_prefix ''['' hostport
          then (case str_index hostport '']'' of
                  None \<Rightarrow> None
                | Some e \<Rightarrow>
                    if e + 1 \<noteq> i then None
                    else if CHR ''['' \<in> set (drop 1 hostport) \<or> CHR '']'' \<in> set (drop (e + 1) hostport) then None
                    else Some (take (e - 1) (drop 1 hostport), drop (i + 1) hostport))
          else if CHR '':'' \<in> set (take i hostport) \<or> CHR ''['' \<in> set hostport \<or> CHR '']'' \<in> set hostport then None
          else Some (take i hostport, drop (i + 1) hostport))"

definition text_record :: "string \<Rightarrow> string \<Rightarrow> timestamp \<Rightarrow> string \<Rightarrow> ProxyRecord option" where
  "text_record name protocol now text =
     (let line0 = trim_space text
      in if line0 = [] then None
         else let line = (case str_index line0 ''://'' of None \<Rightarrow> line0 | Some idx \<Rightarrow> drop (idx + 3) line0)
              in case SplitHostPort line of
                   None \<Rightarrow> None
                 | Some (host, portStr) \<Rightarrow>
                     (case sscanf_d portStr of None \<Rightarrow> None | Some port \<Rightarrow> Some (discovered protocol host port now name)))"

text \<open>The state of the callback is the state of the emitter with the counter of fetched records.\<close>

fun text_lines :: "string \<Rightarrow> string \<Rightarrow> timestamp \<Rightarrow> 's emitter \<Rightarrow> string list \<Rightarrow> 's \<times> nat \<Rightarrow> err option \<times> 's \<times> nat" where
  "text_lines name protocol now emit [] sn = (None, sn)"
| "text_lines name protocol now emit (l # ls) (s, n) =
     (case text_record name protocol now l of
        None \<Rightarrow> text_lines name protocol now emit ls (s, n)
      | Some r \<Rightarrow>
          (case emit r s of
             (Some e, s') \<Rightarrow> (Some (EJoin [ESent ErrEmitFailed, e]), s', n)
           | (None, s') \<Rightarrow> text_lines name protocol now emit ls (s', n + 1)))"

definition text_consume :: "string \<Rightarrow> string \<Rightarrow> timestamp \<Rightarrow> 's emitter \<Rightarrow> (string \<times> err option, 's \<times> nat) consumer" where
  "text_consume name protocol now emit status body sn =
     (if status \<noteq> 200 then (Some (EText (name @ '': unexpected status '' @ show_int status @ '' for '' @ protocol)), sn)
      else case scan_lines (fst body) of
             (ls, long) \<Rightarrow>
               (case text_lines name protocol now emit ls sn of
                  (Some e, sn') \<Rightarrow> (Some e, sn')
                | (None, sn') \<Rightarrow> (if long then Some ErrTooLong else snd body, sn')))"

text \<open>The urls in the order of the map iteration, with the clock at each.\<close>

fun text_urls :: "(string \<times> err option, 's \<times> nat, 'w) getter \<Rightarrow> string \<Rightarrow> (string \<Rightarrow> timestamp) \<Rightarrow> 's emitter \<Rightarrow> (string \<times> string) list
    \<Rightarrow> 'w \<times> 's \<times> nat \<Rightarrow> err option \<times> 'w \<times> 's \<times> nat" where
  "text_urls get name now emit [] ws = (None, ws)"
| "text_urls get name now emit ((protocol, url) # urls) ws =
     (case get \<lparr>sq_URL = url, sq_QueryParams = [], sq_Headers = []\<rparr> (text_consume name protocol (now protocol) emit) ws of
        (Some e, ws') \<Rightarrow> if errors_is e ErrEmitFailed then (Some e, ws') else text_urls get name now emit urls ws'
      | (None, ws') \<Rightarrow> text_urls get name now emit urls ws')"

definition textproxy_FetchProxies :: "(string \<times> err option, 's \<times> nat, 'w) getter \<Rightarrow> string \<Rightarrow> (string \<Rightarrow> timestamp) \<Rightarrow> (string \<times> string) list
    \<Rightarrow> 's emitter \<Rightarrow> 'w \<times> 's \<Rightarrow> (err option \<times> 'w \<times> 's) option" where
  "textproxy_FetchProxies get name now urls emit ws =
     Some (case text_urls get name now emit urls (fst ws, snd ws, 0) of
             (Some e, w, s, n) \<Rightarrow> (Some e, w, s)
           | (None, w, s, n) \<Rightarrow> (if n = 0 then Some (EText (name @ '': no proxies fetched from any source'')) else None, w, s))"

section \<open>The contract of a provider\<close>

text \<open>
  With the client in state \<open>w\<close>, the provider emits the records \<open>rs\<close> in order. When the callback takes them all, the result is
  \<open>fin\<close> (\<open>None\<close> while it is still fetching); otherwise it stops at the first error and returns one that carries it.
\<close>

definition streams :: "('s emitter \<Rightarrow> 'w \<times> 's \<Rightarrow> (err option \<times> 'w \<times> 's) option) \<Rightarrow> 'w \<Rightarrow> ProxyRecord list \<Rightarrow> (err option \<times> 'w) option \<Rightarrow> bool" where
  "streams fetch w rs fin \<longleftrightarrow> (\<forall>emit s.
     case emit_all emit rs s of
       (None, s') \<Rightarrow> fetch emit (w, s) = map_option (\<lambda>(r, w'). (r, w', s')) fin
     | (Some e, s') \<Rightarrow> \<exists>e' w'. fetch emit (w, s) = Some (Some e', w', s') \<and> (\<forall>x. errors_is e x \<longrightarrow> errors_is e' x))"

text \<open>A record of the given source without any evidence.\<close>

definition listed :: "string \<Rightarrow> ProxyRecord \<Rightarrow> bool" where
  "listed name r \<longleftrightarrow> pr_Source r = name \<and> pr_Status r = ProxyStatusInactive \<and> pr_ID r = 0 \<and> \<not> pr_GeneralHealthy r
     \<and> pr_LastVerifiedAt r = None \<and> pr_LockedBy r = None \<and> pr_ScanToken r = None"

locale proxy_provider =
  fixes fetch :: "'s emitter \<Rightarrow> 'w \<times> 's \<Rightarrow> (err option \<times> 'w \<times> 's) option" and name :: string
  assumes contract: "\<exists>rs fin. streams fetch w rs fin \<and> list_all (listed name) rs"

lemma discovered_listed [simp]:
  "listed name (discovered pr ip po now name)"
  "listed name ((discovered pr ip po now name)\<lparr>pr_Country := c, pr_Anonymity := a\<rparr>)"
  "listed name ((discovered pr ip po now name)\<lparr>pr_Country := c, pr_Anonymity := a, pr_UptimePercent := u\<rparr>)"
  by (simp_all add: listed_def discovered_def zero_proxy_def)

lemma emit_all_append:
  "emit_all emit (xs @ ys) s = (case emit_all emit xs s of (Some e, s') \<Rightarrow> (Some e, s') | (None, s') \<Rightarrow> emit_all emit ys s')"
  by (induction xs arbitrary: s) (auto split: prod.splits option.splits)

text \<open>Emitting the records and then ending with the given result.\<close>

definition emitting :: "ProxyRecord list \<Rightarrow> err option \<Rightarrow> 's emitter \<Rightarrow> 's \<Rightarrow> err option \<times> 's" where
  "emitting rs fin emit s = (case emit_all emit rs s of (Some e, s') \<Rightarrow> (Some e, s') | (None, s') \<Rightarrow> (fin, s'))"

lemma emitting_Nil [simp]: "emitting [] fin emit s = (fin, s)"
  by (simp add: emitting_def)

lemma emitting_Cons: "emitting (r # rs) fin emit s = (case emit r s of (Some e, s') \<Rightarrow> (Some e, s') | (None, s') \<Rightarrow> emitting rs fin emit s')"
  by (auto simp: emitting_def split: prod.splits option.splits)

lemma each_element_emitting:
  assumes "\<forall>v r. each v = Inr (Some r) \<longrightarrow> P r"
  shows "\<exists>rs fin. (\<forall>(emit :: 's emitter) s. each_element name each emit vs en s = emitting rs fin emit s) \<and> list_all P rs"
proof (induction vs)
  case Nil
  show ?case by (cases en) (auto intro!: exI [of _ "[]"])
next
  case (Cons v vs)
  then obtain rs fin where ih: "\<And>(emit :: 's emitter) s. each_element name each emit vs en s = emitting rs fin emit s" "list_all P rs" by blast
  show ?case
  proof (cases "each v")
    case (Inl e)
    then show ?thesis by (intro exI [of _ "[]"]) auto
  next
    case (Inr x)
    show ?thesis
    proof (cases x)
      case None
      with Inr ih show ?thesis by auto
    next
      case (Some r)
      with Inr ih assms show ?thesis by (intro exI [of _ "r # rs"] exI [of _ fin]) (auto simp: emitting_Cons split: prod.splits option.splits)
    qed
  qed
qed

lemma read_array_emitting:
  assumes "\<forall>v r. each v = Inr (Some r) \<longrightarrow> P r"
  shows "\<exists>rs fin. (\<forall>(emit :: 's emitter) s. read_array name key each emit f s = emitting rs fin emit s) \<and> list_all P rs"
proof (cases f)
  case (Whole v)
  show ?thesis
  proof (cases "\<exists>vs. v = JArr vs")
    case True
    with Whole each_element_emitting [of each P, OF assms] show ?thesis by auto
  next
    case False
    then have "read_array name key each emit f s = emitting [] (Some (EText (name @ '' '' @ key @ '': expected array''))) emit s"
      for emit :: "'s emitter" and s
      unfolding Whole by (cases v) auto
    then show ?thesis by (intro exI [of _ "[]"]) auto
  qed
next
  case (Elements vs en)
  with each_element_emitting [of each P, OF assms] show ?thesis by auto
qed (auto intro!: exI [of _ "[]"])

lemma find_array_emitting:
  assumes "\<forall>v r. each v = Inr (Some r) \<longrightarrow> P r"
  shows "\<exists>rs fin. (\<forall>(emit :: 's emitter) s. find_array name key each emit fs en s = emitting rs fin emit s) \<and> list_all P rs"
proof (induction fs)
  case Nil
  show ?case by (cases en) (auto intro!: exI [of _ "[]"])
next
  case (Cons kf fs)
  obtain k f where kf: "kf = (k, f)" by (cases kf)
  show ?case
  proof (cases "k = key")
    case True
    from read_array_emitting [of each P name key f, OF assms] obtain rs fin where
      r: "\<And>(emit :: 's emitter) s. read_array name key each emit f s = emitting rs fin emit s" "list_all P rs" by blast
    let ?fin = "case fin of Some e \<Rightarrow> Some e | None \<Rightarrow> skip_rest name fs en"
    have "find_array name key each emit (kf # fs) en s = emitting rs ?fin emit s" for emit :: "'s emitter" and s
      using kf True r(1) by (auto simp: emitting_def split: prod.splits option.splits)
    with r(2) show ?thesis by blast
  next
    case False
    show ?thesis
    proof (cases "broken f")
      case None
      with Cons kf False show ?thesis by auto
    next
      case (Some e)
      with kf False show ?thesis by (intro exI [of _ "[]"]) auto
    qed
  qed
qed

lemma array_consume_emitting:
  assumes "\<forall>v r. each v = Inr (Some r) \<longrightarrow> P r"
  shows "\<exists>rs fin. (\<forall>(emit :: 's emitter) s. array_consume name key each emit st body s = emitting rs fin emit s) \<and> list_all P rs"
proof (cases "st = 200")
  case True
  show ?thesis
  proof (cases body)
    case (Object fs en)
    with True find_array_emitting [of each P, OF assms] show ?thesis by (auto simp: array_consume_def)
  qed (use True in \<open>auto simp: array_consume_def intro!: exI [of _ "[]"]\<close>)
qed (auto simp: array_consume_def intro!: exI [of _ "[]"])

text \<open>A request whose consumer emits and ends is a provider.\<close>

lemma request_streams:
  fixes get :: "('b, 's, 'w) getter"
  assumes "stream_client get"
    and "\<And>st b. \<exists>rs fin. (\<forall>(emit :: 's emitter) s. consume emit st b s = emitting rs fin emit s) \<and> list_all P rs"
  shows "\<exists>rs fin. streams (\<lambda>emit ws. Some (get q (consume emit) ws)) w rs fin \<and> list_all P rs"
proof -
  from stream_client.handed_once [OF assms(1)] obtain out w' where
    o: "\<And>consume s. get q consume (w, s) = (case hand_over out consume s of (r, s') \<Rightarrow> (r, w', s'))" by blast
  show ?thesis
  proof (cases out)
    case (Inl e)
    with o show ?thesis
      by (intro exI [of _ "[]"] exI [of _ "Some (Some e, w')"]) (simp add: streams_def hand_over_def)
  next
    case (Inr a)
    obtain st b where a: "a = (st, b)" by (cases a)
    from assms(2) [of st b] obtain rs fin where
      c: "\<And>(emit :: 's emitter) s. consume emit st b s = emitting rs fin emit s" "list_all P rs" by blast
    have "streams (\<lambda>emit ws. Some (get q (consume emit) ws)) w rs (Some (fin, w'))"
      unfolding streams_def using o Inr a c(1) by (auto simp: hand_over_def emitting_def split: prod.splits option.splits)
    with c(2) show ?thesis by blast
  qed
qed

lemma proxyscrape_each_listed: "proxyscrape_each now v = Inr (Some r) \<Longrightarrow> listed ''proxyscrape'' r"
  by (auto simp: proxyscrape_each_def Let_def split: prod.splits if_splits)

lemma pubproxy_each_listed: "pubproxy_each now v = Inr (Some r) \<Longrightarrow> listed ''pubproxy'' r"
  by (auto simp: pubproxy_each_def Let_def split: prod.splits if_splits option.splits)

lemma proxyscrape_provider:
  fixes get :: "(json_body, 's, 'w) getter"
  assumes "stream_client get"
  shows "proxy_provider (proxyscrape_FetchProxies get base now) ''proxyscrape''"
proof
  fix w
  show "\<exists>rs fin. streams (proxyscrape_FetchProxies get base now) w rs fin \<and> list_all (listed ''proxyscrape'') rs"
    unfolding proxyscrape_FetchProxies_def
    by (rule request_streams [OF assms array_consume_emitting]) (simp add: proxyscrape_each_listed)
qed

lemma pubproxy_provider:
  fixes get :: "(json_body, 's, 'w) getter"
  assumes "stream_client get"
  shows "proxy_provider (pubproxy_FetchProxies get base now) ''pubproxy''"
proof
  fix w
  show "\<exists>rs fin. streams (pubproxy_FetchProxies get base now) w rs fin \<and> list_all (listed ''pubproxy'') rs"
    unfolding pubproxy_FetchProxies_def
    by (rule request_streams [OF assms array_consume_emitting]) (simp add: pubproxy_each_listed)
qed

section \<open>Geonode pages\<close>

lemma geonode_records_listed: "list_all (listed ''geonode'') (concat (map (geonode_records now) ps))"
  by (auto simp: list_all_iff geonode_records_def split: option.splits)

lemma geonode_pages_stream:
  fixes get :: "(json_body, geonode_proxy list \<times> int, 'w) getter"
  shows "\<exists>rs fin. streams (\<lambda>(emit :: 's emitter) ws. geonode_pages get base now emit m page ws) w rs fin \<and> list_all (listed ''geonode'') rs"
proof (induction m arbitrary: page w)
  case 0
  show ?case by (intro exI [of _ "[]"] exI [of _ None]) (simp add: streams_def)
next
  case (Suc m)
  obtain r w1 pd pt where g: "get (geonode_query base page) (geonode_consume page) (w, [], 0) = (r, w1, pd, pt)" by (metis prod.exhaust)
  let ?rs = "concat (map (geonode_records (now page)) pd)"
  show ?case
  proof (cases r)
    case (Some e)
    with g show ?thesis
      by (intro exI [of _ "[]"] exI [of _ "Some (Some (wrapped (''geonode fetch page '' @ show_int page) e), w1)"]) (simp add: streams_def)
  next
    case None
    show ?thesis
    proof (cases "int (length pd) < geonode_limit \<or> i64 (page * geonode_limit) \<ge> pt")
      case True
      have "streams (\<lambda>(emit :: 's emitter) ws. geonode_pages get base now emit (Suc m) page ws) w ?rs (Some (None, w1))"
        unfolding streams_def using g None True by (auto split: prod.splits option.splits)
      then show ?thesis using geonode_records_listed by blast
    next
      case False
      from Suc.IH [of "page + 1" w1] obtain rs fin where ih: "streams (\<lambda>(emit :: 's emitter) ws. geonode_pages get base now emit m (page + 1) ws) w1 rs fin"
        "list_all (listed ''geonode'') rs" by blast
      have "streams (\<lambda>(emit :: 's emitter) ws. geonode_pages get base now emit (Suc m) page ws) w (?rs @ rs) fin"
        unfolding streams_def
      proof (intro allI)
        fix emit :: "'s emitter" and s
        obtain x s1 where x: "emit_all emit ?rs s = (x, s1)" by (cases "emit_all emit ?rs s")
        from ih(1) have i: "case emit_all emit rs s1 of
            (None, s') \<Rightarrow> geonode_pages get base now emit m (page + 1) (w1, s1) = map_option (\<lambda>(r, w'). (r, w', s')) fin
          | (Some e, s') \<Rightarrow> \<exists>e' w'. geonode_pages get base now emit m (page + 1) (w1, s1) = Some (Some e', w', s')
              \<and> (\<forall>x. errors_is e x \<longrightarrow> errors_is e' x)" by (simp add: streams_def)
        show "case emit_all emit (?rs @ rs) s of
            (None, s') \<Rightarrow> geonode_pages get base now emit (Suc m) page (w, s) = map_option (\<lambda>(r, w'). (r, w', s')) fin
          | (Some e, s') \<Rightarrow> \<exists>e' w'. geonode_pages get base now emit (Suc m) page (w, s) = Some (Some e', w', s')
              \<and> (\<forall>x. errors_is e x \<longrightarrow> errors_is e' x)"
          using g None False x i by (cases x) (auto simp: emit_all_append split: prod.splits option.splits)
      qed
      moreover have "list_all (listed ''geonode'') (?rs @ rs)" using ih(2) geonode_records_listed [of "now page" pd] by simp
      ultimately show ?thesis by blast
    qed
  qed
qed

lemma geonode_provider: "proxy_provider (geonode_FetchProxies fuel get base now) ''geonode''"
proof
  fix w
  have e: "geonode_FetchProxies fuel get base now = (\<lambda>emit ws. geonode_pages get base now emit fuel 1 ws)"
    by (intro ext) (simp add: geonode_FetchProxies_def)
  show "\<exists>rs fin. streams (geonode_FetchProxies fuel get base now) w rs fin \<and> list_all (listed ''geonode'') rs"
    unfolding e by (rule geonode_pages_stream)
qed

section \<open>Text lists\<close>

definition text_records :: "string \<Rightarrow> string \<Rightarrow> timestamp \<Rightarrow> string list \<Rightarrow> ProxyRecord list" where
  "text_records name protocol now ls = List.map_filter (text_record name protocol now) ls"

lemma text_records_listed: "list_all (listed name) (text_records name protocol now ls)"
  by (auto simp: text_records_def List.map_filter_def list_all_iff text_record_def Let_def split: option.splits if_splits prod.splits)

lemma text_lines_emitting:
  "case emit_all emit (text_records name protocol now ls) s of
     (None, s') \<Rightarrow> text_lines name protocol now emit ls (s, n) = (None, s', n + length (text_records name protocol now ls))
   | (Some e, s') \<Rightarrow> \<exists>n'. text_lines name protocol now emit ls (s, n) = (Some (EJoin [ESent ErrEmitFailed, e]), s', n')"
proof (induction ls arbitrary: s n)
  case Nil
  show ?case by (simp add: text_records_def List.map_filter_def)
next
  case (Cons l ls)
  show ?case
  proof (cases "text_record name protocol now l")
    case None
    then have e: "text_records name protocol now (l # ls) = text_records name protocol now ls"
        "text_lines name protocol now emit (l # ls) (s, n) = text_lines name protocol now emit ls (s, n)"
      by (simp_all add: text_records_def List.map_filter_def)
    show ?thesis unfolding e by (rule Cons.IH)
  next
    case (Some r)
    then have e: "text_records name protocol now (l # ls) = r # text_records name protocol now ls"
      by (simp add: text_records_def List.map_filter_def)
    obtain x s1 where x: "emit r s = (x, s1)" by (cases "emit r s")
    show ?thesis
    proof (cases x)
      case None
      with Cons.IH [of s1 "n + 1"] e x Some show ?thesis by (auto split: prod.splits option.splits)
    qed (use e x Some in auto)
  qed
qed

text \<open>What one response contributes: its records, and its error.\<close>

lemma text_consume_emitting:
  "\<exists>rs fin. list_all (listed name) rs \<and> (\<forall>(emit :: 's emitter) s n. case emit_all emit rs s of
     (None, s') \<Rightarrow> text_consume name protocol now emit st body (s, n) = (fin, s', n + length rs)
   | (Some e, s') \<Rightarrow> \<exists>n'. text_consume name protocol now emit st body (s, n) = (Some (EJoin [ESent ErrEmitFailed, e]), s', n'))"
proof (cases "st = 200")
  case True
  obtain ls long where sc: "scan_lines (fst body) = (ls, long)" by (cases "scan_lines (fst body)")
  let ?rs = "text_records name protocol now ls"
  have "case emit_all emit ?rs s of
     (None, s') \<Rightarrow> text_consume name protocol now emit st body (s, n) = (if long then Some ErrTooLong else snd body, s', n + length ?rs)
   | (Some e, s') \<Rightarrow> \<exists>n'. text_consume name protocol now emit st body (s, n) = (Some (EJoin [ESent ErrEmitFailed, e]), s', n')"
    for emit :: "'s emitter" and s n
    using text_lines_emitting [where emit = emit and name = name and protocol = protocol and now = now and ls = ls and s = s and n = n] True sc
    by (auto simp: text_consume_def split: prod.splits option.splits)
  with text_records_listed show ?thesis by blast
qed (auto simp: text_consume_def intro!: exI [of _ "[]"])

lemma text_urls_emitting:
  fixes get :: "(string \<times> err option, 's \<times> nat, 'w) getter"
  assumes "stream_client get"
  shows "\<exists>rs fin w'. list_all (listed name) rs \<and> (\<forall>(emit :: 's emitter) s n. case emit_all emit rs s of
     (None, s') \<Rightarrow> text_urls get name now emit urls (w, s, n) = (fin, w', s', n + length rs)
   | (Some e, s') \<Rightarrow> \<exists>w'' n'. text_urls get name now emit urls (w, s, n) = (Some (EJoin [ESent ErrEmitFailed, e]), w'', s', n'))"
proof (induction urls arbitrary: w)
  case Nil
  show ?case by (intro exI [of _ "[]"] exI [of _ None] exI [of _ w]) simp
next
  case (Cons pu urls)
  obtain protocol url where pu: "pu = (protocol, url)" by (cases pu)
  let ?q = "\<lparr>sq_URL = url, sq_QueryParams = [], sq_Headers = []\<rparr>"
  from stream_client.handed_once [OF assms, of ?q w] obtain out w1 where
    o: "\<And>consume s. get ?q consume (w, s) = (case hand_over out consume s of (r, s') \<Rightarrow> (r, w1, s'))" by blast
  have one: "\<exists>rs fin. list_all (listed name) rs \<and> (\<forall>(emit :: 's emitter) s n. case emit_all emit rs s of
       (None, s') \<Rightarrow> hand_over out (text_consume name protocol (now protocol) emit) (s, n) = (fin, s', n + length rs)
     | (Some e, s') \<Rightarrow> \<exists>n'. hand_over out (text_consume name protocol (now protocol) emit) (s, n) = (Some (EJoin [ESent ErrEmitFailed, e]), s', n'))"
  proof (cases out)
    case (Inl e)
    then show ?thesis by (intro exI [of _ "[]"]) (simp add: hand_over_def)
  next
    case (Inr a)
    obtain st b where a: "a = (st, b)" by (cases a)
    show ?thesis unfolding Inr a hand_over_def sum.case prod.case by (rule text_consume_emitting)
  qed
  then obtain rs1 fin1 where r1: "list_all (listed name) rs1" and h: "\<And>(emit :: 's emitter) s n. case emit_all emit rs1 s of
       (None, s') \<Rightarrow> hand_over out (text_consume name protocol (now protocol) emit) (s, n) = (fin1, s', n + length rs1)
     | (Some e, s') \<Rightarrow> \<exists>n'. hand_over out (text_consume name protocol (now protocol) emit) (s, n) = (Some (EJoin [ESent ErrEmitFailed, e]), s', n')"
    by blast
  from Cons.IH [of w1] obtain rs2 fin2 w2 where r2: "list_all (listed name) rs2" and i: "\<And>(emit :: 's emitter) s n. case emit_all emit rs2 s of
     (None, s') \<Rightarrow> text_urls get name now emit urls (w1, s, n) = (fin2, w2, s', n + length rs2)
   | (Some e, s') \<Rightarrow> \<exists>w'' n'. text_urls get name now emit urls (w1, s, n) = (Some (EJoin [ESent ErrEmitFailed, e]), w'', s', n')"
    by blast
  show ?case
  proof (cases "\<exists>e. fin1 = Some e \<and> errors_is e ErrEmitFailed")
    case True
    have "case emit_all emit rs1 s of
       (None, s') \<Rightarrow> text_urls get name now emit (pu # urls) (w, s, n) = (fin1, w1, s', n + length rs1)
     | (Some e, s') \<Rightarrow> \<exists>w'' n'. text_urls get name now emit (pu # urls) (w, s, n) = (Some (EJoin [ESent ErrEmitFailed, e]), w'', s', n')"
      for emit :: "'s emitter" and s n
      using True h [of emit s n] o pu by (auto split: prod.splits option.splits)
    with r1 show ?thesis by blast
  next
    case False
    have "case emit_all emit (rs1 @ rs2) s of
       (None, s') \<Rightarrow> text_urls get name now emit (pu # urls) (w, s, n) = (fin2, w2, s', n + length (rs1 @ rs2))
     | (Some e, s') \<Rightarrow> \<exists>w'' n'. text_urls get name now emit (pu # urls) (w, s, n) = (Some (EJoin [ESent ErrEmitFailed, e]), w'', s', n')"
      for emit :: "'s emitter" and s n
    proof (cases "emit_all emit rs1 s")
      case (Pair x s1)
      show ?thesis
      proof (cases x)
        case None
        with Pair h [of emit s n] o pu False have "text_urls get name now emit (pu # urls) (w, s, n) = text_urls get name now emit urls (w1, s1, n + length rs1)"
          by (auto split: option.splits)
        with Pair None i [of emit s1 "n + length rs1"] show ?thesis
          by (auto simp: emit_all_append add.assoc split: prod.splits option.splits)
      next
        case (Some e)
        with Pair h [of emit s n] o pu show ?thesis by (auto simp: emit_all_append)
      qed
    qed
    with r1 r2 show ?thesis by (intro exI [of _ "rs1 @ rs2"] exI [of _ fin2] exI [of _ w2]) simp
  qed
qed

lemma textproxy_provider:
  fixes get :: "(string \<times> err option, 's \<times> nat, 'w) getter"
  assumes "stream_client get"
  shows "proxy_provider (textproxy_FetchProxies get name now urls) name"
proof
  fix w
  from text_urls_emitting [OF assms, of name now urls w] obtain rs fin w' where r: "list_all (listed name) rs"
    and t: "\<And>(emit :: 's emitter) s n. case emit_all emit rs s of
     (None, s') \<Rightarrow> text_urls get name now emit urls (w, s, n) = (fin, w', s', n + length rs)
   | (Some e, s') \<Rightarrow> \<exists>w'' n'. text_urls get name now emit urls (w, s, n) = (Some (EJoin [ESent ErrEmitFailed, e]), w'', s', n')" by blast
  let ?fin = "case fin of Some e \<Rightarrow> Some e | None \<Rightarrow> if rs = [] then Some (EText (name @ '': no proxies fetched from any source'')) else None"
  have "streams (textproxy_FetchProxies get name now urls) w rs (Some (?fin, w'))"
    unfolding streams_def
  proof (intro allI)
    fix emit :: "'s emitter" and s
    show "case emit_all emit rs s of
       (None, s') \<Rightarrow> textproxy_FetchProxies get name now urls emit (w, s) = map_option (\<lambda>(r, w'). (r, w', s')) (Some (?fin, w'))
     | (Some e, s') \<Rightarrow> \<exists>e' w'. textproxy_FetchProxies get name now urls emit (w, s) = Some (Some e', w', s')
         \<and> (\<forall>x. errors_is e x \<longrightarrow> errors_is e' x)"
      using t [of emit s 0] by (cases fin) (auto simp: textproxy_FetchProxies_def split: prod.splits option.splits)
  qed
  with r show "\<exists>rs fin. streams (textproxy_FetchProxies get name now urls) w rs fin \<and> list_all (listed name) rs" by blast
qed

section \<open>The providers over the rotating client\<close>

interpretation geonode: proxy_provider "geonode_FetchProxies fuel (rotating_get hub net) base now" "''geonode''"
  for fuel hub net base now
  by (rule geonode_provider)

interpretation proxyscrape: proxy_provider "proxyscrape_FetchProxies (rotating_get hub net) base now" "''proxyscrape''"
  for hub :: "'w ProxyHub" and net base now
  by (rule proxyscrape_provider [OF rotating_client.stream_client_axioms])

interpretation pubproxy: proxy_provider "pubproxy_FetchProxies (rotating_get hub net) base now" "''pubproxy''"
  for hub :: "'w ProxyHub" and net base now
  by (rule pubproxy_provider [OF rotating_client.stream_client_axioms])

interpretation textproxy: proxy_provider "textproxy_FetchProxies (rotating_get hub net) name now urls" name
  for hub :: "'w ProxyHub" and net name now urls
  by (rule textproxy_provider [OF rotating_client.stream_client_axioms])

section \<open>Reading back a text list\<close>

definition ipv4_chars :: "string \<Rightarrow> bool" where
  "ipv4_chars ip \<longleftrightarrow> ip \<noteq> [] \<and> list_all (\<lambda>c. is_digit c \<or> c = CHR ''.'') ip"

definition endpoint_line :: "string \<times> nat \<Rightarrow> string" where
  "endpoint_line e = fst e @ CHR '':'' # show_nat (snd e)"

definition endpoint_ok :: "string \<times> nat \<Rightarrow> bool" where
  "endpoint_ok e \<longleftrightarrow> ipv4_chars (fst e) \<and> int (snd e) \<le> max_i64 \<and> length (endpoint_line e) < max_line"

definition rendered_list :: "(string \<times> nat) list \<Rightarrow> string" where
  "rendered_list es = concat (map (\<lambda>e. endpoint_line e @ [CHR 0x0A]) es)"

lemma ipv4_free:
  assumes "ipv4_chars ip" and "\<not> is_digit c" and "c \<noteq> CHR ''.''"
  shows "c \<notin> set ip"
  using assms by (auto simp: ipv4_chars_def list_all_iff)

lemma skip_space_printable:
  assumes "s \<noteq> []" and "printable (hd s)"
  shows "skip_space s = Some s"
proof -
  obtain c cs where s: "s = c # cs" using assms(1) by (cases s) auto
  have "\<not> is_prefix r s" if "r \<in> set space_runes" for r
  proof -
    have "r \<noteq> [] \<and> \<not> printable (hd r)" using space_bytes that by (auto simp: list_all_iff)
    then show ?thesis using assms(2) s by (cases r) auto
  qed
  then have "find (\<lambda>r. is_prefix r (c # cs)) space_runes = None" unfolding s by (auto simp: find_None_iff)
  moreover have "c \<noteq> CHR 0x0A" using assms(2) s by (auto simp: printable_def)
  ultimately show ?thesis unfolding s by simp
qed

lemma sscanf_show:
  assumes "int n \<le> max_i64"
  shows "sscanf_d (show_nat n) = Some (int n)"
proof -
  let ?d = "show_nat n"
  have "printable (hd ?d)" using hd_show [of n] by (auto simp: printable_def is_digit_range)
  then have k: "skip_space ?d = Some ?d" using show_nat_nonempty skip_space_printable by blast
  have "\<not> is_prefix ''-'' ?d" "\<not> is_prefix ''+'' ?d"
    using hd_show [of n] show_nat_nonempty [of n] by (cases ?d; auto simp: is_digit_range)+
  moreover have "takeWhile is_digit ?d = ?d" using show_nat_chars [of _ n] by (simp add: takeWhile_eq_all_conv)
  ultimately show ?thesis using k atoi_show [OF assms] show_nat_nonempty [of n] by (simp add: sscanf_d_def Let_def del: takeWhile_eq_all_conv)
qed

lemma endpoint_back:
  assumes "endpoint_ok e"
  shows "text_record name protocol now (endpoint_line e) = Some (discovered protocol (fst e) (int (snd e)) now name)"
proof -
  obtain ip n where e: "e = (ip, n)" by (cases e)
  let ?d = "show_nat n" and ?l = "ip @ CHR '':'' # show_nat n"
  have ip: "ipv4_chars ip" "int n \<le> max_i64" "ip \<noteq> []" using assms e by (auto simp: endpoint_ok_def ipv4_chars_def)
  have free: "CHR '':'' \<notin> set ip" "CHR ''['' \<notin> set ip" "CHR '']'' \<notin> set ip" "CHR '':'' \<notin> set ?d" "CHR ''['' \<notin> set ?d" "CHR '']'' \<notin> set ?d"
    using ipv4_free [OF ip(1)] show_nat_free [of _ n] by (auto simp: is_digit_range)
  have "printable (hd ip)" using ip by (auto simp: ipv4_chars_def list_all_iff printable_def is_digit_range dest!: hd_in_set)
  moreover have "printable (last ?d)" using show_nat_chars [OF last_in_set [OF show_nat_nonempty], of n] by (auto simp: printable_def is_digit_range)
  ultimately have tr: "trim_space ?l = ?l" using ip(3) show_nat_nonempty [of n] by (intro trim_printable) auto
  have "str_index ?d ''://'' = None"
    using str_index_skip [of "''://''" ?d "[]"] free(4) by simp
  moreover have "\<not> is_prefix ''//'' ?d" using hd_show [of n] show_nat_nonempty [of n] by (cases ?d) (auto simp: is_digit_range)
  ultimately have nosch: "str_index ?l ''://'' = None"
    using str_index_skip [of "''://''" ip "CHR '':'' # ?d"] free(1) by simp
  have "\<not> is_prefix ''['' ?l" using free(2) ip(3) by (cases ip) auto
  then have "SplitHostPort ?l = Some (ip, ?d)"
    using last_index_snoc [OF free(4), of ip] free by (simp add: SplitHostPort_def)
  then show ?thesis using e tr nosch ip(3) sscanf_show [OF ip(2)] by (simp add: text_record_def endpoint_line_def Let_def)
qed

lemma scan_back:
  assumes "list_all endpoint_ok es"
  shows "scan_lines (rendered_list es) = (map endpoint_line es, False)"
  using assms
proof (induction es)
  case Nil
  show ?case by (simp add: rendered_list_def)
next
  case (Cons e es)
  let ?l = "endpoint_line e" and ?nl = "CHR 0x0A"
  have e: "ipv4_chars (fst e)" "length ?l < max_line" using Cons.prems by (auto simp: endpoint_ok_def)
  have nl: "?nl \<notin> set ?l" "last ?l \<noteq> CHR 0x0D"
    using ipv4_free [OF e(1), of ?nl] show_nat_free [of ?nl "snd e"] show_nat_chars [OF last_in_set [OF show_nat_nonempty], of "snd e"]
    by (auto simp: endpoint_line_def is_digit_range show_nat_nonempty)
  have cr: "drop_cr ?l = ?l" using nl(2) by (auto simp: drop_cr_def trim_suffix_def has_suffix_iff)
  have r: "rendered_list (e # es) = ?l @ ?nl # rendered_list es" by (simp add: rendered_list_def)
  have ne: "?l \<noteq> []" by (simp add: endpoint_line_def)
  have tw: "takeWhile (\<lambda>x. x \<noteq> ?nl) (?l @ ?nl # rendered_list es) = ?l" "dropWhile (\<lambda>x. x \<noteq> ?nl) (?l @ ?nl # rendered_list es) = ?nl # rendered_list es"
    using nl(1) by (auto simp: takeWhile_append dropWhile_append)
  have "scan_lines (?l @ ?nl # rendered_list es) = (?l # map endpoint_line es, False)"
  proof (cases "?l @ ?nl # rendered_list es")
    case (Cons c cs)
    show ?thesis using Cons.IH Cons.prems e(2) cr tw Cons
      unfolding Cons by (simp add: Let_def)
  qed simp
  then show ?case by (simp add: r)
qed

section \<open>The pages end\<close>

lemma geonode_pages_return:
  assumes "\<And>page w w' d total. get (geonode_query base page) (geonode_consume page) (w, [], 0) = (None, w', d, total) \<Longrightarrow> total \<le> T"
    and "0 < m" and "1 \<le> page" and "T \<le> 100 * (page + int m - 1)" and "100 * (page + int m) \<le> max_i64"
  shows "\<exists>r. geonode_pages get base now emit m page ws = Some r"
  using assms(2-)
proof (induction m arbitrary: page ws)
  case (Suc m)
  obtain w s where ws: "ws = (w, s)" by (cases ws)
  obtain r w1 pd pt where g: "get (geonode_query base page) (geonode_consume page) (w, [], 0) = (r, w1, pd, pt)" by (metis prod.exhaust)
  obtain x s1 where x: "emit_all emit (concat (map (geonode_records (now page)) pd)) s = (x, s1)" by (metis prod.exhaust)
  show ?case
  proof (cases "r = None \<and> x = None \<and> \<not> (int (length pd) < geonode_limit \<or> i64 (page * geonode_limit) \<ge> pt)")
    case True
    then have "pt \<le> T" using assms(1) g by blast
    moreover have "i64 (page * geonode_limit) = 100 * page"
      using Suc.prems by (simp add: geonode_limit_def i64_id is_i64_def min_i64_def max_i64_def)
    ultimately have "100 * page < T" using True by linarith
    then have "\<exists>r. geonode_pages get base now emit m (page + 1) (w1, s1) = Some r" using Suc.prems by (intro Suc.IH) auto
    then show ?thesis using True g x ws by auto
  next
    case False
    then show ?thesis using g x ws by (auto split: option.splits)
  qed
qed simp

section \<open>Properties\<close>

text \<open>The text provider reads its lists exactly: from a list with one ip:port per line it emits one record per line, in order, with
  the protocol of the list, the address and the port (ports that an int holds, lines that fit the scanner's buffer).\<close>

lemma text_list_roundtrip:
  assumes "list_all endpoint_ok es"
  shows "text_records name protocol now (fst (scan_lines (rendered_list es)))
      = map (\<lambda>(ip, n). discovered protocol ip (int n) now name) es
    \<and> \<not> snd (scan_lines (rendered_list es))"
proof -
  have "text_records name protocol now (map endpoint_line es) = map (\<lambda>(ip, n). discovered protocol ip (int n) now name) es"
    using assms by (induction es) (auto simp: text_records_def List.map_filter_def endpoint_back)
  with scan_back [OF assms] show ?thesis by simp
qed

text \<open>Fetching from Geonode ends: when no page reports a total above T, the loop returns after at most T / 100 + 1 pages,
  whatever the callback does.\<close>

lemma geonode_fetch_returns:
  assumes "\<And>page w w' d total. get (geonode_query base page) (geonode_consume page) (w, [], 0) = (None, w', d, total) \<Longrightarrow> total \<le> T"
    and "0 \<le> T" and "T \<le> 2 ^ 60" and "T div 100 + 1 \<le> int fuel" and "int fuel \<le> 2 ^ 55"
  shows "\<exists>r. geonode_FetchProxies fuel get base now emit ws = Some r"
  unfolding geonode_FetchProxies_def
  by (rule geonode_pages_return [where T = T]) (use assms in \<open>auto simp: max_i64_def\<close>)

definition empty_pages :: "(json_body, geonode_proxy list \<times> int, unit) getter" where
  "empty_pages q consume ws = (case consume 200 (Object [(''data'', Whole (JArr [])), (''total'', Whole (JInt 250))] Closed) (snd ws) of (r, s) \<Rightarrow> (r, (), s))"

end
