(* ===== verification/Proxy_Discovery.thy ===== *)
theory Proxy_Discovery
  imports Proxy_Sources Rabbit_Queue
begin

text \<open>
  cmd/cli/proxy.go, the discover command: the providers are fetched one after the other, and every record that the table does not
  know is published as a new-proxy job, up to a limit. The locale \<open>discovery_ports\<close> states what the command relies on of the
  repository and the queue; it is interpreted on the PostgreSQL repository and the RabbitMQ publisher.
\<close>

section \<open>The command\<close>

record 's discovery_ports =
  dv_Exists :: "string \<Rightarrow> string \<Rightarrow> int \<Rightarrow> 's \<Rightarrow> bool result \<times> 's"
  dv_Publish :: "QueueJob \<Rightarrow> 's \<Rightarrow> err option \<times> 's"

definition payload_of :: "ProxyRecord \<Rightarrow> NewProxyPayload" where
  "payload_of r = \<lparr>np_Protocol = pr_Protocol r, np_IP = pr_IP r, np_Port = pr_Port r, np_Country = pr_Country r,
     np_Anonymity = pr_Anonymity r, np_Source = pr_Source r, np_UptimePercent = pr_UptimePercent r\<rparr>"

text \<open>The callback; the state carries the number of published jobs.\<close>

definition discover_emit :: "'s discovery_ports \<Rightarrow> int \<Rightarrow> ('s \<times> int) emitter" where
  "discover_emit ports limit rec st =
     (case dv_Exists ports (pr_Protocol rec) (pr_IP rec) (pr_Port rec) (fst st) of
        (Inl e, s1) \<Rightarrow> (Some (EJoin [ESent ErrLookupFailed, e]), s1, snd st)
      | (Inr True, s1) \<Rightarrow> (None, s1, snd st)
      | (Inr False, s1) \<Rightarrow>
          (case dv_Publish ports (NewProxyJob (payload_of rec)) s1 of
             (Some e, s2) \<Rightarrow> (Some (EJoin [ESent ErrPublishFailed, e]), s2, snd st)
           | (None, s2) \<Rightarrow>
               (if limit > 0 \<and> snd st + 1 \<ge> limit then Some (ESent ErrDiscoveryLimitReached) else None, s2, snd st + 1)))"

type_synonym ('w, 's) provider = "('s \<times> int) emitter \<Rightarrow> 'w \<times> 's \<times> int \<Rightarrow> (err option \<times> 'w \<times> 's \<times> int) option"

text \<open>The loop over the providers; \<open>None\<close> while a provider is still fetching.\<close>

fun discover_loop :: "'s discovery_ports \<Rightarrow> int \<Rightarrow> ('w, 's) provider list \<Rightarrow> nat \<Rightarrow> 'w \<times> 's \<times> int \<Rightarrow> ((int \<times> err option) \<times> 'w \<times> 's) option" where
  "discover_loop ports limit [] totalErrors (w, s, t) =
     Some (if t = 0 \<and> totalErrors > 0
           then (0, Some (EText (''proxy discovery failed: all providers failed ('' @ show_nat totalErrors @ '' errors)'')))
           else (t, None), w, s)"
| "discover_loop ports limit (p # ps) totalErrors ws =
     (case p (discover_emit ports limit) ws of
        None \<Rightarrow> None
      | Some (Some e, w, s, t) \<Rightarrow>
          if errors_is e ErrDiscoveryLimitReached then Some ((t, None), w, s)
          else discover_loop ports limit ps (totalErrors + 1) (w, s, t)
      | Some (None, ws') \<Rightarrow> discover_loop ports limit ps totalErrors ws')"

definition publishDiscoveredProxies :: "'s discovery_ports \<Rightarrow> ('w, 's) provider list \<Rightarrow> int \<Rightarrow> 'w \<times> 's
    \<Rightarrow> ((int \<times> err option) \<times> 'w \<times> 's) option" where
  "publishDiscoveredProxies ports providers limit ws =
     discover_loop ports (if limit < 0 then 0 else limit) providers 0 (fst ws, snd ws, 0)"

text \<open>The command: the queue, the repository and the service may be missing.\<close>

definition proxyDiscover :: "bool \<Rightarrow> bool \<Rightarrow> bool \<Rightarrow> 's discovery_ports \<Rightarrow> ('w, 's) provider list \<Rightarrow> int \<Rightarrow> 'w \<times> 's
    \<Rightarrow> (err option \<times> 'w \<times> 's) option" where
  "proxyDiscover hasQueue hasRepo hasService ports providers limit ws =
     (if \<not> hasQueue then Some (Some (EText ''queue not initialised''), ws)
      else if \<not> hasRepo then Some (Some (EText ''proxy repository not initialised''), ws)
      else if \<not> hasService then Some (Some (EText ''proxy service not initialised''), ws)
      else if providers = [] then Some (Some (EText ''no proxy providers configured''), ws)
      else map_option (\<lambda>((n, e), ws'). (e, ws')) (publishDiscoveredProxies ports providers (if limit < 0 then 0 else limit) ws))"

section \<open>What discovery relies on\<close>

text \<open>\<open>sent\<close> is the content of the queue and \<open>known\<close> the set of endpoints of the table.\<close>

locale discovery_world =
  fixes ports :: "'s discovery_ports" and sent :: "'s \<Rightarrow> payload list" and known :: "'s \<Rightarrow> (string \<times> string \<times> int) set"
  assumes exists_keeps: "dv_Exists ports pr ip po s = (r, s') \<Longrightarrow> sent s' = sent s \<and> known s' = known s"
    and exists_exact: "dv_Exists ports pr ip po s = (Inr b, s') \<Longrightarrow> b \<longleftrightarrow> (pr, ip, po) \<in> known s"
    and publish_keeps: "dv_Publish ports job s = (x, s') \<Longrightarrow> known s' = known s"
    and publish_ok: "qj_Type job = EventNewProxy \<Longrightarrow> dv_Publish ports job s = (None, s') \<Longrightarrow> sent s' = sent s @ [qj_Payload job]"
    and publish_failed: "qj_Type job = EventNewProxy \<Longrightarrow> dv_Publish ports job s = (Some e, s')
      \<Longrightarrow> sent s' = sent s \<or> sent s' = sent s @ [qj_Payload job]"
begin

definition endpoint :: "ProxyRecord \<Rightarrow> string \<times> string \<times> int" where
  "endpoint r = (pr_Protocol r, pr_IP r, pr_Port r)"

text \<open>A publication that reports a failure has queued nothing.\<close>

definition no_lost_confirm :: bool where
  "no_lost_confirm \<longleftrightarrow> (\<forall>job s e s'. qj_Type job = EventNewProxy \<longrightarrow> dv_Publish ports job s = (Some e, s') \<longrightarrow> sent s' = sent s)"

text \<open>From one state to another the queue has grown by jobs for unknown records of the list, as many as were counted and at most
  \<open>k\<close> more, which were queued by a publication that reported a failure.\<close>

definition published_from :: "ProxyRecord set \<Rightarrow> int \<Rightarrow> int \<Rightarrow> 's \<Rightarrow> int \<Rightarrow> 's \<Rightarrow> bool" where
  "published_from R k t s t' s' \<longleftrightarrow> known s' = known s \<and> (\<exists>rs. set rs \<subseteq> R \<and> endpoint ` set rs \<inter> known s = {}
     \<and> sent s' = sent s @ map (\<lambda>r. Some (encode_NewProxy (payload_of r))) rs \<and> t \<le> t' \<and> t' - t \<le> int (length rs)
     \<and> int (length rs) \<le> t' - t + k \<and> (no_lost_confirm \<longrightarrow> int (length rs) = t' - t))"

lemma published_refl: "0 \<le> k \<Longrightarrow> published_from R k t s t s"
  by (auto simp: published_from_def intro: exI [of _ "[]"])

lemma published_trans:
  assumes "published_from R k t s t' s'" and "published_from R k' t' s' t'' s''"
  shows "published_from R (k + k') t s t'' s''"
proof -
  from assms obtain rs rs' where "set rs \<subseteq> R" "endpoint ` set rs \<inter> known s = {}" "t' - t \<le> int (length rs)" "t \<le> t'"
    "sent s' = sent s @ map (\<lambda>r. Some (encode_NewProxy (payload_of r))) rs" "known s' = known s" "int (length rs) \<le> t' - t + k"
    "no_lost_confirm \<longrightarrow> int (length rs) = t' - t"
    "set rs' \<subseteq> R" "endpoint ` set rs' \<inter> known s' = {}" "t'' - t' \<le> int (length rs')" "t' \<le> t''"
    "sent s'' = sent s' @ map (\<lambda>r. Some (encode_NewProxy (payload_of r))) rs'" "known s'' = known s'" "int (length rs') \<le> t'' - t' + k'"
    "no_lost_confirm \<longrightarrow> int (length rs') = t'' - t'"
    by (auto simp: published_from_def)
  then show ?thesis unfolding published_from_def by (intro conjI exI [of _ "rs @ rs'"]) auto
qed

lemma published_mono: "published_from R k t s t' s' \<Longrightarrow> R \<subseteq> R' \<Longrightarrow> k \<le> k' \<Longrightarrow> published_from R' k' t s t' s'"
  unfolding published_from_def by (elim conjE exE, intro conjI, assumption, intro exI conjI) (assumption | fastforce)+

lemma emit_published:
  assumes "discover_emit ports limit r (s, t) = (e, s', t')"
  shows "published_from {r} (if e = None then 0 else 1) t s t' s'"
proof -
  let ?j = "NewProxyJob (payload_of r)"
  have j: "qj_Type ?j = EventNewProxy" "qj_Payload ?j = Some (encode_NewProxy (payload_of r))" by (simp_all add: NewProxyJob_def)
  obtain x s1 where x: "dv_Exists ports (pr_Protocol r) (pr_IP r) (pr_Port r) s = (x, s1)" by (metis prod.exhaust)
  note keeps = exists_keeps [OF x]
  show ?thesis
  proof (cases "x = Inr False")
    case False
    then have "s' = s1 \<and> t' = t" using assms x by (auto simp: discover_emit_def split: sum.splits bool.splits)
    with keeps show ?thesis by (auto simp: published_from_def intro: exI [of _ "[]"])
  next
    case True
    then have new: "endpoint r \<notin> known s" using exists_exact [of _ _ _ s False] x by (auto simp: endpoint_def)
    obtain pe s2 where p: "dv_Publish ports ?j s1 = (pe, s2)" by (metis prod.exhaust)
    have k: "known s2 = known s" using publish_keeps [OF p] keeps by simp
    have s': "s' = s2" "t' = (if pe = None then t + 1 else t)" "pe \<noteq> None \<longrightarrow> e \<noteq> None"
      using assms x True p by (auto simp: discover_emit_def split: option.splits)
    have lost: "pe \<noteq> None \<Longrightarrow> no_lost_confirm \<Longrightarrow> sent s2 = sent s1" using p j(1) unfolding no_lost_confirm_def by blast
    have "sent s2 = sent s \<and> pe \<noteq> None
        \<or> sent s2 = sent s @ [Some (encode_NewProxy (payload_of r))] \<and> (no_lost_confirm \<longrightarrow> pe = None)"
      using publish_ok [OF j(1), of s1 s2] publish_failed [OF j(1), of s1 _ s2] lost p keeps j(2) by (cases pe) auto
    then show ?thesis
    proof
      assume "sent s2 = sent s \<and> pe \<noteq> None"
      with k s' show ?thesis unfolding published_from_def by (intro conjI exI [of _ "[]"]) auto
    next
      assume "sent s2 = sent s @ [Some (encode_NewProxy (payload_of r))] \<and> (no_lost_confirm \<longrightarrow> pe = None)"
      with k s' new show ?thesis unfolding published_from_def by (intro conjI exI [of _ "[r]"]) auto
    qed
  qed
qed

lemma emit_all_published:
  assumes "emit_all (discover_emit ports limit) rs (s, t) = (e, s', t')"
  shows "published_from (set rs) (if e = None then 0 else 1) t s t' s'"
  using assms
proof (induction rs arbitrary: s t)
  case Nil
  then show ?case by (simp add: published_refl)
next
  case (Cons r rs)
  obtain x s1 t1 where x: "discover_emit ports limit r (s, t) = (x, s1, t1)" by (metis prod.exhaust)
  have one: "published_from (set (r # rs)) (if x = None then 0 else 1) t s t1 s1"
    using published_mono [OF emit_published [OF x]] by auto
  show ?case
  proof (cases x)
    case None
    with Cons x have "published_from (set rs) (if e = None then 0 else 1) t1 s1 t' s'" by simp
    then have "published_from (set (r # rs)) (if e = None then 0 else 1) t1 s1 t' s'" by (rule published_mono) auto
    with one None show ?thesis using published_trans by force
  next
    case (Some y)
    with Cons x one show ?thesis by simp
  qed
qed

text \<open>A limit bounds the count as long as the state before was below it.\<close>

lemma emit_all_limit:
  assumes "emit_all (discover_emit ports limit) rs (s, t) = (e, s', t')" and "0 < limit" and "t < limit"
  shows "t' \<le> limit \<and> (t' = limit \<longrightarrow> e = Some (ESent ErrDiscoveryLimitReached))"
  using assms(1,3)
proof (induction rs arbitrary: s t)
  case (Cons r rs)
  obtain x s1 t1 where x: "discover_emit ports limit r (s, t) = (x, s1, t1)" by (metis prod.exhaust)
  have "t1 \<le> limit \<and> (t1 = limit \<longrightarrow> x = Some (ESent ErrDiscoveryLimitReached))"
    using x Cons.prems(2) assms(2) by (auto simp: discover_emit_def split: sum.splits bool.splits prod.splits option.splits if_splits)
  with Cons x show ?case by (cases x) auto
qed auto

lemma provider_step:
  assumes "proxy_provider p name" and "p (discover_emit ports limit) (w, s, t) = Some (e, w', s', t')"
  shows "\<exists>rs x. list_all (listed name) rs \<and> emit_all (discover_emit ports limit) rs (s, t) = (x, s', t')
    \<and> (x \<noteq> None \<longrightarrow> (\<exists>e'. e = Some e' \<and> (\<forall>z. errors_is (the x) z \<longrightarrow> errors_is e' z)))"
proof -
  from proxy_provider.contract [OF assms(1), of w] obtain rs fin where rs: "streams p w rs fin" "list_all (listed name) rs" by blast
  obtain x st where x: "emit_all (discover_emit ports limit) rs (s, t) = (x, st)" by (metis prod.exhaust)
  note rs(1) [unfolded streams_def, rule_format, of "discover_emit ports limit" "(s, t)"]
  with assms(2) x have "st = (s', t') \<and> (x \<noteq> None \<longrightarrow> (\<exists>e'. e = Some e' \<and> (\<forall>z. errors_is (the x) z \<longrightarrow> errors_is e' z)))"
    by (auto split: option.splits)
  with x rs(2) show ?thesis by blast
qed

text \<open>The whole loop: what is in the queue afterwards, and how the limit bounds it.\<close>

lemma discover_loop_sound:
  assumes "\<forall>p\<in>set ps. \<exists>name\<in>N. proxy_provider p name"
    and "discover_loop ports limit ps errs (w, s, t) = Some ((n, e), w', s')" and "0 \<le> t" and "limit \<le> 0 \<or> t < limit"
  shows "published_from {r. \<exists>name\<in>N. listed name r} (int (length ps)) t s n s' \<and> (0 < limit \<longrightarrow> n \<le> limit) \<and> (e \<noteq> None \<longrightarrow> n = 0)"
  using assms
proof (induction ps arbitrary: errs w s t)
  case Nil
  then show ?case by (auto simp: published_refl split: if_splits)
next
  case (Cons p ps)
  let ?R = "{r. \<exists>name\<in>N. listed name r}"
  from Cons.prems(2) obtain x w1 s1 t1 where f: "p (discover_emit ports limit) (w, s, t) = Some (x, w1, s1, t1)"
    by (auto split: option.splits prod.splits)
  from Cons.prems(1) obtain name where name: "name \<in> N" "proxy_provider p name" by auto
  from provider_step [OF name(2) f] obtain rs y where rs: "list_all (listed name) rs"
    and em: "emit_all (discover_emit ports limit) rs (s, t) = (y, s1, t1)"
    and err: "y \<noteq> None \<longrightarrow> (\<exists>e'. x = Some e' \<and> (\<forall>z. errors_is (the y) z \<longrightarrow> errors_is e' z))" by blast
  have one: "published_from ?R 1 t s t1 s1"
    using emit_all_published [OF em] by (rule published_mono) (use rs name(1) in \<open>auto simp: list_all_iff\<close>)
  then have t1: "0 \<le> t1" using Cons.prems(3) by (auto simp: published_from_def)
  have lim: "0 < limit \<Longrightarrow> t1 \<le> limit \<and> (t1 = limit \<longrightarrow> y = Some (ESent ErrDiscoveryLimitReached))"
    using emit_all_limit [OF em] Cons.prems(4) by auto
  show ?case
  proof (cases "\<exists>d. x = Some d \<and> errors_is d ErrDiscoveryLimitReached")
    case True
    with f Cons.prems(2) have "n = t1 \<and> e = None \<and> s' = s1" by auto
    with published_mono [OF one order_refl, of "int (length (p # ps))"] lim show ?thesis by auto
  next
    case False
    then have "limit \<le> 0 \<or> t1 < limit" using lim err by fastforce
    moreover from False f Cons.prems(2) obtain errs' where "discover_loop ports limit ps errs' (w1, s1, t1) = Some ((n, e), w', s')"
      by (cases x) auto
    ultimately have "published_from ?R (int (length ps)) t1 s1 n s' \<and> (0 < limit \<longrightarrow> n \<le> limit) \<and> (e \<noteq> None \<longrightarrow> n = 0)"
      using Cons.IH [of _ w1 s1 t1] Cons.prems(1) t1 by auto
    with published_trans [OF one, of "int (length ps)" n s'] show ?thesis by simp
  qed
qed

text \<open>A list that is taken completely: exactly its unknown records are published, in order.\<close>

lemma emit_all_exact:
  assumes "emit_all (discover_emit ports 0) rs (s, t) = (None, s', t')"
  shows "sent s' = sent s @ map (\<lambda>r. Some (encode_NewProxy (payload_of r))) (filter (\<lambda>r. endpoint r \<notin> known s) rs)
     \<and> t' = t + int (length (filter (\<lambda>r. endpoint r \<notin> known s) rs)) \<and> known s' = known s"
  using assms
proof (induction rs arbitrary: s t)
  case (Cons r rs)
  let ?j = "NewProxyJob (payload_of r)"
  have j: "qj_Type ?j = EventNewProxy" "qj_Payload ?j = Some (encode_NewProxy (payload_of r))" by (simp_all add: NewProxyJob_def)
  from Cons.prems obtain s1 t1 where d: "discover_emit ports 0 r (s, t) = (None, s1, t1)"
    and rest: "emit_all (discover_emit ports 0) rs (s1, t1) = (None, s', t')" by (auto split: prod.splits option.splits)
  obtain x s0 where x: "dv_Exists ports (pr_Protocol r) (pr_IP r) (pr_Port r) s = (x, s0)" by (metis prod.exhaust)
  from d x obtain b where b: "x = Inr b" by (auto simp: discover_emit_def split: sum.splits)
  have ex: "b \<longleftrightarrow> endpoint r \<in> known s" using exists_exact [OF x [unfolded b]] by (simp add: endpoint_def)
  note keeps = exists_keeps [OF x]
  have step: "sent s1 = sent s @ (if b then [] else [Some (encode_NewProxy (payload_of r))]) \<and> t1 = t + (if b then 0 else 1) \<and> known s1 = known s"
    using d x b keeps publish_ok [OF j(1), of s0 s1] publish_keeps [of ?j s0 None s1] j(2)
    by (cases b) (auto simp: discover_emit_def split: prod.splits option.splits)
  from Cons.IH [OF rest] step ex show ?case by auto
qed simp

end

section \<open>PostgreSQL and RabbitMQ\<close>

record disc_world =
  dw_pg :: pg_world
  dw_broker :: broker
  dw_pub :: nat

definition pg_discovery :: "ProxyScanPolicy \<Rightarrow> pg_inputs \<Rightarrow> (nat \<Rightarrow> pub_outcome) \<Rightarrow> disc_world discovery_ports" where
  "pg_discovery p inp pub =
     \<lparr>dv_Exists = \<lambda>pr ip po w. (let (r, pg) = re_Exists (pg_repo p inp) pr ip po (dw_pg w) in (r, w\<lparr>dw_pg := pg\<rparr>)),
      dv_Publish = \<lambda>job w. (let (r, bk) = Publish (pub (dw_pub w)) job (dw_broker w) in (r, w\<lparr>dw_broker := bk, dw_pub := dw_pub w + 1\<rparr>))\<rparr>"

definition new_proxy_bodies :: "disc_world \<Rightarrow> payload list" where
  "new_proxy_bodies w = (case map_of (dw_broker w) ''census.new-proxy'' of None \<Rightarrow> [] | Some ms \<Rightarrow> map mg_body ms)"

definition table_endpoints :: "disc_world \<Rightarrow> (string \<times> string \<times> int) set" where
  "table_endpoints w = row_key ` set (px_rows (pw_db (dw_pg w)))"

lemma known_endpoint: "list_ex (\<lambda>r. row_key r = k) xs \<longleftrightarrow> k \<in> row_key ` set xs"
  by (auto simp: list_ex_iff)

lemma has_queue_map_of: "has_queue q bk \<longleftrightarrow> map_of bk q \<noteq> None"
  by (induction bk) (auto simp: has_queue_def)

lemma route_new_proxy: "route exchangeMain EventNewProxy = Some ''census.new-proxy''"
  by (simp add: route_def exchangeMain_def EventNewProxy_def knownEventType_def eventTypes_def)

lemma accept_new_proxy:
  "accept exchangeMain EventNewProxy m bk = (b, bk') \<Longrightarrow>
     (b \<longrightarrow> map_of bk ''census.new-proxy'' \<noteq> None \<and> map_of bk' ''census.new-proxy'' = map_option (\<lambda>ms. ms @ [m]) (map_of bk ''census.new-proxy''))
     \<and> (\<not> b \<longrightarrow> bk' = bk)"
  by (auto simp: accept_def route_new_proxy has_queue_map_of map_of_enqueue split: if_splits)

lemma publish_new_proxy:
  assumes "Publish oc job bk = (e, bk')" and "qj_Type job = EventNewProxy"
  shows "\<exists>m. mg_body m = qj_Payload job \<and> (bk' = bk \<and> e \<noteq> None
     \<or> map_of bk ''census.new-proxy'' \<noteq> None \<and> map_of bk' ''census.new-proxy'' = map_option (\<lambda>ms. ms @ [m]) (map_of bk ''census.new-proxy''))"
proof -
  let ?m = "\<lparr>mg_body = qj_Payload job, mg_headers = Some [headerAttempts \<mapsto> HInt32 0], mg_expiration = []\<rparr>"
  obtain b bk1 where a: "accept exchangeMain EventNewProxy ?m bk = (b, bk1)" by (metis prod.exhaust)
  from assms a accept_new_proxy [OF a] show ?thesis
    by (intro exI [of _ ?m]) (auto simp: Publish_def publishConfirmed_def stored_def split: pub_outcome.splits bool.splits if_splits)
qed

interpretation pg_disc: discovery_world "pg_discovery p inp pub" new_proxy_bodies table_endpoints for p inp pub
proof
  fix pr ip po s r s' b
  show "new_proxy_bodies s' = new_proxy_bodies s \<and> table_endpoints s' = table_endpoints s"
    if "dv_Exists (pg_discovery p inp pub) pr ip po s = (r, s')"
    using that by (auto simp: pg_discovery_def pg_repo_def pg_call_def new_proxy_bodies_def table_endpoints_def Let_def)
  show "b \<longleftrightarrow> (pr, ip, po) \<in> table_endpoints s" if "dv_Exists (pg_discovery p inp pub) pr ip po s = (Inr b, s')"
    using that by (auto simp: pg_discovery_def pg_repo_def pg_call_def table_endpoints_def known_endpoint Let_def dest!: Exists_result)
next
  fix job s x s' e
  show "table_endpoints s' = table_endpoints s" if "dv_Publish (pg_discovery p inp pub) job s = (x, s')"
    using that by (auto simp: pg_discovery_def table_endpoints_def Let_def split: prod.splits)
  show "new_proxy_bodies s' = new_proxy_bodies s @ [qj_Payload job]"
    if "qj_Type job = EventNewProxy" "dv_Publish (pg_discovery p inp pub) job s = (None, s')"
    using that publish_new_proxy [of "pub (dw_pub s)" job "dw_broker s"]
    by (auto simp: pg_discovery_def new_proxy_bodies_def Let_def split: prod.splits)
  show "new_proxy_bodies s' = new_proxy_bodies s \<or> new_proxy_bodies s' = new_proxy_bodies s @ [qj_Payload job]"
    if "qj_Type job = EventNewProxy" "dv_Publish (pg_discovery p inp pub) job s = (Some e, s')"
    using that publish_new_proxy [of "pub (dw_pub s)" job "dw_broker s"]
    by (auto simp: pg_discovery_def new_proxy_bodies_def Let_def split: prod.splits)
qed

text \<open>The outcomes in which the broker keeps a message although the publication fails.\<close>

fun lost_confirm :: "pub_outcome \<Rightarrow> bool" where
  "lost_confirm (PubSend e b) = b"
| "lost_confirm (PubNoConfirm b) = b"
| "lost_confirm (PubWait e b) = b"
| "lost_confirm (PubNack b) = b"
| "lost_confirm _ = False"

lemma confirmed_discovery: "\<forall>k. \<not> lost_confirm (pub k) \<Longrightarrow> pg_disc.no_lost_confirm p inp pub"
proof -
  assume ok: "\<forall>k. \<not> lost_confirm (pub k)"
  have "bk' = bk" if "Publish (pub k) job bk = (Some e, bk')" for k job bk e bk'
    using that ok [rule_format, of k]
    by (cases "pub k") (auto simp: Publish_def publishConfirmed_def stored_def accept_def split: option.splits if_splits prod.splits bool.splits)
  then show ?thesis
    unfolding pg_disc.no_lost_confirm_def by (fastforce simp: pg_discovery_def new_proxy_bodies_def Let_def split: prod.splits)
qed

section \<open>Properties\<close>

text \<open>C15: Discovery publishes only proxies that the table does not know, and not more than asked for. For any providers that keep
  the contract, whatever the sources, the repository and the broker do: what the run adds to the new-proxy queue are the jobs of listed,
  unverified records whose endpoints are not in the table. They are as many as the run reports, and at most one more per provider, when
  the broker took a job whose publication failed; where it took no such job, they are exactly as many. A positive limit is not exceeded
  by the number reported, so the queue grows by at most the limit and one job per provider; and an error is reported only when the
  reported number is zero. The table is not changed.\<close>

theorem discovery_is_sound:
  assumes "\<forall>pv\<in>set providers. \<exists>name\<in>N. proxy_provider pv name"
    and "publishDiscoveredProxies (pg_discovery p inp pub) providers limit (w, s) = Some ((n, e), w', s')"
  shows "(\<exists>rs. new_proxy_bodies s' = new_proxy_bodies s @ map (\<lambda>r. Some (encode_NewProxy (payload_of r))) rs
        \<and> n \<le> int (length rs) \<and> int (length rs) \<le> n + int (length providers)
        \<and> ((\<forall>k. \<not> lost_confirm (pub k)) \<longrightarrow> int (length rs) = n)
        \<and> (\<forall>r\<in>set rs. (\<exists>name\<in>N. listed name r) \<and> (pr_Protocol r, pr_IP r, pr_Port r) \<notin> table_endpoints s))
    \<and> (0 < limit \<longrightarrow> n \<le> limit) \<and> (e \<noteq> None \<longrightarrow> n = 0) \<and> table_endpoints s' = table_endpoints s"
proof -
  let ?limit = "if limit < 0 then 0 else limit"
  from assms(2) have l: "discover_loop (pg_discovery p inp pub) ?limit providers 0 (w, s, 0) = Some ((n, e), w', s')"
    by (simp add: publishDiscoveredProxies_def)
  have "?limit \<le> 0 \<or> 0 < ?limit" by auto
  from pg_disc.discover_loop_sound [OF assms(1) l _ this] obtain rs where
    rs: "set rs \<subseteq> {r. \<exists>name\<in>N. listed name r}" "pg_disc.endpoint ` set rs \<inter> table_endpoints s = {}"
      "new_proxy_bodies s' = new_proxy_bodies s @ map (\<lambda>r. Some (encode_NewProxy (payload_of r))) rs"
      "n \<le> int (length rs)" "int (length rs) \<le> n + int (length providers)"
      "pg_disc.no_lost_confirm p inp pub \<longrightarrow> int (length rs) = n"
    and rest: "0 < ?limit \<longrightarrow> n \<le> ?limit" "e \<noteq> None \<longrightarrow> n = 0" "table_endpoints s' = table_endpoints s"
    by (auto simp: pg_disc.published_from_def)
  have "\<forall>r\<in>set rs. (\<exists>name\<in>N. listed name r) \<and> (pr_Protocol r, pr_IP r, pr_Port r) \<notin> table_endpoints s"
    using rs(1,2) by (auto simp: pg_disc.endpoint_def)
  with rs(3-6) rest confirmed_discovery [of pub p inp] show ?thesis by auto
qed

definition quiet_world :: disc_world where
  "quiet_world = \<lparr>dw_pg = \<lparr>pw_db = demo_db, pw_tick = 0\<rparr>, dw_broker = declareTopology [], dw_pub = 0\<rparr>"

text \<open>A provider with two endpoints.\<close>

definition two_proxies :: "(unit, disc_world) provider" where
  "two_proxies emit ws = (case emit_all emit [discovered ''http'' ''9.9.9.9'' 80 5 ''x'', discovered ''http'' ''8.8.8.8'' 80 5 ''x''] (snd ws)
     of (r, s) \<Rightarrow> Some (r, (), s))"

theorem discovery_is_sound_witness:
  "\<exists>s'. publishDiscoveredProxies (pg_discovery demo_policy demo_inputs (\<lambda>_. PubAck)) [two_proxies] 1 ((), quiet_world)
       = Some ((1, None), (), s')
     \<and> length (new_proxy_bodies s') = length (new_proxy_bodies quiet_world) + 1 \<and> table_endpoints s' = table_endpoints quiet_world"
proof -
  let ?d = "publishDiscoveredProxies (pg_discovery demo_policy demo_inputs (\<lambda>_. PubAck)) [two_proxies] 1 ((), quiet_world)"
  let ?rs = "[discovered ''http'' ''9.9.9.9'' 80 5 ''x'', discovered ''http'' ''8.8.8.8'' 80 5 ''x'']"
  have "streams two_proxies () ?rs (Some (None, ()))" "list_all (listed ''x'') ?rs"
    by (simp add: streams_def two_proxies_def split: prod.splits option.splits, simp)
  then have "proxy_provider two_proxies ''x''" unfolding proxy_provider_def by (metis (full_types) old.unit.exhaust)
  then have contract: "\<forall>pv\<in>set [two_proxies]. \<exists>name\<in>{''x''}. proxy_provider pv name" by simp
  have "case ?d of Some ((n, e), w', s') \<Rightarrow> n = 1 \<and> e = None | None \<Rightarrow> False" by code_simp
  then obtain s' where d: "?d = Some ((1, None), (), s')" by (auto split: option.splits)
  from discovery_is_sound [OF contract d] obtain rs :: "ProxyRecord list" where
    "new_proxy_bodies s' = new_proxy_bodies quiet_world @ map (\<lambda>r. Some (encode_NewProxy (payload_of r))) rs" "int (length rs) = 1"
    "table_endpoints s' = table_endpoints quiet_world" by auto
  with d show ?thesis by auto
qed

text \<open>C18: A provider's list that is taken completely is published completely: when a run without a limit over one provider reports
  no failure, it has published exactly the records of the list that the table does not know, in their order, and reports their
  number. (A list that names an endpoint twice is published twice: the table is the only memory.)\<close>

theorem discovery_is_complete:
  assumes "streams pv w rs (Some (None, w1))"
    and "\<And>k. pub k = PubAck" and "\<And>k. en_fault (pi_env inp k) = (\<lambda>_. None)" and "map_of (dw_broker s) ''census.new-proxy'' \<noteq> None"
  shows "\<exists>s'. let new = filter (\<lambda>r. (pr_Protocol r, pr_IP r, pr_Port r) \<notin> table_endpoints s) rs
    in publishDiscoveredProxies (pg_discovery p inp pub) [pv] 0 (w, s) = Some ((int (length new), None), w1, s')
       \<and> new_proxy_bodies s' = new_proxy_bodies s @ map (\<lambda>r. Some (encode_NewProxy (payload_of r))) new"
proof -
  let ?ports = "pg_discovery p inp pub" and ?q = "''census.new-proxy''"
  have one: "\<exists>s' t'. discover_emit ?ports 0 r (s, t) = (None, s', t') \<and> map_of (dw_broker s') ?q \<noteq> None"
    if q: "map_of (dw_broker s) ?q \<noteq> None" for r s t
  proof -
    let ?s = "s\<lparr>dw_pg := (dw_pg s)\<lparr>pw_tick := pw_tick (dw_pg s) + 1\<rparr>\<rparr>"
    obtain b where ex: "dv_Exists ?ports (pr_Protocol r) (pr_IP r) (pr_Port r) s = (Inr b, ?s)"
      by (simp add: pg_discovery_def pg_repo_def pg_call_def Exists_def assms(3))
    let ?m = "\<lparr>mg_body = Some (encode_NewProxy (payload_of r)), mg_headers = Some [headerAttempts \<mapsto> HInt32 0], mg_expiration = []\<rparr>"
    let ?s2 = "?s\<lparr>dw_broker := enqueue ?q ?m (dw_broker s), dw_pub := dw_pub s + 1\<rparr>"
    have pu: "dv_Publish ?ports (NewProxyJob (payload_of r)) ?s = (None, ?s2)"
      using q by (simp add: pg_discovery_def assms(2) Publish_def publishConfirmed_def NewProxyJob_def accept_def route_new_proxy has_queue_map_of)
    have q2: "map_of (dw_broker ?s2) ?q \<noteq> None" using q by (simp add: map_of_enqueue)
    show ?thesis using ex pu q q2 by (cases b) (simp_all add: discover_emit_def)
  qed
  have all: "\<exists>s' t'. emit_all (discover_emit ?ports 0) rs (s, t) = (None, s', t')" if "map_of (dw_broker s) ?q \<noteq> None" for rs s t
    using that
  proof (induction rs arbitrary: s t)
    case (Cons r rs)
    from one [OF Cons.prems, of r t] obtain s1 t1 where "discover_emit ?ports 0 r (s, t) = (None, s1, t1)" "map_of (dw_broker s1) ?q \<noteq> None" by blast
    with Cons.IH [of s1 t1] show ?case by simp
  qed simp
  from all [OF assms(4), of rs 0] obtain s' t' where em: "emit_all (discover_emit ?ports 0) rs (s, 0) = (None, s', t')" by blast
  note ex = pg_disc.emit_all_exact [OF em]
  have "pv (discover_emit ?ports 0) (w, s, 0) = Some (None, w1, s', t')"
    using assms(1) [unfolded streams_def, rule_format, of "discover_emit ?ports 0" "(s, 0)"] em by simp
  then have "publishDiscoveredProxies ?ports [pv] 0 (w, s) = Some ((t', None), w1, s')" by (simp add: publishDiscoveredProxies_def)
  with ex show ?thesis by (intro exI [of _ s']) (simp add: Let_def pg_disc.endpoint_def)
qed

theorem discovery_is_complete_witness:
  "\<exists>s'. publishDiscoveredProxies (pg_discovery demo_policy demo_inputs (\<lambda>_. PubAck))
       [\<lambda>emit ws. case emit (discovered ''http'' ''9.9.9.9'' 80 5 ''x'') (snd ws) of (r, s) \<Rightarrow> Some (r, (), s)] 0 ((), quiet_world)
     = Some ((1, None), (), s')"
proof -
  let ?r = "discovered ''http'' ''9.9.9.9'' 80 5 ''x''"
  let ?pv = "\<lambda>(emit :: (disc_world \<times> int) emitter) ws. case emit ?r (snd ws) of (r, s) \<Rightarrow> Some (r, (), s)"
  have st: "streams ?pv () [?r] (Some (None, ()))"
    by (auto simp: streams_def split: prod.splits option.splits)
  have q: "map_of (dw_broker quiet_world) ''census.new-proxy'' \<noteq> None" unfolding quiet_world_def by code_simp
  have "(pr_Protocol ?r, pr_IP ?r, pr_Port ?r) \<notin> table_endpoints quiet_world"
    by (simp add: table_endpoints_def quiet_world_def demo_db_def demo_rec_def row_key_def discovered_def new_row_def)
  with discovery_is_complete [OF st _ _ q, of "\<lambda>_. PubAck" demo_inputs demo_policy] show ?thesis
    by (auto simp: Let_def demo_inputs_def demo_env_def)
qed

end
