(* ===== verification/Float64.thy ===== *)
theory Float64
  imports Go_Prelude Complex_Main
begin

text \<open>
  The float64 arithmetic behind the percentages of the web interface. A value is a sign, a natural significand and a binary
  exponent; every operation is the exact result rounded to 53 significant bits, halves to even, as IEEE 754 and Go prescribe. The
  operands are quotients of int64 counts, so neither overflow nor subnormal numbers occur (\<open>exponent_range\<close>). The error of one
  operation is bounded relative to its exact result, and the printed percentage is bounded from that.
\<close>

section \<open>Rounding\<close>

definition half_even :: "nat \<Rightarrow> nat \<Rightarrow> nat" where
  "half_even n d =
     (let q = n div d; r = n mod d
      in if 2 * r < d \<or> 2 * r = d \<and> even q then q else q + 1)"

fun bit_length :: "nat \<Rightarrow> nat" where
  "bit_length n = (if n = 0 then 0 else Suc (bit_length (n div 2)))"

declare bit_length.simps [simp del]

datatype float64 = F64 (f_neg: bool) (f_mant: nat) (f_exp: int)

text \<open>The exponent of the leading bit of \<open>n/d\<close>.\<close>

definition floor_log2 :: "nat \<Rightarrow> nat \<Rightarrow> int" where
  "floor_log2 n d =
     (let k = int (bit_length n) - int (bit_length d)
      in if d * 2 ^ nat k \<le> n * 2 ^ nat (- k) then k else k - 1)"

definition round64 :: "bool \<Rightarrow> nat \<Rightarrow> nat \<Rightarrow> float64" where
  "round64 s n d =
     (if n = 0 then F64 s 0 0
      else let e = floor_log2 n d - 52 in F64 s (half_even (n * 2 ^ nat (- e)) (d * 2 ^ nat e)) e)"

section \<open>Operations\<close>

definition f_of_int :: "int \<Rightarrow> float64" where
  "f_of_int n = round64 (n < 0) (nat \<bar>n\<bar>) 1"

definition f_mul :: "float64 \<Rightarrow> float64 \<Rightarrow> float64" where
  "f_mul x y =
     (let e = f_exp x + f_exp y
      in round64 (f_neg x \<noteq> f_neg y) (f_mant x * f_mant y * 2 ^ nat e) (2 ^ nat (- e)))"

text \<open>Division by a number other than zero.\<close>

definition f_div :: "float64 \<Rightarrow> float64 \<Rightarrow> float64" where
  "f_div x y =
     (let e = f_exp x - f_exp y
      in round64 (f_neg x \<noteq> f_neg y) (f_mant x * 2 ^ nat e) (f_mant y * 2 ^ nat (- e)))"

definition f_signed :: "float64 \<Rightarrow> int \<Rightarrow> int" where
  "f_signed x g = (if f_neg x then - 1 else 1) * int (f_mant x) * 2 ^ nat (f_exp x - g)"

definition f_sub :: "float64 \<Rightarrow> float64 \<Rightarrow> float64" where
  "f_sub x y =
     (let g = min (f_exp x) (f_exp y); c = f_signed x g - f_signed y g
      in if c = 0 then F64 (f_neg x \<and> \<not> f_neg y \<and> f_mant x = 0) 0 0
         else round64 (c < 0) (nat \<bar>c\<bar> * 2 ^ nat g) (2 ^ nat (- g)))"

definition f_less_zero :: "float64 \<Rightarrow> bool" where
  "f_less_zero x = (f_neg x \<and> f_mant x \<noteq> 0)"

definition f_100 :: float64 where "f_100 = f_of_int 100"

text \<open>\<open>%.1f\<close>: the exact value to one decimal, halves to even.\<close>

definition tenths :: "float64 \<Rightarrow> nat" where
  "tenths x = half_even (10 * f_mant x * 2 ^ nat (f_exp x)) (2 ^ nat (- f_exp x))"

definition show_1f :: "float64 \<Rightarrow> string" where
  "show_1f x = (if f_neg x then ''-'' else []) @ show_nat (tenths x div 10) @ ''.'' @ show_nat (tenths x mod 10)"

section \<open>Errors\<close>

definition fval :: "float64 \<Rightarrow> real" where
  "fval x = (if f_neg x then - 1 else 1) * real (f_mant x) * 2 powi f_exp x"

lemma half_even_err:
  assumes "0 < d"
  shows "\<bar>real (half_even n d) - real n / real d\<bar> \<le> 1 / 2"
proof -
  have n: "n = d * (n div d) + n mod d" by simp
  have r: "n mod d < d" using assms by simp
  have "real n / real d = real (n div d) + real (n mod d) / real d"
    using assms by (subst n) (simp only: of_nat_add of_nat_mult add_divide_distrib, simp)
  moreover have "0 \<le> real (n mod d) / real d" "real (n mod d) / real d \<le> 1" using r by simp_all
  moreover have "2 * (n mod d) \<le> d \<Longrightarrow> real (n mod d) / real d \<le> 1 / 2" using assms by (simp add: field_simps)
  moreover have "d \<le> 2 * (n mod d) \<Longrightarrow> 1 / 2 \<le> real (n mod d) / real d" using assms by (simp add: field_simps)
  ultimately show ?thesis by (auto simp: half_even_def Let_def abs_le_iff)
qed

lemma bit_length_bounds: "0 < n \<Longrightarrow> 2 ^ (bit_length n - 1) \<le> n \<and> n < 2 ^ bit_length n \<and> 0 < bit_length n"
proof (induction n rule: bit_length.induct)
  case (1 n)
  have b: "bit_length n = Suc (bit_length (n div 2))" using 1(2) by (subst bit_length.simps) simp
  show ?case
  proof (cases "n div 2 = 0")
    case True
    then have "n = 1" using 1(2) by simp
    then show ?thesis using b True by (simp add: bit_length.simps)
  next
    case False
    then have "2 ^ (bit_length (n div 2) - 1) \<le> n div 2" "n div 2 < 2 ^ bit_length (n div 2)" "0 < bit_length (n div 2)"
      using 1 by simp_all
    then show ?thesis using b by (cases "bit_length (n div 2)") auto
  qed
qed

lemma powi_split: "(2::real) ^ nat e / 2 ^ nat (- e) = 2 powi e"
  by (cases "0 \<le> e") (simp_all add: power_int_def power_inverse [symmetric] inverse_eq_divide power_divide)

lemma scaled_quotient: "real (n * 2 ^ nat e) / real (d * 2 ^ nat (- e)) = real n / real d * 2 powi e"
  unfolding powi_split [symmetric] by simp

lemma scaled_quotient': "real (n * 2 ^ nat (- e)) / real (d * 2 ^ nat e) = real n / real d * 2 powi (- e)"
  using scaled_quotient [of n "- e" d] by simp

lemma floor_log2_bounds:
  assumes "0 < n" "0 < d"
  shows "2 powi floor_log2 n d \<le> real n / real d \<and> real n / real d < 2 powi (floor_log2 n d + 1)"
proof -
  define a b where "a = bit_length n - 1" and "b = bit_length d - 1"
  have A: "2 ^ a \<le> n" "n < 2 ^ Suc a" "bit_length n = Suc a" and B: "2 ^ b \<le> d" "d < 2 ^ Suc b" "bit_length d = Suc b"
    using bit_length_bounds [OF assms(1)] bit_length_bounds [OF assms(2)] by (auto simp: a_def b_def)
  define k where "k = int a - int b"
  have a': "real (2 ^ a) \<le> real n" "real n < real (2 ^ Suc a)" and b': "real (2 ^ b) \<le> real d" "real d < real (2 ^ Suc b)"
    using A B by (simp_all only: of_nat_le_iff of_nat_less_iff)
  have p: "(2::real) powi k = 2 ^ a / 2 ^ b" by (simp add: k_def power_int_diff)
  have "real n / real d < 2 ^ Suc a / 2 ^ b"
    using a' b' assms by (intro frac_less) (auto simp: of_nat_power)
  then have hi: "real n / real d < 2 powi (k + 1)" using p by (simp add: power_int_add mult.commute)
  have "2 ^ a / 2 ^ Suc b < real n / real d"
    using a' b' assms by (intro frac_less2) (auto simp: of_nat_power)
  then have lo: "2 powi (k - 1) < real n / real d" using p by (simp add: power_int_diff)
  have c: "d * 2 ^ nat k \<le> n * 2 ^ nat (- k) \<longleftrightarrow> 2 powi k \<le> real n / real d"
  proof -
    have "d * 2 ^ nat k \<le> n * 2 ^ nat (- k) \<longleftrightarrow> real (d * 2 ^ nat k) \<le> real (n * 2 ^ nat (- k))" by (simp only: of_nat_le_iff)
    also have "\<dots> \<longleftrightarrow> 2 ^ nat k / 2 ^ nat (- k) \<le> real n / real d" using assms by (simp add: field_simps)
    finally show ?thesis by (simp add: powi_split)
  qed
  have fl: "floor_log2 n d = (if 2 powi k \<le> real n / real d then k else k - 1)"
    using c by (simp add: floor_log2_def A B k_def Let_def)
  show ?thesis using fl hi lo by auto
qed

lemma power_int_minus_mult_cancel: "x * 2 powi (- e) * 2 powi e = (x :: real)"
  by (simp add: power_int_minus)

text \<open>One rounding: sign kept, relative error at most \<open>2^-53\<close>.\<close>

lemma round64_err:
  assumes "0 < d"
  shows "\<bar>real (f_mant (round64 s n d)) * 2 powi f_exp (round64 s n d) - real n / real d\<bar> \<le> real n / real d / 2 ^ 53"
proof -
  show "\<bar>real (f_mant (round64 s n d)) * 2 powi f_exp (round64 s n d) - real n / real d\<bar> \<le> real n / real d / 2 ^ 53"
  proof (cases "n = 0")
    case True
    then show ?thesis by (simp add: round64_def)
  next
    case False
    define e where "e = floor_log2 n d - 52"
    define h where "h = half_even (n * 2 ^ nat (- e)) (d * 2 ^ nat e)"
    have "\<bar>real h - real n / real d * 2 powi (- e)\<bar> \<le> 1 / 2"
      using half_even_err [of "d * 2 ^ nat e" "n * 2 ^ nat (- e)"] assms scaled_quotient' [of n e d] by (simp add: h_def)
    then have "\<bar>real h - real n / real d * 2 powi (- e)\<bar> * 2 powi e \<le> 1 / 2 * 2 powi e"
      by (intro mult_right_mono) simp_all
    then have "\<bar>(real h - real n / real d * 2 powi (- e)) * 2 powi e\<bar> \<le> 1 / 2 * 2 powi e"
      by (simp add: abs_mult)
    then have "\<bar>real h * 2 powi e - real n / real d\<bar> \<le> 1 / 2 * 2 powi e"
      by (simp add: left_diff_distrib power_int_minus_mult_cancel)
    also have "1 / 2 * (2::real) powi e = 2 powi floor_log2 n d / 2 ^ 53"
      by (simp add: e_def power_int_diff)
    also have "\<dots> \<le> real n / real d / 2 ^ 53"
      using floor_log2_bounds [of n d] assms False by (intro divide_right_mono) simp_all
    finally show ?thesis using False by (simp add: round64_def Let_def e_def h_def)
  qed
qed

text \<open>A quotient within \<open>2^-k\<close> and \<open>2^k\<close> has an exponent far from the limits of the format for the counts of the program.\<close>

lemma exponent_range:
  assumes "0 < n" "0 < d" "n \<le> d * 2 ^ k" "d \<le> n * 2 ^ k"
  shows "- int k - 53 \<le> f_exp (round64 s n d) \<and> f_exp (round64 s n d) \<le> int k - 52"
proof -
  note b = floor_log2_bounds [OF assms(1,2)]
  have r: "real n \<le> real (d * 2 ^ k)" "real d \<le> real (n * 2 ^ k)" using assms by (simp_all only: of_nat_le_iff)
  have "real n / real d \<le> 2 powi int k" using r assms by (simp add: field_simps)
  then have "(2 :: real) powi floor_log2 n d \<le> 2 powi int k" using b by linarith
  then have u: "floor_log2 n d \<le> int k" by (rule power_int_le_imp_le_exp [rotated]) simp_all
  have "(2 :: real) powi (- int k) \<le> real n / real d" using r assms by (simp add: field_simps power_int_minus)
  then have "(2 :: real) powi (- int k) < 2 powi (floor_log2 n d + 1)" using b by linarith
  then have "- int k < floor_log2 n d + 1" using power_int_increasing [of "floor_log2 n d + 1" "- int k" "2 :: real"] by force
  then show ?thesis using u assms by (simp add: round64_def Let_def)
qed

text \<open>A percentage is two conversions, a division and a multiplication, so four roundings.\<close>

definition f_abs :: "float64 \<Rightarrow> real" where
  "f_abs x = real (f_mant x) * 2 powi f_exp x"

definition ulp_factor :: real where "ulp_factor = 1 + 1 / 2 ^ 52"

definition near :: "nat \<Rightarrow> real \<Rightarrow> real \<Rightarrow> bool" where
  "near k x y \<longleftrightarrow> 0 \<le> x \<and> 0 \<le> y \<and> y \<le> x * ulp_factor ^ k \<and> x \<le> y * ulp_factor ^ k"

lemma ulp_factor_ge: "1 \<le> ulp_factor" by (simp add: ulp_factor_def)

lemma near_mult: "\<lbrakk>near j x y; near k x' y'\<rbrakk> \<Longrightarrow> near (j + k) (x * x') (y * y')"
  using mult_mono [of y "x * ulp_factor ^ j" y' "x' * ulp_factor ^ k"] mult_mono [of x "y * ulp_factor ^ j" x' "y' * ulp_factor ^ k"]
  by (simp add: near_def power_add mult.assoc mult.left_commute)

lemma near_inverse: "near k x y \<Longrightarrow> near k (inverse x) (inverse y)"
proof -
  assume n: "near k x y"
  have w: "0 < ulp_factor ^ k" using ulp_factor_ge by (intro zero_less_power) linarith
  show ?thesis
  proof (cases "x = 0 \<or> y = 0")
    case True
    then have "x = 0 \<and> y = 0" using n w by (auto simp: near_def mult_le_0_iff)
    then show ?thesis by (simp add: near_def)
  next
    case False
    then show ?thesis using n w by (simp add: near_def field_simps)
  qed
qed

lemma near_div: "\<lbrakk>near j x y; near k x' y'\<rbrakk> \<Longrightarrow> near (j + k) (x / x') (y / y')"
  unfolding divide_inverse by (intro near_mult near_inverse)

lemma near_trans: "near j x y \<Longrightarrow> near k y z \<Longrightarrow> near (k + j) x z"
proof -
  assume a: "near j x y" and b: "near k y z"
  have w: "0 \<le> ulp_factor ^ i" for i using ulp_factor_ge by simp
  have "z \<le> x * ulp_factor ^ j * ulp_factor ^ k"
    using mult_right_mono [OF _ w [of k], of y "x * ulp_factor ^ j"] a b by (force simp: near_def)
  moreover have "x \<le> z * ulp_factor ^ k * ulp_factor ^ j"
    using mult_right_mono [OF _ w [of j], of y "z * ulp_factor ^ k"] a b by (force simp: near_def)
  ultimately show ?thesis using a b by (simp add: near_def power_add mult.assoc mult.commute [of "ulp_factor ^ j"])
qed

lemma near_round64: "0 < d \<Longrightarrow> near 1 (f_abs (round64 s n d)) (real n / real d)"
proof -
  assume d: "0 < d"
  define q r where "q = real n / real d" and "r = f_abs (round64 s n d)"
  have e: "\<bar>r - q\<bar> \<le> q / 2 ^ 53" and q: "0 \<le> q" and r: "0 \<le> r"
    using round64_err [OF d, of s n] by (simp_all add: q_def r_def f_abs_def)
  have b: "r \<le> q + q / 2 ^ 53" "q - q / 2 ^ 53 \<le> r" using e by linarith+
  have "r \<le> q * ulp_factor" "q \<le> r * ulp_factor"
    using b q by (simp_all add: ulp_factor_def distrib_left)
  then show ?thesis using q r by (simp add: near_def q_def r_def)
qed

lemma near_of_int: "near 1 (f_abs (f_of_int n)) (real_of_int \<bar>n\<bar>)"
  using near_round64 [of 1 "n < 0" "nat \<bar>n\<bar>"] by (simp add: f_of_int_def)

lemma near_f_mul: "near 1 (f_abs (f_mul x y)) (f_abs x * f_abs y)"
  using near_round64 [of "2 ^ nat (- (f_exp x + f_exp y))" "f_neg x \<noteq> f_neg y" "f_mant x * f_mant y * 2 ^ nat (f_exp x + f_exp y)"]
    scaled_quotient [of "f_mant x * f_mant y" "f_exp x + f_exp y" 1]
  by (simp add: f_mul_def Let_def f_abs_def power_int_add mult.assoc mult.left_commute)

lemma near_f_div: "f_mant y \<noteq> 0 \<Longrightarrow> near 1 (f_abs (f_div x y)) (f_abs x / f_abs y)"
  using near_round64 [of "f_mant y * 2 ^ nat (- (f_exp x - f_exp y))" "f_neg x \<noteq> f_neg y" "f_mant x * 2 ^ nat (f_exp x - f_exp y)"]
    scaled_quotient [of "f_mant x" "f_exp x - f_exp y" "f_mant y"]
  by (simp add: f_div_def Let_def f_abs_def power_int_diff)

lemmas float_eval = f_of_int_def round64_def floor_log2_def half_even_def bit_length.simps

lemma f_100_val: "f_100 = F64 False (100 * 2 ^ 46) (- 46)"
  by (simp add: f_100_def float_eval)

lemma of_int_nonzero: "n \<noteq> 0 \<Longrightarrow> f_mant (f_of_int n) \<noteq> 0"
proof
  assume "n \<noteq> 0" and "f_mant (f_of_int n) = 0"
  then show False using near_of_int [of n] by (simp add: near_def f_abs_def)
qed

definition percent :: "int \<Rightarrow> int \<Rightarrow> float64" where
  "percent num denom = f_mul (f_div (f_of_int num) (f_of_int denom)) f_100"

lemma near_percent:
  assumes "denom \<noteq> 0"
  shows "near 4 (f_abs (percent num denom)) (100 * \<bar>real_of_int num\<bar> / \<bar>real_of_int denom\<bar>)"
proof -
  have h: "f_abs f_100 = 100" unfolding f_100_val f_abs_def by (simp add: power_int_minus)
  have "near 3 (f_abs (f_div (f_of_int num) (f_of_int denom))) (\<bar>real_of_int num\<bar> / \<bar>real_of_int denom\<bar>)"
    using near_trans [OF near_f_div [OF of_int_nonzero [OF assms]] near_div [OF near_of_int near_of_int]] by (simp add: numeral_3_eq_3)
  moreover have "near 0 (f_abs f_100) 100" using h by (simp add: near_def)
  ultimately have "near 3 (f_abs (f_div (f_of_int num) (f_of_int denom)) * f_abs f_100) (\<bar>real_of_int num\<bar> / \<bar>real_of_int denom\<bar> * 100)"
    by (rule near_mult [of 3 _ _ 0, simplified])
  then show ?thesis using near_trans [OF near_f_mul] by (fastforce simp: percent_def mult.commute)
qed

lemma tenths_err: "\<bar>real (tenths x) - 10 * f_abs x\<bar> \<le> 1 / 2"
  using half_even_err [of "2 ^ nat (- f_exp x)" "10 * f_mant x * 2 ^ nat (f_exp x)"] scaled_quotient [of "10 * f_mant x" "f_exp x" 1]
  by (simp add: tenths_def f_abs_def mult.assoc)

text \<open>The printed tenths of a percent differ from the exact ones by half a unit and the rounding of the float.\<close>

lemma percent_tenths:
  assumes "0 \<le> num" "num \<le> denom" "0 < denom"
  shows "\<bar>real (tenths (percent num denom)) - 1000 * (real_of_int num / real_of_int denom)\<bar> \<le> 1 / 2 + 1 / 10 ^ 9"
    and "tenths (percent num denom) \<le> 1000"
proof -
  define q p where "q = real_of_int num / real_of_int denom" and "p = f_abs (percent num denom)"
  have q: "0 \<le> q" "q \<le> 1" using assms by (simp_all add: q_def)
  have n: "near 4 p (100 * q)" using near_percent [of denom num] assms by (simp add: q_def p_def)
  have w: "ulp_factor ^ 4 \<le> 1 + 1 / 10 ^ 13" "0 \<le> ulp_factor ^ 4" by (simp_all add: ulp_factor_def power_divide field_simps)
  have "p \<le> 100 * q * (1 + 1 / 10 ^ 13)" "100 * q \<le> p * (1 + 1 / 10 ^ 13)"
    using n w(1) mult_left_mono [OF w(1), of "100 * q"] mult_left_mono [OF w(1), of p] q by (auto simp: near_def)
  then have "p - 100 * q \<le> 1 / 10 ^ 10" "100 * q - p \<le> 1 / 10 ^ 10" using q by (simp_all add: distrib_left)
  then have "\<bar>p - 100 * q\<bar> \<le> 1 / 10 ^ 10" by linarith
  moreover have "10 * (1 / 10 ^ 10) = (1 / 10 ^ 9 :: real)" by simp
  ultimately show a: "\<bar>real (tenths (percent num denom)) - 1000 * (real_of_int num / real_of_int denom)\<bar> \<le> 1 / 2 + 1 / 10 ^ 9"
    using tenths_err [of "percent num denom"] unfolding q_def [symmetric] p_def [symmetric] by linarith
  have "real (tenths (percent num denom)) \<le> 1000 * q + 1 / 2 + 1 / 10 ^ 9" using a unfolding q_def [symmetric] by linarith
  then have "real (tenths (percent num denom)) < 1001" using q by simp
  then show "tenths (percent num denom) \<le> 1000" by linarith
qed

lemma f_neg_round64 [simp]: "f_neg (round64 s n d) = s"
  by (simp add: round64_def Let_def)

lemma percent_sign: "f_neg (percent num denom) = ((num < 0) \<noteq> (denom < 0))"
  by (simp add: percent_def f_mul_def f_div_def f_of_int_def f_100_def Let_def)

end
