(* ===== verification/UI_Stats.thy ===== *)
theory UI_Stats
  imports Census_Service Json
begin

text \<open>
  domain/census/ui\_stats.go and worlds.go, port/contract/ui\_stats\_repository.go and
  infrastructure/postgres/repository/ui\_stats.go: the precomputed statistics of the web interface. A snapshot holds the
  summary, the counts per scope and dimension, the expansion counts and the daily series; Refresh computes it with grouping sets
  over the census tables, validates it and stores it. SQL leaves the order of the grouped rows open; here each grouping set is listed in
  the order of first occurrence, and every reader sorts.
\<close>

section \<open>Strings and sorting\<close>

text \<open>The order of Go strings is bytewise; \<open>strings.EqualFold\<close> against an ASCII name is equality of the folded names.\<close>

fun str_le :: "string \<Rightarrow> string \<Rightarrow> bool" where
  "str_le [] ys = True"
| "str_le (x # xs) [] = False"
| "str_le (x # xs) (y # ys) = ((of_char x :: nat) < of_char y \<or> x = y \<and> str_le xs ys)"

definition equal_fold :: "string \<Rightarrow> string \<Rightarrow> bool" where
  "equal_fold a b = (fold_key a = fold_key b)"

fun insort_by :: "('a \<Rightarrow> 'a \<Rightarrow> bool) \<Rightarrow> 'a \<Rightarrow> 'a list \<Rightarrow> 'a list" where
  "insort_by le x [] = [x]"
| "insort_by le x (y # ys) = (if le x y then x # y # ys else y # insort_by le x ys)"

definition sort_by :: "('a \<Rightarrow> 'a \<Rightarrow> bool) \<Rightarrow> 'a list \<Rightarrow> 'a list" where
  "sort_by le xs = foldr (insort_by le) xs []"

section \<open>The world hierarchy (worlds.go)\<close>

definition worldDatacenters :: "(string \<times> string) list" where
  "worldDatacenters =
     [(''Adamantoise'', ''Aether''), (''Cactuar'', ''Aether''), (''Faerie'', ''Aether''),
      (''Gilgamesh'', ''Aether''), (''Jenova'', ''Aether''), (''Midgardsormr'', ''Aether''),
      (''Sargatanas'', ''Aether''), (''Siren'', ''Aether''), (''Behemoth'', ''Primal''),
      (''Excalibur'', ''Primal''), (''Exodus'', ''Primal''), (''Famfrit'', ''Primal''), (''Hyperion'', ''Primal''),
      (''Lamia'', ''Primal''), (''Leviathan'', ''Primal''), (''Ultros'', ''Primal''), (''Balmung'', ''Crystal''),
      (''Brynhildr'', ''Crystal''), (''Coeurl'', ''Crystal''), (''Diabolos'', ''Crystal''),
      (''Goblin'', ''Crystal''), (''Malboro'', ''Crystal''), (''Mateus'', ''Crystal''), (''Zalera'', ''Crystal''),
      (''Cuchulainn'', ''Dynamis''), (''Golem'', ''Dynamis''), (''Halicarnassus'', ''Dynamis''),
      (''Kraken'', ''Dynamis''), (''Maduin'', ''Dynamis''), (''Marilith'', ''Dynamis''),
      (''Rafflesia'', ''Dynamis''), (''Seraph'', ''Dynamis''), (''Cerberus'', ''Chaos''), (''Louisoix'', ''Chaos''),
      (''Moogle'', ''Chaos''), (''Omega'', ''Chaos''), (''Phantom'', ''Chaos''), (''Ragnarok'', ''Chaos''),
      (''Sagittarius'', ''Chaos''), (''Spriggan'', ''Chaos''), (''Alpha'', ''Light''), (''Lich'', ''Light''),
      (''Odin'', ''Light''), (''Phoenix'', ''Light''), (''Raiden'', ''Light''), (''Shiva'', ''Light''),
      (''Twintania'', ''Light''), (''Zodiark'', ''Light''), (''Aegis'', ''Elemental''), (''Atomos'', ''Elemental''),
      (''Carbuncle'', ''Elemental''), (''Garuda'', ''Elemental''), (''Gungnir'', ''Elemental''),
      (''Kujata'', ''Elemental''), (''Tonberry'', ''Elemental''), (''Typhon'', ''Elemental''),
      (''Alexander'', ''Gaia''), (''Bahamut'', ''Gaia''), (''Durandal'', ''Gaia''), (''Fenrir'', ''Gaia''),
      (''Ifrit'', ''Gaia''), (''Ridill'', ''Gaia''), (''Tiamat'', ''Gaia''), (''Ultima'', ''Gaia''),
      (''Anima'', ''Mana''), (''Asura'', ''Mana''), (''Chocobo'', ''Mana''), (''Hades'', ''Mana''),
      (''Ixion'', ''Mana''), (''Masamune'', ''Mana''), (''Pandaemonium'', ''Mana''), (''Titan'', ''Mana''),
      (''Belias'', ''Meteor''), (''Mandragora'', ''Meteor''), (''Ramuh'', ''Meteor''), (''Shinryu'', ''Meteor''),
      (''Unicorn'', ''Meteor''), (''Valefor'', ''Meteor''), (''Yojimbo'', ''Meteor''), (''Zeromus'', ''Meteor''),
      (''Bismarck'', ''Materia''), (''Ravana'', ''Materia''), (''Sephirot'', ''Materia''),
      (''Sophia'', ''Materia''), (''Zurvan'', ''Materia'')]"

definition WorldDatacenter :: "string \<Rightarrow> string" where
  "WorldDatacenter world =
     (case map_of worldDatacenters world of
        Some dc \<Rightarrow> dc
      | None \<Rightarrow> (case find (\<lambda>p. equal_fold (fst p) world) worldDatacenters of Some p \<Rightarrow> snd p | None \<Rightarrow> []))"

definition Worlds :: "string list" where "Worlds = sort_by str_le (map fst worldDatacenters)"

definition Datacenters :: "string list" where "Datacenters = sort_by str_le (map fst datacenterRegion)"

definition DatacentersForRegion :: "string \<Rightarrow> string list" where
  "DatacentersForRegion region =
     (if region = [] then [] else sort_by str_le (map fst (filter (\<lambda>p. equal_fold (snd p) region) datacenterRegion)))"

definition WorldsForDatacenter :: "string \<Rightarrow> string list" where
  "WorldsForDatacenter dc =
     (if dc = [] then [] else sort_by str_le (map fst (filter (\<lambda>p. equal_fold (snd p) dc) worldDatacenters)))"

definition WorldsForRegion :: "string \<Rightarrow> string list" where
  "WorldsForRegion region =
     (if region = [] then []
      else sort_by str_le (map fst (filter (\<lambda>p. equal_fold (RegionForDatacenter (snd p)) region) worldDatacenters)))"

definition canonicalWorld :: "string \<Rightarrow> string" where
  "canonicalWorld world =
     (if map_of worldDatacenters world \<noteq> None then world
      else case find (\<lambda>p. equal_fold (fst p) world) worldDatacenters of Some p \<Rightarrow> fst p | None \<Rightarrow> world)"

section \<open>Days\<close>

text \<open>
  A UTC day is its number since January 1, year 1. \<open>parse_day\<close> is \<open>time.Parse\<close> with the layout 2006-01-02, \<open>format_day\<close> is
  \<open>Time.Format\<close> with it.
\<close>

definition day_of :: "timestamp \<Rightarrow> int" where "day_of t = t div (24 * hour)"

definition leap_year :: "int \<Rightarrow> bool" where "leap_year y = (y mod 4 = 0 \<and> (y mod 100 \<noteq> 0 \<or> y mod 400 = 0))"

definition days_in :: "int \<Rightarrow> int \<Rightarrow> int" where
  "days_in y m = (if m = 2 then (if leap_year y then 29 else 28) else if m \<in> {4, 6, 9, 11} then 30 else 31)"

definition days_before :: "int \<Rightarrow> int \<Rightarrow> int" where
  "days_before y m =
     (let p = y - 1 in 365 * p + p div 4 - p div 100 + p div 400) + sum_list (map (days_in y) [1..m - 1])"

definition parse_day :: "string \<Rightarrow> int option" where
  "parse_day s =
     (if length s = 10 \<and> s ! 4 = CHR ''-'' \<and> s ! 7 = CHR ''-''
      then (case (digits_val 0 (take 4 s), digits_val 0 (take 2 (drop 5 s)), digits_val 0 (drop 8 s)) of
              (Some y, Some m, Some d) \<Rightarrow>
                if 1 \<le> m \<and> m \<le> 12 \<and> 1 \<le> d \<and> int d \<le> days_in (int y) (int m)
                then Some (days_before (int y) (int m) + int d - 1) else None
            | _ \<Rightarrow> None)
      else None)"

definition pad :: "nat \<Rightarrow> string \<Rightarrow> string" where
  "pad n s = replicate (n - length s) CHR ''0'' @ s"

text \<open>The calendar date of a day, by the 400-year cycle counted from March.\<close>

definition format_day :: "int \<Rightarrow> string" where
  "format_day n =
     (let z = n + 306; era = z div 146097; doe = z mod 146097;
          yoe = (doe - doe div 1460 + doe div 36524 - doe div 146096) div 365;
          doy = doe - (365 * yoe + yoe div 4 - yoe div 100);
          mp = (5 * doy + 2) div 153;
          d = doy - (153 * mp + 2) div 5 + 1;
          m = (if mp < 10 then mp + 3 else mp - 9);
          y = yoe + era * 400 + (if m \<le> 2 then 1 else 0)
      in pad 4 (show_int y) @ ''-'' @ pad 2 (show_int m) @ ''-'' @ pad 2 (show_int d))"

section \<open>Snapshots\<close>

record StatsScope =
  sc_Region :: string
  sc_Datacenter :: string
  sc_World :: string

record StatsSummary =
  ss_Total :: int
  ss_Active :: int
  ss_MaxLevel :: int

record ScopedGroupCount =
  sg_Scope :: StatsScope
  sg_Dimension :: string
  sg_Key :: string
  sg_Total :: int
  sg_Active :: int

record ScopedExpansionCount =
  se_Scope :: StatsScope
  se_Expansion :: string
  se_Count :: int

record ScopedDailyCount =
  sd_Scope :: StatsScope
  sd_Day :: string
  sd_Count :: int

record UIStatsSnapshot =
  us_SchemaVersion :: int
  us_GeneratedAt :: timestamp
  us_ActivitySince :: timestamp
  us_MaxLevel :: u32
  us_SourceCharacters :: int
  us_RefreshDuration :: duration
  us_Groups :: "ScopedGroupCount list"
  us_Expansions :: "ScopedExpansionCount list"
  us_NewCharacters :: "ScopedDailyCount list"
  us_Summary :: StatsSummary

definition UIStatsSchemaVersion :: int where "UIStatsSchemaVersion = 2"

definition global_scope :: StatsScope where
  "global_scope = \<lparr>sc_Region = [], sc_Datacenter = [], sc_World = []\<rparr>"

definition scopeKey :: "StatsScope \<Rightarrow> string" where
  "scopeKey sc = sc_Region sc @ CHR 0x00 # sc_Datacenter sc @ CHR 0x00 # sc_World sc"

text \<open>The \<open>%q\<close> rendering of a key whose parts are printable.\<close>

definition quoted :: "string \<Rightarrow> string" where
  "quoted s = CHR 0x22 # concat (map (\<lambda>c. if c = CHR 0x00 then CHR 0x5C # ''x00''
     else if c \<in> {CHR 0x22, CHR 0x5C} then [CHR 0x5C, c] else [c]) s) @ [CHR 0x22]"

text \<open>One loop of the validation: a check of the element, then that its key was not seen.\<close>

fun check_keys :: "('a \<Rightarrow> err option) \<Rightarrow> ('a \<Rightarrow> string) \<Rightarrow> string \<Rightarrow> string set \<Rightarrow> 'a list \<Rightarrow> err option" where
  "check_keys bad key what seen [] = None"
| "check_keys bad key what seen (x # xs) =
     (case bad x of
        Some e \<Rightarrow> Some e
      | None \<Rightarrow>
          if key x \<in> seen then Some (EText (''duplicate UI statistics '' @ what @ '' '' @ quoted (key x)))
          else check_keys bad key what (insert (key x) seen) xs)"

definition group_key :: "ScopedGroupCount \<Rightarrow> string" where
  "group_key g = scopeKey (sg_Scope g) @ CHR 0x00 # sg_Dimension g @ CHR 0x00 # sg_Key g"

definition expansion_key :: "ScopedExpansionCount \<Rightarrow> string" where
  "expansion_key x = scopeKey (se_Scope x) @ CHR 0x00 # se_Expansion x"

definition day_key :: "ScopedDailyCount \<Rightarrow> string" where
  "day_key d = scopeKey (sd_Scope d) @ CHR 0x00 # sd_Day d"

definition bad_group :: "ScopedGroupCount \<Rightarrow> err option" where
  "bad_group g = (if sg_Dimension g = [] \<or> sg_Total g < 0 \<or> sg_Active g < 0 \<or> sg_Active g > sg_Total g
     then Some (EText ''invalid UI statistics group'') else None)"

definition bad_expansion :: "ScopedExpansionCount \<Rightarrow> err option" where
  "bad_expansion x = (if se_Expansion x = [] \<or> se_Count x < 0 then Some (EText ''invalid UI statistics expansion'') else None)"

definition bad_day :: "ScopedDailyCount \<Rightarrow> err option" where
  "bad_day d = (if sd_Count d < 0 then Some (EText ''invalid UI statistics daily count'')
     else if parse_day (sd_Day d) = None then Some (EText (''invalid UI statistics day '' @ quoted (sd_Day d))) else None)"

definition ValidateUIStatsSnapshot :: "UIStatsSnapshot option \<Rightarrow> err option" where
  "ValidateUIStatsSnapshot snapshot =
     (case snapshot of
        None \<Rightarrow> Some (ESent ErrUIStatsUnavailable)
      | Some sn \<Rightarrow>
          (let sm = us_Summary sn
           in if us_SchemaVersion sn \<noteq> UIStatsSchemaVersion
              then Some (EText (''unsupported UI statistics schema version '' @ show_int (us_SchemaVersion sn)))
              else if us_GeneratedAt sn = 0 \<or> us_ActivitySince sn = 0 then Some (EText ''UI statistics timestamps must be set'')
              else if us_SourceCharacters sn < 0 \<or> ss_Total sm < 0 \<or> ss_Active sm < 0 \<or> ss_MaxLevel sm < 0
              then Some (EText ''UI statistics summary counts cannot be negative'')
              else if ss_Active sm > ss_Total sm \<or> ss_MaxLevel sm > ss_Total sm
              then Some (EText ''UI statistics summary subset exceeds total'')
              else (case check_keys bad_group group_key ''group'' {} (us_Groups sn) of
                      Some e \<Rightarrow> Some e
                    | None \<Rightarrow>
                        (case check_keys bad_expansion expansion_key ''expansion'' {} (us_Expansions sn) of
                           Some e \<Rightarrow> Some e
                         | None \<Rightarrow> check_keys bad_day day_key ''day'' {} (us_NewCharacters sn)))))"

section \<open>Readers\<close>

definition group_le :: "GroupCount \<Rightarrow> GroupCount \<Rightarrow> bool" where
  "group_le a b = (if gc_Total a \<noteq> gc_Total b then gc_Total a > gc_Total b else str_le (gc_Key a) (gc_Key b))"

definition SnapshotGroups :: "UIStatsSnapshot option \<Rightarrow> string \<Rightarrow> StatsScope \<Rightarrow> GroupCount list" where
  "SnapshotGroups snapshot dimension scope =
     (case snapshot of
        None \<Rightarrow> []
      | Some sn \<Rightarrow>
          sort_by group_le
            (map (\<lambda>g. \<lparr>gc_Key = sg_Key g, gc_Total = sg_Total g, gc_Active = sg_Active g\<rparr>)
               (filter (\<lambda>g. sg_Dimension g = dimension \<and> sg_Scope g = scope) (us_Groups sn))))"

definition SnapshotExpansions :: "UIStatsSnapshot option \<Rightarrow> StatsScope \<Rightarrow> ExpansionCount list" where
  "SnapshotExpansions snapshot scope =
     (case snapshot of
        None \<Rightarrow> []
      | Some sn \<Rightarrow>
          sort_by (\<lambda>a b. str_le (xc_Expansion a) (xc_Expansion b))
            (map (\<lambda>x. \<lparr>xc_Expansion = se_Expansion x, xc_Count = se_Count x\<rparr>)
               (filter (\<lambda>x. se_Scope x = scope) (us_Expansions sn))))"

definition SnapshotDaily :: "UIStatsSnapshot option \<Rightarrow> StatsScope \<Rightarrow> DailyCount list" where
  "SnapshotDaily snapshot scope =
     (case snapshot of
        None \<Rightarrow> []
      | Some sn \<Rightarrow>
          sort_by (\<lambda>a b. str_le (dc_Day a) (dc_Day b))
            (map (\<lambda>d. \<lparr>dc_Day = sd_Day d, dc_Count = sd_Count d\<rparr>)
               (filter (\<lambda>d. sd_Scope d = scope) (us_NewCharacters sn))))"

record NewCharacterTotals =
  nt_Current :: int
  nt_Previous :: int
  nt_StartDay :: string

definition worldSet :: "StatsScope \<Rightarrow> string list" where
  "worldSet sc =
     (if sc_World sc \<noteq> [] then [canonicalWorld (sc_World sc)]
      else if sc_Datacenter sc \<noteq> [] then WorldsForDatacenter (sc_Datacenter sc)
      else if sc_Region sc \<noteq> [] then WorldsForRegion (sc_Region sc)
      else [])"

definition window_day :: "StatsScope \<Rightarrow> int \<Rightarrow> ScopedDailyCount \<Rightarrow> NewCharacterTotals \<Rightarrow> NewCharacterTotals" where
  "window_day scope endDay d t =
     (let skip = (if scope = global_scope then sd_Scope d \<noteq> global_scope
                  else sc_World (sd_Scope d) = [] \<or> sc_World (sd_Scope d) \<notin> set (worldSet scope))
      in if skip then t
         else case parse_day (sd_Day d) of
                None \<Rightarrow> t
              | Some n \<Rightarrow>
                  if endDay - 29 \<le> n \<and> n \<le> endDay then t\<lparr>nt_Current := i64 (nt_Current t + sd_Count d)\<rparr>
                  else if endDay - 59 \<le> n \<and> n < endDay - 29 then t\<lparr>nt_Previous := i64 (nt_Previous t + sd_Count d)\<rparr>
                  else t)"

definition NewCharactersWindow :: "UIStatsSnapshot option \<Rightarrow> StatsScope \<Rightarrow> NewCharacterTotals" where
  "NewCharactersWindow snapshot scope =
     (case snapshot of
        None \<Rightarrow> \<lparr>nt_Current = 0, nt_Previous = 0, nt_StartDay = []\<rparr>
      | Some sn \<Rightarrow>
          (let endDay = day_of (us_GeneratedAt sn)
           in fold (window_day scope endDay) (us_NewCharacters sn)
                \<lparr>nt_Current = 0, nt_Previous = 0, nt_StartDay = format_day (endDay - 29)\<rparr>))"

end
