(* ===== verification/UI_Stats_Store.thy ===== *)
theory UI_Stats_Store
  imports UI_Stats
begin

text \<open>
  infrastructure/postgres/repository/ui\_stats.go: Refresh reads the census tables in one read-only snapshot, computes the statistics
  with grouping sets, validates them and replaces the stored row; LoadCurrent reads it back. The main result says exactly when the
  validation accepts the computed groups.
\<close>

section \<open>Grouping sets\<close>

datatype column = ColRegion | ColDatacenter | ColWorld | ColRace | ColTribe | ColGender

definition grouping_sets :: "column list list" where
  "grouping_sets =
     [[], [ColRegion], [ColDatacenter], [ColWorld],
      [ColRace], [ColRegion, ColRace], [ColDatacenter, ColRace], [ColWorld, ColRace],
      [ColTribe], [ColRegion, ColTribe], [ColDatacenter, ColTribe], [ColWorld, ColTribe],
      [ColGender], [ColRegion, ColGender], [ColDatacenter, ColGender], [ColWorld, ColGender],
      [ColRace, ColGender], [ColRegion, ColRace, ColGender],
      [ColDatacenter, ColRace, ColGender], [ColWorld, ColRace, ColGender]]"

text \<open>The label of a column is \<open>None\<close> in a row of a grouping set without it (\<open>GROUPING\<close> is 1).\<close>

record labels =
  lb_region :: "string option"
  lb_datacenter :: "string option"
  lb_world :: "string option"
  lb_race :: "string option"
  lb_tribe :: "string option"
  lb_gender :: "int option"

definition label :: "column list \<Rightarrow> column \<Rightarrow> 'a \<Rightarrow> 'a option" where
  "label gs c v = (if c \<in> set gs then Some v else None)"

definition labels_of :: "column list \<Rightarrow> character_row \<Rightarrow> labels" where
  "labels_of gs r =
     \<lparr>lb_region = label gs ColRegion (cr_Region r), lb_datacenter = label gs ColDatacenter (cr_Datacenter r),
      lb_world = label gs ColWorld (cr_World r), lb_race = label gs ColRace (cr_Race r), lb_tribe = label gs ColTribe (cr_Tribe r),
      lb_gender = label gs ColGender (uint (cr_Gender r))\<rparr>"

definition no_labels :: labels where
  "no_labels = \<lparr>lb_region = None, lb_datacenter = None, lb_world = None, lb_race = None, lb_tribe = None, lb_gender = None\<rparr>"

text \<open>The empty grouping set has one row even over no characters.\<close>

definition group_labels :: "column list \<Rightarrow> character_row list \<Rightarrow> labels list" where
  "group_labels gs rows = (if gs = [] then [no_labels] else remdups (map (labels_of gs) rows))"

record stat_row =
  sr_labels :: labels
  sr_total :: int
  sr_active :: int
  sr_max :: int

definition group_rows :: "timestamp \<Rightarrow> u32 \<Rightarrow> character_row list \<Rightarrow> column list \<Rightarrow> stat_row list" where
  "group_rows since maxLevel rows gs =
     map (\<lambda>l.
        let ms = filter (\<lambda>r. labels_of gs r = l) rows
        in \<lparr>sr_labels = l, sr_total = int (length ms),
            sr_active = int (length (filter (\<lambda>r. at_least (cr_LatestAchievementAt r) since) ms)),
            sr_max = int (length (filter (\<lambda>r. uint (cr_max_job_level r) \<ge> uint maxLevel) ms))\<rparr>)
       (group_labels gs rows)"

definition stat_rows :: "timestamp \<Rightarrow> u32 \<Rightarrow> character_row list \<Rightarrow> stat_row list" where
  "stat_rows since maxLevel rows = concat (map (group_rows since maxLevel rows) grouping_sets)"

definition genderName :: "int \<Rightarrow> string" where
  "genderName v = (if v = 1 then ''Male'' else if v = 2 then ''Female'' else ''Unknown'')"

section \<open>From rows to groups\<close>

definition orempty :: "string option \<Rightarrow> string" where
  "orempty s = (case s of None \<Rightarrow> [] | Some x \<Rightarrow> x)"

definition row_scope :: "labels \<Rightarrow> StatsScope" where
  "row_scope l =
     (case lb_world l of
        Some w \<Rightarrow> global_scope\<lparr>sc_World := w\<rparr>
      | None \<Rightarrow> (case lb_datacenter l of
                   Some d \<Rightarrow> global_scope\<lparr>sc_Datacenter := d\<rparr>
                 | None \<Rightarrow> (case lb_region l of Some r \<Rightarrow> global_scope\<lparr>sc_Region := r\<rparr> | None \<Rightarrow> global_scope)))"

definition row_dimension :: "labels \<Rightarrow> (string \<times> string) option" where
  "row_dimension l =
     (case (lb_race l, lb_gender l) of
        (Some r, Some g) \<Rightarrow> Some (''race_gender'', r @ ''|'' @ genderName g)
      | (Some r, None) \<Rightarrow> Some (''race'', r)
      | (None, g) \<Rightarrow>
          (case lb_tribe l of
             Some t \<Rightarrow> Some (''tribe'', t)
           | None \<Rightarrow> (case g of Some x \<Rightarrow> Some (''gender'', genderName x) | None \<Rightarrow> None)))"

text \<open>
  The scope, dimension and key that one row of the query contributes; the row of the empty set is the summary. A row of an empty world
  is skipped.
\<close>

definition row_triple :: "labels \<Rightarrow> (StatsScope \<times> string \<times> string) option" where
  "row_triple l =
     (if lb_race l = None \<and> lb_tribe l = None \<and> lb_gender l = None
      then (case lb_region l of
              Some x \<Rightarrow> Some (global_scope, ''region'', x)
            | None \<Rightarrow> (case lb_datacenter l of
                         Some x \<Rightarrow> Some (global_scope, ''datacenter'', x)
                       | None \<Rightarrow> (case lb_world l of
                                    Some x \<Rightarrow> if x \<noteq> [] then Some (global_scope, ''world'', x) else None
                                  | None \<Rightarrow> None)))
      else (case row_dimension l of
              None \<Rightarrow> None
            | Some (d, k) \<Rightarrow> if row_scope l \<noteq> global_scope \<or> lb_world l = None then Some (row_scope l, d, k) else None))"

definition row_groups :: "stat_row \<Rightarrow> ScopedGroupCount list" where
  "row_groups r =
     (case row_triple (sr_labels r) of
        None \<Rightarrow> []
      | Some (sc, d, k) \<Rightarrow> [\<lparr>sg_Scope = sc, sg_Dimension = d, sg_Key = k, sg_Total = sr_total r, sg_Active = sr_active r\<rparr>])"

definition scan_row :: "stat_row \<Rightarrow> UIStatsSnapshot \<Rightarrow> UIStatsSnapshot" where
  "scan_row r sn =
     (if sr_labels r = no_labels
      then sn\<lparr>us_Summary := \<lparr>ss_Total = sr_total r, ss_Active = sr_active r, ss_MaxLevel = sr_max r\<rparr>, us_SourceCharacters := sr_total r\<rparr>
      else sn\<lparr>us_Groups := us_Groups sn @ row_groups r\<rparr>)"

section \<open>Refresh and LoadCurrent\<close>

text \<open>
  The fault points in the order of the code; \<open>si_locked\<close> is the answer of \<open>pg_try_advisory_lock\<close>, \<open>si_applied\<close> tells whether
  a failed write took effect, \<open>si_stored\<close> is what a timestamp column gives back.
\<close>

record stats_inputs =
  si_fault :: "nat \<Rightarrow> err option"
  si_locked :: bool
  si_applied :: bool
  si_now :: timestamp
  si_duration :: duration
  si_stored :: "timestamp \<Rightarrow> timestamp"
  si_bytes :: int

text \<open>The stored row; the payload is \<open>None\<close> when it does not decode.\<close>

record stats_row =
  sx_schema_version :: int
  sx_generated_at :: timestamp
  sx_activity_since :: timestamp
  sx_max_level :: u32
  sx_source_character_count :: int
  sx_refresh_duration_ms :: int
  sx_payload :: "UIStatsSnapshot option"

record UIStatsRefreshOptions =
  uo_ActivitySince :: timestamp
  uo_MaxLevel :: u32

record UIStatsRefreshResult =
  ur_Snapshot :: "UIStatsSnapshot option"
  ur_Skipped :: bool
  ur_PayloadBytes :: int

definition readCharacterStats :: "stats_inputs \<Rightarrow> census_db \<Rightarrow> UIStatsSnapshot \<Rightarrow> UIStatsSnapshot result" where
  "readCharacterStats inp db sn =
     (case si_fault inp 4 of
        Some e \<Rightarrow> Inl (wrapped ''query UI character statistics'' e)
      | None \<Rightarrow>
          (case si_fault inp 5 of
             Some e \<Rightarrow> Inl (wrapped ''scan UI character statistics'' e)
           | None \<Rightarrow>
               (case si_fault inp 6 of
                  Some e \<Rightarrow> Inl (wrapped ''iterate UI character statistics'' e)
                | None \<Rightarrow> Inr (fold scan_row (stat_rows (us_ActivitySince sn) (us_MaxLevel sn) (filter live (db_characters db))) sn))))"

record tracked_row =
  tk_character :: u32
  tk_achievement :: u32
  tk_at :: timestamp
  tk_expansion :: "string option"
  tk_world :: string

definition tracked :: "census_db \<Rightarrow> tracked_row list" where
  "tracked db =
     concat (map (\<lambda>cm. concat (map (\<lambda>m. map (\<lambda>c.
          \<lparr>tk_character = cm_CharacterID cm, tk_achievement = cm_AchievementID cm, tk_at = cm_AchievedAt cm,
           tk_expansion = ma_Expansion m, tk_world = cr_World c\<rparr>)
          (filter (\<lambda>c. cr_ID c = cm_CharacterID cm \<and> live c) (db_characters db)))
        (filter (\<lambda>m. ma_AchievementID m = cm_AchievementID cm
             \<and> (cm_AchievementID cm = 590 \<or> ma_Kind m \<in> {''expansion_msq'', ''expansion''} \<and> ma_Expansion m \<noteq> None))
           (db_registry db))))
      (db_milestones db))"

text \<open>Distinct characters per value, over all worlds and per world; the world is \<open>None\<close> for the global rows.\<close>

definition count_by :: "(tracked_row \<Rightarrow> string) \<Rightarrow> tracked_row list \<Rightarrow> (string option \<times> string \<times> int) list" where
  "count_by f rows =
     map (\<lambda>v. (None, v, int (card (tk_character ` set (filter (\<lambda>t. f t = v) rows))))) (remdups (map f rows))
     @ map (\<lambda>(w, v). (Some w, v, int (card (tk_character ` set (filter (\<lambda>t. tk_world t = w \<and> f t = v) rows)))))
         (remdups (map (\<lambda>t. (tk_world t, f t)) rows))"

definition scoped :: "(StatsScope \<Rightarrow> string \<Rightarrow> int \<Rightarrow> 'a) \<Rightarrow> (string option \<times> string \<times> int) list \<Rightarrow> 'a list" where
  "scoped mk rows =
     concat (map (\<lambda>(w, v, n). case w of
        None \<Rightarrow> [mk global_scope v n]
      | Some x \<Rightarrow> if x = [] then [] else [mk (global_scope\<lparr>sc_World := x\<rparr>) v n]) rows)"

definition newCharactersLookbackDays :: int where "newCharactersLookbackDays = 60"

definition readMilestoneStats :: "stats_inputs \<Rightarrow> census_db \<Rightarrow> UIStatsSnapshot \<Rightarrow> UIStatsSnapshot result" where
  "readMilestoneStats inp db sn =
     (let cutoff = (day_of (us_GeneratedAt sn) - (newCharactersLookbackDays - 1)) * (24 * hour);
          exps = count_by (\<lambda>t. orempty (tk_expansion t)) (filter (\<lambda>t. tk_expansion t \<noteq> None) (tracked db));
          days = count_by (\<lambda>t. format_day (day_of (tk_at t)))
                   (filter (\<lambda>t. tk_achievement t = 590 \<and> tk_at t \<ge> cutoff) (tracked db))
      in case si_fault inp 7 of
           Some e \<Rightarrow> Inl (wrapped ''query UI milestone statistics'' e)
         | None \<Rightarrow>
             (case (if exps = [] \<and> days = [] then None else si_fault inp 8) of
                Some e \<Rightarrow> Inl (wrapped ''scan UI milestone statistics'' e)
              | None \<Rightarrow>
                  (case si_fault inp 9 of
                     Some e \<Rightarrow> Inl (wrapped ''iterate UI milestone statistics'' e)
                   | None \<Rightarrow>
                       Inr (sn\<lparr>us_Expansions := us_Expansions sn
                                 @ scoped (\<lambda>s v n. \<lparr>se_Scope = s, se_Expansion = v, se_Count = n\<rparr>) exps,
                               us_NewCharacters := us_NewCharacters sn
                                 @ scoped (\<lambda>s v n. \<lparr>sd_Scope = s, sd_Day = v, sd_Count = n\<rparr>) days\<rparr>))))"

definition new_snapshot :: "stats_inputs \<Rightarrow> UIStatsRefreshOptions \<Rightarrow> UIStatsSnapshot" where
  "new_snapshot inp opts =
     \<lparr>us_SchemaVersion = UIStatsSchemaVersion, us_GeneratedAt = si_now inp, us_ActivitySince = uo_ActivitySince opts,
      us_MaxLevel = uo_MaxLevel opts, us_SourceCharacters = 0, us_RefreshDuration = 0, us_Groups = [], us_Expansions = [],
      us_NewCharacters = [], us_Summary = \<lparr>ss_Total = 0, ss_Active = 0, ss_MaxLevel = 0\<rparr>\<rparr>"

definition collect :: "stats_inputs \<Rightarrow> census_db \<Rightarrow> UIStatsRefreshOptions \<Rightarrow> UIStatsSnapshot result" where
  "collect inp db opts =
     (case readCharacterStats inp db (new_snapshot inp opts) of
        Inl e \<Rightarrow> Inl e
      | Inr sn \<Rightarrow>
          (case readMilestoneStats inp db sn of
             Inl e \<Rightarrow> Inl e
           | Inr sn' \<Rightarrow>
               (case si_fault inp 10 of
                  Some e \<Rightarrow> Inl (wrapped ''commit UI statistics read snapshot'' e)
                | None \<Rightarrow> Inr (sn'\<lparr>us_RefreshDuration := si_duration inp\<rparr>))))"

definition snapshot_row :: "stats_inputs \<Rightarrow> UIStatsSnapshot \<Rightarrow> stats_row" where
  "snapshot_row inp sn =
     \<lparr>sx_schema_version = us_SchemaVersion sn, sx_generated_at = si_stored inp (us_GeneratedAt sn),
      sx_activity_since = si_stored inp (us_ActivitySince sn), sx_max_level = us_MaxLevel sn,
      sx_source_character_count = us_SourceCharacters sn,
      sx_refresh_duration_ms = go_div (us_RefreshDuration sn) millisecond, sx_payload = Some sn\<rparr>"

definition Repo_Refresh :: "stats_inputs \<Rightarrow> UIStatsRefreshOptions \<Rightarrow> census_db \<Rightarrow> stats_row option
    \<Rightarrow> UIStatsRefreshResult result \<times> stats_row option" where
  "Repo_Refresh inp opts db row =
     (if uo_ActivitySince opts = 0 then (Inl (EText ''UI statistics activity cutoff is required''), row)
      else if uo_MaxLevel opts = 0 then (Inl (EText ''UI statistics max level is required''), row)
      else case si_fault inp 0 of Some e \<Rightarrow> (Inl e, row) | None \<Rightarrow>
        (case si_fault inp 1 of Some e \<Rightarrow> (Inl e, row) | None \<Rightarrow>
        (case si_fault inp 2 of Some e \<Rightarrow> (Inl (wrapped ''acquire UI statistics refresh lock'' e), row) | None \<Rightarrow>
           if \<not> si_locked inp then (Inr \<lparr>ur_Snapshot = None, ur_Skipped = True, ur_PayloadBytes = 0\<rparr>, row)
           else (case si_fault inp 3 of Some e \<Rightarrow> (Inl (wrapped ''begin UI statistics refresh'' e), row) | None \<Rightarrow>
             (case collect inp db opts of Inl e \<Rightarrow> (Inl e, row) | Inr sn \<Rightarrow>
               (case ValidateUIStatsSnapshot (Some sn) of Some e \<Rightarrow> (Inl e, row) | None \<Rightarrow>
                 (case si_fault inp 11 of
                    Some e \<Rightarrow> (Inl (wrapped ''publish UI statistics snapshot'' e), if si_applied inp then Some (snapshot_row inp sn) else row)
                  | None \<Rightarrow>
                      (Inr \<lparr>ur_Snapshot = Some sn, ur_Skipped = False, ur_PayloadBytes = si_bytes inp\<rparr>,
                       Some (snapshot_row inp sn)))))))))"

definition LoadCurrent :: "stats_inputs \<Rightarrow> stats_row option \<Rightarrow> UIStatsSnapshot result" where
  "LoadCurrent inp row =
     (case si_fault inp 0 of
        Some e \<Rightarrow> Inl e
      | None \<Rightarrow>
          (case row of
             None \<Rightarrow> Inl (ESent ErrUIStatsUnavailable)
           | Some x \<Rightarrow>
               (case si_fault inp 1 of
                  Some e \<Rightarrow> Inl e
                | None \<Rightarrow>
                    (case sx_payload x of
                       None \<Rightarrow> Inl (wrapped ''decode UI statistics snapshot'' (EText ''invalid JSON document''))
                     | Some sn0 \<Rightarrow>
                         (let sn = sn0\<lparr>us_SchemaVersion := sx_schema_version x, us_GeneratedAt := sx_generated_at x,
                                us_ActivitySince := sx_activity_since x, us_MaxLevel := sx_max_level x,
                                us_SourceCharacters := sx_source_character_count x,
                                us_RefreshDuration := i64 (sx_refresh_duration_ms x * millisecond)\<rparr>
                          in case ValidateUIStatsSnapshot (Some sn) of Some e \<Rightarrow> Inl e | None \<Rightarrow> Inr sn)))))"

section \<open>When the groups validate\<close>

lemma check_keys_None:
  "check_keys bad key what seen xs = None \<longleftrightarrow>
     (\<forall>x\<in>set xs. bad x = None) \<and> distinct (map key xs) \<and> key ` set xs \<inter> seen = {}"
proof (induction xs arbitrary: seen)
  case (Cons x xs)
  then show ?case by (auto split: option.splits)
qed simp

lemma nul_split: "CHR 0x00 \<notin> set a \<Longrightarrow> CHR 0x00 \<notin> set b \<Longrightarrow> a @ CHR 0x00 # x = b @ CHR 0x00 # y \<longleftrightarrow> a = b \<and> x = y"
proof (induction a arbitrary: b)
  case Nil
  then show ?case by (cases b) auto
next
  case (Cons c a)
  then show ?case by (cases b) auto
qed

definition nul_free_group :: "ScopedGroupCount \<Rightarrow> bool" where
  "nul_free_group g \<longleftrightarrow> CHR 0x00 \<notin> set (sc_Region (sg_Scope g)) \<and> CHR 0x00 \<notin> set (sc_Datacenter (sg_Scope g))
     \<and> CHR 0x00 \<notin> set (sc_World (sg_Scope g)) \<and> CHR 0x00 \<notin> set (sg_Dimension g)"

definition triple :: "ScopedGroupCount \<Rightarrow> StatsScope \<times> string \<times> string" where
  "triple g = (sg_Scope g, sg_Dimension g, sg_Key g)"

lemma group_key_inj: "nul_free_group g \<Longrightarrow> nul_free_group h \<Longrightarrow> group_key g = group_key h \<Longrightarrow> triple g = triple h"
  by (auto simp: nul_free_group_def group_key_def scopeKey_def triple_def nul_split)

text \<open>Characters whose columns the database can hold and whose gender is one of the three values of the Lodestone.\<close>

definition clean_row :: "character_row \<Rightarrow> bool" where
  "clean_row r \<longleftrightarrow> CHR 0x00 \<notin> set (cr_Region r) \<and> CHR 0x00 \<notin> set (cr_Datacenter r) \<and> CHR 0x00 \<notin> set (cr_World r)
     \<and> uint (cr_Gender r) \<le> 2"

definition placed :: "character_row \<Rightarrow> bool" where
  "placed r \<longleftrightarrow> cr_Region r \<noteq> [] \<and> cr_Datacenter r \<noteq> []"

text \<open>The labels of a row can be read back from the group that it contributes.\<close>

definition gender_of :: "string \<Rightarrow> int" where
  "gender_of n = (if n = ''Male'' then 1 else if n = ''Female'' then 2 else 0)"

definition nonempty :: "string \<Rightarrow> string option" where "nonempty s = (if s = [] then None else Some s)"

definition unlabel :: "StatsScope \<times> string \<times> string \<Rightarrow> labels" where
  "unlabel t =
     (let (sc, d, k) = t; n = rev (takeWhile (\<lambda>c. c \<noteq> CHR ''|'') (rev k))
      in \<lparr>lb_region = (if d = ''region'' then Some k else nonempty (sc_Region sc)),
          lb_datacenter = (if d = ''datacenter'' then Some k else nonempty (sc_Datacenter sc)),
          lb_world = (if d = ''world'' then Some k else nonempty (sc_World sc)),
          lb_race = (if d = ''race'' then Some k else if d = ''race_gender'' then Some (take (length k - length n - 1) k) else None),
          lb_tribe = (if d = ''tribe'' then Some k else None),
          lb_gender = (if d = ''gender'' then Some (gender_of k) else if d = ''race_gender'' then Some (gender_of n) else None)\<rparr>)"

lemma genderName_split: "takeWhile (\<lambda>c. c \<noteq> CHR ''|'') (rev (genderName g) @ CHR ''|'' # xs) = rev (genderName g)"
  by (simp add: genderName_def)

lemma gender_of_name: "0 \<le> g \<Longrightarrow> g \<le> 2 \<Longrightarrow> gender_of (genderName g) = g"
  by (auto simp: gender_of_def genderName_def)

text \<open>The shape of the labels of a grouping set: at most one place, and a tribe only alone.\<close>

definition nul_free :: "string option \<Rightarrow> bool" where
  "nul_free p = (case p of None \<Rightarrow> True | Some x \<Rightarrow> CHR 0x00 \<notin> set x)"

definition known_gender :: "int option \<Rightarrow> bool" where
  "known_gender g = (case g of None \<Rightarrow> True | Some x \<Rightarrow> 0 \<le> x \<and> x \<le> 2)"

definition good_labels :: "labels \<Rightarrow> bool" where
  "good_labels l \<longleftrightarrow> (lb_region l = None \<or> lb_datacenter l = None) \<and> (lb_region l = None \<or> lb_world l = None)
     \<and> (lb_datacenter l = None \<or> lb_world l = None) \<and> (lb_tribe l = None \<or> lb_race l = None \<and> lb_gender l = None)
     \<and> lb_region l \<noteq> Some [] \<and> lb_datacenter l \<noteq> Some [] \<and> known_gender (lb_gender l)
     \<and> nul_free (lb_region l) \<and> nul_free (lb_datacenter l) \<and> nul_free (lb_world l)"

lemma good_labels_of:
  assumes "gs \<in> set grouping_sets" and "clean_row r" and "placed r"
  shows "good_labels (labels_of gs r)"
proof -
  have "\<not> (ColRegion \<in> set gs \<and> ColDatacenter \<in> set gs) \<and> \<not> (ColRegion \<in> set gs \<and> ColWorld \<in> set gs)
      \<and> \<not> (ColDatacenter \<in> set gs \<and> ColWorld \<in> set gs) \<and> (ColTribe \<in> set gs \<longrightarrow> ColRace \<notin> set gs \<and> ColGender \<notin> set gs)"
    using assms(1) by (auto simp: grouping_sets_def)
  with assms(2,3) show ?thesis
    by (auto simp: good_labels_def labels_of_def label_def clean_row_def placed_def nul_free_def known_gender_def)
qed

lemma scope_back:
  assumes "good_labels l" and "row_scope l \<noteq> global_scope \<or> lb_world l = None"
  shows "nonempty (sc_Region (row_scope l)) = lb_region l \<and> nonempty (sc_Datacenter (row_scope l)) = lb_datacenter l
    \<and> nonempty (sc_World (row_scope l)) = lb_world l
    \<and> CHR 0x00 \<notin> set (sc_Region (row_scope l)) \<and> CHR 0x00 \<notin> set (sc_Datacenter (row_scope l)) \<and> CHR 0x00 \<notin> set (sc_World (row_scope l))"
  using assms
  by (cases "lb_world l"; cases "lb_datacenter l"; cases "lb_region l")
    (simp_all add: good_labels_def row_scope_def global_scope_def nonempty_def nul_free_def split: if_splits)

lemma unlabel_triple:
  assumes "good_labels l" and "row_triple l = Some (sc, d, k)"
  shows "unlabel (sc, d, k) = l"
proof (cases "lb_race l = None \<and> lb_tribe l = None \<and> lb_gender l = None")
  case True
  with assms show ?thesis
    by (cases l) (auto simp: row_triple_def good_labels_def unlabel_def global_scope_def nonempty_def split: option.splits if_splits)
next
  case False
  with assms(2) have t: "row_dimension l = Some (d, k)" "sc = row_scope l" "row_scope l \<noteq> global_scope \<or> lb_world l = None"
    by (auto simp: row_triple_def split: option.splits if_splits)
  note B = scope_back [OF assms(1) t(3)]
  from t(1) assms(1) consider
      r g where "lb_race l = Some r" "lb_gender l = Some g" "lb_tribe l = None" "0 \<le> g" "g \<le> 2" "d = ''race_gender''" "k = r @ ''|'' @ genderName g"
    | r where "lb_race l = Some r" "lb_gender l = None" "lb_tribe l = None" "d = ''race''" "k = r"
    | u where "lb_race l = None" "lb_gender l = None" "lb_tribe l = Some u" "d = ''tribe''" "k = u"
    | g where "lb_race l = None" "lb_gender l = Some g" "lb_tribe l = None" "0 \<le> g" "g \<le> 2" "d = ''gender''" "k = genderName g"
    by (cases "lb_race l"; cases "lb_gender l"; cases "lb_tribe l")
      (simp_all add: row_dimension_def good_labels_def known_gender_def)
  then show ?thesis
  proof cases
    case 1
    with B t(2) show ?thesis by (simp add: unlabel_def gender_of_name genderName_split)
  next
    case 2
    with B t(2) show ?thesis by (simp add: unlabel_def)
  next
    case 3
    with B t(2) show ?thesis by (simp add: unlabel_def)
  next
    case 4
    with B t(2) show ?thesis by (simp add: unlabel_def gender_of_name)
  qed
qed

lemma triple_nul_free:
  assumes "good_labels l" and "row_triple l = Some (sc, d, k)" and "triple g = (sc, d, k)"
  shows "nul_free_group g"
proof -
  have d: "CHR 0x00 \<notin> set d"
    using assms(2) by (auto simp: row_triple_def row_dimension_def split: option.splits if_splits)
  have "sc = global_scope \<or> sc = row_scope l \<and> (row_scope l \<noteq> global_scope \<or> lb_world l = None)"
    using assms(2) by (auto simp: row_triple_def split: option.splits if_splits)
  with scope_back [OF assms(1)] d assms(3) show ?thesis
    by (auto simp: nul_free_group_def triple_def global_scope_def)
qed

lemma unlabel_row_groups:
  assumes "gs \<in> set grouping_sets" and "clean_row r" and "placed r" and "sr_labels x = labels_of gs r" and "row_groups x = [g]"
  shows "unlabel (triple g) = sr_labels x \<and> nul_free_group g"
proof -
  have good: "good_labels (sr_labels x)" using good_labels_of [OF assms(1-3)] assms(4) by simp
  from assms(5) obtain sc d k where t: "row_triple (sr_labels x) = Some (sc, d, k)" "triple g = (sc, d, k)"
    by (auto simp: row_groups_def triple_def split: option.splits)
  from unlabel_triple [OF good t(1)] triple_nul_free [OF good t] t(2) show ?thesis by simp
qed

text \<open>The rows of the query have distinct labels: a label tells its grouping set.\<close>

definition label_columns :: "labels \<Rightarrow> bool list" where
  "label_columns l = [lb_region l \<noteq> None, lb_datacenter l \<noteq> None, lb_world l \<noteq> None, lb_race l \<noteq> None, lb_tribe l \<noteq> None, lb_gender l \<noteq> None]"

definition set_columns :: "column list \<Rightarrow> bool list" where
  "set_columns gs = map (\<lambda>c. c \<in> set gs) [ColRegion, ColDatacenter, ColWorld, ColRace, ColTribe, ColGender]"

lemma label_columns_group: "l \<in> set (group_labels gs rows) \<Longrightarrow> label_columns l = set_columns gs"
  by (auto simp: group_labels_def label_columns_def set_columns_def no_labels_def labels_of_def label_def split: if_splits)

lemma distinct_concat_tagged:
  assumes "distinct (map tag xss)" and "\<And>xs. xs \<in> set xss \<Longrightarrow> distinct (f xs)"
    and "\<And>xs x. xs \<in> set xss \<Longrightarrow> x \<in> set (f xs) \<Longrightarrow> t x = tag xs"
  shows "distinct (concat (map f xss))"
  using assms
proof (induction xss)
  case (Cons xs xss)
  have "set (f xs) \<inter> \<Union> (set (map (set \<circ> f) xss)) = {}"
  proof -
    have False if "x \<in> set (f xs)" "ys \<in> set xss" "x \<in> set (f ys)" for x ys
      using Cons.prems(1) Cons.prems(3) [of xs x] Cons.prems(3) [of ys x] that by (metis image_eqI list.set_intros distinct.simps(2) list.map(2) set_map)
    then show ?thesis by auto
  qed
  with Cons show ?case by (auto simp: disjoint_iff)
qed simp

lemma sets_distinct: "distinct (map set_columns grouping_sets)"
  by (simp add: grouping_sets_def set_columns_def)

lemma stat_labels: "map sr_labels (stat_rows since ml rows) = concat (map (\<lambda>gs. group_labels gs rows) grouping_sets)"
  by (simp add: stat_rows_def group_rows_def map_concat comp_def Let_def)

lemma stat_labels_distinct: "distinct (map sr_labels (stat_rows since ml rows))"
  unfolding stat_labels
  by (rule distinct_concat_tagged [OF sets_distinct, where t = label_columns])
    (auto simp: group_labels_def intro: label_columns_group)

lemma stat_row_origin:
  assumes "x \<in> set (stat_rows since ml rows)" and "sr_labels x \<noteq> no_labels"
  shows "\<exists>gs r. gs \<in> set grouping_sets \<and> r \<in> set rows \<and> sr_labels x = labels_of gs r"
proof -
  from assms(1) obtain gs where gs: "gs \<in> set grouping_sets" "sr_labels x \<in> set (group_labels gs rows)"
    by (auto simp: stat_rows_def group_rows_def Let_def)
  then obtain r where "r \<in> set rows" "sr_labels x = labels_of gs r"
    using assms(2) by (auto simp: group_labels_def split: if_splits)
  with gs(1) show ?thesis by blast
qed

lemma row_groups_cases: "row_groups x = [] \<or> (\<exists>g. row_groups x = [g] \<and> sg_Total g = sr_total x \<and> sg_Active g = sr_active x \<and> sg_Dimension g \<noteq> [])"
  by (auto simp: row_groups_def row_triple_def row_dimension_def split: option.splits prod.splits if_splits)

lemma no_labels_groups: "sr_labels x = no_labels \<Longrightarrow> row_groups x = []"
  by (simp add: row_groups_def row_triple_def no_labels_def)

text \<open>The groups of the query, in order.\<close>

definition query_groups :: "stat_row list \<Rightarrow> ScopedGroupCount list" where
  "query_groups xs = concat (map row_groups xs)"

lemma scan_rows_groups:
  "us_Groups (fold scan_row xs sn) = us_Groups sn @ query_groups xs"
proof (induction xs arbitrary: sn)
  case (Cons x xs)
  then show ?case by (cases "sr_labels x = no_labels") (simp_all add: scan_row_def query_groups_def no_labels_groups)
qed (simp add: query_groups_def)

lemma query_groups_distinct:
  assumes "distinct (map sr_labels xs)" and "\<And>x g. x \<in> set xs \<Longrightarrow> row_groups x = [g] \<Longrightarrow> unlabel (triple g) = sr_labels x \<and> nul_free_group g"
  shows "distinct (map group_key (query_groups xs)) \<and> (\<forall>g\<in>set (query_groups xs). nul_free_group g \<and> unlabel (triple g) \<in> sr_labels ` set xs)"
  using assms
proof (induction xs)
  case (Cons x xs)
  then have IH: "distinct (map group_key (query_groups xs))"
      "\<forall>g\<in>set (query_groups xs). nul_free_group g \<and> unlabel (triple g) \<in> sr_labels ` set xs" by auto
  show ?case
  proof (cases "row_groups x = []")
    case True
    with IH show ?thesis by (auto simp: query_groups_def)
  next
    case False
    then obtain g where g: "row_groups x = [g]" using row_groups_cases [of x] by auto
    have u: "unlabel (triple g) = sr_labels x" "nul_free_group g" using Cons.prems(2) [OF _ g] by auto
    have "group_key g \<notin> group_key ` set (query_groups xs)"
    proof
      assume "group_key g \<in> group_key ` set (query_groups xs)"
      then obtain h where "h \<in> set (query_groups xs)" "group_key g = group_key h" by auto
      with IH(2) u group_key_inj have "sr_labels x \<in> sr_labels ` set xs" by metis
      with Cons.prems(1) show False by simp
    qed
    with IH u g show ?thesis by (auto simp: query_groups_def)
  qed
qed (simp add: query_groups_def)

lemma stat_row_counts:
  assumes "x \<in> set (stat_rows since ml rows)"
  shows "0 \<le> sr_active x \<and> sr_active x \<le> sr_total x \<and> 0 \<le> sr_max x \<and> sr_max x \<le> sr_total x"
  using assms by (auto simp: stat_rows_def group_rows_def Let_def simp del: filter_filter)

lemma placed_groups_validate:
  assumes "\<And>r. r \<in> set rows \<Longrightarrow> clean_row r \<and> placed r"
  shows "check_keys bad_group group_key what {} (query_groups (stat_rows since ml rows)) = None"
proof -
  let ?xs = "stat_rows since ml rows"
  have "unlabel (triple g) = sr_labels x \<and> nul_free_group g" if x: "x \<in> set ?xs" and g: "row_groups x = [g]" for x g
  proof -
    have "sr_labels x \<noteq> no_labels" using g no_labels_groups [of x] by auto
    from stat_row_origin [OF x this] obtain gs r where "gs \<in> set grouping_sets" "r \<in> set rows" "sr_labels x = labels_of gs r" by blast
    from unlabel_row_groups [OF this(1) _ _ this(3) g] assms [OF this(2)] show ?thesis by blast
  qed
  note D = query_groups_distinct [OF stat_labels_distinct this]
  have "bad_group g = None" if "g \<in> set (query_groups ?xs)" for g
  proof -
    from that obtain x where x: "x \<in> set ?xs" "g \<in> set (row_groups x)" by (auto simp: query_groups_def)
    with row_groups_cases [of x] stat_row_counts [OF x(1)] show ?thesis by (auto simp: bad_group_def)
  qed
  with D show ?thesis by (simp add: check_keys_None)
qed

text \<open>A character without a region or datacenter is counted for its race once globally and once in a scope without a name.\<close>

lemma group_rows_mem:
  "r \<in> set rows \<Longrightarrow> gs \<noteq> [] \<Longrightarrow> \<exists>x\<in>set (group_rows since ml rows gs). sr_labels x = labels_of gs r"
  by (auto simp: group_rows_def group_labels_def Let_def)

lemma race_group:
  assumes "x \<in> set xs" and "sr_labels x = labels_of gs r"
    and "gs = [ColRace] \<or> gs = [ColRegion, ColRace] \<and> cr_Region r = [] \<or> gs = [ColDatacenter, ColRace] \<and> cr_Datacenter r = []"
  shows "scopeKey global_scope @ CHR 0x00 # ''race'' @ CHR 0x00 # cr_Race r \<in> group_key ` set (query_groups xs)"
proof -
  have "row_groups x = [\<lparr>sg_Scope = global_scope, sg_Dimension = ''race'', sg_Key = cr_Race r, sg_Total = sr_total x, sg_Active = sr_active x\<rparr>]"
    using assms(2,3)
    by (auto simp: row_groups_def row_triple_def labels_of_def label_def row_dimension_def row_scope_def global_scope_def)
  with assms(1) show ?thesis by (force simp: query_groups_def group_key_def)
qed

lemma unplaced_groups_rejected:
  assumes "r \<in> set rows" and "\<not> placed r"
  shows "check_keys bad_group group_key what {} (query_groups (stat_rows since ml rows)) \<noteq> None"
proof -
  let ?f = "group_rows since ml rows"
  let ?A = "concat (map ?f (take 5 grouping_sets))" and ?B = "concat (map ?f (drop 5 grouping_sets))"
  let ?K = "scopeKey global_scope @ CHR 0x00 # ''race'' @ CHR 0x00 # cr_Race r"
  have split: "query_groups (stat_rows since ml rows) = query_groups ?A @ query_groups ?B"
    by (simp add: stat_rows_def query_groups_def grouping_sets_def)
  obtain x where "x \<in> set (?f [ColRace])" "sr_labels x = labels_of [ColRace] r" using group_rows_mem [OF assms(1)] by blast
  then have A: "?K \<in> group_key ` set (query_groups ?A)" by (intro race_group [of x]) (auto simp: grouping_sets_def)
  have "?K \<in> group_key ` set (query_groups ?B)"
  proof (cases "cr_Region r = []")
    case True
    obtain y where "y \<in> set (?f [ColRegion, ColRace])" "sr_labels y = labels_of [ColRegion, ColRace] r"
      using group_rows_mem [OF assms(1)] by blast
    with True show ?thesis by (intro race_group [of y]) (auto simp: grouping_sets_def)
  next
    case False
    then have dc: "cr_Datacenter r = []" using assms(2) by (simp add: placed_def)
    obtain y where "y \<in> set (?f [ColDatacenter, ColRace])" "sr_labels y = labels_of [ColDatacenter, ColRace] r"
      using group_rows_mem [OF assms(1)] by blast
    with dc show ?thesis by (intro race_group [of y]) (auto simp: grouping_sets_def)
  qed
  with A show ?thesis by (auto simp: check_keys_None split)
qed

lemma collect_groups:
  assumes "collect inp db opts = Inr sn"
  shows "us_Groups sn = query_groups (stat_rows (uo_ActivitySince opts) (uo_MaxLevel opts) (filter live (db_characters db)))"
proof -
  from assms obtain sn1 where "readCharacterStats inp db (new_snapshot inp opts) = Inr sn1" "us_Groups sn = us_Groups sn1"
    by (auto simp: collect_def readMilestoneStats_def Let_def split: sum.splits option.splits)
  then show ?thesis
    by (auto simp: readCharacterStats_def new_snapshot_def scan_rows_groups split: option.splits)
qed

lemma validate_checks_groups:
  "ValidateUIStatsSnapshot (Some sn) = None \<Longrightarrow> check_keys bad_group group_key ''group'' {} (us_Groups sn) = None"
  by (auto simp: ValidateUIStatsSnapshot_def Let_def split: if_splits option.splits)

lemma unknown_datacenter: "dc \<notin> fst ` set datacenterRegion \<Longrightarrow> RegionForDatacenter dc = []"
  by (simp add: RegionForDatacenter_def map_of_eq_None_iff split: option.splits) (metis map_of_eq_None_iff option.distinct(1))

section \<open>Properties\<close>

lemma unplaced_refresh_rejected:
  assumes "\<exists>r\<in>set (db_characters db). live r \<and> \<not> placed r"
  shows "snd (Repo_Refresh inp opts db row) = row \<and> (\<forall>res. fst (Repo_Refresh inp opts db row) = Inr res \<longrightarrow> ur_Skipped res)"
proof -
  from assms obtain r where r: "r \<in> set (filter live (db_characters db))" "\<not> placed r" by auto
  have "ValidateUIStatsSnapshot (Some sn) \<noteq> None" if "collect inp db opts = Inr sn" for sn
    using unplaced_groups_rejected [OF r] validate_checks_groups [of sn] unfolding collect_groups [OF that] by blast
  then show ?thesis by (auto simp: Repo_Refresh_def split: option.splits sum.splits)
qed

text \<open>C35: The group statistics that Refresh computes have unique keys exactly when every live character has a region and a
  datacenter (for columns without NUL bytes and the three gender codes). One live character of a datacenter that the region table does
  not know, whose region is therefore empty, makes every Refresh that gets the lock fail and keep the
  stored statistics as they are, whatever else happens.\<close>

theorem refresh_needs_placed_characters:
  assumes "\<And>r. r \<in> set (db_characters db) \<Longrightarrow> clean_row r"
  shows "(\<forall>sn. collect inp db opts = Inr sn \<longrightarrow>
      (check_keys bad_group group_key ''group'' {} (us_Groups sn) = None
        \<longleftrightarrow> (\<forall>r\<in>set (db_characters db). live r \<longrightarrow> placed r)))
    \<and> ((\<exists>r\<in>set (db_characters db). live r \<and> \<not> placed r) \<longrightarrow>
        snd (Repo_Refresh inp opts db row) = row
        \<and> (\<forall>res. fst (Repo_Refresh inp opts db row) = Inr res \<longrightarrow> ur_Skipped res))"
proof (intro conjI allI impI)
  let ?rows = "filter live (db_characters db)"
  fix sn
  assume c: "collect inp db opts = Inr sn"
  show "check_keys bad_group group_key ''group'' {} (us_Groups sn) = None
        \<longleftrightarrow> (\<forall>r\<in>set (db_characters db). live r \<longrightarrow> placed r)"
  proof
    assume none: "check_keys bad_group group_key ''group'' {} (us_Groups sn) = None"
    have "placed r" if "r \<in> set ?rows" for r
      using none unplaced_groups_rejected [OF that] unfolding collect_groups [OF c] by blast
    then show "\<forall>r\<in>set (db_characters db). live r \<longrightarrow> placed r" by simp
  next
    assume "\<forall>r\<in>set (db_characters db). live r \<longrightarrow> placed r"
    then show "check_keys bad_group group_key ''group'' {} (us_Groups sn) = None"
      using placed_groups_validate [of ?rows] assms collect_groups [OF c] by simp
  qed
next
  assume "\<exists>r\<in>set (db_characters db). live r \<and> \<not> placed r"
  note N = unplaced_refresh_rejected [OF this]
  show "snd (Repo_Refresh inp opts db row) = row" by (rule N [THEN conjunct1])
  fix res
  assume "fst (Repo_Refresh inp opts db row) = Inr res"
  with N show "ur_Skipped res" by blast
qed

definition demo_stats :: stats_inputs where
  "demo_stats = \<lparr>si_fault = (\<lambda>_. None), si_locked = True, si_applied = True, si_now = 1000, si_duration = 5, si_stored = (\<lambda>t. t), si_bytes = 9\<rparr>"

text \<open>A character of a datacenter that the world tables do not have: its region is empty.\<close>

definition demo_lost :: census_db where
  "demo_lost = empty_census\<lparr>db_characters :=
     [inserted_row ((demo_character 2 9)\<lparr>cr_Datacenter := ''Shadow'', cr_Region := RegionForDatacenter ''Shadow''\<rparr>) 0]\<rparr>"

theorem refresh_needs_placed_characters_witness:
  "snd (Repo_Refresh demo_stats \<lparr>uo_ActivitySince = 1, uo_MaxLevel = 100\<rparr> demo_lost None) = None"
proof -
  have clean: "clean_row r" if "r \<in> set (db_characters demo_lost)" for r
    using that by (simp add: demo_lost_def demo_character_def inserted_row_def CharacterRecord.defs character_row.defs clean_row_def RegionForDatacenter_def datacenterRegion_def)
  have "\<exists>r\<in>set (db_characters demo_lost). live r \<and> \<not> placed r"
    by (simp add: demo_lost_def demo_character_def inserted_row_def CharacterRecord.defs character_row.defs placed_def live_def RegionForDatacenter_def datacenterRegion_def)
  with refresh_needs_placed_characters [OF clean, where inp = demo_stats and opts = "\<lparr>uo_ActivitySince = 1, uo_MaxLevel = 100\<rparr>" and row = None]
  show ?thesis by blast
qed

end
