(* ===== verification/UI_Stats_Cache.thy ===== *)
theory UI_Stats_Cache
  imports UI_Stats_Store
begin

text \<open>
  domain/census/ui\_stats\_service.go: the process-wide cache of the statistics. Current serves the cached snapshot, starts at most one
  load at a time and lets callers without a snapshot wait on a channel that the load closes. Every mutex section is one operation on
  the state; the calls in flight, the stored row and the closed channels are part of the state, and a step relation interleaves them.
\<close>

record UIStatsState =
  ut_GeneratedAt :: timestamp
  ut_Age :: duration
  ut_Stale :: bool

record UIStatsService =
  cs_repo :: bool
  cs_cacheTTL :: duration
  cs_staleWarning :: duration
  cs_observer :: bool
  cs_snapshot :: "UIStatsSnapshot option"
  cs_loadedAt :: timestamp
  cs_loading :: bool
  cs_wait :: "nat option"

definition NewUIStatsService :: "duration \<Rightarrow> duration \<Rightarrow> UIStatsService" where
  "NewUIStatsService cacheTTL staleWarning =
     \<lparr>cs_repo = True, cs_cacheTTL = (if cacheTTL \<le> 0 then minute else cacheTTL),
      cs_staleWarning = (if staleWarning \<le> 0 then 12 * hour else staleWarning),
      cs_observer = False, cs_snapshot = None, cs_loadedAt = 0, cs_loading = False, cs_wait = None\<rparr>"

type_synonym answer = "(UIStatsSnapshot \<times> UIStatsState) result"

text \<open>Where a call is: waiting on a channel, in LoadCurrent (with the time it read), in the background reload, or finished.\<close>

datatype call =
    Waiting "nat option"
  | Loading timestamp
  | Reloading
  | Storing UIStatsRefreshResult
  | Answered answer
  | Refreshed "UIStatsRefreshResult result"
  | Ended

datatype observation =
    CacheObserved string "UIStatsSnapshot option"
  | RefreshObserved string duration int

record cache_world =
  cw_service :: UIStatsService
  cw_row :: "stats_row option"
  cw_closed :: "nat set"
  cw_next :: nat
  cw_calls :: "nat \<rightharpoonup> call"
  cw_seen :: "observation list"
  cw_panicked :: bool

definition new_world :: "UIStatsService \<Rightarrow> stats_row option \<Rightarrow> cache_world" where
  "new_world s row = \<lparr>cw_service = s, cw_row = row, cw_closed = {}, cw_next = 0, cw_calls = Map.empty, cw_seen = [], cw_panicked = False\<rparr>"

definition goto :: "nat \<Rightarrow> call \<Rightarrow> cache_world \<Rightarrow> cache_world" where
  "goto t c w = w\<lparr>cw_calls := (cw_calls w)(t \<mapsto> c)\<rparr>"

definition observe :: "observation \<Rightarrow> cache_world \<Rightarrow> cache_world" where
  "observe ob w = (if cs_observer (cw_service w) then w\<lparr>cw_seen := cw_seen w @ [ob]\<rparr> else w)"

definition SetObserver :: "bool \<Rightarrow> cache_world \<Rightarrow> cache_world" where
  "SetObserver on w = w\<lparr>cw_service := (cw_service w)\<lparr>cs_observer := on\<rparr>\<rparr>"

definition observeCache :: "string \<Rightarrow> UIStatsSnapshot option \<Rightarrow> cache_world \<Rightarrow> cache_world" where
  "observeCache res snapshot w = observe (CacheObserved res snapshot) w"

definition snapshot_state :: "UIStatsService \<Rightarrow> UIStatsSnapshot \<Rightarrow> timestamp \<Rightarrow> bool \<Rightarrow> UIStatsState" where
  "snapshot_state s snapshot now forcedStale =
     (let age = max 0 (time_sub now (us_GeneratedAt snapshot))
      in \<lparr>ut_GeneratedAt = us_GeneratedAt snapshot, ut_Age = age, ut_Stale = (forcedStale \<or> age \<ge> cs_staleWarning s)\<rparr>)"

definition serve :: "nat \<Rightarrow> string \<Rightarrow> UIStatsSnapshot \<Rightarrow> timestamp \<Rightarrow> bool \<Rightarrow> cache_world \<Rightarrow> cache_world" where
  "serve t res snapshot now forcedStale w =
     goto t (Answered (Inr (snapshot, snapshot_state (cw_service w) snapshot now forcedStale))) (observeCache res (Some snapshot) w)"

definition fresh :: "UIStatsService \<Rightarrow> timestamp \<Rightarrow> bool" where
  "fresh s now \<longleftrightarrow> cs_snapshot s \<noteq> None \<and> time_sub now (cs_loadedAt s) < cs_cacheTTL s"

text \<open>Current up to its first blocking point; \<open>b\<close> is the goroutine of the background reload.\<close>

definition Current :: "nat \<Rightarrow> nat \<Rightarrow> timestamp \<Rightarrow> cache_world \<Rightarrow> cache_world" where
  "Current t b now w =
     (let s = cw_service w
      in if \<not> cs_repo s then goto t (Answered (Inl (ESent ErrUIStatsUnavailable))) w
         else case cs_snapshot s of
           Some sn \<Rightarrow>
             if time_sub now (cs_loadedAt s) < cs_cacheTTL s then serve t ''hit'' sn now False w
             else if cs_loading s then serve t ''stale_served'' sn now True w
             else serve t ''stale_served'' sn now True
                    (goto b Reloading (w\<lparr>cw_service := s\<lparr>cs_loading := True, cs_wait := Some (cw_next w)\<rparr>, cw_next := cw_next w + 1\<rparr>))
         | None \<Rightarrow>
             if cs_loading s
             then goto t (Waiting (cs_wait s)) w
             else goto t (Loading now) (w\<lparr>cw_service := s\<lparr>cs_loading := True, cs_wait := Some (cw_next w)\<rparr>, cw_next := cw_next w + 1\<rparr>))"

text \<open>The end of a load: closing a channel that is nil or closed panics.\<close>

definition finishReload :: "timestamp \<Rightarrow> UIStatsSnapshot result \<Rightarrow> cache_world \<Rightarrow> cache_world" where
  "finishReload now loaded w =
     (let s = cw_service w;
          sn = (case loaded of Inr x \<Rightarrow> Some x | Inl _ \<Rightarrow> cs_snapshot s);
          s' = s\<lparr>cs_snapshot := sn, cs_loadedAt := (if sn \<noteq> None then now else cs_loadedAt s), cs_loading := False\<rparr>
      in case cs_wait s of
           None \<Rightarrow> w\<lparr>cw_service := s', cw_panicked := True\<rparr>
         | Some c \<Rightarrow>
             if c \<in> cw_closed w then w\<lparr>cw_service := s', cw_panicked := True\<rparr>
             else w\<lparr>cw_service := s'\<lparr>cs_wait := None\<rparr>, cw_closed := insert c (cw_closed w)\<rparr>)"

definition load_checked :: "stats_inputs \<Rightarrow> cache_world \<Rightarrow> UIStatsSnapshot result" where
  "load_checked inp w =
     (case LoadCurrent inp (cw_row w) of
        Inl e \<Rightarrow> Inl e
      | Inr sn \<Rightarrow> (case ValidateUIStatsSnapshot (Some sn) of Some e \<Rightarrow> Inl e | None \<Rightarrow> Inr sn))"

definition unavailable :: "err \<Rightarrow> err" where
  "unavailable e = EWrap [] (ESent ErrUIStatsUnavailable) ('': '' @ error_text e)"

definition wait_cancelled :: "nat \<Rightarrow> err \<Rightarrow> cache_world \<Rightarrow> cache_world" where
  "wait_cancelled t e w = goto t (Answered (Inl (unavailable e))) w"

text \<open>The rest of Current after LoadCurrent; the cached snapshot is the answer of a successful load.\<close>

definition Current_loaded :: "nat \<Rightarrow> stats_inputs \<Rightarrow> timestamp \<Rightarrow> timestamp \<Rightarrow> cache_world \<Rightarrow> cache_world" where
  "Current_loaded t inp now fin w =
     (let loaded = load_checked inp w; w' = finishReload fin loaded w
      in case loaded of
           Inl e \<Rightarrow> goto t (Answered (Inl (unavailable e))) (observeCache ''error'' None w')
         | Inr sn \<Rightarrow> serve t ''reload'' sn now False w')"

definition reload :: "nat \<Rightarrow> stats_inputs \<Rightarrow> timestamp \<Rightarrow> cache_world \<Rightarrow> cache_world" where
  "reload t inp fin w =
     (let loaded = load_checked inp w; w' = finishReload fin loaded w; current = cs_snapshot (cw_service w')
      in goto t Ended (observeCache (case loaded of Inl _ \<Rightarrow> ''error'' | Inr _ \<Rightarrow> ''reload'') current w'))"

definition refresh_outcome :: "UIStatsRefreshResult result \<Rightarrow> string \<times> int" where
  "refresh_outcome r =
     (case r of
        Inl _ \<Rightarrow> (''error'', 0)
      | Inr res \<Rightarrow> if ur_Skipped res then (''skipped'', 0) else (''success'', ur_PayloadBytes res))"

text \<open>Refresh up to the second mutex section, and that section.\<close>

definition Refresh :: "nat \<Rightarrow> stats_inputs \<Rightarrow> UIStatsRefreshOptions \<Rightarrow> census_db \<Rightarrow> timestamp \<Rightarrow> timestamp \<Rightarrow> cache_world \<Rightarrow> cache_world" where
  "Refresh t inp opts db started now w =
     (if \<not> cs_repo (cw_service w) then goto t (Refreshed (Inl (ESent ErrUIStatsUnavailable))) w
      else (let (r, row) = Repo_Refresh inp opts db (cw_row w);
                (outcome, bytes) = refresh_outcome r;
                w' = observe (RefreshObserved outcome (time_sub now started) bytes) (w\<lparr>cw_row := row\<rparr>)
            in case r of
                 Inl e \<Rightarrow> goto t (Refreshed (Inl e)) w'
               | Inr res \<Rightarrow>
                   if ur_Skipped res then goto t (Refreshed (Inr res)) w'
                   else (case ValidateUIStatsSnapshot (ur_Snapshot res) of
                           Some e \<Rightarrow> goto t (Refreshed (Inl e)) w'
                         | None \<Rightarrow> goto t (Storing res) w')))"

definition Refresh_store :: "nat \<Rightarrow> UIStatsRefreshResult \<Rightarrow> timestamp \<Rightarrow> cache_world \<Rightarrow> cache_world" where
  "Refresh_store t res now w =
     goto t (Refreshed (Inr res)) (w\<lparr>cw_service := (cw_service w)\<lparr>cs_snapshot := ur_Snapshot res, cs_loadedAt := now\<rparr>\<rparr>)"

section \<open>Interleaving\<close>

inductive cache_step :: "cache_world \<Rightarrow> cache_world \<Rightarrow> bool" where
  enter: "t \<noteq> b \<Longrightarrow> cw_calls w t = None \<Longrightarrow> cw_calls w b = None \<Longrightarrow> cache_step w (Current t b now w)"
| woken: "cw_calls w t = Some (Waiting (Some c)) \<Longrightarrow> c \<in> cw_closed w \<Longrightarrow> cw_calls w b = None \<Longrightarrow> cache_step w (Current t b now w)"
| cancelled: "cw_calls w t = Some (Waiting c) \<Longrightarrow> cache_step w (wait_cancelled t e w)"
| loaded: "cw_calls w t = Some (Loading now) \<Longrightarrow> cache_step w (Current_loaded t inp now fin w)"
| reloaded: "cw_calls w t = Some Reloading \<Longrightarrow> cache_step w (reload t inp fin w)"
| refresh: "cw_calls w t = None \<Longrightarrow> cache_step w (Refresh t inp opts db started now w)"
| store: "cw_calls w t = Some (Storing res) \<Longrightarrow> cache_step w (Refresh_store t res now w)"
| observer: "cache_step w (SetObserver on w)"

inductive cache_reach :: "cache_world \<Rightarrow> cache_world \<Rightarrow> bool" where
  cache_start: "cache_reach w w"
| cache_next: "cache_reach w v \<Longrightarrow> cache_step v u \<Longrightarrow> cache_reach w u"

section \<open>Invariant\<close>

definition loads :: "cache_world \<Rightarrow> nat \<Rightarrow> bool" where
  "loads w t \<longleftrightarrow> cw_calls w t = Some Reloading \<or> (\<exists>now. cw_calls w t = Some (Loading now))"

definition call_ok :: "cache_world \<Rightarrow> call \<Rightarrow> bool" where
  "call_ok w c =
     (case c of
        Waiting ch \<Rightarrow> (\<exists>k. ch = Some k \<and> (k \<in> cw_closed w \<or> cs_wait (cw_service w) = Some k))
      | Storing res \<Rightarrow> ValidateUIStatsSnapshot (ur_Snapshot res) = None
      | Answered (Inr (sn, _)) \<Rightarrow> ValidateUIStatsSnapshot (Some sn) = None
      | _ \<Rightarrow> True)"

definition flight_ok :: "cache_world \<Rightarrow> bool" where
  "flight_ok w \<longleftrightarrow>
     (case cs_wait (cw_service w) of
        None \<Rightarrow> \<not> cs_loading (cw_service w) \<and> (\<forall>t. \<not> loads w t)
      | Some k \<Rightarrow> cs_loading (cw_service w) \<and> k \<notin> cw_closed w \<and> k < cw_next w \<and> (\<exists>!t. loads w t))"

definition cache_inv :: "cache_world \<Rightarrow> bool" where
  "cache_inv w \<longleftrightarrow> \<not> cw_panicked w \<and> flight_ok w \<and> (\<forall>k\<in>cw_closed w. k < cw_next w)
     \<and> (\<forall>t c. cw_calls w t = Some c \<longrightarrow> call_ok w c)
     \<and> (\<forall>sn. cs_snapshot (cw_service w) = Some sn \<longrightarrow> ValidateUIStatsSnapshot (Some sn) = None)"

lemma observe_simps [simp]:
  "cw_service (observe ob w) = cw_service w" "cw_closed (observe ob w) = cw_closed w" "cw_next (observe ob w) = cw_next w"
  "cw_calls (observe ob w) = cw_calls w" "cw_panicked (observe ob w) = cw_panicked w" "cw_row (observe ob w) = cw_row w"
  by (simp_all add: observe_def)

lemma goto_simps [simp]:
  "cw_service (goto t c w) = cw_service w" "cw_closed (goto t c w) = cw_closed w" "cw_next (goto t c w) = cw_next w"
  "cw_calls (goto t c w) = (cw_calls w)(t \<mapsto> c)" "cw_panicked (goto t c w) = cw_panicked w" "cw_row (goto t c w) = cw_row w"
  by (simp_all add: goto_def)

definition is_load :: "call \<Rightarrow> bool" where
  "is_load c = (case c of Loading _ \<Rightarrow> True | Reloading \<Rightarrow> True | _ \<Rightarrow> False)"

lemma is_load_iff: "is_load c \<longleftrightarrow> c = Reloading \<or> (\<exists>n. c = Loading n)"
  by (cases c) (simp_all add: is_load_def)

lemma loads_is_load: "loads w t \<longleftrightarrow> (\<exists>c. cw_calls w t = Some c \<and> is_load c)"
  by (auto simp: loads_def is_load_iff)

lemma loads_goto [simp]: "loads (goto t c w) u \<longleftrightarrow> (if u = t then is_load c else loads w u)"
  by (simp add: loads_is_load)

text \<open>The invariant depends on the service, the channels and the calls only.\<close>

lemma cache_inv_cong:
  assumes "cw_service v = cw_service w" "cw_closed v = cw_closed w" "cw_next v = cw_next w" "cw_calls v = cw_calls w" "cw_panicked v = cw_panicked w"
  shows "cache_inv v = cache_inv w"
  unfolding cache_inv_def flight_ok_def loads_def call_ok_def assms by (rule refl)

lemma observe_inv [simp]: "cache_inv (observe ob w) = cache_inv w"
  by (rule cache_inv_cong) simp_all

lemma goto_observe [simp]: "cache_inv (goto t c (observe ob w)) = cache_inv (goto t c w)"
  by (rule cache_inv_cong) simp_all

lemma goto_inv:
  assumes "cache_inv w" and "\<not> loads w t" and "call_ok w c" and "\<not> is_load c"
  shows "cache_inv (goto t c w)"
proof -
  have L: "loads (goto t c w) = loads w" using assms(2,4) by (auto simp: fun_eq_iff)
  have C: "call_ok (goto t c w) = call_ok w" unfolding call_ok_def goto_simps by (rule refl)
  show ?thesis using assms(1,3) unfolding cache_inv_def flight_ok_def L C goto_simps by simp
qed

lemma answer_ok: "call_ok w (Answered (Inl e))" "call_ok w Ended" "call_ok w (Refreshed r)" "call_ok w (Loading n)" "call_ok w Reloading"
  "call_ok w (Answered (Inr (sn, st))) \<longleftrightarrow> ValidateUIStatsSnapshot (Some sn) = None"
  "call_ok w (Storing res) \<longleftrightarrow> ValidateUIStatsSnapshot (ur_Snapshot res) = None"
  by (simp_all add: call_ok_def)

lemma not_load [simp]: "\<not> is_load (Answered a)" "\<not> is_load Ended" "\<not> is_load (Refreshed r)" "\<not> is_load (Storing res)" "\<not> is_load (Waiting c)"
  "is_load Reloading" "is_load (Loading n)"
  by (simp_all add: is_load_def)

lemma serve_inv:
  assumes "cache_inv w" and "\<not> loads w t" and "ValidateUIStatsSnapshot (Some sn) = None"
  shows "cache_inv (serve t res sn now stale w)"
  using assms by (simp add: serve_def observeCache_def goto_inv answer_ok)

definition load_started :: "cache_world \<Rightarrow> cache_world" where
  "load_started w = w\<lparr>cw_service := (cw_service w)\<lparr>cs_loading := True, cs_wait := Some (cw_next w)\<rparr>, cw_next := cw_next w + 1\<rparr>"

lemma start_inv:
  assumes inv: "cache_inv w" and "\<not> cs_loading (cw_service w)" and "is_load c"
  shows "cache_inv (goto t c (load_started w))"
proof -
  have none: "cs_wait (cw_service w) = None" "\<And>u. \<not> loads w u"
    using inv assms(2) by (auto simp: cache_inv_def flight_ok_def split: option.splits)
  have L: "loads (goto t c (load_started w)) u \<longleftrightarrow> u = t" for u
    using none(2) assms(3) by (auto simp: loads_is_load load_started_def)
  have ok: "call_ok (goto t c (load_started w)) d" if "call_ok w d" for d
    using that none(1) by (auto simp: call_ok_def load_started_def split: call.splits)
  have "call_ok (goto t c (load_started w)) c" using assms(3) by (cases c) (auto simp: call_ok_def)
  with inv ok show ?thesis
    unfolding cache_inv_def flight_ok_def L by (auto simp: load_started_def less_Suc_eq)
qed

lemma Current_inv:
  assumes inv: "cache_inv w" and "\<not> loads w t" and "cw_calls w b = None" and "t \<noteq> b"
  shows "cache_inv (Current t b now w)"
proof (cases "cs_repo (cw_service w)")
  case False
  with assms show ?thesis by (simp add: Current_def Let_def goto_inv answer_ok)
next
  case repo: True
  show ?thesis
  proof (cases "cs_snapshot (cw_service w)")
    case None
    show ?thesis
    proof (cases "cs_loading (cw_service w)")
      case True
      with inv have "call_ok w (Waiting (cs_wait (cw_service w)))"
        by (auto simp: cache_inv_def flight_ok_def call_ok_def split: option.splits)
      with True None repo assms show ?thesis by (simp add: Current_def Let_def goto_inv)
    next
      case False
      with None repo start_inv [OF inv False, of "Loading now" t] show ?thesis by (simp add: Current_def Let_def load_started_def)
    qed
  next
    case (Some sn)
    with inv have V: "ValidateUIStatsSnapshot (Some sn) = None" by (simp add: cache_inv_def)
    show ?thesis
    proof (cases "time_sub now (cs_loadedAt (cw_service w)) < cs_cacheTTL (cw_service w) \<or> cs_loading (cw_service w)")
      case True
      with Some repo V serve_inv [OF inv assms(2) V] show ?thesis by (auto simp: Current_def Let_def)
    next
      case False
      let ?v = "goto b Reloading (load_started w)"
      have "cache_inv ?v" using start_inv [OF inv, of Reloading b] False by simp
      moreover have "\<not> loads ?v t" using assms(2,4) by (simp add: loads_is_load load_started_def)
      ultimately show ?thesis using Some repo V False serve_inv [of ?v t sn] by (simp add: Current_def Let_def load_started_def)
    qed
  qed
qed

lemma load_checked_valid: "load_checked inp w = Inr sn \<Longrightarrow> ValidateUIStatsSnapshot (Some sn) = None"
  by (auto simp: load_checked_def split: sum.splits option.splits)

lemma finish_closes:
  assumes "cache_inv w" and "loads w t"
  obtains k where "cs_wait (cw_service w) = Some k" and "k \<notin> cw_closed w" and "k < cw_next w" and "\<And>u. loads w u \<Longrightarrow> u = t"
  using assms by (auto simp: cache_inv_def flight_ok_def split: option.splits)

lemma finish_inv:
  assumes inv: "cache_inv w" and t: "loads w t" and "\<And>sn. loaded = Inr sn \<Longrightarrow> ValidateUIStatsSnapshot (Some sn) = None"
    and c: "\<not> is_load c" "\<And>v. call_ok v c"
  shows "cache_inv (goto t c (finishReload now loaded w))"
proof -
  from finish_closes [OF inv t] obtain k
    where k: "cs_wait (cw_service w) = Some k" "k \<notin> cw_closed w" "k < cw_next w" "\<And>u. loads w u \<Longrightarrow> u = t" by blast
  let ?v = "goto t c (finishReload now loaded w)"
  have same: "cw_calls (finishReload now loaded w) = cw_calls w" "cw_closed (finishReload now loaded w) = insert k (cw_closed w)"
      "cs_wait (cw_service (finishReload now loaded w)) = None" "cs_loading (cw_service (finishReload now loaded w)) = False"
      "cw_panicked (finishReload now loaded w) = cw_panicked w" "cw_next (finishReload now loaded w) = cw_next w"
      "cs_snapshot (cw_service (finishReload now loaded w)) = (case loaded of Inr x \<Rightarrow> Some x | Inl _ \<Rightarrow> cs_snapshot (cw_service w))"
    using k(1,2) by (simp_all add: finishReload_def Let_def)
  have L: "\<not> loads ?v u" for u using k(4) c(1) by (auto simp: loads_is_load same)
  have ok: "call_ok ?v d" if "call_ok w d" for d
    using that k(1) by (auto simp: call_ok_def same split: call.splits)
  have S: "ValidateUIStatsSnapshot (Some sn) = None" if "cs_snapshot (cw_service ?v) = Some sn" for sn
    using that assms(3) inv by (auto simp: same cache_inv_def split: sum.splits)
  have calls: "call_ok ?v d" if "cw_calls ?v u = Some d" for u d
    using that ok c(2) inv by (cases "u = t") (auto simp: same cache_inv_def)
  have "flight_ok ?v" using L by (simp add: flight_ok_def same)
  moreover have "\<not> cw_panicked ?v \<and> (\<forall>j\<in>cw_closed ?v. j < cw_next ?v)" using inv k(3) by (simp add: same cache_inv_def)
  ultimately show ?thesis unfolding cache_inv_def using calls S by blast
qed

lemma Current_loaded_inv: "cache_inv w \<Longrightarrow> loads w t \<Longrightarrow> cache_inv (Current_loaded t inp now fin w)"
  by (auto simp: Current_loaded_def Let_def serve_def observeCache_def answer_ok load_checked_valid split: sum.splits intro!: finish_inv)

lemma reload_inv: "cache_inv w \<Longrightarrow> loads w t \<Longrightarrow> cache_inv (reload t inp fin w)"
  by (auto simp: reload_def Let_def observeCache_def answer_ok load_checked_valid intro!: finish_inv)

lemma Refresh_inv:
  assumes "cache_inv w" and "\<not> loads w t"
  shows "cache_inv (Refresh t inp opts db started now w)"
proof -
  have G: "cache_inv (goto t c (w\<lparr>cw_row := row\<rparr>))" if "\<not> is_load c" "\<And>v. call_ok v c" for c row
  proof (rule goto_inv)
    show "cache_inv (w\<lparr>cw_row := row\<rparr>)" using assms(1) cache_inv_cong [of "w\<lparr>cw_row := row\<rparr>" w] by simp
  qed (use assms(2) that in \<open>simp_all add: loads_def\<close>)
  show ?thesis
  proof (cases "cs_repo (cw_service w)")
    case True
    then show ?thesis
      by (auto simp: Refresh_def Let_def answer_ok split: prod.splits sum.splits option.splits intro!: G)
  next
    case False
    with assms show ?thesis by (simp add: Refresh_def goto_inv answer_ok)
  qed
qed

lemma Refresh_store_inv:
  assumes inv: "cache_inv w" and "cw_calls w t = Some (Storing res)"
  shows "cache_inv (Refresh_store t res now w)"
proof -
  let ?v = "w\<lparr>cw_service := (cw_service w)\<lparr>cs_snapshot := ur_Snapshot res, cs_loadedAt := now\<rparr>\<rparr>"
  have V: "ValidateUIStatsSnapshot (ur_Snapshot res) = None"
    using assms answer_ok(7) [of w res] unfolding cache_inv_def by blast
  have same: "loads ?v = loads w" "call_ok ?v = call_ok w"
    by (simp_all add: loads_def fun_eq_iff) (simp add: call_ok_def cong: call.case_cong)
  have "cache_inv ?v" using inv V unfolding cache_inv_def flight_ok_def same by (auto split: option.splits)
  then show ?thesis
    using assms(2) by (auto simp: Refresh_store_def loads_def answer_ok intro!: goto_inv)
qed

lemma SetObserver_inv: "cache_inv w \<Longrightarrow> cache_inv (SetObserver on w)"
proof -
  assume inv: "cache_inv w"
  have same: "loads (SetObserver on w) = loads w" "call_ok (SetObserver on w) = call_ok w"
    by (simp_all add: loads_def fun_eq_iff SetObserver_def) (simp add: call_ok_def cong: call.case_cong)
  show ?thesis using inv unfolding cache_inv_def flight_ok_def same by (auto simp: SetObserver_def split: option.splits)
qed

lemma cache_step_inv: "cache_step w v \<Longrightarrow> cache_inv w \<Longrightarrow> cache_inv v"
proof (induction rule: cache_step.induct)
  case (enter t b w now)
  then show ?case by (intro Current_inv) (auto simp: loads_def)
next
  case (woken w t c b now)
  then show ?case by (intro Current_inv) (auto simp: loads_def)
next
  case (cancelled w t c e)
  then show ?case by (simp add: wait_cancelled_def goto_inv loads_def answer_ok)
next
  case (loaded w t now inp fin)
  then show ?case by (simp add: Current_loaded_inv loads_def)
next
  case (reloaded w t inp fin)
  then show ?case by (simp add: reload_inv loads_def)
next
  case (refresh w t inp opts db started now)
  then show ?case by (simp add: Refresh_inv loads_def)
next
  case (store w t res now)
  then show ?case by (simp add: Refresh_store_inv)
next
  case (observer w on)
  then show ?case by (simp add: SetObserver_inv)
qed

lemma new_world_inv: "cache_inv (new_world (NewUIStatsService ttl sw) row)"
  by (simp add: cache_inv_def flight_ok_def new_world_def NewUIStatsService_def loads_def)

lemma cache_reach_inv: "cache_reach w v \<Longrightarrow> cache_inv w \<Longrightarrow> cache_inv v"
  by (induction rule: cache_reach.induct) (auto intro: cache_step_inv)

text \<open>The end of a load, for either kind of call.\<close>

definition finish_load :: "nat \<Rightarrow> stats_inputs \<Rightarrow> timestamp \<Rightarrow> cache_world \<Rightarrow> cache_world" where
  "finish_load t inp fin w =
     (case cw_calls w t of
        Some (Loading now) \<Rightarrow> Current_loaded t inp now fin w
      | Some Reloading \<Rightarrow> reload t inp fin w
      | _ \<Rightarrow> w)"

lemma finish_load_closes:
  assumes "cache_inv w" and "loads w t" and "cs_wait (cw_service w) = Some k"
  shows "k \<in> cw_closed (finish_load t inp fin w)"
proof -
  have "k \<in> cw_closed (finishReload fin loaded w)" for loaded
    using finish_closes [OF assms(1,2)] assms(3) by (auto simp: finishReload_def Let_def)
  with assms(2) show ?thesis
    by (auto simp: loads_def finish_load_def Current_loaded_def reload_def Let_def serve_def observeCache_def split: sum.splits)
qed

text \<open>A load that ends, even with an error, keeps a cache with a snapshot from starting another one for the cache time.\<close>

lemma warm_cache_rests:
  assumes inv: "cache_inv w" and t: "loads w t" and "cs_snapshot (cw_service w) \<noteq> None"
    and "time_sub now fin < cs_cacheTTL (cw_service w)"
  shows "\<not> cs_loading (cw_service (Current u b now (finish_load t inp fin w)))"
proof -
  from finish_closes [OF inv t] obtain k where "cs_wait (cw_service w) = Some k" "k \<notin> cw_closed w" by blast
  with assms(3,4) have "fresh (cw_service (finishReload fin loaded w)) now \<and> \<not> cs_loading (cw_service (finishReload fin loaded w))" for loaded
    by (auto simp: finishReload_def Let_def fresh_def split: sum.splits)
  with t have "fresh (cw_service (finish_load t inp fin w)) now \<and> \<not> cs_loading (cw_service (finish_load t inp fin w))"
    by (auto simp: loads_def finish_load_def Current_loaded_def reload_def Let_def serve_def observeCache_def split: sum.splits)
  then show ?thesis by (auto simp: Current_def Let_def fresh_def serve_def observeCache_def)
qed

section \<open>Properties\<close>

text \<open>C23: In every interleaving of Current, reload, Refresh and cancelled waits on a new cache, closing the wait channel never
  panics and at most one load of the statistics is in flight. A caller that waits is never forgotten: its channel is closed already, or
  one load is in flight that closes it however it ends, with or without an error. Every snapshot that Current answers with has passed
  the validation.\<close>

theorem stats_cache_single_flight:
  assumes "cache_reach (new_world (NewUIStatsService ttl sw) row) w"
  shows "\<not> cw_panicked w \<and> (\<forall>t u. loads w t \<and> loads w u \<longrightarrow> t = u)
    \<and> (\<forall>t ch. cw_calls w t = Some (Waiting ch) \<longrightarrow>
        (\<exists>k. ch = Some k \<and> (k \<in> cw_closed w \<or> (\<exists>l. loads w l \<and> (\<forall>inp fin. k \<in> cw_closed (finish_load l inp fin w))))))
    \<and> (\<forall>t sn st. cw_calls w t = Some (Answered (Inr (sn, st))) \<longrightarrow> ValidateUIStatsSnapshot (Some sn) = None)"
proof (intro conjI allI impI)
  have inv: "cache_inv w" using cache_reach_inv [OF assms new_world_inv] .
  then show "\<not> cw_panicked w" by (simp add: cache_inv_def)
  show "t = u" if "loads w t \<and> loads w u" for t u using finish_closes [OF inv, of t] that by metis
  show "\<exists>k. ch = Some k \<and> (k \<in> cw_closed w \<or> (\<exists>l. loads w l \<and> (\<forall>inp fin. k \<in> cw_closed (finish_load l inp fin w))))"
    if c: "cw_calls w t = Some (Waiting ch)" for t ch
  proof -
    from inv c have "call_ok w (Waiting ch)" by (auto simp: cache_inv_def)
    then obtain k where k: "ch = Some k" "k \<in> cw_closed w \<or> cs_wait (cw_service w) = Some k" by (auto simp: call_ok_def)
    show ?thesis
    proof (cases "k \<in> cw_closed w")
      case False
      with k inv obtain l where "loads w l" "cs_wait (cw_service w) = Some k"
        by (auto simp: cache_inv_def flight_ok_def split: option.splits)
      with k finish_load_closes [OF inv] show ?thesis by blast
    qed (use k in blast)
  qed
  show "ValidateUIStatsSnapshot (Some sn) = None" if "cw_calls w t = Some (Answered (Inr (sn, st)))" for t sn st
    using inv that answer_ok(6) [of w sn st] unfolding cache_inv_def by blast
qed

text \<open>Two callers of a cold cache: the first loads, the second waits for it.\<close>

definition demo_cold :: cache_world where
  "demo_cold = Current 2 3 100 (Current 0 1 100 (new_world (NewUIStatsService 0 0) None))"

theorem stats_cache_single_flight_witness:
  "loads demo_cold 0 \<and> cw_calls demo_cold 2 = Some (Waiting (Some 0)) \<and> (\<exists>l. loads demo_cold l \<and> 0 \<in> cw_closed (finish_load l demo_stats 200 demo_cold))"
proof -
  let ?w = "new_world (NewUIStatsService 0 0) None"
  have "cache_step ?w (Current 0 1 100 ?w)" by (rule cache_step.enter) (simp_all add: new_world_def)
  moreover have "cache_step (Current 0 1 100 ?w) demo_cold"
    unfolding demo_cold_def by (rule cache_step.enter) (simp_all add: new_world_def NewUIStatsService_def Current_def Let_def)
  ultimately have r: "cache_reach ?w demo_cold" by (blast intro: cache_reach.intros)
  have w: "loads demo_cold 0" "cw_calls demo_cold 2 = Some (Waiting (Some 0))" "0 \<notin> cw_closed demo_cold"
    by (simp_all add: demo_cold_def new_world_def NewUIStatsService_def Current_def Let_def loads_def goto_def)
  with stats_cache_single_flight [OF r] show ?thesis by blast
qed

end
