(* ===== verification/Template_Helpers.thy ===== *)
theory Template_Helpers
  imports Float64 UI_Stats_Cache
begin

text \<open>
  cmd/http/ui/template\_helpers.go: the functions the page templates call. Numbers are printed with thousands separators,
  shares as percentages through float64, trends with an arrow, and jobs are put into roles. A value of type \<open>any\<close> is a sum of the
  types the function distinguishes. \<open>safeHTML\<close> and \<open>jsonSafe\<close> only change the type of a string or call encoding/json.
\<close>

section \<open>Numbers\<close>

datatype any_number = AInt int | AInt64 int | AInt32 int | AUint u64 | AUint32 u32 | AUint64 u64 | AOther

text \<open>The type switch with its conversions to int64.\<close>

fun as_int64 :: "any_number \<Rightarrow> int option" where
  "as_int64 (AInt n) = Some (i64 n)"
| "as_int64 (AInt64 n) = Some n"
| "as_int64 (AInt32 n) = Some n"
| "as_int64 (AUint w) = Some (i64 (uint w))"
| "as_int64 (AUint32 w) = Some (uint w)"
| "as_int64 (AUint64 w) = Some (i64 (uint w))"
| "as_int64 AOther = None"

fun chunks3 :: "string \<Rightarrow> string list" where
  "chunks3 s = (if s = [] then [] else take 3 s # chunks3 (drop 3 s))"

declare chunks3.simps [simp del]

definition thousands :: "string \<Rightarrow> string list" where
  "thousands s = (let lead = length s mod 3 in (if lead > 0 then [take lead s] else []) @ chunks3 (drop lead s))"

fun join_commas :: "string list \<Rightarrow> string" where
  "join_commas [] = []"
| "join_commas [p] = p"
| "join_commas (p # q # ps) = p @ CHR '','' # join_commas (q # ps)"

definition formatNumber :: "any_number \<Rightarrow> string" where
  "formatNumber v =
     (case as_int64 v of
        None \<Rightarrow> ''0''
      | Some n \<Rightarrow>
          (let sign = (if n < 0 then ''-'' else []);
               s = show_int (if n < 0 then i64 (- n) else n)
           in if length s \<le> 3 then sign @ s else sign @ join_commas (thousands s)))"

definition formatPercent :: "int \<Rightarrow> int \<Rightarrow> string" where
  "formatPercent num denom = (if denom = 0 then ''0.0%'' else show_1f (percent num denom) @ ''%'')"

definition up_arrow :: string where "up_arrow = [CHR 0xE2, CHR 0x96, CHR 0xB2]"

definition down_arrow :: string where "down_arrow = [CHR 0xE2, CHR 0x96, CHR 0xBC]"

definition formatTrend :: "int \<Rightarrow> int \<Rightarrow> string" where
  "formatTrend current previous =
     (let delta = i64 (current - previous)
      in if delta = 0 \<and> previous = 0 then []
         else if delta = 0 then formatNumber (AInt 0) @ '' ('' @ formatPercent 0 previous @ '')''
         else (let arrow = (if delta < 0 then down_arrow else up_arrow);
                   absolute = (if delta < 0 then i64 (- delta) else delta)
               in if previous = 0 then arrow @ '' '' @ formatNumber (AInt64 absolute)
                  else arrow @ '' '' @ formatNumber (AInt64 absolute) @ '' ('' @ formatPercent absolute previous @ '')''))"

section \<open>Dates\<close>

datatype any_time = TNil | TTime timestamp | TTimePtr "timestamp option" | TOther

definition format_clock :: "timestamp \<Rightarrow> string" where
  "format_clock t =
     (let s = (t mod (24 * hour)) div second in pad 2 (show_int (s div 3600)) @ '':'' @ pad 2 (show_int (s div 60 mod 60)))"

fun formatDate :: "any_time \<Rightarrow> string" where
  "formatDate TNil = ''-''"
| "formatDate (TTime t) = (if t = 0 then ''-'' else format_day (day_of t))"
| "formatDate (TTimePtr None) = ''-''"
| "formatDate (TTimePtr (Some t)) = (if t = 0 then ''-'' else format_day (day_of t))"
| "formatDate TOther = ''-''"

fun formatDateTime :: "any_time \<Rightarrow> string" where
  "formatDateTime TNil = ''-''"
| "formatDateTime (TTime t) = (if t = 0 then ''-'' else format_day (day_of t) @ '' '' @ format_clock t)"
| "formatDateTime (TTimePtr None) = ''-''"
| "formatDateTime (TTimePtr (Some t)) = (if t = 0 then ''-'' else format_day (day_of t) @ '' '' @ format_clock t)"
| "formatDateTime TOther = ''-''"

section \<open>Jobs and roles\<close>

definition jobCategory :: "string \<Rightarrow> string" where
  "jobCategory jobName =
     (let j = trim_space jobName
      in if j \<in> {''Paladin'', ''Gladiator'', ''Warrior'', ''Marauder'', ''Dark Knight'', ''Gunbreaker''} then ''tank''
         else if j \<in> {''White Mage'', ''Conjurer'', ''Scholar'', ''Astrologian'', ''Sage''} then ''healer''
         else if j \<in> {''Monk'', ''Pugilist'', ''Dragoon'', ''Lancer'', ''Ninja'', ''Rogue'', ''Samurai'', ''Reaper'', ''Viper''} then ''melee''
         else if j \<in> {''Bard'', ''Archer'', ''Machinist'', ''Dancer''} then ''phys_ranged''
         else if j \<in> {''Black Mage'', ''Thaumaturge'', ''Summoner'', ''Arcanist'', ''Red Mage'', ''Pictomancer'', ''Blue Mage''}
         then ''magic_ranged''
         else if j \<in> {''Carpenter'', ''Blacksmith'', ''Armorer'', ''Goldsmith'', ''Leatherworker'', ''Weaver'', ''Alchemist'', ''Culinarian''}
         then ''crafter''
         else if j \<in> {''Miner'', ''Botanist'', ''Fisher''} then ''gatherer''
         else ''other'')"

definition roleColor :: "string \<Rightarrow> string" where
  "roleColor role =
     (if role = ''tank'' then ''role-tank'' else if role = ''healer'' then ''role-healer''
      else if role = ''melee'' then ''role-melee'' else if role = ''phys_ranged'' then ''role-phys-ranged''
      else if role = ''magic_ranged'' then ''role-magic-ranged'' else if role = ''crafter'' then ''role-crafter''
      else if role = ''gatherer'' then ''role-gatherer'' else ''role-other'')"

section \<open>Template functions\<close>

definition tf_add :: "int \<Rightarrow> int \<Rightarrow> int" where "tf_add a b = i64 (a + b)"

definition tf_sub :: "int \<Rightarrow> int \<Rightarrow> int" where "tf_sub a b = i64 (a - b)"

definition tf_mul :: "int \<Rightarrow> int \<Rightarrow> int" where "tf_mul a b = i64 (a * b)"

definition tf_div :: "int \<Rightarrow> int \<Rightarrow> int" where "tf_div a b = (if b = 0 then 0 else i64 (go_div a b))"

datatype 'a template_arg = TArgString string | TArgOther 'a

fun dict_pairs :: "'a template_arg list \<Rightarrow> (string \<rightharpoonup> 'a template_arg) \<Rightarrow> (string \<rightharpoonup> 'a template_arg) result" where
  "dict_pairs (TArgString k # v # rest) d = dict_pairs rest (d(k \<mapsto> v))"
| "dict_pairs (TArgOther a # v # rest) d = Inl (EText ''dict keys must be strings'')"
| "dict_pairs _ d = Inr d"

definition dict :: "'a template_arg list \<Rightarrow> (string \<rightharpoonup> 'a template_arg) result" where
  "dict values =
     (if length values mod 2 \<noteq> 0 then Inl (EText ''invalid dict call: uneven number of arguments'') else dict_pairs values (\<lambda>_. None))"

section \<open>Separators and percentages\<close>

lemma chunks3_Nil [simp]: "chunks3 [] = []"
  by (simp add: chunks3.simps)

lemma chunks3_Cons: "s \<noteq> [] \<Longrightarrow> chunks3 s = take 3 s # chunks3 (drop 3 s)"
  by (subst chunks3.simps) simp

lemma chunks3_ok:
  "length s mod 3 = 0 \<Longrightarrow> concat (chunks3 s) = s \<and> (\<forall>g \<in> set (chunks3 s). length g = 3)"
proof (induction s rule: chunks3.induct)
  case (1 s)
  show ?case
  proof (cases "s = []")
    case False
    then have "0 < length s" by simp
    then have l: "3 \<le> length s" using 1(2) by presburger
    then have "length (drop 3 s) mod 3 = 0" using 1(2) by (simp add: le_mod_geq)
    note ih = 1(1) [OF False this]
    have "length (take 3 s) = 3" using l by simp
    with conjunct1 [OF ih] conjunct2 [OF ih] show ?thesis unfolding chunks3_Cons [OF False]
      by (simp only: concat.simps append_take_drop_id list.set ball_simps simp_thms)
  qed simp
qed

lemma join_commas_Cons: "join_commas (p # ps) = p @ concat (map (\<lambda>g. CHR '','' # g) ps)"
  by (induction ps arbitrary: p) auto

lemma thousands_ok:
  assumes "s \<noteq> []"
  shows "\<exists>lead groups. thousands s = lead # groups \<and> lead @ concat groups = s \<and> 1 \<le> length lead \<and> length lead \<le> 3
    \<and> (\<forall>g \<in> set groups. length g = 3)"
proof -
  define k where "k = length s mod 3"
  have "length (drop k s) mod 3 = 0" by (simp add: k_def minus_mod_eq_mult_div)
  note c = chunks3_ok [OF this]
  show ?thesis
  proof (cases "k = 0")
    case True
    have "thousands s = chunks3 s" using True by (simp add: thousands_def Let_def flip: k_def)
    then have t: "thousands s = take 3 s # chunks3 (drop 3 s)" unfolding chunks3_Cons [OF assms] .
    have c': "concat (take 3 s # chunks3 (drop 3 s)) = s" "\<forall>g \<in> set (take 3 s # chunks3 (drop 3 s)). length g = 3"
      using c unfolding True drop_0 chunks3_Cons [OF assms] by blast+
    have "length (take 3 s) = 3" using c'(2) by (simp only: list.set ball_simps)
    then show ?thesis unfolding t using c'
      by (intro exI [of _ "take 3 s"] exI [of _ "chunks3 (drop 3 s)"])
        (simp only: concat.simps list.set ball_simps simp_thms order_refl one_le_numeral)
  next
    case False
    have "k < 3" "k \<le> length s" by (simp_all add: k_def)
    then have "thousands s = take k s # chunks3 (drop k s)" "1 \<le> length (take k s)" "length (take k s) \<le> 3"
      using False by (simp_all add: thousands_def Let_def flip: k_def)
    then show ?thesis using c by (metis append_take_drop_id)
  qed
qed

lemma formatNumber_shape:
  assumes "as_int64 v = Some n" "- (2 ^ 63) < n" "n < 2 ^ 63"
  shows "\<exists>lead groups. formatNumber v = (if n < 0 then ''-'' else []) @ lead @ concat (map (\<lambda>g. CHR '','' # g) groups)
    \<and> lead @ concat groups = show_nat (nat \<bar>n\<bar>) \<and> 1 \<le> length lead \<and> length lead \<le> 3 \<and> (\<forall>g \<in> set groups. length g = 3)"
proof -
  define s where "s = show_nat (nat \<bar>n\<bar>)"
  have s: "s \<noteq> []" "show_int (if n < 0 then i64 (- n) else n) = s"
    using assms i64_id [of "- n"] by (auto simp: s_def show_nat_nonempty show_int_def is_i64_def min_i64_def max_i64_def)
  show ?thesis
  proof (cases "length s \<le> 3")
    case True
    then show ?thesis using s assms(1) by (intro exI [of _ s] exI [of _ "[]"]) (auto simp: formatNumber_def s_def [symmetric] Suc_le_eq)
  next
    case False
    obtain lead groups where t: "thousands s = lead # groups" "lead @ concat groups = s" "1 \<le> length lead" "length lead \<le> 3"
      "\<forall>g \<in> set groups. length g = 3" using thousands_ok [OF s(1)] by blast
    then show ?thesis using s False assms(1)
      by (intro exI [of _ lead] exI [of _ groups]) (simp add: formatNumber_def s_def [symmetric] join_commas_Cons)
  qed
qed

text \<open>C34: Percentages are right to the shown digit: for 0 <= num <= denom the text is a number with one decimal between 0.0 and 100.0,
  and it differs from the exact percentage by at most half a unit of that decimal, up to 10^-9 units for the roundings of the
  floating-point division and multiplication.\<close>

theorem percentages_accurate:
  assumes "0 \<le> num" "num \<le> denom" "0 < denom"
  shows "\<exists>t. formatPercent num denom = show_nat (t div 10) @ ''.'' @ show_nat (t mod 10) @ ''%'' \<and> t \<le> 1000
    \<and> \<bar>real t - 1000 * (real_of_int num / real_of_int denom)\<bar> \<le> 1 / 2 + 1 / 10 ^ 9"
  using percent_tenths [OF assms] assms
  by (intro exI [of _ "tenths (percent num denom)"]) (simp add: formatPercent_def show_1f_def percent_sign)

theorem percentages_accurate_witness:
  "\<exists>t. formatPercent 1 3 = show_nat (t div 10) @ ''.'' @ show_nat (t mod 10) @ ''%'' \<and> t \<le> 1000
     \<and> \<bar>real t - 1000 * (1 / 3)\<bar> \<le> 1 / 2 + 1 / 10 ^ 9"
  using percentages_accurate [of 1 3] by simp

end
