(* ===== verification/Census_Api.thy ===== *)
theory Census_Api
  imports UI_Stats_Cache "HOL-Library.Multiset"
begin

text \<open>
  cmd/http/app/census/handler: the read-only REST API. Each endpoint is a function from the request and the service to a response. The
  statistics endpoints answer from the cached snapshot when the controller has a statistics service and from the database
  otherwise; the bulk export streams the characters. Response headers other than Retry-After and the byte encodings (JSON, CSV, gzip) are left out.
\<close>

section \<open>Requests and responses\<close>

text \<open>\<open>url.Values.Get\<close> gives the empty string for a missing parameter.\<close>

type_synonym query = "string \<Rightarrow> string"

record CharacterListItem =
  li_ID :: u32
  li_Name :: string
  li_World :: string
  li_Datacenter :: string
  li_Region :: string
  li_Race :: string
  li_Gender :: u8
  li_FreeCompanyID :: "string option"
  li_FreeCompanyName :: "string option"
  li_AchievementsPrivate :: bool
  li_LatestAchievementID :: "u32 option"
  li_IsActive :: bool
  li_FirstSeenAt :: timestamp
  li_LastCensusAt :: "timestamp option"

record CharacterJobDetail =
  jd_ClassJobID :: u8
  jd_Name :: string
  jd_Level :: u8
  jd_ExpLevel :: u32

record CharacterMilestoneDetail =
  md_AchievementID :: u32
  md_AchievedAt :: timestamp

record PaginatedCharacters =
  pg_Items :: "CharacterListItem list"
  pg_Total :: int
  pg_Limit :: int
  pg_Offset :: int

text \<open>The active ratio of the summary is the quotient of two integers; \<open>None\<close> is 0.0.\<close>

record CensusSummary =
  sm_TotalCharacters :: int
  sm_ActiveCharacters :: int
  sm_ActiveRatio :: "(int \<times> int) option"
  sm_MaxLevelCharacters :: int

datatype body =
    ErrorBody string
  | SummaryBody CensusSummary
  | PageBody PaginatedCharacters
  | DetailBody CharacterListItem "CharacterJobDetail list" "CharacterMilestoneDetail list"
  | GroupsBody "GroupCount list"
  | DaysBody "DailyCount list"
  | ExpansionsBody "ExpansionCount list"

record response =
  rs_status :: nat
  rs_retryAfter :: "string option"
  rs_body :: body

definition writeJSON :: "nat \<Rightarrow> body \<Rightarrow> response" where
  "writeJSON status v = \<lparr>rs_status = status, rs_retryAfter = None, rs_body = v\<rparr>"

definition writeError :: "nat \<Rightarrow> string \<Rightarrow> response" where
  "writeError status msg = writeJSON status (ErrorBody msg)"

text \<open>\<open>strconv.ParseBool\<close> and \<open>strconv.ParseUint\<close> in base 10 with 32 bits.\<close>

definition parse_bool :: "string \<Rightarrow> bool option" where
  "parse_bool s =
     (if s \<in> {''1'', ''t'', ''T'', ''TRUE'', ''true'', ''True''} then Some True
      else if s \<in> {''0'', ''f'', ''F'', ''FALSE'', ''false'', ''False''} then Some False else None)"

definition parse_uint32 :: "string \<Rightarrow> u32 option" where
  "parse_uint32 s =
     (if s = [] then None
      else case digits_val 0 s of None \<Rightarrow> None | Some n \<Rightarrow> if n < 2 ^ 32 then Some (of_nat n) else None)"

section \<open>The controller\<close>

text \<open>
  The controller holds an optional census service and an optional statistics service; \<open>co_stats\<close> is the answer of its Current.
\<close>

record 's CensusController =
  co_svc :: "('s read_ports \<times> Service) option"
  co_stats :: "answer option"

definition currentStats :: "'s CensusController \<Rightarrow> (response + UIStatsSnapshot) option" where
  "currentStats c =
     (case co_stats c of
        None \<Rightarrow> None
      | Some (Inl e) \<Rightarrow> Some (Inl ((writeError 503 ''statistics temporarily unavailable'')\<lparr>rs_retryAfter := Some ''60''\<rparr>))
      | Some (Inr (sn, st)) \<Rightarrow> Some (Inr sn))"

definition no_service :: response where
  "no_service = writeError 500 ''census service unavailable''"

definition ratio :: "int \<Rightarrow> int \<Rightarrow> (int \<times> int) option" where
  "ratio active tot = (if tot > 0 then Some (active, tot) else None)"

definition summary_response :: "int \<Rightarrow> int \<Rightarrow> int \<Rightarrow> response" where
  "summary_response tot active maxLevelCount =
     writeJSON 200 (SummaryBody \<lparr>sm_TotalCharacters = tot, sm_ActiveCharacters = active, sm_ActiveRatio = ratio active tot,
        sm_MaxLevelCharacters = maxLevelCount\<rparr>)"

definition Latest :: "'s CensusController \<Rightarrow> 's \<Rightarrow> response" where
  "Latest c s =
     (case currentStats c of
        Some (Inl r) \<Rightarrow> r
      | Some (Inr sn) \<Rightarrow> summary_response (ss_Total (us_Summary sn)) (ss_Active (us_Summary sn)) (ss_MaxLevel (us_Summary sn))
      | None \<Rightarrow>
          (case co_svc c of
             None \<Rightarrow> no_service
           | Some (rp, sv) \<Rightarrow>
               (case Summary rp sv s of
                  Inl e \<Rightarrow> writeError 500 (error_text e)
                | Inr (tot, active, maxLevelCount) \<Rightarrow> summary_response tot active maxLevelCount)))"

definition toCharacterListItem :: "timestamp \<Rightarrow> CharacterRecord \<Rightarrow> CharacterListItem" where
  "toCharacterListItem now rec =
     \<lparr>li_ID = cr_ID rec, li_Name = cr_Name rec, li_World = cr_World rec, li_Datacenter = cr_Datacenter rec, li_Region = cr_Region rec,
      li_Race = cr_Race rec, li_Gender = cr_Gender rec, li_FreeCompanyID = cr_FreeCompanyID rec,
      li_FreeCompanyName = cr_FreeCompanyName rec, li_AchievementsPrivate = cr_AchievementsPrivate rec,
      li_LatestAchievementID = cr_LatestAchievementID rec,
      li_IsActive = (case cr_LatestAchievementAt rec of None \<Rightarrow> False | Some t \<Rightarrow> t \<ge> now - 30 * 24 * hour),
      li_FirstSeenAt = cr_FirstSeenAt rec, li_LastCensusAt = cr_LastCensusAt rec\<rparr>"

definition list_limit :: "query \<Rightarrow> int option" where
  "list_limit q =
     (if q ''limit'' = [] then Some 100
      else case atoi (q ''limit'') of None \<Rightarrow> None | Some n \<Rightarrow> if n \<le> 0 then None else Some (min 500 n))"

definition list_offset :: "query \<Rightarrow> int option" where
  "list_offset q =
     (if q ''offset'' = [] then Some 0
      else case atoi (q ''offset'') of None \<Rightarrow> None | Some n \<Rightarrow> if n < 0 then None else Some n)"

definition list_filter :: "query \<Rightarrow> CharacterFilter" where
  "list_filter q =
     no_filter\<lparr>cf_World := q ''world'', cf_Datacenter := q ''datacenter'', cf_Region := q ''region'', cf_Race := q ''race'',
       cf_Name := q ''name'', cf_GrandCompany := q ''grand_company'', cf_FreeCompanyID := q ''free_company_id'',
       cf_ActiveOnly := (case parse_bool (q ''active'') of Some b \<Rightarrow> b | None \<Rightarrow> False),
       cf_SortBy := q ''sort_by'', cf_SortOrder := q ''sort_order''\<rparr>"

definition Api_List :: "timestamp \<Rightarrow> query \<Rightarrow> 's CensusController \<Rightarrow> 's \<Rightarrow> response" where
  "Api_List now q c s =
     (case co_svc c of
        None \<Rightarrow> no_service
      | Some (rp, sv) \<Rightarrow>
          (case list_limit q of
             None \<Rightarrow> writeError 400 ''invalid limit''
           | Some limit \<Rightarrow>
               (case list_offset q of
                  None \<Rightarrow> writeError 400 ''invalid offset''
                | Some offset \<Rightarrow>
                    (case ListCharacters rp (list_filter q) limit offset s of
                       Inl e \<Rightarrow> writeError 500 (error_text e)
                     | Inr (chars, tot) \<Rightarrow>
                         writeJSON 200 (PageBody \<lparr>pg_Items = map (toCharacterListItem now) chars, pg_Total = tot,
                            pg_Limit = limit, pg_Offset = offset\<rparr>)))))"

definition toCharacterDetail :: "timestamp \<Rightarrow> CharacterDetail \<Rightarrow> body" where
  "toCharacterDetail now d =
     DetailBody (toCharacterListItem now (cd_Character d))
       (map (\<lambda>j. \<lparr>jd_ClassJobID = cj_ClassJobID j, jd_Name = cj_Name j, jd_Level = cj_Level j, jd_ExpLevel = cj_ExpLevel j\<rparr>) (cd_Jobs d))
       (map (\<lambda>m. \<lparr>md_AchievementID = cm_AchievementID m, md_AchievedAt = cm_AchievedAt m\<rparr>) (cd_Milestones d))"

definition Api_Get :: "timestamp \<Rightarrow> string \<Rightarrow> 's CensusController \<Rightarrow> 's \<Rightarrow> response" where
  "Api_Get now raw c s =
     (case co_svc c of
        None \<Rightarrow> no_service
      | Some (rp, sv) \<Rightarrow>
          (case parse_uint32 raw of
             None \<Rightarrow> writeError 400 ''invalid character id''
           | Some i \<Rightarrow>
               (case Service_CharacterDetail rp i s of
                  Inl e \<Rightarrow> writeError 500 (error_text e)
                | Inr None \<Rightarrow> writeError 404 ''character not found''
                | Inr (Some d) \<Rightarrow> writeJSON 200 (toCharacterDetail now d))))"

definition Api_Breakdown :: "query \<Rightarrow> 's CensusController \<Rightarrow> 's \<Rightarrow> response" where
  "Api_Breakdown q c s =
     (case co_svc c of
        None \<Rightarrow> no_service
      | Some (rp, sv) \<Rightarrow>
          (let by_dim = q ''by''
           in if by_dim = [] then writeError 400 ''missing by parameter''
              else if by_dim \<notin> {''race'', ''world'', ''datacenter'', ''region''}
              then writeError 400 (error_text (ESent ErrInvalidDimension))
              else (case currentStats c of
                      Some (Inl r) \<Rightarrow> r
                    | Some (Inr sn) \<Rightarrow> writeJSON 200 (GroupsBody (SnapshotGroups (Some sn) by_dim global_scope))
                    | None \<Rightarrow>
                        (case Service_Breakdown rp sv by_dim [] s of
                           Inl e \<Rightarrow> writeError (if errors_is e ErrInvalidDimension then 400 else 500) (error_text e)
                         | Inr groups \<Rightarrow> writeJSON 200 (GroupsBody groups)))))"

definition midnight :: "int \<Rightarrow> timestamp" where "midnight d = d * (24 * hour)"

definition Api_NewCharacters :: "timestamp \<Rightarrow> query \<Rightarrow> 's CensusController \<Rightarrow> 's \<Rightarrow> response" where
  "Api_NewCharacters now q c s =
     (case co_svc c of
        None \<Rightarrow> no_service
      | Some (rp, sv) \<Rightarrow>
          if q ''since'' = [] then writeError 400 ''missing since parameter''
          else (case parse_day (q ''since'') of
            None \<Rightarrow> writeError 400 ''invalid since parameter''
          | Some d \<Rightarrow>
              (case (if q ''until'' = [] then Some now else map_option midnight (parse_day (q ''until''))) of
                 None \<Rightarrow> writeError 400 ''invalid until parameter''
               | Some until \<Rightarrow>
                   (let since = midnight d
                    in case currentStats c of
                         Some (Inl r) \<Rightarrow> r
                       | Some (Inr sn) \<Rightarrow>
                           if since < midnight (day_of (us_ActivitySince sn)) \<or> until > midnight (day_of (us_GeneratedAt sn) + 1)
                              \<or> \<not> until > since
                           then writeError 400 ''requested range is outside the available statistics snapshot''
                           else writeJSON 200 (DaysBody (filter (\<lambda>x. case parse_day (dc_Day x) of
                                  None \<Rightarrow> False
                                | Some p \<Rightarrow> midnight p \<ge> since \<and> midnight p < until) (SnapshotDaily (Some sn) global_scope)))
                       | None \<Rightarrow>
                           (case NewCharacters rp since until [] s of
                              Inl e \<Rightarrow> writeError 500 (error_text e)
                            | Inr days \<Rightarrow> writeJSON 200 (DaysBody days))))))"

definition Expansion :: "query \<Rightarrow> 's CensusController \<Rightarrow> 's \<Rightarrow> response" where
  "Expansion q c s =
     (case co_svc c of
        None \<Rightarrow> no_service
      | Some (rp, sv) \<Rightarrow>
          (let named = filter (\<lambda>x. q ''name'' = [] \<or> xc_Expansion x = q ''name'')
           in case currentStats c of
                Some (Inl r) \<Rightarrow> r
              | Some (Inr sn) \<Rightarrow> writeJSON 200 (ExpansionsBody (named (SnapshotExpansions (Some sn) global_scope)))
              | None \<Rightarrow>
                  (case ExpansionCompletions rp s of
                     Inl e \<Rightarrow> writeError 500 (error_text e)
                   | Inr stats \<Rightarrow> writeJSON 200 (ExpansionsBody (named stats)))))"

section \<open>On the database\<close>

text \<open>The read ports of the repositories; \<open>env n\<close> are the outcomes of operation \<open>n\<close>.\<close>

definition pg_read :: "(nat \<Rightarrow> census_env) \<Rightarrow> census_db read_ports" where
  "pg_read env =
     \<lparr>rp_now = (\<lambda>_. cv_now (env 0)), rp_Get = Character_Get (env 1), rp_GetJobs = GetJobs (env 2), rp_GetGear = GetGear (env 3),
      rp_ListCharacterMilestones = (\<lambda>i db. case Repo_ListCharacterMilestones (env 4) i db of (ms, None) \<Rightarrow> Inr ms | (ms, Some e) \<Rightarrow> Inl e),
      rp_List = Character_List (env 5), rp_Count = Character_Count (env 6), rp_CountActive = CountActive (env 7),
      rp_SummaryCounts = SummaryCounts (env 8), rp_Breakdown = Character_Breakdown (env 9), rp_MultiBreakdown = MultiBreakdown (env 10),
      rp_DemographicBreakdown = DemographicBreakdown (env 11), rp_MaxID = MaxID (env 12), rp_CountExpansions = CountExpansions (env 13),
      rp_CountExpansionsFiltered = CountExpansionsFiltered (env 14), rp_NewCharactersPerDay = NewCharactersPerDay (env 15),
      rp_CountChocoboMilestones = CountChocoboMilestones (env 16)\<rparr>"

section \<open>Snapshot and database agree\<close>

lemma mset_insort_by: "mset (insort_by le x xs) = add_mset x (mset xs)"
  by (induction xs) auto

lemma mset_sort_by: "mset (sort_by le xs) = mset xs"
proof -
  have "mset (foldr (insort_by le) xs ys) = mset xs + mset ys" for ys by (induction xs) (auto simp: mset_insort_by)
  then show ?thesis by (simp add: sort_by_def)
qed

lemma remdups_map_inj: "inj g \<Longrightarrow> remdups (map g xs) = map g (remdups xs)"
  by (induction xs) (auto simp: inj_image_mem_iff)

definition dimension_column :: "string \<Rightarrow> column" where
  "dimension_column d =
     (if d = ''race'' then ColRace else if d = ''world'' then ColWorld else if d = ''datacenter'' then ColDatacenter else ColRegion)"

definition only_label :: "string \<Rightarrow> string \<Rightarrow> labels" where
  "only_label d v =
     (if d = ''race'' then no_labels\<lparr>lb_race := Some v\<rparr> else if d = ''world'' then no_labels\<lparr>lb_world := Some v\<rparr>
      else if d = ''datacenter'' then no_labels\<lparr>lb_datacenter := Some v\<rparr> else no_labels\<lparr>lb_region := Some v\<rparr>)"

definition shown :: "string \<Rightarrow> string \<Rightarrow> bool" where
  "shown d v \<longleftrightarrow> (d = ''world'' \<longrightarrow> v \<noteq> [])"

text \<open>Of the grouping sets only the one of the column alone contributes to a global dimension.\<close>

lemma only_label_row:
  assumes "d \<in> set breakdownColumns"
  shows "labels_of [dimension_column d] r = only_label d (column_value d r)"
  using assms by (auto simp: breakdownColumns_def dimension_column_def labels_of_def label_def only_label_def no_labels_def column_value_def)

lemma only_label_triple:
  assumes "d \<in> set breakdownColumns"
  shows "row_triple (only_label d v) = (if shown d v then Some (global_scope, d, v) else None)"
  using assms
  by (auto simp: breakdownColumns_def only_label_def no_labels_def row_triple_def row_dimension_def row_scope_def shown_def global_scope_def)

lemma race_rows:
  assumes "row_triple l = Some (sc, ''race'', k)"
  shows "lb_race l \<noteq> None \<and> lb_gender l = None \<and> sc = row_scope l \<and> (row_scope l \<noteq> global_scope \<or> lb_world l = None)"
  using assms
  by (cases "lb_race l"; cases "lb_gender l"; cases "lb_tribe l")
    (auto simp: row_triple_def row_dimension_def split: option.splits if_splits)

lemma place_rows:
  assumes "row_triple l = Some (sc, d, k)" and "d \<in> {''region'', ''datacenter'', ''world''}"
  shows "lb_race l = None \<and> lb_tribe l = None \<and> lb_gender l = None
    \<and> (d = ''region'' \<longrightarrow> lb_region l \<noteq> None) \<and> (d = ''datacenter'' \<longrightarrow> lb_datacenter l \<noteq> None) \<and> (d = ''world'' \<longrightarrow> lb_world l \<noteq> None)"
  using assms
  by (cases "lb_race l"; cases "lb_gender l"; cases "lb_tribe l")
    (auto simp: row_triple_def row_dimension_def split: option.splits if_splits)

lemma set_shapes:
  assumes "gs \<in> set grouping_sets"
  shows "ColRace \<in> set gs \<and> ColGender \<notin> set gs \<Longrightarrow>
      gs = [ColRace] \<or> gs = [ColRegion, ColRace] \<or> gs = [ColDatacenter, ColRace] \<or> gs = [ColWorld, ColRace]"
    and "ColRace \<notin> set gs \<and> ColTribe \<notin> set gs \<and> ColGender \<notin> set gs \<Longrightarrow> gs \<in> {[], [ColRegion], [ColDatacenter], [ColWorld]}"
  using assms by (auto simp: grouping_sets_def)

lemma labels_of_None:
  "lb_race (labels_of gs r) = None \<longleftrightarrow> ColRace \<notin> set gs" "lb_tribe (labels_of gs r) = None \<longleftrightarrow> ColTribe \<notin> set gs"
  "lb_gender (labels_of gs r) = None \<longleftrightarrow> ColGender \<notin> set gs" "lb_region (labels_of gs r) = None \<longleftrightarrow> ColRegion \<notin> set gs"
  "lb_datacenter (labels_of gs r) = None \<longleftrightarrow> ColDatacenter \<notin> set gs" "lb_world (labels_of gs r) = None \<longleftrightarrow> ColWorld \<notin> set gs"
  by (simp_all add: labels_of_def label_def)

lemma other_sets_scoped:
  assumes gs: "gs \<in> set grouping_sets" and ne: "gs \<noteq> [dimension_column d]" and d: "d \<in> set breakdownColumns" and pl: "placed r"
    and t: "row_triple (labels_of gs r) = Some (sc, d, k)"
  shows "sc \<noteq> global_scope"
proof (cases "d = ''race''")
  case True
  note R = race_rows [OF t [unfolded True], unfolded labels_of_None]
  have r: "ColRace \<in> set gs \<and> ColGender \<notin> set gs" and sc: "sc = row_scope (labels_of gs r)" using R by blast+
  have w: "sc \<noteq> global_scope \<or> ColWorld \<notin> set gs" using R sc by metis
  from set_shapes(1) [OF gs r] ne True have "gs = [ColRegion, ColRace] \<or> gs = [ColDatacenter, ColRace] \<or> gs = [ColWorld, ColRace]"
    by (simp add: dimension_column_def)
  then show ?thesis
    using pl sc w by (elim disjE) (simp_all add: labels_of_def label_def row_scope_def global_scope_def placed_def)
next
  case False
  with d have p: "d \<in> {''region'', ''datacenter'', ''world''}" by (auto simp: breakdownColumns_def)
  note q = place_rows [OF t p, unfolded labels_of_None]
  with set_shapes(2) [OF gs] have "gs \<in> {[], [ColRegion], [ColDatacenter], [ColWorld]}" by blast
  with q p ne show ?thesis by (elim insertE emptyE) (simp_all add: dimension_column_def)
qed

lemma filter_concat_nil: "(\<And>x. x \<in> set xs \<Longrightarrow> filter P (f x) = []) \<Longrightarrow> filter P (concat (map f xs)) = []"
  by (induction xs) auto

definition is_global :: "string \<Rightarrow> ScopedGroupCount \<Rightarrow> bool" where
  "is_global d g \<longleftrightarrow> sg_Dimension g = d \<and> sg_Scope g = global_scope"

lemma other_set_groups:
  assumes "gs \<in> set grouping_sets" and "gs \<noteq> [dimension_column d]" and "d \<in> set breakdownColumns" and "\<And>r. r \<in> set rows \<Longrightarrow> placed r"
  shows "filter (is_global d) (concat (map row_groups (group_rows since ml rows gs))) = []"
proof (rule filter_concat_nil)
  fix x assume x: "x \<in> set (group_rows since ml rows gs)"
  show "filter (is_global d) (row_groups x) = []"
  proof (cases "gs = []")
    case True
    with x show ?thesis by (simp add: group_rows_def group_labels_def row_groups_def row_triple_def no_labels_def)
  next
    case False
    with x obtain r where "r \<in> set rows" "sr_labels x = labels_of gs r" by (auto simp: group_rows_def group_labels_def Let_def)
    with other_sets_scoped [OF assms(1-3), of r] assms(4) show ?thesis
      by (auto simp: row_groups_def is_global_def split: option.splits)
  qed
qed

lemma own_set_groups:
  assumes d: "d \<in> set breakdownColumns"
  shows "filter (is_global d) (concat (map row_groups (group_rows since ml rows [dimension_column d]))) =
    map (\<lambda>g. \<lparr>sg_Scope = global_scope, sg_Dimension = d, sg_Key = gc_Key g, sg_Total = gc_Total g, sg_Active = gc_Active g\<rparr>)
      (filter (\<lambda>g. shown d (gc_Key g)) (group_counts (column_value d) (\<lambda>k. k) since rows))"
proof -
  have inj: "inj (only_label d)" by (auto simp: inj_def only_label_def no_labels_def split: if_splits)
  have labels: "group_labels [dimension_column d] rows = map (only_label d) (remdups (map (column_value d) rows))"
  proof -
    have "labels_of [dimension_column d] = only_label d \<circ> column_value d" by (rule ext) (simp add: only_label_row [OF d])
    then show ?thesis using remdups_map_inj [OF inj, of "map (column_value d) rows"] by (simp add: group_labels_def)
  qed
  have eq: "only_label d (column_value d r) = only_label d v \<longleftrightarrow> column_value d r = v" for r v using inj by (auto simp: inj_def)
  have "filter (is_global d) (concat (map row_groups (map (\<lambda>l. let ms = filter (\<lambda>r. labels_of [dimension_column d] r = l) rows
        in \<lparr>sr_labels = l, sr_total = int (length ms),
            sr_active = int (length (filter (\<lambda>r. at_least (cr_LatestAchievementAt r) since) ms)),
            sr_max = int (length (filter (\<lambda>r. uint (cr_max_job_level r) \<ge> uint ml) ms))\<rparr>) (map (only_label d) vs)))) =
    map (\<lambda>g. \<lparr>sg_Scope = global_scope, sg_Dimension = d, sg_Key = gc_Key g, sg_Total = gc_Total g, sg_Active = gc_Active g\<rparr>)
      (filter (\<lambda>g. shown d (gc_Key g)) (map (\<lambda>k. \<lparr>gc_Key = k,
               gc_Total = int (length (filter (\<lambda>r. column_value d r = k) rows)),
               gc_Active = int (length (filter (\<lambda>r. column_value d r = k \<and> at_least (cr_LatestAchievementAt r) since) rows))\<rparr>) vs))" for vs
    by (induction vs)
      (auto simp: row_groups_def only_label_triple [OF d] only_label_row [OF d] eq is_global_def Let_def conj_commute)
  then show ?thesis unfolding group_rows_def labels group_counts_def .
qed

lemma concat_single:
  assumes "distinct xs" and "c \<in> set xs" and "\<And>x. x \<in> set xs \<Longrightarrow> x \<noteq> c \<Longrightarrow> F x = []"
  shows "concat (map F xs) = F c"
  using assms
proof (induction xs)
  case (Cons x xs)
  show ?case
  proof (cases "x = c")
    case True
    with Cons.prems have "concat (map F xs) = []" by auto
    with True show ?thesis by simp
  next
    case False
    with Cons show ?thesis by auto
  qed
qed simp

lemma filter_nested: "filter P (concat (map f (concat (map g xs)))) = concat (map (\<lambda>x. filter P (concat (map f (g x)))) xs)"
  by (induction xs) auto

lemma global_groups:
  assumes d: "d \<in> set breakdownColumns" and pl: "\<And>r. r \<in> set rows \<Longrightarrow> placed r"
  shows "map (\<lambda>g. \<lparr>gc_Key = sg_Key g, gc_Total = sg_Total g, gc_Active = sg_Active g\<rparr>)
      (filter (is_global d) (query_groups (stat_rows since ml rows))) =
    filter (\<lambda>g. shown d (gc_Key g)) (group_counts (column_value d) (\<lambda>k. k) since rows)"
proof -
  let ?F = "\<lambda>gs. filter (is_global d) (concat (map row_groups (group_rows since ml rows gs)))"
  have "filter (is_global d) (query_groups (stat_rows since ml rows)) = concat (map ?F grouping_sets)"
    unfolding query_groups_def stat_rows_def by (rule filter_nested)
  also have "\<dots> = ?F [dimension_column d]"
    using d by (intro concat_single other_set_groups pl)
      (auto simp: grouping_sets_def breakdownColumns_def dimension_column_def)
  finally show ?thesis
    unfolding own_set_groups [OF d] by (simp add: comp_def map_idI)
qed

lemma snapshot_groups:
  assumes "collect inp db opts = Inr sn" and "d \<in> set breakdownColumns" and "\<And>r. r \<in> set (db_characters db) \<Longrightarrow> live r \<Longrightarrow> placed r"
  shows "mset (SnapshotGroups (Some sn) d global_scope) = filter_mset (\<lambda>g. shown d (gc_Key g))
    (mset (group_counts (column_value d) (\<lambda>k. k) (uo_ActivitySince opts) (filter live (db_characters db))))"
proof -
  have "(\<lambda>g. sg_Dimension g = d \<and> sg_Scope g = global_scope) = is_global d" by (rule ext) (simp add: is_global_def)
  then show ?thesis
    using global_groups [OF assms(2), of "filter live (db_characters db)"] assms(3)
    by (simp add: SnapshotGroups_def mset_sort_by collect_groups [OF assms(1)] flip: mset_filter)
qed

section \<open>Properties\<close>

text \<open>C32: Serving from the statistics snapshot does not change the answer: for each of the four dimensions, the breakdown endpoint
  answers from a snapshot that was collected from the database with the same groups, totals and active counts as it does when it
  queries that database directly, except that a group of characters without a world is left out. (Every live character has a region
  and a datacenter, which a stored snapshot requires, and both use the same activity cutoff.)\<close>

theorem breakdown_sources_agree:
  assumes "collect inp db opts = Inr sn" and "\<And>r. r \<in> set (db_characters db) \<Longrightarrow> live r \<Longrightarrow> placed r"
    and "co_svc c = Some (pg_read env, sv)" and "activitySince sv (cv_now (env 0)) = uo_ActivitySince opts"
    and "Api_Breakdown q (c\<lparr>co_stats := None\<rparr>) db = writeJSON 200 (GroupsBody gs)"
  shows "\<exists>hs. Api_Breakdown q (c\<lparr>co_stats := Some (Inr (sn, st))\<rparr>) db = writeJSON 200 (GroupsBody hs)
    \<and> mset hs = filter_mset (\<lambda>g. q ''by'' = ''world'' \<longrightarrow> gc_Key g \<noteq> []) (mset gs)"
proof -
  from assms(5,3) have d: "q ''by'' \<noteq> []" "q ''by'' \<in> set breakdownColumns"
    by (auto simp: Api_Breakdown_def Let_def writeJSON_def writeError_def breakdownColumns_def split: if_splits)
  with assms(5,3) have "Character_Breakdown (env 9) (q ''by'') (uo_ActivitySince opts) no_filter db = Inr gs"
    by (auto simp: Api_Breakdown_def Let_def currentStats_def writeJSON_def writeError_def Service_Breakdown_def pg_read_def assms(4) [symmetric]
        breakdownColumns_def split: sum.splits)
  then have "gs = sort_key (\<lambda>g. - gc_Total g)
      (group_counts (column_value (q ''by'')) (\<lambda>k. k) (uo_ActivitySince opts) (filter live (db_characters db)))"
    using d(2) by (auto simp: Character_Breakdown_def fetch_many_def matching_no_filter split: option.splits if_splits)
  then have "mset gs = mset (group_counts (column_value (q ''by'')) (\<lambda>k. k) (uo_ActivitySince opts) (filter live (db_characters db)))"
    by simp
  with snapshot_groups [OF assms(1) d(2) assms(2)] d show ?thesis
    by (intro exI conjI) (auto simp: Api_Breakdown_def Let_def assms(3) currentStats_def breakdownColumns_def shown_def)
qed

lemma collect_succeeds: "(\<And>n. si_fault inp n = None) \<Longrightarrow> \<exists>sn. collect inp db opts = Inr sn"
  by (simp add: collect_def readCharacterStats_def readMilestoneStats_def Let_def)

definition demo_opts :: UIStatsRefreshOptions where
  "demo_opts = \<lparr>uo_ActivitySince = 1, uo_MaxLevel = 100\<rparr>"

theorem breakdown_sources_agree_witness:
  "\<exists>sn hs. collect demo_stats demo_census demo_opts = Inr sn
    \<and> Api_Breakdown (\<lambda>_. ''race'') \<lparr>co_svc = Some (pg_read (\<lambda>_. calm\<lparr>cv_now := 1 + 30 * 24 * hour\<rparr>), NewService),
        co_stats = Some (Inr (sn, snapshot_state (NewUIStatsService 0 0) sn 0 False))\<rparr> demo_census = writeJSON 200 (GroupsBody hs)
    \<and> size hs = 1"
proof -
  let ?env = "\<lambda>_ :: nat. calm\<lparr>cv_now := 1 + 30 * 24 * hour\<rparr>"
  let ?c = "\<lparr>co_svc = Some (pg_read ?env, NewService), co_stats = None\<rparr>"
  obtain sn where c: "collect demo_stats demo_census demo_opts = Inr sn"
    using collect_succeeds [of demo_stats demo_census demo_opts] by (auto simp: demo_stats_def)
  have pl: "placed r" if "r \<in> set (db_characters demo_census)" for r
    using that by (auto simp: demo_census_def placed_def inserted_row_def demo_character_def CharacterRecord.defs character_row.defs)
  let ?gs = "[\<lparr>gc_Key = ''Elezen'', gc_Total = 4, gc_Active = 0\<rparr>]"
  have g: "Api_Breakdown (\<lambda>_. ''race'') (?c\<lparr>co_stats := None\<rparr>) demo_census = writeJSON 200 (GroupsBody ?gs)" by code_simp
  have a: "activitySince NewService (cv_now (?env 0)) = uo_ActivitySince demo_opts"
    by (simp add: activitySince_def NewService_def defaultActivityWindow_def demo_opts_def)
  obtain hs where "Api_Breakdown (\<lambda>_. ''race'') (?c\<lparr>co_stats := Some (Inr (sn, snapshot_state (NewUIStatsService 0 0) sn 0 False))\<rparr>) demo_census
      = writeJSON 200 (GroupsBody hs)" "mset hs = mset ?gs"
    using breakdown_sources_agree [OF c pl _ a g, of "snapshot_state (NewUIStatsService 0 0) sn 0 False"] by auto
  with c mset_eq_length [of hs ?gs] show ?thesis by auto
qed

end
