(* ===== verification/Census_Export.thy ===== *)
theory Census_Export
  imports Census_Api
begin

text \<open>
  cmd/http/app/census/handler/export.go and cmd/cli/export.go: the bulk export of the characters over HTTP and to a file. Both
  stream the matching rows in id order through a callback that writes one record; they differ in what they do with an error. The
  output is the sequence of the values written, before the CSV, JSON and gzip encodings.
\<close>

section \<open>Records\<close>

definition rfc3339 :: "timestamp \<Rightarrow> string" where
  "rfc3339 t =
     (let s = (t mod (24 * hour)) div second
      in format_day (day_of t) @ ''T'' @ pad 2 (show_int (s div 3600)) @ '':'' @ pad 2 (show_int (s div 60 mod 60)) @ '':''
         @ pad 2 (show_int (s mod 60)) @ ''Z'')"

definition show_bool :: "bool \<Rightarrow> string" where
  "show_bool b = (if b then ''true'' else ''false'')"

definition csv_header :: "string list" where
  "csv_header = [''id'', ''name'', ''world'', ''datacenter'', ''region'', ''race'', ''gender'', ''fc_id'', ''fc_name'',
     ''achievements_private'', ''latest_achievement_id'', ''is_active'', ''first_seen_at'', ''last_census_at'']"

definition item_row :: "CharacterListItem \<Rightarrow> string list" where
  "item_row item =
     (let fcID = (case li_FreeCompanyID item of None \<Rightarrow> [] | Some x \<Rightarrow> x);
          fcName = (case li_FreeCompanyName item of None \<Rightarrow> [] | Some x \<Rightarrow> x);
          latestAchID = (case li_LatestAchievementID item of None \<Rightarrow> [] | Some a \<Rightarrow> show_u32 a);
          lastCensus = (case li_LastCensusAt item of None \<Rightarrow> [] | Some t \<Rightarrow> rfc3339 t)
      in [show_u32 (li_ID item), li_Name item, li_World item, li_Datacenter item, li_Region item, li_Race item,
          show_int (uint (li_Gender item)), fcID, fcName, show_bool (li_AchievementsPrivate item), latestAchID,
          show_bool (li_IsActive item), rfc3339 (li_FirstSeenAt item), lastCensus])"

definition record_row :: "timestamp \<Rightarrow> CharacterRecord \<Rightarrow> string list" where
  "record_row now rec =
     (let fcID = (case cr_FreeCompanyID rec of None \<Rightarrow> [] | Some x \<Rightarrow> x);
          fcName = (case cr_FreeCompanyName rec of None \<Rightarrow> [] | Some x \<Rightarrow> x);
          latestAchID = (case cr_LatestAchievementID rec of None \<Rightarrow> [] | Some a \<Rightarrow> show_u32 a);
          isActive = (case cr_LatestAchievementAt rec of None \<Rightarrow> False | Some t \<Rightarrow> \<not> t < now - 30 * 24 * hour);
          lastCensus = (case cr_LastCensusAt rec of None \<Rightarrow> [] | Some t \<Rightarrow> rfc3339 t)
      in [show_u32 (cr_ID rec), cr_Name rec, cr_World rec, cr_Datacenter rec, cr_Region rec, cr_Race rec,
          show_int (uint (cr_Gender rec)), fcID, fcName, show_bool (cr_AchievementsPrivate rec), latestAchID,
          show_bool isActive, rfc3339 (cr_FirstSeenAt rec), lastCensus])"

text \<open>The two commands write the same CSV row for a record.\<close>

lemma rows_agree: "item_row (toCharacterListItem now rec) = record_row now rec"
  by (auto simp: item_row_def record_row_def toCharacterListItem_def Let_def not_less split: option.splits)

section \<open>Writing\<close>

datatype 'a piece =
    CsvRow "string list"
  | OpenArray
  | Comma
  | Value 'a
  | NewLine
  | CloseArray

text \<open>
  \<open>wr_fault n\<close> is the error of the write after \<open>n\<close> pieces, \<open>wr_marshal\<close> the error of encoding a record, \<open>wr_now\<close> the
  clock when a record is written, and \<open>wr_flush\<close> the errors of the two flushes at the end.
\<close>

record 'a writer =
  wr_fault :: "nat \<Rightarrow> err option"
  wr_marshal :: "'a \<Rightarrow> err option"
  wr_now :: "u32 \<Rightarrow> timestamp"
  wr_flush :: "nat \<Rightarrow> err option"

record 'a sink =
  sk_pieces :: "'a piece list"
  sk_first :: bool
  sk_count :: int

definition new_sink :: "'a sink" where
  "new_sink = \<lparr>sk_pieces = [], sk_first = True, sk_count = 0\<rparr>"

definition write_piece :: "'a writer \<Rightarrow> 'a piece \<Rightarrow> 'a sink \<Rightarrow> err option \<times> 'a sink" where
  "write_piece w p k =
     (case wr_fault w (length (sk_pieces k)) of Some e \<Rightarrow> (Some e, k) | None \<Rightarrow> (None, k\<lparr>sk_pieces := sk_pieces k @ [p]\<rparr>))"

definition and_then :: "err option \<times> 's \<Rightarrow> ('s \<Rightarrow> err option \<times> 's) \<Rightarrow> err option \<times> 's" where
  "and_then r g = (case r of (Some e, s) \<Rightarrow> (Some e, s) | (None, s) \<Rightarrow> g s)"

definition csv_record :: "'a writer \<Rightarrow> (CharacterRecord \<Rightarrow> string list) \<Rightarrow> CharacterRecord \<Rightarrow> 'a sink \<Rightarrow> err option \<times> 'a sink" where
  "csv_record w row rec k = write_piece w (CsvRow (row rec)) (k\<lparr>sk_count := sk_count k + 1\<rparr>)"

definition marshal_value :: "'a writer \<Rightarrow> 'a \<Rightarrow> 'a sink \<Rightarrow> err option \<times> 'a sink" where
  "marshal_value w x k = (case wr_marshal w x of Some e \<Rightarrow> (Some e, k) | None \<Rightarrow> write_piece w (Value x) k)"

definition json_record :: "'a writer \<Rightarrow> (CharacterRecord \<Rightarrow> 'a) \<Rightarrow> CharacterRecord \<Rightarrow> 'a sink \<Rightarrow> err option \<times> 'a sink" where
  "json_record w item rec k0 =
     (let k = k0\<lparr>sk_count := sk_count k0 + 1\<rparr>
      in and_then (if \<not> sk_first k then write_piece w Comma k else (None, k\<lparr>sk_first := False\<rparr>)) (marshal_value w (item rec)))"

definition ndjson_record :: "'a writer \<Rightarrow> (CharacterRecord \<Rightarrow> 'a) \<Rightarrow> CharacterRecord \<Rightarrow> 'a sink \<Rightarrow> err option \<times> 'a sink" where
  "ndjson_record w item rec k =
     and_then (marshal_value w (item rec) (k\<lparr>sk_count := sk_count k + 1\<rparr>)) (write_piece w NewLine)"

definition export_format :: "string \<Rightarrow> string option" where
  "export_format raw =
     (let format = (if to_lower raw = [] then ''csv'' else to_lower raw)
      in if format \<notin> {''csv'', ''json'', ''ndjson'', ''jsonl''} then None
         else Some (if format = ''jsonl'' then ''ndjson'' else format))"

section \<open>The HTTP export\<close>

record export_response =
  xr_status :: nat
  xr_error :: string
  xr_type :: string
  xr_filename :: string
  xr_gzip :: bool
  xr_pieces :: "CharacterListItem piece list"

definition export_error :: "nat \<Rightarrow> string \<Rightarrow> export_response" where
  "export_error status msg =
     \<lparr>xr_status = status, xr_error = msg, xr_type = ''application/json'', xr_filename = [], xr_gzip = False, xr_pieces = []\<rparr>"

definition use_gzip :: "query \<Rightarrow> string \<Rightarrow> bool" where
  "use_gzip q acceptEncoding =
     (if q ''gzip'' \<noteq> [] then parse_bool (q ''gzip'') = Some True else str_contains acceptEncoding ''gzip'')"

definition content_type :: "string \<Rightarrow> string" where
  "content_type format =
     (if format = ''csv'' then ''text/csv; charset=utf-8'' else if format = ''json'' then ''application/json'' else ''application/x-ndjson'')"

definition export_filter :: "query \<Rightarrow> CharacterFilter" where
  "export_filter q = no_filter\<lparr>cf_World := q ''world'', cf_Datacenter := q ''datacenter'', cf_Region := q ''region'',
     cf_Race := q ''race'', cf_Name := q ''name''\<rparr>"

text \<open>What the stream wrote; the error that it returned is dropped.\<close>

definition export_pieces :: "census_env \<Rightarrow> CharacterListItem writer \<Rightarrow> string \<Rightarrow> CharacterFilter \<Rightarrow> census_db \<Rightarrow> CharacterListItem piece list" where
  "export_pieces env w format f db =
     (let item = (\<lambda>rec. toCharacterListItem (wr_now w (cr_ID rec)) rec)
      in sk_pieces
        (if format = ''csv''
         then (case write_piece w (CsvRow csv_header) new_sink of
                 (Some e, k) \<Rightarrow> k
               | (None, k) \<Rightarrow> snd (Stream env f (csv_record w (\<lambda>rec. item_row (item rec))) db k))
         else if format = ''json''
         then (case write_piece w OpenArray new_sink of
                 (Some e, k) \<Rightarrow> k
               | (None, k) \<Rightarrow> snd (write_piece w CloseArray (snd (Stream env f (json_record w item) db k))))
         else snd (Stream env f (ndjson_record w item) db new_sink)))"

definition Export :: "census_env \<Rightarrow> CharacterListItem writer \<Rightarrow> query \<Rightarrow> string \<Rightarrow> 's CensusController \<Rightarrow> census_db \<Rightarrow> export_response" where
  "Export env w q acceptEncoding c db =
     (if co_svc c = None then export_error 500 ''census service unavailable''
      else case export_format (q ''format'') of
             None \<Rightarrow> export_error 400 ''invalid format, supported formats: csv, json, ndjson (or jsonl)''
           | Some format \<Rightarrow>
               \<lparr>xr_status = 200, xr_error = [], xr_type = content_type format,
                xr_filename = ''ffxiv-census-characters.'' @ format @ (if use_gzip q acceptEncoding then ''.gz'' else []),
                xr_gzip = use_gzip q acceptEncoding, xr_pieces = export_pieces env w format (export_filter q) db\<rparr>)"

section \<open>The export command\<close>

text \<open>\<open>opened\<close> is the result of creating the directory and the file of the output.\<close>

definition runExport :: "census_env \<Rightarrow> CharacterRecord writer \<Rightarrow> err option \<Rightarrow> string \<Rightarrow> bool \<Rightarrow> CharacterFilter \<Rightarrow> census_db
    \<Rightarrow> err option \<times> CharacterRecord sink" where
  "runExport env w opened raw useGzip f db =
     (case export_format raw of
        None \<Rightarrow> (Some (EText (''invalid format '' @ quoted (to_lower raw) @ '': supported formats are csv, json, ndjson'')), new_sink)
      | Some format \<Rightarrow>
          (case opened of
             Some e \<Rightarrow> (Some e, new_sink)
           | None \<Rightarrow>
               and_then
                 (if format = ''csv''
                  then (case write_piece w (CsvRow csv_header) new_sink of
                          (Some e, k) \<Rightarrow> (Some (wrapped ''write csv header'' e), k)
                        | (None, k) \<Rightarrow>
                            and_then (Stream env f (csv_record w (\<lambda>rec. record_row (wr_now w (cr_ID rec)) rec)) db k)
                              (\<lambda>k'. (map_option (wrapped ''flush csv'') (wr_flush w 0), k')))
                  else if format = ''json''
                  then and_then (write_piece w OpenArray new_sink)
                         (\<lambda>k. and_then (Stream env f (json_record w (\<lambda>rec. rec)) db k) (write_piece w CloseArray))
                  else Stream env f (ndjson_record w (\<lambda>rec. rec)) db new_sink)
                 (\<lambda>k. (if useGzip then map_option (wrapped ''flush gzip'') (wr_flush w 1) else None, k))))"

section \<open>What a stream writes\<close>

text \<open>The records that the query of Stream returns.\<close>

definition selected :: "census_env \<Rightarrow> CharacterFilter \<Rightarrow> census_db \<Rightarrow> CharacterRecord list" where
  "selected env f db = map scanCharacter (sort_key cr_ID (matching env db f))"

text \<open>The contract of a callback: a record that it accepts is written once, one that it rejects at most once.\<close>

locale row_writer =
  fixes fn :: "CharacterRecord \<Rightarrow> 's \<Rightarrow> err option \<times> 's" and items :: "'s \<Rightarrow> 'i list" and val :: "CharacterRecord \<Rightarrow> 'i"
  assumes wrote: "fn r s = (None, s') \<Longrightarrow> items s' = items s @ [val r]"
    and failed: "fn r s = (Some e, s') \<Longrightarrow> items s' = items s \<or> items s' = items s @ [val r]"
begin

lemma rows_written: "stream_rows fn rows s = (None, s') \<Longrightarrow> items s' = items s @ map val rows"
proof (induction rows arbitrary: s)
  case (Cons r rows)
  then show ?case by (auto split: prod.splits option.splits dest: wrote)
qed simp

lemma rows_prefix: "\<exists>n\<le>length rows. items (snd (stream_rows fn rows s)) = items s @ map val (take n rows)"
proof (induction rows arbitrary: s)
  case (Cons r rows)
  obtain res s' where c: "fn r s = (res, s')" by (metis surj_pair)
  show ?case
  proof (cases res)
    case None
    from Cons.IH [of s'] obtain n where "n \<le> length rows" "items (snd (stream_rows fn rows s')) = items s' @ map val (take n rows)" by blast
    with None c wrote [of r s s'] show ?thesis by (intro exI [of _ "Suc n"]) simp
  next
    case (Some e)
    with failed c have "items s' = items s \<or> items s' = items s @ [val r]" by blast
    then show ?thesis
    proof
      assume "items s' = items s"
      with Some c show ?thesis by (intro exI [of _ 0]) simp
    next
      assume "items s' = items s @ [val r]"
      with Some c show ?thesis by (intro exI [of _ 1]) simp
    qed
  qed
qed simp

lemma stream_complete:
  assumes "Stream env f fn db s = (None, s')"
  shows "items s' = items s @ map val (selected env f db)"
  using assms rows_written [of "selected env f db" s s']
  by (auto simp: Stream_def selected_def Let_def split: option.splits prod.splits)

lemma stream_prefix: "\<exists>n. items (snd (Stream env f fn db s)) = items s @ map val (take n (selected env f db))"
proof -
  have R: "\<exists>n. items (snd (stream_rows fn (take m rows) s)) = items s @ map val (take n rows)" for m rows
    using rows_prefix [of "take m rows" s] by (auto simp: min_def split: if_splits)
  show ?thesis
    using R [of "length (selected env f db)" "selected env f db"] R [of "cv_read env" "selected env f db"]
    by (auto simp: Stream_def selected_def Let_def split: option.splits prod.splits if_splits intro: exI [of _ 0])
qed

end

definition csv_rows :: "'a piece list \<Rightarrow> string list list" where
  "csv_rows ps = concat (map (\<lambda>p. case p of CsvRow r \<Rightarrow> [r] | _ \<Rightarrow> []) ps)"

definition json_values :: "'a piece list \<Rightarrow> 'a list" where
  "json_values ps = concat (map (\<lambda>p. case p of Value x \<Rightarrow> [x] | _ \<Rightarrow> []) ps)"

lemma pieces_simps [simp]: "csv_rows [] = []" "csv_rows (ps @ qs) = csv_rows ps @ csv_rows qs"
  "csv_rows (p # ps) = (case p of CsvRow r \<Rightarrow> [r] | _ \<Rightarrow> []) @ csv_rows ps"
  "json_values [] = []" "json_values (ps @ qs) = json_values ps @ json_values qs"
  "json_values (p # ps) = (case p of Value x \<Rightarrow> [x] | _ \<Rightarrow> []) @ json_values ps"
  by (simp_all add: csv_rows_def json_values_def)

lemmas writing = write_piece_def marshal_value_def and_then_def

interpretation csv_out: row_writer "csv_record w row" "\<lambda>k. csv_rows (sk_pieces k)" row for w row
  by unfold_locales (auto simp: csv_record_def writing split: option.splits)

interpretation json_out: row_writer "json_record w item" "\<lambda>k. json_values (sk_pieces k)" item for w item
  by unfold_locales (auto simp: json_record_def writing Let_def split: option.splits if_splits)

interpretation ndjson_out: row_writer "ndjson_record w item" "\<lambda>k. json_values (sk_pieces k)" item for w item
  by unfold_locales (auto simp: ndjson_record_def writing split: option.splits)

text \<open>The HTTP export always lists an initial part of the selected records.\<close>

lemma http_export_prefix:
  "\<exists>n. json_values (export_pieces env w ''json'' f db) =
     map (\<lambda>rec. toCharacterListItem (wr_now w (cr_ID rec)) rec) (take n (selected env f db))"
proof (cases "wr_fault w 0")
  case None
  let ?item = "\<lambda>rec. toCharacterListItem (wr_now w (cr_ID rec)) rec"
  let ?k = "new_sink\<lparr>sk_pieces := [OpenArray]\<rparr>"
  from json_out.stream_prefix [where w = w and item = ?item and env = env and f = f and db = db and s = ?k] obtain n
    where "json_values (sk_pieces (snd (Stream env f (json_record w ?item) db ?k))) = map ?item (take n (selected env f db))" by auto
  with None show ?thesis
    by (intro exI [of _ n]) (simp add: export_pieces_def writing new_sink_def Let_def split: option.splits)
next
  case (Some e)
  then show ?thesis by (intro exI [of _ 0]) (simp add: export_pieces_def writing new_sink_def Let_def)
qed

definition commas :: "'a list \<Rightarrow> 'a piece list" where
  "commas xs = concat (map (\<lambda>x. [Comma, Value x]) xs)"

lemma length_commas: "length (commas xs) = 2 * length xs"
  by (induction xs) (simp_all add: commas_def)

text \<open>A complete JSON array of the values.\<close>

definition json_document :: "'a list \<Rightarrow> 'a piece list" where
  "json_document xs = OpenArray # tl (commas xs) @ [CloseArray]"

definition clean_writer :: "'a writer \<Rightarrow> bool" where
  "clean_writer w \<longleftrightarrow> wr_fault w = (\<lambda>_. None) \<and> wr_marshal w = (\<lambda>_. None)"

lemma json_rows_clean:
  assumes "clean_writer w" and "\<not> sk_first k"
  shows "stream_rows (json_record w item) rows k =
    (None, k\<lparr>sk_pieces := sk_pieces k @ commas (map item rows), sk_count := sk_count k + int (length rows)\<rparr>)"
  using assms
proof (induction rows arbitrary: k)
  case (Cons r rows)
  then show ?case by (simp add: json_record_def writing clean_writer_def commas_def Let_def)
qed (simp add: commas_def)

lemma json_rows_first:
  assumes "clean_writer w" and "sk_first k"
  shows "fst (stream_rows (json_record w item) rows k) = None
    \<and> sk_pieces (snd (stream_rows (json_record w item) rows k)) = sk_pieces k @ tl (commas (map item rows))"
proof (cases rows)
  case (Cons r rs)
  let ?k = "k\<lparr>sk_count := sk_count k + 1, sk_first := False, sk_pieces := sk_pieces k @ [Value (item r)]\<rparr>"
  have "json_record w item r k = (None, ?k)" using assms by (simp add: json_record_def writing clean_writer_def Let_def)
  with Cons json_rows_clean [OF assms(1), of ?k item rs] show ?thesis by (simp add: commas_def)
qed (simp add: commas_def)

lemma command_complete:
  assumes "runExport env w opened raw useGzip f db = (None, k)"
  shows "if export_format raw = Some ''csv''
    then csv_rows (sk_pieces k) = csv_header # map (\<lambda>rec. record_row (wr_now w (cr_ID rec)) rec) (selected env f db)
    else json_values (sk_pieces k) = selected env f db"
proof -
  from assms obtain fmt where f: "export_format raw = Some fmt" "opened = None"
    by (auto simp: runExport_def split: option.splits)
  consider "fmt = ''csv''" | "fmt = ''json''" | "fmt \<noteq> ''csv''" "fmt \<noteq> ''json''" by blast
  then show ?thesis
  proof cases
    case 1
    with assms f obtain k0 where "Stream env f (csv_record w (\<lambda>rec. record_row (wr_now w (cr_ID rec)) rec)) db
        (new_sink\<lparr>sk_pieces := [CsvRow csv_header]\<rparr>) = (None, k0)" "k = k0"
      by (auto simp: runExport_def writing new_sink_def split: option.splits prod.splits if_splits)
    with csv_out.stream_complete 1 f show ?thesis by fastforce
  next
    case 2
    with assms f obtain k0 where "Stream env f (json_record w (\<lambda>rec. rec)) db (new_sink\<lparr>sk_pieces := [OpenArray]\<rparr>) = (None, k0)"
        "sk_pieces k = sk_pieces k0 @ [CloseArray]"
      by (auto simp: runExport_def writing new_sink_def split: option.splits prod.splits if_splits)
    with json_out.stream_complete 2 f show ?thesis by fastforce
  next
    case 3
    with assms f have "Stream env f (ndjson_record w (\<lambda>rec. rec)) db new_sink = (None, k)"
      by (auto simp: runExport_def and_then_def split: option.splits prod.splits if_splits)
    with ndjson_out.stream_complete 3 f show ?thesis by (fastforce simp: new_sink_def)
  qed
qed

lemma http_export_truncated:
  assumes "clean_writer w" and "cv_fault env 0 = None" and "cv_fault env 1 = None" and "cv_fault env 2 = Some e"
  shows "export_pieces env w ''json'' f db =
    json_document (map (\<lambda>rec. toCharacterListItem (wr_now w (cr_ID rec)) rec) (take (cv_read env) (selected env f db)))"
proof -
  let ?item = "\<lambda>rec. toCharacterListItem (wr_now w (cr_ID rec)) rec"
  let ?k = "new_sink\<lparr>sk_pieces := [OpenArray]\<rparr>" and ?rows = "take (cv_read env) (selected env f db)"
  have "Stream env f (json_record w ?item) db ?k = (Some e, snd (stream_rows (json_record w ?item) ?rows ?k))"
    using json_rows_first [OF assms(1), of ?k ?item ?rows] assms(2-4)
    by (auto simp: Stream_def selected_def new_sink_def Let_def split: prod.splits option.splits)
  then show ?thesis
    using json_rows_first [OF assms(1), of ?k ?item ?rows] assms(1)
    by (simp add: export_pieces_def writing clean_writer_def json_document_def new_sink_def Let_def)
qed

section \<open>Properties\<close>

text \<open>C33: An export command that succeeds has written every character that the filter selects, in id order, whatever format it
  used. The HTTP export is different: when the database connection breaks after some rows, the response has status 200 and is the
  complete JSON document of the rows read so far, closing bracket included, so a client cannot tell it from a complete
  export of a smaller census.\<close>

theorem export_failures:
  "(runExport env w opened raw useGzip f db = (None, k) \<longrightarrow>
      (if export_format raw = Some ''csv''
       then csv_rows (sk_pieces k) = csv_header # map (\<lambda>rec. record_row (wr_now w (cr_ID rec)) rec) (selected env f db)
       else json_values (sk_pieces k) = selected env f db))
    \<and> (clean_writer hw \<and> q ''format'' = ''json'' \<and> co_svc c \<noteq> None
        \<and> cv_fault env 0 = None \<and> cv_fault env 1 = None \<and> cv_fault env 2 = Some e \<longrightarrow>
      xr_status (Export env hw q ae c db) = 200
      \<and> xr_pieces (Export env hw q ae c db) = json_document
          (map (\<lambda>rec. toCharacterListItem (wr_now hw (cr_ID rec)) rec) (take (cv_read env) (selected env (export_filter q) db))))"
proof (rule conjI)
  show "runExport env w opened raw useGzip f db = (None, k) \<longrightarrow>
      (if export_format raw = Some ''csv''
       then csv_rows (sk_pieces k) = csv_header # map (\<lambda>rec. record_row (wr_now w (cr_ID rec)) rec) (selected env f db)
       else json_values (sk_pieces k) = selected env f db)"
    using command_complete by blast
next
  have "export_format (q ''format'') = Some ''json''" if "q ''format'' = ''json''"
    using that by (simp add: export_format_def to_lower_def)
  then show "clean_writer hw \<and> q ''format'' = ''json'' \<and> co_svc c \<noteq> None
        \<and> cv_fault env 0 = None \<and> cv_fault env 1 = None \<and> cv_fault env 2 = Some e \<longrightarrow>
      xr_status (Export env hw q ae c db) = 200
      \<and> xr_pieces (Export env hw q ae c db) = json_document
          (map (\<lambda>rec. toCharacterListItem (wr_now hw (cr_ID rec)) rec) (take (cv_read env) (selected env (export_filter q) db)))"
    using http_export_truncated [of hw env e "export_filter q" db] by (auto simp: Export_def)
qed

definition demo_writer :: "'a writer" where
  "demo_writer = \<lparr>wr_fault = (\<lambda>_. None), wr_marshal = (\<lambda>_. None), wr_now = (\<lambda>_. 0), wr_flush = (\<lambda>_. None)\<rparr>"

definition broken_read :: census_env where
  "broken_read = calm\<lparr>cv_fault := (\<lambda>n. if n = 2 then Some (EText ''connection reset'') else None), cv_read := 1\<rparr>"

definition demo_controller :: "census_db CensusController" where
  "demo_controller = \<lparr>co_svc = Some (pg_read (\<lambda>_. calm), NewService), co_stats = None\<rparr>"

theorem export_failures_witness:
  "xr_status (Export broken_read demo_writer (\<lambda>p. if p = ''format'' then ''json'' else []) [] demo_controller demo_census) = 200
   \<and> length (xr_pieces (Export broken_read demo_writer (\<lambda>p. if p = ''format'' then ''json'' else []) [] demo_controller demo_census)) = 3"
proof -
  let ?q = "\<lambda>p. if p = ''format'' then ''json'' else []"
  have h: "clean_writer (demo_writer :: CharacterListItem writer) \<and> ?q ''format'' = ''json'' \<and> co_svc demo_controller \<noteq> None
      \<and> cv_fault broken_read 0 = None \<and> cv_fault broken_read 1 = None \<and> cv_fault broken_read 2 = Some (EText ''connection reset'')"
    by (simp add: clean_writer_def demo_writer_def demo_controller_def broken_read_def calm_def)
  have "length (take (cv_read broken_read) (selected broken_read (export_filter ?q) demo_census)) = 1"
  proof -
    have "export_filter ?q = no_filter" by (simp add: export_filter_def no_filter_def)
    then have "length (selected broken_read (export_filter ?q) demo_census) = length (filter live (db_characters demo_census))"
      by (simp add: selected_def matching_no_filter)
    also have "\<dots> = 4"
      by (simp add: demo_census_def live_def inserted_row_def demo_character_def CharacterRecord.defs character_row.defs)
    finally show ?thesis by (simp add: broken_read_def)
  qed
  with export_failures [THEN conjunct2, THEN mp, of demo_writer ?q, OF h, of "[]" demo_census] show ?thesis
    by (simp add: json_document_def length_commas)
qed

end
