(* ===== verification/Web_Views.thy ===== *)
theory Web_Views
  imports Template_Helpers Census_Export
begin

text \<open>
  cmd/http/ui: the pages of the web interface. A handler maps a request and the controller to a response: status, headers and
  the data handed to the compiled template. What the templates make of the data is left out. The statistics pages share
  \<open>currentStats\<close>, which answers 503 without a snapshot and 304 when the client has the current page. \<open>sort.Slice\<close> leaves the order of
  equal rows open; here they keep their order. Names of worlds, datacenters and regions are ASCII.
\<close>

section \<open>Requests\<close>

text \<open>\<open>url.Values\<close>: the parameters with their values; a key occurs once.\<close>

record web_request =
  rq_path :: string
  rq_values :: "(string \<times> string list) list"
  rq_header :: "string \<Rightarrow> string"
  rq_pathValue :: "string \<Rightarrow> string"

definition query_get :: "web_request \<Rightarrow> query" where
  "query_get r k = (case map_of (rq_values r) k of Some (v # vs) \<Rightarrow> v | _ \<Rightarrow> [])"

definition hex_digit :: "nat \<Rightarrow> char" where
  "hex_digit n = char_of (if n < 10 then 48 + n else 55 + n)"

definition query_escape :: "string \<Rightarrow> string" where
  "query_escape s =
     concat (map (\<lambda>c. let n = (of_char c :: nat)
                      in if 48 \<le> n \<and> n \<le> 57 \<or> 65 \<le> n \<and> n \<le> 90 \<or> 97 \<le> n \<and> n \<le> 122 \<or> c \<in> {CHR ''-'', CHR ''_'', CHR ''.'', CHR ''~''}
                         then [c] else if c = CHR '' '' then ''+'' else [CHR ''%'', hex_digit (n div 16), hex_digit (n mod 16)]) s)"

fun join_with :: "string \<Rightarrow> string list \<Rightarrow> string" where
  "join_with sep [] = []"
| "join_with sep [p] = p"
| "join_with sep (p # q # ps) = p @ sep @ join_with sep (q # ps)"

definition query_encode :: "(string \<times> string list) list \<Rightarrow> string" where
  "query_encode vs =
     join_with ''&'' (concat (map (\<lambda>kv. map (\<lambda>v. query_escape (fst kv) @ ''='' @ query_escape v) (snd kv))
       (sort_by (\<lambda>a b. str_le (fst a) (fst b)) vs)))"

section \<open>View data\<close>

record ExpansionCard =
  xd_Icon :: string
  xd_Name :: string
  xd_Count :: int
  xd_Percent :: string

record RegionSummary =
  rg_Region :: string
  rg_Total :: int
  rg_Active :: int
  rg_ActiveRatio :: string

record DashboardViewData =
  dv_TotalCharacters :: int
  dv_ActiveCharacters :: int
  dv_ActivePercent :: string
  dv_MaxLevelCharacters :: int
  dv_MaxLevel :: u32
  dv_NewCharacters30d :: int
  dv_NewCharactersTrend :: string
  dv_ChartLabels :: "string list"
  dv_ChartData :: "int list"
  dv_Regions :: "RegionSummary list"
  dv_RaceLabels :: "string list"
  dv_RaceData :: "int list"
  dv_ExpansionCompletions :: "ExpansionCard list"

record WorldRow =
  wr_Region :: string
  wr_Datacenter :: string
  wr_World :: string
  wr_Total :: int
  wr_Active :: int
  wr_NewCharacters30d :: int
  wr_ActiveRatio :: string

record WorldDrilldownData =
  wl_Region :: string
  wl_Worlds :: "WorldRow list"

record RaceRow =
  rr_Race :: string
  rr_Total :: int
  rr_Active :: int
  rr_ActiveRatio :: string
  rr_ShareOfTotal :: string
  rr_SharePercentVal :: float64

record RacesViewData =
  rv_TotalCharacters :: int
  rv_ActiveCharacters :: int
  rv_NewCharacters30d :: int
  rv_NewCharactersTrend :: string
  rv_SelectedRegion :: string
  rv_SelectedDC :: string
  rv_SelectedWorld :: string
  rv_Regions :: "string list"
  rv_Datacenters :: "string list"
  rv_Worlds :: "string list"
  rv_Races :: "RaceRow list"
  rv_Chart :: "(string \<times> int) list"
  rv_Tribe :: "(string \<times> int) list"
  rv_Gender :: "(string \<times> int) list"
  rv_RaceGender :: "(string \<times> int) list"

record WorldDetailRow =
  wt_World :: string
  wt_Datacenter :: string
  wt_Region :: string
  wt_Total :: int
  wt_Active :: int
  wt_ActiveRatio :: string
  wt_ActivePctVal :: float64
  wt_NewCharacters30d :: int

record WorldsViewData =
  wv_TotalCharacters :: int
  wv_ActiveCharacters :: int
  wv_NewCharacters30d :: int
  wv_NewCharactersTrend :: string
  wv_SelectedRegion :: string
  wv_SelectedDC :: string
  wv_Regions :: "string list"
  wv_Datacenters :: "string list"
  wv_Worlds :: "WorldDetailRow list"

record MSQRow =
  mr_Expansion :: string
  mr_Count :: int
  mr_PercentTotal :: string

record WorldDetailViewData =
  wp_World :: string
  wp_Datacenter :: string
  wp_Region :: string
  wp_TotalCharacters :: int
  wp_ActiveCharacters :: int
  wp_ActiveRatio :: string
  wp_ActivePercentVal :: float64
  wp_NewCharacters30d :: int
  wp_NewCharactersTrend :: string
  wp_Races :: "RaceRow list"
  wp_MSQCompletions :: "MSQRow list"
  wp_NewCharactersTimeline :: "DailyCount list"
  wp_RaceChart :: "(string \<times> int) list"
  wp_MSQChart :: "(string \<times> int) list"
  wp_TimelineChart :: "(string \<times> int) list"

record ExpansionProgression =
  ep_Name :: string
  ep_Version :: string
  ep_FinalQuest :: string
  ep_Icon :: string
  ep_Completions :: int
  ep_PercentOfTotal :: string
  ep_PercentValue :: float64
  ep_RetentionRate :: string
  ep_DropOffRate :: string

record ExpansionsViewData =
  ev_TotalCharacters :: int
  ev_Expansions :: "ExpansionProgression list"

record JobDisplay =
  jb_Name :: string
  jb_Level :: u8
  jb_ExpLevel :: u32
  jb_MaxLevel :: bool
  jb_RoleKey :: string

record JobGroup =
  jg_RoleTitle :: string
  jg_RoleKey :: string
  jg_Jobs :: "JobDisplay list"

record MilestoneDisplay =
  mi_AchievementID :: u32
  mi_Kind :: string
  mi_Expansion :: string
  mi_Detail :: string
  mi_AchievedAt :: timestamp

record CharacterProfileViewData =
  pv_Character :: CharacterRecord
  pv_GenderText :: string
  pv_IsActive :: bool
  pv_JobGroups :: "JobGroup list"
  pv_Milestones :: "MilestoneDisplay list"
  pv_MaxLevel :: u32

record CharacterRow =
  cw_ID :: u32
  cw_Name :: string
  cw_World :: string
  cw_Datacenter :: string
  cw_Region :: string
  cw_Race :: string
  cw_Tribe :: string
  cw_GrandCompany :: string
  cw_FreeCompanyName :: string
  cw_IsActive :: bool
  cw_DeletedAt :: "timestamp option"

record CharacterListViewData =
  lv_Title :: string
  lv_Query :: string
  lv_GrandCompany :: string
  lv_ActiveOnly :: bool
  lv_SortBy :: string
  lv_SortOrder :: string
  lv_Characters :: "CharacterRow list"
  lv_TotalCount :: int
  lv_CurrentPage :: int
  lv_TotalPages :: int
  lv_HasPrev :: bool
  lv_HasNext :: bool
  lv_PrevPage :: int
  lv_NextPage :: int

datatype view_data =
    DashboardData DashboardViewData
  | RacesData RacesViewData
  | WorldsData WorldsViewData
  | WorldDetailData WorldDetailViewData
  | ExpansionsData ExpansionsViewData
  | MethodologyData "ExpansionConfig list"
  | ProfileData CharacterProfileViewData
  | ListData CharacterListViewData

record PageData =
  pd_Title :: string
  pd_ActiveNav :: string
  pd_BaseURL :: string
  pd_CanonicalPath :: string
  pd_Description :: string
  pd_SearchQuery :: string
  pd_StatsUpdated :: string
  pd_StatsStale :: bool
  pd_Data :: view_data

record sitemapURL =
  su_Loc :: string
  su_LastMod :: string

section \<open>Responses\<close>

datatype web_body =
    NoBody
  | TextBody string
  | RedirectBody string
  | HtmlBody PageData
  | PartialBody WorldDrilldownData
  | SitemapBody "sitemapURL list"

record web_response =
  wr_status :: nat
  wr_headers :: "string \<rightharpoonup> string"
  wr_body :: web_body

definition http_error :: "string \<Rightarrow> nat \<Rightarrow> (string \<rightharpoonup> string) \<Rightarrow> web_response" where
  "http_error msg code hs =
     \<lparr>wr_status = code, wr_headers = hs(''Content-Type'' \<mapsto> ''text/plain; charset=utf-8'', ''X-Content-Type-Options'' \<mapsto> ''nosniff''),
      wr_body = TextBody (msg @ [CHR 0x0A])\<rparr>"

definition http_redirect :: "string \<Rightarrow> web_response" where
  "http_redirect url =
     \<lparr>wr_status = 302, wr_headers = [''Location'' \<mapsto> url, ''Content-Type'' \<mapsto> ''text/html; charset=utf-8''], wr_body = RedirectBody url\<rparr>"

section \<open>The controller (controller.go)\<close>

record 's UIController =
  ui_svc :: "('s read_ports \<times> Service) option"
  ui_stats :: "answer option"
  ui_baseURL :: string
  ui_pageTemplates :: "string list"
  ui_partialTemplates :: "string list"

definition page_names :: "string list" where
  "page_names = [''templates/dashboard.html'', ''templates/races.html'', ''templates/worlds.html'', ''templates/world_detail.html'',
     ''templates/expansions.html'', ''templates/methodology.html'', ''templates/character.html'', ''templates/characters_list.html'']"

definition partial_names :: "string list" where
  "partial_names = [''templates/partials/world_drilldown.html'', ''templates/partials/search_results.html'']"

definition trim_right_slash :: "string \<Rightarrow> string" where
  "trim_right_slash s = rev (dropWhile (\<lambda>c. c = CHR ''/'') (rev s))"

definition NewUIController :: "('s read_ports \<times> Service) option \<Rightarrow> answer option \<Rightarrow> string \<Rightarrow> 's UIController" where
  "NewUIController svc stats baseURL =
     \<lparr>ui_svc = svc, ui_stats = stats, ui_baseURL = trim_right_slash baseURL, ui_pageTemplates = page_names,
      ui_partialTemplates = partial_names\<rparr>"

definition no_headers :: "string \<rightharpoonup> string" where "no_headers = (\<lambda>_. None)"

definition stats_unavailable :: web_response where
  "stats_unavailable =
     http_error ''Statistics are temporarily unavailable. Please retry shortly.'' 503 (no_headers(''Retry-After'' \<mapsto> ''60''))"

text \<open>FNV-1a with 64 bits, and \<open>%x\<close> of its sum.\<close>

definition fnv64a :: "string \<Rightarrow> u64" where
  "fnv64a s = fold (\<lambda>c h. (xor h (of_char c)) * 1099511628211) s 14695981039346656037"

fun hex_nat :: "nat \<Rightarrow> string" where
  "hex_nat n = (let d = char_of (if n mod 16 < 10 then 48 + n mod 16 else 87 + n mod 16)
                in if n < 16 then [d] else hex_nat (n div 16) @ [d])"

declare hex_nat.simps [simp del]

definition unixNano :: "timestamp \<Rightarrow> int" where
  "unixNano t = i64 (t - 62135596800 * second)"

definition page_etag :: "UIStatsSnapshot \<Rightarrow> web_request \<Rightarrow> string" where
  "page_etag sn r =
     CHR 0x22 # ''ui-'' @ hex_nat (unat (fnv64a (show_int (unixNano (us_GeneratedAt sn)) @ ''|'' @ rq_path r @ ''|''
       @ query_encode (rq_values r) @ ''|'' @ to_lower (rq_header r ''HX-Request'')))) @ [CHR 0x22]"

definition stats_headers :: "UIStatsSnapshot \<Rightarrow> web_request \<Rightarrow> (string \<rightharpoonup> string)" where
  "stats_headers sn r =
     no_headers(''Cache-Control'' \<mapsto> ''public, max-age=60, stale-while-revalidate=300'', ''Vary'' \<mapsto> ''HX-Request, Accept-Encoding'',
       ''ETag'' \<mapsto> page_etag sn r)"

text \<open>\<open>Inl\<close> is a complete response; \<open>Inr\<close> gives the handler the snapshot, its state and the headers set so far.\<close>

definition ui_currentStats :: "'s UIController \<Rightarrow> web_request
    \<Rightarrow> web_response + UIStatsSnapshot \<times> UIStatsState \<times> (string \<rightharpoonup> string)" where
  "ui_currentStats c r =
     (case ui_stats c of
        None \<Rightarrow> Inl stats_unavailable
      | Some (Inl e) \<Rightarrow> Inl stats_unavailable
      | Some (Inr (sn, st)) \<Rightarrow>
          (if rq_header r ''If-None-Match'' = page_etag sn r
           then Inl \<lparr>wr_status = 304, wr_headers = stats_headers sn r, wr_body = NoBody\<rparr>
           else Inr (sn, st, stats_headers sn r)))"

definition statsPageData :: "string \<Rightarrow> string \<Rightarrow> string \<Rightarrow> string \<Rightarrow> UIStatsState \<Rightarrow> view_data \<Rightarrow> PageData" where
  "statsPageData title activeNav canonicalPath description st d =
     \<lparr>pd_Title = title, pd_ActiveNav = activeNav, pd_BaseURL = [], pd_CanonicalPath = canonicalPath, pd_Description = description,
      pd_SearchQuery = [], pd_StatsUpdated = format_day (day_of (ut_GeneratedAt st)) @ '' '' @ format_clock (ut_GeneratedAt st) @ '' UTC'',
      pd_StatsStale = ut_Stale st, pd_Data = d\<rparr>"

definition plainPageData :: "string \<Rightarrow> string \<Rightarrow> view_data \<Rightarrow> PageData" where
  "plainPageData title activeNav d =
     \<lparr>pd_Title = title, pd_ActiveNav = activeNav, pd_BaseURL = [], pd_CanonicalPath = [], pd_Description = [], pd_SearchQuery = [],
      pd_StatsUpdated = [], pd_StatsStale = False, pd_Data = d\<rparr>"

definition render :: "'s UIController \<Rightarrow> nat \<Rightarrow> (string \<rightharpoonup> string) \<Rightarrow> string \<Rightarrow> PageData \<Rightarrow> web_response" where
  "render c status hs pageTemplate d =
     (if pageTemplate \<notin> set (ui_pageTemplates c) then http_error ''Template rendering error'' 500 hs
      else \<lparr>wr_status = status, wr_headers = hs(''Content-Type'' \<mapsto> ''text/html; charset=utf-8''),
            wr_body = HtmlBody (d\<lparr>pd_BaseURL := ui_baseURL c\<rparr>)\<rparr>)"

definition renderPartial :: "'s UIController \<Rightarrow> (string \<rightharpoonup> string) \<Rightarrow> string \<Rightarrow> WorldDrilldownData \<Rightarrow> web_response" where
  "renderPartial c hs partialTemplate d =
     (if partialTemplate \<notin> set (ui_partialTemplates c) then http_error ''Partial rendering error'' 500 hs
      else \<lparr>wr_status = 200, wr_headers = hs(''Content-Type'' \<mapsto> ''text/html; charset=utf-8''), wr_body = PartialBody d\<rparr>)"

definition page_expansions :: "'s UIController \<Rightarrow> ExpansionConfig list" where
  "page_expansions c =
     (case ui_svc c of
        None \<Rightarrow> DefaultExpansions
      | Some (rp, sv) \<Rightarrow> if sv_expansions sv = [] then DefaultExpansions else sv_expansions sv)"

definition Methodology :: "'s UIController \<Rightarrow> web_response" where
  "Methodology c =
     render c 200 no_headers ''templates/methodology.html''
       ((plainPageData ''Methodology'' ''methodology'' (MethodologyData (page_expansions c)))\<lparr>pd_CanonicalPath := ''/ui/methodology'',
          pd_Description := ''How the FFXIV Census builds its statistics: public Lodestone achievements as the activity signal, snapshot refreshes, data sources, and known limitations.''\<rparr>)"

section \<open>The dashboard (dashboard.go)\<close>

text \<open>A Go map built from a list keeps the last value of a key; a missing key reads as 0.\<close>

definition last_count :: "(string \<times> int) list \<Rightarrow> string \<Rightarrow> int" where
  "last_count kvs k = (case map_of (rev kvs) k of Some v \<Rightarrow> v | None \<Rightarrow> 0)"

definition expansion_counts :: "UIStatsSnapshot \<Rightarrow> StatsScope \<Rightarrow> string \<Rightarrow> int" where
  "expansion_counts sn sc = last_count (map (\<lambda>x. (xc_Expansion x, xc_Count x)) (SnapshotExpansions (Some sn) sc))"

definition name_or_unknown :: "string \<Rightarrow> string" where
  "name_or_unknown n = (if n = [] then ''Unknown'' else n)"

definition dashboard_days :: "UIStatsSnapshot \<Rightarrow> string list" where
  "dashboard_days sn = map (\<lambda>i. format_day (day_of (us_GeneratedAt sn) - i)) (rev [0..29])"

definition dashboard_data :: "'s UIController \<Rightarrow> UIStatsSnapshot \<Rightarrow> DashboardViewData" where
  "dashboard_data c sn =
     (let tot = ss_Total (us_Summary sn); active = ss_Active (us_Summary sn);
          maxLevel = (if us_MaxLevel sn = 0 then 100 else us_MaxLevel sn);
          regions = map (\<lambda>g. \<lparr>rg_Region = name_or_unknown (gc_Key g), rg_Total = gc_Total g, rg_Active = gc_Active g,
                         rg_ActiveRatio = formatPercent (gc_Active g) (gc_Total g)\<rparr>) (SnapshotGroups (Some sn) ''region'' global_scope);
          races = filter (\<lambda>g. gc_Key g \<noteq> []) (SnapshotGroups (Some sn) ''race'' global_scope);
          cards = map (\<lambda>e. let n = expansion_counts sn global_scope (ex_Name e)
                           in \<lparr>xd_Icon = ex_Icon e, xd_Name = ex_Name e, xd_Count = n, xd_Percent = formatPercent n tot\<rparr>) (page_expansions c);
          dailyMap = last_count (map (\<lambda>d. (dc_Day d, dc_Count d)) (SnapshotDaily (Some sn) global_scope));
          window = NewCharactersWindow (Some sn) global_scope
      in \<lparr>dv_TotalCharacters = tot, dv_ActiveCharacters = active, dv_ActivePercent = formatPercent active tot,
          dv_MaxLevelCharacters = ss_MaxLevel (us_Summary sn), dv_MaxLevel = maxLevel, dv_NewCharacters30d = nt_Current window,
          dv_NewCharactersTrend = formatTrend (nt_Current window) (nt_Previous window),
          dv_ChartLabels = map (drop 5) (dashboard_days sn), dv_ChartData = map dailyMap (dashboard_days sn),
          dv_Regions = regions, dv_RaceLabels = map gc_Key races, dv_RaceData = map gc_Total races, dv_ExpansionCompletions = cards\<rparr>)"

definition Dashboard :: "'s UIController \<Rightarrow> web_request \<Rightarrow> web_response" where
  "Dashboard c r =
     (case ui_currentStats c r of
        Inl resp \<Rightarrow> resp
      | Inr (sn, st, hs) \<Rightarrow>
          render c 200 hs ''templates/dashboard.html'' (statsPageData ''Dashboard'' ''dashboard'' ''/''
            ''Final Fantasy XIV population census: total characters, active players, race demographics, and 30-day growth trends across every region and datacenter.''
            st (DashboardData (dashboard_data c sn))))"

section \<open>Worlds (world\_data.go, worlds.go)\<close>

definition WorldToDC :: "string \<Rightarrow> string" where
  "WorldToDC world = (if WorldDatacenter world \<noteq> [] then WorldDatacenter world else ''Unknown'')"

definition isIndexableWorld :: "string \<Rightarrow> bool" where
  "isIndexableWorld world = (world \<noteq> [] \<and> RegionForDatacenter (WorldToDC world) \<noteq> [])"

definition world_scope :: "string \<Rightarrow> StatsScope" where
  "world_scope w = global_scope\<lparr>sc_World := w\<rparr>"

definition drilldown_le :: "WorldRow \<Rightarrow> WorldRow \<Rightarrow> bool" where
  "drilldown_le a b =
     (if wr_Datacenter a \<noteq> wr_Datacenter b then str_le (wr_Datacenter a) (wr_Datacenter b) else wr_Total a \<ge> wr_Total b)"

definition drilldown_data :: "UIStatsSnapshot \<Rightarrow> string \<Rightarrow> WorldDrilldownData" where
  "drilldown_data sn rawRegion =
     (let trimmed = trim_space rawRegion;
          region = (if trimmed = [] then ''NA'' else trimmed);
          rows = map (\<lambda>g. let dc = WorldToDC (gc_Key g); reg = name_or_unknown (RegionForDatacenter dc)
                         in \<lparr>wr_Region = reg, wr_Datacenter = dc, wr_World = gc_Key g, wr_Total = gc_Total g, wr_Active = gc_Active g,
                             wr_NewCharacters30d = nt_Current (NewCharactersWindow (Some sn) (world_scope (gc_Key g))),
                             wr_ActiveRatio = formatPercent (gc_Active g) (gc_Total g)\<rparr>) (SnapshotGroups (Some sn) ''world'' global_scope)
      in \<lparr>wl_Region = region,
          wl_Worlds = sort_by drilldown_le
            (filter (\<lambda>w. equal_fold (wr_Region w) region \<or> region = ''Unknown'' \<and> wr_Region w = ''Unknown'') rows)\<rparr>)"

definition WorldDrilldown :: "'s UIController \<Rightarrow> web_request \<Rightarrow> web_response" where
  "WorldDrilldown c r =
     (case ui_currentStats c r of
        Inl resp \<Rightarrow> resp
      | Inr (sn, st, hs) \<Rightarrow> renderPartial c hs ''templates/partials/world_drilldown.html'' (drilldown_data sn (query_get r ''region'')))"

definition share_value :: "int \<Rightarrow> int \<Rightarrow> float64" where
  "share_value n tot = (if tot > 0 then percent n tot else F64 False 0 0)"

definition world_rows :: "UIStatsSnapshot \<Rightarrow> WorldDetailRow list" where
  "world_rows sn =
     map (\<lambda>g. let dc = WorldToDC (gc_Key g)
              in \<lparr>wt_World = gc_Key g, wt_Datacenter = dc, wt_Region = RegionForDatacenter dc, wt_Total = gc_Total g, wt_Active = gc_Active g,
                  wt_ActiveRatio = formatPercent (gc_Active g) (gc_Total g), wt_ActivePctVal = share_value (gc_Active g) (gc_Total g),
                  wt_NewCharacters30d = nt_Current (NewCharactersWindow (Some sn) (world_scope (gc_Key g)))\<rparr>)
       (filter (\<lambda>g. isIndexableWorld (gc_Key g)) (SnapshotGroups (Some sn) ''world'' global_scope))"

definition world_selected :: "string \<Rightarrow> string \<Rightarrow> WorldDetailRow \<Rightarrow> bool" where
  "world_selected region dc w =
     (\<not> (region \<noteq> [] \<and> \<not> equal_fold (wt_Region w) region) \<and> \<not> (dc \<noteq> [] \<and> \<not> equal_fold (wt_Datacenter w) dc))"

definition i64_sum :: "int list \<Rightarrow> int" where
  "i64_sum ns = fold (\<lambda>n acc. i64 (acc + n)) ns 0"

definition worlds_data :: "UIStatsSnapshot \<Rightarrow> string \<Rightarrow> string \<Rightarrow> WorldsViewData" where
  "worlds_data sn rawRegion rawDC =
     (let region = trim_space rawRegion; dc = trim_space rawDC;
          allWorlds = world_rows sn;
          selected = filter (world_selected region dc) allWorlds;
          window = NewCharactersWindow (Some sn) \<lparr>sc_Region = region, sc_Datacenter = dc, sc_World = []\<rparr>
      in \<lparr>wv_TotalCharacters = i64_sum (map wt_Total selected), wv_ActiveCharacters = i64_sum (map wt_Active selected),
          wv_NewCharacters30d = nt_Current window, wv_NewCharactersTrend = formatTrend (nt_Current window) (nt_Previous window),
          wv_SelectedRegion = region, wv_SelectedDC = dc,
          wv_Regions = sort_by str_le (remdups (map wt_Region allWorlds)),
          wv_Datacenters = (if region \<noteq> [] then DatacentersForRegion region else sort_by str_le (remdups (map wt_Datacenter allWorlds))),
          wv_Worlds = sort_by (\<lambda>a b. wt_Total a \<ge> wt_Total b) selected\<rparr>)"

definition UI_Worlds :: "'s UIController \<Rightarrow> web_request \<Rightarrow> web_response" where
  "UI_Worlds c r =
     (case ui_currentStats c r of
        Inl resp \<Rightarrow> resp
      | Inr (sn, st, hs) \<Rightarrow>
          render c 200 hs ''templates/worlds.html'' (statsPageData ''Worlds Census'' ''worlds'' ''/ui/worlds''
            ''Final Fantasy XIV world rankings: total and active character counts for every world and datacenter, with region filters and 30-day activity ratios.''
            st (WorldsData (worlds_data sn (query_get r ''region'') (query_get r ''dc'')))))"

section \<open>Races (races.go)\<close>

definition selected_scope :: "string \<Rightarrow> string \<Rightarrow> string \<Rightarrow> StatsScope" where
  "selected_scope region dc world =
     (if world \<noteq> [] then global_scope\<lparr>sc_World := world\<rparr>
      else if dc \<noteq> [] then global_scope\<lparr>sc_Datacenter := dc\<rparr>
      else if region \<noteq> [] then global_scope\<lparr>sc_Region := region\<rparr>
      else global_scope)"

definition race_row :: "int \<Rightarrow> GroupCount \<Rightarrow> RaceRow" where
  "race_row tot g =
     \<lparr>rr_Race = name_or_unknown (gc_Key g), rr_Total = gc_Total g, rr_Active = gc_Active g,
      rr_ActiveRatio = formatPercent (gc_Active g) (gc_Total g), rr_ShareOfTotal = formatPercent (gc_Total g) tot,
      rr_SharePercentVal = share_value (gc_Total g) tot\<rparr>"

definition group_chart :: "GroupCount list \<Rightarrow> (string \<times> int) list" where
  "group_chart gs = map (\<lambda>g. (gc_Key g, gc_Total g)) (filter (\<lambda>g. gc_Key g \<noteq> []) gs)"

definition race_title :: "string \<Rightarrow> string \<Rightarrow> string \<Rightarrow> string" where
  "race_title region dc world =
     (if world \<noteq> [] then ''Race & Clan Demographics - '' @ world
      else if dc \<noteq> [] then ''Race & Clan Demographics - '' @ dc @ '' DC''
      else if region \<noteq> [] then ''Race & Clan Demographics - '' @ region
      else ''Race & Clan Demographics'')"

definition races_data :: "UIStatsSnapshot \<Rightarrow> string \<Rightarrow> string \<Rightarrow> string \<Rightarrow> RacesViewData" where
  "races_data sn region dc world =
     (let scope = selected_scope region dc world;
          window = NewCharactersWindow (Some sn) scope;
          races = SnapshotGroups (Some sn) ''race'' scope;
          tot = i64_sum (map gc_Total races)
      in \<lparr>rv_TotalCharacters = tot, rv_ActiveCharacters = i64_sum (map gc_Active races),
          rv_NewCharacters30d = nt_Current window, rv_NewCharactersTrend = formatTrend (nt_Current window) (nt_Previous window),
          rv_SelectedRegion = region, rv_SelectedDC = dc, rv_SelectedWorld = world, rv_Regions = [''NA'', ''EU'', ''JP'', ''OCE''],
          rv_Datacenters = (if region \<noteq> [] then DatacentersForRegion region else sort_by str_le Datacenters),
          rv_Worlds = (if dc \<noteq> [] then WorldsForDatacenter dc
                       else if region \<noteq> [] then sort_by str_le (concat (map WorldsForDatacenter (DatacentersForRegion region)))
                       else sort_by str_le Worlds),
          rv_Races = map (race_row tot) races,
          rv_Chart = map (\<lambda>g. (name_or_unknown (gc_Key g), gc_Total g)) races,
          rv_Tribe = group_chart (SnapshotGroups (Some sn) ''tribe'' scope),
          rv_Gender = map (\<lambda>g. (gc_Key g, gc_Total g)) (SnapshotGroups (Some sn) ''gender'' scope),
          rv_RaceGender = group_chart (SnapshotGroups (Some sn) ''race_gender'' scope)\<rparr>)"

definition Races :: "'s UIController \<Rightarrow> web_request \<Rightarrow> web_response" where
  "Races c r =
     (case ui_currentStats c r of
        Inl resp \<Rightarrow> resp
      | Inr (sn, st, hs) \<Rightarrow>
          (let region = trim_space (query_get r ''region''); dc = trim_space (query_get r ''dc''); world = trim_space (query_get r ''world'')
           in render c 200 hs ''templates/races.html'' (statsPageData (race_title region dc world) ''races'' ''/ui/races''
                ''Race and clan demographics for Final Fantasy XIV: population shares, active ratios, and tribe and gender breakdowns filterable by region, datacenter, and world.''
                st (RacesData (races_data sn region dc world)))))"

section \<open>One world (world\_detail.go)\<close>

definition detail_counts :: "UIStatsSnapshot \<Rightarrow> string \<Rightarrow> int \<times> int" where
  "detail_counts sn world =
     (case find (\<lambda>g. equal_fold (gc_Key g) world) (SnapshotGroups (Some sn) ''world'' global_scope) of
        Some g \<Rightarrow> (gc_Total g, gc_Active g)
      | None \<Rightarrow> (0, 0))"

definition world_detail_data :: "'s UIController \<Rightarrow> UIStatsSnapshot \<Rightarrow> string \<Rightarrow> WorldDetailViewData" where
  "world_detail_data c sn world =
     (let tot = fst (detail_counts sn world); active = snd (detail_counts sn world);
          scope = world_scope world;
          window = NewCharactersWindow (Some sn) scope;
          timeline = filter (\<lambda>d. str_le (nt_StartDay window) (dc_Day d)) (SnapshotDaily (Some sn) scope);
          dc = WorldToDC world;
          races = SnapshotGroups (Some sn) ''race'' scope;
          msq = map (\<lambda>e. let n = expansion_counts sn scope (ex_Name e)
                         in \<lparr>mr_Expansion = ex_Name e, mr_Count = n, mr_PercentTotal = (if tot > 0 then formatPercent n tot else ''0.0%'')\<rparr>)
                  (page_expansions c)
      in \<lparr>wp_World = world, wp_Datacenter = dc, wp_Region = name_or_unknown (RegionForDatacenter dc),
          wp_TotalCharacters = tot, wp_ActiveCharacters = active, wp_ActiveRatio = formatPercent active tot,
          wp_ActivePercentVal = share_value active tot, wp_NewCharacters30d = nt_Current window,
          wp_NewCharactersTrend = formatTrend (nt_Current window) (nt_Previous window),
          wp_Races = sort_by (\<lambda>a b. rr_Total a \<ge> rr_Total b) (map (race_row tot) races),
          wp_MSQCompletions = msq, wp_NewCharactersTimeline = timeline,
          wp_RaceChart = map (\<lambda>g. (name_or_unknown (gc_Key g), gc_Total g)) races,
          wp_MSQChart = map (\<lambda>m. (mr_Expansion m, mr_Count m)) msq,
          wp_TimelineChart = map (\<lambda>d. (dc_Day d, dc_Count d)) timeline\<rparr>)"

definition UI_WorldDetail :: "'s UIController \<Rightarrow> web_request \<Rightarrow> web_response" where
  "UI_WorldDetail c r =
     (let world = trim_space (rq_pathValue r ''world'')
      in if world = [] then http_redirect ''/ui/worlds''
         else (case ui_currentStats c r of
                 Inl resp \<Rightarrow> resp
               | Inr (sn, st, hs) \<Rightarrow>
                   render c 200 hs ''templates/world_detail.html''
                     (statsPageData (world @ '' - World Demographics'') ''worlds'' (''/ui/worlds/'' @ world)
                       (''Character population for the FFXIV world '' @ world
                        @ '': active players, race demographics, MSQ completions, and new characters over the last 30 days.'')
                       st (WorldDetailData (world_detail_data c sn world)))))"

section \<open>Expansions (expansions.go)\<close>

text \<open>The loop carries the count of the previous expansion, \<open>-1\<close> before the first.\<close>

definition retention_texts :: "int \<Rightarrow> int \<Rightarrow> string \<times> string" where
  "retention_texts prevCount n =
     (if prevCount > 0
      then (let retPct = percent n prevCount; dropPct = f_sub f_100 retPct
            in (show_1f retPct @ ''%'', show_1f (if f_less_zero dropPct then F64 False 0 0 else dropPct) @ ''%''))
      else if prevCount = 0 then (''0.0%'', ''100.0%'')
      else (''-'', ''-''))"

fun progressions :: "UIStatsSnapshot \<Rightarrow> int \<Rightarrow> ExpansionConfig list \<Rightarrow> ExpansionProgression list" where
  "progressions sn prevCount [] = []"
| "progressions sn prevCount (e # es) =
     (let n = expansion_counts sn global_scope (ex_Name e); tot = ss_Total (us_Summary sn)
      in \<lparr>ep_Name = ex_Name e, ep_Version = ex_Version e, ep_FinalQuest = ex_FinalQuest e, ep_Icon = ex_Icon e, ep_Completions = n,
          ep_PercentOfTotal = formatPercent n tot, ep_PercentValue = share_value n tot,
          ep_RetentionRate = fst (retention_texts prevCount n), ep_DropOffRate = snd (retention_texts prevCount n)\<rparr>
         # progressions sn n es)"

definition UI_Expansions :: "'s UIController \<Rightarrow> web_request \<Rightarrow> web_response" where
  "UI_Expansions c r =
     (case ui_currentStats c r of
        Inl resp \<Rightarrow> resp
      | Inr (sn, st, hs) \<Rightarrow>
          render c 200 hs ''templates/expansions.html'' (statsPageData ''Expansion Progression'' ''expansions'' ''/ui/expansions''
            ''Main scenario quest completion rates for every Final Fantasy XIV expansion from A Realm Reborn to Dawntrail, with retention and drop-off metrics.''
            st (ExpansionsData \<lparr>ev_TotalCharacters = ss_Total (us_Summary sn), ev_Expansions = progressions sn (- 1) (page_expansions c)\<rparr>)))"

section \<open>The sitemap (sitemap.go)\<close>

definition sitemapStaticPaths :: "string list" where
  "sitemapStaticPaths = [''/'', ''/ui/races'', ''/ui/worlds'', ''/ui/expansions'', ''/ui/methodology'']"

definition Sitemap :: "'s UIController \<Rightarrow> web_response" where
  "Sitemap c =
     (let (lastmod, worldPaths) =
        (case ui_stats c of
           Some (Inr (sn, st)) \<Rightarrow>
             (rfc3339 (us_GeneratedAt sn),
              map (\<lambda>g. ''/ui/worlds/'' @ gc_Key g)
                (filter (\<lambda>g. isIndexableWorld (gc_Key g)) (SnapshotGroups (Some sn) ''world'' global_scope)))
         | _ \<Rightarrow> ([], []))
      in \<lparr>wr_status = 200, wr_headers = no_headers(''Content-Type'' \<mapsto> ''application/xml; charset=utf-8''),
          wr_body = SitemapBody (map (\<lambda>path. \<lparr>su_Loc = ui_baseURL c @ path, su_LastMod = lastmod\<rparr>) (sitemapStaticPaths @ worldPaths))\<rparr>)"

section \<open>Characters (character.go)\<close>

text \<open>These handlers are complete but not routed: the routes are disabled to protect the players.\<close>

definition job_categories :: "(string \<times> string \<times> string list) list" where
  "job_categories =
     [(''Tank'', ''tank'', [''Paladin'', ''Warrior'', ''Dark Knight'', ''Gunbreaker'']),
      (''Healer'', ''healer'', [''White Mage'', ''Scholar'', ''Astrologian'', ''Sage'']),
      (''Melee DPS'', ''melee'', [''Monk'', ''Dragoon'', ''Ninja'', ''Samurai'', ''Reaper'', ''Viper'']),
      (''Physical Ranged DPS'', ''phys_ranged'', [''Bard'', ''Machinist'', ''Dancer'']),
      (''Magic Ranged DPS'', ''magic_ranged'', [''Black Mage'', ''Summoner'', ''Red Mage'', ''Pictomancer'', ''Blue Mage'']),
      (''Disciples of the Hand (Crafters)'', ''crafter'',
        [''Carpenter'', ''Blacksmith'', ''Armorer'', ''Goldsmith'', ''Leatherworker'', ''Weaver'', ''Alchemist'', ''Culinarian'']),
      (''Disciples of the Land (Gatherers)'', ''gatherer'', [''Miner'', ''Botanist'', ''Fisher''])]"

definition buildJobGroups :: "ClassJobRecord list \<Rightarrow> u32 \<Rightarrow> JobGroup list" where
  "buildJobGroups jobs maxLevel =
     (let jobMap = map_of (rev (map (\<lambda>j. (trim_space (cj_Name j), j)) jobs))
      in map (\<lambda>(title, key, names).
           \<lparr>jg_RoleTitle = title, jg_RoleKey = key,
            jg_Jobs = map (\<lambda>n. let lvl = (case jobMap n of Some j \<Rightarrow> cj_Level j | None \<Rightarrow> 0);
                                   expl = (case jobMap n of Some j \<Rightarrow> cj_ExpLevel j | None \<Rightarrow> 0)
                               in \<lparr>jb_Name = n, jb_Level = lvl, jb_ExpLevel = expl, jb_MaxLevel = (ucast lvl \<ge> maxLevel \<and> lvl > 0), jb_RoleKey = key\<rparr>)
                        names\<rparr>) job_categories)"

definition male_sign :: string where "male_sign = [CHR 0xE2, CHR 0x99, CHR 0x82]"

definition female_sign :: string where "female_sign = [CHR 0xE2, CHR 0x99, CHR 0x80]"

definition gender_text :: "u8 \<Rightarrow> string" where
  "gender_text g = (if g = 1 then ''Male '' @ male_sign else if g = 2 then ''Female '' @ female_sign else ''Unknown'')"

definition zero_character :: CharacterRecord where
  "zero_character =
     \<lparr>cr_ID = 0, cr_Name = [], cr_World = [], cr_Datacenter = [], cr_Region = [], cr_Race = [], cr_Tribe = [], cr_Gender = 0,
      cr_GrandCompany = [], cr_FreeCompanyID = None, cr_FreeCompanyName = None, cr_Bio = [], cr_ActiveJob = [], cr_ItemLevel = 0,
      cr_AchievementsPrivate = False, cr_LatestAchievementID = None, cr_LatestAchievementAt = None, cr_FirstSeenAt = 0,
      cr_LastCensusAt = None, cr_DeletedAt = None\<rparr>"

definition shown_active :: "timestamp \<Rightarrow> ('s read_ports \<times> Service) option \<Rightarrow> CharacterRecord \<Rightarrow> bool" where
  "shown_active now svc rec =
     (case (cr_LatestAchievementAt rec, svc) of (Some t, Some (rp, sv)) \<Rightarrow> IsActive sv now t | _ \<Rightarrow> False)"

definition milestone_display :: "MilestoneAchievement list \<Rightarrow> CharacterMilestone \<Rightarrow> MilestoneDisplay" where
  "milestone_display ms cm =
     (case map_of (rev (map (\<lambda>m. (ma_AchievementID m, m)) ms)) (cm_AchievementID cm) of
        None \<Rightarrow> \<lparr>mi_AchievementID = cm_AchievementID cm, mi_Kind = [], mi_Expansion = [], mi_Detail = [], mi_AchievedAt = cm_AchievedAt cm\<rparr>
      | Some m \<Rightarrow> \<lparr>mi_AchievementID = cm_AchievementID cm, mi_Kind = ma_Kind m,
                   mi_Expansion = (case ma_Expansion m of None \<Rightarrow> [] | Some e \<Rightarrow> e), mi_Detail = ma_Detail m, mi_AchievedAt = cm_AchievedAt cm\<rparr>)"

definition profile_data :: "timestamp \<Rightarrow> ('s read_ports \<times> Service) option \<Rightarrow> CharacterDetail \<Rightarrow> CharacterProfileViewData" where
  "profile_data now svc d =
     (let maxLevel = (case svc of Some (rp, sv) \<Rightarrow> if sv_maxLevel sv > 0 then sv_maxLevel sv else 100 | None \<Rightarrow> 100);
          configured = (case svc of Some (rp, sv) \<Rightarrow> Milestones sv | None \<Rightarrow> []);
          allMilestones = (if configured = [] then DefaultMilestones else configured)
      in \<lparr>pv_Character = cd_Character d, pv_GenderText = gender_text (cr_Gender (cd_Character d)),
          pv_IsActive = shown_active now svc (cd_Character d), pv_JobGroups = buildJobGroups (cd_Jobs d) maxLevel,
          pv_Milestones = sort_by (\<lambda>a b. mi_AchievedAt a \<ge> mi_AchievedAt b) (map (milestone_display allMilestones) (cd_Milestones d)),
          pv_MaxLevel = maxLevel\<rparr>)"

definition UI_CharacterDetail :: "timestamp \<Rightarrow> 's UIController \<Rightarrow> web_request \<Rightarrow> 's \<Rightarrow> web_response" where
  "UI_CharacterDetail now c r s =
     (let idStr = (if rq_pathValue r ''id'' = [] then query_get r ''id'' else rq_pathValue r ''id'')
      in case parse_uint32 idStr of
           None \<Rightarrow> http_error ''Invalid character ID'' 400 no_headers
         | Some i \<Rightarrow>
             if i = 0 then http_error ''Invalid character ID'' 400 no_headers
             else (case (case ui_svc c of None \<Rightarrow> Inr None | Some (rp, sv) \<Rightarrow> Service_CharacterDetail rp i s) of
                     Inl e \<Rightarrow> http_error ''Database error'' 500 no_headers
                   | Inr None \<Rightarrow>
                       render c 404 no_headers ''templates/character.html'' (plainPageData ''Character Not Found'' ''characters''
                         (ProfileData \<lparr>pv_Character = zero_character\<lparr>cr_ID := i\<rparr>, pv_GenderText = [], pv_IsActive = False, pv_JobGroups = [],
                            pv_Milestones = [], pv_MaxLevel = 0\<rparr>))
                   | Inr (Some d) \<Rightarrow>
                       render c 200 no_headers ''templates/character.html'' (plainPageData (cr_Name (cd_Character d)) ''characters''
                         (ProfileData (profile_data now (ui_svc c) d)))))"

text \<open>\<open>%q\<close> for text whose runes beyond ASCII are printable.\<close>

definition quote_char :: "char \<Rightarrow> string" where
  "quote_char c =
     (let n = (of_char c :: nat)
      in if c \<in> {CHR 0x22, CHR 0x5C} then [CHR 0x5C, c]
         else if n = 7 then CHR 0x5C # ''a'' else if n = 8 then CHR 0x5C # ''b'' else if n = 9 then CHR 0x5C # ''t''
         else if n = 10 then CHR 0x5C # ''n'' else if n = 11 then CHR 0x5C # ''v'' else if n = 12 then CHR 0x5C # ''f''
         else if n = 13 then CHR 0x5C # ''r''
         else if n < 32 \<or> n = 127 then CHR 0x5C # ''x'' @ pad 2 (hex_nat n) else [c])"

definition go_quote :: "string \<Rightarrow> string" where
  "go_quote s = CHR 0x22 # concat (map quote_char s) @ [CHR 0x22]"

definition page_number :: "string \<Rightarrow> int" where
  "page_number p = (case atoi p of Some n \<Rightarrow> if n > 0 then n else 1 | None \<Rightarrow> 1)"

definition total_pages :: "int \<Rightarrow> int" where
  "total_pages tot = (let n = go_div (i64 (i64 (tot + 30) - 1)) 30 in if n = 0 then 1 else n)"

definition directory_row :: "timestamp \<Rightarrow> ('s read_ports \<times> Service) option \<Rightarrow> CharacterRecord \<Rightarrow> CharacterRow" where
  "directory_row now svc ch =
     \<lparr>cw_ID = cr_ID ch, cw_Name = cr_Name ch, cw_World = cr_World ch, cw_Datacenter = cr_Datacenter ch, cw_Region = cr_Region ch,
      cw_Race = cr_Race ch, cw_Tribe = cr_Tribe ch, cw_GrandCompany = cr_GrandCompany ch,
      cw_FreeCompanyName = (case cr_FreeCompanyName ch of None \<Rightarrow> [] | Some n \<Rightarrow> n), cw_IsActive = shown_active now svc ch,
      cw_DeletedAt = cr_DeletedAt ch\<rparr>"

definition directory_filter :: "timestamp \<Rightarrow> ('s read_ports \<times> Service) option \<Rightarrow> query \<Rightarrow> CharacterFilter" where
  "directory_filter now svc q =
     (let qName = (if trim_space (q ''q'') = [] then trim_space (q ''name'') else trim_space (q ''q''));
          activeOnly = (q ''active'' = ''true'' \<or> q ''active'' = ''1'')
      in no_filter\<lparr>cf_Name := qName, cf_GrandCompany := trim_space (q ''grand_company''), cf_ActiveOnly := activeOnly,
           cf_SortBy := q ''sort_by'', cf_SortOrder := q ''sort_order'',
           cf_Since := (case svc of Some (rp, sv) \<Rightarrow> if activeOnly then Some (activitySince sv now) else None | None \<Rightarrow> None)\<rparr>)"

definition directory_data :: "timestamp \<Rightarrow> ('s read_ports \<times> Service) option \<Rightarrow> query \<Rightarrow> 's \<Rightarrow> CharacterListViewData" where
  "directory_data now svc q s =
     (let page = page_number (q ''page'');
          f = directory_filter now svc q;
          (chars, tot) = (case svc of
             None \<Rightarrow> ([], 0)
           | Some (rp, sv) \<Rightarrow> (case ListCharacters rp f 30 (i64 ((page - 1) * 30)) s of Inl e \<Rightarrow> ([], 0) | Inr (cs, n) \<Rightarrow> (cs, n)));
          pages = total_pages tot;
          title = (if cf_Name f = [] then ''Character Directory'' else ''Search: '' @ go_quote (cf_Name f))
      in \<lparr>lv_Title = title, lv_Query = cf_Name f, lv_GrandCompany = cf_GrandCompany f, lv_ActiveOnly = cf_ActiveOnly f,
          lv_SortBy = cf_SortBy f, lv_SortOrder = cf_SortOrder f, lv_Characters = map (directory_row now svc) chars, lv_TotalCount = tot,
          lv_CurrentPage = page, lv_TotalPages = pages, lv_HasPrev = (page > 1), lv_HasNext = (page < pages),
          lv_PrevPage = i64 (page - 1), lv_NextPage = i64 (page + 1)\<rparr>)"

definition UI_CharacterList :: "timestamp \<Rightarrow> 's UIController \<Rightarrow> web_request \<Rightarrow> 's \<Rightarrow> web_response" where
  "UI_CharacterList now c r s =
     (let d = directory_data now (ui_svc c) (query_get r) s
      in render c 200 no_headers ''templates/characters_list.html''
           ((plainPageData (lv_Title d) ''characters'' (ListData d))\<lparr>pd_SearchQuery := lv_Query d\<rparr>))"

definition UI_CharacterSearch :: "timestamp \<Rightarrow> 's UIController \<Rightarrow> web_request \<Rightarrow> 's \<Rightarrow> web_response" where
  "UI_CharacterSearch now c r s =
     (let q = trim_space (query_get r ''q'')
      in if q = [] then http_redirect ''/ui/characters''
         else if parse_uint32 q \<noteq> None then http_redirect (''/ui/characters/'' @ q)
         else UI_CharacterList now c r s)"

section \<open>Routes (routes.go)\<close>

datatype ui_route = RDashboard | RWorldDrilldown | RRaces | RWorldDetail | RWorlds | RExpansions | RMethodology | RSitemap

definition ui_routes :: "(string \<times> ui_route) list" where
  "ui_routes =
     [(''GET /{$}'', RDashboard), (''GET /ui/dashboard'', RDashboard), (''GET /ui/partials/world-breakdown'', RWorldDrilldown),
      (''GET /ui/races'', RRaces), (''GET /ui/worlds/{world}'', RWorldDetail), (''GET /ui/worlds'', RWorlds),
      (''GET /ui/expansions'', RExpansions), (''GET /ui/methodology'', RMethodology), (''GET /sitemap.xml'', RSitemap)]"

fun ui_serve :: "ui_route \<Rightarrow> 's UIController \<Rightarrow> web_request \<Rightarrow> web_response" where
  "ui_serve RDashboard c r = Dashboard c r"
| "ui_serve RWorldDrilldown c r = WorldDrilldown c r"
| "ui_serve RRaces c r = Races c r"
| "ui_serve RWorldDetail c r = UI_WorldDetail c r"
| "ui_serve RWorlds c r = UI_Worlds c r"
| "ui_serve RExpansions c r = UI_Expansions c r"
| "ui_serve RMethodology c r = Methodology c"
| "ui_serve RSitemap c r = Sitemap c"

end
