(* ===== verification/Calendar.thy ===== *)
theory Calendar
  imports UI_Stats
begin

text \<open>
  The dates of the statistics. Days are stored and exchanged as strings of the layout 2006-01-02; the snapshot readers, the
  export and the charts of the dashboard match them with day numbers. Printing a day of the years 1 to 9999 and parsing
  it gives the day back, and two strings that parse to the same day are equal.
\<close>

section \<open>The 400-year cycle\<close>

text \<open>A day of the cycle is \<open>c\<close> centuries, \<open>b\<close> four-year groups, \<open>a\<close> years and \<open>r\<close> days after March 1 of year 0.\<close>

lemma cycle_parts:
  assumes "0 \<le> doe" "doe < (146097 :: int)"
  obtains c b a r where "doe = 36524 * c + 1461 * b + 365 * a + r" "0 \<le> c" "c \<le> 3" "0 \<le> b" "b \<le> 24" "0 \<le> a" "a \<le> 3"
    "0 \<le> r" "r \<le> 365" "r = 365 \<longrightarrow> a = 3 \<and> (b = 24 \<longrightarrow> c = 3)"
proof -
  define c where "c = min 3 (doe div 36524)"
  define r1 where "r1 = doe - 36524 * c"
  define b where "b = r1 div 1461"
  define r2 where "r2 = r1 - 1461 * b"
  define a where "a = min 3 (r2 div 365)"
  define r where "r = r2 - 365 * a"
  have c: "0 \<le> c" "c \<le> 3" "0 \<le> r1" "r1 \<le> 36524" "c < 3 \<Longrightarrow> r1 < 36524" using assms by (auto simp: c_def r1_def min_def)
  have b: "0 \<le> b" "b \<le> 24" "0 \<le> r2" "r2 \<le> 1460" using c by (auto simp: b_def r2_def)
  have a: "0 \<le> a" "a \<le> 3" "0 \<le> r" "r \<le> 365" "a < 3 \<Longrightarrow> r < 365" using b by (auto simp: a_def r_def min_def)
  have g: "r1 < 36524 \<Longrightarrow> b = 24 \<Longrightarrow> r2 < 1460" by (simp add: r2_def)
  have "r = 365 \<Longrightarrow> a = 3" using a(2,5) by linarith
  moreover have "r = 365 \<Longrightarrow> b = 24 \<Longrightarrow> c = 3" using g a(2,5) c(2,5) r_def by linarith
  ultimately have "r = 365 \<longrightarrow> a = 3 \<and> (b = 24 \<longrightarrow> c = 3)" by blast
  moreover have "doe = 36524 * c + 1461 * b + 365 * a + r" by (simp add: r_def r2_def r1_def)
  ultimately show thesis using that a b c by blast
qed

definition cycle_year :: "int \<Rightarrow> int" where
  "cycle_year doe = (doe - doe div 1460 + doe div 36524 - doe div 146096) div 365"

lemma cycle_year_parts:
  assumes "doe = 36524 * c + 1461 * b + 365 * a + r" "0 \<le> c" "c \<le> 3" "0 \<le> b" "b \<le> 24" "0 \<le> a" "a \<le> 3" "0 \<le> r" "r \<le> (365 :: int)"
    "r = 365 \<longrightarrow> a = 3 \<and> (b = 24 \<longrightarrow> c = 3)"
  shows "cycle_year doe = 100 * c + 4 * b + a"
proof -
  define t where "t = (24 * c + b + 365 * a + r) div 1460"
  have t: "doe div 1460 = 25 * c + b + t"
  proof -
    have "doe = 24 * c + b + 365 * a + r + (25 * c + b) * 1460" using assms(1) by simp
    then show ?thesis unfolding t_def by (simp only: div_mult_self1)
  qed
  have tr: "0 \<le> r - t" "r - t \<le> 364" using assms unfolding t_def by (cases "r = 365"; cases "r = 0"; linarith)+
  define u where "u = (1461 * b + 365 * a + r) div 36524"
  have u: "doe div 36524 = c + u"
  proof -
    have "doe = 1461 * b + 365 * a + r + c * 36524" using assms(1) by simp
    then show ?thesis unfolding u_def by (simp only: div_mult_self1)
  qed
  have "doe div 146096 = u"
  proof (cases "a = 3 \<and> b = 24 \<and> c = 3 \<and> r = 365")
    case True
    then show ?thesis using assms(1) by (simp add: u_def)
  next
    case False
    have "1461 * b + 365 * a + r < 36524" using False assms(2-10) by (cases "b = 24"; cases "a = 3"; cases "r = 365"; simp)
    moreover from this have "doe < 146096" using assms(1,3) by linarith
    ultimately show ?thesis using assms unfolding u_def by (simp add: div_pos_pos_trivial)
  qed
  then have "doe - doe div 1460 + doe div 36524 - doe div 146096 = (r - t) + (100 * c + 4 * b + a) * 365"
    using t u assms(1) by simp
  then have "cycle_year doe = ((r - t) + (100 * c + 4 * b + a) * 365) div 365" by (simp only: cycle_year_def)
  also have "\<dots> = 100 * c + 4 * b + a" using tr by (simp add: div_pos_pos_trivial)
  finally show ?thesis .
qed

text \<open>The year of the cycle counted from March, and the day in it.\<close>

lemma cycle_day:
  assumes "0 \<le> doe" "doe < 146097"
  defines "Y \<equiv> cycle_year doe"
  defines "doy \<equiv> doe - (365 * Y + Y div 4 - Y div 100)"
  shows "0 \<le> Y" "Y < 400" "0 \<le> doy" "doy \<le> 365" "doy = 365 \<Longrightarrow> leap_year (Y + 1)"
proof -
  obtain c b a r where p: "doe = 36524 * c + 1461 * b + 365 * a + r" "0 \<le> c" "c \<le> 3" "0 \<le> b" "b \<le> 24" "0 \<le> a" "a \<le> 3"
    "0 \<le> r" "r \<le> 365" "r = 365 \<longrightarrow> a = 3 \<and> (b = 24 \<longrightarrow> c = 3)" using cycle_parts [OF assms(1,2)] .
  have Y: "Y = 100 * c + 4 * b + a" unfolding Y_def by (rule cycle_year_parts [OF p])
  have d: "Y div 4 = 25 * c + b" "Y div 100 = c" using p unfolding Y by linarith+
  have doy: "doy = r" unfolding doy_def d unfolding Y p(1) by simp
  show "0 \<le> Y" "Y < 400" "0 \<le> doy" "doy \<le> 365" using p Y doy by simp_all
  assume "doy = 365"
  then have y: "Y + 1 = 100 * c + 4 * (b + 1)" "b = 24 \<longrightarrow> c = 3" using p Y doy by auto
  have "(4 * (b + 1) + c * 100) mod 100 = 4 * (b + 1)" if "b \<noteq> 24" using p(4,5) that unfolding mod_mult_self1 by simp
  moreover have "(100 * c + 4 * (b + 1)) mod 4 = 0" by simp
  ultimately have l: "(Y + 1) mod 4 = 0" "b \<noteq> 24 \<Longrightarrow> (Y + 1) mod 100 = 4 * (b + 1)" "b = 24 \<Longrightarrow> Y + 1 = 400"
    unfolding y(1) using y(2) by (simp_all add: add.commute mult.commute)
  show "leap_year (Y + 1)"
  proof (cases "b = 24")
    case True
    then show ?thesis using l(3) by (simp add: leap_year_def)
  next
    case False
    then show ?thesis using l(1,2) p(4) by (simp add: leap_year_def)
  qed
qed

section \<open>Months\<close>

lemma pred_div: "0 < k \<Longrightarrow> (y - 1) div k = y div k - (if y mod k = 0 then 1 else (0 :: int))"
proof -
  assume k: "0 < k"
  define q r where "q = y div k" and "r = y mod k"
  have y: "y = k * q + r" "0 \<le> r" "r < k" using k by (simp_all add: q_def r_def)
  have "(y - 1) div k = (if r = 0 then q - 1 else q)"
  proof (rule int_div_pos_eq [where r = "if r = 0 then k - 1 else r - 1"])
    show "y - 1 = k * (if r = 0 then q - 1 else q) + (if r = 0 then k - 1 else r - 1)" using y by (simp add: algebra_simps)
  qed (use y k in auto)
  then show ?thesis by (simp add: q_def r_def)
qed

lemma leap_count:
  "(y - 1) div 4 - (y - 1) div 100 + (y - 1) div 400 + (if leap_year y then 1 else 0) = y div 4 - y div 100 + y div 400"
proof -
  have "y mod 400 = 0 \<Longrightarrow> y mod 100 = 0" "y mod 100 = 0 \<Longrightarrow> y mod 4 = 0"
    unfolding mod_eq_0_iff_dvd by (auto elim: dvd_trans [rotated])
  then show ?thesis by (auto simp: pred_div leap_year_def)
qed

lemma days_before_Suc: "1 \<le> m \<Longrightarrow> days_before y (m + 1) = days_before y m + days_in y m"
  by (simp add: days_before_def upto_rec2 [of 1 m])

lemma days_before_winter: "days_before y 1 = 365 * (y - 1) + (y - 1) div 4 - (y - 1) div 100 + (y - 1) div 400"
  "days_before y 2 = days_before y 1 + 31"
  using days_before_Suc [of 1 y] by (simp_all add: days_before_def Let_def days_in_def)

lemma days_before_march:
  assumes "3 \<le> m" "m \<le> 12"
  shows "days_before y m = 365 * y + y div 4 - y div 100 + y div 400 - 306 + (153 * (m - 3) + 2) div 5"
proof -
  define b where "b = days_before y 3"
  have w: "365 * y + y div 4 - y div 100 + y div 400 - 306 = b"
    using leap_count [of y] days_before_Suc [of 2 y] days_before_winter [of y]
    by (cases "leap_year y") (simp_all add: b_def days_in_def)
  have "days_before y 4 = b + 31" using days_before_Suc [of 3 y] by (simp add: b_def days_in_def)
  moreover from this have "days_before y 5 = b + 61" using days_before_Suc [of 4 y] by (simp add: days_in_def)
  moreover from this have "days_before y 6 = b + 92" using days_before_Suc [of 5 y] by (simp add: days_in_def)
  moreover from this have "days_before y 7 = b + 122" using days_before_Suc [of 6 y] by (simp add: days_in_def)
  moreover from this have "days_before y 8 = b + 153" using days_before_Suc [of 7 y] by (simp add: days_in_def)
  moreover from this have "days_before y 9 = b + 184" using days_before_Suc [of 8 y] by (simp add: days_in_def)
  moreover from this have "days_before y 10 = b + 214" using days_before_Suc [of 9 y] by (simp add: days_in_def)
  moreover from this have "days_before y 11 = b + 245" using days_before_Suc [of 10 y] by (simp add: days_in_def)
  moreover from this have "days_before y 12 = b + 275" using days_before_Suc [of 11 y] by (simp add: days_in_def)
  moreover have "m = 3 \<or> m = 4 \<or> m = 5 \<or> m = 6 \<or> m = 7 \<or> m = 8 \<or> m = 9 \<or> m = 10 \<or> m = 11 \<or> m = 12" using assms by arith
  ultimately show ?thesis unfolding w by (elim disjE) (simp_all add: b_def)
qed

lemma march_month:
  fixes doy :: int
  assumes "0 \<le> doy" "doy \<le> 365"
  defines "mp \<equiv> (5 * doy + 2) div 153"
  defines "d \<equiv> doy - (153 * mp + 2) div 5 + 1"
  shows "0 \<le> mp" "mp \<le> 11" "1 \<le> d" "d \<le> 31" "mp \<in> {1, 3, 6, 8} \<Longrightarrow> d \<le> 30" "mp = 11 \<Longrightarrow> d = doy - 336 \<and> d \<le> 29"
proof -
  show mp: "0 \<le> mp" "mp \<le> 11" using assms(1,2) by (simp_all add: mp_def)
  have b: "153 * mp \<le> 5 * doy + 2" "5 * doy + 2 < 153 * mp + 153" unfolding mp_def by linarith+
  have "mp = 0 \<or> mp = 1 \<or> mp = 2 \<or> mp = 3 \<or> mp = 4 \<or> mp = 5 \<or> mp = 6 \<or> mp = 7 \<or> mp = 8 \<or> mp = 9 \<or> mp = 10 \<or> mp = 11"
    using mp by arith
  then show "1 \<le> d" "d \<le> 31" "mp \<in> {1, 3, 6, 8} \<Longrightarrow> d \<le> 30" "mp = 11 \<Longrightarrow> d = doy - 336 \<and> d \<le> 29"
    using b assms(2) unfolding d_def by (elim disjE; simp)+
qed

section \<open>Dates as text\<close>

lemma show_nat_length: "n < 10 ^ k \<Longrightarrow> 0 < k \<Longrightarrow> length (show_nat n) \<le> k"
proof (induction k arbitrary: n)
  case (Suc k)
  show ?case
  proof (cases "n < 10")
    case True
    then show ?thesis by (subst show_nat.simps) simp
  next
    case False
    then have "k \<noteq> 0" using Suc(2) by (cases k) auto
    moreover have "n div 10 < 10 ^ k" using Suc(2) by (simp add: less_mult_imp_div_less mult.commute)
    ultimately show ?thesis using Suc(1) False by (subst show_nat.simps) simp
  qed
qed simp

lemma pad_ok:
  assumes "0 \<le> v" "v < 10 ^ k" "0 < k"
  shows "length (pad k (show_int v)) = k" "digits_val 0 (pad k (show_int v)) = Some (nat v)"
proof -
  have "nat v < 10 ^ k" using assms by (simp add: nat_less_iff)
  then show "length (pad k (show_int v)) = k" using show_nat_length [of "nat v" k] assms by (simp add: pad_def show_int_def)
  have "digits_val 0 (replicate j CHR ''0'' @ s) = digits_val 0 s" for j s by (induction j) simp_all
  then show "digits_val 0 (pad k (show_int v)) = Some (nat v)" using assms by (simp add: pad_def show_int_def show_nat_digits)
qed

lemma parse_day_text:
  assumes "1 \<le> y" "y \<le> 9999" "1 \<le> m" "m \<le> 12" "1 \<le> d" "d \<le> days_in y m"
  shows "parse_day (pad 4 (show_int y) @ ''-'' @ pad 2 (show_int m) @ ''-'' @ pad 2 (show_int d)) = Some (days_before y m + d - 1)"
proof -
  have "d \<le> 31" using assms by (auto simp: days_in_def split: if_splits)
  then have Y: "length (pad 4 (show_int y)) = 4" "digits_val 0 (pad 4 (show_int y)) = Some (nat y)"
    and M: "length (pad 2 (show_int m)) = 2" "digits_val 0 (pad 2 (show_int m)) = Some (nat m)"
    and D: "length (pad 2 (show_int d)) = 2" "digits_val 0 (pad 2 (show_int d)) = Some (nat d)"
    using assms by (intro pad_ok; simp)+
  show ?thesis using assms Y M D by (simp add: parse_day_def nth_append le_nat_iff)
qed

lemma days_in_ok:
  assumes "0 \<le> doy" "doy \<le> 365" "mp = (5 * doy + 2) div 153" "m = (if mp < 10 then mp + 3 else mp - 9)"
    "d = doy - (153 * mp + 2) div 5 + 1" "doy = 365 \<Longrightarrow> leap_year y"
  shows "1 \<le> m" "m \<le> 12" "1 \<le> d" "d \<le> days_in y m"
proof -
  note q = march_month [OF assms(1,2), folded assms(3), folded assms(5)]
  show "1 \<le> m" "m \<le> 12" "1 \<le> d" using q assms(4) by simp_all
  have "m = 2 \<longleftrightarrow> mp = 11" "m \<in> {4, 6, 9, 11} \<longleftrightarrow> mp \<in> {1, 3, 6, 8}" 
    using assms(4) q(1,2) by (auto split: if_splits)
  moreover have "mp = 11 \<Longrightarrow> d \<le> (if leap_year y then 29 else 28)" 
    using q(6) assms(2,6) by (cases "doy = 365") auto
  ultimately show "d \<le> days_in y m" using q(4,5) by (simp add: days_in_def)
qed

lemma cycle_shift:
  fixes y era :: int
  shows "(y + era * 400) div 4 = era * 100 + y div 4" "(y + era * 400) div 100 = era * 4 + y div 100"
    "(y + era * 400) div 400 = era + y div 400" "leap_year (y + era * 400) = leap_year y"
proof -
  have e: "y + era * 400 = y + (era * 100) * 4" "y + era * 400 = y + (era * 4) * 100" by simp_all
  show "(y + era * 400) div 4 = era * 100 + y div 4" unfolding e(1) by (rule div_mult_self1) simp
  show "(y + era * 400) div 100 = era * 4 + y div 100" unfolding e(2) by (rule div_mult_self1) simp
  show "(y + era * 400) div 400 = era + y div 400" by (rule div_mult_self1) simp
  have "(y + era * 400) mod 4 = y mod 4" unfolding e(1) by (rule mod_mult_self1)
  moreover have "(y + era * 400) mod 100 = y mod 100" unfolding e(2) by (rule mod_mult_self1)
  moreover have "(y + era * 400) mod 400 = y mod 400" by (rule mod_mult_self1)
  ultimately show "leap_year (y + era * 400) = leap_year y" by (simp only: leap_year_def)
qed

lemma day_number:
  fixes n :: int
  shows "\<lbrakk>b = 365 * (Y + era * 400) + (p + era * 100) - (q + era * 4) + era - 306 + k; z = era * 146097 + doe; z = n + 306;
    d = doy - k + 1; doy = doe - (365 * Y + p - q)\<rbrakk> \<Longrightarrow> b + d - 1 = n"
  by simp

lemma day_text_roundtrip:
  assumes "0 \<le> n" "n < 3652059"
  shows "parse_day (format_day n) = Some n"
proof -
  define z where "z = n + 306"
  define era where "era = z div 146097"
  define doe where "doe = z mod 146097"
  define Y where "Y = cycle_year doe"
  define doy where "doy = doe - (365 * Y + Y div 4 - Y div 100)"
  define mp where "mp = (5 * doy + 2) div 153"
  define d where "d = doy - (153 * mp + 2) div 5 + 1"
  define m where "m = (if mp < 10 then mp + 3 else mp - 9)"
  define y where "y = Y + era * 400 + (if m \<le> 2 then 1 else 0)"
  have z: "z = era * 146097 + doe" "0 \<le> doe" "doe < 146097" by (simp_all add: era_def doe_def)
  note c = cycle_day [OF z(2,3), folded Y_def, folded doy_def]
  have "m \<le> 2 \<longleftrightarrow> 10 \<le> mp" using march_month(1,2) [OF c(3,4), folded mp_def] by (auto simp: m_def)
  have mp: "mp \<le> 11" using march_month(2) [OF c(3,4)] by (simp add: mp_def)
  have l: "leap_year y" if "doy = 365"
  proof -
    have "mp = 11" using that by (simp add: mp_def)
    then show ?thesis using c(5) [OF that] cycle_shift(4) [of "Y + 1" era] by (simp add: y_def m_def algebra_simps)
  qed
  note md = days_in_ok [OF c(3,4) mp_def m_def d_def l]
  have s: "(Y + era * 400) div 4 = Y div 4 + era * 100" "(Y + era * 400) div 100 = Y div 100 + era * 4" "(Y + era * 400) div 400 = era"
    using c(1,2) cycle_shift(1-3) [of Y era] by (simp_all add: div_pos_pos_trivial)
  have n: "days_before y m + d - 1 = n"
  proof (cases "mp < 10")
    case True
    then have ym: "y = Y + era * 400" "3 \<le> m" "m - 3 = mp" using march_month(1) [OF c(3,4)] by (simp_all add: y_def m_def mp_def)
    have "days_before y m = 365 * (Y + era * 400) + (Y div 4 + era * 100) - (Y div 100 + era * 4) + era - 306 + (153 * mp + 2) div 5"
      using days_before_march [OF ym(2) md(2), of y] unfolding ym(1,3) s .
    then show ?thesis by (rule day_number [OF _ z(1) z_def d_def doy_def])
  next
    case False
    then have m: "y - 1 = Y + era * 400" "mp = 10 \<and> m = 1 \<or> mp = 11 \<and> m = 2" using mp by (auto simp: y_def m_def)
    have w: "days_before y 1 = 365 * (Y + era * 400) + (Y div 4 + era * 100) - (Y div 100 + era * 4) + era"
      using days_before_winter(1) [of y] unfolding m(1) s .
    have "days_before y m = days_before y 1 - 306 + (153 * mp + 2) div 5"
      using m(2) days_before_winter(2) [of y] by (elim disjE conjE) simp_all
    then show ?thesis unfolding w by (rule day_number [OF _ z(1) z_def d_def doy_def])
  qed
  have e: "0 \<le> era" "era \<le> 24" using assms by (simp_all add: era_def z_def)
  have "1 \<le> y"
  proof (cases "era = 0 \<and> Y = 0")
    case True
    then have "306 \<le> doy" using z(1) assms by (simp add: doy_def z_def)
    then have "10 \<le> mp" by (simp add: mp_def)
    then show ?thesis using True mp by (simp add: y_def m_def)
  next
    case False
    then show ?thesis using e c(1) by (cases "era = 0") (simp_all add: y_def)
  qed
  moreover have "y \<le> 9999"
  proof (cases "era = 24 \<and> Y = 399")
    case True
    then have "doy \<le> 305" using z(1) assms by (simp add: doy_def z_def)
    then have "mp < 10" by (simp add: mp_def)
    then show ?thesis using True march_month(1) [OF c(3,4)] by (simp add: y_def m_def mp_def)
  next
    case False
    then show ?thesis using e c(2) by (cases "era = 24") (simp_all add: y_def)
  qed
  ultimately have y: "1 \<le> y" "y \<le> 9999" by blast+
  have "format_day n = pad 4 (show_int y) @ ''-'' @ pad 2 (show_int m) @ ''-'' @ pad 2 (show_int d)"
    unfolding format_day_def Let_def z_def [symmetric] era_def [symmetric] doe_def [symmetric] cycle_year_def [symmetric] Y_def [symmetric]
      doy_def [symmetric] mp_def [symmetric] d_def [symmetric] m_def [symmetric] y_def [symmetric] by (rule refl)
  then show ?thesis using parse_day_text [OF y md] n by simp
qed

section \<open>Days are named once\<close>

lemma digit_val_of_char: "digit_val c = Some v \<Longrightarrow> of_char c = 48 + v"
  by (auto simp: Let_def split: if_splits)

lemma digit_val_inj: "digit_val c = Some v \<Longrightarrow> digit_val d = Some v \<Longrightarrow> c = d"
  by (drule digit_val_of_char)+ (metis of_char_eq_iff)

lemma digit_val_less: "digit_val c = Some v \<Longrightarrow> v < 10"
  by (auto simp: Let_def split: if_splits)

lemma digits_val_inj:
  "length s = length t \<Longrightarrow> digits_val a s = Some v \<Longrightarrow> digits_val b t = Some v \<Longrightarrow> a = b \<and> s = t"
proof (induction s t arbitrary: a b rule: list_induct2)
  case (Cons c s d t)
  then obtain i j where "digit_val c = Some i" "digit_val d = Some j" "digits_val (10 * a + i) s = Some v" "digits_val (10 * b + j) t = Some v"
    by (auto simp del: digit_val.simps split: option.splits)
  moreover from this have "10 * a + i = 10 * b + j \<and> s = t" using Cons.IH by blast
  moreover from calculation have "i < 10" "j < 10" by (auto dest: digit_val_less simp del: digit_val.simps)
  ultimately show ?case using digit_val_inj [of c i d] by (metis add.commute div_mult_self2 div_less mod_mult_self2 mod_less add_left_cancel zero_neq_numeral add_0)
qed simp

definition year_days :: "int \<Rightarrow> int" where
  "year_days p = 365 * p + p div 4 - p div 100 + p div 400"

lemma year_days_step: "year_days p + 365 + (if leap_year (p + 1) then 1 else 0) = year_days (p + 1)"
  using leap_count [of "p + 1"] by (simp add: year_days_def)

lemma year_days_mono: "p \<le> q \<Longrightarrow> year_days p \<le> year_days q"
proof (induction q rule: int_ge_induct)
  case (step q)
  then show ?case using year_days_step [of q] by (auto split: if_splits)
qed simp

lemma days_in_pos: "0 < days_in y m" by (simp add: days_in_def)

lemma upto_sum_mono:
  assumes "a \<le> b" "\<And>i. 0 < f i"
  shows "sum_list (map f [1..a]) \<le> sum_list (map (f :: int \<Rightarrow> int) [1..b])"
proof (cases "1 \<le> a")
  case True
  then have "[1..b] = [1..a] @ [a + 1..b]" using assms(1) by (metis upto_split2 add_increasing2 linorder_not_le zle_add1_eq_le)
  moreover have "0 \<le> sum_list (map f [a + 1..b])" using assms(2) by (intro sum_list_nonneg) (auto intro: less_imp_le)
  ultimately show ?thesis by simp
next
  case False
  moreover have "0 \<le> sum_list (map f [1..b])" using assms(2) by (intro sum_list_nonneg) (auto intro: less_imp_le)
  ultimately show ?thesis by simp
qed

lemma days_before_next:
  assumes "1 \<le> m" "m < m'" 
  shows "days_before y m + days_in y m \<le> days_before y m'"
proof -
  have "sum_list (map (days_in y) [1..m]) \<le> sum_list (map (days_in y) [1..m' - 1])"
    using assms by (intro upto_sum_mono) (auto simp: days_in_pos)
  moreover have "[1..m] = [1..m - 1] @ [m]" using assms by (simp add: upto_rec2)
  ultimately show ?thesis by (simp add: days_before_def)
qed

lemma year_bounds:
  assumes "1 \<le> m" "m \<le> 12" "1 \<le> d" "d \<le> days_in y m"
  shows "year_days (y - 1) \<le> days_before y m + d - 1" "days_before y m + d - 1 < year_days y"
proof -
  have "year_days (y - 1) = days_before y 1" by (simp add: days_before_winter year_days_def)
  moreover have "days_before y 1 \<le> days_before y m"
    using days_before_next [of 1 m y] days_in_pos [of y 1] assms(1) by (cases "m = 1") auto
  ultimately show "year_days (y - 1) \<le> days_before y m + d - 1" using assms(3) by simp
  have "days_before y 13 = year_days (y - 1) + 365 + (if leap_year y then 1 else 0)"
    using days_before_march [of 12 y] days_before_Suc [of 12 y] leap_count [of y] by (simp add: year_days_def days_in_def)
  then have "days_before y 13 = year_days y" using year_days_step [of "y - 1"] by simp
  then show "days_before y m + d - 1 < year_days y" using days_before_next [of m 13 y] assms by simp
qed

lemma date_inj:
  assumes "1 \<le> m" "m \<le> 12" "1 \<le> d" "d \<le> days_in y m" "1 \<le> m'" "m' \<le> 12" "1 \<le> d'" "d' \<le> days_in y' m'"
    "days_before y m + d - 1 = days_before y' m' + d' - 1"
  shows "y = y' \<and> m = m' \<and> d = d'"
proof -
  note b = year_bounds [OF assms(1-4)] year_bounds [OF assms(5-8)]
  have y: "y = y'"
  proof (rule ccontr)
    assume "y \<noteq> y'"
    then have "y \<le> y' - 1 \<or> y' \<le> y - 1" by linarith
    then show False using year_days_mono [of y "y' - 1"] year_days_mono [of y' "y - 1"] b assms(9) by auto
  qed
  have "m = m'"
  proof (rule ccontr)
    assume "m \<noteq> m'"
    then have "m < m' \<or> m' < m" by linarith
    then show False using days_before_next [of m m' y] days_before_next [of m' m y] assms y by auto
  qed
  then show ?thesis using y assms(9) by simp
qed

lemma parse_day_parts:
  assumes "parse_day u = Some n"
  obtains y m d where "length u = 10" "u ! 4 = CHR ''-''" "u ! 7 = CHR ''-''" "digits_val 0 (take 4 u) = Some y"
    "digits_val 0 (take 2 (drop 5 u)) = Some m" "digits_val 0 (drop 8 u) = Some d"
    "1 \<le> int m" "int m \<le> 12" "1 \<le> int d" "int d \<le> days_in (int y) (int m)" "n = days_before (int y) (int m) + int d - 1"
  using assms by (auto simp: parse_day_def split: if_splits option.splits)

lemma day_named_once:
  assumes "parse_day s = Some n" "parse_day t = Some n"
  shows "s = t"
proof -
  obtain y m d where s: "length s = 10" "s ! 4 = CHR ''-''" "s ! 7 = CHR ''-''" "digits_val 0 (take 4 s) = Some y"
    "digits_val 0 (take 2 (drop 5 s)) = Some m" "digits_val 0 (drop 8 s) = Some d" and
    sd: "1 \<le> int m" "int m \<le> 12" "1 \<le> int d" "int d \<le> days_in (int y) (int m)" "n = days_before (int y) (int m) + int d - 1"
    using parse_day_parts [OF assms(1)] .
  obtain y' m' d' where t: "length t = 10" "t ! 4 = CHR ''-''" "t ! 7 = CHR ''-''" "digits_val 0 (take 4 t) = Some y'"
    "digits_val 0 (take 2 (drop 5 t)) = Some m'" "digits_val 0 (drop 8 t) = Some d'" and
    td: "1 \<le> int m'" "int m' \<le> 12" "1 \<le> int d'" "int d' \<le> days_in (int y') (int m')" "n = days_before (int y') (int m') + int d' - 1"
    using parse_day_parts [OF assms(2)] .
  have e: "y = y'" "m = m'" "d = d'" using date_inj [OF sd(1-4) td(1-4)] sd(5) td(5) by simp_all
  have "take 4 s = take 4 t" "take 2 (drop 5 s) = take 2 (drop 5 t)" "drop 8 s = drop 8 t"
    using digits_val_inj [of "take 4 s" "take 4 t" 0 y 0] digits_val_inj [of "take 2 (drop 5 s)" "take 2 (drop 5 t)" 0 m 0]
      digits_val_inj [of "drop 8 s" "drop 8 t" 0 d 0] s t e by auto
  moreover have split: "u = take 4 u @ u ! 4 # take 2 (drop 5 u) @ u ! 7 # drop 8 u" if "length u = 10" for u :: string
    using that by (auto simp: numeral_eq_Suc length_Suc_conv)
  ultimately show ?thesis using split [OF s(1)] split [OF t(1)] s(2,3) t(2,3) by metis
qed

end
