(* ===== verification/Web_Laws.thy ===== *)
theory Web_Laws
  imports Web_Views Calendar
begin

text \<open>
  What the pages of the web interface show: the figures of one page agree with each other and with the other pages, a client
  that revalidates its copy is answered from the snapshot that made it, and missing statistics lead to defined answers.
\<close>

section \<open>Sums\<close>

lemma i64_i64: "i64 (i64 a + b) = i64 (a + b)" "i64 (i64 a) = i64 a"
proof -
  have "(((a + 2 ^ 63) mod 2 ^ 64 - 2 ^ 63) + b + 2 ^ 63) mod 2 ^ 64 = (a + b + 2 ^ 63) mod (2 ^ 64 :: int)"
    by (simp add: mod_simps algebra_simps)
  then show "i64 (i64 a + b) = i64 (a + b)" by (simp add: i64_def algebra_simps)
  show "i64 (i64 a) = i64 a" by (simp add: i64_def)
qed

lemma last_count_Cons:
  assumes "k' \<notin> fst ` set kvs"
  shows "last_count ((k', v) # kvs) k = (if k' = k then v else last_count kvs k)"
proof -
  have "map_of (rev kvs) k' = None" using assms by (simp add: map_of_eq_None_iff)
  then show ?thesis by (auto simp: last_count_def map_add_def split: option.splits)
qed

lemma last_count_sum:
  "distinct (map fst kvs) \<Longrightarrow> last_count kvs k = sum_list (map (\<lambda>kv. if fst kv = k then snd kv else 0) kvs)"
proof (induction kvs)
  case (Cons kv kvs)
  obtain k' v where kv: "kv = (k', v)" by (cases kv)
  have "\<forall>p \<in> set kvs. fst p \<noteq> k'" using Cons.prems kv by force
  then have "sum_list (map (\<lambda>p. if fst p = k' then snd p else 0) kvs) = 0" by (induction kvs) auto
  then show ?case using Cons kv by (auto simp: last_count_Cons)
qed (simp add: last_count_def)

lemma mset_sum_list: "mset xs = mset ys \<Longrightarrow> sum_list (map f xs) = (sum_list (map f ys) :: int)"
  by (metis mset_map sum_mset_sum_list)

text \<open>Summing over the days of a window the counts of the rows of each day counts the rows in the window.\<close>

lemma sum_days:
  fixes m :: int
  shows "sum_list (map (\<lambda>i. if n = m - i then c else (0 :: int)) (rev [0..29])) = (if m - 29 \<le> n \<and> n \<le> m then c else 0)"
proof -
  have "sum_list (map (\<lambda>i. if n = m - i then c else 0) (rev [0..29])) = (\<Sum>i \<in> {0..29}. if i = m - n then c else 0)"
    by (subst sum_list_distinct_conv_sum_set) (auto intro!: sum.cong simp del: sum.delta)
  also have "\<dots> = (if m - n \<in> {0..29} then c else 0)" by (simp add: sum.delta)
  finally show ?thesis by (simp add: algebra_simps)
qed

lemma sum_list_swap: "sum_list (map (\<lambda>x. sum_list (map (f x) ys)) xs) = sum_list (map (\<lambda>y. sum_list (map (\<lambda>x. f x y :: int) xs)) ys)"
  by (induction xs) (simp_all add: sum_list_addf)

section \<open>The dashboard\<close>

definition in_window :: "int \<Rightarrow> ScopedDailyCount \<Rightarrow> bool" where
  "in_window m d \<longleftrightarrow> (case parse_day (sd_Day d) of None \<Rightarrow> False | Some n \<Rightarrow> m - 29 \<le> n \<and> n \<le> m)"

definition global_days :: "UIStatsSnapshot \<Rightarrow> ScopedDailyCount list" where
  "global_days sn = filter (\<lambda>d. sd_Scope d = global_scope) (us_NewCharacters sn)"

lemma window_fold:
  "nt_Current t = i64 (nt_Current t) \<Longrightarrow> nt_Current (fold (window_day global_scope m) ds t)
     = i64 (nt_Current t + sum_list (map sd_Count (filter (\<lambda>d. sd_Scope d = global_scope \<and> in_window m d) ds)))"
proof (induction ds arbitrary: t)
  case (Cons d ds)
  define t' where "t' = window_day global_scope m d t"
  have s: "nt_Current t' = (if sd_Scope d = global_scope \<and> in_window m d then i64 (nt_Current t + sd_Count d) else nt_Current t)"
    by (auto simp: t'_def window_day_def Let_def in_window_def split: option.splits)
  then have "nt_Current t' = i64 (nt_Current t')" using Cons.prems by (auto simp: i64_i64)
  from Cons.IH [OF this] show ?case using s by (auto simp: t'_def [symmetric] i64_i64 algebra_simps)
qed simp

lemma window_current:
  "nt_Current (NewCharactersWindow (Some sn) global_scope)
     = i64 (sum_list (map sd_Count (filter (in_window (day_of (us_GeneratedAt sn))) (global_days sn))))"
proof -
  have "i64 0 = 0" by (simp add: i64_def)
  then show ?thesis
    unfolding NewCharactersWindow_def Let_def option.case global_days_def filter_filter by (subst window_fold) simp_all
qed

lemma chart_value:
  assumes "\<forall>d \<in> set (global_days sn). parse_day (sd_Day d) \<noteq> None" "distinct (map sd_Day (global_days sn))" "0 \<le> n" "n < 3652059"
  shows "last_count (map (\<lambda>d. (dc_Day d, dc_Count d)) (SnapshotDaily (Some sn) global_scope)) (format_day n)
    = sum_list (map (\<lambda>d. if parse_day (sd_Day d) = Some n then sd_Count d else 0) (global_days sn))"
proof -
  define kvs where "kvs = map (\<lambda>d. (dc_Day d, dc_Count d)) (SnapshotDaily (Some sn) global_scope)"
  have m: "mset kvs = mset (map (\<lambda>d. (sd_Day d, sd_Count d)) (global_days sn))"
    by (simp add: kvs_def SnapshotDaily_def global_days_def mset_sort_by image_mset.compositionality comp_def)
  have "mset (map fst kvs) = mset (map sd_Day (global_days sn))"
    using arg_cong [OF m, of "image_mset fst"] by (simp add: image_mset.compositionality comp_def)
  then have "distinct (map fst kvs)" using assms(2) mset_eq_imp_distinct_iff by blast
  then have "last_count kvs (format_day n) = sum_list (map (\<lambda>kv. if fst kv = format_day n then snd kv else 0) kvs)" by (rule last_count_sum)
  also have "\<dots> = sum_list (map (\<lambda>d. if sd_Day d = format_day n then sd_Count d else 0) (global_days sn))"
    using mset_sum_list [OF m, of "\<lambda>kv. if fst kv = format_day n then snd kv else 0"] by (simp add: comp_def cong: if_cong)
  also have "\<dots> = sum_list (map (\<lambda>d. if parse_day (sd_Day d) = Some n then sd_Count d else 0) (global_days sn))"
  proof (rule arg_cong [where f = sum_list], rule map_cong [OF refl])
    fix d assume "d \<in> set (global_days sn)"
    have p: "parse_day (format_day n) = Some n" by (rule day_text_roundtrip [OF assms(3,4)])
    then have "sd_Day d = format_day n \<longleftrightarrow> parse_day (sd_Day d) = Some n" using day_named_once [of "sd_Day d" n "format_day n"] by auto
    then show "(if sd_Day d = format_day n then sd_Count d else 0) = (if parse_day (sd_Day d) = Some n then sd_Count d else 0)" by simp
  qed
  finally show ?thesis by (simp add: kvs_def)
qed

lemma valid_days:
  assumes "ValidateUIStatsSnapshot (Some sn) = None"
  shows "\<forall>d \<in> set (global_days sn). parse_day (sd_Day d) \<noteq> None" "distinct (map sd_Day (global_days sn))"
proof -
  have "check_keys bad_day day_key ''day'' {} (us_NewCharacters sn) = None"
    using assms by (auto simp: ValidateUIStatsSnapshot_def Let_def split: if_splits option.splits)
  then have b: "\<forall>d \<in> set (us_NewCharacters sn). bad_day d = None" and k: "distinct (map day_key (us_NewCharacters sn))"
    by (simp_all add: check_keys_None)
  show "\<forall>d \<in> set (global_days sn). parse_day (sd_Day d) \<noteq> None"
    using b by (auto simp: global_days_def bad_day_def split: if_splits)
  have "distinct (map day_key (global_days sn))" using k by (simp add: global_days_def distinct_map_filter)
  moreover have "map day_key (global_days sn) = map ((@) (scopeKey global_scope) \<circ> (\<lambda>s. CHR 0x00 # s)) (map sd_Day (global_days sn))"
    by (simp add: global_days_def day_key_def)
  ultimately show "distinct (map sd_Day (global_days sn))" by (metis distinct_map)
qed

text \<open>C27: The dashboard is consistent: for a valid snapshot the chart has thirty days and their counts add up to the number of new
  characters shown in the headline, which is computed from the snapshot by another route (from the date texts of the rows instead of
  the dates of the chart). The snapshot was generated between the years 1 and 9999.\<close>

theorem dashboard_chart_adds_up:
  assumes "ValidateUIStatsSnapshot (Some sn) = None"
    and "29 \<le> day_of (us_GeneratedAt sn)" and "day_of (us_GeneratedAt sn) < 3652059"
  shows "length (dv_ChartData (dashboard_data c sn)) = 30
    \<and> dv_NewCharacters30d (dashboard_data c sn) = i64 (sum_list (dv_ChartData (dashboard_data c sn)))"
proof -
  define m where "m = day_of (us_GeneratedAt sn)"
  let ?G = "global_days sn"
  note v = valid_days [OF assms(1)]
  have e: "dashboard_days sn = map (\<lambda>i. format_day (m - i)) (rev [0..29])" by (simp add: dashboard_days_def m_def)
  have "sum_list (dv_ChartData (dashboard_data c sn)) = sum_list (map (\<lambda>i.
      last_count (map (\<lambda>d. (dc_Day d, dc_Count d)) (SnapshotDaily (Some sn) global_scope)) (format_day (m - i))) (rev [0..29]))"
    by (simp add: dashboard_data_def Let_def e comp_def)
  also have "\<dots> = sum_list (map (\<lambda>i. sum_list (map (\<lambda>d. if parse_day (sd_Day d) = Some (m - i) then sd_Count d else 0) ?G)) (rev [0..29]))"
    using assms(2,3) by (intro arg_cong [where f = sum_list] map_cong refl chart_value [OF v]) (auto simp: m_def)
  also have "\<dots> = sum_list (map (\<lambda>d. sum_list (map (\<lambda>i. if parse_day (sd_Day d) = Some (m - i) then sd_Count d else 0) (rev [0..29]))) ?G)"
    by (rule sum_list_swap)
  also have "\<dots> = sum_list (map (\<lambda>d. if in_window m d then sd_Count d else 0) ?G)"
  proof (intro arg_cong [where f = sum_list] map_cong refl)
    fix d assume "d \<in> set ?G"
    then obtain n where "parse_day (sd_Day d) = Some n" using v(1) by auto
    then show "sum_list (map (\<lambda>i. if parse_day (sd_Day d) = Some (m - i) then sd_Count d else 0) (rev [0..29]))
        = (if in_window m d then sd_Count d else 0)"
      using sum_days [of n m "sd_Count d"] by (simp add: in_window_def)
  qed
  also have "\<dots> = sum_list (map sd_Count (filter (in_window m) ?G))" by (simp add: sum_list_map_filter')
  finally have "dv_NewCharacters30d (dashboard_data c sn) = i64 (sum_list (dv_ChartData (dashboard_data c sn)))"
    by (simp add: window_current m_def dashboard_data_def [of c sn] Let_def)
  moreover have "length (dv_ChartData (dashboard_data c sn)) = 30" by (simp add: dashboard_data_def Let_def e)
  ultimately show ?thesis by blast
qed

section \<open>Worlds\<close>

lemma find_key:
  "distinct (map key xs) \<Longrightarrow> x \<in> set xs \<Longrightarrow> find (\<lambda>y. key y = key x) xs = Some x"
  by (induction xs) (auto simp: image_iff)

lemma set_sort_by: "set (sort_by le xs) = set xs"
  using mset_sort_by [of le xs] by (metis set_mset_mset)

definition world_groups :: "UIStatsSnapshot \<Rightarrow> GroupCount list" where
  "world_groups sn = SnapshotGroups (Some sn) ''world'' global_scope"

text \<open>No two worlds of the snapshot differ in case only.\<close>

definition worlds_distinct :: "UIStatsSnapshot \<Rightarrow> bool" where
  "worlds_distinct sn \<longleftrightarrow> distinct (map (\<lambda>g. fold_key (gc_Key g)) (world_groups sn))"

lemma detail_counts_row:
  assumes "worlds_distinct sn" "g \<in> set (world_groups sn)"
  shows "detail_counts sn (gc_Key g) = (gc_Total g, gc_Active g)"
  using find_key [of "\<lambda>g. fold_key (gc_Key g)" "world_groups sn" g] assms
  by (simp add: detail_counts_def equal_fold_def worlds_distinct_def world_groups_def)

text \<open>C26: The world pages agree with each other: the sitemap lists the static pages and exactly the worlds of the world table, the table
  without a filter shows all of them, and the page of each listed world shows the totals, ratio, new characters, data centre and region
  of its row, and a known region. No two worlds of the snapshot differ in case only.\<close>

theorem world_pages_agree:
  assumes "ui_stats c = Some (Inr (sn, st))" and "worlds_distinct sn"
  shows "(\<exists>urls. wr_body (Sitemap c) = SitemapBody urls
      \<and> map su_Loc urls = map (\<lambda>p. ui_baseURL c @ p) (sitemapStaticPaths @ map (\<lambda>w. ''/ui/worlds/'' @ wt_World w) (world_rows sn)))
    \<and> mset (wv_Worlds (worlds_data sn [] [])) = mset (world_rows sn)
    \<and> (\<forall>w \<in> set (world_rows sn).
         let p = world_detail_data c sn (wt_World w)
         in wp_TotalCharacters p = wt_Total w \<and> wp_ActiveCharacters p = wt_Active w \<and> wp_ActiveRatio p = wt_ActiveRatio w
            \<and> wp_NewCharacters30d p = wt_NewCharacters30d w \<and> wp_Datacenter p = wt_Datacenter w \<and> wp_Region p = wt_Region w
            \<and> wp_Region p \<noteq> ''Unknown'')"
proof (intro conjI ballI)
  show "\<exists>urls. wr_body (Sitemap c) = SitemapBody urls
      \<and> map su_Loc urls = map (\<lambda>p. ui_baseURL c @ p) (sitemapStaticPaths @ map (\<lambda>w. ''/ui/worlds/'' @ wt_World w) (world_rows sn))"
    using assms(1) by (simp add: Sitemap_def world_rows_def comp_def Let_def)
  show "mset (wv_Worlds (worlds_data sn [] [])) = mset (world_rows sn)"
    by (simp add: worlds_data_def Let_def mset_sort_by world_selected_def)
  fix w assume "w \<in> set (world_rows sn)"
  then obtain g where g: "g \<in> set (world_groups sn)" "isIndexableWorld (gc_Key g)" and
    w: "wt_World w = gc_Key g" "wt_Total w = gc_Total g" "wt_Active w = gc_Active g" "wt_ActiveRatio w = formatPercent (gc_Active g) (gc_Total g)"
      "wt_Datacenter w = WorldToDC (gc_Key g)" "wt_Region w = RegionForDatacenter (WorldToDC (gc_Key g))"
      "wt_NewCharacters30d w = nt_Current (NewCharactersWindow (Some sn) (world_scope (gc_Key g)))"
    by (auto simp: world_rows_def world_groups_def Let_def)
  have r: "RegionForDatacenter (WorldToDC (gc_Key g)) \<noteq> []" using g(2) by (simp add: isIndexableWorld_def)
  moreover have "RegionForDatacenter d \<noteq> ''Unknown''" for d
    using map_of_SomeD [of datacenterRegion d "''Unknown''"] by (auto simp: RegionForDatacenter_def datacenterRegion_def split: option.splits if_splits)
  ultimately show "let p = world_detail_data c sn (wt_World w)
         in wp_TotalCharacters p = wt_Total w \<and> wp_ActiveCharacters p = wt_Active w \<and> wp_ActiveRatio p = wt_ActiveRatio w
            \<and> wp_NewCharacters30d p = wt_NewCharacters30d w \<and> wp_Datacenter p = wt_Datacenter w \<and> wp_Region p = wt_Region w
            \<and> wp_Region p \<noteq> ''Unknown''"
    using detail_counts_row [OF assms(2) g(1)] w by (simp add: world_detail_data_def Let_def name_or_unknown_def)
qed

section \<open>Revalidation and outages\<close>

lemma render_new: "t \<in> set page_names \<Longrightarrow> wr_status (render (NewUIController svc stats url) st hs t d) = st
    \<and> wr_headers (render (NewUIController svc stats url) st hs t d) = hs(''Content-Type'' \<mapsto> ''text/html; charset=utf-8'')"
  by (simp add: render_def NewUIController_def)

definition stats_route :: "ui_route \<Rightarrow> web_request \<Rightarrow> bool" where
  "stats_route p r \<longleftrightarrow> p \<notin> {RMethodology, RSitemap} \<and> (p = RWorldDetail \<longrightarrow> trim_space (rq_pathValue r ''world'') \<noteq> [])"

text \<open>Every statistics page is a page made from the snapshot, or what \<open>currentStats\<close> answered.\<close>

lemma stats_page:
  fixes svc :: "('s read_ports \<times> Service) option"
  assumes "stats_route p r"
  shows "case ui_currentStats (NewUIController svc stats url) r of
      Inl resp \<Rightarrow> ui_serve p (NewUIController svc stats url) r = resp
    | Inr (sn, st, hs) \<Rightarrow> wr_status (ui_serve p (NewUIController svc stats url) r) = 200
        \<and> wr_headers (ui_serve p (NewUIController svc stats url) r) = hs(''Content-Type'' \<mapsto> ''text/html; charset=utf-8'')"
  using assms
  by (cases p) (auto simp: stats_route_def Dashboard_def WorldDrilldown_def Races_def UI_Worlds_def UI_Expansions_def UI_WorldDetail_def
      Let_def render_new page_names_def renderPartial_def NewUIController_def partial_names_def render_def split: sum.splits)

lemma revalidation_answers_304:
  fixes svc :: "('s read_ports \<times> Service) option" and sn :: UIStatsSnapshot and st :: UIStatsState and url :: string
  assumes "stats_route p r"
  defines "c \<equiv> NewUIController svc (Some (Inr (sn, st))) url"
  shows "\<exists>e. wr_headers (ui_serve p c r) ''ETag'' = Some e
    \<and> ui_serve p c (r\<lparr>rq_header := (rq_header r)(''If-None-Match'' := e)\<rparr>)
        = \<lparr>wr_status = 304, wr_headers = stats_headers sn r, wr_body = NoBody\<rparr>
    \<and> (rq_header r ''If-None-Match'' \<noteq> e \<longrightarrow> wr_status (ui_serve p c r) = 200)"
proof -
  define r' where "r' = r\<lparr>rq_header := (rq_header r)(''If-None-Match'' := page_etag sn r)\<rparr>"
  have e: "page_etag sn r' = page_etag sn r" "stats_headers sn r' = stats_headers sn r" by (simp_all add: r'_def page_etag_def stats_headers_def)
  have "stats_route p r'" using assms(1) by (simp add: stats_route_def r'_def)
  note s' = stats_page [OF this, of svc "Some (Inr (sn, st))" url, folded c_def]
  have "ui_currentStats c r' = Inl \<lparr>wr_status = 304, wr_headers = stats_headers sn r, wr_body = NoBody\<rparr>"
    using e by (simp add: ui_currentStats_def c_def NewUIController_def r'_def)
  then have m: "ui_serve p c r' = \<lparr>wr_status = 304, wr_headers = stats_headers sn r, wr_body = NoBody\<rparr>" using s' by simp
  note s = stats_page [OF assms(1), of svc "Some (Inr (sn, st))" url, folded c_def]
  have "ui_currentStats c r = (if rq_header r ''If-None-Match'' = page_etag sn r
      then Inl \<lparr>wr_status = 304, wr_headers = stats_headers sn r, wr_body = NoBody\<rparr> else Inr (sn, st, stats_headers sn r))"
    by (simp add: ui_currentStats_def c_def NewUIController_def)
  then have "wr_headers (ui_serve p c r) ''ETag'' = Some (page_etag sn r)"
    "rq_header r ''If-None-Match'' \<noteq> page_etag sn r \<longrightarrow> wr_status (ui_serve p c r) = 200"
    using s by (auto simp: stats_headers_def split: if_splits)
  then show ?thesis using m by (auto simp: r'_def)
qed

lemma outage_answers:
  fixes svc :: "('s read_ports \<times> Service) option" and stats :: "answer option" and url :: string
  assumes "\<forall>sn st. stats \<noteq> Some (Inr (sn, st))"
  defines "c \<equiv> NewUIController svc stats url"
  shows "(if stats_route p r then ui_serve p c r = stats_unavailable else wr_status (ui_serve p c r) \<in> {200, 302})
    \<and> wr_status stats_unavailable = 503 \<and> wr_headers stats_unavailable ''Retry-After'' = Some ''60''
    \<and> wr_headers stats_unavailable ''Cache-Control'' = None
    \<and> wr_body (Sitemap c) = SitemapBody (map (\<lambda>p. \<lparr>su_Loc = trim_right_slash url @ p, su_LastMod = []\<rparr>) sitemapStaticPaths)"
proof -
  have m: "ui_stats c = None \<or> (\<exists>e. ui_stats c = Some (Inl e))"
  proof (cases stats)
    case (Some a)
    then show ?thesis using assms(1) by (cases a) (auto simp: c_def NewUIController_def)
  qed (simp add: c_def NewUIController_def)
  then have u: "ui_currentStats c r = Inl stats_unavailable" by (auto simp: ui_currentStats_def)
  have "if stats_route p r then ui_serve p c r = stats_unavailable else wr_status (ui_serve p c r) \<in> {200, 302}"
  proof (cases "stats_route p r")
    case True
    then show ?thesis using stats_page [of p r svc stats url] u by (simp add: c_def)
  next
    case False
    then show ?thesis
      by (cases p) (auto simp: stats_route_def c_def UI_WorldDetail_def http_redirect_def Methodology_def render_new page_names_def Sitemap_def Let_def
          split: option.splits sum.splits prod.splits)
  qed
  moreover have "ui_baseURL c = trim_right_slash url" by (simp add: c_def NewUIController_def)
  moreover have "wr_body (Sitemap c) = SitemapBody (map (\<lambda>p. \<lparr>su_Loc = ui_baseURL c @ p, su_LastMod = []\<rparr>) sitemapStaticPaths)"
    using m by (auto simp: Sitemap_def)
  ultimately show ?thesis by (simp add: stats_unavailable_def http_error_def no_headers_def)
qed

section \<open>The directory\<close>

lemma concat_pages: "concat (map (\<lambda>k. take m (drop (k * m) xs)) [0..<n]) = take (n * m) xs"
proof (induction n)
  case (Suc n)
  have "take (n * m) xs @ take m (drop (n * m) xs) = take (n * m + m) xs" by (simp add: take_add)
  then show ?case using Suc by (simp add: add.commute)
qed simp

lemma concat_upto_pages:
  assumes "1 \<le> p" and "\<And>k. k < nat p \<Longrightarrow> g (int k + 1) = map h (take m (drop (k * m) xs))" and "length xs \<le> nat p * m"
  shows "concat (map g [1..p]) = map h xs"
proof -
  have "[1..p] = map (\<lambda>k. int k + 1) [0..<nat p]" using assms(1) by (intro nth_equalityI) (auto simp: nth_upto)
  then have "concat (map g [1..p]) = concat (map (\<lambda>k. map h (take m (drop (k * m) xs))) [0..<nat p])"
    using assms(2) by (auto simp: comp_def intro!: arg_cong [where f = concat] map_cong)
  also have "\<dots> = map h (concat (map (\<lambda>k. take m (drop (k * m) xs)) [0..<nat p]))" by (simp add: map_concat comp_def)
  finally show ?thesis using assms(3) unfolding concat_pages by simp
qed

lemma total_pages_cover:
  assumes "0 \<le> n" "n < 2 ^ 62"
  shows "n \<le> total_pages n * 30" "1 \<le> total_pages n" "(total_pages n - 1) * 30 < max 1 n"
proof -
  have "total_pages n = max 1 ((n + 29) div 30)"
    using assms by (simp add: total_pages_def i64_id is_i64_def min_i64_def max_i64_def go_div_def Let_def add.commute)
  then show "n \<le> total_pages n * 30" "1 \<le> total_pages n" "(total_pages n - 1) * 30 < max 1 n" using assms by auto
qed

definition directory :: "census_env \<Rightarrow> CharacterFilter \<Rightarrow> census_db \<Rightarrow> CharacterRecord list" where
  "directory e f db =
     map scanCharacter (ordered_rows e (characterOrderBy (cf_SortBy f) (cf_SortOrder f)) (matching e db f))"

text \<open>When the column of the order tells the rows apart, the choice of the database does not matter.\<close>

lemma ordered_rows_total:
  assumes "distinct (map (column_key e order) rows)"
  shows "ordered_rows e order rows = sort_key (column_key e order) rows"
proof -
  let ?k = "column_key e order" and ?ys = "ordered_rows e order rows"
  have m: "mset ?ys = mset rows" by (simp add: ordered_rows_def)
  have one: "filter (\<lambda>x. ?k r = ?k x) xs = [r]" if "mset xs = mset rows" "r \<in> set xs" for r xs
  proof -
    have d: "distinct (map ?k xs)" using mset_eq_imp_distinct_iff [of "map ?k xs" "map ?k rows"] that(1) assms by simp
    from that(2) obtain a b where xs: "xs = a @ r # b" by (auto simp: in_set_conv_decomp)
    with d have "\<forall>x\<in>set a \<union> set b. ?k r \<noteq> ?k x" by (auto simp: image_iff)
    then show ?thesis unfolding xs by (simp add: filter_empty_conv)
  qed
  have "sort_key ?k rows = ?ys"
  proof (rule properties_for_sort_key [OF m])
    show "filter (\<lambda>x. ?k r = ?k x) ?ys = filter (\<lambda>x. ?k r = ?k x) rows" if "r \<in> set ?ys" for r
      using one [OF m that] one [OF refl, of r] that mset_eq_setD [OF m] by simp
    show "sorted (map ?k ?ys)" by (simp add: ordered_rows_def)
  qed
  then show ?thesis by simp
qed

lemma column_key_id:
  "fst order = ''id'' \<Longrightarrow> distinct (map cr_ID rows) \<Longrightarrow> distinct (map (column_key e order) rows)"
  by (cases order) (auto simp: distinct_map inj_on_def column_key_def Let_def word_uint_eq_iff split: if_splits)

lemma page_number_show: "1 \<le> k \<Longrightarrow> k \<le> max_i64 \<Longrightarrow> page_number (show_int k) = k"
  using atoi_show [of "nat k"] by (simp add: page_number_def show_int_def)

lemma directory_page:
  assumes "\<forall>n. cv_fault (e n) = (\<lambda>_. None)" "0 \<le> k" "k < 2 ^ 62 div 30" "cv_ilike (e 6) = cv_ilike (e 5)"
  shows "ListCharacters (pg_read e) f 30 (i64 ((k + 1 - 1) * 30)) db
    = Inr (take 30 (drop (nat k * 30) (directory (e 5) f db)), int (length (directory (e 5) f db)))"
proof -
  have "i64 ((k + 1 - 1) * 30) = k * 30" using assms(2,3) by (simp add: i64_id is_i64_def min_i64_def max_i64_def)
  moreover have "nat (k * 30) = nat k * 30" using assms(2) by (simp add: nat_mult_distrib)
  moreover have "matching (e 6) db f = matching (e 5) db f"
    using assms(4) by (simp add: matching_def characterFilterWhere_def)
  ultimately show ?thesis using assms(1,2)
    by (simp add: ListCharacters_def pg_read_def Character_List_def Character_Count_def fetch_many_def fetch_one_def directory_def
        ordered_rows_def take_map drop_map split: if_splits)
qed

text \<open>Page \<open>k\<close> of the directory for a query.\<close>

definition directory_page_data :: "timestamp \<Rightarrow> ('s read_ports \<times> Service) option \<Rightarrow> query \<Rightarrow> int \<Rightarrow> 's \<Rightarrow> CharacterListViewData" where
  "directory_page_data now svc q k s = directory_data now svc (q(''page'' := show_int k)) s"

lemma directory_page_shown:
  assumes "\<forall>n. cv_fault (e n) = (\<lambda>_. None)" "cv_ilike (e 6) = cv_ilike (e 5)"
    and "svc = Some (pg_read e, sv)" "f = directory_filter now svc q" "1 \<le> k" "k < 2 ^ 57"
  shows "lv_Characters (directory_page_data now svc q k db) = map (directory_row now svc) (take 30 (drop (nat (k - 1) * 30) (directory (e 5) f db)))"
    "lv_TotalPages (directory_page_data now svc q k db) = total_pages (int (length (directory (e 5) f db)))"
    "lv_CurrentPage (directory_page_data now svc q k db) = k"
    "lv_HasPrev (directory_page_data now svc q k db) = (k > 1)"
    "lv_HasNext (directory_page_data now svc q k db) = (k < total_pages (int (length (directory (e 5) f db))))"
    "lv_PrevPage (directory_page_data now svc q k db) = k - 1"
    "lv_NextPage (directory_page_data now svc q k db) = k + 1"
proof -
  have p: "page_number (show_int k) = k" using assms(5,6) by (simp add: page_number_show max_i64_def)
  have i: "i64 (k - 1) = k - 1" "i64 (k + 1) = k + 1"
    using assms(5,6) by (simp_all add: i64_id is_i64_def min_i64_def max_i64_def)
  have l: "ListCharacters (pg_read e) f 30 (i64 ((k - 1) * 30)) db
      = Inr (take 30 (drop (nat (k - 1) * 30) (directory (e 5) f db)), int (length (directory (e 5) f db)))"
    using directory_page [OF assms(1), of "k - 1" f db] assms(2,5,6) by simp
  have f': "directory_filter now (Some (pg_read e, sv)) (q(''page'' := show_int k)) = f"
    by (simp add: assms(3,4) directory_filter_def Let_def)
  show "lv_Characters (directory_page_data now svc q k db) = map (directory_row now svc) (take 30 (drop (nat (k - 1) * 30) (directory (e 5) f db)))"
    "lv_TotalPages (directory_page_data now svc q k db) = total_pages (int (length (directory (e 5) f db)))"
    "lv_CurrentPage (directory_page_data now svc q k db) = k"
    "lv_HasPrev (directory_page_data now svc q k db) = (k > 1)"
    "lv_HasNext (directory_page_data now svc q k db) = (k < total_pages (int (length (directory (e 5) f db))))"
    "lv_PrevPage (directory_page_data now svc q k db) = k - 1"
    "lv_NextPage (directory_page_data now svc q k db) = k + 1"
    unfolding directory_page_data_def directory_data_def assms(3) option.case prod.case f' fun_upd_same p l Let_def sum.case
    by (simp_all add: i)
qed

text \<open>The rows that a filter selects, in the order of its column.\<close>

definition directory_order :: "census_env \<Rightarrow> CharacterFilter \<Rightarrow> character_row \<Rightarrow> bool \<times> int" where
  "directory_order e f = column_key e (characterOrderBy (cf_SortBy f) (cf_SortOrder f))"

definition directory_rows :: "census_env \<Rightarrow> CharacterFilter \<Rightarrow> census_db \<Rightarrow> character_row list" where
  "directory_rows e f db = sort_key (directory_order e f) (matching e db f)"

lemma directory_same:
  assumes "cv_ilike e' = cv_ilike e" "cv_rank e' = cv_rank e"
  shows "length (directory e' f db) = length (directory_rows e f db)"
    and "distinct (map (directory_order e f) (directory_rows e f db)) \<Longrightarrow> directory e' f db = map scanCharacter (directory_rows e f db)"
proof -
  have m: "matching e' db f = matching e db f" using assms(1) by (simp add: matching_def characterFilterWhere_def)
  have k: "column_key e' order = column_key e order" for order using assms(2) by (intro ext) (simp add: column_key_def)
  show "length (directory e' f db) = length (directory_rows e f db)"
    by (simp add: directory_def ordered_rows_def directory_rows_def m)
  assume "distinct (map (directory_order e f) (directory_rows e f db))"
  then have "distinct (map (directory_order e f) (matching e db f))"
    using mset_eq_imp_distinct_iff [of "map (directory_order e f) (directory_rows e f db)" "map (directory_order e f) (matching e db f)"]
    by (simp add: directory_rows_def)
  then show "directory e' f db = map scanCharacter (directory_rows e f db)"
    using ordered_rows_total [of e' "characterOrderBy (cf_SortBy f) (cf_SortOrder f)" "matching e db f"]
    by (simp add: directory_def directory_rows_def directory_order_def m k)
qed

text \<open>C28: The pages of the character directory. Each page is a request of its own, and the database may order rows with equal
  values of the sort column differently in each; the table and the collation stay the same, the reads succeed, and fewer than 2^57 rows
  match. Then each page from 1 to the number of pages shows its number, the number of pages, whether there is a previous and a next page
  and their numbers, and as many characters as its place in the directory leaves. When no two matching rows have equal values of the
  sort column, the pages put together are the matching characters in the order asked for, none missing and none twice; this holds for
  the order by id, which is the default, on a table with distinct ids. (For the other orders see \<open>tied_pages_repeat\<close>.)\<close>

theorem directory_pages_cover:
  fixes env :: "int \<Rightarrow> nat \<Rightarrow> census_env" and e :: census_env and sv :: Service and now :: timestamp and q :: query and db :: census_db
  defines "svc \<equiv> \<lambda>k. Some (pg_read (env k), sv)"
  defines "f \<equiv> directory_filter now (svc 1) q"
  defines "rows \<equiv> directory_rows e f db"
  defines "pages \<equiv> total_pages (int (length rows))"
  assumes "\<forall>k n. cv_fault (env k n) = (\<lambda>_. None) \<and> cv_ilike (env k n) = cv_ilike e \<and> cv_rank (env k n) = cv_rank e"
    and "int (length rows) < 2 ^ 57"
  shows "(\<forall>k \<in> {1..pages}. let page = directory_page_data now (svc k) q k db in
        lv_TotalPages page = pages \<and> lv_CurrentPage page = k \<and> lv_HasPrev page = (1 < k) \<and> lv_HasNext page = (k < pages)
        \<and> lv_PrevPage page = k - 1 \<and> lv_NextPage page = k + 1
        \<and> int (length (lv_Characters page)) = min 30 (int (length rows) - (k - 1) * 30))
    \<and> (distinct (map (directory_order e f) rows) \<longrightarrow>
        concat (map (\<lambda>k. lv_Characters (directory_page_data now (svc k) q k db)) [1..pages])
          = map (\<lambda>r. directory_row now (svc 1) (scanCharacter r)) rows)
    \<and> (fst (characterOrderBy (q ''sort_by'') (q ''sort_order'')) = ''id'' \<and> distinct (map cr_ID (db_characters db))
        \<longrightarrow> distinct (map (directory_order e f) rows))"
proof (intro conjI impI ballI)
  have n: "int (length rows) \<le> pages * 30" "1 \<le> pages" "pages < 2 ^ 57" "(pages - 1) * 30 < max 1 (int (length rows))"
    using total_pages_cover [of "int (length rows)"] assms(6) by (auto simp: pages_def)
  have f: "f = directory_filter now (svc k) q" for k by (simp add: f_def svc_def directory_filter_def Let_def)
  have row: "directory_row now (svc k) = directory_row now (svc 1)" for k
    by (intro ext) (simp add: directory_row_def svc_def shown_active_def split: option.split)
  have len: "length (directory (env k 5) f db) = length rows" for k
    unfolding rows_def using directory_same(1) assms(5) by metis
  note shown = directory_page_shown [where svc = "svc k" and e = "env k" and sv = sv and f = f and now = now and q = q and db = db for k,
      unfolded len pages_def [symmetric]]
  have pre: "\<forall>n. cv_fault (env k n) = (\<lambda>_. None)" "cv_ilike (env k 6) = cv_ilike (env k 5)" "svc k = Some (pg_read (env k), sv)" for k
    using assms(5) by (simp_all add: svc_def)
  {
    fix k
    assume k: "k \<in> {1..pages}"
    then have b: "1 \<le> k" "k < 2 ^ 57" using n(3) by auto
    note s = shown [OF pre(1,2,3) f b]
    have "int (length rows) - (k - 1) * 30 \<ge> 0 \<and> nat (k - 1) * 30 \<le> length rows \<or> length rows = 0 \<and> k = 1"
      using k n(4) by (auto simp: max_def split: if_splits)
    then have "int (length (lv_Characters (directory_page_data now (svc k) q k db))) = min 30 (int (length rows) - (k - 1) * 30)"
      using b len [of k] unfolding s(1) by (auto simp: min_def)
    with s(2-) show "let page = directory_page_data now (svc k) q k db in
        lv_TotalPages page = pages \<and> lv_CurrentPage page = k \<and> lv_HasPrev page = (1 < k) \<and> lv_HasNext page = (k < pages)
        \<and> lv_PrevPage page = k - 1 \<and> lv_NextPage page = k + 1
        \<and> int (length (lv_Characters page)) = min 30 (int (length rows) - (k - 1) * 30)" by (simp add: Let_def)
  }
  assume d: "distinct (map (directory_order e f) rows)"
  have all: "directory (env k 5) f db = map scanCharacter rows" for k
    using directory_same(2) [of "env k 5" e f db] assms(5) d unfolding rows_def by blast
  have page: "lv_Characters (directory_page_data now (svc (int k + 1)) q (int k + 1) db)
      = map (directory_row now (svc 1)) (take 30 (drop (k * 30) (map scanCharacter rows)))" if "k < nat pages" for k
    using shown(1) [OF pre(1,2,3) f, of "int k + 1"] that n(3) row [of "int k + 1"] by (simp add: all)
  from concat_upto_pages [where h = "directory_row now (svc 1)", OF n(2) page] n(1)
  show "concat (map (\<lambda>k. lv_Characters (directory_page_data now (svc k) q k db)) [1..pages])
      = map (\<lambda>r. directory_row now (svc 1) (scanCharacter r)) rows" by (simp add: comp_def)
next
  assume i: "fst (characterOrderBy (q ''sort_by'') (q ''sort_order'')) = ''id'' \<and> distinct (map cr_ID (db_characters db))"
  have "cf_SortBy f = q ''sort_by''" "cf_SortOrder f = q ''sort_order''" by (simp_all add: f_def directory_filter_def Let_def)
  moreover have "distinct (map cr_ID rows)"
    using i by (simp add: rows_def directory_rows_def matching_def distinct_map inj_on_def)
  ultimately show "distinct (map (directory_order e f) rows)" using i column_key_id by (simp add: directory_order_def)
qed

text \<open>Two characters of one name: the first page may show the same one as the second, when the database orders them differently in
  the two queries.\<close>

lemma tied_pages_repeat:
  "\<exists>e1 e2. cv_rank e1 = cv_rank e2 \<and> cv_ilike e1 = cv_ilike e2
     \<and> (let f = no_filter\<lparr>cf_SortBy := ''name''\<rparr>; db = empty_census\<lparr>db_characters := map (\<lambda>i. inserted_row (demo_character i 5) 0) [1, 2]\<rparr>
        in \<exists>r. Character_List e1 f 1 0 db = Inr [r] \<and> Character_List e2 f 1 1 db = Inr [r])"
proof (intro exI conjI)
  let ?db = "empty_census\<lparr>db_characters := map (\<lambda>i. inserted_row (demo_character i 5) 0) [1, 2]\<rparr>"
  let ?f = "no_filter\<lparr>cf_SortBy := ''name''\<rparr>"
  have "Character_List calm ?f 1 0 ?db = Inr [demo_character 1 5]" by code_simp
  moreover have "Character_List (calm\<lparr>cv_tie := \<lambda>i. - uint i\<rparr>) ?f 1 1 ?db = Inr [demo_character 1 5]" by code_simp
  ultimately show "let f = ?f; db = ?db in \<exists>r. Character_List calm f 1 0 db = Inr [r]
      \<and> Character_List (calm\<lparr>cv_tie := \<lambda>i. - uint i\<rparr>) f 1 1 db = Inr [r]" by (simp add: Let_def)
qed simp_all

section \<open>Examples\<close>

definition demo_day :: timestamp where "demo_day = 739500 * 24 * hour"

definition demo_snapshot :: UIStatsSnapshot where
  "demo_snapshot = \<lparr>us_SchemaVersion = 2, us_GeneratedAt = demo_day, us_ActivitySince = 1, us_MaxLevel = 100, us_SourceCharacters = 3,
     us_RefreshDuration = 1, us_Groups = [\<lparr>sg_Scope = global_scope, sg_Dimension = ''world'', sg_Key = ''Zodiark'', sg_Total = 3, sg_Active = 1\<rparr>],
     us_Expansions = [],
     us_NewCharacters = [\<lparr>sd_Scope = global_scope, sd_Day = format_day 739499, sd_Count = 2\<rparr>,
       \<lparr>sd_Scope = global_scope, sd_Day = format_day 739400, sd_Count = 5\<rparr>],
     us_Summary = \<lparr>ss_Total = 3, ss_Active = 1, ss_MaxLevel = 0\<rparr>\<rparr>"

lemma demo_snapshot_valid: "ValidateUIStatsSnapshot (Some demo_snapshot) = None"
  by code_simp

definition demo_ui :: "unit UIController" where
  "demo_ui = NewUIController None (Some (Inr (demo_snapshot, snapshot_state (NewUIStatsService 0 0) demo_snapshot 0 False))) ''https://census.example/''"

theorem dashboard_chart_adds_up_witness:
  "length (dv_ChartData (dashboard_data demo_ui demo_snapshot)) = 30
   \<and> dv_NewCharacters30d (dashboard_data demo_ui demo_snapshot) = i64 (sum_list (dv_ChartData (dashboard_data demo_ui demo_snapshot)))"
proof -
  have "day_of (us_GeneratedAt demo_snapshot) = 739500" by (simp add: demo_snapshot_def demo_day_def day_of_def hour_def minute_def second_def)
  then show ?thesis using dashboard_chart_adds_up [OF demo_snapshot_valid, of demo_ui] by simp
qed

lemma demo_groups: "world_groups demo_snapshot = [\<lparr>gc_Key = ''Zodiark'', gc_Total = 3, gc_Active = 1\<rparr>]" "isIndexableWorld ''Zodiark''"
  by code_simp+

theorem world_pages_agree_witness:
  "wp_TotalCharacters (world_detail_data demo_ui demo_snapshot ''Zodiark'') = 3"
proof -
  have s: "ui_stats demo_ui = Some (Inr (demo_snapshot, snapshot_state (NewUIStatsService 0 0) demo_snapshot 0 False))"
    by (simp add: demo_ui_def NewUIController_def)
  have w: "worlds_distinct demo_snapshot" by (simp add: worlds_distinct_def demo_groups)
  obtain x where x: "world_rows demo_snapshot = [x]" "wt_World x = ''Zodiark''" "wt_Total x = 3"
    using demo_groups by (simp add: world_rows_def world_groups_def Let_def)
  have "x \<in> set (world_rows demo_snapshot)" by (simp add: x(1))
  then have "wp_TotalCharacters (world_detail_data demo_ui demo_snapshot (wt_World x)) = wt_Total x"
    using world_pages_agree [OF s w] by (simp add: Let_def)
  then show ?thesis using x(2,3) by simp
qed

text \<open>Forty characters, and a database that turns the order of equal rows around from page to page.\<close>

definition forty :: census_db where
  "forty = empty_census\<lparr>db_characters := map (\<lambda>i. inserted_row (demo_character (of_nat i) 5) 0) [1..<41]\<rparr>"

definition turning :: "int \<Rightarrow> nat \<Rightarrow> census_env" where
  "turning k n = calm\<lparr>cv_tie := \<lambda>i. if even k then uint i else - uint i\<rparr>"

theorem directory_pages_cover_witness:
  "let svc = \<lambda>k. Some (pg_read (turning k), NewService); page = \<lambda>k. directory_page_data 0 (svc k) (\<lambda>_. []) k forty
   in lv_TotalPages (page 1) = 2 \<and> length (lv_Characters (page 2)) = 10 \<and> lv_PrevPage (page 2) = 1
      \<and> map cw_ID (concat (map (\<lambda>k. lv_Characters (page k)) [1..2])) = map of_nat [1..<41]"
proof -
  let ?svc = "\<lambda>k. Some (pg_read (turning k), NewService)"
  let ?rows = "directory_rows calm (directory_filter 0 (?svc 1) (\<lambda>_. [])) forty"
  have c: "\<forall>k n. cv_fault (turning k n) = (\<lambda>_. None) \<and> cv_ilike (turning k n) = cv_ilike calm \<and> cv_rank (turning k n) = cv_rank calm"
    by (simp add: turning_def calm_def)
  have r: "map cr_ID ?rows = map of_nat [1..<41]" by code_simp
  from arg_cong [OF r, of length] have l: "length ?rows = 40" by simp
  have d: "distinct (map cr_ID (db_characters forty))" by code_simp
  have o: "fst (characterOrderBy [] []) = ''id''" by code_simp
  have p: "total_pages (int 40) = 2" by code_simp
  note t = directory_pages_cover [of turning calm 0 NewService "\<lambda>_. []" forty, OF c, unfolded l p]
  have dist: "distinct (map (directory_order calm (directory_filter 0 (?svc 1) (\<lambda>_. []))) ?rows)" using t d o by simp
  have "concat (map (\<lambda>k. lv_Characters (directory_page_data 0 (?svc k) (\<lambda>_. []) k forty)) [1..2])
      = map (\<lambda>r. directory_row 0 (?svc 1) (scanCharacter r)) ?rows" using t dist by simp
  moreover have "map cw_ID (map (\<lambda>r. directory_row 0 (?svc 1) (scanCharacter r)) ?rows) = map cr_ID ?rows"
    by (simp add: directory_row_def scanCharacter_def CharacterRecord.defs)
  moreover have "lv_TotalPages (directory_page_data 0 (?svc 1) (\<lambda>_. []) 1 forty) = 2"
    using t [THEN conjunct1, rule_format, of 1] by (simp add: Let_def)
  moreover have "length (lv_Characters (directory_page_data 0 (?svc 2) (\<lambda>_. []) 2 forty)) = 10"
    "lv_PrevPage (directory_page_data 0 (?svc 2) (\<lambda>_. []) 2 forty) = 1"
    using t [THEN conjunct1, rule_format, of 2] by (simp_all add: Let_def)
  ultimately show ?thesis using r by (simp add: Let_def)
qed

end
