(* ===== verification/Config.thy ===== *)
theory Config
  imports Float64 Admission Proxy_Store
begin

text \<open>
  config/config.go: the configuration records, the connection strings, the .env file and the validation of the proxy settings at
  startup. viper, which fills the records from the embedded file and the environment, and net/url are inputs; \<open>ParseDuration\<close> is
  the one of the time package. The texts of the validation errors leave out the offending values.
\<close>

section \<open>Durations (time.ParseDuration)\<close>

fun leading_int :: "nat \<Rightarrow> string \<Rightarrow> (nat \<times> string) option" where
  "leading_int x [] = Some (x, [])"
| "leading_int x (c # cs) =
     (case digit_val c of
        None \<Rightarrow> Some (x, c # cs)
      | Some d \<Rightarrow> if x > 2 ^ 63 div 10 then None else if x * 10 + d > 2 ^ 63 then None else leading_int (x * 10 + d) cs)"

text \<open>Digits beyond the precision are skipped; the scale is a float64.\<close>

fun leading_fraction :: "nat \<Rightarrow> float64 \<Rightarrow> bool \<Rightarrow> string \<Rightarrow> nat \<times> float64 \<times> string" where
  "leading_fraction x scale overflow [] = (x, scale, [])"
| "leading_fraction x scale overflow (c # cs) =
     (case digit_val c of
        None \<Rightarrow> (x, scale, c # cs)
      | Some d \<Rightarrow>
          if overflow then leading_fraction x scale True cs
          else if x > (2 ^ 63 - 1) div 10 \<or> x * 10 + d > 2 ^ 63 then leading_fraction x scale True cs
          else leading_fraction (x * 10 + d) (f_mul scale (f_of_int 10)) False cs)"

definition unit_char :: "char \<Rightarrow> bool" where
  "unit_char c = (c \<noteq> CHR ''.'' \<and> digit_val c = None)"

definition unitMap :: "string \<Rightarrow> nat option" where
  "unitMap u =
     (if u = ''ns'' then Some 1
      else if u = ''us'' \<or> u = [CHR 0xC2, CHR 0xB5, CHR ''s''] \<or> u = [CHR 0xCE, CHR 0xBC, CHR ''s''] then Some 1000
      else if u = ''ms'' then Some (nat millisecond) else if u = ''s'' then Some (nat second)
      else if u = ''m'' then Some (nat minute) else if u = ''h'' then Some (nat hour) else None)"

definition f_trunc :: "float64 \<Rightarrow> nat" where
  "f_trunc x = f_mant x * 2 ^ nat (f_exp x) div 2 ^ nat (- f_exp x)"

text \<open>One number with its unit: its value and the rest of the text.\<close>

definition duration_term :: "string \<Rightarrow> (nat \<times> string) option" where
  "duration_term s =
     (case leading_int 0 s of
        None \<Rightarrow> None
      | Some (v, s1) \<Rightarrow>
          (let pre = (length s1 \<noteq> length s);
               dot = is_prefix ''.'' s1;
               (f, scale, s2) = (if dot then leading_fraction 0 (F64 False 1 0) False (tl s1) else (0, F64 False 1 0, s1));
               post = (dot \<and> length s2 \<noteq> length (tl s1));
               u = takeWhile unit_char s2; rest = dropWhile unit_char s2
           in if \<not> pre \<and> \<not> post then None
              else if u = [] then None
              else (case unitMap u of
                      None \<Rightarrow> None
                    | Some unit \<Rightarrow>
                        if v > 2 ^ 63 div unit then None
                        else (let w = v * unit + (if f > 0 then f_trunc (f_mul (f_of_int (int f)) (f_div (f_of_int (int unit)) scale)) else 0)
                              in if w > 2 ^ 63 then None else Some (w, rest)))))"

lemma leading_int_length: "leading_int x s = Some (v, r) \<Longrightarrow> length r \<le> length s"
  by (induction x s rule: leading_int.induct) (fastforce split: option.splits if_splits)+

lemma leading_fraction_length: "leading_fraction x sc ov s = (v, sc', r) \<Longrightarrow> length r \<le> length s"
  by (induction x sc ov s rule: leading_fraction.induct) (fastforce split: option.splits if_splits)+

lemma duration_term_shorter:
  assumes "duration_term s = Some (w, r)"
  shows "length r < length s"
proof -
  obtain v s1 where i: "leading_int 0 s = Some (v, s1)" using assms by (auto simp: duration_term_def split: option.splits)
  obtain f sc s2 where f: "(if is_prefix ''.'' s1 then leading_fraction 0 (F64 False 1 0) False (tl s1) else (0, F64 False 1 0, s1)) = (f, sc, s2)"
    by (metis prod_cases3)
  have "length s2 \<le> length s1" using f leading_fraction_length [of 0 "F64 False 1 0" False "tl s1" f sc s2] by (auto split: if_splits)
  moreover have r: "takeWhile unit_char s2 \<noteq> []" "r = dropWhile unit_char s2"
    using assms i f by (auto simp: duration_term_def Let_def split: if_splits option.splits)
  moreover have "length (takeWhile unit_char s2) + length (dropWhile unit_char s2) = length s2"
    by (metis length_append takeWhile_dropWhile_id)
  moreover have "0 < length (takeWhile unit_char s2)" using r(1) by simp
  ultimately show ?thesis unfolding r(2) using leading_int_length [OF i] by linarith
qed

function duration_terms :: "nat \<Rightarrow> string \<Rightarrow> nat option" where
  "duration_terms d s =
     (if s = [] then Some d
      else case duration_term s of
             None \<Rightarrow> None
           | Some (w, r) \<Rightarrow> if d + w > 2 ^ 63 then None else duration_terms (d + w) r)"
  by pat_completeness auto
termination by (relation "measure (length \<circ> snd)") (auto dest: duration_term_shorter)

declare duration_terms.simps [simp del]

definition ParseDuration :: "string \<Rightarrow> duration option" where
  "ParseDuration s =
     (let neg = is_prefix ''-'' s;
          t = (if is_prefix ''-'' s \<or> is_prefix ''+'' s then tl s else s)
      in if t = ''0'' then Some 0
         else if t = [] then None
         else (case duration_terms 0 t of
                 None \<Rightarrow> None
               | Some d \<Rightarrow> if neg then Some (- int d) else if d > 2 ^ 63 - 1 then None else Some (int d)))"

text \<open>The settings read by the container: a parsed positive duration, else the default.\<close>

definition duration_or :: "duration \<Rightarrow> string \<Rightarrow> duration" where
  "duration_or dflt s = (case ParseDuration s of Some d \<Rightarrow> if d > 0 then d else dflt | None \<Rightarrow> dflt)"

section \<open>Records\<close>

record AppConfig =
  ac_Name :: string
  ac_Env :: string
  ac_BaseURL :: string

record HTTPConfig =
  hc_Host :: string
  hc_Port :: int
  hc_ReadTimeout :: string
  hc_WriteTimeout :: string
  hc_IdleTimeout :: string

record LoggingConfig =
  lg_Default :: string
  lg_ServerDefault :: string
  lg_Level :: string

record AuthConfig =
  au_Enabled :: bool
  au_Token :: string
  au_Routes :: "string list"
  au_Users :: "string list"

record MetricsConfig =
  mc_Endpoint :: string
  mc_Prefix :: string

record PostgresConfig =
  pc_DSN :: string
  pc_Host :: string
  pc_Port :: int
  pc_User :: string
  pc_Password :: string
  pc_Database :: string
  pc_SSLMode :: string
  pc_MaxOpenConns :: int
  pc_MaxIdleConns :: int

record RabbitMQConfig =
  rc_URL :: string
  rc_Host :: string
  rc_AMQPPort :: int
  rc_User :: string
  rc_Password :: string
  rc_Vhost :: string

record LodestoneConfig =
  lc_RateLimit :: rat
  lc_MaxRetries :: int

record UIStatsConfig =
  uc_CacheTTL :: string
  uc_StaleWarning :: string
  uc_RefreshTimeout :: string

record CfgExpansion =
  ce_Name :: string
  ce_Version :: string
  ce_FinalQuest :: string
  ce_Icon :: string
  ce_LevelCap :: u32
  ce_AchievementID :: u32

record CensusConfig =
  cc_ActivityWindowDays :: int
  cc_MaxLevel :: u32
  cc_Expansions :: "CfgExpansion list"
  cc_UIStats :: "UIStatsConfig option"

record ProxyScanConfig =
  px_VerificationInterval :: duration
  px_FreshnessTTL :: duration
  px_RecoveryBase :: duration
  px_RecoveryCap :: duration
  px_RecoveryHorizon :: duration
  px_WeightVerification :: int
  px_WeightRecovery :: int
  px_WeightBackground :: int
  px_LeaseDuration :: duration
  px_MinRepeatInterval :: duration
  px_InconclusiveRetry :: duration
  px_ControlInterval :: duration

record ProxyConsumerConfig =
  pn_LockTTL :: string
  pn_LodestoneRateLimit :: rat
  pn_RequestTimeout :: string
  pn_TestURL :: string
  pn_TestTimeout :: duration
  pn_Cooldown :: duration

text \<open>The providers are a switch and a base URL each.\<close>

datatype provider_name = ProxyScrape | Geonode | PubProxy | Proxifly | TheSpeedX | Monosans | Gfpcom | Thordata | Hproxy | Sage520
  | ErcinDedeoglu

record ProxyProviderConfig =
  pp_enabled :: "provider_name \<Rightarrow> bool"
  pp_URL :: "provider_name \<Rightarrow> string"

record ProxyConfig =
  xc_TestURL :: string
  xc_TestTimeout :: duration
  xc_DeadThresholdDays :: int
  xc_FailCountThreshold :: int
  xc_Scan :: ProxyScanConfig
  xc_Providers :: ProxyProviderConfig
  xc_Consumer :: ProxyConsumerConfig

record Config =
  cg_App :: AppConfig
  cg_Logging :: "LoggingConfig option"
  cg_HTTP :: HTTPConfig
  cg_Auth :: "AuthConfig option"
  cg_Metrics :: "MetricsConfig option"
  cg_Postgres :: "PostgresConfig option"
  cg_RabbitMQ :: "RabbitMQConfig option"
  cg_QueueMaxAttempts :: "int option"
  cg_Lodestone :: "LodestoneConfig option"
  cg_Census :: "CensusConfig option"
  cg_Proxy :: "ProxyConfig option"

definition or_default :: "string \<Rightarrow> string \<Rightarrow> string" where
  "or_default s d = (if s = [] then d else s)"

definition GetDSN :: "PostgresConfig \<Rightarrow> string" where
  "GetDSN p =
     (if pc_DSN p \<noteq> [] then pc_DSN p
      else ''postgres://'' @ or_default (pc_User p) ''census'' @ '':'' @ pc_Password p @ ''@'' @ or_default (pc_Host p) ''localhost'' @ '':''
        @ show_int (if pc_Port p = 0 then 5432 else pc_Port p) @ ''/'' @ or_default (pc_Database p) ''ffxiv_census''
        @ ''?sslmode='' @ or_default (pc_SSLMode p) ''disable'')"

definition GetURL :: "RabbitMQConfig \<Rightarrow> string" where
  "GetURL r =
     (if rc_URL r \<noteq> [] then rc_URL r
      else ''amqp://'' @ or_default (rc_User r) ''guest'' @ '':'' @ rc_Password r @ ''@'' @ or_default (rc_Host r) ''localhost'' @ '':''
        @ show_int (if rc_AMQPPort r = 0 then 5672 else rc_AMQPPort r) @ ''/'' @ or_default (rc_Vhost r) ''/'')"

section \<open>The .env file\<close>

type_synonym environment = "string \<rightharpoonup> string"

definition unquote :: "string \<Rightarrow> string" where
  "unquote v =
     (if length v \<ge> 2 \<and> (hd v = CHR 0x22 \<and> last v = CHR 0x22 \<or> hd v = CHR 0x27 \<and> last v = CHR 0x27)
      then butlast (tl v) else v)"

text \<open>A line without an assignment is skipped.\<close>

definition dotenv_line :: "string \<Rightarrow> (string \<times> string) option" where
  "dotenv_line text =
     (let line = trim_space text
      in if line = [] \<or> is_prefix ''#'' line then None
         else (case str_index line ''='' of
                 None \<Rightarrow> None
               | Some i \<Rightarrow> Some (trim_space (take i line), unquote (trim_space (drop (Suc i) line)))))"

text \<open>\<open>os.Setenv\<close> refuses an empty name and NUL bytes; the name holds no equals sign here. Its error is ignored.\<close>

definition setenv :: "string \<Rightarrow> string \<Rightarrow> environment \<Rightarrow> environment" where
  "setenv k v env = (if k = [] \<or> CHR 0x00 \<in> set k \<or> CHR 0x00 \<in> set v then env else env(k \<mapsto> v))"

fun loadDotEnv :: "string list \<Rightarrow> environment \<Rightarrow> environment" where
  "loadDotEnv [] env = env"
| "loadDotEnv (l # ls) env =
     loadDotEnv ls (case dotenv_line l of
        None \<Rightarrow> env
      | Some (k, v) \<Rightarrow> if env k = None then setenv k v env else env)"

section \<open>Validation\<close>

record url_parts =
  hu_Scheme :: string
  hu_Host :: string
  hu_User :: "string option"

definition validateHTTPSURL :: "(string \<Rightarrow> url_parts result) \<Rightarrow> string \<Rightarrow> string \<Rightarrow> err option" where
  "validateHTTPSURL url_Parse key raw =
     (case url_Parse raw of
        Inl e \<Rightarrow> Some (EWrap (''config: '' @ key @ '': invalid URL: '') e [])
      | Inr u \<Rightarrow>
          if hu_Scheme u \<noteq> ''https'' then Some (EText (''config: '' @ key @ '' must use https''))
          else if hu_Host u = [] then Some (EText (''config: '' @ key @ '' must include a host''))
          else if hu_User u \<noteq> None then Some (EText (''config: '' @ key @ '' must not contain credentials''))
          else None)"

definition validatePositive :: "string \<Rightarrow> int \<Rightarrow> err option" where
  "validatePositive key d = (if d \<le> 0 then Some (EText (''config: '' @ key @ '' must be positive'')) else None)"

text \<open>A sequence of checks ends with its first error.\<close>

definition scan_durations :: "ProxyScanConfig \<Rightarrow> (string \<times> duration) list" where
  "scan_durations scan =
     [(''proxy.scan.verification_interval'', px_VerificationInterval scan), (''proxy.scan.freshness_ttl'', px_FreshnessTTL scan),
      (''proxy.scan.recovery_base'', px_RecoveryBase scan), (''proxy.scan.recovery_cap'', px_RecoveryCap scan),
      (''proxy.scan.recovery_horizon'', px_RecoveryHorizon scan), (''proxy.scan.lease_duration'', px_LeaseDuration scan),
      (''proxy.scan.min_repeat_interval'', px_MinRepeatInterval scan), (''proxy.scan.inconclusive_retry'', px_InconclusiveRetry scan),
      (''proxy.scan.control_interval'', px_ControlInterval scan)]"

definition scan_weights :: "ProxyScanConfig \<Rightarrow> (string \<times> int) list" where
  "scan_weights scan =
     [(''proxy.scan.weight_verification'', px_WeightVerification scan), (''proxy.scan.weight_recovery'', px_WeightRecovery scan),
      (''proxy.scan.weight_background'', px_WeightBackground scan)]"

definition complain :: "bool \<Rightarrow> string \<Rightarrow> err option" where
  "complain bad msg = (if bad then Some (EText (''config: '' @ msg)) else None)"

definition validateProxySettings :: "(string \<Rightarrow> url_parts result) \<Rightarrow> Config \<Rightarrow> err option" where
  "validateProxySettings url_Parse cfg =
     (case cg_Proxy cfg of
        None \<Rightarrow> Some (EText ''config: [proxy] section missing'')
      | Some proxy \<Rightarrow>
          (let scan = xc_Scan proxy; w0 = px_WeightVerification scan; w1 = px_WeightRecovery scan; w2 = px_WeightBackground scan
           in first_some
             ([validateHTTPSURL url_Parse ''proxy.test_url'' (xc_TestURL proxy),
               validatePositive ''proxy.test_timeout'' (xc_TestTimeout proxy),
               validatePositive ''proxy.dead_threshold_days'' (xc_DeadThresholdDays proxy),
               validatePositive ''proxy.fail_count_threshold'' (xc_FailCountThreshold proxy)]
              @ map (\<lambda>(k, d). validatePositive k d) (scan_durations scan)
              @ map (\<lambda>(k, w). validatePositive k w) (scan_weights scan)
              @ [complain (i64 (i64 (w0 + w1) + w2) \<noteq> 100) ''proxy.scan weights must sum to 100'',
                 complain (px_FreshnessTTL scan \<le> i64 (px_VerificationInterval scan + xc_TestTimeout proxy))
                   ''proxy.scan.freshness_ttl must exceed verification_interval + test_timeout'',
                 complain (px_LeaseDuration scan \<le> xc_TestTimeout proxy) ''proxy.scan.lease_duration must exceed test_timeout'',
                 complain (px_RecoveryCap scan < px_RecoveryBase scan) ''proxy.scan.recovery_cap must be at least recovery_base'',
                 complain (px_MinRepeatInterval scan > px_InconclusiveRetry scan)
                   ''proxy.scan.min_repeat_interval must not exceed inconclusive_retry'',
                 validateHTTPSURL url_Parse ''proxy.consumer.test_url'' (pn_TestURL (xc_Consumer proxy)),
                 validatePositive ''proxy.consumer.test_timeout'' (pn_TestTimeout (xc_Consumer proxy)),
                 validatePositive ''proxy.consumer.cooldown'' (pn_Cooldown (xc_Consumer proxy))])))"

text \<open>\<open>viper\<close> reads the embedded file under the environment; its errors come before the validation.\<close>

definition NewConfig :: "(string \<Rightarrow> url_parts result) \<Rightarrow> (environment \<Rightarrow> Config result) \<Rightarrow> string list \<Rightarrow> environment
    \<Rightarrow> Config result \<times> environment" where
  "NewConfig url_Parse viper dotenv env =
     (let env' = loadDotEnv dotenv env
      in (case viper env' of
            Inl e \<Rightarrow> Inl e
          | Inr cfg \<Rightarrow> (case validateProxySettings url_Parse cfg of Some e \<Rightarrow> Inl e | None \<Rightarrow> Inr cfg), env'))"

section \<open>What validation accepts\<close>

lemma first_some_None: "first_some xs = None \<longleftrightarrow> (\<forall>x \<in> set xs. x = None)"
  by (induction xs rule: first_some.induct) auto

definition https_ok :: "(string \<Rightarrow> url_parts result) \<Rightarrow> string \<Rightarrow> bool" where
  "https_ok url_Parse raw \<longleftrightarrow> (\<exists>u. url_Parse raw = Inr u \<and> hu_Scheme u = ''https'' \<and> hu_Host u \<noteq> [] \<and> hu_User u = None)"

lemma validateHTTPSURL_None [simp]: "validateHTTPSURL up key raw = None \<longleftrightarrow> https_ok up raw"
  by (auto simp: validateHTTPSURL_def https_ok_def split: sum.splits)

lemma validatePositive_None [simp]: "validatePositive key d = None \<longleftrightarrow> 0 < d"
  by (auto simp: validatePositive_def)

lemma complain_None [simp]: "complain bad msg = None \<longleftrightarrow> \<not> bad"
  by (simp add: complain_def)

text \<open>The accepted settings, with the sums as int64 computes them.\<close>

definition scan_ok :: "duration \<Rightarrow> ProxyScanConfig \<Rightarrow> bool" where
  "scan_ok timeout scan \<longleftrightarrow>
     0 < px_VerificationInterval scan \<and> 0 < px_FreshnessTTL scan \<and> 0 < px_RecoveryBase scan \<and> px_RecoveryBase scan \<le> px_RecoveryCap scan
     \<and> 0 < px_RecoveryHorizon scan \<and> timeout < px_LeaseDuration scan \<and> 0 < px_LeaseDuration scan \<and> 0 < px_MinRepeatInterval scan
     \<and> px_MinRepeatInterval scan \<le> px_InconclusiveRetry scan \<and> 0 < px_ControlInterval scan
     \<and> 0 < px_WeightVerification scan \<and> 0 < px_WeightRecovery scan \<and> 0 < px_WeightBackground scan
     \<and> i64 (i64 (px_WeightVerification scan + px_WeightRecovery scan) + px_WeightBackground scan) = 100
     \<and> i64 (px_VerificationInterval scan + timeout) < px_FreshnessTTL scan"

lemma validate_iff:
  "validateProxySettings up cfg = None \<longleftrightarrow>
     (\<exists>proxy. cg_Proxy cfg = Some proxy \<and> https_ok up (xc_TestURL proxy) \<and> https_ok up (pn_TestURL (xc_Consumer proxy))
       \<and> 0 < xc_TestTimeout proxy \<and> 0 < xc_DeadThresholdDays proxy \<and> 0 < xc_FailCountThreshold proxy
       \<and> 0 < pn_TestTimeout (xc_Consumer proxy) \<and> 0 < pn_Cooldown (xc_Consumer proxy) \<and> scan_ok (xc_TestTimeout proxy) (xc_Scan proxy))"
  by (cases "cg_Proxy cfg")
    (auto simp: validateProxySettings_def Let_def first_some_None scan_durations_def scan_weights_def scan_ok_def not_le not_less)

lemma sums_of_weights:
  assumes "scan_ok timeout scan" "is_i64 (px_WeightVerification scan + px_WeightRecovery scan + px_WeightBackground scan)"
  shows "px_WeightVerification scan + px_WeightRecovery scan + px_WeightBackground scan = 100"
proof -
  have "is_i64 (px_WeightVerification scan + px_WeightRecovery scan)" using assms by (auto simp: scan_ok_def is_i64_def min_i64_def)
  then show ?thesis using assms by (simp add: scan_ok_def i64_id)
qed

section \<open>The environment\<close>

lemma loadDotEnv_keeps: "env k = Some v \<Longrightarrow> loadDotEnv ls env k = Some v"
proof (induction ls arbitrary: env)
  case (Cons l ls)
  show ?case using Cons.prems by (auto intro!: Cons.IH simp: setenv_def split: option.splits)
qed simp

text \<open>A name that was not set gets the value of the first line that can set it.\<close>

definition settable :: "string \<Rightarrow> string \<Rightarrow> bool" where
  "settable k v \<longleftrightarrow> k \<noteq> [] \<and> CHR 0x00 \<notin> set k \<and> CHR 0x00 \<notin> set v"

lemma loadDotEnv_first:
  "env k = None \<Longrightarrow> loadDotEnv ls env k = map_of (filter (\<lambda>(k, v). settable k v) (List.map_filter dotenv_line ls)) k"
proof (induction ls arbitrary: env)
  case (Cons l ls)
  show ?case
  proof (cases "dotenv_line l")
    case None
    then show ?thesis using Cons by (simp add: map_filter_simps)
  next
    case (Some p)
    obtain k' v where p: "p = (k', v)" by (cases p)
    show ?thesis
    proof (cases "k' = k \<and> settable k' v")
      case True
      then show ?thesis using Cons.prems Some p
        by (auto simp: map_filter_simps setenv_def settable_def intro!: loadDotEnv_keeps)
    next
      case False
      then have "(if env k' = None then setenv k' v env else env) k = None" using Cons.prems by (auto simp: setenv_def settable_def)
      then show ?thesis using Cons.IH Some p False by (auto simp: map_filter_simps)
    qed
  qed
qed (simp add: map_filter_simps)

end
