(* ===== verification/Pg_Driver.thy ===== *)
theory Pg_Driver
  imports Config
begin

text \<open>
  infrastructure/postgres: the schema migrations and the driver that applies them when it is opened. The migration files are read as
  lists of statements over the catalogue (tables with their columns, indexes, named constraints, references); of the rows only those of
  the legacy table \<open>queue_jobs\<close> are kept, for the command that migrates them. The migration tool goose is a parameter.
\<close>

section \<open>The catalogue\<close>

record pgQueueJob =
  pj_ID :: int
  pj_Type :: string
  pj_Payload :: payload
  pj_Status :: string
  pj_Attempts :: int
  pj_MaxAttempts :: int
  pj_LastError :: string

record catalogue =
  pg_tables :: "(string \<times> string list) list"
  pg_indexes :: "(string \<times> string \<times> string list) list"
  pg_constraints :: "(string \<times> string) list"
  pg_references :: "(string \<times> string) list"
  pg_queue :: "pgQueueJob list"

definition empty_catalogue :: catalogue where
  "empty_catalogue = \<lparr>pg_tables = [], pg_indexes = [], pg_constraints = [], pg_references = [], pg_queue = []\<rparr>"

text \<open>
  Statements of the migration files. The flag is IF NOT EXISTS. A statement that only touches rows, such as an UPDATE, needs its tables
  (\<open>UseTable\<close>). \<open>EnsureConstraint\<close> is the guarded block that adds a constraint unless it is there.
\<close>

datatype statement =
    SelectOne
  | CreateTable bool string "string list" "string list" "string list"
  | DropTable string
  | DropTableCascade string
  | AddColumn bool string string
  | DropColumn string string
  | CreateIndex bool string string "string list"
  | DropIndex string
  | AddConstraint string string
  | DropConstraint string string
  | EnsureConstraint string string
  | UseTable string

definition has_table :: "catalogue \<Rightarrow> string \<Rightarrow> bool" where
  "has_table c t \<longleftrightarrow> t \<in> set (map fst (pg_tables c))"

definition columns :: "catalogue \<Rightarrow> string \<Rightarrow> string list" where
  "columns c t = (case map_of (pg_tables c) t of None \<Rightarrow> [] | Some cs \<Rightarrow> cs)"

definition replace_columns :: "string \<Rightarrow> string list \<Rightarrow> catalogue \<Rightarrow> catalogue" where
  "replace_columns t cs c = c\<lparr>pg_tables := map (\<lambda>x. if fst x = t then (t, cs) else x) (pg_tables c)\<rparr>"

text \<open>Indexes, constraints and references go with their table; the rows too.\<close>

definition forget_table :: "string \<Rightarrow> catalogue \<Rightarrow> catalogue" where
  "forget_table t c = c\<lparr>
     pg_tables := filter (\<lambda>x. fst x \<noteq> t) (pg_tables c),
     pg_indexes := filter (\<lambda>x. fst (snd x) \<noteq> t) (pg_indexes c),
     pg_constraints := filter (\<lambda>x. fst x \<noteq> t) (pg_constraints c),
     pg_references := filter (\<lambda>x. fst x \<noteq> t \<and> snd x \<noteq> t) (pg_references c),
     pg_queue := (if t = ''queue_jobs'' then [] else pg_queue c)\<rparr>"

text \<open>What PostgreSQL does with a statement; \<open>None\<close> is an SQL error.\<close>

fun exec :: "statement \<Rightarrow> catalogue \<Rightarrow> catalogue option" where
  "exec SelectOne c = Some c"
| "exec (CreateTable ine t cs ks refs) c =
     (if has_table c t then (if ine then Some c else None)
      else if \<forall>r \<in> set refs. has_table c r
           then Some (c\<lparr>pg_tables := pg_tables c @ [(t, cs)], pg_constraints := pg_constraints c @ map (Pair t) ks,
                        pg_references := pg_references c @ map (Pair t) refs\<rparr>)
           else None)"
| "exec (DropTable t) c =
     (if \<not> has_table c t then Some c
      else if t \<in> set (map snd (filter (\<lambda>x. fst x \<noteq> t) (pg_references c))) then None
      else Some (forget_table t c))"
| "exec (DropTableCascade t) c = (if has_table c t then Some (forget_table t c) else Some c)"
| "exec (AddColumn ine t col) c =
     (if \<not> has_table c t then None
      else if col \<in> set (columns c t) then (if ine then Some c else None)
      else Some (replace_columns t (columns c t @ [col]) c))"
| "exec (DropColumn t col) c =
     (if \<not> has_table c t then None
      else Some (replace_columns t (filter (\<lambda>x. x \<noteq> col) (columns c t))
             (c\<lparr>pg_indexes := filter (\<lambda>x. \<not> (fst (snd x) = t \<and> col \<in> set (snd (snd x)))) (pg_indexes c)\<rparr>)))"
| "exec (CreateIndex ine i t cs) c =
     (if i \<in> set (map fst (pg_indexes c)) then (if ine then Some c else None)
      else if has_table c t \<and> set cs \<subseteq> set (columns c t) then Some (c\<lparr>pg_indexes := pg_indexes c @ [(i, t, cs)]\<rparr>)
      else None)"
| "exec (DropIndex i) c = Some (c\<lparr>pg_indexes := filter (\<lambda>x. fst x \<noteq> i) (pg_indexes c)\<rparr>)"
| "exec (AddConstraint t k) c =
     (if has_table c t \<and> (t, k) \<notin> set (pg_constraints c) then Some (c\<lparr>pg_constraints := pg_constraints c @ [(t, k)]\<rparr>) else None)"
| "exec (DropConstraint t k) c =
     (if (t, k) \<in> set (pg_constraints c) then Some (c\<lparr>pg_constraints := filter (\<lambda>x. x \<noteq> (t, k)) (pg_constraints c)\<rparr>) else None)"
| "exec (EnsureConstraint t k) c =
     (if \<not> has_table c t then None
      else if (t, k) \<in> set (pg_constraints c) then Some c else Some (c\<lparr>pg_constraints := pg_constraints c @ [(t, k)]\<rparr>))"
| "exec (UseTable t) c = (if has_table c t then Some c else None)"

fun exec_all :: "statement list \<Rightarrow> catalogue \<Rightarrow> catalogue option" where
  "exec_all [] c = Some c"
| "exec_all (s # ss) c = (case exec s c of None \<Rightarrow> None | Some c' \<Rightarrow> exec_all ss c')"

section \<open>The migration files\<close>

record migration =
  mi_version :: nat
  mi_up :: "statement list"
  mi_down :: "statement list"

definition migration1 :: migration where
  "migration1 = \<lparr>mi_version = 1, mi_up = [SelectOne], mi_down = [SelectOne]\<rparr>"

definition migration2 :: migration where
  "migration2 = \<lparr>mi_version = 2,
     mi_up = [CreateTable False ''queue_jobs''
         [''id'', ''type'', ''payload'', ''payload_hash'', ''status'', ''run_at'', ''attempts'', ''max_attempts'', ''claimed_at'', ''created_at''] [] [],
       CreateIndex False ''idx_queue_jobs_claim'' ''queue_jobs'' [''type'', ''status'', ''run_at''],
       CreateIndex False ''idx_queue_jobs_status'' ''queue_jobs'' [''status'']],
     mi_down = [DropTable ''queue_jobs'']\<rparr>"

definition migration3 :: migration where
  "migration3 = \<lparr>mi_version = 3,
     mi_up = [CreateTable False ''characters'' [''id'', ''name'', ''world'', ''datacenter'', ''region'', ''race'', ''tribe'', ''gender'',
         ''grand_company'', ''fc_id'', ''fc_name'', ''achievements_private'', ''latest_achievement_id'', ''latest_achievement_at'',
         ''first_seen_at'', ''last_census_at'', ''deleted_at''] [] [],
       CreateIndex False ''idx_characters_region'' ''characters'' [''region''],
       CreateIndex False ''idx_characters_world'' ''characters'' [''world''],
       CreateIndex False ''idx_characters_datacenter'' ''characters'' [''datacenter''],
       CreateIndex False ''idx_characters_race'' ''characters'' [''race''],
       CreateIndex False ''idx_characters_fc'' ''characters'' [''fc_id''],
       CreateIndex False ''idx_characters_last_census'' ''characters'' [''last_census_at''],
       CreateTable False ''character_jobs'' [''character_id'', ''class_job_id'', ''name'', ''level'', ''exp_level''] [] [],
       CreateTable False ''milestone_achievements'' [''achievement_id'', ''kind'', ''expansion'', ''detail''] [] [],
       CreateTable False ''character_milestones'' [''character_id'', ''achievement_id'', ''achieved_at''] [] [],
       CreateTable False ''free_companies'' [''id'', ''name'', ''world'', ''datacenter'', ''member_count'', ''formed_at'', ''last_seen_at''] [] [],
       CreateTable False ''census_runs'' [''id'', ''started_at'', ''finished_at'', ''characters_seen'', ''new_characters''] [] []],
     mi_down = [DropTable ''census_runs'', DropTable ''free_companies'', DropTable ''character_milestones'',
       DropTable ''milestone_achievements'', DropTable ''character_jobs'', DropTable ''characters'']\<rparr>"

definition migration4 :: migration where
  "migration4 = \<lparr>mi_version = 4,
     mi_up = [CreateIndex False ''idx_characters_latest_achievement'' ''characters'' [''latest_achievement_at''],
       CreateIndex False ''idx_characters_first_seen'' ''characters'' [''first_seen_at'']],
     mi_down = [DropIndex ''idx_characters_latest_achievement'', DropIndex ''idx_characters_first_seen'']\<rparr>"

definition migration5 :: migration where
  "migration5 = \<lparr>mi_version = 5,
     mi_up = [AddColumn True ''characters'' ''avatar_url'', AddColumn True ''characters'' ''portrait_url'', AddColumn True ''characters'' ''bio'',
       AddColumn True ''characters'' ''active_job'', AddColumn True ''characters'' ''item_level'',
       CreateTable True ''character_gear'' [''character_id'', ''slot'', ''item_id'', ''name'', ''item_level'', ''dye'', ''materia'', ''updated_at'']
         [] [''characters''],
       CreateIndex True ''idx_character_gear_char_id'' ''character_gear'' [''character_id'']],
     mi_down = [DropTable ''character_gear'']\<rparr>"

definition migration6 :: migration where
  "migration6 = \<lparr>mi_version = 6,
     mi_up = [AddColumn True ''queue_jobs'' ''last_error'', AddColumn True ''queue_jobs'' ''failed_at'', AddColumn True ''queue_jobs'' ''completed_at'',
       CreateIndex True ''idx_queue_jobs_status_type_run'' ''queue_jobs'' [''status'', ''type'', ''run_at''],
       CreateIndex True ''idx_queue_jobs_failed_at'' ''queue_jobs'' [''status'', ''failed_at'']],
     mi_down = [DropIndex ''idx_queue_jobs_failed_at'', DropIndex ''idx_queue_jobs_status_type_run'']\<rparr>"

definition migration7 :: migration where
  "migration7 = \<lparr>mi_version = 7,
     mi_up = [CreateIndex True ''idx_character_milestones_achievement_achieved'' ''character_milestones'' [''achievement_id'', ''achieved_at''],
       CreateIndex True ''idx_character_milestones_char_ach'' ''character_milestones'' [''character_id'', ''achievement_id'']],
     mi_down = [DropIndex ''idx_character_milestones_achievement_achieved'', DropIndex ''idx_character_milestones_char_ach'']\<rparr>"

definition migration8 :: migration where
  "migration8 = \<lparr>mi_version = 8,
     mi_up = [CreateTable False ''proxies'' [''id'', ''protocol'', ''ip'', ''port'', ''country'', ''anonymity'', ''latency_ms'', ''uptime_percent'',
         ''status'', ''last_scanned_at'', ''last_alive_at'', ''first_seen_at'', ''source'', ''fail_count'', ''created_at'', ''updated_at'']
         [''proxies_protocol_ip_port_key''] [],
       CreateIndex False ''idx_proxies_scan_priority'' ''proxies'' [''status'', ''last_scanned_at'']],
     mi_down = [DropTable ''proxies'']\<rparr>"

definition migration9 :: migration where
  "migration9 = \<lparr>mi_version = 9,
     mi_up = [AddColumn True ''proxies'' ''locked_by'', AddColumn True ''proxies'' ''locked_at'',
       CreateIndex True ''idx_proxies_available'' ''proxies'' [''status'', ''locked_at'', ''latency_ms'']],
     mi_down = [DropIndex ''idx_proxies_available'', DropColumn ''proxies'' ''locked_at'', DropColumn ''proxies'' ''locked_by'']\<rparr>"

definition migration10 :: migration where
  "migration10 = \<lparr>mi_version = 10, mi_up = [DropTable ''queue_jobs''], mi_down = []\<rparr>"

definition migration11 :: migration where
  "migration11 = \<lparr>mi_version = 11, mi_up = [DropTableCascade ''free_companies''], mi_down = []\<rparr>"

definition migration12 :: migration where
  "migration12 = \<lparr>mi_version = 12, mi_up = [UseTable ''proxies'', EnsureConstraint ''proxies'' ''proxies_protocol_ip_port_key''], mi_down = []\<rparr>"

definition migration13 :: migration where
  "migration13 = \<lparr>mi_version = 13,
     mi_up = [DropColumn ''characters'' ''avatar_url'', DropColumn ''characters'' ''portrait_url''],
     mi_down = [AddColumn False ''characters'' ''avatar_url'', AddColumn False ''characters'' ''portrait_url'']\<rparr>"

definition migration14 :: migration where
  "migration14 = \<lparr>mi_version = 14, mi_up = [CreateTable False ''id_sweep_state'' [''singleton'', ''next_id'', ''updated_at''] [] []],
     mi_down = [DropTable ''id_sweep_state'']\<rparr>"

definition schema_version_check :: string where
  "schema_version_check = ''ui_stats_snapshots_schema_version_check''"

definition migration15 :: migration where
  "migration15 = \<lparr>mi_version = 15,
     mi_up = [AddColumn False ''characters'' ''max_job_level'', UseTable ''character_jobs'',
       CreateTable False ''ui_stats_snapshots'' [''snapshot_key'', ''schema_version'', ''generated_at'', ''activity_since'', ''max_level'',
         ''source_character_count'', ''refresh_duration_ms'', ''payload''] [''ui_stats_snapshots_snapshot_key_check'', schema_version_check] []],
     mi_down = [DropTable ''ui_stats_snapshots'', DropColumn ''characters'' ''max_job_level'']\<rparr>"

definition migration16 :: migration where
  "migration16 = \<lparr>mi_version = 16,
     mi_up = [DropConstraint ''ui_stats_snapshots'' schema_version_check, AddConstraint ''ui_stats_snapshots'' schema_version_check],
     mi_down = [UseTable ''ui_stats_snapshots'', DropConstraint ''ui_stats_snapshots'' schema_version_check,
       AddConstraint ''ui_stats_snapshots'' schema_version_check]\<rparr>"

definition migration17 :: migration where
  "migration17 = \<lparr>mi_version = 17,
     mi_up = map (AddColumn False ''proxies'') [''general_healthy'', ''last_completed_at'', ''last_verified_at'', ''next_attempt_at'',
         ''scan_not_before'', ''recovery_step'', ''observation_version'', ''scan_token'', ''scan_lease_until'', ''claimed_version'',
         ''destination_cooldown_until''] @
       [CreateIndex False ''idx_proxies_verification_due'' ''proxies'' [''next_attempt_at'', ''id''],
        CreateIndex False ''idx_proxies_recovery_due'' ''proxies'' [''next_attempt_at'', ''id''],
        CreateIndex False ''idx_proxies_background_completed'' ''proxies'' [''last_completed_at'', ''id''],
        CreateIndex False ''idx_proxies_fresh_verified'' ''proxies'' [''last_verified_at'']],
     mi_down = [DropIndex ''idx_proxies_fresh_verified'', DropIndex ''idx_proxies_background_completed'', DropIndex ''idx_proxies_recovery_due'',
        DropIndex ''idx_proxies_verification_due''] @
       map (DropColumn ''proxies'') [''destination_cooldown_until'', ''claimed_version'', ''scan_lease_until'', ''scan_token'',
         ''observation_version'', ''recovery_step'', ''scan_not_before'', ''next_attempt_at'', ''last_verified_at'', ''last_completed_at'',
         ''general_healthy'']\<rparr>"

definition migration18 :: migration where
  "migration18 = \<lparr>mi_version = 18, mi_up = [CreateTable False ''fill_gaps_state'' [''singleton'', ''last_queued_id'', ''updated_at''] [] []],
     mi_down = [DropTable ''fill_gaps_state'']\<rparr>"

definition migration_FS :: "migration list" where
  "migration_FS = [migration1, migration2, migration3, migration4, migration5, migration6, migration7, migration8, migration9, migration10,
     migration11, migration12, migration13, migration14, migration15, migration16, migration17, migration18]"

section \<open>What goose documents\<close>

text \<open>
  A database is a catalogue with the versions that goose has recorded. \<open>Up\<close> runs the migrations that are not recorded, in the order of
  their versions, and records them; \<open>DownTo 0\<close> runs the recorded ones backwards in the reverse order and removes the records. The
  documented behaviour that the code relies on is what a call that returns no error has done.
\<close>

record database =
  db_catalogue :: catalogue
  db_versions :: "nat list"

fun apply_up :: "migration list \<Rightarrow> database \<Rightarrow> database option" where
  "apply_up [] db = Some db"
| "apply_up (m # ms) db =
     (if mi_version m \<in> set (db_versions db) then apply_up ms db
      else case exec_all (mi_up m) (db_catalogue db) of
             None \<Rightarrow> None
           | Some c \<Rightarrow> apply_up ms \<lparr>db_catalogue = c, db_versions = db_versions db @ [mi_version m]\<rparr>)"

fun apply_down :: "migration list \<Rightarrow> database \<Rightarrow> database option" where
  "apply_down [] db = Some db"
| "apply_down (m # ms) db =
     (case apply_down ms db of
        None \<Rightarrow> None
      | Some db1 \<Rightarrow>
          if mi_version m \<notin> set (db_versions db1) then Some db1
          else case exec_all (mi_down m) (db_catalogue db1) of
                 None \<Rightarrow> None
               | Some c \<Rightarrow> Some \<lparr>db_catalogue = c, db_versions = filter (\<lambda>v. v \<noteq> mi_version m) (db_versions db1)\<rparr>)"

record goose =
  go_NewProvider :: "migration list \<Rightarrow> err option"
  go_Up :: "migration list \<Rightarrow> database \<Rightarrow> err option \<times> database"
  go_DownTo0 :: "migration list \<Rightarrow> database \<Rightarrow> err option \<times> database"

definition goose_documented :: "goose \<Rightarrow> bool" where
  "goose_documented g \<longleftrightarrow>
     (\<forall>ms db db'. go_Up g ms db = (None, db') \<longrightarrow> apply_up ms db = Some db')
     \<and> (\<forall>ms db db'. go_DownTo0 g ms db = (None, db') \<longrightarrow> apply_down ms db = Some db')"

section \<open>The driver (driver.go)\<close>

record pool_settings =
  ps_MaxOpen :: int
  ps_MaxIdle :: int
  ps_MaxLifetime :: duration
  ps_MaxIdleTime :: duration

text \<open>\<open>dr_once\<close> is the outcome that the \<open>sync.Once\<close> keeps, \<open>None\<close> before it has run.\<close>

record Driver =
  dr_cfg :: PostgresConfig
  dr_migFS :: "migration list"
  dr_once :: "err option option"
  dr_pool :: "pool_settings option"

definition applyPoolSettings :: "PostgresConfig \<Rightarrow> pool_settings" where
  "applyPoolSettings cfg =
     \<lparr>ps_MaxOpen = (if pc_MaxOpenConns cfg \<le> 0 then 10 else pc_MaxOpenConns cfg),
      ps_MaxIdle = (if pc_MaxIdleConns cfg \<le> 0 then 5 else pc_MaxIdleConns cfg),
      ps_MaxLifetime = 30 * minute, ps_MaxIdleTime = 5 * minute\<rparr>"

text \<open>The part that MigrateUp and the first opening share.\<close>

definition goose_up :: "goose \<Rightarrow> migration list \<Rightarrow> database \<Rightarrow> err option \<times> database" where
  "goose_up g ms db =
     (case go_NewProvider g ms of
        Some e \<Rightarrow> (Some (EWrap ''create goose provider: '' e []), db)
      | None \<Rightarrow> (case go_Up g ms db of (Some e, db') \<Rightarrow> (Some (EWrap ''goose up: '' e []), db') | (None, db') \<Rightarrow> (None, db')))"

definition Driver_migrateUp :: "goose \<Rightarrow> (string \<Rightarrow> err option) \<Rightarrow> Driver \<Rightarrow> database \<Rightarrow> err option \<times> Driver \<times> database" where
  "Driver_migrateUp g sql_Open d db =
     (case sql_Open (GetDSN (dr_cfg d)) of
        Some e \<Rightarrow> (Some (EWrap ''open postgres: '' e []), d, db)
      | None \<Rightarrow>
          (let d' = d\<lparr>dr_pool := Some (applyPoolSettings (dr_cfg d))\<rparr>
           in case goose_up g (dr_migFS d) db of (e, db') \<Rightarrow> (e, d', db')))"

definition Driver_initialise :: "goose \<Rightarrow> (string \<Rightarrow> err option) \<Rightarrow> Driver \<Rightarrow> database \<Rightarrow> err option \<times> Driver \<times> database" where
  "Driver_initialise g sql_Open d db =
     (case dr_once d of
        Some e \<Rightarrow> (e, d, db)
      | None \<Rightarrow> (case Driver_migrateUp g sql_Open d db of (e, d', db') \<Rightarrow> (e, d'\<lparr>dr_once := Some e\<rparr>, db')))"

definition NewDriver :: "goose \<Rightarrow> (string \<Rightarrow> err option) \<Rightarrow> PostgresConfig option \<Rightarrow> migration list option \<Rightarrow> database
    \<Rightarrow> Driver result \<times> database" where
  "NewDriver g sql_Open cfg fs db =
     (case cfg of
        None \<Rightarrow> (Inl (EText ''postgres config is nil''), db)
      | Some cf \<Rightarrow>
          (case fs of
             None \<Rightarrow> (Inl (EText ''postgres migrations fs is nil''), db)
           | Some ms \<Rightarrow>
               (case Driver_initialise g sql_Open \<lparr>dr_cfg = cf, dr_migFS = ms, dr_once = None, dr_pool = None\<rparr> db of
                  (Some e, d, db') \<Rightarrow> (Inl e, db')
                | (None, d, db') \<Rightarrow> (Inr d, db'))))"

text \<open>Every query first acquires the pool; \<open>run\<close> is the statement on the open database.\<close>

definition Driver_query :: "goose \<Rightarrow> (string \<Rightarrow> err option) \<Rightarrow> Driver \<Rightarrow> (database \<Rightarrow> 'a result \<times> database) \<Rightarrow> database
    \<Rightarrow> 'a result \<times> Driver \<times> database" where
  "Driver_query g sql_Open d run db =
     (case Driver_initialise g sql_Open d db of
        (Some e, d', db') \<Rightarrow> (Inl e, d', db')
      | (None, d', db') \<Rightarrow> (case run db' of (r, db'') \<Rightarrow> (r, d', db'')))"

text \<open>\<open>QueryRowContext\<close> keeps its error in the row: \<open>row\<close> is what \<open>Scan\<close> will report.\<close>

definition Driver_FetchOne :: "goose \<Rightarrow> (string \<Rightarrow> err option) \<Rightarrow> Driver \<Rightarrow> (database \<Rightarrow> 'a result) \<Rightarrow> database
    \<Rightarrow> 'a result result \<times> Driver \<times> database" where
  "Driver_FetchOne g sql_Open d row db = Driver_query g sql_Open d (\<lambda>db. (Inr (row db), db)) db"

definition MigrateUp :: "goose \<Rightarrow> (string \<Rightarrow> err option) \<Rightarrow> Driver \<Rightarrow> database \<Rightarrow> err option \<times> Driver \<times> database" where
  "MigrateUp g sql_Open d db =
     (case Driver_initialise g sql_Open d db of
        (Some e, d', db') \<Rightarrow> (Some e, d', db')
      | (None, d', db') \<Rightarrow> (case goose_up g (dr_migFS d) db' of (e, db'') \<Rightarrow> (e, d', db'')))"

definition MigrateDown :: "goose \<Rightarrow> (string \<Rightarrow> err option) \<Rightarrow> Driver \<Rightarrow> database \<Rightarrow> err option \<times> Driver \<times> database" where
  "MigrateDown g sql_Open d db =
     (case Driver_initialise g sql_Open d db of
        (Some e, d', db') \<Rightarrow> (Some e, d', db')
      | (None, d', db') \<Rightarrow>
          (case go_NewProvider g (dr_migFS d) of
             Some e \<Rightarrow> (Some (EWrap ''create goose provider: '' e []), d', db')
           | None \<Rightarrow>
               (case go_DownTo0 g (dr_migFS d) db' of
                  (Some e, db'') \<Rightarrow> (Some (EWrap ''goose down: '' e []), d', db'')
                | (None, db'') \<Rightarrow> (None, d', db''))))"

section \<open>Facts\<close>

lemma apply_up_append:
  "apply_up (ms @ ms') db = (case apply_up ms db of None \<Rightarrow> None | Some db' \<Rightarrow> apply_up ms' db')"
  by (induction ms db rule: apply_up.induct) (auto split: option.splits)

lemma apply_up_recorded: "set (map mi_version ms) \<subseteq> set (db_versions db) \<Longrightarrow> apply_up ms db = Some db"
  by (induction ms) auto

lemma apply_up_versions:
  "apply_up ms db = Some db' \<Longrightarrow> set (db_versions db') = set (db_versions db) \<union> set (map mi_version ms)"
  by (induction ms db rule: apply_up.induct) (auto split: if_splits option.splits)

lemma apply_down_append: "apply_down (ms @ ms') db = (case apply_down ms' db of None \<Rightarrow> None | Some db' \<Rightarrow> apply_down ms db')"
  by (induction ms) (auto split: option.splits)

lemma apply_down_unrecorded: "set (map mi_version ms) \<inter> set (db_versions db) = {} \<Longrightarrow> apply_down ms db = Some db"
  by (induction ms) auto

text \<open>An interrupted upgrade is resumed: the migrations that are recorded are skipped.\<close>

lemma apply_up_resume:
  assumes "apply_up ms db = Some db0"
  shows "apply_up (ms @ ms') db0 = apply_up (ms @ ms') db"
proof -
  have "set (map mi_version ms) \<subseteq> set (db_versions db0)" using apply_up_versions [OF assms] by blast
  from apply_up_recorded [OF this] assms show ?thesis by (simp add: apply_up_append)
qed

definition fresh_database :: database where
  "fresh_database = \<lparr>db_catalogue = empty_catalogue, db_versions = []\<rparr>"

text \<open>A migration tool that does what is documented.\<close>

definition plain_goose :: goose where
  "plain_goose = \<lparr>go_NewProvider = (\<lambda>_. None),
     go_Up = (\<lambda>ms db. case apply_up ms db of None \<Rightarrow> (Some (EText ''up''), db) | Some db' \<Rightarrow> (None, db')),
     go_DownTo0 = (\<lambda>ms db. case apply_down ms db of None \<Rightarrow> (Some (EText ''down''), db) | Some db' \<Rightarrow> (None, db'))\<rparr>"

lemma plain_goose_documented: "goose_documented plain_goose"
  by (auto simp: goose_documented_def plain_goose_def split: option.splits)

end
