(* ===== verification/Wiring.thy ===== *)
theory Wiring
  imports Config Census_Handlers UI_Stats_Cache
begin

text \<open>
  container: how the configuration becomes services. The container builds each component on first use and keeps it; an
  accessor whose construction fails returns nil and tries again on the next call. Here a component is the value its constructor was
  called with, with an identity; whether opening the database, the broker or the StatsD socket succeeds is an input. Accessors run one at
  a time here: most of them hold the container's mutex, and the commands call the others while they start.
\<close>

section \<open>Settings read from the configuration\<close>

definition proxyScanPolicy :: "ProxyConfig \<Rightarrow> ProxyScanPolicy" where
  "proxyScanPolicy cfg =
     \<lparr>po_VerifyInterval = px_VerificationInterval (xc_Scan cfg), po_FreshnessTTL = px_FreshnessTTL (xc_Scan cfg),
      po_RecoveryBase = px_RecoveryBase (xc_Scan cfg), po_RecoveryCap = px_RecoveryCap (xc_Scan cfg),
      po_RecoveryHorizon = px_RecoveryHorizon (xc_Scan cfg), po_LeaseDuration = px_LeaseDuration (xc_Scan cfg),
      po_MinRepeatInterval = px_MinRepeatInterval (xc_Scan cfg), po_InconclusiveRetry = px_InconclusiveRetry (xc_Scan cfg),
      po_DeadAfter = i64 (i64 (xc_DeadThresholdDays cfg * 24) * hour), po_FailThreshold = xc_FailCountThreshold cfg\<rparr>"

definition ProxyScanWeights :: "ProxyConfig \<Rightarrow> int arr3" where
  "ProxyScanWeights cfg =
     A3 (px_WeightVerification (xc_Scan cfg)) (px_WeightRecovery (xc_Scan cfg)) (px_WeightBackground (xc_Scan cfg))"

definition consumer_lock_ttl :: "Config \<Rightarrow> duration" where
  "consumer_lock_ttl cfg =
     (case cg_Proxy cfg of
        None \<Rightarrow> 5 * minute
      | Some p \<Rightarrow> if pn_LockTTL (xc_Consumer p) = [] then 5 * minute else duration_or (5 * minute) (pn_LockTTL (xc_Consumer p)))"

definition proxyConsumerCooldown :: "Config \<Rightarrow> duration" where
  "proxyConsumerCooldown cfg =
     (case cg_Proxy cfg of None \<Rightarrow> minute | Some p \<Rightarrow> if pn_Cooldown (xc_Consumer p) > 0 then pn_Cooldown (xc_Consumer p) else minute)"

definition queue_max_attempts :: "Config \<Rightarrow> int" where
  "queue_max_attempts cfg = (case cg_QueueMaxAttempts cfg of Some n \<Rightarrow> if n > 0 then n else 5 | None \<Rightarrow> 5)"

definition statsd_target :: "string \<Rightarrow> Config \<Rightarrow> string \<times> string" where
  "statsd_target envEndpoint cfg =
     (let configured = (case cg_Metrics cfg of None \<Rightarrow> [] | Some m \<Rightarrow> mc_Endpoint m);
          prefix = (case cg_Metrics cfg of None \<Rightarrow> ''ffxiv-census'' | Some m \<Rightarrow> or_default (mc_Prefix m) ''ffxiv-census'');
          endpoint = (if envEndpoint \<noteq> [] then envEndpoint else configured)
      in (or_default endpoint ''127.0.0.1:8125'', prefix))"

definition stats_ttls :: "Config \<Rightarrow> duration \<times> duration" where
  "stats_ttls cfg =
     (case cg_Census cfg of
        None \<Rightarrow> (minute, 12 * hour)
      | Some c \<Rightarrow> (case cc_UIStats c of
           None \<Rightarrow> (minute, 12 * hour)
         | Some u \<Rightarrow> (duration_or minute (uc_CacheTTL u), duration_or (12 * hour) (uc_StaleWarning u))))"

definition configured_service :: "Config \<Rightarrow> Service" where
  "configured_service cfg =
     (case cg_Census cfg of
        None \<Rightarrow> NewService
      | Some c \<Rightarrow>
          SetConfig (cc_MaxLevel c)
            (map (\<lambda>e. expansion (ce_Name e) (ce_Version e) (ce_FinalQuest e) (ce_Icon e) (ce_LevelCap e) (ce_AchievementID e)) (cc_Expansions c))
            (if cc_ActivityWindowDays c > 0 then SetActivityWindow (i64 (i64 (cc_ActivityWindowDays c * 24) * hour)) NewService else NewService))"

text \<open>The milestone registry is filled before the service is used; an error is logged only.\<close>

definition start_census :: "'s census_ports \<Rightarrow> Config \<Rightarrow> 's \<Rightarrow> Service \<times> 's" where
  "start_census pt cfg s = (case Service_SyncMilestones pt (configured_service cfg) s of (e, sv, s') \<Rightarrow> (sv, s'))"

section \<open>Components\<close>

datatype component = CHttp | CDiscovery | CStatsd | CRegistry | CLimiter | CDatabase | CQueue | CLodestone
  | CCharacters | CAchievements | CRuns | CStatsRepo | CProxyRepo | CChecker | CDestChecker | CProvider provider_name
  | CCensus | CUIStats | CProxyService

text \<open>What was constructed, with the identities of the components it was given.\<close>

datatype built =
    BHttpClient
  | BRotatingClient nat duration nat duration ProxyScanPolicy nat duration
  | BStatsdClient string string
  | BRegistry
  | BRateLimiter
  | BDriver PostgresConfig
  | BQueue string int
  | BLodestone LodestoneConfig nat
  | BRepository nat
  | BProxyRepository nat ProxyScanPolicy
  | BHealthChecker string duration
  | BDestinationChecker string duration
  | BProxyScrape nat string
  | BGeonode nat string
  | BPubProxy nat string
  | BTextProxy nat string "(string \<times> string) list"
  | BCensusService Service nat nat nat
  | BUIStatsService UIStatsService nat nat
  | BProxyService "nat list" nat

record container =
  ct_config :: Config
  ct_objects :: "component \<rightharpoonup> nat \<times> built"
  ct_next :: nat

record world_inputs =
  wi_driver :: "nat \<Rightarrow> bool"
  wi_queue :: "nat \<Rightarrow> bool"
  wi_lodestone :: "nat \<Rightarrow> bool"
  wi_statsd :: "nat \<Rightarrow> bool"
  wi_STATSD_ADDRESS :: string

type_synonym accessor = "container \<Rightarrow> (nat \<times> built) option \<times> container"

text \<open>The shape of every accessor: the kept component, else the one constructed now, which is kept. Failures are not.\<close>

definition keep :: "component \<Rightarrow> built \<Rightarrow> accessor" where
  "keep k b ct =
     (Some (ct_next ct, b), ct\<lparr>ct_objects := (ct_objects ct)(k \<mapsto> (ct_next ct, b)), ct_next := Suc (ct_next ct)\<rparr>)"

definition memo :: "component \<Rightarrow> accessor \<Rightarrow> accessor" where
  "memo k build ct = (case ct_objects ct k of Some ob \<Rightarrow> (Some ob, ct) | None \<Rightarrow> build ct)"

definition keep_if :: "bool \<Rightarrow> component \<Rightarrow> built \<Rightarrow> accessor" where
  "keep_if ok k b ct = (if ok then keep k b ct else (None, ct))"

text \<open>Use another component; without it the accessor returns nil.\<close>

definition using_component :: "accessor \<Rightarrow> (nat \<Rightarrow> accessor) \<Rightarrow> accessor" where
  "using_component a f ct = (case a ct of (None, ct') \<Rightarrow> (None, ct') | (Some ob, ct') \<Rightarrow> f (fst ob) ct')"

definition HTTPClient :: accessor where
  "HTTPClient = memo CHttp (keep CHttp BHttpClient)"

definition Statsd :: "world_inputs \<Rightarrow> accessor" where
  "Statsd w = memo CStatsd (\<lambda>ct. case statsd_target (wi_STATSD_ADDRESS w) (ct_config ct) of
     (endpoint, prefix) \<Rightarrow> keep_if (wi_statsd w (ct_next ct)) CStatsd (BStatsdClient endpoint prefix) ct)"

definition PrometheusRegistry :: accessor where
  "PrometheusRegistry = memo CRegistry (keep CRegistry BRegistry)"

definition ProviderRateLimiter :: accessor where
  "ProviderRateLimiter = memo CLimiter (keep CLimiter BRateLimiter)"

definition Database :: "world_inputs \<Rightarrow> accessor" where
  "Database w = memo CDatabase (\<lambda>ct. case cg_Postgres (ct_config ct) of
     None \<Rightarrow> (None, ct)
   | Some cfg \<Rightarrow> keep_if (wi_driver w (ct_next ct)) CDatabase (BDriver cfg) ct)"

definition Container_Queue :: "world_inputs \<Rightarrow> accessor" where
  "Container_Queue w = memo CQueue (\<lambda>ct. case cg_RabbitMQ (ct_config ct) of
     None \<Rightarrow> (None, ct)
   | Some cfg \<Rightarrow> keep_if (wi_queue w (ct_next ct)) CQueue (BQueue (GetURL cfg) (queue_max_attempts (ct_config ct))) ct)"

definition Container_LodestoneClient :: "world_inputs \<Rightarrow> accessor" where
  "Container_LodestoneClient w = memo CLodestone (\<lambda>ct. case cg_Lodestone (ct_config ct) of
     None \<Rightarrow> (None, ct)
   | Some cfg \<Rightarrow> using_component ProviderRateLimiter
       (\<lambda>limiter ct. keep_if (wi_lodestone w (ct_next ct)) CLodestone (BLodestone cfg limiter) ct) ct)"

definition Repository :: "world_inputs \<Rightarrow> component \<Rightarrow> accessor" where
  "Repository w k = memo k (using_component (Database w) (\<lambda>d. keep k (BRepository d)))"

definition CharacterRepository :: "world_inputs \<Rightarrow> accessor" where "CharacterRepository w = Repository w CCharacters"

definition AchievementRepository :: "world_inputs \<Rightarrow> accessor" where "AchievementRepository w = Repository w CAchievements"

definition CensusRunRepository :: "world_inputs \<Rightarrow> accessor" where "CensusRunRepository w = Repository w CRuns"

definition UIStatsRepository :: "world_inputs \<Rightarrow> accessor" where "UIStatsRepository w = Repository w CStatsRepo"

text \<open>A configuration that passed the validation has a proxy section; without one the code panics.\<close>

definition with_proxy :: "(ProxyConfig \<Rightarrow> accessor) \<Rightarrow> accessor" where
  "with_proxy f ct = (case cg_Proxy (ct_config ct) of None \<Rightarrow> (None, ct) | Some p \<Rightarrow> f p ct)"

definition ProxyRepository :: "world_inputs \<Rightarrow> accessor" where
  "ProxyRepository w = memo CProxyRepo (using_component (Database w)
     (\<lambda>d. with_proxy (\<lambda>p. keep CProxyRepo (BProxyRepository d (proxyScanPolicy p)))))"

definition ProxyChecker :: accessor where
  "ProxyChecker = memo CChecker (with_proxy (\<lambda>p. keep CChecker (BHealthChecker (xc_TestURL p) (xc_TestTimeout p))))"

definition DestinationChecker :: accessor where
  "DestinationChecker = memo CDestChecker (with_proxy (\<lambda>p.
     keep CDestChecker (BDestinationChecker (pn_TestURL (xc_Consumer p)) (pn_TestTimeout (xc_Consumer p)))))"

text \<open>Without a database the discovery client is the direct one, and it is not kept as the discovery client.\<close>

definition DiscoveryHTTPClient :: "world_inputs \<Rightarrow> accessor" where
  "DiscoveryHTTPClient w = memo CDiscovery (\<lambda>ct.
     case Database w ct of
       (None, ct1) \<Rightarrow> HTTPClient ct1
     | (Some d, ct1) \<Rightarrow>
         using_component (ProxyRepository w) (\<lambda>repo.
         using_component DestinationChecker (\<lambda>checker.
         using_component HTTPClient (\<lambda>direct. with_proxy (\<lambda>p ct.
           keep CDiscovery (BRotatingClient repo (consumer_lock_ttl (ct_config ct)) checker (proxyConsumerCooldown (ct_config ct))
             (proxyScanPolicy p) direct (30 * second)) ct)))) ct1)"

definition trim_slashes :: "string \<Rightarrow> string" where
  "trim_slashes s = rev (dropWhile (\<lambda>c. c = CHR ''/'') (rev s))"

definition all_protocols :: "string \<Rightarrow> string \<Rightarrow> string list \<Rightarrow> (string \<times> string) list" where
  "all_protocols base file protocols = map (\<lambda>p. (p, base @ ''/'' @ p @ file)) protocols"

fun provider_built :: "provider_name \<Rightarrow> nat \<Rightarrow> string \<Rightarrow> built" where
  "provider_built ProxyScrape client url = BProxyScrape client url"
| "provider_built Geonode client url = BGeonode client url"
| "provider_built PubProxy client url = BPubProxy client url"
| "provider_built Proxifly client url =
     BTextProxy client ''proxifly'' (all_protocols (trim_slashes url) ''/data.txt'' [''http'', ''socks4'', ''socks5''])"
| "provider_built TheSpeedX client url =
     BTextProxy client ''thespeedx'' (all_protocols (trim_slashes url) ''.txt'' [''http'', ''socks4'', ''socks5''])"
| "provider_built Monosans client url =
     BTextProxy client ''monosans'' (all_protocols (trim_slashes url) ''.txt'' [''http'', ''socks4'', ''socks5''])"
| "provider_built Gfpcom client url =
     BTextProxy client ''gfpcom'' (all_protocols (trim_slashes url) ''.txt'' [''http'', ''socks4'', ''socks5''])"
| "provider_built Thordata client url = BTextProxy client ''thordata'' (all_protocols (trim_slashes url) ''.txt'' [''http''])"
| "provider_built Hproxy client url =
     BTextProxy client ''hproxy'' (all_protocols (trim_slashes url) ''.txt'' [''http'', ''socks4'', ''socks5''])"
| "provider_built Sage520 client url =
     BTextProxy client ''sage520'' (all_protocols (trim_slashes url) ''.txt'' [''http'', ''socks4'', ''socks5''])"
| "provider_built ErcinDedeoglu client url =
     BTextProxy client ''ercindedeoglu'' (all_protocols (trim_slashes url) ''.txt'' [''http'', ''socks5''])"

definition Provider :: "world_inputs \<Rightarrow> provider_name \<Rightarrow> accessor" where
  "Provider w n = memo (CProvider n) (with_proxy (\<lambda>p.
     if \<not> pp_enabled (xc_Providers p) n then (\<lambda>ct. (None, ct))
     else using_component (DiscoveryHTTPClient w) (\<lambda>client. keep (CProvider n) (provider_built n client (pp_URL (xc_Providers p) n)))))"

section \<open>Domain services (domain.go)\<close>

definition Container_CensusService :: "world_inputs \<Rightarrow> accessor" where
  "Container_CensusService w = memo CCensus (using_component (AchievementRepository w) (\<lambda>ach.
     using_component (CharacterRepository w) (\<lambda>chars. using_component (CensusRunRepository w) (\<lambda>runs ct.
       keep CCensus (BCensusService (configured_service (ct_config ct)) chars ach runs) ct))))"

definition Container_UIStatsService :: "world_inputs \<Rightarrow> accessor" where
  "Container_UIStatsService w = memo CUIStats (using_component (UIStatsRepository w) (\<lambda>repo.
     using_component PrometheusRegistry (\<lambda>reg ct.
       case stats_ttls (ct_config ct) of
         (ttl, stale) \<Rightarrow> keep CUIStats (BUIStatsService ((NewUIStatsService ttl stale)\<lparr>cs_observer := True\<rparr>) repo reg) ct)))"

definition provider_order :: "provider_name list" where
  "provider_order = [ProxyScrape, Geonode, PubProxy, Proxifly, TheSpeedX, Monosans, Gfpcom, Thordata, Hproxy, Sage520, ErcinDedeoglu]"

fun collect_providers :: "world_inputs \<Rightarrow> provider_name list \<Rightarrow> container \<Rightarrow> nat list \<times> container" where
  "collect_providers w [] ct = ([], ct)"
| "collect_providers w (n # ns) ct =
     (case Provider w n ct of (p, ct1) \<Rightarrow>
      (case collect_providers w ns ct1 of (ps, ct2) \<Rightarrow> ((case p of None \<Rightarrow> ps | Some ob \<Rightarrow> fst ob # ps), ct2)))"

definition Container_ProxyService :: "world_inputs \<Rightarrow> accessor" where
  "Container_ProxyService w = memo CProxyService (using_component (ProxyRepository w) (\<lambda>repo ct.
     case collect_providers w provider_order ct of (ps, ct1) \<Rightarrow> keep CProxyService (BProxyService ps repo) ct1))"

text \<open>ProxyHub makes a new hub on every call; the hub shares the repository and the destination checker.\<close>

definition Container_ProxyHub :: "world_inputs \<Rightarrow> container \<Rightarrow> (nat \<times> duration \<times> nat \<times> duration \<times> ProxyScanPolicy) option \<times> container" where
  "Container_ProxyHub w ct =
     (case ProxyRepository w ct of
        (None, ct1) \<Rightarrow> (None, ct1)
      | (Some repo, ct1) \<Rightarrow>
          (case (DestinationChecker ct1, cg_Proxy (ct_config ct1)) of
             ((Some chk, ct2), Some p) \<Rightarrow>
               (Some (fst repo, consumer_lock_ttl (ct_config ct2), fst chk, proxyConsumerCooldown (ct_config ct2), proxyScanPolicy p), ct2)
           | ((_, ct2), _) \<Rightarrow> (None, ct2)))"

text \<open>
  The registries of handlers: per event the Lodestone client, the census service and, for achievements, the rate limiter. A client
  that could not be built is registered as nil.
\<close>

type_synonym registration = "string \<times> nat option \<times> nat \<times> nat option"

definition census_registrations :: "nat option \<Rightarrow> nat \<Rightarrow> nat option \<Rightarrow> registration list" where
  "census_registrations client svc limiter =
     [(EventIDSweep, client, svc, None), (EventAchievementCensus, client, svc, limiter), (EventCharacterCensus, client, svc, None)]"

definition Handlers :: "world_inputs \<Rightarrow> container \<Rightarrow> registration list \<times> container" where
  "Handlers w ct =
     (case Container_CensusService w ct of
        (None, ct1) \<Rightarrow> ([], ct1)
      | (Some svc, ct1) \<Rightarrow>
          (case Container_LodestoneClient w ct1 of (client, ct2) \<Rightarrow>
          (case ProviderRateLimiter ct2 of (limiter, ct3) \<Rightarrow>
             (census_registrations (map_option fst client) (fst svc) (map_option fst limiter), ct3))))"

definition ProxyCensusHandlers :: "world_inputs \<Rightarrow> nat \<Rightarrow> nat \<Rightarrow> container \<Rightarrow> registration list \<times> container" where
  "ProxyCensusHandlers w client limiter ct =
     (case Container_CensusService w ct of
        (None, ct1) \<Rightarrow> ([], ct1)
      | (Some svc, ct1) \<Rightarrow> (census_registrations (Some client) (fst svc) (Some limiter), ct1))"

definition ProxyHandlers :: "world_inputs \<Rightarrow> container \<Rightarrow> (string \<times> nat) list \<times> container" where
  "ProxyHandlers w ct =
     (case Container_ProxyService w ct of
        (None, ct1) \<Rightarrow> ([], ct1)
      | (Some svc, ct1) \<Rightarrow> ([(''new-proxy'', fst svc)], ct1))"

definition NewServiceContainer :: "Config \<Rightarrow> container" where
  "NewServiceContainer cfg = \<lparr>ct_config = cfg, ct_objects = Map.empty, ct_next = 0\<rparr>"

section \<open>Every component is built once\<close>

text \<open>\<open>has ct k j\<close>: the container keeps component \<open>k\<close> under the identity \<open>j\<close>.\<close>

definition has :: "container \<Rightarrow> component \<Rightarrow> nat \<Rightarrow> bool" where
  "has ct k j \<longleftrightarrow> (\<exists>b. ct_objects ct k = Some (j, b))"

text \<open>The components that a component was given are the kept ones.\<close>

fun given :: "container \<Rightarrow> built \<Rightarrow> bool" where
  "given ct (BRepository d) = has ct CDatabase d"
| "given ct (BProxyRepository d pol) = (has ct CDatabase d \<and> Some pol = map_option proxyScanPolicy (cg_Proxy (ct_config ct)))"
| "given ct (BRotatingClient repo ttl chk cool pol direct timeout) =
     (has ct CProxyRepo repo \<and> has ct CDestChecker chk \<and> has ct CHttp direct \<and> 0 < ttl \<and> 0 < cool
      \<and> Some pol = map_option proxyScanPolicy (cg_Proxy (ct_config ct)))"
| "given ct (BLodestone cfg l) = has ct CLimiter l"
| "given ct (BProxyScrape c url) = (has ct CDiscovery c \<or> has ct CHttp c)"
| "given ct (BGeonode c url) = (has ct CDiscovery c \<or> has ct CHttp c)"
| "given ct (BPubProxy c url) = (has ct CDiscovery c \<or> has ct CHttp c)"
| "given ct (BTextProxy c n urls) = (has ct CDiscovery c \<or> has ct CHttp c)"
| "given ct (BCensusService sv c a r) = (has ct CCharacters c \<and> has ct CAchievements a \<and> has ct CRuns r)"
| "given ct (BUIStatsService svc repo reg) = (has ct CStatsRepo repo \<and> has ct CRegistry reg)"
| "given ct (BProxyService ps repo) = (has ct CProxyRepo repo \<and> (\<forall>j \<in> set ps. \<exists>n. has ct (CProvider n) j))"
| "given ct b = True"

definition wired :: "container \<Rightarrow> bool" where
  "wired ct \<longleftrightarrow>
     (\<forall>k j b. ct_objects ct k = Some (j, b) \<longrightarrow> j < ct_next ct \<and> given ct b)
     \<and> (\<forall>k k' j. has ct k j \<and> has ct k' j \<longrightarrow> k = k')"

text \<open>The container grows: nothing kept is replaced, and only components in \<open>T\<close> are added.\<close>

definition grows :: "component set \<Rightarrow> container \<Rightarrow> container \<Rightarrow> bool" where
  "grows T ct ct' \<longleftrightarrow>
     ct_config ct' = ct_config ct \<and> (\<forall>k. k \<notin> T \<longrightarrow> ct_objects ct' k = ct_objects ct k) \<and> ct_objects ct \<subseteq>\<^sub>m ct_objects ct'"

definition sound :: "component set \<Rightarrow> component set \<Rightarrow> (container \<Rightarrow> bool) \<Rightarrow> accessor \<Rightarrow> bool" where
  "sound K T P a \<longleftrightarrow>
     (\<forall>ct r ct'. wired ct \<and> P ct \<and> a ct = (r, ct') \<longrightarrow>
        wired ct' \<and> grows T ct ct' \<and> (\<forall>j b. r = Some (j, b) \<longrightarrow> (\<exists>k \<in> K. ct_objects ct' k = Some (j, b))))"

lemma has_mono: "grows T ct ct' \<Longrightarrow> has ct k j \<Longrightarrow> has ct' k j"
  by (auto simp: grows_def has_def map_le_def dom_def)

lemma grows_config: "grows T ct ct' \<Longrightarrow> ct_config ct' = ct_config ct"
  by (simp add: grows_def)

lemma given_mono: "grows T ct ct' \<Longrightarrow> given ct b \<Longrightarrow> given ct' b"
  by (cases b) (auto intro: has_mono simp: grows_config; blast intro: has_mono)+

lemma grows_refl [simp]: "grows T ct ct"
  by (simp add: grows_def)

lemma grows_trans: "grows T ct ct' \<Longrightarrow> grows T' ct' ct'' \<Longrightarrow> T \<subseteq> U \<Longrightarrow> T' \<subseteq> U \<Longrightarrow> grows U ct ct''"
  unfolding grows_def by (metis map_le_trans subsetD)

lemma kept:
  assumes w: "wired ct" and n: "ct_objects ct k = None" "given ct b" and a: "keep k b ct = (r, ct')" and "k \<in> K" "k \<in> T"
  shows "wired ct' \<and> grows T ct ct' \<and> (\<forall>j b. r = Some (j, b) \<longrightarrow> (\<exists>k \<in> K. ct_objects ct' k = Some (j, b)))"
proof -
  have r: "r = Some (ct_next ct, b)" and o: "ct_objects ct' = (ct_objects ct)(k \<mapsto> (ct_next ct, b))" and c: "ct_config ct' = ct_config ct"
    and x: "ct_next ct' = Suc (ct_next ct)" using a by (auto simp: keep_def)
  have g: "grows T ct ct'" using n assms(6) o c by (auto simp: grows_def map_le_def)
  have "given ct' b'" if "ct_objects ct' k' = Some (j, b')" for k' j b'
    using that n w o given_mono [OF g] by (auto simp: wired_def split: if_splits)
  moreover have "j < ct_next ct'" if "ct_objects ct' k' = Some (j, b')" for k' j b'
    using that w o x by (auto simp: wired_def less_Suc_eq split: if_splits)
  moreover have "k1 = k2" if "has ct' k1 j" "has ct' k2 j" for k1 k2 j
    using that w o by (fastforce simp: wired_def has_def split: if_splits)
  ultimately have "wired ct'" by (auto simp: wired_def)
  then show ?thesis using g r o assms(5) by auto
qed

lemma keep_if_sound:
  assumes "k \<in> K" "k \<in> T" "\<And>ct. wired ct \<Longrightarrow> P ct \<Longrightarrow> ct_objects ct k = None \<and> given ct (b ct)"
  shows "sound K T P (\<lambda>ct. keep_if (ok ct) k (b ct) ct)"
  unfolding sound_def
proof (intro allI impI, elim conjE)
  fix ct r ct' assume w: "wired ct" and P: "P ct" and e: "keep_if (ok ct) k (b ct) ct = (r, ct')"
  show "wired ct' \<and> grows T ct ct' \<and> (\<forall>j b. r = Some (j, b) \<longrightarrow> (\<exists>k \<in> K. ct_objects ct' k = Some (j, b)))"
  proof (cases "ok ct")
    case True
    then have "keep k (b ct) ct = (r, ct')" using e by (simp add: keep_if_def)
    then show ?thesis using kept [OF w _ _ _ assms(1,2)] assms(3) [OF w P] by blast
  next
    case False
    then show ?thesis using e w by (auto simp: keep_if_def)
  qed
qed

lemma keep_sound:
  assumes "k \<in> K" "k \<in> T" "\<And>ct. wired ct \<Longrightarrow> P ct \<Longrightarrow> ct_objects ct k = None \<and> given ct (b ct)"
  shows "sound K T P (\<lambda>ct. keep k (b ct) ct)"
  using keep_if_sound [where P = P and ok = "\<lambda>_. True", OF assms] by (simp add: keep_if_def)

lemma none_sound: "sound K T P (\<lambda>ct. (None, ct))"
  by (simp add: sound_def)

lemma memo_sound: "sound K T (\<lambda>ct. P ct \<and> ct_objects ct k = None) a \<Longrightarrow> k \<in> K \<Longrightarrow> sound K T P (memo k a)"
  by (fastforce simp: sound_def memo_def split: option.splits)

text \<open>The precondition of the continuation may use that the used component is kept; it must survive the growth by \<open>T'\<close>.\<close>

lemma using_sound:
  assumes "sound K' T' P a" "T' \<subseteq> T"
    and "\<And>j. sound K T (\<lambda>ct. Q ct \<and> (\<exists>k \<in> K'. has ct k j)) (f j)"
    and "\<And>ct ct'. P ct \<Longrightarrow> grows T' ct ct' \<Longrightarrow> Q ct'"
  shows "sound K T P (using_component a f)"
  unfolding sound_def
proof (intro allI impI, elim conjE)
  fix ct r ct' assume w: "wired ct" and P: "P ct" and u: "using_component a f ct = (r, ct')"
  obtain x ct1 where a: "a ct = (x, ct1)" by (cases "a ct")
  have s: "wired ct1" "grows T' ct ct1" "\<And>j b. x = Some (j, b) \<Longrightarrow> \<exists>k \<in> K'. ct_objects ct1 k = Some (j, b)"
    using assms(1) w P a unfolding sound_def by blast+
  show "wired ct' \<and> grows T ct ct' \<and> (\<forall>j b. r = Some (j, b) \<longrightarrow> (\<exists>k \<in> K. ct_objects ct' k = Some (j, b)))"
  proof (cases x)
    case None
    then show ?thesis using u a s(1,2) assms(2) by (auto simp: using_component_def intro: grows_trans [OF _ grows_refl])
  next
    case (Some ob)
    obtain j b where ob: "ob = (j, b)" by (cases ob)
    have f: "f j ct1 = (r, ct')" using u a Some ob by (simp add: using_component_def)
    have "Q ct1 \<and> (\<exists>k \<in> K'. has ct1 k j)" using assms(4) [OF P s(2)] s(3) Some ob by (auto simp: has_def)
    then have "wired ct' \<and> grows T ct1 ct' \<and> (\<forall>j b. r = Some (j, b) \<longrightarrow> (\<exists>k \<in> K. ct_objects ct' k = Some (j, b)))"
      using assms(3) [of j] s(1) f unfolding sound_def by blast
    then show ?thesis using grows_trans [OF s(2), of T ct' T] assms(2) by auto
  qed
qed

lemma with_proxy_sound:
  assumes "\<And>p. sound K T (\<lambda>ct. P ct \<and> cg_Proxy (ct_config ct) = Some p) (f p)"
  shows "sound K T P (with_proxy f)"
  using assms unfolding sound_def with_proxy_def by (auto split: option.splits)

lemma sound_configured:
  assumes "\<And>x. sound K T P (a x)"
  shows "sound K T P (\<lambda>ct. case g (ct_config ct) of None \<Rightarrow> (None, ct) | Some x \<Rightarrow> a x ct)"
  unfolding sound_def
proof (intro allI impI, elim conjE)
  fix ct r ct' assume "wired ct" "P ct" "(case g (ct_config ct) of None \<Rightarrow> (None, ct) | Some x \<Rightarrow> a x ct) = (r, ct')"
  then show "wired ct' \<and> grows T ct ct' \<and> (\<forall>j b. r = Some (j, b) \<longrightarrow> (\<exists>k \<in> K. ct_objects ct' k = Some (j, b)))"
    using assms unfolding sound_def by (cases "g (ct_config ct)") (simp, fastforce)
qed

lemma sound_weaken: "sound K T P a \<Longrightarrow> K \<subseteq> K' \<Longrightarrow> T \<subseteq> T' \<Longrightarrow> (\<And>ct. Q ct \<Longrightarrow> P ct) \<Longrightarrow> sound K' T' Q a"
  unfolding sound_def grows_def by blast

lemma frame: "grows T ct ct' \<Longrightarrow> k \<notin> T \<Longrightarrow> ct_objects ct k = None \<Longrightarrow> ct_objects ct' k = None"
  by (simp add: grows_def)

lemma HTTPClient_sound: "sound {CHttp} {CHttp} (\<lambda>_. True) HTTPClient"
  unfolding HTTPClient_def by (intro memo_sound keep_sound) auto

lemma PrometheusRegistry_sound: "sound {CRegistry} {CRegistry} (\<lambda>_. True) PrometheusRegistry"
  unfolding PrometheusRegistry_def by (intro memo_sound keep_sound) auto

lemma ProviderRateLimiter_sound: "sound {CLimiter} {CLimiter} (\<lambda>_. True) ProviderRateLimiter"
  unfolding ProviderRateLimiter_def by (intro memo_sound keep_sound) auto

lemma Statsd_sound: "sound {CStatsd} {CStatsd} (\<lambda>_. True) (Statsd w)"
  unfolding Statsd_def case_prod_beta by (intro memo_sound keep_if_sound) auto

lemma Database_sound: "sound {CDatabase} {CDatabase} (\<lambda>_. True) (Database w)"
  unfolding Database_def by (intro memo_sound sound_configured keep_if_sound) auto

lemma Container_Queue_sound: "sound {CQueue} {CQueue} (\<lambda>_. True) (Container_Queue w)"
  unfolding Container_Queue_def by (intro memo_sound sound_configured keep_if_sound) auto

lemma Container_LodestoneClient_sound: "sound {CLodestone} {CLodestone, CLimiter} (\<lambda>_. True) (Container_LodestoneClient w)"
  unfolding Container_LodestoneClient_def
  by (intro memo_sound sound_configured keep_if_sound
      using_sound [OF ProviderRateLimiter_sound [THEN sound_weaken], where T' = "{CLimiter}" and Q = "\<lambda>ct. ct_objects ct CLodestone = None"])
    (auto intro: frame)

lemma Repository_sound:
  assumes "k \<noteq> CDatabase"
  shows "sound {k} {k, CDatabase} (\<lambda>_. True) (Repository w k)"
  unfolding Repository_def
  by (intro memo_sound using_sound [OF sound_weaken [OF Database_sound], where T' = "{CDatabase}" and Q = "\<lambda>ct. ct_objects ct k = None"]
      keep_sound) (use assms in \<open>auto intro: frame\<close>)

lemma ProxyRepository_sound: "sound {CProxyRepo} {CProxyRepo, CDatabase} (\<lambda>_. True) (ProxyRepository w)"
  unfolding ProxyRepository_def
  by (intro memo_sound using_sound [OF sound_weaken [OF Database_sound], where T' = "{CDatabase}" and Q = "\<lambda>ct. ct_objects ct CProxyRepo = None"]
      with_proxy_sound keep_sound) (auto intro: frame)

lemma ProxyChecker_sound: "sound {CChecker} {CChecker} (\<lambda>_. True) ProxyChecker"
  unfolding ProxyChecker_def by (intro memo_sound with_proxy_sound keep_sound) auto

lemma DestinationChecker_sound: "sound {CDestChecker} {CDestChecker} (\<lambda>_. True) DestinationChecker"
  unfolding DestinationChecker_def by (intro memo_sound with_proxy_sound keep_sound) auto

lemma consumer_cooldown_pos: "0 < proxyConsumerCooldown cfg"
  by (auto simp: proxyConsumerCooldown_def minute_def second_def split: option.split)

lemma consumer_lock_ttl_pos: "0 < consumer_lock_ttl cfg"
  by (auto simp: consumer_lock_ttl_def duration_or_def minute_def second_def split: option.split)

abbreviation discovery_parts :: "component set" where
  "discovery_parts \<equiv> {CDiscovery, CHttp, CDatabase, CProxyRepo, CDestChecker}"

lemma rotating_sound:
  "sound {CDiscovery} discovery_parts (\<lambda>ct. ct_objects ct CDiscovery = None)
     (using_component (ProxyRepository w) (\<lambda>repo. using_component DestinationChecker (\<lambda>checker. using_component HTTPClient (\<lambda>direct.
        with_proxy (\<lambda>p ct. keep CDiscovery (BRotatingClient repo (consumer_lock_ttl (ct_config ct)) checker
          (proxyConsumerCooldown (ct_config ct)) (proxyScanPolicy p) direct (30 * second)) ct)))))"
  by (intro
      using_sound [OF sound_weaken [OF ProxyRepository_sound], where T' = "{CProxyRepo, CDatabase}" and Q = "\<lambda>ct. ct_objects ct CDiscovery = None"]
      using_sound [OF sound_weaken [OF DestinationChecker_sound], where T' = "{CDestChecker}" and Q = "\<lambda>ct. ct_objects ct CDiscovery = None \<and> has ct CProxyRepo repo" for repo]
      using_sound [OF sound_weaken [OF HTTPClient_sound], where T' = "{CHttp}" and Q = "\<lambda>ct. ct_objects ct CDiscovery = None \<and> has ct CProxyRepo repo \<and> has ct CDestChecker checker" for repo checker]
      with_proxy_sound keep_sound)
    (auto intro: frame has_mono consumer_cooldown_pos consumer_lock_ttl_pos)

lemma DiscoveryHTTPClient_sound: "sound {CDiscovery, CHttp} discovery_parts (\<lambda>_. True) (DiscoveryHTTPClient w)"
  unfolding DiscoveryHTTPClient_def
proof (intro memo_sound)
  let ?rot = "\<lambda>ct. using_component (ProxyRepository w) (\<lambda>repo. using_component DestinationChecker (\<lambda>checker.
     using_component HTTPClient (\<lambda>direct. with_proxy (\<lambda>p ct. keep CDiscovery (BRotatingClient repo (consumer_lock_ttl (ct_config ct))
       checker (proxyConsumerCooldown (ct_config ct)) (proxyScanPolicy p) direct (30 * second)) ct)))) ct"
  show "sound {CDiscovery, CHttp} discovery_parts (\<lambda>ct. True \<and> ct_objects ct CDiscovery = None)
     (\<lambda>ct. case Database w ct of (None, ct1) \<Rightarrow> HTTPClient ct1 | (Some d, ct1) \<Rightarrow> ?rot ct1)"
    unfolding sound_def
  proof (intro allI impI, elim conjE)
    fix ct r ct' assume w: "wired ct" and n: "ct_objects ct CDiscovery = None"
      and e: "(case Database w ct of (None, ct1) \<Rightarrow> HTTPClient ct1 | (Some d, ct1) \<Rightarrow> ?rot ct1) = (r, ct')"
    obtain x ct1 where d: "Database w ct = (x, ct1)" by (cases "Database w ct")
    have s: "wired ct1" "grows {CDatabase} ct ct1" using Database_sound w d unfolding sound_def by blast+
    have n1: "ct_objects ct1 CDiscovery = None" using frame [OF s(2) _ n] by simp
    have "wired ct' \<and> grows discovery_parts ct1 ct'
       \<and> (\<forall>j b. r = Some (j, b) \<longrightarrow> (\<exists>k \<in> {CDiscovery, CHttp}. ct_objects ct' k = Some (j, b)))"
    proof (cases x)
      case None
      then have "HTTPClient ct1 = (r, ct')" using e d by simp
      moreover have "sound {CDiscovery, CHttp} discovery_parts (\<lambda>_. True) HTTPClient"
        by (rule sound_weaken [OF HTTPClient_sound]) auto
      ultimately show ?thesis using s(1) unfolding sound_def by blast
    next
      case (Some a)
      then have "?rot ct1 = (r, ct')" using e d by simp
      moreover have "sound {CDiscovery, CHttp} discovery_parts (\<lambda>ct. ct_objects ct CDiscovery = None) ?rot"
        by (rule sound_weaken [OF rotating_sound]) auto
      ultimately show ?thesis using s(1) n1 unfolding sound_def by blast
    qed
    then show "wired ct' \<and> grows discovery_parts ct ct'
       \<and> (\<forall>j b. r = Some (j, b) \<longrightarrow> (\<exists>k \<in> {CDiscovery, CHttp}. ct_objects ct' k = Some (j, b)))"
      using grows_trans [OF s(2), of discovery_parts ct' discovery_parts] by auto
  qed
qed simp

abbreviation provider_parts :: "component set" where
  "provider_parts \<equiv> range CProvider \<union> discovery_parts"

lemma given_provider: "given ct (provider_built n c url) \<longleftrightarrow> has ct CDiscovery c \<or> has ct CHttp c"
  by (cases n) simp_all

lemma Provider_sound: "sound {CProvider n} provider_parts (\<lambda>_. True) (Provider w n)"
proof -
  have u: "sound {CProvider n} provider_parts (\<lambda>ct. (True \<and> ct_objects ct (CProvider n) = None) \<and> cg_Proxy (ct_config ct) = Some p)
     (using_component (DiscoveryHTTPClient w) (\<lambda>client. keep (CProvider n) (provider_built n client url)))" for p url
    by (intro keep_sound using_sound [OF sound_weaken [OF DiscoveryHTTPClient_sound], where T' = discovery_parts
          and K' = "{CDiscovery, CHttp}" and Q = "\<lambda>ct. ct_objects ct (CProvider n) = None"]) (auto intro: frame simp: given_provider)
  show ?thesis unfolding Provider_def
    by (intro memo_sound with_proxy_sound) (use u none_sound in auto)
qed

lemma CensusService_sound:
  "sound {CCensus} {CCensus, CAchievements, CCharacters, CRuns, CDatabase} (\<lambda>_. True) (Container_CensusService w)"
  unfolding Container_CensusService_def AchievementRepository_def CharacterRepository_def CensusRunRepository_def
  by (intro memo_sound keep_sound
      using_sound [OF sound_weaken [OF Repository_sound [of CAchievements]], where T' = "{CAchievements, CDatabase}"
        and Q = "\<lambda>ct. ct_objects ct CCensus = None"]
      using_sound [OF sound_weaken [OF Repository_sound [of CCharacters]], where T' = "{CCharacters, CDatabase}"
        and Q = "\<lambda>ct. ct_objects ct CCensus = None \<and> has ct CAchievements ach" for ach]
      using_sound [OF sound_weaken [OF Repository_sound [of CRuns]], where T' = "{CRuns, CDatabase}"
        and Q = "\<lambda>ct. ct_objects ct CCensus = None \<and> has ct CAchievements ach \<and> has ct CCharacters chars" for ach chars])
    (auto intro: frame has_mono)

lemma UIStatsService_sound: "sound {CUIStats} {CUIStats, CStatsRepo, CRegistry, CDatabase} (\<lambda>_. True) (Container_UIStatsService w)"
  unfolding Container_UIStatsService_def UIStatsRepository_def case_prod_beta
  by (intro memo_sound keep_sound
      using_sound [OF sound_weaken [OF Repository_sound [of CStatsRepo]], where T' = "{CStatsRepo, CDatabase}"
        and Q = "\<lambda>ct. ct_objects ct CUIStats = None"]
      using_sound [OF sound_weaken [OF PrometheusRegistry_sound], where T' = "{CRegistry}"
        and Q = "\<lambda>ct. ct_objects ct CUIStats = None \<and> has ct CStatsRepo repo" for repo])
    (auto intro: frame has_mono)

lemma collect_providers_sound:
  "wired ct \<Longrightarrow> collect_providers w ns ct = (ps, ct') \<Longrightarrow>
     wired ct' \<and> grows provider_parts ct ct' \<and> (\<forall>j \<in> set ps. \<exists>n. has ct' (CProvider n) j)"
proof (induction ns arbitrary: ct ps)
  case Nil
  then show ?case by auto
next
  case (Cons n ns)
  obtain p ct1 where p: "Provider w n ct = (p, ct1)" by (cases "Provider w n ct")
  obtain qs where c: "collect_providers w ns ct1 = (qs, ct')" and ps: "ps = (case p of None \<Rightarrow> qs | Some ob \<Rightarrow> fst ob # qs)"
    using Cons.prems(2) p by (auto split: prod.splits)
  have s: "wired ct1" "grows provider_parts ct ct1" "\<And>j b. p = Some (j, b) \<Longrightarrow> ct_objects ct1 (CProvider n) = Some (j, b)"
    using Provider_sound [of n w] Cons.prems(1) p unfolding sound_def by blast+
  have i: "wired ct'" "grows provider_parts ct1 ct'" "\<forall>j \<in> set qs. \<exists>n. has ct' (CProvider n) j"
    using Cons.IH [OF s(1) c] by auto
  have "\<exists>n. has ct' (CProvider n) (fst ob)" if "p = Some ob" for ob
    using s(3) [of "fst ob" "snd ob"] that has_mono [OF i(2), of "CProvider n" "fst ob"] unfolding has_def by (metis prod.collapse)
  then have "\<forall>j \<in> set ps. \<exists>n. has ct' (CProvider n) j" using i(3) ps by (cases p) simp_all
  then show ?case using i(1) grows_trans [OF s(2) i(2) subset_refl subset_refl] by blast
qed

lemma ProxyService_sound: "sound {CProxyService} UNIV (\<lambda>_. True) (Container_ProxyService w)"
  unfolding Container_ProxyService_def
proof (intro memo_sound using_sound [OF sound_weaken [OF ProxyRepository_sound], where T' = "{CProxyRepo, CDatabase}"
      and Q = "\<lambda>ct. ct_objects ct CProxyService = None"])
  show "sound {CProxyService} UNIV (\<lambda>ct. ct_objects ct CProxyService = None \<and> (\<exists>k \<in> {CProxyRepo}. has ct k repo))
     (\<lambda>ct. case collect_providers w provider_order ct of (ps, ct1) \<Rightarrow> keep CProxyService (BProxyService ps repo) ct1)" for repo
    unfolding sound_def
  proof (intro allI impI, elim conjE)
    fix ct r ct' assume w: "wired ct" and n: "ct_objects ct CProxyService = None" and h: "\<exists>k \<in> {CProxyRepo}. has ct k repo"
      and e: "(case collect_providers w provider_order ct of (ps, ct1) \<Rightarrow> keep CProxyService (BProxyService ps repo) ct1) = (r, ct')"
    obtain ps ct1 where c: "collect_providers w provider_order ct = (ps, ct1)" by (cases "collect_providers w provider_order ct")
    note s = collect_providers_sound [OF w c]
    then have g: "grows provider_parts ct ct1" by simp
    have "wired ct' \<and> grows UNIV ct1 ct' \<and> (\<forall>j b. r = Some (j, b) \<longrightarrow> (\<exists>k \<in> {CProxyService}. ct_objects ct' k = Some (j, b)))"
      using e c s h frame [OF g _ n] has_mono [OF g] by (intro kept [of ct1 CProxyService "BProxyService ps repo"]) auto
    then show "wired ct' \<and> grows UNIV ct ct' \<and> (\<forall>j b. r = Some (j, b) \<longrightarrow> (\<exists>k \<in> {CProxyService}. ct_objects ct' k = Some (j, b)))"
      using grows_trans [OF g, of UNIV ct' UNIV] by auto
  qed
qed (auto intro: frame)

text \<open>The accessor of each component, and a sequence of calls with the answers that are not nil.\<close>

fun accessor_of :: "world_inputs \<Rightarrow> component \<Rightarrow> accessor" where
  "accessor_of w CHttp = HTTPClient"
| "accessor_of w CDiscovery = DiscoveryHTTPClient w"
| "accessor_of w CStatsd = Statsd w"
| "accessor_of w CRegistry = PrometheusRegistry"
| "accessor_of w CLimiter = ProviderRateLimiter"
| "accessor_of w CDatabase = Database w"
| "accessor_of w CQueue = Container_Queue w"
| "accessor_of w CLodestone = Container_LodestoneClient w"
| "accessor_of w CCharacters = CharacterRepository w"
| "accessor_of w CAchievements = AchievementRepository w"
| "accessor_of w CRuns = CensusRunRepository w"
| "accessor_of w CStatsRepo = UIStatsRepository w"
| "accessor_of w CProxyRepo = ProxyRepository w"
| "accessor_of w CChecker = ProxyChecker"
| "accessor_of w CDestChecker = DestinationChecker"
| "accessor_of w (CProvider n) = Provider w n"
| "accessor_of w CCensus = Container_CensusService w"
| "accessor_of w CUIStats = Container_UIStatsService w"
| "accessor_of w CProxyService = Container_ProxyService w"

fun run_calls :: "(world_inputs \<times> component) list \<Rightarrow> container \<Rightarrow> (component \<times> nat \<times> built) list \<times> container" where
  "run_calls [] ct = ([], ct)"
| "run_calls ((w, k) # calls) ct =
     (case accessor_of w k ct of (r, ct1) \<Rightarrow>
      (case run_calls calls ct1 of (rs, ct2) \<Rightarrow> ((case r of None \<Rightarrow> rs | Some ob \<Rightarrow> (k, ob) # rs), ct2)))"

definition kept_as :: "component \<Rightarrow> component set" where
  "kept_as k = (if k = CDiscovery then {CDiscovery, CHttp} else {k})"

lemmas accessors_sound = HTTPClient_sound DiscoveryHTTPClient_sound Statsd_sound PrometheusRegistry_sound ProviderRateLimiter_sound
  Database_sound Container_Queue_sound Container_LodestoneClient_sound Repository_sound ProxyRepository_sound ProxyChecker_sound
  DestinationChecker_sound Provider_sound CensusService_sound UIStatsService_sound ProxyService_sound

lemma accessor_sound: "sound (kept_as k) UNIV (\<lambda>_. True) (accessor_of w k)"
  by (cases k) (auto simp: kept_as_def CharacterRepository_def AchievementRepository_def CensusRunRepository_def UIStatsRepository_def
      intro: accessors_sound [THEN sound_weaken])

lemma run_calls_sound:
  "wired ct \<Longrightarrow> run_calls calls ct = (rs, ct') \<Longrightarrow>
     wired ct' \<and> grows UNIV ct ct' \<and> (\<forall>(k, ob) \<in> set rs. \<exists>k' \<in> kept_as k. ct_objects ct' k' = Some ob)"
proof (induction calls arbitrary: ct rs)
  case Nil
  then show ?case by auto
next
  case (Cons c calls)
  obtain w k where wk: "c = (w, k)" by (cases c)
  obtain r ct1 where r: "accessor_of w k ct = (r, ct1)" by (cases "accessor_of w k ct")
  obtain qs where q: "run_calls calls ct1 = (qs, ct')" and rs: "rs = (case r of None \<Rightarrow> qs | Some ob \<Rightarrow> (k, ob) # qs)"
    using Cons.prems(2) wk r by (auto split: prod.splits)
  have s: "wired ct1" "grows UNIV ct ct1" "\<And>j b. r = Some (j, b) \<Longrightarrow> \<exists>k' \<in> kept_as k. ct_objects ct1 k' = Some (j, b)"
    using accessor_sound [of k w] Cons.prems(1) r unfolding sound_def by blast+
  have i: "wired ct'" "grows UNIV ct1 ct'" "\<forall>(k, ob) \<in> set qs. \<exists>k' \<in> kept_as k. ct_objects ct' k' = Some ob"
    using Cons.IH [OF s(1) q] by auto
  have later: "ct_objects ct1 k' = Some ob \<Longrightarrow> ct_objects ct' k' = Some ob" for k' ob
    using i(2) by (auto simp: grows_def map_le_def dom_def)
  have "\<exists>k' \<in> kept_as k. ct_objects ct' k' = Some ob" if "r = Some ob" for ob
    using s(3) [of "fst ob" "snd ob"] that later [of _ ob] by (metis prod.collapse)
  then have "\<forall>(k, ob) \<in> set rs. \<exists>k' \<in> kept_as k. ct_objects ct' k' = Some ob" using i(3) rs by (cases r) simp_all
  then show ?case using i(1) grows_trans [OF s(2) i(2) subset_refl subset_refl] by blast
qed

lemma new_container_wired: "wired (NewServiceContainer cfg)"
  by (simp add: wired_def has_def NewServiceContainer_def)

text \<open>C16: Whatever the order in which the commands ask the container for components, and whichever attempts to reach the database, the
  broker or StatsD fail in between, each component is built once: two successful answers for the same component are the same object
  with the same settings (the discovery client excepted, which is the direct client until the database answers). Every object that was
  handed out was given the kept instances of its own dependencies and the settings of the configuration, so all repositories share one
  database handle.\<close>

theorem components_built_once:
  assumes "run_calls calls (NewServiceContainer cfg) = (answers, ct)"
  shows "(\<forall>k ob ob'. (k, ob) \<in> set answers \<and> (k, ob') \<in> set answers \<and> k \<noteq> CDiscovery \<longrightarrow> ob = ob')
    \<and> (\<forall>k j b. (k, j, b) \<in> set answers \<longrightarrow> given ct b)
    \<and> (\<forall>k k' j j' d d' pol. (k, j, BRepository d) \<in> set answers \<and> (k', j', BProxyRepository d' pol) \<in> set answers \<longrightarrow> d = d')"
proof -
  note s = run_calls_sound [OF new_container_wired assms]
  have a: "\<exists>k' \<in> kept_as k. ct_objects ct k' = Some ob" if "(k, ob) \<in> set answers" for k ob using s that by blast
  have u: "ob = ob'" if "(k, ob) \<in> set answers" "(k, ob') \<in> set answers" "k \<noteq> CDiscovery" for k ob ob'
    using a [OF that(1)] a [OF that(2)] that(3) by (auto simp: kept_as_def)
  have g: "given ct b" if "(k, j, b) \<in> set answers" for k j b using a [OF that] s by (auto simp: wired_def)
  have "d = d'" if "(k, j, BRepository d) \<in> set answers" "(k', j', BProxyRepository d' pol) \<in> set answers" for k k' j j' d d' pol
    using g [OF that(1)] g [OF that(2)] by (auto simp: has_def)
  then show ?thesis using u g by blast
qed

text \<open>The proxy section of the embedded config.toml, with a database and nothing else configured.\<close>

definition toml_scan :: ProxyScanConfig where
  "toml_scan = \<lparr>px_VerificationInterval = minute, px_FreshnessTTL = 2 * minute, px_RecoveryBase = minute,
     px_RecoveryCap = 15 * minute, px_RecoveryHorizon = hour, px_WeightVerification = 10, px_WeightRecovery = 45,
     px_WeightBackground = 45, px_LeaseDuration = 30 * second, px_MinRepeatInterval = second,
     px_InconclusiveRetry = minute, px_ControlInterval = 30 * second\<rparr>"

definition toml_proxy :: ProxyConfig where
  "toml_proxy = \<lparr>xc_TestURL = ''https://na.finalfantasyxiv.com/lodestone/'', xc_TestTimeout = 10 * second, xc_DeadThresholdDays = 2,
     xc_FailCountThreshold = 5, xc_Scan = toml_scan, xc_Providers = \<lparr>pp_enabled = (\<lambda>n. n = ErcinDedeoglu), pp_URL = (\<lambda>_. [])\<rparr>,
     xc_Consumer = \<lparr>pn_LockTTL = ''5m'', pn_LodestoneRateLimit = 1, pn_RequestTimeout = ''30s'',
       pn_TestURL = ''https://na.finalfantasyxiv.com/lodestone/'', pn_TestTimeout = 10 * second, pn_Cooldown = minute\<rparr>\<rparr>"

definition toml_config :: Config where
  "toml_config = \<lparr>cg_App = \<lparr>ac_Name = ''ffxiv-census'', ac_Env = ''dev'', ac_BaseURL = []\<rparr>, cg_Logging = None,
     cg_HTTP = \<lparr>hc_Host = [], hc_Port = 8080, hc_ReadTimeout = [], hc_WriteTimeout = [], hc_IdleTimeout = []\<rparr>, cg_Auth = None,
     cg_Metrics = None, cg_Postgres = Some \<lparr>pc_DSN = [], pc_Host = [], pc_Port = 0, pc_User = [], pc_Password = [], pc_Database = [],
       pc_SSLMode = [], pc_MaxOpenConns = 0, pc_MaxIdleConns = 0\<rparr>, cg_RabbitMQ = None, cg_QueueMaxAttempts = Some 50,
     cg_Lodestone = None, cg_Census = None, cg_Proxy = Some toml_proxy\<rparr>"

lemmas toml_defs = toml_config_def toml_proxy_def toml_scan_def

definition demo_inputs :: "bool \<Rightarrow> world_inputs" where
  "demo_inputs up = \<lparr>wi_driver = (\<lambda>_. up), wi_queue = (\<lambda>_. up), wi_lodestone = (\<lambda>_. up), wi_statsd = (\<lambda>_. up), wi_STATSD_ADDRESS = []\<rparr>"

lemmas container_simps = run_calls.simps memo_def keep_def keep_if_def using_component_def with_proxy_def Repository_def Database_def
  CharacterRepository_def ProxyRepository_def NewServiceContainer_def demo_inputs_def

definition demo_calls :: "(world_inputs \<times> component) list" where
  "demo_calls = [(demo_inputs False, CCharacters), (demo_inputs True, CCharacters), (demo_inputs True, CProxyRepo), (demo_inputs False, CCharacters)]"

lemma demo_calls_run:
  "\<exists>ct. run_calls demo_calls (NewServiceContainer toml_config)
     = ([(CCharacters, 1, BRepository 0), (CProxyRepo, 2, BProxyRepository 0 (proxyScanPolicy toml_proxy)), (CCharacters, 1, BRepository 0)], ct)"
  by (simp add: demo_calls_def container_simps toml_config_def)

theorem components_built_once_witness:
  "\<exists>answers ct. run_calls demo_calls (NewServiceContainer toml_config) = (answers, ct) \<and> length answers = 3
     \<and> (\<forall>ob ob'. (CCharacters, ob) \<in> set answers \<and> (CCharacters, ob') \<in> set answers \<longrightarrow> ob = ob')"
proof -
  obtain ct where r: "run_calls demo_calls (NewServiceContainer toml_config)
     = ([(CCharacters, 1, BRepository 0), (CProxyRepo, 2, BProxyRepository 0 (proxyScanPolicy toml_proxy)), (CCharacters, 1, BRepository 0)], ct)"
    using demo_calls_run by (elim exE)
  note same = components_built_once [OF r, THEN conjunct1]
  show ?thesis unfolding r by (intro exI conjI, rule refl, simp, use same in blast)
qed

section \<open>What an accepted configuration guarantees\<close>

lemma policy_normal:
  "scan_ok timeout (xc_Scan p) \<Longrightarrow> normalizeScanPolicy (proxyScanPolicy p) = proxyScanPolicy p"
  by (simp add: scan_ok_def normalizeScanPolicy_def proxyScanPolicy_def Let_def)

text \<open>C17: What a configuration that NewConfig returns guarantees to the scheduler. The repository takes its scan policy over
  unchanged, a lease outlives the check it covers, recovery delays start at or below their cap, and the consumer's cooldown is the
  configured one. Two checks are made after int arithmetic has wrapped, so they say something only where the sums fit: when the
  verification interval plus the check's timeout fits into an int, a freshness period outlives them; when the sum of the three weights fits
  into an int, it is 100, and the dispatcher can divide every concurrency of at least three whose hundredfold fits into an int: the
  queues' reserved slots add up to it, and each queue has at least one slot plus its weighted share of the rest. The consumer's lock time
  is not validated at all: it is the configured one when that is a positive duration, and five minutes whenever it is not.\<close>

theorem accepted_configuration_schedules:
  assumes "NewConfig url_Parse viper dotenv env = (Inr cfg, env')"
  shows "\<exists>proxy. cg_Proxy cfg = Some proxy
    \<and> normalizeScanPolicy (proxyScanPolicy proxy) = proxyScanPolicy proxy
    \<and> xc_TestTimeout proxy < po_LeaseDuration (proxyScanPolicy proxy)
    \<and> 0 < po_RecoveryBase (proxyScanPolicy proxy) \<and> po_RecoveryBase (proxyScanPolicy proxy) \<le> po_RecoveryCap (proxyScanPolicy proxy)
    \<and> 0 < proxyConsumerCooldown cfg \<and> proxyConsumerCooldown cfg = pn_Cooldown (xc_Consumer proxy)
    \<and> consumer_lock_ttl cfg = (case ParseDuration (pn_LockTTL (xc_Consumer proxy)) of
         Some d \<Rightarrow> if 0 < d then d else 5 * minute | None \<Rightarrow> 5 * minute)
    \<and> (is_i64 (px_VerificationInterval (xc_Scan proxy) + xc_TestTimeout proxy) \<longrightarrow>
         px_VerificationInterval (xc_Scan proxy) + xc_TestTimeout proxy < po_FreshnessTTL (proxyScanPolicy proxy))
    \<and> (is_i64 (sum3 (ProxyScanWeights proxy)) \<longrightarrow> sum3 (ProxyScanWeights proxy) = 100
         \<and> (\<forall>c. 3 \<le> c \<and> c * 100 \<le> max_i64 \<longrightarrow> (\<exists>t. reservationTargets c (ProxyScanWeights proxy) = Some t \<and> sum3 t = c
              \<and> (\<forall>i < 3. 1 + (c - 3) * get3 (ProxyScanWeights proxy) i div 100 \<le> get3 t i))))"
proof -
  have "validateProxySettings url_Parse cfg = None" using assms by (auto simp: NewConfig_def Let_def split: sum.splits option.splits)
  then obtain p where p: "cg_Proxy cfg = Some p" and ok: "scan_ok (xc_TestTimeout p) (xc_Scan p)" and cool: "0 < pn_Cooldown (xc_Consumer p)"
    unfolding validate_iff by blast
  have lock: "consumer_lock_ttl cfg = (case ParseDuration (pn_LockTTL (xc_Consumer p)) of
      Some d \<Rightarrow> if 0 < d then d else 5 * minute | None \<Rightarrow> 5 * minute)"
    using p by (simp add: consumer_lock_ttl_def duration_or_def ParseDuration_def)
  have w: "sum3 (ProxyScanWeights p) = 100" if "is_i64 (sum3 (ProxyScanWeights p))"
    using sums_of_weights [OF ok] that by (simp add: ProxyScanWeights_def)
  have t: "\<exists>t. reservationTargets c (ProxyScanWeights p) = Some t \<and> sum3 t = c
      \<and> (\<forall>i < 3. 1 + (c - 3) * get3 (ProxyScanWeights p) i div 100 \<le> get3 t i)"
    if "sum3 (ProxyScanWeights p) = 100" "3 \<le> c" "c * 100 \<le> max_i64" for c
  proof -
    have "0 < px_WeightVerification (xc_Scan p)" "0 < px_WeightRecovery (xc_Scan p)" "0 < px_WeightBackground (xc_Scan p)"
      using ok by (simp_all add: scan_ok_def)
    moreover have "px_WeightVerification (xc_Scan p) + px_WeightRecovery (xc_Scan p) + px_WeightBackground (xc_Scan p) = 100"
      using that(1) by (simp add: ProxyScanWeights_def)
    ultimately show ?thesis using reservation_exact [OF that(2) _ _ _ _ that(3)] unfolding ProxyScanWeights_def by metis
  qed
  show ?thesis
    using p ok cool w t policy_normal [OF ok] lock
    by (intro exI [of _ p]) (auto simp: proxyScanPolicy_def proxyConsumerCooldown_def scan_ok_def i64_id)
qed

definition demo_url :: "string \<Rightarrow> url_parts result" where
  "demo_url raw = (if is_prefix ''https://'' raw then Inr \<lparr>hu_Scheme = ''https'', hu_Host = drop 8 raw, hu_User = None\<rparr>
     else Inl (EText ''parse''))"

lemma toml_accepted: "NewConfig demo_url (\<lambda>_. Inr toml_config) [] Map.empty = (Inr toml_config, Map.empty)"
proof -
  have "validateProxySettings demo_url toml_config = None"
    unfolding validate_iff by (simp add: toml_defs scan_ok_def https_ok_def demo_url_def minute_def second_def hour_def i64_def)
  then show ?thesis by (simp add: NewConfig_def)
qed

theorem accepted_configuration_schedules_witness:
  "NewConfig demo_url (\<lambda>_. Inr toml_config) [] Map.empty = (Inr toml_config, Map.empty)
   \<and> (\<exists>t. reservationTargets 100 (ProxyScanWeights toml_proxy) = Some t \<and> sum3 t = 100)"
proof -
  have w: "ProxyScanWeights toml_proxy = A3 10 45 45" by (simp add: ProxyScanWeights_def toml_defs)
  have p: "cg_Proxy toml_config = Some toml_proxy" by (simp add: toml_config_def)
  have i: "is_i64 (sum3 (ProxyScanWeights toml_proxy))" and b: "(3::int) \<le> 100 \<and> 100 * 100 \<le> max_i64"
    unfolding w by (simp_all add: is_i64_def min_i64_def max_i64_def)
  obtain proxy where "cg_Proxy toml_config = Some proxy" and q: "is_i64 (sum3 (ProxyScanWeights proxy)) \<longrightarrow>
      sum3 (ProxyScanWeights proxy) = 100 \<and> (\<forall>c. 3 \<le> c \<and> c * 100 \<le> max_i64 \<longrightarrow>
        (\<exists>t. reservationTargets c (ProxyScanWeights proxy) = Some t \<and> sum3 t = c
           \<and> (\<forall>i < 3. 1 + (c - 3) * get3 (ProxyScanWeights proxy) i div 100 \<le> get3 t i)))"
    using accepted_configuration_schedules [OF toml_accepted] by blast
  then have "proxy = toml_proxy" using p by simp
  then have "\<exists>t. reservationTargets 100 (ProxyScanWeights toml_proxy) = Some t \<and> sum3 t = 100" using q i b by blast
  then show ?thesis using toml_accepted by blast
qed

text \<open>
  The weights are compared with 100 after int arithmetic has wrapped, so two huge weights pass as well; and the embedded file enables
  one provider without a base URL, whose lists are then addresses without a host.
\<close>

lemma overflowing_weights_accepted:
  "scan_ok (10 * second) (toml_scan\<lparr>px_WeightVerification := max_i64, px_WeightRecovery := max_i64, px_WeightBackground := 102\<rparr>)"
  by (simp add: scan_ok_def toml_scan_def max_i64_def i64_def minute_def second_def hour_def)

text \<open>A lock time that is no duration is accepted and replaced.\<close>

lemma lock_ttl_not_validated:
  "let cfg = toml_config\<lparr>cg_Proxy := Some (toml_proxy\<lparr>xc_Consumer := (xc_Consumer toml_proxy)\<lparr>pn_LockTTL := ''ten minutes''\<rparr>\<rparr>)\<rparr>
   in NewConfig demo_url (\<lambda>_. Inr cfg) [] Map.empty = (Inr cfg, Map.empty) \<and> consumer_lock_ttl cfg = 5 * minute"
proof -
  let ?cfg = "toml_config\<lparr>cg_Proxy := Some (toml_proxy\<lparr>xc_Consumer := (xc_Consumer toml_proxy)\<lparr>pn_LockTTL := ''ten minutes''\<rparr>\<rparr>)\<rparr>"
  have "validateProxySettings demo_url ?cfg = None"
    unfolding validate_iff by (simp add: toml_defs scan_ok_def https_ok_def demo_url_def minute_def second_def hour_def i64_def)
  moreover have "ParseDuration ''ten minutes'' = None" by code_simp
  ultimately show ?thesis by (simp add: NewConfig_def consumer_lock_ttl_def duration_or_def)
qed

lemma ercindedeoglu_without_url:
  "provider_built ErcinDedeoglu client (pp_URL (xc_Providers toml_proxy) ErcinDedeoglu)
     = BTextProxy client ''ercindedeoglu'' [(''http'', ''/http.txt''), (''socks5'', ''/socks5.txt'')]"
  by (simp add: toml_proxy_def trim_slashes_def all_protocols_def)

end
