(* ===== verification/Commands.thy ===== *)
theory Commands
  imports Pg_Driver Wiring Rabbit_Queue Census_Worker
begin

text \<open>
  cmd/cli: the commands that start the workers, refresh the statistics and migrate the database and the legacy queue. A command that
  starts a long-running worker is modelled up to the call of the worker, with what it hands to it.
\<close>

section \<open>Event lists (consume.go)\<close>

text \<open>\<open>strings.Split\<close> at one character, the parts trimmed and the empty ones dropped.\<close>

fun split_char :: "char \<Rightarrow> string \<Rightarrow> string list" where
  "split_char c [] = [[]]"
| "split_char c (x # xs) = (if x = c then [] # split_char c xs else (x # hd (split_char c xs)) # tl (split_char c xs))"

definition event_list :: "string \<Rightarrow> string list" where
  "event_list flag = filter (\<lambda>p. p \<noteq> []) (map trim_space (split_char CHR '','' flag))"

definition consume_events :: "string list \<Rightarrow> string \<Rightarrow> string list" where
  "consume_events args eventsFlag =
     (if args \<noteq> [] \<and> hd args \<noteq> [] \<and> hd args \<noteq> ''all'' then [hd args]
      else if eventsFlag \<noteq> [] \<and> eventsFlag \<noteq> ''all'' then event_list eventsFlag
      else census_events)"

definition failed_events :: "string \<Rightarrow> string list" where
  "failed_events eventsFlag = (if eventsFlag \<noteq> [] \<and> eventsFlag \<noteq> ''all'' then event_list eventsFlag else [])"

section \<open>Starting the consumers\<close>

text \<open>What a consumer command calls: the direct worker, the proxy workers, or the failed-queue consumer.\<close>

record direct_start =
  ds_events :: "string list"
  ds_concurrency :: int
  ds_handlers :: "registration list"
  ds_limiter :: "nat option"

record proxy_start =
  pt_events :: "string list"
  pt_concurrency :: int
  pt_owner :: string
  pt_hub :: "nat \<times> duration \<times> nat \<times> duration \<times> ProxyScanPolicy"
  pt_lodestone :: "LodestoneConfig option"

datatype start = Direct direct_start | WithProxy proxy_start | Failed "string list" int

text \<open>The client of a proxy goroutine: the rate of the proxy section replaces the one of the Lodestone section.\<close>

definition proxy_lodestone :: "Config \<Rightarrow> LodestoneConfig option" where
  "proxy_lodestone cfg =
     (let rate = (case cg_Proxy cfg of None \<Rightarrow> 0 | Some p \<Rightarrow> pn_LodestoneRateLimit (xc_Consumer p))
      in map_option (\<lambda>l. if rate > 0 then l\<lparr>lc_RateLimit := rate\<rparr> else l) (cg_Lodestone cfg))"

definition owner_prefix :: "string \<Rightarrow> int \<Rightarrow> string" where
  "owner_prefix hostname pid = ''census-consume-'' @ hostname @ ''-p'' @ show_int pid"

definition runProxyConsumer :: "world_inputs \<Rightarrow> string \<Rightarrow> int \<Rightarrow> string list \<Rightarrow> int \<Rightarrow> container \<Rightarrow> start result \<times> container" where
  "runProxyConsumer w hostname pid events concurrency ct =
     (case Container_CensusService w ct of
        (None, ct1) \<Rightarrow> (Inl (EText ''census service not initialised''), ct1)
      | (Some svc, ct1) \<Rightarrow>
          (case Container_ProxyHub w ct1 of
             (None, ct2) \<Rightarrow> (Inl (EText ''proxy hub not initialised (database unavailable?)''), ct2)
           | (Some hub, ct2) \<Rightarrow>
               (Inr (WithProxy \<lparr>pt_events = events, pt_concurrency = concurrency, pt_owner = owner_prefix hostname pid,
                  pt_hub = hub, pt_lodestone = proxy_lodestone (ct_config ct2)\<rparr>), ct2)))"

definition consumeCmd :: "world_inputs \<Rightarrow> string \<Rightarrow> int \<Rightarrow> string list \<Rightarrow> string \<Rightarrow> int \<Rightarrow> bool \<Rightarrow> container
    \<Rightarrow> start result \<times> container" where
  "consumeCmd w hostname pid args eventsFlag concurrency proxyMode ct =
     (case Container_Queue w ct of
        (None, ct1) \<Rightarrow> (Inl (EText ''queue not initialised''), ct1)
      | (Some q, ct1) \<Rightarrow>
          if proxyMode then runProxyConsumer w hostname pid (consume_events args eventsFlag) concurrency ct1
          else (case Handlers w ct1 of (hs, ct2) \<Rightarrow>
               (case ProviderRateLimiter ct2 of (l, ct3) \<Rightarrow>
                 (Inr (Direct \<lparr>ds_events = consume_events args eventsFlag, ds_concurrency = concurrency, ds_handlers = hs,
                    ds_limiter = map_option fst l\<rparr>), ct3))))"

definition consumeFailedCmd :: "world_inputs \<Rightarrow> string \<Rightarrow> int \<Rightarrow> container \<Rightarrow> start result \<times> container" where
  "consumeFailedCmd w eventsFlag concurrency ct =
     (case Container_Queue w ct of
        (None, ct1) \<Rightarrow> (Inl (EText ''queue not initialised''), ct1)
      | (Some q, ct1) \<Rightarrow> (Inr (Failed (failed_events eventsFlag) concurrency), ct1))"

definition proxyConsumeCmd :: "world_inputs \<Rightarrow> int \<Rightarrow> container \<Rightarrow> ((string \<times> nat) list \<times> string list \<times> int) result \<times> container" where
  "proxyConsumeCmd w concurrency ct =
     (case Container_Queue w ct of
        (None, ct1) \<Rightarrow> (Inl (EText ''queue not initialised''), ct1)
      | (Some q, ct1) \<Rightarrow> (case ProxyHandlers w ct1 of (hs, ct2) \<Rightarrow> (Inr (hs, [''new-proxy''], concurrency), ct2)))"

section \<open>Starting the scan worker (proxy.go)\<close>

definition guardControlTimeout :: duration where
  "guardControlTimeout = 10 * second"

record scan_launch =
  sa_repo :: nat
  sa_checker :: nat
  sa_policy :: ProxyScanPolicy
  sa_weights :: "int arr3"
  sa_control_url :: string
  sa_control_interval :: duration
  sa_control_timeout :: duration
  sa_notifier :: bool
  sa_concurrency :: int

definition runScanWorker :: "world_inputs \<Rightarrow> int \<Rightarrow> container \<Rightarrow> scan_launch result \<times> container" where
  "runScanWorker w concurrency ct =
     (if concurrency \<le> 0 then (Inl (EText (''proxy scan: concurrency must be positive, got '' @ show_int concurrency)), ct)
      else case ProxyRepository w ct of
        (None, ct1) \<Rightarrow> (Inl (EText ''proxy repository not initialised''), ct1)
      | (Some repo, ct1) \<Rightarrow>
          (case (ProxyChecker ct1, cg_Proxy (ct_config ct1)) of
             ((Some checker, ct2), Some p) \<Rightarrow>
               (case Container_ProxyHub w ct2 of (hub, ct3) \<Rightarrow>
                 (Inr \<lparr>sa_repo = fst repo, sa_checker = fst checker, sa_policy = proxyScanPolicy p, sa_weights = ProxyScanWeights p,
                    sa_control_url = xc_TestURL p, sa_control_interval = px_ControlInterval (xc_Scan p),
                    sa_control_timeout = guardControlTimeout, sa_notifier = (hub \<noteq> None), sa_concurrency = concurrency\<rparr>, ct3))
           | ((_, ct2), _) \<Rightarrow> (Inl (EText ''proxy checker not initialised''), ct2)))"

section \<open>Refreshing the statistics (refresh.go)\<close>

datatype refresh_output = RefreshSkipped | RefreshComplete timestamp int duration int

definition runRefreshUIStatsWithService :: "(UIStatsRefreshResult option result) option \<Rightarrow> refresh_output result" where
  "runRefreshUIStatsWithService svc =
     (case svc of
        None \<Rightarrow> Inl (EText ''UI statistics service unavailable'')
      | Some (Inl e) \<Rightarrow> Inl (EWrap ''refresh UI statistics: '' e [])
      | Some (Inr None) \<Rightarrow> Inl (EText ''refresh UI statistics returned no result'')
      | Some (Inr (Some res)) \<Rightarrow>
          if ur_Skipped res then Inr RefreshSkipped
          else (case ur_Snapshot res of
                  None \<Rightarrow> Inl (EText ''nil snapshot'')
                | Some sn \<Rightarrow> Inr (RefreshComplete (us_GeneratedAt sn) (us_SourceCharacters sn) (us_RefreshDuration sn) (ur_PayloadBytes res))))"

definition refresh_timeout :: "Config \<Rightarrow> duration" where
  "refresh_timeout cfg =
     (case cg_Census cfg of
        None \<Rightarrow> 2 * hour
      | Some c \<Rightarrow> (case cc_UIStats c of None \<Rightarrow> 2 * hour | Some u \<Rightarrow> duration_or (2 * hour) (uc_RefreshTimeout u)))"

text \<open>The command over the census tables and the snapshot row: the repository does the work.\<close>

definition runRefreshUIStats :: "world_inputs \<Rightarrow> stats_inputs \<Rightarrow> timestamp \<Rightarrow> census_db \<Rightarrow> stats_row option \<Rightarrow> container
    \<Rightarrow> refresh_output result \<times> stats_row option \<times> container" where
  "runRefreshUIStats w inp now db row ct =
     (case Container_UIStatsService w ct of (stats, ct1) \<Rightarrow>
      (case Container_CensusService w ct1 of (svc, ct2) \<Rightarrow>
        (case (stats, svc) of
           (Some _, Some (_, BCensusService sv _ _ _)) \<Rightarrow>
             (case Repo_Refresh inp \<lparr>uo_ActivitySince = activitySince sv now, uo_MaxLevel = sv_maxLevel sv\<rparr> db row of
                (r, row') \<Rightarrow> (runRefreshUIStatsWithService (Some (map_sum id Some r)), row', ct2))
         | _ \<Rightarrow> (Inl (EText ''census/UI statistics service unavailable (check PostgreSQL configuration)''), row, ct2))))"

section \<open>Migrations (migrate.go)\<close>

text \<open>The container's database accessor with the driver behind it: the configured database is opened, or there is none.\<close>

definition open_database :: "goose \<Rightarrow> (string \<Rightarrow> err option) \<Rightarrow> Config \<Rightarrow> database \<Rightarrow> Driver option \<times> database" where
  "open_database g sql_Open cfg db =
     (case cg_Postgres cfg of
        None \<Rightarrow> (None, db)
      | Some pc \<Rightarrow> (case NewDriver g sql_Open (Some pc) (Some migration_FS) db of (Inl e, db') \<Rightarrow> (None, db') | (Inr d, db') \<Rightarrow> (Some d, db')))"

definition no_database :: err where
  "no_database = EText ''database driver not initialised (check config/postgres)''"

definition runMigrate :: "goose \<Rightarrow> (string \<Rightarrow> err option) \<Rightarrow> Config \<Rightarrow> string \<Rightarrow> database \<Rightarrow> err option \<times> database" where
  "runMigrate g sql_Open cfg direction db =
     (if direction \<noteq> ''up'' \<and> direction \<noteq> ''down'' then (Some (EText ''invalid direction, use up or down''), db)
      else case open_database g sql_Open cfg db of
        (None, db1) \<Rightarrow> (Some no_database, db1)
      | (Some d, db1) \<Rightarrow>
          (case (if direction = ''up'' then MigrateUp else MigrateDown) g sql_Open d db1 of (e, d', db2) \<Rightarrow> (e, db2)))"

text \<open>
  The queue migration. The table can be filled by others between the statements (\<open>mq_added\<close>, the rows that arrive while the jobs are
  published); \<open>mq_fetch\<close>, \<open>mq_rows\<close> and \<open>mq_delete\<close> are connection errors.
\<close>

record migrate_inputs =
  mq_fetch :: "err option"
  mq_rows :: "err option"
  mq_outcome :: "nat \<Rightarrow> pub_outcome"
  mq_added :: "pgQueueJob list"
  mq_delete :: "err option"

definition missing_relation :: err where
  "missing_relation = EText ''relation queue_jobs does not exist''"

definition select_jobs :: "database \<Rightarrow> pgQueueJob list result" where
  "select_jobs db =
     (if set [''id'', ''type'', ''payload'', ''status'', ''attempts'', ''max_attempts'', ''last_error''] \<subseteq> set (columns (db_catalogue db) ''queue_jobs'')
      then Inr (sort_key pj_ID (filter (\<lambda>j. pj_Status j \<in> {''pending'', ''claimed'', ''failed''}) (pg_queue (db_catalogue db))))
      else Inl missing_relation)"

definition delete_jobs :: "database \<Rightarrow> int result \<times> database" where
  "delete_jobs db =
     (if has_table (db_catalogue db) ''queue_jobs''
      then (Inr (int (length (filter (\<lambda>j. pj_Status j \<noteq> ''done'') (pg_queue (db_catalogue db))))),
            db\<lparr>db_catalogue := (db_catalogue db)\<lparr>pg_queue := filter (\<lambda>j. pj_Status j = ''done'') (pg_queue (db_catalogue db))\<rparr>\<rparr>)
      else (Inl missing_relation, db))"

fun publish_rows :: "(nat \<Rightarrow> pub_outcome) \<Rightarrow> nat \<Rightarrow> pgQueueJob list \<Rightarrow> broker \<Rightarrow> nat \<times> broker" where
  "publish_rows oc i [] bk = (0, bk)"
| "publish_rows oc i (j # js) bk =
     (case Publish (oc i) \<lparr>qj_Type = pj_Type j, qj_Payload = pj_Payload j\<rparr> bk of (e, bk1) \<Rightarrow>
      (case publish_rows oc (Suc i) js bk1 of (failed, bk2) \<Rightarrow> ((if e = None then failed else Suc failed), bk2)))"

definition arrive :: "pgQueueJob list \<Rightarrow> database \<Rightarrow> database" where
  "arrive js db = db\<lparr>db_catalogue := (db_catalogue db)\<lparr>pg_queue := pg_queue (db_catalogue db) @ js\<rparr>\<rparr>"

definition runMigrateQueue :: "migrate_inputs \<Rightarrow> bool \<Rightarrow> bool \<Rightarrow> bool \<Rightarrow> database \<times> broker \<Rightarrow> err option \<times> database \<times> broker" where
  "runMigrateQueue inp driver queue dryRun st =
     (case st of (db, bk) \<Rightarrow>
        if \<not> driver then (Some no_database, db, bk)
        else if \<not> queue then (Some (EText ''queue not initialised (check rabbitmq config)''), db, bk)
        else case (case mq_fetch inp of Some e \<Rightarrow> Inl e | None \<Rightarrow> select_jobs db) of
          Inl e \<Rightarrow> (Some (EWrap ''fetch queue_jobs: '' e []), db, bk)
        | Inr jobs \<Rightarrow>
            (case mq_rows inp of
               Some e \<Rightarrow> (Some (EWrap ''iterate queue_jobs: '' e []), db, bk)
             | None \<Rightarrow>
                 if jobs = [] \<or> dryRun then (None, db, bk)
                 else (case publish_rows (mq_outcome inp) 0 jobs bk of (failed, bk') \<Rightarrow>
                   (let db1 = arrive (mq_added inp) db
                    in if failed > 0
                       then (Some (EText (''failed to publish '' @ show_nat failed @ '' of '' @ show_nat (length jobs) @ '' jobs'')), db1, bk')
                       else (case (case mq_delete inp of Some e \<Rightarrow> (Inl e, db1) | None \<Rightarrow> delete_jobs db1) of
                               (Inl e, db2) \<Rightarrow> (Some (EWrap ''delete migrated queue_jobs: '' e []), db2, bk')
                             | (Inr n, db2) \<Rightarrow> (None, db2, bk'))))))"

definition migrateQueueCmd :: "goose \<Rightarrow> (string \<Rightarrow> err option) \<Rightarrow> Config \<Rightarrow> migrate_inputs \<Rightarrow> bool \<Rightarrow> bool \<Rightarrow> database \<times> broker
    \<Rightarrow> err option \<times> database \<times> broker" where
  "migrateQueueCmd g sql_Open cfg inp queue dryRun st =
     (case st of (db, bk) \<Rightarrow>
      (case open_database g sql_Open cfg db of (d, db1) \<Rightarrow> runMigrateQueue inp (d \<noteq> None) queue dryRun (db1, bk)))"

section \<open>The queue migration keeps the jobs it read\<close>

lemma publish_rows_keeps:
  "distinct (queue_names bk) \<Longrightarrow> publish_rows oc i js bk = (f, bk') \<Longrightarrow>
     bodies bk \<subseteq># bodies bk' \<and> queue_names bk' = queue_names bk \<and> (f = 0 \<longrightarrow> bodies bk' = bodies bk + mset (map pj_Payload js))"
proof (induction js arbitrary: i bk f)
  case (Cons j js)
  obtain e bk1 where p: "Publish (oc i) \<lparr>qj_Type = pj_Type j, qj_Payload = pj_Payload j\<rparr> bk = (e, bk1)" by fastforce
  obtain f' where r: "publish_rows oc (Suc i) js bk1 = (f', bk')" and f: "f = (if e = None then f' else Suc f')"
    using Cons.prems(2) p by (auto split: prod.splits)
  have k: "bodies bk \<subseteq># bodies bk1 \<and> queue_names bk1 = queue_names bk \<and> (e = None \<longrightarrow> bodies bk1 = add_mset (pj_Payload j) (bodies bk))"
    using publishConfirmed_keeps [OF Cons.prems(1) p [unfolded Publish_def]] by simp
  then have "bodies bk1 \<subseteq># bodies bk' \<and> queue_names bk' = queue_names bk1 \<and> (f' = 0 \<longrightarrow> bodies bk' = bodies bk1 + mset (map pj_Payload js))"
    using Cons.IH [OF _ r] Cons.prems(1) by simp
  then show ?case using k f by (auto intro: subset_mset.order_trans)
qed auto

text \<open>Jobs of the table that are not done, as bodies.\<close>

definition open_jobs :: "database \<Rightarrow> payload multiset" where
  "open_jobs db =
     (if has_table (db_catalogue db) ''queue_jobs''
      then image_mset pj_Payload (filter_mset (\<lambda>j. pj_Status j \<noteq> ''done'') (mset (pg_queue (db_catalogue db)))) else {#})"

text \<open>The CHECK constraint of the table.\<close>

definition known_status :: "database \<Rightarrow> bool" where
  "known_status db \<longleftrightarrow> (\<forall>j \<in> set (pg_queue (db_catalogue db)). pj_Status j \<in> {''pending'', ''claimed'', ''done'', ''failed''})"

lemma columns_of_table: "columns c t \<noteq> [] \<Longrightarrow> has_table c t"
  by (auto simp: columns_def has_table_def dest: map_of_SomeD split: option.splits intro!: rev_image_eqI)

lemma select_jobs_open:
  assumes "known_status db" "select_jobs db = Inr jobs"
  shows "mset (map pj_Payload jobs) = open_jobs db" "has_table (db_catalogue db) ''queue_jobs''"
proof -
  have "filter (\<lambda>j. pj_Status j \<in> {''pending'', ''claimed'', ''failed''}) (pg_queue (db_catalogue db))
      = filter (\<lambda>j. pj_Status j \<noteq> ''done'') (pg_queue (db_catalogue db))"
    using assms(1) by (intro filter_cong) (auto simp: known_status_def)
  moreover show t: "has_table (db_catalogue db) ''queue_jobs''"
    using assms(2) by (intro columns_of_table) (auto simp: select_jobs_def split: if_splits)
  ultimately show "mset (map pj_Payload jobs) = open_jobs db"
    using assms(2) by (auto simp: select_jobs_def open_jobs_def split: if_splits)
qed

lemma arrive_none [simp]: "arrive [] db = db"
  by (simp add: arrive_def)

text \<open>When nobody else writes the table during the command, no job is lost.\<close>

lemma migrate_queue_keeps:
  assumes "known_status db" and d: "distinct (queue_names bk)" and r: "runMigrateQueue inp driver queue dryRun (db, bk) = (e, db', bk')"
    and "mq_added inp = []"
  shows "bodies bk \<subseteq># bodies bk' \<and> open_jobs db + bodies bk \<subseteq># open_jobs db' + bodies bk'"
proof (cases "db' = db")
  case True
  have "bk' = bk \<or> (\<exists>oc i js f. publish_rows oc i js bk = (f, bk'))"
    using r by (auto simp: runMigrateQueue_def Let_def split: if_splits sum.splits option.splits prod.splits)
  then show ?thesis using True publish_rows_keeps [OF d] by auto
next
  case False
  then obtain jobs where j: "select_jobs db = Inr jobs" and p: "publish_rows (mq_outcome inp) 0 jobs bk = (0, bk')"
    using r assms(4) by (auto simp: runMigrateQueue_def Let_def delete_jobs_def split: if_splits sum.splits option.splits prod.splits)
  have "bodies bk' = bodies bk + open_jobs db" using publish_rows_keeps [OF d p] select_jobs_open(1) [OF assms(1) j] by simp
  then show ?thesis by simp
qed

section \<open>The queue migration finds no table\<close>

text \<open>
  Opening the database applies the pending migrations, and migration 10 drops the table: a command of this release can never read it.
\<close>

fun creates :: "string \<Rightarrow> statement \<Rightarrow> bool" where
  "creates t (CreateTable ine t' cs ks refs) = (t' = t)"
| "creates t s = False"

lemma has_table_replace_columns [simp]: "has_table (replace_columns t cs c) t' = has_table c t'"
  by (auto simp: has_table_def replace_columns_def image_iff split: if_splits)

lemma has_table_simps [simp]:
  "has_table (c\<lparr>pg_indexes := is\<rparr>) t = has_table c t" "has_table (c\<lparr>pg_constraints := ks\<rparr>) t = has_table c t"
  "has_table (forget_table t' c) t \<longleftrightarrow> t \<noteq> t' \<and> has_table c t"
  "has_table (c\<lparr>pg_tables := pg_tables c @ [(t', cs)], pg_constraints := ks, pg_references := rs\<rparr>) t \<longleftrightarrow> t = t' \<or> has_table c t"
  by (auto simp: has_table_def forget_table_def)

lemma exec_no_table: "exec s c = Some c' \<Longrightarrow> \<not> creates t s \<Longrightarrow> \<not> has_table c t \<Longrightarrow> \<not> has_table c' t"
  by (cases s) (auto split: if_splits)

lemma exec_all_no_table: "exec_all ss c = Some c' \<Longrightarrow> list_all (\<lambda>s. \<not> creates t s) ss \<Longrightarrow> \<not> has_table c t \<Longrightarrow> \<not> has_table c' t"
  by (induction ss arbitrary: c) (auto split: option.splits dest: exec_no_table)

lemma apply_up_no_table:
  "apply_up ms db = Some db' \<Longrightarrow> list_all (\<lambda>m. list_all (\<lambda>s. \<not> creates t s) (mi_up m)) ms \<Longrightarrow> \<not> has_table (db_catalogue db) t
     \<Longrightarrow> \<not> has_table (db_catalogue db') t"
  by (induction ms db rule: apply_up.induct) (auto split: if_splits option.splits dest: exec_all_no_table)

lemma drop_table_gone: "exec (DropTable t) c = Some c' \<Longrightarrow> \<not> has_table c' t"
  by (auto simp: forget_table_def has_table_def split: if_splits)

lemma migrations_drop_queue:
  assumes "10 \<notin> set (db_versions db)" "apply_up migration_FS db = Some db'"
  shows "\<not> has_table (db_catalogue db') ''queue_jobs''"
proof -
  let ?before = "take 9 migration_FS" and ?after = "drop 10 migration_FS"
  have fs: "migration_FS = ?before @ migration10 # ?after" by (simp add: migration_FS_def)
  have v: "10 \<notin> set (map mi_version ?before)"
    by (simp add: migration_FS_def migration1_def migration2_def migration3_def migration4_def migration5_def migration6_def migration7_def
        migration8_def migration9_def)
  obtain db1 where b: "apply_up ?before db = Some db1" and r: "apply_up (migration10 # ?after) db1 = Some db'"
    using assms(2) apply_up_append [of ?before "migration10 # ?after" db] unfolding fs [symmetric] by (auto split: option.splits)
  have "10 \<notin> set (db_versions db1)" using apply_up_versions [OF b] assms(1) v by blast
  then obtain c where c: "exec_all [DropTable ''queue_jobs''] (db_catalogue db1) = Some c"
    and a: "apply_up ?after \<lparr>db_catalogue = c, db_versions = db_versions db1 @ [10]\<rparr> = Some db'"
    using r by (auto simp: migration10_def simp del: exec_all.simps exec.simps split: option.splits)
  have "\<not> has_table c ''queue_jobs''" using c drop_table_gone [of _ "db_catalogue db1" c] by (auto split: option.splits)
  moreover have "list_all (\<lambda>m. list_all (\<lambda>s. \<not> creates ''queue_jobs'' s) (mi_up m)) ?after" by code_simp
  ultimately show ?thesis using apply_up_no_table [OF a] by simp
qed

lemma opened_database_migrated:
  assumes "goose_documented g" "open_database g sql_Open cfg db = (Some d, db')"
  shows "apply_up migration_FS db = Some db'"
  using assms by (auto simp: open_database_def NewDriver_def Driver_initialise_def Driver_migrateUp_def goose_up_def Let_def goose_documented_def
      split: option.splits sum.splits prod.splits)

text \<open>C9: The command that moves the legacy queue to RabbitMQ cannot do so: it opens the database through the driver, which applies the
  pending migrations first, and migration 10 drops the table. For every database that has not yet recorded migration 10, the command
  returns an error and publishes nothing, and once the database has been opened every job of the table is lost.\<close>

theorem legacy_queue_dropped_before_read:
  assumes "goose_documented g" and "10 \<notin> set (db_versions db)"
  shows "\<exists>e db'. migrateQueueCmd g sql_Open cfg inp queue dryRun (db, bk) = (Some e, db', bk)
    \<and> (fst (open_database g sql_Open cfg db) \<noteq> None \<longrightarrow> open_jobs db' = {#})"
proof -
  obtain d db1 where o: "open_database g sql_Open cfg db = (d, db1)" by fastforce
  show ?thesis
  proof (cases d)
    case None
    then show ?thesis using o by (simp add: migrateQueueCmd_def runMigrateQueue_def)
  next
    case (Some dr)
    have n: "\<not> has_table (db_catalogue db1) ''queue_jobs''"
      using migrations_drop_queue [OF assms(2) opened_database_migrated [OF assms(1)]] o Some by blast
    then have "columns (db_catalogue db1) ''queue_jobs'' = []" using columns_of_table by blast
    then have "select_jobs db1 = Inl missing_relation" by (simp add: select_jobs_def)
    then show ?thesis using o Some n by (auto simp: migrateQueueCmd_def runMigrateQueue_def open_jobs_def split: option.splits)
  qed
qed

definition waiting_job :: pgQueueJob where
  "waiting_job = \<lparr>pj_ID = 1, pj_Type = ''id-sweep'', pj_Payload = None, pj_Status = ''pending'', pj_Attempts = 0, pj_MaxAttempts = 5, pj_LastError = []\<rparr>"

text \<open>A database of the release before migration 10, with one job.\<close>

definition release_9 :: database where
  "release_9 = arrive [waiting_job] (the (apply_up (take 9 migration_FS) fresh_database))"

definition demo_migration :: migrate_inputs where
  "demo_migration = \<lparr>mq_fetch = None, mq_rows = None, mq_outcome = (\<lambda>_. PubAck), mq_added = [], mq_delete = None\<rparr>"

theorem legacy_queue_dropped_before_read_witness:
  "size (open_jobs release_9) = 1 \<and> fst (open_database plain_goose (\<lambda>_. None) toml_config release_9) \<noteq> None
   \<and> (\<exists>e db'. migrateQueueCmd plain_goose (\<lambda>_. None) toml_config demo_migration True False (release_9, []) = (Some e, db', []) \<and> open_jobs db' = {#})"
proof -
  have j: "size (open_jobs release_9) = 1" and v: "db_versions release_9 = [1, 2, 3, 4, 5, 6, 7, 8, 9]" by code_simp+
  have o: "fst (open_database plain_goose (\<lambda>_. None) toml_config release_9) \<noteq> None" by code_simp
  have n: "10 \<notin> set (db_versions release_9)" unfolding v by simp
  show ?thesis
    using legacy_queue_dropped_before_read [OF plain_goose_documented n, of "\<lambda>_. None" toml_config demo_migration True False "[]"] j o by blast
qed

end
