(* ===== verification/Metrics.thy ===== *)
theory Metrics
  imports Web_Views Float64 UI_Stats_Cache
begin

text \<open>
  infrastructure/metrics: the in-memory Prometheus registry and its text output, the StatsD client, the collectors and the observer of
  the statistics cache. A Go map is an association list with one entry per key; each operation holds the metric's lock and is one step.
\<close>

section \<open>Numbers\<close>

definition f_negate :: "float64 \<Rightarrow> float64" where
  "f_negate x = F64 (\<not> f_neg x) (f_mant x) (f_exp x)"

definition f_add :: "float64 \<Rightarrow> float64 \<Rightarrow> float64" where
  "f_add x y = f_sub x (f_negate y)"

definition f_le :: "float64 \<Rightarrow> float64 \<Rightarrow> bool" where
  "f_le x y = (let g = min (f_exp x) (f_exp y) in f_signed x g \<le> f_signed y g)"

definition f_zero :: float64 where "f_zero = F64 False 0 0"

text \<open>\<open>Duration.Seconds\<close>.\<close>

definition f_seconds :: "duration \<Rightarrow> float64" where
  "f_seconds d = f_add (f_of_int (go_div d second)) (f_div (f_of_int (go_mod d second)) (f_of_int 1000000000))"

section \<open>Metrics\<close>

type_synonym labels = "(string \<times> string) list"

definition label_pair :: "string \<times> string \<Rightarrow> string" where
  "label_pair kv = fst kv @ ''='' @ [CHR 0x22] @ snd kv @ [CHR 0x22]"

definition labelsToKey :: "labels \<Rightarrow> string" where
  "labelsToKey labels = join_with '','' (sort_by str_le (map label_pair labels))"

text \<open>Update of a map entry, starting from the zero value.\<close>

fun put :: "'k \<Rightarrow> ('v \<Rightarrow> 'v) \<Rightarrow> 'v \<Rightarrow> ('k \<times> 'v) list \<Rightarrow> ('k \<times> 'v) list" where
  "put k f z [] = [(k, f z)]"
| "put k f z ((k', v) # m) = (if k' = k then (k', f v) # m else (k', v) # put k f z m)"

definition get :: "'v \<Rightarrow> 'k \<Rightarrow> ('k \<times> 'v) list \<Rightarrow> 'v" where
  "get z k m = (case map_of m k of None \<Rightarrow> z | Some v \<Rightarrow> v)"

record series =
  se_name :: string
  se_help :: string
  se_values :: "(string \<times> float64) list"

definition Counter_Add :: "labels \<Rightarrow> float64 \<Rightarrow> series \<Rightarrow> series" where
  "Counter_Add labels delta c =
     (if f_less_zero delta then c else c\<lparr>se_values := put (labelsToKey labels) (\<lambda>v. f_add v delta) f_zero (se_values c)\<rparr>)"

definition Counter_Inc :: "labels \<Rightarrow> series \<Rightarrow> series" where
  "Counter_Inc labels c = Counter_Add labels (f_of_int 1) c"

definition Gauge_Set :: "labels \<Rightarrow> float64 \<Rightarrow> series \<Rightarrow> series" where
  "Gauge_Set labels val g = g\<lparr>se_values := put (labelsToKey labels) (\<lambda>_. val) f_zero (se_values g)\<rparr>"

definition Gauge_Add :: "labels \<Rightarrow> float64 \<Rightarrow> series \<Rightarrow> series" where
  "Gauge_Add labels delta g = g\<lparr>se_values := put (labelsToKey labels) (\<lambda>v. f_add v delta) f_zero (se_values g)\<rparr>"

definition Gauge_Sub :: "labels \<Rightarrow> float64 \<Rightarrow> series \<Rightarrow> series" where
  "Gauge_Sub labels delta g = g\<lparr>se_values := put (labelsToKey labels) (\<lambda>v. f_sub v delta) f_zero (se_values g)\<rparr>"

definition Gauge_Inc :: "labels \<Rightarrow> series \<Rightarrow> series" where "Gauge_Inc labels g = Gauge_Add labels (f_of_int 1) g"

definition Gauge_Dec :: "labels \<Rightarrow> series \<Rightarrow> series" where "Gauge_Dec labels g = Gauge_Sub labels (f_of_int 1) g"

record histogram =
  hi_name :: string
  hi_help :: string
  hi_buckets :: "float64 list"
  hi_counts :: "(string \<times> (float64 \<times> 64 word) list) list"
  hi_sums :: "(string \<times> float64) list"
  hi_totals :: "(string \<times> 64 word) list"

fun bump :: "float64 \<Rightarrow> float64 list \<Rightarrow> (float64 \<times> 64 word) list \<Rightarrow> (float64 \<times> 64 word) list" where
  "bump val [] m = m"
| "bump val (b # bs) m = bump val bs (if f_le val b then put b (\<lambda>n. n + 1) 0 m else m)"

definition Histogram_Observe :: "labels \<Rightarrow> float64 \<Rightarrow> histogram \<Rightarrow> histogram" where
  "Histogram_Observe labels val h =
     (let key = labelsToKey labels
      in h\<lparr>hi_counts := put key (bump val (hi_buckets h)) [] (hi_counts h),
           hi_sums := put key (\<lambda>s. f_add s val) f_zero (hi_sums h),
           hi_totals := put key (\<lambda>n. n + 1) 0 (hi_totals h)\<rparr>)"

section \<open>The registry\<close>

text \<open>The collectors are steps on the registry; each sets gauges.\<close>

record registry =
  rg_counters :: "(string \<times> series) list"
  rg_gauges :: "(string \<times> series) list"
  rg_histograms :: "(string \<times> histogram) list"

definition NewRegistry_metrics :: registry where
  "NewRegistry_metrics = \<lparr>rg_counters = [], rg_gauges = [], rg_histograms = []\<rparr>"

definition new_series :: "string \<Rightarrow> string \<Rightarrow> series" where
  "new_series name help = \<lparr>se_name = name, se_help = help, se_values = []\<rparr>"

definition NewCounter :: "string \<Rightarrow> string \<Rightarrow> registry \<Rightarrow> registry" where
  "NewCounter name help r =
     (if map_of (rg_counters r) name \<noteq> None then r else r\<lparr>rg_counters := rg_counters r @ [(name, new_series name help)]\<rparr>)"

definition NewGauge :: "string \<Rightarrow> string \<Rightarrow> registry \<Rightarrow> registry" where
  "NewGauge name help r =
     (if map_of (rg_gauges r) name \<noteq> None then r else r\<lparr>rg_gauges := rg_gauges r @ [(name, new_series name help)]\<rparr>)"

definition new_histogram :: "string \<Rightarrow> string \<Rightarrow> float64 list \<Rightarrow> histogram" where
  "new_histogram name help buckets =
     \<lparr>hi_name = name, hi_help = help, hi_buckets = buckets, hi_counts = [], hi_sums = [], hi_totals = []\<rparr>"

definition NewHistogram :: "string \<Rightarrow> string \<Rightarrow> float64 list \<Rightarrow> registry \<Rightarrow> registry" where
  "NewHistogram name help buckets r =
     (if map_of (rg_histograms r) name \<noteq> None then r
      else r\<lparr>rg_histograms := rg_histograms r @ [(name, new_histogram name help (sort_by f_le buckets))]\<rparr>)"

text \<open>Work on a registered metric.\<close>

definition on_entry :: "string \<Rightarrow> ('v \<Rightarrow> 'v) \<Rightarrow> (string \<times> 'v) list \<Rightarrow> (string \<times> 'v) list" where
  "on_entry name f m = map (\<lambda>x. if fst x = name then (name, f (snd x)) else x) m"

definition with_counter :: "string \<Rightarrow> (series \<Rightarrow> series) \<Rightarrow> registry \<Rightarrow> registry" where
  "with_counter name f r = r\<lparr>rg_counters := on_entry name f (rg_counters r)\<rparr>"

definition with_gauge :: "string \<Rightarrow> (series \<Rightarrow> series) \<Rightarrow> registry \<Rightarrow> registry" where
  "with_gauge name f r = r\<lparr>rg_gauges := on_entry name f (rg_gauges r)\<rparr>"

definition with_histogram :: "string \<Rightarrow> (histogram \<Rightarrow> histogram) \<Rightarrow> registry \<Rightarrow> registry" where
  "with_histogram name f r = r\<lparr>rg_histograms := on_entry name f (rg_histograms r)\<rparr>"

text \<open>The text output. \<open>show_g\<close> is the formatting of a float by \<open>%g\<close>.\<close>

definition eol :: string where "eol = [CHR 0x0A]"

definition header_lines :: "string \<Rightarrow> string \<Rightarrow> string \<Rightarrow> string" where
  "header_lines name help kind = ''# HELP '' @ name @ '' '' @ help @ eol @ ''# TYPE '' @ name @ '' '' @ kind @ eol"

definition braced :: "string \<Rightarrow> string" where
  "braced k = (if k = [] then [] else ''{'' @ k @ ''}'')"

definition gather_series :: "(float64 \<Rightarrow> string) \<Rightarrow> string \<Rightarrow> series \<Rightarrow> string" where
  "gather_series show_g kind c =
     (if se_values c = [] then []
      else header_lines (se_name c) (se_help c) kind
        @ concat (map (\<lambda>k. se_name c @ braced k @ '' '' @ show_g (get f_zero k (se_values c)) @ eol)
            (sort_by str_le (map fst (se_values c)))))"

definition with_le :: "string \<Rightarrow> string \<Rightarrow> string" where
  "with_le k bound = (if k = [] then [] else k @ '','') @ ''le='' @ [CHR 0x22] @ bound @ [CHR 0x22]"

definition gather_key :: "(float64 \<Rightarrow> string) \<Rightarrow> histogram \<Rightarrow> string \<Rightarrow> string" where
  "gather_key show_g h k =
     (let total = show_nat (unat (get 0 k (hi_totals h))); sum = show_g (get f_zero k (hi_sums h)); counts = get [] k (hi_counts h)
      in concat (map (\<lambda>b. hi_name h @ ''_bucket{'' @ with_le k (show_g b) @ ''} '' @ show_nat (unat (get 0 b counts)) @ eol) (hi_buckets h))
         @ hi_name h @ ''_bucket{'' @ with_le k ''+Inf'' @ ''} '' @ total @ eol
         @ hi_name h @ ''_sum'' @ braced k @ '' '' @ sum @ eol
         @ hi_name h @ ''_count'' @ braced k @ '' '' @ total @ eol)"

definition gather_histogram :: "(float64 \<Rightarrow> string) \<Rightarrow> histogram \<Rightarrow> string" where
  "gather_histogram show_g h =
     (if hi_totals h = [] then []
      else header_lines (hi_name h) (hi_help h) ''histogram''
        @ concat (map (gather_key show_g h) (sort_by str_le (map fst (hi_totals h)))))"

definition in_order :: "(string \<times> 'v) list \<Rightarrow> 'v list" where
  "in_order m = List.map_filter (\<lambda>k. map_of m k) (sort_by str_le (map fst m))"

definition Gather :: "(float64 \<Rightarrow> string) \<Rightarrow> (registry \<Rightarrow> registry) list \<Rightarrow> registry \<Rightarrow> string \<times> registry" where
  "Gather show_g collectors r0 =
     (let r = fold (\<lambda>f r. f r) collectors r0
      in (concat (map (gather_series show_g ''counter'') (in_order (rg_counters r)))
          @ concat (map (gather_series show_g ''gauge'') (in_order (rg_gauges r)))
          @ concat (map (gather_histogram show_g) (in_order (rg_histograms r))), r))"

section \<open>Collectors, observer and StatsD\<close>

definition RegisterProcessMetrics :: "duration \<Rightarrow> registry \<Rightarrow> registry" where
  "RegisterProcessMetrics uptime r = with_gauge ''process_uptime_seconds'' (Gauge_Set [] (f_seconds uptime)) r"

definition RegisterQueueMetrics :: "int option \<Rightarrow> registry \<Rightarrow> registry" where
  "RegisterQueueMetrics depth r =
     (case depth of None \<Rightarrow> r | Some n \<Rightarrow> with_gauge ''queue_jobs_depth'' (Gauge_Set [] (f_of_int n)) r)"

definition RegisterSQLiteMetrics :: "(int \<times> int \<times> int) option \<Rightarrow> registry \<Rightarrow> registry" where
  "RegisterSQLiteMetrics stats r =
     (case stats of
        None \<Rightarrow> r
      | Some (open_conns, in_use, idle) \<Rightarrow>
          with_gauge ''sqlite_idle_connections'' (Gauge_Set [] (f_of_int idle))
            (with_gauge ''sqlite_in_use_connections'' (Gauge_Set [] (f_of_int in_use))
              (with_gauge ''sqlite_open_connections'' (Gauge_Set [] (f_of_int open_conns)) r)))"

definition refresh_buckets :: "float64 list" where
  "refresh_buckets = map f_of_int [1, 5, 15, 60, 300, 900, 3600, 7200]"

definition NewUIStatsObserver :: "registry \<Rightarrow> registry" where
  "NewUIStatsObserver r =
     NewGauge ''ui_stats_last_refresh_duration_seconds'' ''Duration recorded by the currently served UI statistics snapshot''
       (NewGauge ''ui_stats_payload_bytes'' ''Serialized UI statistics snapshot size in bytes''
         (NewGauge ''ui_stats_snapshot_age_seconds'' ''Age of the UI statistics snapshot currently served''
           (NewHistogram ''ui_stats_refresh_duration_seconds'' ''UI statistics refresh duration in seconds'' refresh_buckets
             (NewCounter ''ui_stats_refresh_total'' ''UI statistics refresh outcomes''
               (NewCounter ''ui_stats_cache_total'' ''UI statistics cache outcomes'' r)))))"

text \<open>\<open>marshal\<close> is the length of the snapshot's JSON text, \<open>None\<close> when it cannot be made.\<close>

definition ObserveUIStatsCache :: "(UIStatsSnapshot \<Rightarrow> nat option) \<Rightarrow> timestamp \<Rightarrow> string \<Rightarrow> UIStatsSnapshot option \<Rightarrow> registry \<Rightarrow> registry" where
  "ObserveUIStatsCache marshal now outcome snapshot r =
     (let r1 = with_counter ''ui_stats_cache_total'' (Counter_Inc [(''result'', outcome)]) r
      in case snapshot of
           None \<Rightarrow> r1
         | Some sn \<Rightarrow>
             if us_GeneratedAt sn = 0 then r1
             else let age0 = f_seconds (time_sub now (us_GeneratedAt sn));
                      age = (if f_less_zero age0 then f_zero else age0);
                      r2 = with_gauge ''ui_stats_snapshot_age_seconds'' (Gauge_Set [] age) r1;
                      r3 = with_gauge ''ui_stats_last_refresh_duration_seconds'' (Gauge_Set [] (f_seconds (us_RefreshDuration sn))) r2
                  in (case marshal sn of
                        None \<Rightarrow> r3
                      | Some n \<Rightarrow> with_gauge ''ui_stats_payload_bytes'' (Gauge_Set [] (f_of_int (int n))) r3))"

definition ObserveUIStatsRefresh :: "string \<Rightarrow> duration \<Rightarrow> int \<Rightarrow> registry \<Rightarrow> registry" where
  "ObserveUIStatsRefresh outcome d payloadBytes r =
     (let r1 = with_counter ''ui_stats_refresh_total'' (Counter_Inc [(''result'', outcome)]) r;
          r2 = with_histogram ''ui_stats_refresh_duration_seconds'' (Histogram_Observe [] (f_seconds d)) r1
      in if payloadBytes \<ge> 0 then with_gauge ''ui_stats_payload_bytes'' (Gauge_Set [] (f_of_int payloadBytes)) r2 else r2)"

text \<open>The observations of the cache, applied in order.\<close>

fun observe_all :: "(UIStatsSnapshot \<Rightarrow> nat option) \<Rightarrow> timestamp \<Rightarrow> observation list \<Rightarrow> registry \<Rightarrow> registry" where
  "observe_all marshal now [] r = r"
| "observe_all marshal now (CacheObserved outcome sn # os) r = observe_all marshal now os (ObserveUIStatsCache marshal now outcome sn r)"
| "observe_all marshal now (RefreshObserved outcome d n # os) r = observe_all marshal now os (ObserveUIStatsRefresh outcome d n r)"

record statsd =
  sd_prefix :: string

definition trim_dots :: "string \<Rightarrow> string" where
  "trim_dots s = rev (dropWhile (\<lambda>c. c = CHR ''.'') (rev (dropWhile (\<lambda>c. c = CHR ''.'') s)))"

definition NewStatsd :: "(string \<Rightarrow> err option) \<Rightarrow> string \<Rightarrow> string \<Rightarrow> statsd result" where
  "NewStatsd dial endpoint prefix =
     (case dial endpoint of
        Some e \<Rightarrow> Inl (EWrap (''connect to statsd endpoint '' @ endpoint @ '': '') e [])
      | None \<Rightarrow> Inr \<lparr>sd_prefix = trim_dots prefix\<rparr>)"

definition compose :: "statsd \<Rightarrow> string \<Rightarrow> string" where
  "compose c stat =
     (let segment = trim_dots stat
      in if sd_prefix c = [] then segment else if segment = [] then sd_prefix c else sd_prefix c @ ''.'' @ segment)"

definition Timing :: "statsd \<Rightarrow> string \<Rightarrow> duration \<Rightarrow> string" where
  "Timing c stat d = compose c stat @ '':'' @ show_int (go_div d millisecond) @ ''|ms''"

definition Increment :: "statsd \<Rightarrow> string \<Rightarrow> string" where
  "Increment c stat = compose c stat @ '':1|c''"

definition Statsd_Count :: "statsd \<Rightarrow> string \<Rightarrow> int \<Rightarrow> string" where
  "Statsd_Count c stat v = compose c stat @ '':'' @ show_int v @ ''|c''"

section \<open>Histograms count exactly\<close>

lemma map_of_put: "map_of (put k f z m) = (map_of m)(k \<mapsto> f (get z k m))"
  by (induction k f z m rule: put.induct) (auto simp: get_def fun_eq_iff)

lemma get_put: "get z' k (put k' f z m) = (if k = k' then f (get z k m) else get z' k m)"
  unfolding get_def [of z'] map_of_put by simp

lemma bump_get: "distinct bs \<Longrightarrow> get 0 b (bump v bs m) = get 0 b m + (if b \<in> set bs \<and> f_le v b then 1 else 0)"
  by (induction bs arbitrary: m) (auto simp: get_put)

definition observe_values :: "(labels \<times> float64) list \<Rightarrow> histogram \<Rightarrow> histogram" where
  "observe_values os h = fold (\<lambda>(l, v) h. Histogram_Observe l v h) os h"

text \<open>The samples of a series.\<close>

definition samples :: "string \<Rightarrow> (labels \<times> float64) list \<Rightarrow> float64 list" where
  "samples key os = map snd (filter (\<lambda>x. labelsToKey (fst x) = key) os)"

lemma Histogram_Observe_simps [simp]:
  "hi_buckets (Histogram_Observe l v h) = hi_buckets h"
  "get 0 k (hi_totals (Histogram_Observe l v h)) = get 0 k (hi_totals h) + (if labelsToKey l = k then 1 else 0)"
  "get [] k (hi_counts (Histogram_Observe l v h))
     = (if labelsToKey l = k then bump v (hi_buckets h) (get [] k (hi_counts h)) else get [] k (hi_counts h))"
  by (auto simp: Histogram_Observe_def Let_def get_put)

lemma observe_values_counts:
  assumes "distinct (hi_buckets h)" "b \<in> set (hi_buckets h)"
  shows "get 0 b (get [] k (hi_counts (observe_values os h)))
      = get 0 b (get [] k (hi_counts h)) + of_nat (length (filter (\<lambda>v. f_le v b) (samples k os)))"
    "get 0 k (hi_totals (observe_values os h)) = get 0 k (hi_totals h) + of_nat (length (samples k os))"
  using assms
  by (induction os arbitrary: h) (auto simp: observe_values_def samples_def bump_get)

lemma f_le_trans_filter:
  assumes "\<And>v. v \<in> set vs \<Longrightarrow> f_le v b \<Longrightarrow> f_le v b'"
  shows "length (filter (\<lambda>v. f_le v b) vs) \<le> length (filter (\<lambda>v. f_le v b') vs)"
  using assms by (induction vs) auto

lemma f_signed_shift: "g \<le> e \<Longrightarrow> g' \<le> g \<Longrightarrow> e = f_exp x \<Longrightarrow> f_signed x g' = f_signed x g * 2 ^ nat (g - g')"
  by (auto simp: f_signed_def simp flip: power_add nat_add_distrib)

lemma f_le_common: "g \<le> f_exp x \<Longrightarrow> g \<le> f_exp y \<Longrightarrow> f_le x y \<longleftrightarrow> f_signed x g \<le> f_signed y g"
  using f_signed_shift [of "min (f_exp x) (f_exp y)" "f_exp x" g x] f_signed_shift [of "min (f_exp x) (f_exp y)" "f_exp y" g y]
  by (simp add: f_le_def Let_def)

lemma f_le_trans:
  assumes "f_le x y" "f_le y z"
  shows "f_le x z"
proof -
  define g where "g = min (f_exp x) (min (f_exp y) (f_exp z))"
  have "g \<le> f_exp x" "g \<le> f_exp y" "g \<le> f_exp z" by (auto simp: g_def)
  then show ?thesis using assms f_le_common [of g x y] f_le_common [of g y z] f_le_common [of g x z] by simp
qed

text \<open>A histogram of the registry counts exactly: after any sequence of observations of fewer than 2^64 samples, the count of a bucket in
  a series is the number of samples of the series that are at most its bound, the total is the number of samples, and the counts are
  cumulative: a larger bound has no smaller count, and none exceeds the total.\<close>

lemma histogram_counts_exact:
  fixes name descr k :: string and buckets :: "float64 list" and os :: "(labels \<times> float64) list"
  assumes "distinct buckets" and "length os < 2 ^ 64" and "b \<in> set buckets" and "b' \<in> set buckets" and "f_le b b'"
  defines "h \<equiv> observe_values os (new_histogram name descr buckets)"
  defines "cnt \<equiv> (\<lambda>x. unat (get 0 x (get [] k (hi_counts h))))"
  shows "cnt b = length (filter (\<lambda>v. f_le v b) (samples k os)) \<and> cnt b \<le> cnt b'
    \<and> cnt b' \<le> unat (get 0 k (hi_totals h)) \<and> unat (get 0 k (hi_totals h)) = length (samples k os)"
proof -
  have "length (samples k os) \<le> length os" by (simp add: samples_def)
  then have s: "length (samples k os) < 2 ^ 64" using assms(2) by simp
  then have l: "length (filter P (samples k os)) < 2 ^ 64" for P
    using le_less_trans [OF length_filter_le [of P "samples k os"]] by blast
  have c: "cnt x = length (filter (\<lambda>v. f_le v x) (samples k os))" if "x \<in> set buckets" for x
    using observe_values_counts(1) [of "new_histogram name descr buckets" x k os]
      assms(1) that l by (simp add: cnt_def h_def new_histogram_def get_def [of _ _ "[]"] unat_of_nat)
  have t: "unat (get 0 k (hi_totals h)) = length (samples k os)"
    using observe_values_counts(2) [of "new_histogram name descr buckets" b k os]
      assms(1,3) s by (simp add: h_def new_histogram_def get_def [of _ _ "[]"] unat_of_nat)
  show ?thesis using c [OF assms(3)] c [OF assms(4)] t f_le_trans_filter [of "samples k os" b b'] f_le_trans [OF _ assms(5)] by simp
qed

text \<open>Label values are not escaped: a request path with a quotation mark in it is counted under the labels of another request.\<close>

lemma labels_collide:
  "labelsToKey [(''path'', ''/a'' @ [CHR 0x22] @ '',status='' @ [CHR 0x22] @ ''200'')] = labelsToKey [(''path'', ''/a''), (''status'', ''200'')]"
  by code_simp

end
