(* ===== verification/Http_Server.thy ===== *)
theory Http_Server
  imports Metrics Pg_Driver
begin

text \<open>
  cmd/http: the middleware chain of the server, the token check of the REST API, the health and metrics endpoints, and how the server
  puts them together. A handler is a function from the request to what it does: the headers and bytes it writes in order, whether it
  panics, and the log lines and metrics of the middleware around it.
\<close>

section \<open>Requests and handlers\<close>

record http_request =
  hr_Method :: string
  hr_Path :: string
  hr_Authorization :: string
  hr_Body :: string

datatype http_write = WHeader int | WBytes string

datatype http_event =
    Logged string string int string
  | PanicLogged string string
  | Timed string
  | Counted string string string
  | Interrupted

record run =
  rn_writes :: "http_write list"
  rn_panic :: bool
  rn_events :: "http_event list"

type_synonym http_handler = "http_request \<Rightarrow> run"

type_synonym middleware = "http_handler \<Rightarrow> http_handler"

text \<open>The first header written goes to the client, the first bytes imply 200; a wrapper keeps the code of the last call.\<close>

fun sent_status :: "http_write list \<Rightarrow> int" where
  "sent_status [] = 200"
| "sent_status (WHeader code # ws) = code"
| "sent_status (WBytes b # ws) = 200"

fun recorded_status :: "int \<Rightarrow> http_write list \<Rightarrow> int" where
  "recorded_status code [] = code"
| "recorded_status code (WHeader c # ws) = recorded_status c ws"
| "recorded_status code (WBytes b # ws) = recorded_status code ws"

fun written :: "http_write list \<Rightarrow> string list" where
  "written [] = []"
| "written (WHeader c # ws) = written ws"
| "written (WBytes b # ws) = b # written ws"

section \<open>Authentication (auth.go)\<close>

text \<open>\<open>strings.EqualFold\<close> against a constant without the letters k and s, whose other case forms are not ASCII.\<close>

definition ascii_fold_eq :: "string \<Rightarrow> string \<Rightarrow> bool" where
  "ascii_fold_eq a b \<longleftrightarrow> map ascii_lower a = map ascii_lower b"

lemma trim_runes_drops: "(\<exists>u. s = u @ trim_runes rs s) \<and> (\<forall>r \<in> set rs. r \<noteq> [] \<longrightarrow> \<not> is_prefix r (trim_runes rs s))"
proof (induction rs s rule: trim_runes.induct)
  case (1 rs s)
  show ?case
  proof (cases "find (\<lambda>r. r \<noteq> [] \<and> is_prefix r s) rs")
    case None
    then have "trim_runes rs s = s" by (simp add: trim_runes.simps [of rs s])
    then show ?thesis using None by (auto simp: find_None_iff)
  next
    case (Some r)
    then have "trim_runes rs s = trim_runes rs (drop (length r) s)" by (simp add: trim_runes.simps [of rs s])
    moreover obtain u where "drop (length r) s = u @ trim_runes rs (drop (length r) s)" using 1 [OF Some] by blast
    then have "s = (take (length r) s @ u) @ trim_runes rs (drop (length r) s)" by (metis append_assoc append_take_drop_id)
    ultimately show ?thesis using 1 [OF Some] by metis
  qed
qed

lemma length_trim_space: "length (trim_space s) \<le> length s"
proof -
  have "length (trim_runes rs x) \<le> length x" for rs x
    using trim_runes_drops [of x rs] by (metis le_add2 length_append)
  from this [of "map rev space_runes" "rev (trim_runes space_runes s)"] this [of space_runes s] show ?thesis by (simp add: trim_space_def)
qed

function strip_bearer :: "string \<Rightarrow> bool \<times> string" where
  "strip_bearer s =
     (if length s \<ge> 7 \<and> ascii_fold_eq (take 7 s) ''bearer '' then (True, snd (strip_bearer (trim_space (drop 7 s)))) else (False, s))"
  by pat_completeness auto
termination
proof (relation "measure length")
  fix s :: string
  assume "7 \<le> length s \<and> ascii_fold_eq (take 7 s) ''bearer ''"
  then show "(trim_space (drop 7 s), s) \<in> measure length" using length_trim_space [of "drop 7 s"] by (simp, linarith)
qed simp

declare strip_bearer.simps [simp del]

datatype auth_decision = Next | Unauthorized string

definition auth_decide :: "string \<Rightarrow> string \<Rightarrow> string \<Rightarrow> auth_decision" where
  "auth_decide env token header =
     (if ascii_fold_eq env ''development'' then Next
      else let rawHeader = trim_space header
           in if rawHeader = [] then Unauthorized ''unauthorized: missing authorization header''
              else if ascii_fold_eq rawHeader ''bearer'' then Unauthorized ''unauthorized: invalid bearer token format''
              else (case strip_bearer rawHeader of (hasBearerPrefix, providedToken) \<Rightarrow>
                if hasBearerPrefix \<and> providedToken = [] then Unauthorized ''unauthorized: invalid bearer token format''
                else if token = [] \<or> providedToken \<noteq> token then Unauthorized ''unauthorized: invalid token''
                else Next))"

definition respondUnauthorized :: "string \<Rightarrow> run" where
  "respondUnauthorized message =
     \<lparr>rn_writes = [WHeader 401, WBytes (''{'' @ [CHR 0x22] @ ''error'' @ [CHR 0x22] @ '':'' @ [CHR 0x22] @ message @ [CHR 0x22] @ ''}'' @ [CHR 0x0A])],
      rn_panic = False, rn_events = []\<rparr>"

definition APIAuth :: "string \<Rightarrow> string \<Rightarrow> middleware" where
  "APIAuth env token next r =
     (case auth_decide env token (hr_Authorization r) of Next \<Rightarrow> next r | Unauthorized m \<Rightarrow> respondUnauthorized m)"

section \<open>Middleware\<close>

definition Chain :: "middleware list \<Rightarrow> http_handler \<Rightarrow> http_handler" where
  "Chain ms handler = foldr (\<lambda>m h. m h) ms handler"

definition Recoverer :: middleware where
  "Recoverer next r =
     (let x = next r
      in if rn_panic x
         then x\<lparr>rn_writes := rn_writes x @ [WHeader 500, WBytes (''internal server error'' @ [CHR 0x0A])], rn_panic := False,
                rn_events := rn_events x @ [PanicLogged (hr_Method r) (hr_Path r)]\<rparr>
         else x)"

definition maxLogBody :: nat where "maxLogBody = 4096"

definition truncated_mark :: string where
  "truncated_mark = [CHR 0xE2, CHR 0x80, CHR 0xA6] @ ''[truncated]''"

text \<open>The buffer of the logging writer; the writes to the client succeed.\<close>

definition log_write :: "string \<Rightarrow> string \<Rightarrow> string" where
  "log_write b buf =
     (if length buf < maxLogBody
      then let buf' = buf @ take (maxLogBody - length buf) b
           in if length buf' = maxLogBody then buf' @ truncated_mark else buf'
      else buf)"

definition logged_request :: "string \<Rightarrow> string" where
  "logged_request body = (if length body > maxLogBody then take maxLogBody body @ truncated_mark else body)"

text \<open>
  The three logging middlewares differ in the text they print: the plain one and the single-line one cut the request body at 4 KB, the
  coloured one at 64 KB. All print the response body of a status from 300 on.
\<close>

definition logging_with :: "(string \<Rightarrow> string) \<Rightarrow> middleware" where
  "logging_with request_text next r =
     (let x = next r; status = recorded_status 200 (rn_writes x)
      in if rn_panic x then x
         else x\<lparr>rn_events := rn_events x @ [Logged (hr_Method r) (request_text (hr_Body r)) status
                (if status \<ge> 300 then fold log_write (written (rn_writes x)) [] else [])]\<rparr>)"

definition LoggingSimple :: middleware where "LoggingSimple = logging_with logged_request"

definition LoggingColored :: middleware where "LoggingColored = logging_with (take 65536)"

definition inline_words :: "string \<Rightarrow> string" where
  "inline_words body = join_with '' '' (filter (\<lambda>w. w \<noteq> [])
     (foldr (\<lambda>c ws. if c \<in> {CHR 0x09, CHR 0x0A, CHR 0x0B, CHR 0x0C, CHR 0x0D, CHR 0x20} then [] # ws else (c # hd ws) # tl ws) body [[]]))"

definition LoggingColorSimple :: middleware where "LoggingColorSimple = logging_with (inline_words \<circ> logged_request)"

definition truncatePath :: "string \<Rightarrow> string" where
  "truncatePath path = (if length path > 60 then take 57 path @ ''...'' else path)"

definition init_logging :: "LoggingConfig option \<Rightarrow> middleware" where
  "init_logging cfg =
     (let serverDefault = (case cfg of None \<Rightarrow> ''color'' | Some c \<Rightarrow> or_default (lg_ServerDefault c) ''color'')
      in if serverDefault = ''color'' \<or> serverDefault = ''color-simple'' then LoggingColored
         else if serverDefault = ''json'' \<or> serverDefault = ''pretty-json'' then LoggingSimple
         else LoggingColored)"

definition NewMaxReqMiddleware :: "64 word \<Rightarrow> 64 word \<Rightarrow> 64 word" where
  "NewMaxReqMiddleware limit jitter = (if limit \<noteq> 0 then limit + jitter else limit)"

text \<open>\<open>seen\<close> is the value of the atomic counter after this request was added.\<close>

definition MaxReq_Handler :: "64 word \<Rightarrow> 64 word \<Rightarrow> middleware" where
  "MaxReq_Handler limit seen next r =
     (if limit = 0 then next r
      else let x = next r in x\<lparr>rn_events := (if seen \<ge> limit then [Interrupted] else []) @ rn_events x\<rparr>)"

definition metric_segment :: "string \<Rightarrow> string" where
  "metric_segment path =
     (let trim = dropWhile (\<lambda>c. c = CHR ''_''); s = rev (trim (rev (trim (map (\<lambda>c. if c = CHR ''/'' then CHR ''_'' else c) path))))
      in or_default s ''root'')"

definition request_labels :: "string \<Rightarrow> string \<Rightarrow> string \<Rightarrow> labels" where
  "request_labels method path status = [(''method'', method), (''path'', path), (''status'', status)]"

definition MetricsWithRegistry :: "statsd option \<Rightarrow> bool \<Rightarrow> duration \<Rightarrow> middleware" where
  "MetricsWithRegistry client registry d next r =
     (let x = next r; path = or_default (hr_Path r) ''/''
      in if rn_panic x then x
         else x\<lparr>rn_events := rn_events x
                @ (case client of None \<Rightarrow> [] | Some c \<Rightarrow> [Timed (Timing c (''http.'' @ metric_segment (hr_Path r)) d)])
                @ (if registry then [Counted (hr_Method r) path (show_int (recorded_status 200 (rn_writes x)))] else [])\<rparr>)"

definition http_buckets :: "float64 list" where
  "http_buckets = map (\<lambda>n. f_div (f_of_int n) (f_of_int 1000)) [1, 5, 10, 25, 50, 100, 250, 500, 1000, 2500, 5000, 10000]"

definition NewHttpMetrics :: "registry \<Rightarrow> registry" where
  "NewHttpMetrics r =
     NewHistogram ''http_request_duration_seconds'' ''Histogram of HTTP request latencies partitioned by method and path'' http_buckets
       (NewCounter ''http_requests_total'' ''Total number of HTTP requests processed partitioned by method, path, and status code'' r)"

definition count_request :: "string \<Rightarrow> string \<Rightarrow> string \<Rightarrow> duration \<Rightarrow> registry \<Rightarrow> registry" where
  "count_request method path status d r =
     with_histogram ''http_request_duration_seconds'' (Histogram_Observe [(''method'', method), (''path'', path)] (f_seconds d))
       (with_counter ''http_requests_total'' (Counter_Inc (request_labels method path status)) r)"

section \<open>Health and metrics endpoints\<close>

definition Check :: "duration \<Rightarrow> int \<times> string \<times> float64" where
  "Check uptime = (200, ''ok'', f_seconds uptime)"

definition Ready :: "err option option \<Rightarrow> int \<times> string \<times> string" where
  "Ready ping =
     (case ping of
        None \<Rightarrow> (200, ''ready'', ''unconfigured'')
      | Some None \<Rightarrow> (200, ''ready'', ''healthy'')
      | Some (Some e) \<Rightarrow> (503, ''unhealthy'', ''unhealthy: '' @ error_text e))"

text \<open>The pinger of the router: \<open>row\<close> is what the query \<open>SELECT 1\<close> would report when it is scanned.\<close>

definition PingContext :: "goose \<Rightarrow> (string \<Rightarrow> err option) \<Rightarrow> Driver option \<Rightarrow> (database \<Rightarrow> int result) \<Rightarrow> database \<Rightarrow> err option" where
  "PingContext g sql_Open driver row db =
     (case driver of
        None \<Rightarrow> Some (EText ''database driver uninitialized'')
      | Some d \<Rightarrow> (case Driver_FetchOne g sql_Open d row db of (Inl e, _) \<Rightarrow> Some e | (Inr _, _) \<Rightarrow> None))"

text \<open>The router adds the pinger only when there is a driver.\<close>

definition router_ready :: "goose \<Rightarrow> (string \<Rightarrow> err option) \<Rightarrow> Driver option \<Rightarrow> (database \<Rightarrow> int result) \<Rightarrow> database \<Rightarrow> int \<times> string \<times> string" where
  "router_ready g sql_Open driver row db =
     (case driver of None \<Rightarrow> Ready None | Some d \<Rightarrow> Ready (Some (PingContext g sql_Open (Some d) row db)))"

definition MetricsEndpoint :: "(float64 \<Rightarrow> string) \<Rightarrow> (registry \<Rightarrow> registry) list \<Rightarrow> registry option \<Rightarrow> int \<times> string \<times> registry option" where
  "MetricsEndpoint show_g collectors registry =
     (case registry of None \<Rightarrow> (200, [], None) | Some r \<Rightarrow> (case Gather show_g collectors r of (text, r') \<Rightarrow> (200, text, Some r')))"

section \<open>The server\<close>

definition api_patterns :: "string list" where
  "api_patterns = [''GET /api/v1/census/latest'', ''GET /api/v1/census/characters'', ''GET /api/v1/census/export'',
     ''GET /api/v1/census/characters/{id}'', ''GET /api/v1/stats/breakdown'', ''GET /api/v1/stats/new-characters'', ''GET /api/v1/stats/expansion'']"

text \<open>Every route of the REST API is mounted behind the token check.\<close>

definition census_Register :: "Config \<Rightarrow> (string \<Rightarrow> http_handler) \<Rightarrow> (string \<times> http_handler) list" where
  "census_Register cfg handlers =
     (let token = (case cg_Auth cfg of None \<Rightarrow> [] | Some a \<Rightarrow> au_Token a)
      in map (\<lambda>p. (p, APIAuth (ac_Env (cg_App cfg)) token (handlers p))) api_patterns)"

definition server_chain :: "Config \<Rightarrow> statsd option \<Rightarrow> 64 word \<Rightarrow> 64 word \<Rightarrow> duration \<Rightarrow> http_handler \<Rightarrow> http_handler" where
  "server_chain cfg client limit seen d mux =
     Chain [Recoverer, init_logging (cg_Logging cfg), MaxReq_Handler limit seen, MetricsWithRegistry client True d] mux"

text \<open>How StartServer ends: a cancelled context shuts the server down and waits for it.\<close>

definition StartServer_end :: "(err \<Rightarrow> bool) \<Rightarrow> err option \<Rightarrow> err option option \<Rightarrow> err option" where
  "StartServer_end server_closed listen shutdown =
     (let listened = (case listen of Some e \<Rightarrow> if server_closed e then None else Some e | None \<Rightarrow> None)
      in case shutdown of
           Some (Some e) \<Rightarrow> if server_closed e then listened else Some e
         | _ \<Rightarrow> listened)"

section \<open>Who passes the token check\<close>

text \<open>A text without white space at its ends: neither a space rune at the front nor one at the back.\<close>

definition trimmed :: "string \<Rightarrow> bool" where
  "trimmed s \<longleftrightarrow> (\<forall>r \<in> set space_runes. \<not> is_prefix r s \<and> \<not> is_prefix (rev r) (rev s))"

lemma runes_nonempty: "r \<in> set space_runes \<Longrightarrow> r \<noteq> []"
  by (auto simp: space_runes_def)

lemma trim_runes_id: "\<forall>r \<in> set rs. \<not> is_prefix r s \<Longrightarrow> trim_runes rs s = s"
proof -
  assume "\<forall>r \<in> set rs. \<not> is_prefix r s"
  then have "find (\<lambda>r. r \<noteq> [] \<and> is_prefix r s) rs = None" by (auto simp: find_None_iff)
  then show ?thesis by (simp add: trim_runes.simps [of rs s])
qed

lemma trim_trimmed: "trimmed s \<Longrightarrow> trim_space s = s"
  by (simp add: trim_space_def trimmed_def trim_runes_id)

lemma trim_space_trimmed: "trimmed (trim_space s)"
proof -
  define x where "x = trim_runes space_runes s"
  define y where "y = trim_runes (map rev space_runes) (rev x)"
  obtain u where u: "rev x = u @ y" using trim_runes_drops [of "rev x" "map rev space_runes"] y_def by blast
  then have x: "x = rev y @ rev u" by (metis rev_append rev_rev_ident)
  have "\<not> is_prefix r (rev y)" if "r \<in> set space_runes" for r
    using trim_runes_drops [of s space_runes] runes_nonempty [OF that] that x unfolding x_def [symmetric] by (auto simp: is_prefix_iff)
  moreover have "\<not> is_prefix (rev r) y" if "r \<in> set space_runes" for r
    using trim_runes_drops [of "rev x" "map rev space_runes"] runes_nonempty [OF that] that unfolding y_def [symmetric] by auto
  ultimately show ?thesis by (simp add: trimmed_def trim_space_def x_def [symmetric] y_def [symmetric])
qed

text \<open>What is left of a header after the bearer words is its end.\<close>

lemma strip_bearer_suffix: "trimmed s \<Longrightarrow> \<exists>u. s = u @ snd (strip_bearer s)"
proof (induction s rule: strip_bearer.induct)
  case (1 s)
  show ?case
  proof (cases "length s \<ge> 7 \<and> ascii_fold_eq (take 7 s) ''bearer ''")
    case True
    define y where "y = trim_runes space_runes (drop 7 s)"
    obtain u where u: "drop 7 s = u @ y" using trim_runes_drops y_def by blast
    then have s: "s = (take 7 s @ u) @ y" by (metis append_assoc append_take_drop_id)
    have r: "rev s = rev y @ rev (take 7 s @ u)" by (subst s) simp
    have "\<not> is_prefix (rev r) (rev y)" if "r \<in> set space_runes" for r
      using 1(2) that r by (auto simp: trimmed_def is_prefix_iff)
    then have "trim_space (drop 7 s) = y" by (simp add: trim_space_def y_def [symmetric] trim_runes_id)
    moreover obtain v where "trim_space (drop 7 s) = v @ snd (strip_bearer (trim_space (drop 7 s)))"
      using 1(1) [OF True trim_space_trimmed] by blast
    moreover have "snd (strip_bearer s) = snd (strip_bearer (trim_space (drop 7 s)))" using True by (subst strip_bearer.simps) simp
    ultimately have "s = ((take 7 s @ u) @ v) @ snd (strip_bearer s)" using s by (metis append_assoc)
    then show ?thesis by blast
  next
    case False
    then show ?thesis by (subst strip_bearer.simps) auto
  qed
qed

text \<open>A usable token: not empty, without white space at its ends, and no bearer word of its own.\<close>

definition plain_token :: "string \<Rightarrow> bool" where
  "plain_token t \<longleftrightarrow> t \<noteq> [] \<and> trimmed t \<and> \<not> ascii_fold_eq t ''bearer'' \<and> \<not> ascii_fold_eq (take 7 t) ''bearer ''"

lemma strip_plain: "plain_token t \<Longrightarrow> strip_bearer t = (False, t)"
  by (subst strip_bearer.simps) (simp add: plain_token_def)

lemma bearer_word: "ascii_fold_eq ''Bearer '' ''bearer ''"
  by code_simp

lemma strip_bearer_token: "plain_token t \<Longrightarrow> strip_bearer (''Bearer '' @ t) = (True, t)"
  using strip_plain [of t] trim_trimmed [of t]
  by (subst strip_bearer.simps) (simp add: plain_token_def bearer_word)

lemma bearer_trimmed:
  assumes "plain_token t"
  shows "trimmed (''Bearer '' @ t)"
proof -
  have "\<not> is_prefix (rev r) (rev t @ rev ''Bearer '')" if r: "r \<in> set space_runes" for r
  proof
    assume p: "is_prefix (rev r) (rev t @ rev ''Bearer '')"
    obtain c cs where t: "rev t = c # cs" using assms by (cases "rev t") (auto simp: plain_token_def)
    have n: "\<not> is_prefix (rev r) (rev t)" using assms r by (simp add: plain_token_def trimmed_def)
    show False
    proof (cases "CHR 0x20 \<in> set r")
      case True
      then have "r = [CHR 0x20]" using r by (auto simp: space_runes_def)
      then show False using p n t by simp
    next
      case False
      obtain z where z: "rev t @ rev ''Bearer '' = rev r @ z" using p by (auto simp: is_prefix_iff)
      have "\<not> length (rev r) \<le> length (rev t)" using z n by (metis append_eq_append_conv_if is_prefix_iff append_take_drop_id)
      then have "(rev t @ rev ''Bearer '') ! length (rev t) \<in> set (rev r)" unfolding z
        using nth_mem [of "length (rev t)" "rev r"] by (simp add: nth_append)
      then show False using False by (simp add: nth_append)
    qed
  qed
  moreover have "\<not> is_prefix r (''Bearer '' @ t)" if "r \<in> set space_runes" for r using that by (auto simp: space_runes_def)
  ultimately show ?thesis by (simp add: trimmed_def)
qed

definition configured_token :: "Config \<Rightarrow> string" where
  "configured_token cfg = (case cg_Auth cfg of None \<Rightarrow> [] | Some a \<Rightarrow> au_Token a)"

lemma auth_decide_sound:
  assumes "auth_decide env token header = Next" "\<not> ascii_fold_eq env ''development''"
  shows "token \<noteq> [] \<and> (\<exists>u. trim_space header = u @ token)"
proof -
  have "token \<noteq> []" "snd (strip_bearer (trim_space header)) = token"
    using assms by (auto simp: auth_decide_def Let_def split: if_splits prod.splits)
  then show ?thesis using strip_bearer_suffix [OF trim_space_trimmed [of header]] by metis
qed

lemma auth_decide_complete:
  assumes "plain_token token" "header = token \<or> header = ''Bearer '' @ token"
  shows "auth_decide env token header = Next"
proof (cases "header = token")
  case True
  then show ?thesis using assms(1) strip_plain [OF assms(1)] trim_trimmed [of token] by (simp add: auth_decide_def plain_token_def)
next
  case False
  then have h: "header = ''Bearer '' @ token" using assms(2) by simp
  have "trim_space header = ''Bearer '' @ token" using trim_trimmed [OF bearer_trimmed [OF assms(1)]] h by simp
  moreover have "\<not> ascii_fold_eq (''Bearer '' @ token) ''bearer''" by (simp add: ascii_fold_eq_def)
  ultimately show ?thesis using assms(1) strip_bearer_token [OF assms(1)] by (simp add: auth_decide_def plain_token_def)
qed

text \<open>C10: Outside development every route of the REST API is closed without the token: the request is answered with 401, or a token is
  configured, the Authorization header ends with it, and the route's handler answers. With a usable token, a request that carries it,
  plain or after the word Bearer, is always let through.\<close>

theorem api_needs_token:
  assumes "(p, h) \<in> set (census_Register cfg handlers)" and "\<not> ascii_fold_eq (ac_Env (cg_App cfg)) ''development''"
  shows "((\<exists>m. h r = respondUnauthorized m \<and> sent_status (rn_writes (h r)) = 401)
      \<or> h r = handlers p r \<and> configured_token cfg \<noteq> [] \<and> (\<exists>u. trim_space (hr_Authorization r) = u @ configured_token cfg))
    \<and> (plain_token (configured_token cfg)
        \<and> (hr_Authorization r = configured_token cfg \<or> hr_Authorization r = ''Bearer '' @ configured_token cfg) \<longrightarrow> h r = handlers p r)"
proof -
  have h: "h = APIAuth (ac_Env (cg_App cfg)) (configured_token cfg) (handlers p)"
    using assms(1) by (auto simp: census_Register_def configured_token_def Let_def)
  show ?thesis
  proof (cases "auth_decide (ac_Env (cg_App cfg)) (configured_token cfg) (hr_Authorization r)")
    case Next
    then show ?thesis using auth_decide_sound [OF Next assms(2)] by (simp add: h APIAuth_def)
  next
    case (Unauthorized m)
    then show ?thesis using auth_decide_complete by (auto simp: h APIAuth_def respondUnauthorized_def)
  qed
qed

section \<open>What the middleware reports\<close>

lemma log_write_step:
  "(if length (concat bs) < maxLogBody then buf = concat bs else buf = take maxLogBody (concat bs) @ truncated_mark) \<Longrightarrow>
     (if length (concat (bs @ [b])) < maxLogBody then log_write b buf = concat (bs @ [b])
      else log_write b buf = take maxLogBody (concat (bs @ [b])) @ truncated_mark)"
  by (auto simp: log_write_def Let_def split: if_splits)

text \<open>The logged response body is what was written, cut at 4096 bytes; the mark is also added when exactly 4096 bytes were written.\<close>

lemma logged_response: "fold log_write bs [] = (if length (concat bs) < maxLogBody then concat bs else take maxLogBody (concat bs) @ truncated_mark)"
proof (induction bs rule: rev_induct)
  case (snoc b bs)
  then show ?case using log_write_step [of bs "fold log_write bs []" b] by (auto split: if_splits)
qed (simp add: maxLogBody_def)

text \<open>The status is set at most once, and before the body.\<close>

fun bytes_only :: "http_write list \<Rightarrow> bool" where
  "bytes_only [] = True"
| "bytes_only (WHeader c # ws) = False"
| "bytes_only (WBytes b # ws) = bytes_only ws"

definition header_once :: "http_write list \<Rightarrow> bool" where
  "header_once ws \<longleftrightarrow> bytes_only ws \<or> (\<exists>c ws'. ws = WHeader c # ws' \<and> bytes_only ws')"

lemma recorded_bytes_only: "bytes_only ws \<Longrightarrow> recorded_status c ws = c"
  by (induction ws rule: bytes_only.induct) auto

lemma header_once_status: "header_once ws \<Longrightarrow> recorded_status 200 ws = sent_status ws"
  by (auto simp: header_once_def recorded_bytes_only) (cases ws rule: bytes_only.cases; simp)

definition access_lines :: "http_event list \<Rightarrow> int list" where
  "access_lines es = concat (map (\<lambda>e. case e of Logged m b st t \<Rightarrow> [st] | _ \<Rightarrow> []) es)"

definition counted_statuses :: "http_event list \<Rightarrow> string list" where
  "counted_statuses es = concat (map (\<lambda>e. case e of Counted m p st \<Rightarrow> [st] | _ \<Rightarrow> []) es)"

lemma init_logging_shape: "\<exists>f. init_logging cfg = logging_with f"
  unfolding init_logging_def LoggingColored_def LoggingSimple_def Let_def by (simp split: if_split; blast)

lemma sent_status_append: "sent_status (ws @ ws') = (if ws = [] then sent_status ws' else sent_status ws)"
  by (cases ws rule: bytes_only.cases) auto

text \<open>Every request that the server serves is accounted for once: the access log and the request counter get one entry each, and when
  the handler sets the status at most once and before the body, both carry the status that the client got. A handler that panics is
  answered with 500 when it has not written anything yet, but it is neither counted nor in the access log.\<close>

lemma requests_accounted:
  fixes h :: http_handler and cfg :: Config and client :: "statsd option" and limit seen :: "64 word" and d :: duration
  assumes "rn_events (h r) = []"
  defines "x \<equiv> server_chain cfg client limit seen d h r"
  shows "\<not> rn_panic x
    \<and> (\<not> rn_panic (h r) \<longrightarrow> rn_writes x = rn_writes (h r) \<and> length (access_lines (rn_events x)) = 1 \<and> length (counted_statuses (rn_events x)) = 1
        \<and> (header_once (rn_writes (h r)) \<longrightarrow> access_lines (rn_events x) = [sent_status (rn_writes x)]
             \<and> counted_statuses (rn_events x) = [show_int (sent_status (rn_writes x))]))
    \<and> (rn_panic (h r) \<longrightarrow> access_lines (rn_events x) = [] \<and> counted_statuses (rn_events x) = []
        \<and> sent_status (rn_writes x) = (if rn_writes (h r) = [] then 500 else sent_status (rn_writes (h r))))"
proof -
  obtain f where f: "init_logging (cg_Logging cfg) = logging_with f" using init_logging_shape by blast
  note defs = x_def server_chain_def Chain_def f Recoverer_def logging_with_def MaxReq_Handler_def MetricsWithRegistry_def Let_def
    access_lines_def counted_statuses_def
  show ?thesis
  proof (cases "rn_panic (h r)")
    case True
    then show ?thesis using assms(1) by (simp add: defs sent_status_append)
  next
    case False
    have "length (access_lines (rn_events x)) = 1 \<and> access_lines (rn_events x) = [recorded_status 200 (rn_writes (h r))]"
      using False assms(1) by (cases client) (simp_all add: defs)
    moreover have "length (counted_statuses (rn_events x)) = 1 \<and> counted_statuses (rn_events x) = [show_int (recorded_status 200 (rn_writes (h r)))]"
      using False assms(1) by (cases client) (simp_all add: defs)
    moreover have "rn_writes x = rn_writes (h r)" "\<not> rn_panic x" using False by (simp_all add: defs)
    ultimately show ?thesis using False header_once_status by simp
  qed
qed

text \<open>C21: The readiness probe does not notice that the database is gone: once the driver could be opened at start-up, the probe answers 200
  with a healthy database whatever the query would report, because the error of the query is left in the row that nobody scans.\<close>

theorem readiness_ignores_outages:
  assumes "NewDriver g sql_Open cfg fs db0 = (Inr d, db1)"
  shows "router_ready g sql_Open (Some d) row db = (200, ''ready'', ''healthy'')"
proof -
  have "dr_once d = Some None"
    using assms by (auto simp: NewDriver_def Driver_initialise_def split: option.splits prod.splits)
  then show ?thesis by (simp add: router_ready_def PingContext_def Driver_FetchOne_def Driver_query_def Driver_initialise_def Ready_def)
qed

section \<open>Examples\<close>

definition demo_http :: Config where
  "demo_http = \<lparr>cg_App = \<lparr>ac_Name = [], ac_Env = ''production'', ac_BaseURL = []\<rparr>, cg_Logging = None,
     cg_HTTP = \<lparr>hc_Host = [], hc_Port = 80, hc_ReadTimeout = [], hc_WriteTimeout = [], hc_IdleTimeout = []\<rparr>,
     cg_Auth = Some \<lparr>au_Enabled = True, au_Token = ''s3cret'', au_Routes = [], au_Users = []\<rparr>, cg_Metrics = None, cg_Postgres = None,
     cg_RabbitMQ = None, cg_QueueMaxAttempts = None, cg_Lodestone = None, cg_Census = None, cg_Proxy = None\<rparr>"

definition demo_page :: http_handler where
  "demo_page r = \<lparr>rn_writes = [WHeader 404, WBytes ''gone''], rn_panic = False, rn_events = []\<rparr>"

definition demo_request :: "string \<Rightarrow> http_request" where
  "demo_request auth = \<lparr>hr_Method = ''GET'', hr_Path = ''/api/v1/census/latest'', hr_Authorization = auth, hr_Body = []\<rparr>"

theorem api_needs_token_witness:
  "APIAuth ''production'' ''s3cret'' demo_page (demo_request ''Bearer s3cret'') = demo_page (demo_request ''Bearer s3cret'')"
proof -
  let ?r = "demo_request ''Bearer s3cret''" and ?h = "APIAuth ''production'' ''s3cret'' demo_page"
  have m: "(''GET /api/v1/census/latest'', ?h) \<in> set (census_Register demo_http (\<lambda>_. demo_page))"
    by (simp add: census_Register_def demo_http_def api_patterns_def Let_def)
  have e: "\<not> ascii_fold_eq (ac_Env (cg_App demo_http)) ''development''" by code_simp
  have t: "configured_token demo_http = ''s3cret''" by code_simp
  have p: "plain_token ''s3cret''" by code_simp
  show ?thesis using api_needs_token [OF m e, of ?r, THEN conjunct2] unfolding t by (simp add: p demo_request_def)
qed

definition healthy_goose :: goose where
  "healthy_goose = \<lparr>go_NewProvider = (\<lambda>_. None), go_Up = (\<lambda>ms db. (None, db)), go_DownTo0 = (\<lambda>ms db. (None, db))\<rparr>"

theorem readiness_ignores_outages_witness:
  "\<exists>d. NewDriver healthy_goose (\<lambda>_. None) (Some (PostgresConfig.make [] [] 0 [] [] [] [] 0 0)) (Some []) fresh_database = (Inr d, fresh_database)
     \<and> router_ready healthy_goose (\<lambda>_. None) (Some d) (\<lambda>_. Inl (EText ''connection refused'')) fresh_database = (200, ''ready'', ''healthy'')"
proof -
  obtain d where d: "NewDriver healthy_goose (\<lambda>_. None) (Some (PostgresConfig.make [] [] 0 [] [] [] [] 0 0)) (Some []) fresh_database = (Inr d, fresh_database)"
    by (simp add: NewDriver_def Driver_initialise_def Driver_migrateUp_def goose_up_def healthy_goose_def)
  then show ?thesis using readiness_ignores_outages [OF d] by blast
qed

end
