(* ===== verification/Schema_Use.thy ===== *)
theory Schema_Use
  imports Pg_Driver
begin

text \<open>
  The schema that the migrations build and the columns that the repositories name. The column lists are those of the SQL texts in
  infrastructure/postgres/repository; each is declared beside the statement it is taken from. The theorem says that the migration files
  and the repositories agree, from whatever release a database is upgraded, and that every release can be rolled back.
\<close>

section \<open>The columns that the statements name\<close>

text \<open>character.go: the select list of every read of a character, and the columns that Upsert inserts.\<close>

definition characterColumns :: "string list" where
  "characterColumns = [''id'', ''name'', ''world'', ''datacenter'', ''region'', ''race'', ''tribe'', ''gender'', ''grand_company'',
     ''fc_id'', ''fc_name'', ''bio'', ''active_job'', ''item_level'', ''achievements_private'', ''latest_achievement_id'',
     ''latest_achievement_at'', ''first_seen_at'', ''last_census_at'', ''deleted_at'']"

definition upsert_columns :: "string list" where
  "upsert_columns = [''id'', ''name'', ''world'', ''datacenter'', ''region'', ''race'', ''tribe'', ''gender'', ''grand_company'',
     ''fc_id'', ''fc_name'', ''bio'', ''active_job'', ''item_level'', ''achievements_private'', ''latest_achievement_id'',
     ''latest_achievement_at'', ''first_seen_at'', ''last_census_at'', ''deleted_at'', ''max_job_level'']"

definition job_columns :: "string list" where
  "job_columns = [''character_id'', ''class_job_id'', ''name'', ''level'', ''exp_level'']"

definition gear_columns :: "string list" where
  "gear_columns = [''character_id'', ''slot'', ''item_id'', ''name'', ''item_level'', ''dye'', ''materia'', ''updated_at'']"

definition fill_gaps_columns :: "string list" where
  "fill_gaps_columns = [''singleton'', ''last_queued_id'', ''updated_at'']"

definition id_sweep_columns :: "string list" where
  "id_sweep_columns = [''singleton'', ''next_id'', ''updated_at'']"

text \<open>achievement.go and census\_run.go.\<close>

definition registry_columns :: "string list" where
  "registry_columns = [''achievement_id'', ''kind'', ''expansion'', ''detail'']"

definition milestone_columns :: "string list" where
  "milestone_columns = [''character_id'', ''achievement_id'', ''achieved_at'']"

definition run_start_columns :: "string list" where
  "run_start_columns = [''started_at'', ''id'']"

definition run_finish_columns :: "string list" where
  "run_finish_columns = [''finished_at'', ''characters_seen'', ''new_characters'', ''id'']"

text \<open>proxy.go and proxy\_scan.go: the select list, the columns of a new row and those that a completed scan sets.\<close>

definition proxyColumns :: "string list" where
  "proxyColumns = [''id'', ''protocol'', ''ip'', ''port'', ''country'', ''anonymity'', ''latency_ms'', ''uptime_percent'',
     ''status'', ''last_scanned_at'', ''last_alive_at'', ''first_seen_at'', ''source'', ''fail_count'', ''locked_by'', ''locked_at'',
     ''created_at'', ''updated_at'',
     ''general_healthy'', ''last_completed_at'', ''last_verified_at'', ''next_attempt_at'', ''scan_not_before'', ''recovery_step'',
     ''observation_version'', ''scan_token'', ''scan_lease_until'', ''claimed_version'', ''destination_cooldown_until'']"

definition proxy_insert_columns :: "string list" where
  "proxy_insert_columns = [''protocol'', ''ip'', ''port'', ''country'', ''anonymity'', ''latency_ms'', ''uptime_percent'',
     ''status'', ''last_scanned_at'', ''last_alive_at'', ''first_seen_at'', ''source'', ''fail_count'', ''created_at'', ''updated_at'']"

definition scan_success_columns :: "string list" where
  "scan_success_columns = [''general_healthy'', ''status'', ''latency_ms'', ''last_alive_at'', ''last_verified_at'', ''last_completed_at'',
     ''fail_count'', ''recovery_step'', ''next_attempt_at'', ''scan_not_before'', ''observation_version'', ''scan_token'',
     ''scan_lease_until'', ''claimed_version'', ''updated_at'']"

text \<open>ui\_stats.go.\<close>

definition snapshot_columns :: "string list" where
  "snapshot_columns = [''snapshot_key'', ''schema_version'', ''generated_at'', ''activity_since'', ''max_level'',
     ''source_character_count'', ''refresh_duration_ms'', ''payload'']"

definition named_columns :: "(string \<times> string list) list" where
  "named_columns =
     [(''characters'', characterColumns), (''characters'', upsert_columns), (''character_jobs'', job_columns),
      (''character_gear'', gear_columns), (''fill_gaps_state'', fill_gaps_columns), (''id_sweep_state'', id_sweep_columns),
      (''milestone_achievements'', registry_columns), (''character_milestones'', milestone_columns),
      (''census_runs'', run_start_columns), (''census_runs'', run_finish_columns),
      (''proxies'', proxyColumns), (''proxies'', proxy_insert_columns), (''proxies'', scan_success_columns),
      (''ui_stats_snapshots'', snapshot_columns)]"

definition columns_named :: "string \<Rightarrow> string set" where
  "columns_named t = set (concat (map snd (filter (\<lambda>x. fst x = t) named_columns)))"

section \<open>The migrated schema\<close>

text \<open>Both sides as sets: every table of the catalogue is named, and a table has exactly the columns named for it.\<close>

definition serves :: "catalogue \<Rightarrow> bool" where
  "serves c \<longleftrightarrow> set (map fst (pg_tables c)) = set (map fst named_columns)
     \<and> (\<forall>t \<in> set (map fst named_columns). set (columns c t) = columns_named t \<and> distinct (columns c t))"

lemma fresh_schema: "case apply_up migration_FS fresh_database of None \<Rightarrow> False | Some db \<Rightarrow> serves (db_catalogue db)"
  by code_simp

section \<open>Rolling back\<close>

text \<open>The tables that statements create and drop.\<close>

definition names :: "catalogue \<Rightarrow> string set" where
  "names c = set (map fst (pg_tables c))"

fun creates :: "statement \<Rightarrow> string list" where
  "creates (CreateTable ine t cs ks refs) = [t]"
| "creates _ = []"

fun drops :: "statement \<Rightarrow> string list" where
  "drops (DropTable t) = [t]"
| "drops (DropTableCascade t) = [t]"
| "drops _ = []"

text \<open>Indexes, constraints, references and rows belong to a table that exists.\<close>

definition attached :: "catalogue \<Rightarrow> bool" where
  "attached c \<longleftrightarrow> (\<forall>x \<in> set (pg_indexes c). fst (snd x) \<in> names c) \<and> (\<forall>x \<in> set (pg_constraints c). fst x \<in> names c)
     \<and> (\<forall>x \<in> set (pg_references c). fst x \<in> names c) \<and> (pg_queue c \<noteq> [] \<longrightarrow> ''queue_jobs'' \<in> names c)"

lemma names_simps [simp]:
  "names (replace_columns t cs c) = names c" "names (forget_table t c) = names c - {t}"
  "names (c\<lparr>pg_tables := xs\<rparr>) = fst ` set xs" "names (c\<lparr>pg_indexes := is\<rparr>) = names c" "names (c\<lparr>pg_constraints := ks\<rparr>) = names c"
  "names (c\<lparr>pg_references := rs\<rparr>) = names c" "has_table c t = (t \<in> names c)" "fst ` set (pg_tables c) = names c"
  by (force simp: names_def replace_columns_def forget_table_def has_table_def)+

lemma attached_replace [simp]: "attached (replace_columns t cs c) = attached c"
  unfolding attached_def names_simps by (simp add: replace_columns_def)

lemma attached_forget: "attached c \<Longrightarrow> attached (forget_table t c)"
  unfolding attached_def names_simps by (auto simp: forget_table_def)

lemma exec_names: "exec s c = Some c' \<Longrightarrow> names c' \<subseteq> names c - set (drops s) \<union> set (creates s)"
  by (cases s) (auto split: if_splits)

lemma attached_create:
  "attached c \<Longrightarrow> attached (c\<lparr>pg_tables := pg_tables c @ [(t, cs)], pg_constraints := pg_constraints c @ map (Pair t) ks,
     pg_references := pg_references c @ map (Pair t) refs\<rparr>)"
  unfolding attached_def by auto

lemma attached_index: "attached c \<Longrightarrow> attached (c\<lparr>pg_indexes := filter P (pg_indexes c)\<rparr>)"
  "attached c \<Longrightarrow> t \<in> names c \<Longrightarrow> attached (c\<lparr>pg_indexes := pg_indexes c @ [(i, t, cs)]\<rparr>)"
  unfolding attached_def by auto

lemma attached_constraint: "attached c \<Longrightarrow> attached (c\<lparr>pg_constraints := filter P (pg_constraints c)\<rparr>)"
  "attached c \<Longrightarrow> t \<in> names c \<Longrightarrow> attached (c\<lparr>pg_constraints := pg_constraints c @ [(t, k)]\<rparr>)"
  unfolding attached_def by auto

lemma exec_attached: "exec s c = Some c' \<Longrightarrow> attached c \<Longrightarrow> attached c'"
  by (cases s) (auto split: if_splits intro: attached_forget attached_create attached_index attached_constraint)

lemma exec_all_names:
  "exec_all ss c = Some c' \<Longrightarrow> names c' \<subseteq> names c \<union> set (concat (map creates ss))"
proof (induction ss arbitrary: c)
  case (Cons s ss)
  then obtain c1 where "exec s c = Some c1" "exec_all ss c1 = Some c'" by (auto split: option.splits)
  with Cons.IH [of c1] exec_names [of s c c1] show ?case by auto
qed simp

lemma exec_all_drops:
  "exec_all ss c = Some c' \<Longrightarrow> concat (map creates ss) = [] \<Longrightarrow> names c' \<subseteq> names c - set (concat (map drops ss))"
proof (induction ss arbitrary: c)
  case (Cons s ss)
  then obtain c1 where "exec s c = Some c1" "exec_all ss c1 = Some c'" by (auto split: option.splits)
  with Cons.IH [of c1] exec_names [of s c c1] Cons.prems(2) show ?case by auto
qed simp

lemma exec_all_attached: "exec_all ss c = Some c' \<Longrightarrow> attached c \<Longrightarrow> attached c'"
  by (induction ss arbitrary: c) (auto split: option.splits dest: exec_attached)

text \<open>A migration is undone by its Down part when that drops the tables which the Up part creates, and creates none.\<close>

definition undone :: "migration \<Rightarrow> bool" where
  "undone m \<longleftrightarrow> set (concat (map creates (mi_up m))) \<subseteq> set (concat (map drops (mi_down m))) \<and> concat (map creates (mi_down m)) = []"

text \<open>The recorded versions account for every table.\<close>

definition accounted :: "migration list \<Rightarrow> database \<Rightarrow> bool" where
  "accounted all_ms db \<longleftrightarrow> attached (db_catalogue db) \<and> set (db_versions db) \<subseteq> set (map mi_version all_ms)
     \<and> names (db_catalogue db) \<subseteq> (\<Union>m \<in> {m \<in> set all_ms. mi_version m \<in> set (db_versions db)}. set (concat (map creates (mi_up m))))"

lemma accounted_fresh: "accounted ms fresh_database"
  by (simp add: accounted_def attached_def names_def fresh_database_def empty_catalogue_def)

lemma accounted_up:
  "apply_up ms db = Some db' \<Longrightarrow> set ms \<subseteq> set all_ms \<Longrightarrow> accounted all_ms db \<Longrightarrow> accounted all_ms db'"
proof (induction ms arbitrary: db)
  case (Cons m ms)
  show ?case
  proof (cases "mi_version m \<in> set (db_versions db)")
    case True
    with Cons show ?thesis by simp
  next
    case False
    then obtain c where c: "exec_all (mi_up m) (db_catalogue db) = Some c"
      and rest: "apply_up ms \<lparr>db_catalogue = c, db_versions = db_versions db @ [mi_version m]\<rparr> = Some db'"
      using Cons.prems(1) by (auto split: option.splits)
    have "accounted all_ms \<lparr>db_catalogue = c, db_versions = db_versions db @ [mi_version m]\<rparr>"
      using exec_all_names [OF c] exec_all_attached [OF c] Cons.prems(2,3) unfolding accounted_def by (auto simp del: set_concat) blast
    with Cons.IH [OF rest] Cons.prems(2) show ?thesis by simp
  qed
qed simp

lemma accounted_down:
  assumes "distinct (map mi_version all_ms)" and "\<forall>m\<in>set all_ms. undone m"
    and "apply_down ms db = Some db'" and "set ms \<subseteq> set all_ms" and "accounted all_ms db"
  shows "accounted all_ms db' \<and> set (db_versions db') \<subseteq> set (db_versions db) - set (map mi_version ms)"
  using assms(3,4)
proof (induction ms arbitrary: db')
  case Nil
  then show ?case using assms(5) by simp
next
  case (Cons m ms)
  then obtain db1 where db1: "apply_down ms db = Some db1" by (auto split: option.splits)
  from Cons.IH [OF this] Cons.prems(2) have ih: "accounted all_ms db1"
    "set (db_versions db1) \<subseteq> set (db_versions db) - set (map mi_version ms)" by auto
  show ?case
  proof (cases "mi_version m \<in> set (db_versions db1)")
    case False
    with Cons.prems db1 ih show ?thesis by auto
  next
    case True
    then obtain c where c: "exec_all (mi_down m) (db_catalogue db1) = Some c"
      and db': "db' = \<lparr>db_catalogue = c, db_versions = filter (\<lambda>v. v \<noteq> mi_version m) (db_versions db1)\<rparr>"
      using Cons.prems(1) db1 by (auto split: option.splits)
    have u: "undone m" and only: "\<And>m'. m' \<in> set all_ms \<Longrightarrow> mi_version m' = mi_version m \<Longrightarrow> m' = m"
      using assms(1,2) Cons.prems(2) by (auto simp: distinct_map inj_on_def)
    have sub: "names c \<subseteq> names (db_catalogue db1) - set (concat (map drops (mi_down m)))"
      using exec_all_drops [OF c] u by (simp add: undone_def)
    have "\<exists>m' \<in> set all_ms. mi_version m' \<in> set (db_versions db') \<and> t \<in> set (concat (map creates (mi_up m')))" if t: "t \<in> names c" for t
    proof -
      obtain m' where m': "m' \<in> set all_ms" "mi_version m' \<in> set (db_versions db1)" "t \<in> set (concat (map creates (mi_up m')))"
        using t sub ih(1) unfolding accounted_def by blast
      then have "m' \<noteq> m" using t sub u unfolding undone_def by blast
      with m' only show ?thesis unfolding db' by auto
    qed
    moreover have "attached c" using exec_all_attached [OF c] ih(1) by (simp add: accounted_def)
    moreover have "set (db_versions db') \<subseteq> set (map mi_version all_ms)" using ih(1) unfolding accounted_def db' by auto
    ultimately have "accounted all_ms db'" unfolding accounted_def by (auto simp: db' simp del: set_concat)
    with ih(2) show ?thesis unfolding db' by auto
  qed
qed

lemma attached_empty:
  assumes "attached c" and "names c = {}"
  shows "c = empty_catalogue"
proof -
  have "pg_tables c = []" using assms(2) by (simp add: names_def del: names_simps)
  moreover have "\<forall>x. x \<notin> set (pg_indexes c)" "\<forall>x. x \<notin> set (pg_constraints c)" "\<forall>x. x \<notin> set (pg_references c)" "pg_queue c = []"
    using assms unfolding attached_def by blast+
  then have "pg_indexes c = []" "pg_constraints c = []" "pg_references c = []" "pg_queue c = []" by (metis list.set_intros(1) neq_Nil_conv)+
  ultimately show ?thesis by (simp add: empty_catalogue_def)
qed

lemma migration_files: "distinct (map mi_version migration_FS)" "\<forall>m\<in>set migration_FS. undone m"
  by code_simp+

lemma rolled_back:
  assumes "apply_down migration_FS db = Some db'" and "accounted migration_FS db"
  shows "db' = fresh_database"
proof -
  have a: "accounted migration_FS db'" "set (db_versions db') \<subseteq> set (db_versions db) - set (map mi_version migration_FS)"
    using accounted_down [OF migration_files assms(1) _ assms(2)] by auto
  then have v: "db_versions db' = []" using assms(2) unfolding accounted_def by (metis Diff_eq_empty_iff set_empty subset_empty)
  with a(1) have "names (db_catalogue db') = {}" "attached (db_catalogue db')" by (auto simp: accounted_def)
  with attached_empty v show ?thesis by (metis database.surjective fresh_database_def old.unit.exhaust)
qed

section \<open>Databases under the migration tool\<close>

text \<open>What a database can be that only goose has changed: some release of the migration files was applied to it, and
  later ones, and it may have been rolled back in between.\<close>

inductive managed :: "goose \<Rightarrow> database \<Rightarrow> bool" for g :: goose where
  created: "managed g fresh_database"
| upgraded: "managed g db \<Longrightarrow> go_Up g (take k migration_FS) db = (None, db') \<Longrightarrow> managed g db'"
| rolled: "managed g db \<Longrightarrow> go_DownTo0 g migration_FS db = (None, db') \<Longrightarrow> managed g db'"

lemma up_prefixes:
  assumes "apply_up (take k ms) db = Some db0" and "apply_up (take j ms) db0 = Some db1"
  shows "apply_up (take (max k j) ms) db = Some db1"
proof (cases "j \<le> k")
  case True
  have "set (map mi_version (take j ms)) \<subseteq> set (map mi_version (take k ms))"
    using set_take_subset_set_take [OF True, of "map mi_version ms"] by (simp add: take_map)
  then have "set (map mi_version (take j ms)) \<subseteq> set (db_versions db0)" using apply_up_versions [OF assms(1)] by blast
  with apply_up_recorded assms True show ?thesis by (metis max.absorb1)
next
  case False
  then have "take j ms = take k ms @ drop k (take j ms)" by (metis append_take_drop_id min.absorb1 nle_le take_take)
  with apply_up_resume [OF assms(1), of "drop k (take j ms)"] assms(2) False show ?thesis by (simp add: max_def)
qed

lemma managed_release:
  assumes "goose_documented g" and "managed g db"
  shows "accounted migration_FS db \<and> (\<exists>k. apply_up (take k migration_FS) fresh_database = Some db)"
  using assms(2)
proof (induction rule: managed.induct)
  case created
  show ?case by (intro conjI exI [of _ 0]) (simp_all add: accounted_fresh)
next
  case (upgraded db k db')
  then have u: "apply_up (take k migration_FS) db = Some db'" using assms(1) by (simp add: goose_documented_def)
  from accounted_up [OF u set_take_subset] up_prefixes [OF _ u] upgraded.IH show ?case by blast
next
  case (rolled db db')
  then have "apply_down migration_FS db = Some db'" using assms(1) by (simp add: goose_documented_def)
  from rolled_back [OF this] rolled.IH accounted_fresh show ?case by (auto intro: exI [of _ 0])
qed

text \<open>Every statement of the files can be executed: the Up parts on any such database, and the Down parts on a migrated one.\<close>

lemma full_rollback: "case apply_up migration_FS fresh_database of None \<Rightarrow> False | Some db \<Rightarrow> apply_down migration_FS db \<noteq> None"
  by code_simp

lemma managed_migrates:
  assumes "goose_documented g" and "managed g db"
  shows "apply_up migration_FS db = apply_up migration_FS fresh_database"
proof -
  obtain k where "apply_up (take k migration_FS) fresh_database = Some db" using managed_release [OF assms] by blast
  from apply_up_resume [OF this, of "drop k migration_FS"] show ?thesis by simp
qed

section \<open>Properties\<close>

text \<open>C22: The migration files and the repositories agree. However goose has brought a database to its state (older releases applied
  first, rollbacks in between): when it applies all migrations, the database has exactly the tables that the repositories' statements
  name, and each exactly the columns they name; applying the migrations again changes nothing; and when it rolls back, from whatever
  release, the database is empty again, with no table, index, constraint or record left behind. No
  statement of the files is refused: all pending ones can be executed, and after that all of the rollback.\<close>

theorem migrations_roundtrip:
  assumes "goose_documented g" and "managed g db"
  shows "(\<exists>db1 db3. apply_up migration_FS db = Some db1 \<and> apply_down migration_FS db1 = Some db3)
    \<and> (\<forall>db1. go_Up g migration_FS db = (None, db1) \<longrightarrow> serves (db_catalogue db1)
          \<and> (\<forall>db2. go_Up g migration_FS db1 = (None, db2) \<longrightarrow> db2 = db1))
    \<and> (\<forall>db3. go_DownTo0 g migration_FS db = (None, db3) \<longrightarrow> db3 = fresh_database)"
proof (intro conjI allI impI)
  note up = managed_migrates [OF assms, symmetric]
  show "\<exists>db1 db3. apply_up migration_FS db = Some db1 \<and> apply_down migration_FS db1 = Some db3"
    using full_rollback by (auto simp: up split: option.splits)
  fix db1
  assume "go_Up g migration_FS db = (None, db1)"
  then have u: "apply_up migration_FS db = Some db1" using assms(1) by (simp add: goose_documented_def)
  with fresh_schema show "serves (db_catalogue db1)" by (simp add: up)
  fix db2
  assume "go_Up g migration_FS db1 = (None, db2)"
  then have "apply_up migration_FS db1 = Some db2" using assms(1) by (simp add: goose_documented_def)
  moreover have "apply_up migration_FS db1 = Some db1" using apply_up_versions [OF u] by (intro apply_up_recorded) auto
  ultimately show "db2 = db1" by simp
next
  fix db3
  assume "go_DownTo0 g migration_FS db = (None, db3)"
  then have "apply_down migration_FS db = Some db3" using assms(1) by (simp add: goose_documented_def)
  with rolled_back managed_release [OF assms] show "db3 = fresh_database" by blast
qed

text \<open>An upgrade of release 9, and a rollback of all.\<close>

theorem migrations_roundtrip_witness:
  "\<exists>db db1. go_Up plain_goose (take 9 migration_FS) fresh_database = (None, db)
     \<and> go_Up plain_goose migration_FS db = (None, db1) \<and> serves (db_catalogue db1)
     \<and> go_DownTo0 plain_goose migration_FS db1 = (None, fresh_database)"
proof -
  obtain db1 db3 where all: "apply_up migration_FS fresh_database = Some db1" "apply_down migration_FS db1 = Some db3"
    using full_rollback by (auto split: option.splits)
  then obtain db where nine: "apply_up (take 9 migration_FS) fresh_database = Some db"
    using apply_up_append [of "take 9 migration_FS" "drop 9 migration_FS" fresh_database] by (auto split: option.splits)
  have "apply_up migration_FS db = Some db1" using apply_up_resume [OF nine, of "drop 9 migration_FS"] all(1) by simp
  with nine all have u: "go_Up plain_goose (take 9 migration_FS) fresh_database = (None, db)"
    "go_Up plain_goose (take 18 migration_FS) db = (None, db1)" "go_DownTo0 plain_goose migration_FS db1 = (None, db3)"
    by (simp_all add: plain_goose_def migration_FS_def)
  have m: "managed plain_goose db" "managed plain_goose db1"
    using managed.upgraded [OF managed.created u(1)] managed.upgraded [OF _ u(2)] by blast+
  have t: "take 18 migration_FS = migration_FS" by (simp add: migration_FS_def)
  show ?thesis
    using migrations_roundtrip [OF plain_goose_documented m(1)] migrations_roundtrip [OF plain_goose_documented m(2)] u t by auto
qed

end
