(* ===== verification/Spec2Isabelle.thy ===== *)
theory Spec2Isabelle
  imports Census_Pipeline Scan_Protocol Lodestone_Client Proxy_Discovery Web_Laws Commands Http_Server Schema_Use
begin

text \<open>
  \<^bold>\<open>A verification of ffxiv-census.\<close>

  The program collects a census of the characters of a game from its public web site, the Lodestone. Publishers put id ranges on
  RabbitMQ queues; workers take the jobs, fetch pages through a pool of public proxies, store characters and achievements in
  PostgreSQL and publish follow-up jobs; scanners keep the proxy pool checked; a web server shows statistics computed from the
  tables. The theories follow that structure. Every definition keeps the name of the Go declaration it translates where possible.

  \<^bold>\<open>Conventions\<close> (Go\_Prelude). A Go string is a list of bytes, machine integers are words (\<open>u8\<close>, \<open>u32\<close>) or integers with
  \<open>i64\<close>/\<open>i32\<close> wrapping written out, a timestamp is the number of nanoseconds since the zero time, an error is a value of \<open>err\<close>
  with \<open>errors_is\<close> and \<open>errors_as\<close>, and a fallible function returns \<open>err + 'a\<close>. Clocks, random numbers, scheduler
  choices and the outcomes of the network, the broker and the database driver are explicit inputs, so a theorem for all inputs covers every
  failure. A failed statement may or may not have taken effect (\<open>cv_applied\<close>, \<open>si_applied\<close>), which is what a lost connection leaves open.

  \<^bold>\<open>Proxy pool.\<close>
  \<^item> Contract: port/contract: the records and sentinel errors that cross the ports.
  \<^item> Scheduling: domain/proxy/scheduling.go: backoff, jitter, classification of a check and the relative updates of a row.
  \<^item> Admission: domain/proxy/worker/admission.go: exact reservations and the round robin of small workers.
  \<^item> Guard: infrastructure/proxy (guard.go, health.go, checker.go): the endpoint guard and who is to blame for a failed check.
  \<^item> Proxy\_Store, Scan\_Store: infrastructure/postgres/repository (proxy.go, proxy\_scan.go): every statement on the proxies table.
  \<^item> Scan\_Fencing: the row-level step relation of these statements, the table invariant, and what leases and tokens guarantee.
  \<^item> Scan\_Protocol: an abstract protocol of scan leases and consumer locks (one holder each, with version and expiry; results accepted
    from the holder of a live lease only), whose events carry the arguments and clocks of the writes, and the simulation that the
    statements of Proxy\_Store and Scan\_Store implement it.
  \<^item> Scan\_Worker: domain/proxy/worker/scan.go: the dispatcher, its capacity, borrowing, completions and shutdown as a step relation.
  \<^item> Proxy\_Hub: domain/proxy (proxy.go, hub.go, service.go, handler): acquisition and use of a proxy, ingestion of new ones.
  \<^item> Rate\_Limiter: infrastructure/provider: both limiters, with one contract (locale \<open>provider_limiter\<close>).

  \<^bold>\<open>Census.\<close>
  \<^item> Json: encoding/json for the payloads of the program, with case folding of keys and number syntax.
  \<^item> Census\_Store, Census\_Laws: the repositories for characters, achievements, runs and the two cursors; their invariant and laws. How
    PostgreSQL orders rows with equal sort keys is an input of every statement (\<open>cv_tie\<close>).
  \<^item> Census\_Service, Census\_Handlers: domain/census: profile conversion, milestones with their cache, reads, and the three job handlers.
  \<^item> Rabbit\_Queue: infrastructure/rabbitmq/queue.go: publishing with confirms, the retry ladder, dead letters, failed consumers.
  \<^item> Publish\_Jobs: cmd/cli/publish.go: id ranges, chunks, the sweep and gap cursors and the publishing daemon.
  \<^item> Census\_Worker: domain/census/worker and domain/proxy/worker/worker.go: both worker modes, with a proxy owned per goroutine.
  \<^item> Census\_Pipeline: queue, worker, handlers and database composed into one system.

  \<^bold>\<open>Lodestone and proxy lists.\<close>
  \<^item> Lodestone\_Html, Lodestone\_Client: infrastructure/lodestone/client.go: text extraction over the tree of the HTML parser, profiles,
    class lists and achievement pages, the request loop with its retries, Cloudflare detection and provider pauses.
  \<^item> Http\_Stream: infrastructure/httpclient: requests and streams of the plain client and the rotation over proxies, with the trace of
    the proxies that a request was attempted through.
  \<^item> Proxy\_Sources, Proxy\_Discovery: the four list providers (geonode, proxyscrape, pubproxy, textproxy) and the discover command.

  \<^bold>\<open>Statistics, API and web interface.\<close>
  \<^item> UI\_Stats: domain/census (ui\_stats.go, worlds.go): world tables, snapshots, their validation and readers.
  \<^item> UI\_Stats\_Store: repository/ui\_stats.go: the grouping-set queries, Refresh and LoadCurrent.
  \<^item> UI\_Stats\_Cache: ui\_stats\_service.go: the cache as a state machine over interleaved calls.
  \<^item> Census\_Api, Census\_Export: the REST endpoints and the bulk exports over HTTP and on the command line.
  \<^item> Float64: the double-precision operations of the program (conversion, product, quotient, difference, one-decimal text) by
    exact integers and rounding to even, with their error bounds. Calendar: dates and their texts correspond one to one.
  \<^item> Template\_Helpers, Web\_Views: cmd/http/ui: the template functions and every page handler up to the data that the template
    gets. Web\_Laws: what the pages promise each other.

  \<^bold>\<open>Process.\<close>
  \<^item> Config: config/config.go: durations, records, the .env file and the validation.
  \<^item> Wiring: container: how settings become components, each built on first use and kept.
  \<^item> Pg\_Driver: infrastructure/postgres/driver.go and the migration files as statements on the catalogue.
  \<^item> Schema\_Use: the columns that the SQL of the repositories names, and that the migrations build exactly these.
  \<^item> Commands: cmd/cli (consume.go, migrate.go, proxy.go, refresh.go): the commands up to the workers they start.
  \<^item> Metrics: infrastructure/metrics: the Prometheus registry and its output, the StatsD client and the statistics observer.
  \<^item> Http\_Server: cmd/http (middleware, server.go, router.go, app/root): the middleware chain, the token check, health and metrics.

  \<^bold>\<open>What is shown.\<close> No delivery is lost between queue, worker and database, and only unprocessable jobs are dead-lettered; the
  sweep and gap cursors skip no id; a scan result is accepted at most once and only from the holder of a live lease, and a
  consumer failure fences older scans; a job runs only on a proxy that its worker owns; the dispatcher stays within its
  capacity; a character counts as missing only when the Lodestone said so, and a rejected request pauses the provider; discovery
  publishes only unknown proxies and not more than asked for; the milestones stored are those of the requested pages; upserts keep
  history; the statistics cache loads once at a time and forgets no waiter, its
  snapshots agree with the database, exports are complete unless they fail, and the pages made from a snapshot agree with each other, with
  percentages right to the shown digit; every API route needs the token; the container builds each component once; an accepted
  configuration can be scheduled as long as its sums fit into an int; the migrations build the schema that the repositories use and can be
  rolled back. Three theorems show faults of the code: the queue
  migration drops the table that it is to read, the readiness probe cannot see an outage, and the statistics cannot be refreshed
  once a character has no data centre. Three lemmas show smaller ones: pages of the directory in an order with ties can repeat a character
  (\<open>tied_pages_repeat\<close>), weights whose sum wraps are accepted (\<open>overflowing_weights_accepted\<close>), and a wrong lock time is
  replaced silently (\<open>lock_ttl_not_validated\<close>).

  \<^bold>\<open>Interfaces.\<close> Where one component relies on another the contract is a locale, interpreted on the
  model of the provider: \<open>provider_limiter\<close>, \<open>sweep_queue\<close> and \<open>gap_scanner\<close> (publisher on queue and cursors),
  \<open>proxy_worker\<close> (worker on the proxy table), \<open>census_ports_plain\<close> (handlers on the repositories), \<open>row_writer\<close> (exports on
  their callbacks), \<open>stream_client\<close> (list providers on the HTTP client), \<open>proxy_provider\<close> and \<open>discovery_world\<close> (discovery on
  the providers, the queue and the table) and others in their theories. Code outside the repository is a parameter: viper, net/url,
  goose (\<open>goose_documented\<close>), the HTML parser, the network, the broker and the database.

  \<^bold>\<open>Bounds.\<close> Loops over data are structural or have a termination proof (the bearer words of a header and the white space around
  them, the terms of a duration). A loop that waits for the outside world takes the list of what it will observe
  (WaitUntilAvailable) or a number of attempts (waitForProxy, the pages of Geonode); returning is then proved from a hypothesis on these
  inputs (a proxy becomes claimable, the clock passes the end of the pause, the reported totals are bounded by \<open>T\<close>, for which \<open>T / 100 + 1\<close> pages
  are enough).

  \<^bold>\<open>Not modelled.\<close> The rendering of the templates and the static files; parsing, route patterns, TLS and sockets of net/http; dialing and
  proxy handshakes of the HTTP clients; the connection management of the AMQP client and of the database pool; the terminal
  formatting of log lines; the flag parsing of the commands. They are third-party or library code around the modelled functions and keep no
  state that these rely on; their outcomes are the inputs above. Generated API descriptions, the proxy test servers and the mock
  repositories hold no logic of the program.
\<close>

end
